(* ===== verification/Prelude.thy ===== *)
theory Prelude
  imports Main
begin

text \<open>
  Shared vocabulary of the development. It holds
  \<^item> the result type of fallible code, \<open>error + 'a\<close>, with its sequencing \<open>bindR\<close>, the assertion
    helper of \<open>utils/validation.ts\<close> and the loops \<open>foldR\<close> and \<open>mapR\<close> that stop at the first error
    as a thrown exception does;
  \<^item> JavaScript's insertion-ordered \<open>Map\<close> as an association list with distinct keys
    (\<open>jm_set\<close> keeps the position of an existing key and appends a new one);
  \<^item> JavaScript's truncating \<open>/\<close> and \<open>%\<close> on bigints;
  \<^item> the locale \<open>fold_invariant\<close>: a step that keeps a predicate keeps it along a whole run.
\<close>

named_theorems result_simps \<open>equations of the result type\<close>
named_theorems jm_simps \<open>equations of insertion-ordered maps\<close>

section \<open>Errors as values\<close>

text \<open>One constructor per place where the modelled code throws.\<close>

datatype error =
    SyntaxError string            \<comment> \<open>\<open>BigInt(value)\<close> on a string that is no integer literal\<close>
  | TypeError string              \<comment> \<open>reading a property of \<open>undefined\<close>\<close>
  | ReorgError string
  | AssertionError string
  | ShortStringTooLong nat
  | NotOnCurve int
  | NotAFelt int
  | InvalidPayload string
  | InsufficientBalance int int int   \<comment> \<open>token, missing amount, total available\<close>
  | SurplusWithoutAction int int      \<comment> \<open>token, surplus\<close>
  | MissingChannelKey string
  | IncompleteTotal
  | DiscoveryError string
  | HttpError nat string
  | RpcError int string "string option"
  | NoResult
  | InvalidResult
  | InvokePhaseTaken
  | ConfigError string
  | Diverges                      \<comment> \<open>the run never returns\<close>

type_synonym 'a result = "error + 'a"

definition bindR :: "'e + 'a \<Rightarrow> ('a \<Rightarrow> 'e + 'b) \<Rightarrow> 'e + 'b" where
  "bindR m f = (case m of Inl e \<Rightarrow> Inl e | Inr x \<Rightarrow> f x)"

lemma bindR_Inl [simp, result_simps]: "bindR (Inl e) f = Inl e"
  by (simp add: bindR_def)

lemma bindR_Inr [simp, result_simps]: "bindR (Inr x) f = f x"
  by (simp add: bindR_def)

lemma bindR_eq_Inr [result_simps]: "bindR m f = Inr y \<longleftrightarrow> (\<exists>x. m = Inr x \<and> f x = Inr y)"
  by (cases m) auto

lemma bindR_eq_Inl [result_simps]:
  "bindR m f = Inl e \<longleftrightarrow> m = Inl e \<or> (\<exists>x. m = Inr x \<and> f x = Inl e)"
  by (cases m) auto

lemma bindR_cong [fundef_cong]:
  "m = m' \<Longrightarrow> (\<And>x. m' = Inr x \<Longrightarrow> f x = f' x) \<Longrightarrow> bindR m f = bindR m' f'"
  by (cases m') auto

lemma bindR_assoc: "bindR (bindR m f) g = bindR m (\<lambda>x. bindR (f x) g)"
  by (cases m) auto

definition assertR :: "bool \<Rightarrow> 'e \<Rightarrow> 'e + unit" where
  "assertR c e = (if c then Inr () else Inl e)"

lemma assertR_True [simp, result_simps]: "assertR True e = Inr ()"
  by (simp add: assertR_def)

lemma assertR_False [simp, result_simps]: "assertR False e = Inl e"
  by (simp add: assertR_def)

lemma assertR_eq_Inr [result_simps]: "assertR c e = Inr u \<longleftrightarrow> c"
  by (simp add: assertR_def)

lemma assertR_eq_Inl [result_simps]: "assertR c e = Inl e' \<longleftrightarrow> \<not> c \<and> e' = e"
  by (auto simp: assertR_def)

text \<open>\<open>of_option\<close> turns \<open>undefined\<close> into the error a dereference raises.\<close>

definition of_option :: "'e \<Rightarrow> 'a option \<Rightarrow> 'e + 'a" where
  "of_option e x = (case x of None \<Rightarrow> Inl e | Some v \<Rightarrow> Inr v)"

lemma of_option_simps [simp, result_simps]:
  "of_option e None = Inl e" "of_option e (Some v) = Inr v"
  by (simp_all add: of_option_def)

lemma of_option_eq_Inr [result_simps]: "of_option e x = Inr v \<longleftrightarrow> x = Some v"
  by (cases x) auto

primrec foldR :: "('s \<Rightarrow> 'a \<Rightarrow> 'e + 's) \<Rightarrow> 's \<Rightarrow> 'a list \<Rightarrow> 'e + 's" where
  "foldR f s [] = Inr s"
| "foldR f s (x # xs) = bindR (f s x) (\<lambda>s'. foldR f s' xs)"

lemma foldR_append: "foldR f s (xs @ ys) = bindR (foldR f s xs) (\<lambda>s'. foldR f s' ys)"
  by (induction xs arbitrary: s) (simp_all add: bindR_assoc)

lemma foldR_cong [fundef_cong]:
  "xs = ys \<Longrightarrow> s = t \<Longrightarrow> (\<And>u x. x \<in> set ys \<Longrightarrow> f u x = g u x) \<Longrightarrow> foldR f s xs = foldR g t ys"
  by (induction ys arbitrary: xs s t) (auto intro: bindR_cong)

lemma foldR_total: "(\<And>s x. x \<in> set xs \<Longrightarrow> f s x = Inr (g s x)) \<Longrightarrow> foldR f s xs = Inr (foldl g s xs)"
  by (induction xs arbitrary: s) auto

primrec mapR :: "('a \<Rightarrow> 'e + 'b) \<Rightarrow> 'a list \<Rightarrow> 'e + 'b list" where
  "mapR f [] = Inr []"
| "mapR f (x # xs) = bindR (f x) (\<lambda>y. bindR (mapR f xs) (\<lambda>ys. Inr (y # ys)))"

lemma mapR_cong [fundef_cong]:
  "xs = ys \<Longrightarrow> (\<And>x. x \<in> set ys \<Longrightarrow> f x = g x) \<Longrightarrow> mapR f xs = mapR g ys"
  by (induction xs arbitrary: ys) auto

lemma mapR_total: "(\<And>x. x \<in> set xs \<Longrightarrow> f x = Inr (g x)) \<Longrightarrow> mapR f xs = Inr (map g xs)"
  by (induction xs) auto

lemma mapR_eq_Inr: "mapR f xs = Inr ys \<longleftrightarrow> list_all2 (\<lambda>x y. f x = Inr y) xs ys"
  by (induction xs arbitrary: ys) (auto simp: bindR_eq_Inr list_all2_Cons1)

lemma mapR_length: "mapR f xs = Inr ys \<Longrightarrow> length ys = length xs"
  by (auto simp: mapR_eq_Inr dest: list_all2_lengthD)

subsection \<open>Steps that keep a predicate\<close>

text \<open>
  Contract of a fallible step that keeps \<open>inv\<close>; its clients run the step over a list. The simulator,
  the compiler and the accumulation loops of the discovery providers are interpretations.
\<close>

locale fold_invariant =
  fixes step :: "'s \<Rightarrow> 'a \<Rightarrow> 'e + 's"
    and inv :: "'s \<Rightarrow> bool"
  assumes step_inv: "inv s \<Longrightarrow> step s x = Inr s' \<Longrightarrow> inv s'"
begin

lemma run_inv: "inv s \<Longrightarrow> foldR step s xs = Inr s' \<Longrightarrow> inv s'"
  by (induction xs arbitrary: s) (auto simp: bindR_eq_Inr dest: step_inv)

lemma prefix_inv: "inv s \<Longrightarrow> foldR step s (xs @ ys) = Inr s' \<Longrightarrow> \<exists>t. foldR step s xs = Inr t \<and> inv t"
  by (auto simp: foldR_append bindR_eq_Inr dest: run_inv)

end

section \<open>Insertion-ordered maps\<close>

type_synonym ('k, 'v) jsmap = "('k \<times> 'v) list"

definition jm_get :: "('k, 'v) jsmap \<Rightarrow> 'k \<Rightarrow> 'v option" where
  "jm_get m k = map_of m k"

definition jm_has :: "('k, 'v) jsmap \<Rightarrow> 'k \<Rightarrow> bool" where
  "jm_has m k = (jm_get m k \<noteq> None)"

fun jm_set :: "('k, 'v) jsmap \<Rightarrow> 'k \<Rightarrow> 'v \<Rightarrow> ('k, 'v) jsmap" where
  "jm_set [] k v = [(k, v)]"
| "jm_set ((a, b) # m) k v = (if a = k then (a, v) # m else (a, b) # jm_set m k v)"

definition jm_delete :: "('k, 'v) jsmap \<Rightarrow> 'k \<Rightarrow> ('k, 'v) jsmap" where
  "jm_delete m k = filter (\<lambda>e. fst e \<noteq> k) m"

abbreviation jm_keys :: "('k, 'v) jsmap \<Rightarrow> 'k list" where
  "jm_keys m \<equiv> map fst m"

abbreviation jm_values :: "('k, 'v) jsmap \<Rightarrow> 'v list" where
  "jm_values m \<equiv> map snd m"

definition jm_wf :: "('k, 'v) jsmap \<Rightarrow> bool" where
  "jm_wf m = distinct (jm_keys m)"

text \<open>\<open>new Map(entries)\<close>: the entries are set one after the other.\<close>

definition jm_of_entries :: "('k \<times> 'v) list \<Rightarrow> ('k, 'v) jsmap" where
  "jm_of_entries es = foldl (\<lambda>m e. jm_set m (fst e) (snd e)) [] es"

lemma jm_get_Nil [simp, jm_simps]: "jm_get [] k = None"
  by (simp add: jm_get_def)

lemma jm_get_Cons [simp, jm_simps]: "jm_get ((a, b) # m) k = (if a = k then Some b else jm_get m k)"
  by (simp add: jm_get_def)

lemma jm_has_Nil [simp]: "\<not> jm_has [] k"
  by (simp add: jm_has_def)

lemma jm_has_Cons [simp]: "jm_has ((a, b) # m) k = (a = k \<or> jm_has m k)"
  by (simp add: jm_has_def)

lemma jm_get_set [simp, jm_simps]: "jm_get (jm_set m k v) k' = (if k' = k then Some v else jm_get m k')"
  by (induction m k v rule: jm_set.induct) auto

lemma jm_has_set [simp, jm_simps]: "jm_has (jm_set m k v) k' = (k' = k \<or> jm_has m k')"
  by (auto simp: jm_has_def)

lemma jm_has_keys: "jm_has m k \<longleftrightarrow> k \<in> set (jm_keys m)"
  by (induction m) auto

lemma jm_get_None_keys: "jm_get m k = None \<longleftrightarrow> k \<notin> set (jm_keys m)"
  by (simp add: jm_get_def map_of_eq_None_iff)

lemma jm_keys_set: "jm_keys (jm_set m k v) = (if jm_has m k then jm_keys m else jm_keys m @ [k])"
  by (induction m k v rule: jm_set.induct) auto

lemma jm_set_keys [simp]: "set (jm_keys (jm_set m k v)) = insert k (set (jm_keys m))"
  by (auto simp: jm_keys_set jm_has_keys simp del: list.set_map)

lemma jm_set_image [simp]: "fst ` set (jm_set m k v) = insert k (fst ` set m)"
  using jm_set_keys [of m k v] by simp

lemma jm_has_image: "jm_has m k \<longleftrightarrow> k \<in> fst ` set m"
  by (simp add: jm_has_keys)

lemma length_jm_set: "length (jm_set m k v) = (if jm_has m k then length m else Suc (length m))"
  by (induction m k v rule: jm_set.induct) auto

lemma jm_get_delete [simp, jm_simps]: "jm_get (jm_delete m k) k' = (if k' = k then None else jm_get m k')"
  by (induction m) (auto simp: jm_delete_def)

lemma jm_has_delete [simp, jm_simps]: "jm_has (jm_delete m k) k' = (k' \<noteq> k \<and> jm_has m k')"
  by (simp add: jm_has_def)

lemma jm_wf_Nil [simp]: "jm_wf []"
  by (simp add: jm_wf_def)

lemma jm_wf_set [simp]: "jm_wf m \<Longrightarrow> jm_wf (jm_set m k v)"
  by (simp add: jm_wf_def jm_keys_set jm_has_keys del: list.set_map)

lemma jm_wf_delete [simp]: "jm_wf m \<Longrightarrow> jm_wf (jm_delete m k)"
  by (induction m) (auto simp: jm_wf_def jm_delete_def)

lemma jm_wf_entry: "jm_wf m \<Longrightarrow> (k, v) \<in> set m \<longleftrightarrow> jm_get m k = Some v"
  by (simp add: jm_wf_def jm_get_def)

lemma jm_get_mem: "jm_get m k = Some v \<Longrightarrow> (k, v) \<in> set m"
  by (simp add: jm_get_def map_of_SomeD)

lemma jm_set_entries: "set (jm_set m k v) \<subseteq> insert (k, v) (set m)"
  by (induction m k v rule: jm_set.induct) auto

lemma jm_set_fresh: "\<not> jm_has m k \<Longrightarrow> jm_set m k v = m @ [(k, v)]"
  by (induction m k v rule: jm_set.induct) auto

lemma foldl_jm_set_wf: "jm_wf m \<Longrightarrow> jm_wf (foldl (\<lambda>m e. jm_set m (fst e) (snd e)) m es)"
  by (induction es arbitrary: m) auto

lemma jm_wf_of_entries [simp]: "jm_wf (jm_of_entries es)"
  by (simp add: jm_of_entries_def foldl_jm_set_wf)

lemma foldl_jm_set_fresh:
  "distinct (map fst es) \<Longrightarrow> set (map fst es) \<inter> set (jm_keys m) = {} \<Longrightarrow>
   foldl (\<lambda>m e. jm_set m (fst e) (snd e)) m es = m @ es"
proof (induction es arbitrary: m)
  case Nil
  then show ?case by simp
next
  case (Cons e es)
  then have "\<not> jm_has m (fst e)" by (auto simp: jm_has_keys)
  then have step: "jm_set m (fst e) (snd e) = m @ [e]" by (simp add: jm_set_fresh)
  from Cons.prems have "set (map fst es) \<inter> set (jm_keys (m @ [e])) = {}" by auto
  with Cons.IH [of "m @ [e]"] Cons.prems step show ?case by simp
qed

text \<open>Copying a well-formed map entry by entry rebuilds it.\<close>

lemma jm_of_entries_id [simp]: "jm_wf m \<Longrightarrow> jm_of_entries m = m"
  by (simp add: jm_of_entries_def jm_wf_def foldl_jm_set_fresh)

section \<open>Truncating division of bigints\<close>

definition js_div :: "int \<Rightarrow> int \<Rightarrow> int" where
  "js_div a b = sgn a * sgn b * (\<bar>a\<bar> div \<bar>b\<bar>)"

definition js_rem :: "int \<Rightarrow> int \<Rightarrow> int" where
  "js_rem a b = sgn a * (\<bar>a\<bar> mod \<bar>b\<bar>)"

lemma js_rem_nonneg [simp]: "0 \<le> a \<Longrightarrow> 0 < b \<Longrightarrow> js_rem a b = a mod b"
  by (cases "a = 0") (auto simp: js_rem_def sgn_if)

lemma js_div_nonneg [simp]: "0 \<le> a \<Longrightarrow> 0 < b \<Longrightarrow> js_div a b = a div b"
  by (cases "a = 0") (auto simp: js_div_def sgn_if)

lemma js_rem_bounds: "0 < b \<Longrightarrow> - b < js_rem a b \<and> js_rem a b < b"
proof -
  assume b: "0 < b"
  have r: "0 \<le> c mod b \<and> c mod b < b" for c using b by simp
  have "js_rem a b = a mod b \<or> js_rem a b = - (- a mod b)"
    using b by (auto simp: js_rem_def sgn_if abs_if)
  then show ?thesis using r [of a] r [of "- a"] b by linarith
qed

lemma js_rem_cong: "0 < b \<Longrightarrow> js_rem a b mod b = a mod b"
proof -
  assume b: "0 < b"
  have "(- (- a mod b)) mod b = a mod b"
    by (metis minus_minus mod_minus_eq)
  then show ?thesis using b by (auto simp: js_rem_def sgn_if abs_if)
qed

text \<open>
  The idiom \<open>((x % P) + P) % P\<close> of the decryption functions is the mathematical residue.
\<close>

lemma js_rem_wrap [simp]: "0 < p \<Longrightarrow> js_rem (js_rem a p + p) p = a mod p"
proof -
  assume p: "0 < p"
  have nn: "0 \<le> js_rem a p + p" using js_rem_bounds [OF p, of a] by simp
  have "js_rem (js_rem a p + p) p = (js_rem a p + p) mod p" using nn p by simp
  also have "\<dots> = js_rem a p mod p" by simp
  also have "\<dots> = a mod p" using p by (rule js_rem_cong)
  finally show ?thesis .
qed

section \<open>Lists\<close>

lemma sum_list_filter_split:
  "sum_list (map f (filter P xs)) + sum_list (map f (filter (\<lambda>x. \<not> P x) xs)) = (sum_list (map f xs) :: int)"
  by (induction xs) auto

lemma distinct_map_filterI: "distinct (map f xs) \<Longrightarrow> distinct (map f (filter P xs))"
  by (rule distinct_map_filter)

definition optl :: "'a list option \<Rightarrow> 'a list" where
  "optl x = (case x of None \<Rightarrow> [] | Some xs \<Rightarrow> xs)"

lemma optl_simps [simp]: "optl None = []" "optl (Some xs) = xs"
  by (simp_all add: optl_def)

text \<open>The list of a value that may be absent: what \<open>.filter(x => x !== undefined)\<close> leaves of it.\<close>

definition opt_list :: "'a option \<Rightarrow> 'a list" where
  "opt_list x = (case x of None \<Rightarrow> [] | Some v \<Rightarrow> [v])"

lemma opt_list_simps [simp]: "opt_list None = []" "opt_list (Some v) = [v]"
  by (simp_all add: opt_list_def)

lemma set_opt_list [simp]: "set (opt_list x) = set_option x"
  by (cases x) auto

end
