(* ===== verification/Convert.thy ===== *)
theory Convert
  imports Prelude
begin

text \<open>
  The conversions of \<open>sdk/src/utils/convert.ts\<close>. A \<open>BigNumberish\<close> is a string, a JavaScript number
  (taken to be integral, as every caller passes it) or a bigint. \<open>BigInt(string)\<close> is the
  language's \<open>StringToBigInt\<close>: surrounding white space is dropped, the empty string is zero, the
  prefixes \<open>0x\<close>, \<open>0o\<close> and \<open>0b\<close> (either case) select a base and admit no sign, a decimal may carry one;
  anything else throws a \<open>SyntaxError\<close>. Strings are ASCII.

  Functions of the packages \<open>starknet\<close> and \<open>@scure/starknet\<close> are not part of the repository. They are
  the fields of the record \<open>starknet_lib\<close>, the parameter \<open>L\<close> of every definition that calls one.
\<close>

section \<open>Numbers and their spellings\<close>

datatype bignum = BNString string | BNNumber int | BNBigint int

datatype numeric = NBig bignum | NBytes "nat list"   \<comment> \<open>\<open>Numeric = BigNumberish | Uint8Array\<close>\<close>

definition digit_char :: "nat \<Rightarrow> char" where
  "digit_char d = char_of (if d < 10 then 48 + d else 87 + d)"

definition digit_val :: "char \<Rightarrow> nat option" where
  "digit_val c = (let n = (of_char c :: nat) in
     if 48 \<le> n \<and> n \<le> 57 then Some (n - 48)
     else if 97 \<le> n \<and> n \<le> 122 then Some (n - 87)
     else if 65 \<le> n \<and> n \<le> 90 then Some (n - 55)
     else None)"

text \<open>\<open>n.toString(b)\<close> for a non-negative integer and for any bigint.\<close>

fun to_base :: "nat \<Rightarrow> nat \<Rightarrow> string" where
  "to_base b n =
     (if b < 2 \<or> n < b then [digit_char n] else to_base b (n div b) @ [digit_char (n mod b)])"

declare to_base.simps [simp del]

definition int_toString :: "nat \<Rightarrow> int \<Rightarrow> string" where
  "int_toString b i = (if i < 0 then CHR ''-'' # to_base b (nat (- i)) else to_base b (nat i))"

fun parse_digits :: "nat \<Rightarrow> nat \<Rightarrow> string \<Rightarrow> nat option" where
  "parse_digits b acc [] = Some acc"
| "parse_digits b acc (c # cs) =
     (case digit_val c of
        None \<Rightarrow> None
      | Some d \<Rightarrow> if d < b then parse_digits b (acc * b + d) cs else None)"

definition parse_nat :: "nat \<Rightarrow> string \<Rightarrow> nat option" where
  "parse_nat b s = (if s = [] then None else parse_digits b 0 s)"

definition is_ws :: "char \<Rightarrow> bool" where
  "is_ws c = (let n = (of_char c :: nat) in n = 32 \<or> (9 \<le> n \<and> n \<le> 13))"

definition trim :: "string \<Rightarrow> string" where
  "trim s = rev (dropWhile is_ws (rev (dropWhile is_ws s)))"

fun unsigned_or_prefixed :: "string \<Rightarrow> int option" where
  "unsigned_or_prefixed (CHR ''0'' # c # cs) =
     (if c \<in> {CHR ''x'', CHR ''X''} then map_option int (parse_nat 16 cs)
      else if c \<in> {CHR ''o'', CHR ''O''} then map_option int (parse_nat 8 cs)
      else if c \<in> {CHR ''b'', CHR ''B''} then map_option int (parse_nat 2 cs)
      else map_option int (parse_nat 10 (CHR ''0'' # c # cs)))"
| "unsigned_or_prefixed (c # cs) =
     (if c = CHR ''-'' then map_option (\<lambda>n. - int n) (parse_nat 10 cs)
      else if c = CHR ''+'' then map_option int (parse_nat 10 cs)
      else map_option int (parse_nat 10 (c # cs)))"
| "unsigned_or_prefixed [] = Some 0"

definition StringToBigInt :: "string \<Rightarrow> int option" where
  "StringToBigInt s = unsigned_or_prefixed (trim s)"

fun BigInt :: "bignum \<Rightarrow> int result" where
  "BigInt (BNBigint i) = Inr i"
| "BigInt (BNNumber i) = Inr i"
| "BigInt (BNString s) = of_option (SyntaxError s) (StringToBigInt s)"

text \<open>\<open>String(x)\<close>\<close>

fun String_of :: "bignum \<Rightarrow> string" where
  "String_of (BNBigint i) = int_toString 10 i"
| "String_of (BNNumber i) = int_toString 10 i"
| "String_of (BNString s) = s"

text \<open>Truthiness of a \<open>BigNumberish\<close>: \<open>0n\<close>, \<open>0\<close> and the empty string are falsy.\<close>

fun truthy :: "bignum \<Rightarrow> bool" where
  "truthy (BNBigint i) = (i \<noteq> 0)"
| "truthy (BNNumber i) = (i \<noteq> 0)"
| "truthy (BNString s) = (s \<noteq> [])"

section \<open>Third-party functions\<close>

datatype raw_arg = RawNum bignum | RawArray "raw_arg list"

record starknet_lib =
  poseidonHashMany :: "int list \<Rightarrow> int"
  buf2hex :: "nat list \<Rightarrow> string"
  utf8ToArray :: "string \<Rightarrow> nat list"
  uint8ArrayToBigInt :: "nat list \<Rightarrow> int"
  hexStringToUint8Array :: "string \<Rightarrow> nat list"
  getPublicKey :: "nat list \<Rightarrow> nat list result"
  getSharedSecret :: "nat list \<Rightarrow> nat list \<Rightarrow> nat list result"
  Fp_ORDER :: int
  CURVE_n :: int
  CURVE_a :: int
  CURVE_b :: int
  Fp_mul :: "int \<Rightarrow> int \<Rightarrow> int"
  Fp_add :: "int \<Rightarrow> int \<Rightarrow> int"
  Fp_sqrt :: "int \<Rightarrow> int option"
  affineToRawBytes :: "int \<Rightarrow> int \<Rightarrow> nat list"
  callDataCompile :: "raw_arg list \<Rightarrow> string list"

section \<open>convert.ts\<close>

definition toBigInt_num :: "starknet_lib \<Rightarrow> numeric \<Rightarrow> int result" where
  "toBigInt_num L v = (case v of NBytes bs \<Rightarrow> Inr (uint8ArrayToBigInt L bs) | NBig b \<Rightarrow> BigInt b)"

text \<open>\<open>toBigInt\<close> at the argument type every other module uses it with.\<close>

definition toBigInt :: "bignum \<Rightarrow> int result" where
  "toBigInt b = BigInt b"

definition padStart :: "nat \<Rightarrow> char \<Rightarrow> string \<Rightarrow> string" where
  "padStart n c s = replicate (n - length s) c @ s"

definition toBytes :: "starknet_lib \<Rightarrow> bignum \<Rightarrow> nat list result" where
  "toBytes L v = bindR (toBigInt v) (\<lambda>n.
     Inr (hexStringToUint8Array L (padStart 64 (CHR ''0'') (int_toString 16 n))))"

definition all_decimal :: "string \<Rightarrow> bool" where
  "all_decimal s =
     (s \<noteq> [] \<and> list_all (\<lambda>c. case digit_val c of Some d \<Rightarrow> d < 10 | None \<Rightarrow> False) s)"

definition hex_prefixed :: "string \<Rightarrow> bool" where
  "hex_prefixed s = (take 2 s = ''0x'' \<or> take 2 s = ''0X'')"

definition toHex_digits :: "starknet_lib \<Rightarrow> numeric \<Rightarrow> string result" where
  "toHex_digits L v = (case v of
      NBytes bs \<Rightarrow> Inr (buf2hex L bs)
    | NBig (BNBigint i) \<Rightarrow> Inr (int_toString 16 i)
    | NBig (BNNumber i) \<Rightarrow> Inr (int_toString 16 i)
    | NBig (BNString s) \<Rightarrow>
        (if hex_prefixed s \<or> all_decimal s
         then bindR (toBigInt (BNString s)) (\<lambda>i. Inr (int_toString 16 i))
         else Inr (buf2hex L (utf8ToArray L s))))"

definition toHex :: "starknet_lib \<Rightarrow> numeric \<Rightarrow> bool \<Rightarrow> string result" where
  "toHex L v prefix = bindR (toHex_digits L v) (\<lambda>hex. Inr (if prefix then ''0x'' @ hex else hex))"

text \<open>\<open>toHex\<close> of a bigint, its default prefix in place: the call sites of the wire conversions.\<close>

definition hex_of :: "int \<Rightarrow> string" where
  "hex_of i = ''0x'' @ int_toString 16 i"

lemma toHex_bigint [simp]: "toHex L (NBig (BNBigint i)) True = Inr (hex_of i)"
  by (simp add: toHex_def toHex_digits_def hex_of_def)

section \<open>Printing and parsing\<close>

lemma digit_val_char [simp]: "d < 16 \<Longrightarrow> digit_val (digit_char d) = Some d"
proof -
  assume d: "d < 16"
  have "(of_char (char_of (48 + d) :: char) :: nat) = 48 + d" if "d < 10"
    using that by (simp add: of_char_mod_256)
  moreover have "(of_char (char_of (87 + d) :: char) :: nat) = 87 + d"
    using d by (simp add: of_char_mod_256)
  ultimately show ?thesis using d by (auto simp: digit_val_def digit_char_def Let_def)
qed

lemma digit_char_not_ws: "d < 16 \<Longrightarrow> \<not> is_ws (digit_char d)"
proof -
  assume "d < 16"
  then have "digit_val (digit_char d) = Some d" by simp
  then show ?thesis by (auto simp: digit_val_def is_ws_def Let_def split: if_splits)
qed

lemma to_base_nonempty [simp]: "to_base b n \<noteq> []"
  by (subst to_base.simps) auto

lemma to_base_digits: "2 \<le> b \<Longrightarrow> c \<in> set (to_base b n) \<Longrightarrow> \<exists>d < b. c = digit_char d"
proof (induction b n rule: to_base.induct)
  case (1 b n)
  show ?case
  proof (cases "n < b")
    case True
    with 1 show ?thesis by (subst (asm) (2) to_base.simps) auto
  next
    case False
    have "n mod b < b" using 1(2) by simp
    moreover have "c \<in> set (to_base b (n div b)) \<or> c = digit_char (n mod b)"
      using 1(2,3) False by (subst (asm) to_base.simps) auto
    moreover have "\<exists>d<b. c = digit_char d" if "c \<in> set (to_base b (n div b))"
      using 1(1) [OF _ 1(2) that] 1(2) False by simp
    ultimately show ?thesis by auto
  qed
qed

lemma parse_digits_append:
  "parse_digits b acc (xs @ ys) = Option.bind (parse_digits b acc xs) (\<lambda>a. parse_digits b a ys)"
  by (induction xs arbitrary: acc) (auto split: option.splits)

lemma parse_digits_to_base: "2 \<le> b \<Longrightarrow> b \<le> 16 \<Longrightarrow> parse_digits b 0 (to_base b n) = Some n"
proof (induction b n rule: to_base.induct)
  case (1 b n)
  show ?case
  proof (cases "n < b")
    case True
    with 1 show ?thesis by (subst to_base.simps) simp
  next
    case False
    with 1 have "parse_digits b 0 (to_base b (n div b)) = Some (n div b)" by simp
    moreover have "n mod b < b" using 1(2) by simp
    moreover from this have "n mod b < 16" using 1(3) by linarith
    ultimately show ?thesis
      using False 1(2) by (subst to_base.simps) (simp add: parse_digits_append)
  qed
qed

lemma parse_nat_to_base [simp]: "2 \<le> b \<Longrightarrow> b \<le> 16 \<Longrightarrow> parse_nat b (to_base b n) = Some n"
  by (simp add: parse_nat_def parse_digits_to_base)

lemma dropWhile_hd: "s \<noteq> [] \<Longrightarrow> \<not> P (hd s) \<Longrightarrow> dropWhile P s = s"
  by (cases s) auto

lemma trim_id: "s \<noteq> [] \<Longrightarrow> \<not> is_ws (hd s) \<Longrightarrow> \<not> is_ws (last s) \<Longrightarrow> trim s = s"
  by (simp add: trim_def dropWhile_hd hd_rev)

lemma to_base_hd_last_not_ws:
  assumes "2 \<le> b" "b \<le> 16"
  shows "\<not> is_ws (hd (to_base b n))" "\<not> is_ws (last (to_base b n))"
proof -
  have "\<not> is_ws c" if "c \<in> set (to_base b n)" for c
    using to_base_digits [OF assms(1) that] assms(2) digit_char_not_ws by auto
  then show "\<not> is_ws (hd (to_base b n))" "\<not> is_ws (last (to_base b n))"
    by (simp_all add: hd_in_set last_in_set)
qed

lemma hex_of_nonneg: "0 \<le> i \<Longrightarrow> hex_of i = ''0x'' @ to_base 16 (nat i)"
  by (simp add: hex_of_def int_toString_def)

lemma StringToBigInt_hex_of: "0 \<le> i \<Longrightarrow> StringToBigInt (hex_of i) = Some i"
proof -
  assume i: "0 \<le> i"
  have "\<not> is_ws (last (to_base 16 (nat i)))" by (rule to_base_hd_last_not_ws) simp_all
  then have "trim (hex_of i) = hex_of i"
    using i by (intro trim_id) (auto simp: hex_of_nonneg is_ws_def)
  with i show ?thesis by (simp add: StringToBigInt_def hex_of_nonneg)
qed

lemma BigInt_hex_of [simp]: "0 \<le> i \<Longrightarrow> BigInt (BNString (hex_of i)) = Inr i"
  by (simp add: StringToBigInt_hex_of)

lemma hex_of_inj: "0 \<le> i \<Longrightarrow> 0 \<le> j \<Longrightarrow> hex_of i = hex_of j \<Longrightarrow> i = j"
  using StringToBigInt_hex_of by (metis option.inject)

lemma toBigInt_simps [simp]: "toBigInt (BNBigint i) = Inr i" "toBigInt (BNNumber i) = Inr i"
  by (simp_all add: toBigInt_def)

section \<open>Decimal text\<close>

lemma decimal_digits: "c \<in> set (to_base 10 n) \<Longrightarrow> \<exists>d < 10. digit_val c = Some d"
  using to_base_digits [of 10 c n] by fastforce

lemma digit_chars: "map digit_char [0..<10] = ''0123456789''"
  by code_simp

lemma decimal_chars: "set (to_base 10 n) \<subseteq> set ''0123456789''"
proof
  fix c assume "c \<in> set (to_base 10 n)"
  then obtain d where "d < 10" "c = digit_char d" using to_base_digits [of 10 c n] by auto
  then have "c \<in> set (map digit_char [0..<10])" by simp
  then show "c \<in> set ''0123456789''" by (simp only: digit_chars)
qed

lemma decimal_unsigned:
  assumes "s \<noteq> []" "set s \<subseteq> set ''0123456789''"
  shows "unsigned_or_prefixed s = map_option int (parse_nat 10 s)"
proof -
  obtain c cs where s: "s = c # cs" "c \<in> set ''0123456789''" using assms by (cases s) auto
  show ?thesis
  proof (cases "c = CHR ''0''")
    case True
    show ?thesis using True s assms(2) by (cases cs) auto
  qed (use s in auto)
qed

lemma all_decimal_dec: "all_decimal (to_base 10 n)"
  using decimal_digits by (fastforce simp: all_decimal_def list_all_iff)

lemma StringToBigInt_dec: "StringToBigInt (to_base 10 n) = Some (int n)"
proof -
  have "trim (to_base 10 n) = to_base 10 n"
    by (intro trim_id to_base_hd_last_not_ws) simp_all
  then show ?thesis using decimal_unsigned [OF to_base_nonempty decimal_chars, of n] by (simp add: StringToBigInt_def)
qed

lemma StringToBigInt_toString: "StringToBigInt (int_toString 10 i) = Some i"
proof (cases "i < 0")
  case True
  let ?d = "to_base 10 (nat (- i))"
  have "trim (CHR ''-'' # ?d) = CHR ''-'' # ?d"
    using to_base_hd_last_not_ws [of 10 "nat (- i)"] by (intro trim_id) (simp_all add: is_ws_def)
  with True show ?thesis by (simp add: StringToBigInt_def int_toString_def)
next
  case False
  then show ?thesis using StringToBigInt_dec [of "nat i"] by (simp add: int_toString_def)
qed

lemma BigInt_toString [simp]: "BigInt (BNString (int_toString 10 i)) = Inr i"
  by (simp add: StringToBigInt_toString)

end
