(* ===== verification/Maps.thy ===== *)
theory Maps
  imports Convert
begin

text \<open>
  The map classes of \<open>sdk/src/utils/maps.ts\<close>. An \<open>AdvancedMap\<close> is an insertion-ordered map over internal
  keys together with two optional functions fixed at construction: a key converter and a default
  factory. The functions are the record \<open>map_options\<close>; the operations take the record and the
  underlying \<open>jsmap\<close>. \<open>get\<close> is not a pure lookup: on a missing key it stores the default it returns.
  \<open>BigNumberishMap\<close> (also called \<open>AddressMap\<close>) is the instance whose converter is \<open>toBigInt\<close>.

  The locale \<open>map_adt\<close> is the contract the other components use maps through. It is interpreted on
  the bare ordered map and on \<open>BigNumberishMap\<close> without a default.
\<close>

section \<open>AdvancedMap\<close>

record ('k, 'v, 'i) map_options =
  keyConverter :: "'k \<Rightarrow> 'i result"
  defaultFactory :: "('k \<Rightarrow> 'v) option"

definition toInternalKey :: "('k, 'v, 'i) map_options \<Rightarrow> 'k \<Rightarrow> 'i result" where
  "toInternalKey opts key = keyConverter opts key"

definition am_get ::
  "('k, 'v, 'i) map_options \<Rightarrow> ('i, 'v) jsmap \<Rightarrow> 'k \<Rightarrow> ('k \<Rightarrow> 'v) option \<Rightarrow> (('i, 'v) jsmap \<times> 'v option) result"
where
  "am_get opts m key defaultValue = bindR (toInternalKey opts key) (\<lambda>internalKey.
     let m' = (if \<not> jm_has m internalKey then
                 (case defaultValue of
                    Some f \<Rightarrow> jm_set m internalKey (f key)
                  | None \<Rightarrow> (case defaultFactory opts of
                               Some f \<Rightarrow> jm_set m internalKey (f key)
                             | None \<Rightarrow> m))
               else m)
     in Inr (m', jm_get m' internalKey))"

definition am_set :: "('k, 'v, 'i) map_options \<Rightarrow> ('i, 'v) jsmap \<Rightarrow> 'k \<Rightarrow> 'v \<Rightarrow> ('i, 'v) jsmap result" where
  "am_set opts m key value = bindR (toInternalKey opts key) (\<lambda>k. Inr (jm_set m k value))"

definition am_has :: "('k, 'v, 'i) map_options \<Rightarrow> ('i, 'v) jsmap \<Rightarrow> 'k \<Rightarrow> bool result" where
  "am_has opts m key = bindR (toInternalKey opts key) (\<lambda>k. Inr (jm_has m k))"

definition am_delete ::
  "('k, 'v, 'i) map_options \<Rightarrow> ('i, 'v) jsmap \<Rightarrow> 'k \<Rightarrow> (('i, 'v) jsmap \<times> bool) result"
where
  "am_delete opts m key = bindR (toInternalKey opts key) (\<lambda>k. Inr (jm_delete m k, jm_has m k))"

definition am_clear :: "('i, 'v) jsmap \<Rightarrow> ('i, 'v) jsmap" where
  "am_clear m = []"

definition am_size :: "('i, 'v) jsmap \<Rightarrow> nat" where
  "am_size m = length m"

definition am_new :: "('k, 'v, 'i) map_options \<Rightarrow> ('k \<times> 'v) list \<Rightarrow> ('i, 'v) jsmap result" where
  "am_new opts es = foldR (\<lambda>m e. am_set opts m (fst e) (snd e)) [] es"

section \<open>BigNumberishMap\<close>

definition BigNumberishMap :: "(bignum \<Rightarrow> 'v) option \<Rightarrow> (bignum, 'v, int) map_options" where
  "BigNumberishMap factory = \<lparr>keyConverter = toBigInt, defaultFactory = factory\<rparr>"

text \<open>
  \<open>get\<close> with a default, at a key already converted: the shape in which the compiler, the simulator
  and the discovery providers use address maps.
\<close>

definition jm_get_default :: "('k, 'v) jsmap \<Rightarrow> 'k \<Rightarrow> 'v \<Rightarrow> ('k, 'v) jsmap \<times> 'v" where
  "jm_get_default m k d = (case jm_get m k of Some v \<Rightarrow> (m, v) | None \<Rightarrow> (jm_set m k d, d))"

lemma am_get_BigNumberishMap:
  "am_get (BigNumberishMap (Some f)) m (BNBigint k) None =
     Inr (map_prod id Some (jm_get_default m k (f (BNBigint k))))"
  by (auto simp: am_get_def BigNumberishMap_def toInternalKey_def jm_get_default_def jm_has_def Let_def
      split: option.splits)

lemma am_get_plain:
  "am_get (BigNumberishMap None) m key None = bindR (toBigInt key) (\<lambda>k. Inr (m, jm_get m k))"
  by (simp add: am_get_def BigNumberishMap_def toInternalKey_def Let_def cong: if_cong)

lemma am_set_BigNumberishMap:
  "am_set (BigNumberishMap f) m key v = bindR (toBigInt key) (\<lambda>k. Inr (jm_set m k v))"
  by (simp add: am_set_def BigNumberishMap_def toInternalKey_def)

lemma am_delete_BigNumberishMap:
  "am_delete (BigNumberishMap f) m key = bindR (toBigInt key) (\<lambda>k. Inr (jm_delete m k, jm_has m k))"
  by (simp add: am_delete_def BigNumberishMap_def toInternalKey_def)

lemma jm_get_default_snd: "snd (jm_get_default m k d) = (case jm_get m k of Some v \<Rightarrow> v | None \<Rightarrow> d)"
  by (simp add: jm_get_default_def split: option.splits)

lemma jm_get_default_get:
  "jm_get (fst (jm_get_default m k d)) k' =
     (if k' = k then Some (snd (jm_get_default m k d)) else jm_get m k')"
  by (auto simp: jm_get_default_def split: option.splits)

section \<open>The map contract\<close>

locale map_adt =
  fixes empty :: 'm
    and get :: "'m \<Rightarrow> 'k \<Rightarrow> 'v option"
    and upd :: "'m \<Rightarrow> 'k \<Rightarrow> 'v \<Rightarrow> 'm"
    and del :: "'m \<Rightarrow> 'k \<Rightarrow> 'm"
    and same :: "'k \<Rightarrow> 'k \<Rightarrow> bool"
    and wf :: "'m \<Rightarrow> bool"
  assumes same_refl: "same k k"
    and get_empty: "get empty k = None"
    and get_upd: "get (upd m k v) k' = (if same k k' then Some v else get m k')"
    and get_del: "get (del m k) k' = (if same k k' then None else get m k')"
    and wf_empty: "wf empty"
    and wf_upd: "wf m \<Longrightarrow> wf (upd m k v)"
    and wf_del: "wf m \<Longrightarrow> wf (del m k)"
begin

lemma upd_upd: "get (upd (upd m k v) k w) k' = get (upd m k w) k'"
  by (simp add: get_upd)

lemma del_upd: "get (del (upd m k v) k) k' = get (del m k) k'"
  by (simp add: get_upd get_del)

lemma upds_wf: "wf m \<Longrightarrow> wf (foldl (\<lambda>m e. upd m (fst e) (snd e)) m es)"
  by (induction es arbitrary: m) (auto intro: wf_upd)

text \<open>Among several writes to one key the last one is read back.\<close>

lemma get_upds:
  "get (foldl (\<lambda>m e. upd m (fst e) (snd e)) m es) k =
     (case find (\<lambda>e. same (fst e) k) (rev es) of Some e \<Rightarrow> Some (snd e) | None \<Rightarrow> get m k)"
proof (induction es arbitrary: m)
  case Nil
  then show ?case by simp
next
  case (Cons e es)
  have append: "find P (xs @ [y]) = (case find P xs of Some z \<Rightarrow> Some z | None \<Rightarrow> if P y then Some y else None)"
    for P and xs :: "('k \<times> 'v) list" and y
    by (induction xs) auto
  show ?case by (simp add: Cons.IH append get_upd split: option.splits)
qed

end

interpretation jm: map_adt "[]" jm_get jm_set jm_delete "(=)" jm_wf
  by unfold_locales auto

text \<open>
  \<open>BigNumberishMap\<close> seen through its public keys: two spellings of one number are the same key.
  Keys that do not convert make the operation throw; they are excluded by working on the
  convertible spellings.
\<close>

definition bn_val :: "bignum \<Rightarrow> int" where
  "bn_val b = (case toBigInt b of Inr i \<Rightarrow> i | Inl _ \<Rightarrow> 0)"

definition bn_get :: "(int, 'v) jsmap \<Rightarrow> bignum \<Rightarrow> 'v option" where
  "bn_get m k = (case am_get (BigNumberishMap None) m k None of Inr r \<Rightarrow> snd r | Inl _ \<Rightarrow> None)"

definition bn_set :: "(int, 'v) jsmap \<Rightarrow> bignum \<Rightarrow> 'v \<Rightarrow> (int, 'v) jsmap" where
  "bn_set m k v = (case am_set (BigNumberishMap None) m k v of Inr m' \<Rightarrow> m' | Inl _ \<Rightarrow> m)"

definition bn_delete :: "(int, 'v) jsmap \<Rightarrow> bignum \<Rightarrow> (int, 'v) jsmap" where
  "bn_delete m k = (case am_delete (BigNumberishMap None :: (bignum, 'v, int) map_options) m k of
     Inr r \<Rightarrow> fst r | Inl _ \<Rightarrow> m)"

typedef spelling = "{b. \<exists>i. toBigInt b = Inr i}"
  by (rule exI [of _ "BNBigint 0"]) simp

definition sp_val :: "spelling \<Rightarrow> int" where
  "sp_val s = bn_val (Rep_spelling s)"

lemma toBigInt_spelling: "toBigInt (Rep_spelling s) = Inr (sp_val s)"
  using Rep_spelling [of s] by (auto simp: sp_val_def bn_val_def)

interpretation bnm: map_adt "[]"
  "\<lambda>m s. bn_get m (Rep_spelling s)" "\<lambda>m s v. bn_set m (Rep_spelling s) v"
  "\<lambda>m s. bn_delete m (Rep_spelling s)" "\<lambda>s t. sp_val s = sp_val t" jm_wf
  by unfold_locales
    (auto simp: bn_get_def bn_set_def bn_delete_def am_get_plain am_set_BigNumberishMap
       am_delete_BigNumberishMap toBigInt_spelling)

end
