(* ===== verification/Hashes.thy ===== *)
theory Hashes
  imports Maps
begin

text \<open>
  \<open>sdk/src/utils/crypto.ts\<close> and \<open>sdk/src/utils/hashes.ts\<close>: the domain-separated hash of felts and the
  identifiers derived from it. A string argument of \<open>hash\<close> is a number when it reads as one and a Cairo
  short string otherwise. The hash itself (\<open>poseidonHashMany\<close>) is third-party.

  The \<open>compute_\<dots>\<close> functions hash a fixed tag and bigints. They can only throw inside the conversion of
  the tag, when the package's \<open>buf2hex\<close> does not produce hex digits; \<open>lib_hex\<close> states that it does, and
  \<open>hash_tagged\<close> shows that the hash is then a value. They are therefore given as integers.
\<close>

section \<open>crypto.ts\<close>

definition shortStringToFelt :: "starknet_lib \<Rightarrow> string \<Rightarrow> int result" where
  "shortStringToFelt L str =
     (if length str > 31 then Inl (ShortStringTooLong (length str))
      else bindR (toHex L (NBig (BNString str)) True) (\<lambda>h. BigInt (BNString h)))"

definition isNumericString :: "string \<Rightarrow> bool" where
  "isNumericString str =
     ((take 2 str = ''0x'' \<and> parse_nat 16 (drop 2 str) \<noteq> None) \<or> all_decimal str)"

definition hash_arg :: "starknet_lib \<Rightarrow> bignum \<Rightarrow> int result" where
  "hash_arg L v = (case v of
      BNString s \<Rightarrow> (if isNumericString s then toBigInt v else shortStringToFelt L s)
    | _ \<Rightarrow> toBigInt v)"

definition hash :: "starknet_lib \<Rightarrow> bignum list \<Rightarrow> int result" where
  "hash L values = bindR (mapR (hash_arg L) values) (\<lambda>felts. Inr (poseidonHashMany L felts))"

text \<open>\<open>slice(start, start + 32)\<close> of a compressed or uncompressed point, read as a number.\<close>

definition getXCoordinateFromBytes :: "starknet_lib \<Rightarrow> nat list \<Rightarrow> int result" where
  "getXCoordinateFromBytes L publicKeyBytes =
     (let start = (if length publicKeyBytes = 33 then 1 else if length publicKeyBytes = 65 then 1 else 0)
      in bindR (toHex L (NBytes (take 32 (drop start publicKeyBytes))) True) (\<lambda>h. BigInt (BNString h)))"

definition derivePublicKey :: "starknet_lib \<Rightarrow> bignum \<Rightarrow> int result" where
  "derivePublicKey L privateKey =
     bindR (toBytes L privateKey) (\<lambda>privateKeyBytes.
     bindR (getPublicKey L privateKeyBytes) (\<lambda>publicKeyBytes.
     getXCoordinateFromBytes L publicKeyBytes))"

text \<open>\<open>generateRandom120\<close> on the fifteen bytes the platform's generator filled in.\<close>

definition generateRandom120 :: "nat list \<Rightarrow> int" where
  "generateRandom120 bytes = foldl (\<lambda>result byte. result * 2 ^ 8 + int byte) 0 bytes"

record symmetric_encryption =
  se_r :: int
  se_enc :: int

definition encryptSymmetric :: "starknet_lib \<Rightarrow> int \<Rightarrow> bignum \<Rightarrow> int \<Rightarrow> symmetric_encryption result" where
  "encryptSymmetric L shared data r =
     (if r < 0 \<or> r \<ge> CURVE_n L then Inl (NotAFelt r)
      else bindR (hash L [BNBigint shared, BNBigint r]) (\<lambda>h.
           bindR (toBigInt data) (\<lambda>d.
           Inr \<lparr>se_r = r, se_enc = js_rem (h + d) (CURVE_n L)\<rparr>)))"

definition decryptSymmetric :: "starknet_lib \<Rightarrow> symmetric_encryption \<Rightarrow> int \<Rightarrow> int result" where
  "decryptSymmetric L encryption shared =
     bindR (hash L [BNBigint shared, BNBigint (se_r encryption)]) (\<lambda>h.
     Inr (se_enc encryption - js_rem h (CURVE_n L)))"

section \<open>hashes.ts\<close>

definition CHANNEL_MARKER_TAG :: string where "CHANNEL_MARKER_TAG = ''CHANNEL_MARKER_TAG:V1''"
definition CHANNEL_KEY_TAG :: string where "CHANNEL_KEY_TAG = ''CHANNEL_KEY_TAG:V1''"
definition SUBCHANNEL_MARKER_TAG :: string where "SUBCHANNEL_MARKER_TAG = ''SUBCHANNEL_MARKER_TAG:V1''"
definition SUBCHANNEL_ID_TAG :: string where "SUBCHANNEL_ID_TAG = ''SUBCHANNEL_ID_TAG:V1''"
definition NULLIFIER_TAG :: string where "NULLIFIER_TAG = ''NULLIFIER_TAG:V1''"
definition ENC_CHANNEL_KEY_TAG :: string where "ENC_CHANNEL_KEY_TAG = ''ENC_CHANNEL_KEY_TAG:V1''"
definition ENC_SENDER_ADDR_TAG :: string where "ENC_SENDER_ADDR_TAG = ''ENC_SENDER_ADDR_TAG:V1''"
definition NOTE_ID_TAG :: string where "NOTE_ID_TAG = ''NOTE_ID_TAG:V1''"
definition ENC_AMOUNT_TAG :: string where "ENC_AMOUNT_TAG = ''ENC_AMOUNT_TAG:V1''"
definition ENC_TOKEN_TAG :: string where "ENC_TOKEN_TAG = ''ENC_TOKEN_TAG:V1''"
definition ENC_PRIVATE_KEY_TAG :: string where "ENC_PRIVATE_KEY_TAG = ''ENC_PRIVATE_KEY_TAG:V1''"
definition ENC_USER_ADDR_TAG :: string where "ENC_USER_ADDR_TAG = ''ENC_USER_ADDR_TAG:V1''"
definition ENC_RECIPIENT_ADDR_TAG :: string where "ENC_RECIPIENT_ADDR_TAG = ''ENC_RECIPIENT_ADDR_TAG:V1''"
definition OUTGOING_CHANNEL_ID_TAG :: string where "OUTGOING_CHANNEL_ID_TAG = ''OUTGOING_CHANNEL_ID_TAG:V1''"
definition IDENTITY_KEY_TAG :: string where "IDENTITY_KEY_TAG = ''IDENTITY_KEY_TAG:V1''"

lemmas tag_defs = CHANNEL_MARKER_TAG_def CHANNEL_KEY_TAG_def SUBCHANNEL_MARKER_TAG_def
  SUBCHANNEL_ID_TAG_def NULLIFIER_TAG_def ENC_CHANNEL_KEY_TAG_def ENC_SENDER_ADDR_TAG_def
  NOTE_ID_TAG_def ENC_AMOUNT_TAG_def ENC_TOKEN_TAG_def ENC_PRIVATE_KEY_TAG_def ENC_USER_ADDR_TAG_def
  ENC_RECIPIENT_ADDR_TAG_def OUTGOING_CHANNEL_ID_TAG_def IDENTITY_KEY_TAG_def

text \<open>\<open>hash(TAG, n1, n2, ...)\<close>\<close>

definition tagged :: "starknet_lib \<Rightarrow> string \<Rightarrow> int list \<Rightarrow> int" where
  "tagged L tag ns = projr (hash L (BNString tag # map BNBigint ns))"

definition compute_identity_key :: "starknet_lib \<Rightarrow> int \<Rightarrow> int \<Rightarrow> int \<Rightarrow> int" where
  "compute_identity_key L user_addr user_private_key contract_address =
     tagged L IDENTITY_KEY_TAG [user_addr, user_private_key, contract_address]"

definition compute_enc_private_key_hash :: "starknet_lib \<Rightarrow> int \<Rightarrow> int" where
  "compute_enc_private_key_hash L shared_x = tagged L ENC_PRIVATE_KEY_TAG [shared_x]"

definition compute_enc_user_addr_hash :: "starknet_lib \<Rightarrow> int \<Rightarrow> int" where
  "compute_enc_user_addr_hash L shared_x = tagged L ENC_USER_ADDR_TAG [shared_x]"

definition compute_enc_token_hash :: "starknet_lib \<Rightarrow> int \<Rightarrow> int \<Rightarrow> int \<Rightarrow> int" where
  "compute_enc_token_hash L channel_key index salt = tagged L ENC_TOKEN_TAG [channel_key, index, 0, salt]"

definition compute_enc_channel_key_hash :: "starknet_lib \<Rightarrow> int \<Rightarrow> int" where
  "compute_enc_channel_key_hash L shared_x = tagged L ENC_CHANNEL_KEY_TAG [shared_x]"

definition compute_enc_sender_addr_hash :: "starknet_lib \<Rightarrow> int \<Rightarrow> int" where
  "compute_enc_sender_addr_hash L shared_x = tagged L ENC_SENDER_ADDR_TAG [shared_x]"

definition compute_enc_recipient_addr_hash :: "starknet_lib \<Rightarrow> int \<Rightarrow> int \<Rightarrow> int \<Rightarrow> int \<Rightarrow> int" where
  "compute_enc_recipient_addr_hash L sender_addr sender_private_key index salt =
     tagged L ENC_RECIPIENT_ADDR_TAG [sender_addr, sender_private_key, index, 0, salt]"

definition compute_channel_key :: "starknet_lib \<Rightarrow> int \<Rightarrow> int \<Rightarrow> int \<Rightarrow> int \<Rightarrow> int" where
  "compute_channel_key L sender_addr sender_private_key recipient_addr recipient_public_key =
     tagged L CHANNEL_KEY_TAG [sender_addr, sender_private_key, recipient_addr, recipient_public_key]"

definition compute_outgoing_channel_id :: "starknet_lib \<Rightarrow> int \<Rightarrow> int \<Rightarrow> int \<Rightarrow> int" where
  "compute_outgoing_channel_id L sender_addr sender_private_key index =
     tagged L OUTGOING_CHANNEL_ID_TAG [sender_addr, sender_private_key, index, 0]"

definition compute_channel_marker :: "starknet_lib \<Rightarrow> int \<Rightarrow> int \<Rightarrow> int \<Rightarrow> int \<Rightarrow> int" where
  "compute_channel_marker L channel_key sender_addr recipient_addr recipient_public_key =
     tagged L CHANNEL_MARKER_TAG [channel_key, sender_addr, recipient_addr, recipient_public_key]"

definition compute_subchannel_id :: "starknet_lib \<Rightarrow> int \<Rightarrow> int \<Rightarrow> int" where
  "compute_subchannel_id L channel_key index = tagged L SUBCHANNEL_ID_TAG [channel_key, index, 0]"

definition compute_subchannel_marker :: "starknet_lib \<Rightarrow> int \<Rightarrow> int \<Rightarrow> int \<Rightarrow> int \<Rightarrow> int" where
  "compute_subchannel_marker L channel_key recipient_addr recipient_public_key token =
     tagged L SUBCHANNEL_MARKER_TAG [channel_key, recipient_addr, recipient_public_key, token]"

definition compute_note_id :: "starknet_lib \<Rightarrow> int \<Rightarrow> int \<Rightarrow> int \<Rightarrow> int" where
  "compute_note_id L channel_key token index = tagged L NOTE_ID_TAG [channel_key, token, index, 0]"

definition compute_enc_amount_hash :: "starknet_lib \<Rightarrow> int \<Rightarrow> int \<Rightarrow> int \<Rightarrow> int \<Rightarrow> int" where
  "compute_enc_amount_hash L channel_key token index salt =
     tagged L ENC_AMOUNT_TAG [channel_key, token, index, 0, salt]"

definition compute_nullifier :: "starknet_lib \<Rightarrow> int \<Rightarrow> int \<Rightarrow> int \<Rightarrow> int \<Rightarrow> int" where
  "compute_nullifier L channel_key token index owner_private_key =
     tagged L NULLIFIER_TAG [channel_key, token, index, 0, owner_private_key]"

section \<open>The tags are well formed\<close>

text \<open>Documented behaviour of the package: \<open>buf2hex\<close> prints bytes as hex digits.\<close>

definition lib_hex :: "starknet_lib \<Rightarrow> bool" where
  "lib_hex L = (\<forall>bs. bs \<noteq> [] \<longrightarrow> parse_nat 16 (buf2hex L bs) \<noteq> None)"

definition lib_utf8 :: "starknet_lib \<Rightarrow> bool" where
  "lib_utf8 L = (\<forall>s. s \<noteq> [] \<longrightarrow> utf8ToArray L s \<noteq> [])"

definition domain_tags :: "string list" where
  "domain_tags = [CHANNEL_MARKER_TAG, CHANNEL_KEY_TAG, SUBCHANNEL_MARKER_TAG, SUBCHANNEL_ID_TAG,
     NULLIFIER_TAG, ENC_CHANNEL_KEY_TAG, ENC_SENDER_ADDR_TAG, NOTE_ID_TAG, ENC_AMOUNT_TAG, ENC_TOKEN_TAG,
     ENC_PRIVATE_KEY_TAG, ENC_USER_ADDR_TAG, ENC_RECIPIENT_ADDR_TAG, OUTGOING_CHANNEL_ID_TAG,
     IDENTITY_KEY_TAG]"

lemma domain_tags_distinct: "distinct domain_tags"
  by (simp add: domain_tags_def tag_defs)

lemma domain_tags_short:
  "t \<in> set domain_tags \<Longrightarrow> t \<noteq> [] \<and> length t \<le> 31 \<and> \<not> isNumericString t \<and> \<not> hex_prefixed t \<and> \<not> all_decimal t"
  by (auto simp: domain_tags_def tag_defs isNumericString_def hex_prefixed_def all_decimal_def
      digit_val_def Let_def)

lemma mapR_bigints [simp]: "mapR (hash_arg L) (map BNBigint ns) = Inr ns"
  by (induction ns) (simp_all add: hash_arg_def)

lemma trim_hex_prefix: "parse_nat 16 ds = Some n \<Longrightarrow> trim (CHR ''0'' # CHR ''x'' # ds) = CHR ''0'' # CHR ''x'' # ds"
proof -
  assume "parse_nat 16 ds = Some n"
  then have ne: "ds \<noteq> []" and p: "parse_digits 16 0 ds = Some n"
    by (auto simp: parse_nat_def split: if_splits)
  obtain xs c where ds: "ds = xs @ [c]" using ne by (metis rev_exhaust)
  from p have "digit_val c \<noteq> None"
    by (auto simp: ds parse_digits_append split: option.splits Option.bind_splits)
  then have "\<not> is_ws c" by (auto simp: digit_val_def is_ws_def Let_def split: if_splits)
  then show ?thesis by (intro trim_id) (auto simp: ds is_ws_def)
qed

lemma BigInt_hex_digits: "parse_nat 16 ds = Some n \<Longrightarrow> BigInt (BNString (CHR ''0'' # CHR ''x'' # ds)) = Inr (int n)"
  by (simp add: StringToBigInt_def trim_hex_prefix)

text \<open>No identifier computation throws, and each is one hash under its own tag.\<close>

lemma hash_tagged:
  assumes "lib_hex L" "lib_utf8 L" "t \<in> set domain_tags"
  shows "hash L (BNString t # map BNBigint ns) = Inr (tagged L t ns)"
proof -
  from domain_tags_short [OF assms(3)] have t: "t \<noteq> []" "length t \<le> 31" "\<not> isNumericString t"
    "\<not> hex_prefixed t" "\<not> all_decimal t" by auto
  from assms(1,2) t(1) obtain n where "parse_nat 16 (buf2hex L (utf8ToArray L t)) = Some n"
    by (auto simp: lib_hex_def lib_utf8_def)
  with t have "\<exists>v. hash_arg L (BNString t) = Inr v"
    by (auto simp: hash_arg_def shortStringToFelt_def toHex_def toHex_digits_def BigInt_hex_digits
        simp del: BigInt.simps)
  then show ?thesis by (auto simp: tagged_def hash_def)
qed

lemma generateRandom120_bound:
  "\<forall>b \<in> set bytes. b < 256 \<Longrightarrow> 0 \<le> generateRandom120 bytes \<and> generateRandom120 bytes < 2 ^ (8 * length bytes)"
proof (induction bytes rule: rev_induct)
  case Nil
  then show ?case by (simp add: generateRandom120_def)
next
  case (snoc b bs)
  then have IH: "0 \<le> generateRandom120 bs" "generateRandom120 bs \<le> 2 ^ (8 * length bs) - 1"
    and b: "b < 256" by auto
  have "generateRandom120 (bs @ [b]) = generateRandom120 bs * 256 + int b"
    by (simp add: generateRandom120_def)
  moreover have "generateRandom120 bs * 256 + int b < 2 ^ (8 * length bs) * 256"
    using IH(2) b by linarith
  moreover have "(2::int) ^ (8 * length (bs @ [b])) = 2 ^ (8 * length bs) * 256"
    by (simp add: power_add)
  ultimately show ?case using IH(1) by simp
qed

end
