(* ===== verification/Encryptions.thy ===== *)
theory Encryptions
  imports Hashes
begin

text \<open>
  \<open>sdk/src/utils/encryptions.ts\<close>: one-time pads over the field of the Stark curve. Channel info, private
  keys and user addresses are padded with a hash of an ECDH secret; tokens, recipient addresses and
  note amounts with a hash of the channel key or the sender's key and a salt. The curve is
  third-party: \<open>getPublicKey\<close>, \<open>getSharedSecret\<close>, the field operations and \<open>affineToRawBytes\<close> (the
  compressed bytes of an affine point) are fields of \<open>starknet_lib\<close>.

  The locale \<open>pad_cipher\<close> is the law of a pad modulo \<open>P\<close>; every decryption function is an instance.
\<close>

section \<open>Types\<close>

record EncChannelInfo =
  ephemeral_pubkey :: bignum
  enc_channel_key :: bignum
  enc_sender_addr :: bignum

record EncSubchannelInfo =
  enc_sub_salt :: bignum
  enc_token :: bignum

record EncOutgoingChannelInfo =
  enc_out_salt :: bignum
  enc_recipient_addr :: bignum

record EncPrivateKey =
  epk_ephemeralPubkey :: int
  encPrivateKey :: int

record EncUserAddr =
  eua_ephemeralPubkey :: int
  encUserAddr :: int

record ChannelInfo =
  ci_key :: int
  ci_sender :: int

record SubchannelInfo =
  si_token :: int
  si_salt :: int

record OutgoingChannelInfo =
  oi_recipientAddr :: int
  oi_salt :: int

section \<open>Helpers\<close>

definition TWO_POW_128 :: int where
  "TWO_POW_128 = 2 ^ 128"

definition recoverPointFromX :: "starknet_lib \<Rightarrow> int \<Rightarrow> nat list result" where
  "recoverPointFromX L x =
     (let x3 = Fp_mul L (Fp_mul L x x) x;
          ax = Fp_mul L (CURVE_a L) x;
          y2 = Fp_add L (Fp_add L x3 ax) (CURVE_b L)
      in case Fp_sqrt L y2 of
           None \<Rightarrow> Inl (NotOnCurve x)
         | Some y \<Rightarrow> Inr (affineToRawBytes L x y))"

text \<open>
  The ECDH steps every asymmetric function repeats: recover the other side's point from its
  x-coordinate, multiply it by the secret, keep the x-coordinate.
\<close>

definition sharedX :: "starknet_lib \<Rightarrow> nat list \<Rightarrow> int \<Rightarrow> int result" where
  "sharedX L secretBytes pubX =
     bindR (recoverPointFromX L pubX) (\<lambda>pubBytes.
     bindR (getSharedSecret L secretBytes pubBytes) (\<lambda>sharedPoint.
     getXCoordinateFromBytes L sharedPoint))"

definition pad_add :: "starknet_lib \<Rightarrow> int \<Rightarrow> int \<Rightarrow> int" where
  "pad_add L pad v = js_rem (pad + v) (Fp_ORDER L)"

definition pad_sub :: "starknet_lib \<Rightarrow> int \<Rightarrow> int \<Rightarrow> int" where
  "pad_sub L pad c = js_rem (js_rem (c - pad) (Fp_ORDER L) + Fp_ORDER L) (Fp_ORDER L)"

section \<open>Channel info\<close>

definition encryptChannelInfo :: "starknet_lib \<Rightarrow> int \<Rightarrow> int \<Rightarrow> int \<Rightarrow> int \<Rightarrow> EncChannelInfo result" where
  "encryptChannelInfo L ephemeralSecret recipientPublicKey channelKey senderAddr =
     bindR (toBytes L (BNBigint ephemeralSecret)) (\<lambda>ephemeralSecretBytes.
     bindR (getPublicKey L ephemeralSecretBytes) (\<lambda>ephemeralPubPoint.
     bindR (getXCoordinateFromBytes L ephemeralPubPoint) (\<lambda>ephemeralPubkey.
     bindR (sharedX L ephemeralSecretBytes recipientPublicKey) (\<lambda>sx.
     Inr \<lparr>ephemeral_pubkey = BNBigint ephemeralPubkey,
          enc_channel_key = BNBigint (pad_add L (compute_enc_channel_key_hash L sx) channelKey),
          enc_sender_addr = BNBigint (pad_add L (compute_enc_sender_addr_hash L sx) senderAddr)\<rparr>))))"

definition decryptChannelInfo :: "starknet_lib \<Rightarrow> EncChannelInfo \<Rightarrow> bignum \<Rightarrow> ChannelInfo result" where
  "decryptChannelInfo L encrypted recipientPrivateKey =
     bindR (toBytes L recipientPrivateKey) (\<lambda>privateKeyBytes.
     bindR (toBigInt (ephemeral_pubkey encrypted)) (\<lambda>epk.
     bindR (sharedX L privateKeyBytes epk) (\<lambda>sx.
     bindR (toBigInt (enc_channel_key encrypted)) (\<lambda>ck.
     bindR (toBigInt (enc_sender_addr encrypted)) (\<lambda>sa.
     Inr \<lparr>ci_key = pad_sub L (compute_enc_channel_key_hash L sx) ck,
          ci_sender = pad_sub L (compute_enc_sender_addr_hash L sx) sa\<rparr>)))))"

section \<open>Subchannel info\<close>

definition encryptSubchannelInfo :: "starknet_lib \<Rightarrow> int \<Rightarrow> int \<Rightarrow> int \<Rightarrow> int \<Rightarrow> EncSubchannelInfo" where
  "encryptSubchannelInfo L channelKey index token salt =
     \<lparr>enc_sub_salt = BNBigint salt,
      enc_token = BNBigint (pad_add L (compute_enc_token_hash L channelKey index salt) token)\<rparr>"

definition decryptSubchannelInfo :: "starknet_lib \<Rightarrow> EncSubchannelInfo \<Rightarrow> int \<Rightarrow> int \<Rightarrow> SubchannelInfo result" where
  "decryptSubchannelInfo L encrypted channelKey index =
     bindR (toBigInt (enc_sub_salt encrypted)) (\<lambda>salt.
     bindR (toBigInt (enc_token encrypted)) (\<lambda>et.
     Inr \<lparr>si_token = pad_sub L (compute_enc_token_hash L channelKey index salt) et, si_salt = salt\<rparr>))"

section \<open>Note amount\<close>

definition encryptNoteAmount :: "starknet_lib \<Rightarrow> int \<Rightarrow> int \<Rightarrow> int \<Rightarrow> int \<Rightarrow> int \<Rightarrow> int" where
  "encryptNoteAmount L channelKey token index salt amount =
     (let encAmountHash = compute_enc_amount_hash L channelKey token index salt;
          encAmount = js_rem (encAmountHash + amount) TWO_POW_128
      in salt * TWO_POW_128 + encAmount)"

definition decryptNoteAmount :: "starknet_lib \<Rightarrow> int \<Rightarrow> int \<Rightarrow> int \<Rightarrow> int \<Rightarrow> int \<times> int" where
  "decryptNoteAmount L encNoteValue channelKey token index =
     (let salt = js_div encNoteValue TWO_POW_128;
          encAmount = js_rem encNoteValue TWO_POW_128;
          pad = js_rem (compute_enc_amount_hash L channelKey token index salt) TWO_POW_128;
          amount = js_rem (encAmount + TWO_POW_128 - pad) TWO_POW_128
      in (amount, salt))"

definition enc_derivePublicKey :: "starknet_lib \<Rightarrow> int \<Rightarrow> int result" where
  "enc_derivePublicKey L privateKey =
     bindR (toBytes L (BNBigint privateKey)) (\<lambda>privateKeyBytes.
     bindR (getPublicKey L privateKeyBytes) (\<lambda>publicKeyBytes.
     getXCoordinateFromBytes L publicKeyBytes))"

section \<open>Outgoing channel info\<close>

definition encryptOutgoingChannelInfo ::
  "starknet_lib \<Rightarrow> int \<Rightarrow> int \<Rightarrow> int \<Rightarrow> int \<Rightarrow> int \<Rightarrow> EncOutgoingChannelInfo"
where
  "encryptOutgoingChannelInfo L senderAddr senderPrivateKey index recipientAddr salt =
     \<lparr>enc_out_salt = BNBigint salt,
      enc_recipient_addr = BNBigint
        (pad_add L (compute_enc_recipient_addr_hash L senderAddr senderPrivateKey index salt) recipientAddr)\<rparr>"

definition decryptOutgoingChannelInfo ::
  "starknet_lib \<Rightarrow> EncOutgoingChannelInfo \<Rightarrow> bignum \<Rightarrow> bignum \<Rightarrow> int \<Rightarrow> OutgoingChannelInfo result"
where
  "decryptOutgoingChannelInfo L encrypted senderAddr senderPrivateKey index =
     bindR (toBigInt (enc_out_salt encrypted)) (\<lambda>salt.
     bindR (toBigInt (enc_recipient_addr encrypted)) (\<lambda>era.
     bindR (toBigInt senderAddr) (\<lambda>sa.
     bindR (toBigInt senderPrivateKey) (\<lambda>sk.
     Inr \<lparr>oi_recipientAddr = pad_sub L (compute_enc_recipient_addr_hash L sa sk index salt) era,
          oi_salt = salt\<rparr>))))"

section \<open>Private key and user address\<close>

definition encryptPrivateKey :: "starknet_lib \<Rightarrow> int \<Rightarrow> int \<Rightarrow> int \<Rightarrow> EncPrivateKey result" where
  "encryptPrivateKey L ephemeralSecret auditorPublicKey privateKey =
     bindR (toBytes L (BNBigint ephemeralSecret)) (\<lambda>ephemeralSecretBytes.
     bindR (getPublicKey L ephemeralSecretBytes) (\<lambda>ephemeralPubPoint.
     bindR (getXCoordinateFromBytes L ephemeralPubPoint) (\<lambda>ephemeralPubkey.
     bindR (sharedX L ephemeralSecretBytes auditorPublicKey) (\<lambda>sx.
     Inr \<lparr>epk_ephemeralPubkey = ephemeralPubkey,
          encPrivateKey = pad_add L (compute_enc_private_key_hash L sx) privateKey\<rparr>))))"

definition decryptPrivateKey :: "starknet_lib \<Rightarrow> EncPrivateKey \<Rightarrow> int \<Rightarrow> int result" where
  "decryptPrivateKey L encrypted auditorPrivateKey =
     bindR (toBytes L (BNBigint auditorPrivateKey)) (\<lambda>privateKeyBytes.
     bindR (sharedX L privateKeyBytes (epk_ephemeralPubkey encrypted)) (\<lambda>sx.
     Inr (pad_sub L (compute_enc_private_key_hash L sx) (encPrivateKey encrypted))))"

definition encryptUserAddr :: "starknet_lib \<Rightarrow> int \<Rightarrow> int \<Rightarrow> int \<Rightarrow> EncUserAddr result" where
  "encryptUserAddr L ephemeralSecret auditorPublicKey userAddr =
     bindR (toBytes L (BNBigint ephemeralSecret)) (\<lambda>ephemeralSecretBytes.
     bindR (getPublicKey L ephemeralSecretBytes) (\<lambda>ephemeralPubPoint.
     bindR (getXCoordinateFromBytes L ephemeralPubPoint) (\<lambda>ephemeralPubkey.
     bindR (sharedX L ephemeralSecretBytes auditorPublicKey) (\<lambda>sx.
     Inr \<lparr>eua_ephemeralPubkey = ephemeralPubkey,
          encUserAddr = pad_add L (compute_enc_user_addr_hash L sx) userAddr\<rparr>))))"

definition decryptUserAddr :: "starknet_lib \<Rightarrow> EncUserAddr \<Rightarrow> int \<Rightarrow> int result" where
  "decryptUserAddr L encrypted auditorPrivateKey =
     bindR (toBytes L (BNBigint auditorPrivateKey)) (\<lambda>privateKeyBytes.
     bindR (sharedX L privateKeyBytes (eua_ephemeralPubkey encrypted)) (\<lambda>sx.
     Inr (pad_sub L (compute_enc_user_addr_hash L sx) (encUserAddr encrypted))))"

section \<open>The pad contract\<close>

locale pad_cipher =
  fixes P :: int
    and enc :: "int \<Rightarrow> int \<Rightarrow> int"
    and dec :: "int \<Rightarrow> int \<Rightarrow> int"
    and dom :: "int \<Rightarrow> bool"
  assumes modulus: "0 < P"
    and enc_dom: "dom pad \<Longrightarrow> 0 \<le> v \<Longrightarrow> dom (enc pad v)"
    and dec_cong: "dom pad \<Longrightarrow> dom c \<Longrightarrow> dec pad c = (c - pad) mod P"
    and enc_cong: "enc pad v mod P = (pad + v) mod P"
begin

text \<open>A wrong pad reveals the value shifted by the difference of the pads.\<close>

lemma dec_other_pad:
  "dom pad \<Longrightarrow> dom pad' \<Longrightarrow> 0 \<le> v \<Longrightarrow> dec pad' (enc pad v) = (v + (pad - pad')) mod P"
proof -
  assume d: "dom pad" "dom pad'" "0 \<le> v"
  then have "dec pad' (enc pad v) = (enc pad v mod P - pad') mod P"
    by (simp add: dec_cong enc_dom mod_diff_left_eq)
  also have "\<dots> = (pad + v - pad') mod P" by (simp add: enc_cong mod_diff_left_eq)
  finally show ?thesis by (simp add: algebra_simps)
qed

lemma dec_enc: "dom pad \<Longrightarrow> 0 \<le> v \<Longrightarrow> v < P \<Longrightarrow> dec pad (enc pad v) = v"
  using dec_other_pad [of pad pad v] by simp

lemma dec_range: "dom pad \<Longrightarrow> dom c \<Longrightarrow> 0 \<le> dec pad c \<and> dec pad c < P"
  using modulus by (simp add: dec_cong)

end

text \<open>The field pad is an instance for every library whose field order is positive.\<close>

lemma felt_pad: "0 < Fp_ORDER L \<Longrightarrow> pad_cipher (Fp_ORDER L) (pad_add L) (pad_sub L) (\<lambda>_. True)"
  by unfold_locales (auto simp: pad_add_def pad_sub_def js_rem_cong)

lemmas pad_round_trip = pad_cipher.dec_enc [OF felt_pad, OF _ TrueI]

text \<open>The pad of note amounts works modulo \<open>2 ^ 128\<close> on non-negative hashes.\<close>

definition amount_enc :: "int \<Rightarrow> int \<Rightarrow> int" where
  "amount_enc pad amount = js_rem (pad + amount) TWO_POW_128"

definition amount_dec :: "int \<Rightarrow> int \<Rightarrow> int" where
  "amount_dec pad c = js_rem (js_rem c TWO_POW_128 + TWO_POW_128 - js_rem pad TWO_POW_128) TWO_POW_128"

lemma TWO_POW_128_pos [simp]: "0 < TWO_POW_128"
  by (simp add: TWO_POW_128_def)

interpretation amount_pad: pad_cipher TWO_POW_128 amount_enc amount_dec "\<lambda>x. 0 \<le> x"
proof
  fix pad c v :: int
  show "0 < TWO_POW_128" by simp
  show "0 \<le> amount_enc pad v" if "0 \<le> pad" "0 \<le> v"
    using that by (simp add: amount_enc_def)
  show "amount_enc pad v mod TWO_POW_128 = (pad + v) mod TWO_POW_128"
    by (simp add: amount_enc_def js_rem_cong)
  assume nn: "0 \<le> pad" "0 \<le> c"
  have "0 \<le> c mod TWO_POW_128" "pad mod TWO_POW_128 < TWO_POW_128" by simp_all
  then have le: "0 \<le> c mod TWO_POW_128 + TWO_POW_128 - pad mod TWO_POW_128" by linarith
  have "amount_dec pad c = (c mod TWO_POW_128 + TWO_POW_128 - pad mod TWO_POW_128) mod TWO_POW_128"
    using nn le by (simp add: amount_dec_def)
  also have "\<dots> = (c mod TWO_POW_128 - pad mod TWO_POW_128 + TWO_POW_128) mod TWO_POW_128"
    by (simp add: algebra_simps)
  also have "\<dots> = (c - pad) mod TWO_POW_128" by (simp add: mod_diff_eq)
  finally show "amount_dec pad c = (c - pad) mod TWO_POW_128" .
qed

section \<open>Key agreement\<close>

definition secretBytes :: "starknet_lib \<Rightarrow> int \<Rightarrow> nat list" where
  "secretBytes L k = hexStringToUint8Array L (padStart 64 (CHR ''0'') (int_toString 16 k))"

lemma toBytes_bigint [simp]: "toBytes L (BNBigint k) = Inr (secretBytes L k)"
  by (simp add: toBytes_def secretBytes_def)

text \<open>
  Documented behaviour of the curve library: both sides of a Diffie-Hellman exchange over the
  x-coordinates of their public keys arrive at the same x-coordinate.
\<close>

definition ecdh_agree :: "starknet_lib \<Rightarrow> int \<Rightarrow> int \<Rightarrow> bool" where
  "ecdh_agree L k1 k2 =
     (case (enc_derivePublicKey L k1, enc_derivePublicKey L k2) of
        (Inr p1, Inr p2) \<Rightarrow>
          (case (sharedX L (secretBytes L k1) p2, sharedX L (secretBytes L k2) p1) of
             (Inr s1, Inr s2) \<Rightarrow> s1 = s2
           | _ \<Rightarrow> False)
      | _ \<Rightarrow> False)"

lemma ecdh_agreeE:
  assumes "ecdh_agree L k1 k2"
  obtains b1 p1 p2 s where "getPublicKey L (secretBytes L k1) = Inr b1"
    "getXCoordinateFromBytes L b1 = Inr p1" "enc_derivePublicKey L k2 = Inr p2"
    "sharedX L (secretBytes L k1) p2 = Inr s" "sharedX L (secretBytes L k2) p1 = Inr s"
  using assms
  by (auto simp: ecdh_agree_def enc_derivePublicKey_def bindR_eq_Inr split: sum.splits)

section \<open>Round trips\<close>

definition is_felt :: "starknet_lib \<Rightarrow> int \<Rightarrow> bool" where
  "is_felt L v = (0 \<le> v \<and> v < Fp_ORDER L)"

text \<open>Whoever pads a felt and unpads it with the same hash reads the felt.\<close>

lemma pad_felt [simp]: "is_felt L v \<Longrightarrow> pad_sub L pad (pad_add L pad v) = v"
  unfolding is_felt_def by (auto intro: pad_round_trip)


text \<open>
  what a user encrypts for the auditor, the private key or the account address, the auditor's
  private key decrypts.
\<close>

theorem auditor_round_trip:
  assumes "ecdh_agree L e p" "is_felt L v"
  shows "\<exists>pub k a. enc_derivePublicKey L p = Inr pub \<and>
           encryptPrivateKey L e pub v = Inr k \<and> decryptPrivateKey L k p = Inr v \<and>
           encryptUserAddr L e pub v = Inr a \<and> decryptUserAddr L a p = Inr v"
proof -
  from assms(1) obtain b1 p1 p2 s where "getPublicKey L (secretBytes L e) = Inr b1"
    "getXCoordinateFromBytes L b1 = Inr p1" "enc_derivePublicKey L p = Inr p2"
    "sharedX L (secretBytes L e) p2 = Inr s" "sharedX L (secretBytes L p) p1 = Inr s"
    by (rule ecdh_agreeE)
  with assms(2) show ?thesis
    by (simp add: encryptPrivateKey_def decryptPrivateKey_def encryptUserAddr_def decryptUserAddr_def)
qed

text \<open>
  tokens of subchannels and recipients of outgoing channels decrypt to what was encrypted, with
  the salt they were stored with; the recipient also when address and key are spelled as hex strings.
\<close>

theorem symmetric_info_round_trip:
  assumes "is_felt L token" "is_felt L recipient" "0 \<le> sender" "0 \<le> key"
  shows "decryptSubchannelInfo L (encryptSubchannelInfo L channelKey index token salt) channelKey index
           = Inr \<lparr>si_token = token, si_salt = salt\<rparr> \<and>
         decryptOutgoingChannelInfo L (encryptOutgoingChannelInfo L sender key index recipient salt)
           (BNString (hex_of sender)) (BNString (hex_of key)) index
           = Inr \<lparr>oi_recipientAddr = recipient, oi_salt = salt\<rparr>"
  using assms
  by (simp_all add: encryptSubchannelInfo_def decryptSubchannelInfo_def encryptOutgoingChannelInfo_def
      decryptOutgoingChannelInfo_def toBigInt_def del: BigInt.simps(3))

lemma unpack_salt: "0 \<le> salt \<Longrightarrow> 0 \<le> c \<Longrightarrow> c < TWO_POW_128 \<Longrightarrow> js_div (salt * TWO_POW_128 + c) TWO_POW_128 = salt"
  by (simp add: js_div_nonneg)

text \<open>
  C36: a packed note value keeps its salt in the bits above \<open>128\<close> and its amount below: decryption returns
  both, for every \<open>128\<close>-bit amount, and with a \<open>120\<close>-bit salt the packed value stays under \<open>2 ^ 248\<close>.
\<close>

theorem note_amount_round_trip:
  assumes "0 \<le> amount" "amount < 2 ^ 128" "0 \<le> salt" "salt < 2 ^ 120"
    and "0 \<le> compute_enc_amount_hash L channelKey token index salt"
  shows "decryptNoteAmount L (encryptNoteAmount L channelKey token index salt amount) channelKey token index
           = (amount, salt) \<and>
         0 \<le> encryptNoteAmount L channelKey token index salt amount \<and>
         encryptNoteAmount L channelKey token index salt amount < 2 ^ 248"
proof -
  let ?pad = "compute_enc_amount_hash L channelKey token index salt"
  let ?c = "amount_enc ?pad amount"
  have c: "0 \<le> ?c" "?c < TWO_POW_128" using assms by (simp_all add: amount_enc_def)
  have packed: "encryptNoteAmount L channelKey token index salt amount = salt * TWO_POW_128 + ?c"
    by (simp add: encryptNoteAmount_def amount_enc_def Let_def)
  have salt: "js_div (salt * TWO_POW_128 + ?c) TWO_POW_128 = salt" using c assms(3) by (intro unpack_salt) auto
  have rem: "js_rem (salt * TWO_POW_128 + ?c) TWO_POW_128 = js_rem ?c TWO_POW_128"
    using c assms(3) by simp
  have "amount_dec ?pad ?c = amount"
    using assms by (intro amount_pad.dec_enc) (simp_all add: TWO_POW_128_def)
  then have "decryptNoteAmount L (salt * TWO_POW_128 + ?c) channelKey token index = (amount, salt)"
    by (simp add: decryptNoteAmount_def Let_def salt rem amount_dec_def)
  moreover have "salt * TWO_POW_128 + ?c < 2 ^ 248"
    using c(2) assms(4) by (simp add: TWO_POW_128_def)
  ultimately show ?thesis using c assms(3) by (simp add: packed)
qed

section \<open>The generic symmetric cipher\<close>

text \<open>
  \<open>decryptSymmetric\<close> subtracts the pad without reducing: it returns the encrypted value only when pad
  and value do not wrap around the curve order, and the value minus the order, a negative number,
  when they do.
\<close>

theorem decryptSymmetric_wraps:
  assumes "hash L [BNBigint shared, BNBigint r] = Inr h" "0 \<le> h" "0 \<le> v" "v < CURVE_n L"
    and "encryptSymmetric L shared (BNBigint v) r = Inr e"
  shows "decryptSymmetric L e shared =
           Inr (if h mod CURVE_n L + v < CURVE_n L then v else v - CURVE_n L)"
proof -
  let ?n = "CURVE_n L"
  have n: "0 < ?n" using assms(3,4) by linarith
  from assms(1,2,3,5) n have e: "se_r e = r" "se_enc e = (h + v) mod ?n"
    by (auto simp: encryptSymmetric_def split: if_splits)
  have r: "0 \<le> h mod ?n" "h mod ?n < ?n" using n by simp_all
  have split: "(h + v) mod ?n = (h mod ?n + v) mod ?n" by (simp add: mod_add_left_eq)
  have "(h mod ?n + v) mod ?n = (if h mod ?n + v < ?n then h mod ?n + v else h mod ?n + v - ?n)"
  proof (cases "h mod ?n + v < ?n")
    case False
    then have "(h mod ?n + v) mod ?n = (h mod ?n + v - ?n) mod ?n" by simp
    also have "\<dots> = h mod ?n + v - ?n" using False r assms(3,4) by (intro mod_pos_pos_trivial) linarith+
    finally show ?thesis using False by simp
  qed (use r assms(3) in simp)
  with assms(1,2) n e split show ?thesis by (simp add: decryptSymmetric_def)
qed

section \<open>A concrete library\<close>

text \<open>
  A small instance of the third-party record, used by the witnesses: keys are multiples of a
  generator of the additive group modulo 89, the hash is a sum modulo 97, the field has 97 elements.
\<close>

definition sample_lib :: starknet_lib where
  "sample_lib = \<lparr>
     poseidonHashMany = (\<lambda>xs. sum_list xs mod 97),
     buf2hex = (\<lambda>bs. to_base 16 (sum_list bs)),
     utf8ToArray = map of_char,
     uint8ArrayToBigInt = (\<lambda>bs. int (sum_list bs)),
     hexStringToUint8Array = (\<lambda>s. case parse_nat 16 s of Some n \<Rightarrow> [n] | None \<Rightarrow> []),
     getPublicKey = (\<lambda>k. Inr [sum_list k * 3 mod 89]),
     getSharedSecret = (\<lambda>k p. Inr [sum_list k * sum_list p mod 89]),
     Fp_ORDER = 97, CURVE_n = 89, CURVE_a = 1, CURVE_b = 0,
     Fp_mul = (\<lambda>x y. x * y mod 97), Fp_add = (\<lambda>x y. (x + y) mod 97),
     Fp_sqrt = (\<lambda>y. Some y),
     affineToRawBytes = (\<lambda>x y. [nat x]),
     callDataCompile = (\<lambda>args. [])\<rparr>"

lemma sample_lib_hex: "lib_hex sample_lib" "lib_utf8 sample_lib"
  by (simp_all add: lib_hex_def lib_utf8_def sample_lib_def)

lemma sample_ecdh: "ecdh_agree sample_lib 5 7"
  by code_simp


theorem auditor_round_trip_witness:
  "\<exists>pub k a. enc_derivePublicKey sample_lib 7 = Inr pub \<and>
     encryptPrivateKey sample_lib 5 pub 90 = Inr k \<and> decryptPrivateKey sample_lib k 7 = Inr 90 \<and>
     encryptUserAddr sample_lib 5 pub 90 = Inr a \<and> decryptUserAddr sample_lib a 7 = Inr 90"
  using auditor_round_trip [OF sample_ecdh, of 90] by (simp add: is_felt_def sample_lib_def)

theorem symmetric_info_round_trip_witness:
  "decryptSubchannelInfo sample_lib (encryptSubchannelInfo sample_lib 3 1 90 8) 3 1
     = Inr \<lparr>si_token = 90, si_salt = 8\<rparr> \<and>
   decryptOutgoingChannelInfo sample_lib (encryptOutgoingChannelInfo sample_lib 12 34 1 77 8)
     (BNString (hex_of 12)) (BNString (hex_of 34)) 1 = Inr \<lparr>oi_recipientAddr = 77, oi_salt = 8\<rparr>"
  by (rule symmetric_info_round_trip) (simp_all add: is_felt_def sample_lib_def)

lemma sample_amount_hash: "0 \<le> compute_enc_amount_hash sample_lib 3 4 1 8"
  by code_simp

theorem note_amount_round_trip_witness:
  "decryptNoteAmount sample_lib (encryptNoteAmount sample_lib 3 4 1 8 1000) 3 4 1 = (1000, 8) \<and>
   0 \<le> encryptNoteAmount sample_lib 3 4 1 8 1000 \<and> encryptNoteAmount sample_lib 3 4 1 8 1000 < 2 ^ 248"
  by (rule note_amount_round_trip) (simp_all add: sample_amount_hash)

lemma sample_symmetric:
  "hash sample_lib [BNBigint 40, BNBigint 30] = Inr 70"
  "encryptSymmetric sample_lib 40 (BNBigint 50) 30 = Inr \<lparr>se_r = 30, se_enc = 31\<rparr>"
  by code_simp+

theorem decryptSymmetric_wraps_witness:
  "decryptSymmetric sample_lib \<lparr>se_r = 30, se_enc = 31\<rparr> 40 = Inr (- 39)"
  using decryptSymmetric_wraps [OF sample_symmetric(1) _ _ _ sample_symmetric(2)]
  by (simp add: sample_lib_def)

end
