(* ===== verification/Interfaces.thy ===== *)
theory Interfaces
  imports Encryptions
begin

text \<open>
  The data the components exchange: \<open>sdk/src/interfaces.ts\<close>, \<open>sdk/src/internal/channel.ts\<close> and
  \<open>sdk/src/internal/client-actions.ts\<close>. Optional fields are \<open>option\<close>s and the lists of \<open>Actions\<close> are
  optional too, because the compiler tells an absent list from an empty one. A public key keeps the
  spelling it arrived in (\<open>bignum\<close>); the casts \<open>as bigint\<close> of the source convert nothing. Address maps are
  insertion-ordered maps over integers.
\<close>

section \<open>channel.ts\<close>

record TokenChannel =
  tokenIndex :: nat
  noteNonce :: nat

record Channel =
  publicKey :: bignum
  key :: "int option"
  tokens :: "(int, TokenChannel) jsmap"

definition new_Channel :: "bignum \<Rightarrow> int option \<Rightarrow> (int \<times> TokenChannel) list \<Rightarrow> Channel" where
  "new_Channel pk k toks = \<lparr>publicKey = pk, key = k, tokens = jm_of_entries toks\<rparr>"

text \<open>The default a channel's token map creates on a missing key.\<close>

definition fresh_token :: TokenChannel where
  "fresh_token = \<lparr>tokenIndex = 0, noteNonce = 0\<rparr>"

definition incrementNoteNonce :: "Channel \<Rightarrow> int \<Rightarrow> Channel \<times> nat" where
  "incrementNoteNonce c token =
     (let (toks, cur) = jm_get_default (tokens c) token fresh_token;
          cur' = cur\<lparr>noteNonce := noteNonce cur + 1\<rparr>
      in (c\<lparr>tokens := jm_set toks token cur'\<rparr>, noteNonce cur'))"

definition clone :: "Channel \<Rightarrow> Channel" where
  "clone c = new_Channel (publicKey c) (key c) (tokens c)"

datatype SetupRequirement = Register | SetupChannel | SetupToken | Ready

text \<open>A channel key of \<open>0n\<close> is falsy, as is an undefined one.\<close>

definition key_truthy :: "int option \<Rightarrow> bool" where
  "key_truthy k = (case k of None \<Rightarrow> False | Some v \<Rightarrow> v \<noteq> 0)"

definition toSetupRequirement :: "Channel \<Rightarrow> int \<Rightarrow> SetupRequirement" where
  "toSetupRequirement c token =
     (if \<not> truthy (publicKey c) then Register
      else if \<not> key_truthy (key c) then SetupChannel
      else if \<not> jm_has (tokens c) token then SetupToken
      else Ready)"

datatype BlockId = BlockTag string | BlockNumber int | BlockHash string

record IncomingChannelCursor =
  ic_channelKey :: int
  ic_subchannelIdIndex :: int
  ic_noteIndexes :: "(int, int) jsmap"
  ic_totalNoteCounts :: "(int, int) jsmap"

record NotesCursor =
  nc_blockId :: BlockId
  incomingChannels :: "(int, IncomingChannelCursor) jsmap"

definition cloneIncomingChannelCursor :: "IncomingChannelCursor \<Rightarrow> IncomingChannelCursor" where
  "cloneIncomingChannelCursor sc =
     \<lparr>ic_channelKey = ic_channelKey sc,
      ic_subchannelIdIndex = ic_subchannelIdIndex sc,
      ic_noteIndexes = jm_of_entries (ic_noteIndexes sc),
      ic_totalNoteCounts = jm_of_entries (ic_totalNoteCounts sc)\<rparr>"

definition cloneNotesCursor :: "NotesCursor option \<Rightarrow> NotesCursor" where
  "cloneNotesCursor cursor = (case cursor of
      None \<Rightarrow> \<lparr>nc_blockId = BlockNumber 0, incomingChannels = []\<rparr>
    | Some c \<Rightarrow>
        \<lparr>nc_blockId = nc_blockId c,
         incomingChannels = jm_of_entries
           (map (\<lambda>(k, v). (k, cloneIncomingChannelCursor v)) (incomingChannels c))\<rparr>)"

datatype RecipientsFilter = Recipients "int list" | AllRecipients | TotalOnly

record ChannelCursor =
  cc_channels :: "(int, Channel) jsmap option"
  cc_total :: "nat option"

definition cloneChannelCursor :: "ChannelCursor option \<Rightarrow> ChannelCursor" where
  "cloneChannelCursor cursor = (case cursor of
      None \<Rightarrow> \<lparr>cc_channels = Some [], cc_total = None\<rparr>
    | Some c \<Rightarrow>
        \<lparr>cc_channels = map_option (\<lambda>m. jm_of_entries (map (\<lambda>(k, v). (k, clone v)) m)) (cc_channels c),
         cc_total = cc_total c\<rparr>)"

record Witness =
  w_channelKey :: int
  w_nonce :: nat
  w_r :: int

section \<open>interfaces.ts: notes and actions\<close>

record Note =
  n_id :: bignum
  n_amount :: int
  n_created :: "int option"
  n_witness :: Witness
  n_viewingKey :: "bignum option"
  n_sender :: bignum
  n_open :: "bool option"

datatype Amount = Amt int | Open

definition isOpen :: "Amount \<Rightarrow> bool" where
  "isOpen a = (case a of Open \<Rightarrow> True | Amt _ \<Rightarrow> False)"

record OpenChannelAction =
  oc_recipient :: int

record OpenTokenChannelAction =
  ot_recipient :: int
  ot_token :: int

record DepositAction =
  d_token :: int
  d_amount :: int
  d_noteId :: "bignum option"

record UseNoteAction =
  u_token :: int
  u_note :: Note

record CreateNoteAction =
  c_recipient :: int
  c_token :: int
  c_amount :: Amount

record WithdrawAction =
  wd_recipient :: int
  wd_token :: int
  wd_amount :: int

record SurplusAction =
  s_recipient :: int
  s_token :: int
  s_withdraw :: "bool option"

record InvokeOpenNote =
  io_noteId :: int
  io_token :: int

record InvokeCalldataBuilderArgs =
  openNotes :: "InvokeOpenNote list"
  withdrawals :: "WithdrawAction list"
  poolAddress :: int

record CallDetails =
  cd_contractAddress :: bignum
  cd_calldata :: "raw_arg list option"

record ComputeAndInvokeDetails =
  ci_contractAddress :: bignum
  computeAdditionalData :: "raw_arg list option"
  invokeAdditionalData :: "raw_arg list option"

type_synonym InvokeAction = "InvokeCalldataBuilderArgs \<Rightarrow> CallDetails result"
type_synonym ComputeAndInvokeAction = "InvokeCalldataBuilderArgs \<Rightarrow> ComputeAndInvokeDetails result"

record Actions =
  a_setViewingKey :: bool
  a_openChannels :: "OpenChannelAction list option"
  a_openTokenChannels :: "OpenTokenChannelAction list option"
  a_deposits :: "DepositAction list option"
  a_useNotes :: "UseNoteAction list option"
  a_createNotes :: "CreateNoteAction list option"
  a_withdraws :: "WithdrawAction list option"
  a_surpluses :: "SurplusAction list option"
  a_invoke :: "InvokeAction option"
  a_computeAndInvoke :: "ComputeAndInvokeAction option"

definition no_actions :: Actions where
  "no_actions = \<lparr>a_setViewingKey = False, a_openChannels = None, a_openTokenChannels = None,
     a_deposits = None, a_useNotes = None, a_createNotes = None, a_withdraws = None,
     a_surpluses = None, a_invoke = None, a_computeAndInvoke = None\<rparr>"

section \<open>interfaces.ts: registry and options\<close>

text \<open>
  \<open>reg_notes_factory\<close> records whether the map of notes was built with the default factory \<open>() => []\<close>.
\<close>

record PrivateRegistry =
  reg_channels :: "(int, Channel) jsmap"
  reg_notes :: "(int, Note list) jsmap"
  reg_notes_factory :: bool
  reg_cursor :: "NotesCursor option"

definition createEmptyRegistry :: PrivateRegistry where
  "createEmptyRegistry = \<lparr>reg_channels = [], reg_notes = [], reg_notes_factory = True, reg_cursor = None\<rparr>"

datatype DiscoveryLevel = Missing | Refresh | AllNotes

datatype AutoSelectionStrategy = SelectAll | SelectNaive

record ExecuteOptions =
  autoRegister :: bool
  autoDiscover_notes :: "DiscoveryLevel option"
  autoDiscover_channels :: "DiscoveryLevel option"
  autoSetup :: bool
  autoSelectNotes :: "AutoSelectionStrategy option"
  o_registry :: "PrivateRegistry option"
  registryConst :: bool
  provingBlockId :: "BlockId option"

definition no_options :: ExecuteOptions where
  "no_options = \<lparr>autoRegister = False, autoDiscover_notes = None, autoDiscover_channels = None,
     autoSetup = False, autoSelectNotes = None, o_registry = None, registryConst = False,
     provingBlockId = None\<rparr>"

datatype WarningCode = USER_LINKAGE

record Warning =
  w_code :: WarningCode
  w_message :: string

section \<open>interfaces.ts: discovery provider\<close>

record NotesParams =
  np_cursor :: "NotesCursor option"
  np_tokens :: "int list option"
  np_blockIdentifier :: "BlockId option"

record NotesDiscoveryResult =
  nr_timestamp :: BlockId
  nr_notes :: "(int, Note list) jsmap"
  nr_cursor :: NotesCursor

record ChannelsParams =
  cp_cursor :: "ChannelCursor option"
  cp_blockIdentifier :: "BlockId option"

record ChannelsDiscoveryResult =
  cr_timestamp :: BlockId
  cr_channels :: "(int, Channel) jsmap option"
  cr_total :: "nat option"

record DiscoveryProvider =
  discoverNotes :: "int \<Rightarrow> bignum \<Rightarrow> NotesParams \<Rightarrow> NotesDiscoveryResult result"
  discoverChannels :: "int \<Rightarrow> bignum \<Rightarrow> RecipientsFilter \<Rightarrow> ChannelsParams \<Rightarrow> ChannelsDiscoveryResult result"

section \<open>client-actions.ts\<close>

record SetViewingKeyInput =
  svk_random :: int

record OpenChannelInput =
  oci_recipient_addr :: int
  oci_index :: nat
  oci_random :: int
  oci_salt :: int

record OpenSubchannelInput =
  osi_recipient_addr :: int
  osi_recipient_public_key :: bignum
  osi_channel_key :: "int option"
  osi_index :: nat
  osi_token :: int
  osi_salt :: int

record CreateEncNoteInput =
  cei_recipient_addr :: int
  cei_recipient_public_key :: bignum
  cei_token :: int
  cei_amount :: int
  cei_index :: nat
  cei_salt :: int

record CreateOpenNoteInput =
  coi_recipient_addr :: int
  coi_recipient_public_key :: bignum
  coi_token :: int
  coi_index :: nat
  coi_random :: int

record DepositInput =
  di_token :: int
  di_amount :: int

record UseNoteInput =
  uni_channel_key :: int
  uni_token :: int
  uni_index :: nat

record WithdrawInput =
  wi_to_addr :: int
  wi_token :: int
  wi_amount :: int
  wi_random :: int

record InvokeExternalInput =
  iei_contract_address :: int
  iei_calldata :: "int list"

record ComputeAndInvokeInput =
  cai_contract_address :: int
  cai_compute_additional_data :: "int list"
  cai_invoke_additional_data :: "int list"

datatype ClientAction =
    SetViewingKey SetViewingKeyInput
  | OpenChannel OpenChannelInput
  | OpenSubchannel OpenSubchannelInput
  | CreateEncNote CreateEncNoteInput
  | CreateOpenNote CreateOpenNoteInput
  | Deposit DepositInput
  | UseNote UseNoteInput
  | Withdraw WithdrawInput
  | InvokeExternal InvokeExternalInput
  | ComputeAndInvoke ComputeAndInvokeInput

section \<open>Lemmas on channels\<close>

definition channel_wf :: "Channel \<Rightarrow> bool" where
  "channel_wf c = jm_wf (tokens c)"

definition token_nonce :: "Channel \<Rightarrow> int \<Rightarrow> nat" where
  "token_nonce c t = (case jm_get (tokens c) t of None \<Rightarrow> 0 | Some tc \<Rightarrow> noteNonce tc)"

lemma incrementNoteNonce_nonce:
  "token_nonce (fst (incrementNoteNonce c t)) t' = (if t' = t then token_nonce c t + 1 else token_nonce c t')"
  by (auto simp: incrementNoteNonce_def token_nonce_def jm_get_default_def fresh_token_def
      split: option.splits prod.splits)

lemma incrementNoteNonce_result: "snd (incrementNoteNonce c t) = token_nonce c t + 1"
  by (auto simp: incrementNoteNonce_def token_nonce_def jm_get_default_def fresh_token_def
      split: option.splits prod.splits)

lemma incrementNoteNonce_frame [simp]:
  "publicKey (fst (incrementNoteNonce c t)) = publicKey c" "key (fst (incrementNoteNonce c t)) = key c"
  by (simp_all add: incrementNoteNonce_def split: prod.splits)

lemma incrementNoteNonce_wf [simp]: "channel_wf c \<Longrightarrow> channel_wf (fst (incrementNoteNonce c t))"
  by (auto simp: incrementNoteNonce_def channel_wf_def jm_get_default_def split: option.splits)

lemma clone_id: "channel_wf c \<Longrightarrow> clone c = c"
  by (simp add: clone_def new_Channel_def channel_wf_def)

lemma new_Channel_wf [simp]: "channel_wf (new_Channel pk k toks)"
  by (simp add: new_Channel_def channel_wf_def)

definition cursor_wf :: "NotesCursor \<Rightarrow> bool" where
  "cursor_wf c = (jm_wf (incomingChannels c) \<and>
     (\<forall>sc \<in> set (jm_values (incomingChannels c)). jm_wf (ic_noteIndexes sc) \<and> jm_wf (ic_totalNoteCounts sc)))"

lemma cloneIncomingChannelCursor_id:
  "jm_wf (ic_noteIndexes sc) \<Longrightarrow> jm_wf (ic_totalNoteCounts sc) \<Longrightarrow> cloneIncomingChannelCursor sc = sc"
  by (simp add: cloneIncomingChannelCursor_def)

lemma cloneNotesCursor_id: "cursor_wf c \<Longrightarrow> cloneNotesCursor (Some c) = c"
proof -
  assume wf: "cursor_wf c"
  have "map (\<lambda>(k, v). (k, cloneIncomingChannelCursor v)) (incomingChannels c) = incomingChannels c"
    using wf by (intro map_idI) (auto simp: cursor_wf_def cloneIncomingChannelCursor_id)
  with wf show ?thesis by (simp add: cloneNotesCursor_def cursor_wf_def)
qed

end
