(* ===== verification/Pool_Simulator.thy ===== *)
theory Pool_Simulator
  imports Interfaces
begin

text \<open>
  \<open>sdk/src/internal/pool-simulator.ts\<close>: the state the compiler tracks while it lays out client actions,
  the sender's channels with their nonces and the sender's own notes. One definition per method;
  the private handlers are dispatched by \<open>pool_execute\<close>. The maps of notes are created on first access,
  also by \<open>hasNote\<close>, which is why that query returns a pool.

  The invariant \<open>pool_wf\<close> says that the maps are well formed and that every note is filed under the
  number its id spells; \<open>execute_wf\<close> is its preservation by every action.
\<close>

record PoolSimulator =
  userAddress :: int
  userViewingKey :: int
  nextChannelIndex :: nat
  p_channels :: "(int, Channel) jsmap"
  p_notes :: "(int, (int, Note) jsmap) jsmap"

definition new_PoolSimulator :: "int \<Rightarrow> int \<Rightarrow> nat \<Rightarrow> PoolSimulator" where
  "new_PoolSimulator addr vk n =
     \<lparr>userAddress = addr, userViewingKey = vk, nextChannelIndex = n, p_channels = [], p_notes = []\<rparr>"

section \<open>Queries and setup\<close>

definition getChannel :: "PoolSimulator \<Rightarrow> int \<Rightarrow> Channel option" where
  "getChannel p recipient = jm_get (p_channels p) recipient"

definition hasNote :: "PoolSimulator \<Rightarrow> int \<Rightarrow> int \<Rightarrow> PoolSimulator \<times> bool" where
  "hasNote p token noteId =
     (let (ns, m) = jm_get_default (p_notes p) token [] in (p\<lparr>p_notes := ns\<rparr>, jm_has m noteId))"

definition setupChannel :: "PoolSimulator \<Rightarrow> int \<Rightarrow> Channel \<Rightarrow> PoolSimulator" where
  "setupChannel p recipientAddress channel =
     (let c = new_Channel (publicKey channel) (key channel) [];
          p' = p\<lparr>p_channels := jm_set (p_channels p) recipientAddress c\<rparr>
      in if \<not> key_truthy (key channel) then p'
         else p'\<lparr>p_channels := jm_set (p_channels p') recipientAddress
                   (c\<lparr>tokens := foldl (\<lambda>m e. jm_set m (fst e) (snd e)) (tokens c) (tokens channel)\<rparr>)\<rparr>)"

definition setupNote :: "PoolSimulator \<Rightarrow> int \<Rightarrow> Note \<Rightarrow> PoolSimulator result" where
  "setupNote p token note = bindR (toBigInt (n_id note)) (\<lambda>nid.
     let (ns, m) = jm_get_default (p_notes p) token []
     in Inr (p\<lparr>p_notes := jm_set ns token (jm_set m nid note)\<rparr>))"

definition updateRegistry :: "PoolSimulator \<Rightarrow> PrivateRegistry \<Rightarrow> PrivateRegistry" where
  "updateRegistry p registry =
     registry\<lparr>
       reg_channels := foldl (\<lambda>m e. jm_set m (fst e) (snd e)) (reg_channels registry) (p_channels p),
       reg_notes := foldl (\<lambda>m e. jm_set m (fst e) (jm_values (snd e))) (reg_notes registry) (p_notes p)\<rparr>"

section \<open>Handlers\<close>

definition handleSetViewingKey :: "starknet_lib \<Rightarrow> PoolSimulator \<Rightarrow> SetViewingKeyInput \<Rightarrow> PoolSimulator result" where
  "handleSetViewingKey L p input =
     bindR (derivePublicKey L (BNBigint (userViewingKey p))) (\<lambda>pk.
     bindR (assertR (\<not> jm_has (p_channels p) (userAddress p)) (AssertionError ''Channel already exists'')) (\<lambda>_.
     Inr (p\<lparr>p_channels := jm_set (p_channels p) (userAddress p) (new_Channel (BNBigint pk) None [])\<rparr>)))"

definition handleOpenChannel :: "starknet_lib \<Rightarrow> PoolSimulator \<Rightarrow> OpenChannelInput \<Rightarrow> PoolSimulator result" where
  "handleOpenChannel L p input =
     bindR (of_option (AssertionError ''Channel not found for recipient'')
              (jm_get (p_channels p) (oci_recipient_addr input))) (\<lambda>existingChannel.
     bindR (toBigInt (publicKey existingChannel)) (\<lambda>pk.
     let channelKey = compute_channel_key L (userAddress p) (userViewingKey p) (oci_recipient_addr input) pk
     in Inr (p\<lparr>p_channels := jm_set (p_channels p) (oci_recipient_addr input)
                              (existingChannel\<lparr>key := Some channelKey\<rparr>),
              nextChannelIndex := nextChannelIndex p + 1\<rparr>)))"

definition handleOpenSubchannel :: "PoolSimulator \<Rightarrow> OpenSubchannelInput \<Rightarrow> PoolSimulator result" where
  "handleOpenSubchannel p input =
     bindR (of_option (TypeError ''channel'') (jm_get (p_channels p) (osi_recipient_addr input))) (\<lambda>channel.
     Inr (p\<lparr>p_channels := jm_set (p_channels p) (osi_recipient_addr input)
              (channel\<lparr>tokens := jm_set (tokens channel) (osi_token input)
                  \<lparr>tokenIndex = osi_index input, noteNonce = 0\<rparr>\<rparr>)\<rparr>))"

definition handleUseNote :: "starknet_lib \<Rightarrow> PoolSimulator \<Rightarrow> UseNoteInput \<Rightarrow> PoolSimulator result" where
  "handleUseNote L p input =
     (let (ns, tokenNotes) = jm_get_default (p_notes p) (uni_token input) [];
          noteId = compute_note_id L (uni_channel_key input) (uni_token input) (int (uni_index input))
      in Inr (p\<lparr>p_notes := jm_set ns (uni_token input) (jm_delete tokenNotes noteId)\<rparr>))"

definition bumpNonce :: "PoolSimulator \<Rightarrow> int \<Rightarrow> int \<Rightarrow> PoolSimulator result" where
  "bumpNonce p recipient token =
     bindR (of_option (TypeError ''senderChannel'') (jm_get (p_channels p) recipient)) (\<lambda>senderChannel.
     Inr (p\<lparr>p_channels := jm_set (p_channels p) recipient (fst (incrementNoteNonce senderChannel token))\<rparr>))"

definition handleCreateEncNote :: "starknet_lib \<Rightarrow> PoolSimulator \<Rightarrow> CreateEncNoteInput \<Rightarrow> PoolSimulator result" where
  "handleCreateEncNote L p input =
     bindR (bumpNonce p (cei_recipient_addr input) (cei_token input)) (\<lambda>p'.
     if cei_recipient_addr input = userAddress p' \<and> userViewingKey p' \<noteq> 0 then
       bindR (toBigInt (cei_recipient_public_key input)) (\<lambda>rpk.
       let channelKey = compute_channel_key L (userAddress p') (userViewingKey p') (cei_recipient_addr input) rpk;
           noteId = compute_note_id L channelKey (cei_token input) (int (cei_index input));
           (ns, m) = jm_get_default (p_notes p') (cei_token input) [];
           note = \<lparr>n_id = BNBigint noteId, n_amount = cei_amount input, n_created = None,
                   n_witness = \<lparr>w_channelKey = channelKey, w_nonce = cei_index input, w_r = cei_salt input\<rparr>,
                   n_viewingKey = None, n_sender = BNBigint (userAddress p'), n_open = None\<rparr>
       in Inr (p'\<lparr>p_notes := jm_set ns (cei_token input) (jm_set m noteId note)\<rparr>))
     else Inr p')"

definition handleCreateOpenNote :: "PoolSimulator \<Rightarrow> CreateOpenNoteInput \<Rightarrow> PoolSimulator result" where
  "handleCreateOpenNote p input = bumpNonce p (coi_recipient_addr input) (coi_token input)"

fun pool_execute :: "starknet_lib \<Rightarrow> PoolSimulator \<Rightarrow> ClientAction \<Rightarrow> PoolSimulator result" where
  "pool_execute L p (SetViewingKey i) = handleSetViewingKey L p i"
| "pool_execute L p (OpenChannel i) = handleOpenChannel L p i"
| "pool_execute L p (OpenSubchannel i) = handleOpenSubchannel p i"
| "pool_execute L p (Deposit i) = Inr p"
| "pool_execute L p (UseNote i) = handleUseNote L p i"
| "pool_execute L p (CreateEncNote i) = handleCreateEncNote L p i"
| "pool_execute L p (CreateOpenNote i) = handleCreateOpenNote p i"
| "pool_execute L p (Withdraw i) = Inr p"
| "pool_execute L p (InvokeExternal i) = Inr p"
| "pool_execute L p (ComputeAndInvoke i) = Inr p"

lemmas handler_defs = handleSetViewingKey_def handleOpenChannel_def handleOpenSubchannel_def
  handleUseNote_def handleCreateEncNote_def handleCreateOpenNote_def bumpNonce_def

section \<open>Well-formed pools\<close>

definition notes_wf :: "(int, Note) jsmap \<Rightarrow> bool" where
  "notes_wf m = (jm_wf m \<and> list_all (\<lambda>(nid, n). toBigInt (n_id n) = Inr nid) m)"

definition channels_wf :: "(int, Channel) jsmap \<Rightarrow> bool" where
  "channels_wf m = (jm_wf m \<and> list_all (\<lambda>(_, c). channel_wf c) m)"

definition note_maps_wf :: "(int, (int, Note) jsmap) jsmap \<Rightarrow> bool" where
  "note_maps_wf ms = (jm_wf ms \<and> list_all (\<lambda>(_, m). notes_wf m) ms)"

definition pool_wf :: "PoolSimulator \<Rightarrow> bool" where
  "pool_wf p = (channels_wf (p_channels p) \<and> note_maps_wf (p_notes p))"

lemma list_all_jm_set: "list_all P m \<Longrightarrow> P (k, v) \<Longrightarrow> list_all P (jm_set m k v)"
  using jm_set_entries [of m k v] by (auto simp: list_all_iff)

lemma list_all_jm_delete: "list_all P m \<Longrightarrow> list_all P (jm_delete m k)"
  by (auto simp: list_all_iff jm_delete_def)

lemma list_all_jm_get: "list_all P m \<Longrightarrow> jm_get m k = Some v \<Longrightarrow> P (k, v)"
  by (auto simp: list_all_iff dest: jm_get_mem)

lemma notes_wf_Nil [simp]: "notes_wf []"
  by (simp add: notes_wf_def)

lemma notes_wf_set: "notes_wf m \<Longrightarrow> toBigInt (n_id n) = Inr nid \<Longrightarrow> notes_wf (jm_set m nid n)"
  by (auto simp: notes_wf_def intro: list_all_jm_set)

lemma notes_wf_delete: "notes_wf m \<Longrightarrow> notes_wf (jm_delete m k)"
  by (auto simp: notes_wf_def intro: list_all_jm_delete)

lemma channels_wf_set: "channels_wf m \<Longrightarrow> channel_wf c \<Longrightarrow> channels_wf (jm_set m a c)"
  by (auto simp: channels_wf_def intro: list_all_jm_set)

lemma channels_wf_get: "channels_wf m \<Longrightarrow> jm_get m a = Some c \<Longrightarrow> channel_wf c"
  by (auto simp: channels_wf_def dest: list_all_jm_get)

lemma note_maps_wf_set: "note_maps_wf ms \<Longrightarrow> notes_wf m \<Longrightarrow> note_maps_wf (jm_set ms t m)"
  by (auto simp: note_maps_wf_def intro: list_all_jm_set)

lemma note_maps_wf_get_default:
  "note_maps_wf ms \<Longrightarrow> jm_get_default ms t [] = (ns, m) \<Longrightarrow> note_maps_wf ns \<and> notes_wf m"
  by (auto simp: jm_get_default_def note_maps_wf_def split: option.splits
      intro: list_all_jm_set dest: list_all_jm_get)

lemma pool_wf_new [simp]: "pool_wf (new_PoolSimulator a k n)"
  by (simp add: pool_wf_def new_PoolSimulator_def channels_wf_def note_maps_wf_def)

lemma hasNote_wf: "pool_wf p \<Longrightarrow> pool_wf (fst (hasNote p t nid))"
  by (auto simp: hasNote_def pool_wf_def split: prod.split dest: note_maps_wf_get_default)

lemma setupNote_wf: "pool_wf p \<Longrightarrow> setupNote p t n = Inr p' \<Longrightarrow> pool_wf p'"
  by (cases "jm_get_default (p_notes p) t []")
    (auto simp: setupNote_def bindR_eq_Inr pool_wf_def
      intro!: note_maps_wf_set notes_wf_set dest: note_maps_wf_get_default)

lemma setupChannel_wf: "pool_wf p \<Longrightarrow> pool_wf (setupChannel p a c)"
  by (auto simp: setupChannel_def Let_def pool_wf_def channel_wf_def
      intro!: channels_wf_set foldl_jm_set_wf)
    (simp_all add: new_Channel_def)

lemma bumpNonce_wf: "pool_wf p \<Longrightarrow> bumpNonce p r t = Inr p' \<Longrightarrow> pool_wf p'"
  by (auto simp: bumpNonce_def bindR_eq_Inr of_option_eq_Inr pool_wf_def
      intro!: channels_wf_set incrementNoteNonce_wf intro: channels_wf_get)

lemma handleSetViewingKey_wf: "pool_wf p \<Longrightarrow> handleSetViewingKey L p i = Inr p' \<Longrightarrow> pool_wf p'"
  by (auto simp: handleSetViewingKey_def bindR_eq_Inr assertR_eq_Inr pool_wf_def intro!: channels_wf_set)

lemma handleOpenChannel_wf: "pool_wf p \<Longrightarrow> handleOpenChannel L p i = Inr p' \<Longrightarrow> pool_wf p'"
  using channels_wf_get [of "p_channels p"]
  by (auto simp: handleOpenChannel_def bindR_eq_Inr of_option_eq_Inr Let_def pool_wf_def channel_wf_def
      intro!: channels_wf_set)

lemma handleOpenSubchannel_wf: "pool_wf p \<Longrightarrow> handleOpenSubchannel p i = Inr p' \<Longrightarrow> pool_wf p'"
  using channels_wf_get [of "p_channels p"]
  by (auto simp: handleOpenSubchannel_def bindR_eq_Inr of_option_eq_Inr pool_wf_def channel_wf_def
      intro!: channels_wf_set)

lemma handleUseNote_wf: "pool_wf p \<Longrightarrow> handleUseNote L p i = Inr p' \<Longrightarrow> pool_wf p'"
  by (auto simp: handleUseNote_def Let_def pool_wf_def split: prod.split_asm
      intro!: note_maps_wf_set notes_wf_delete dest: note_maps_wf_get_default)

lemma handleCreateEncNote_wf:
  assumes "pool_wf p" "handleCreateEncNote L p i = Inr p'"
  shows "pool_wf p'"
proof -
  from assms(2) obtain q where b: "bumpNonce p (cei_recipient_addr i) (cei_token i) = Inr q"
    by (auto simp: handleCreateEncNote_def bindR_eq_Inr)
  have q: "pool_wf q" using assms(1) b by (rule bumpNonce_wf)
  obtain ns m where d: "jm_get_default (p_notes q) (cei_token i) [] = (ns, m)" by fastforce
  with assms(2) b q show ?thesis
    by (auto simp: handleCreateEncNote_def bindR_eq_Inr Let_def pool_wf_def
        split: if_splits intro!: note_maps_wf_set notes_wf_set dest: note_maps_wf_get_default)
qed

lemmas handlers_wf = handleSetViewingKey_wf handleOpenChannel_wf handleOpenSubchannel_wf
  handleUseNote_wf handleCreateEncNote_wf

lemma execute_wf: "pool_wf p \<Longrightarrow> pool_execute L p a = Inr p' \<Longrightarrow> pool_wf p'"
  by (cases a) (auto simp: handleCreateOpenNote_def intro: handlers_wf bumpNonce_wf)

interpretation pool_run: fold_invariant "pool_execute L" pool_wf for L
  by unfold_locales (rule execute_wf)

end
