(* ===== verification/Compiler.thy ===== *)
theory Compiler
  imports Pool_Simulator
begin

text \<open>
  \<open>sdk/src/internal/compiler.ts\<close>: the action compiler. Its parts, in the order of the file:
  \<open>compile\<close> with its single retry after a reorg, \<open>compileOnce\<close>, \<open>checkWarnings\<close>, \<open>getRecipientsNeeded\<close>,
  \<open>createPool\<close>, the nine phases of \<open>transformToClientActions\<close>, \<open>invokeBuilderArgs\<close>,
  \<open>resolveRecipientChannels\<close>, \<open>resolveNotes\<close> and \<open>cloneRegistry\<close>.

  The compiler mutates the caller's \<open>actions\<close> and registry. Both are passed and returned: on an error
  too for the actions, because \<open>compile\<close> retries with the object the first attempt has changed.
  Random draws come from a supply indexed by a counter. The discovery provider and the supply are
  indexed by the attempt, since a second attempt meets a later state of the chain.
  \<open>Promise.all\<close> starts both resolutions; the model takes the schedule in which \<open>resolveNotes\<close> settles
  first, the only possible one when no note discovery is requested, since it then never suspends.
\<close>

section \<open>State\<close>

record rng =
  generateRandom :: "nat \<Rightarrow> int"
  genRandom120 :: "nat \<Rightarrow> int"

record CompilerCfg =
  cfg_userAddress :: int
  cfg_userViewingKey :: bignum
  cfg_poolAddress :: int

record ClientActions =
  ca_setViewingKey :: "ClientAction option"
  ca_openChannels :: "ClientAction list"
  ca_openTokenChannels :: "ClientAction list"
  ca_deposits :: "ClientAction list"
  ca_useNotes :: "ClientAction list"
  ca_createNotes :: "ClientAction list"
  ca_withdraws :: "ClientAction list"
  ca_invoke :: "ClientAction option"
  ca_computeAndInvoke :: "ClientAction option"

definition no_client_actions :: ClientActions where
  "no_client_actions = \<lparr>ca_setViewingKey = None, ca_openChannels = [], ca_openTokenChannels = [],
     ca_deposits = [], ca_useNotes = [], ca_createNotes = [], ca_withdraws = [], ca_invoke = None,
     ca_computeAndInvoke = None\<rparr>"

text \<open>\<open>Object.values(clientActions).filter(defined).flat()\<close>\<close>

definition flatten :: "ClientActions \<Rightarrow> ClientAction list" where
  "flatten ca = concat [opt_list (ca_setViewingKey ca), ca_openChannels ca, ca_openTokenChannels ca,
     ca_deposits ca, ca_useNotes ca, ca_createNotes ca, ca_withdraws ca,
     opt_list (ca_invoke ca), opt_list (ca_computeAndInvoke ca)]"

record CompileResult =
  clientActions :: "ClientAction list"
  res_registry :: PrivateRegistry
  res_warnings :: "Warning list"

record tstate =
  t_pool :: PoolSimulator
  t_out :: ClientActions
  t_ctr :: nat

section \<open>Queueing channels\<close>

definition addOpenChannel :: "Actions \<Rightarrow> int \<Rightarrow> Actions" where
  "addOpenChannel actions recipient =
     (let ocs = optl (a_openChannels actions)
      in actions\<lparr>a_openChannels :=
           Some (if list_ex (\<lambda>a. oc_recipient a = recipient) ocs then ocs
                 else ocs @ [\<lparr>oc_recipient = recipient\<rparr>])\<rparr>)"

definition checkWarnings :: "ClientAction list \<Rightarrow> Warning list" where
  "checkWarnings cas =
     (if length (filter (\<lambda>a. case a of OpenChannel _ \<Rightarrow> True | _ \<Rightarrow> False) cas) > 1
      then [\<lparr>w_code = USER_LINKAGE, w_message = ''Multiple open channel actions found''\<rparr>] else [])"

definition getRecipientsNeeded :: "CompilerCfg \<Rightarrow> Actions \<Rightarrow> (int, bool) jsmap" where
  "getRecipientsNeeded cfg actions =
     foldl (\<lambda>m r. jm_set m r True) (jm_of_entries [(cfg_userAddress cfg, True)])
       (map oc_recipient (optl (a_openChannels actions)) @
        map ot_recipient (optl (a_openTokenChannels actions)) @
        map c_recipient (optl (a_createNotes actions)) @
        map s_recipient (optl (a_surpluses actions)))"

definition createPool ::
  "CompilerCfg \<Rightarrow> int \<Rightarrow> PrivateRegistry \<Rightarrow> (int, Channel) jsmap option \<Rightarrow> nat option \<Rightarrow> PoolSimulator result"
where
  "createPool cfg privateKey registry chs totalChannels =
     (let p0 = new_PoolSimulator (cfg_userAddress cfg) privateKey (case totalChannels of None \<Rightarrow> 0 | Some n \<Rightarrow> n);
          discovered = (case chs of None \<Rightarrow> [] | Some m \<Rightarrow> m);
          p1 = foldl (\<lambda>p e. setupChannel p (fst e) (snd e)) p0 discovered;
          p2 = foldl (\<lambda>p e. if jm_has discovered (fst e) then p else setupChannel p (fst e) (snd e)) p1
                 (reg_channels registry)
      in foldR (\<lambda>p e. foldR (\<lambda>p n. setupNote p (fst e) n) p (snd e)) p2 (reg_notes registry))"

section \<open>Phases of the transformation\<close>

text \<open>\<open>execute(input, arr)\<close>: run the action on the pool, then record it.\<close>

definition execute ::
  "starknet_lib \<Rightarrow> ClientAction \<Rightarrow> (ClientActions \<Rightarrow> ClientActions) \<Rightarrow> tstate \<Rightarrow> tstate result"
where
  "execute L input push st =
     bindR (pool_execute L (t_pool st) input) (\<lambda>p. Inr (st\<lparr>t_pool := p, t_out := push (t_out st)\<rparr>))"

definition draw :: "nat \<Rightarrow> tstate \<Rightarrow> tstate" where
  "draw n st = st\<lparr>t_ctr := t_ctr st + n\<rparr>"

definition stepSetViewingKey :: "starknet_lib \<Rightarrow> rng \<Rightarrow> tstate \<Rightarrow> tstate result" where
  "stepSetViewingKey L R st =
     (let input = SetViewingKey \<lparr>svk_random = generateRandom R (t_ctr st)\<rparr>
      in execute L input (\<lambda>o'. o'\<lparr>ca_setViewingKey := Some input\<rparr>) (draw 1 st))"

definition stepOpenChannel ::
  "starknet_lib \<Rightarrow> rng \<Rightarrow> int list \<times> tstate \<Rightarrow> OpenChannelAction \<Rightarrow> (int list \<times> tstate) result"
where
  "stepOpenChannel L R seen_st action =
     (let (seenRecipients, st) = seen_st; r = oc_recipient action in
      if r \<in> set seenRecipients then Inr (seenRecipients, st)
      else bindR (assertR (getChannel (t_pool st) r \<noteq> None) (AssertionError ''Missing channel context'')) (\<lambda>_.
           let input = OpenChannel \<lparr>oci_recipient_addr = r, oci_index = nextChannelIndex (t_pool st),
                 oci_random = generateRandom R (t_ctr st), oci_salt = generateRandom R (t_ctr st + 1)\<rparr>
           in bindR (execute L input (\<lambda>o'. o'\<lparr>ca_openChannels := ca_openChannels o' @ [input]\<rparr>) (draw 2 st))
                (\<lambda>st'. Inr (r # seenRecipients, st'))))"

definition transformOpenSubchannel ::
  "starknet_lib \<Rightarrow> rng \<Rightarrow> ExecuteOptions \<Rightarrow> int \<Rightarrow> int \<Rightarrow> bool \<Rightarrow> tstate \<Rightarrow> tstate result"
where
  "transformOpenSubchannel L R opts recipient token force st =
     bindR (of_option (AssertionError ''Channel not found for recipient'') (getChannel (t_pool st) recipient)) (\<lambda>channel.
     if jm_has (tokens channel) token then Inr st
     else if \<not> force \<and> \<not> autoSetup opts then Inr st
     else
       let input = OpenSubchannel \<lparr>osi_recipient_addr = recipient, osi_recipient_public_key = publicKey channel,
             osi_channel_key = key channel, osi_index = length (tokens channel), osi_token = token,
             osi_salt = generateRandom R (t_ctr st)\<rparr>
       in execute L input (\<lambda>o'. o'\<lparr>ca_openTokenChannels := ca_openTokenChannels o' @ [input]\<rparr>) (draw 1 st))"

definition depositInput :: "DepositAction \<Rightarrow> ClientAction" where
  "depositInput action = Deposit \<lparr>di_token = d_token action, di_amount = d_amount action\<rparr>"

definition stepDeposit :: "starknet_lib \<Rightarrow> tstate \<Rightarrow> DepositAction \<Rightarrow> tstate result" where
  "stepDeposit L st action =
     (let input = depositInput action
      in execute L input (\<lambda>o'. o'\<lparr>ca_deposits := ca_deposits o' @ [input]\<rparr>) st)"

definition useNoteInput :: "UseNoteAction \<Rightarrow> UseNoteInput" where
  "useNoteInput action = \<lparr>uni_channel_key = w_channelKey (n_witness (u_note action)), uni_token = u_token action,
     uni_index = w_nonce (n_witness (u_note action))\<rparr>"

definition stepUseNote :: "starknet_lib \<Rightarrow> tstate \<Rightarrow> UseNoteAction \<Rightarrow> tstate result" where
  "stepUseNote L st action =
     (let note = u_note action; input = UseNote (useNoteInput action)
      in bindR (toBigInt (n_id note)) (\<lambda>nid.
         let (p, has) = hasNote (t_pool st) (u_token action) nid
         in bindR (if has then Inr p else setupNote p (u_token action) note) (\<lambda>p'.
            execute L input (\<lambda>o'. o'\<lparr>ca_useNotes := ca_useNotes o' @ [input]\<rparr>) (st\<lparr>t_pool := p'\<rparr>))))"

text \<open>
  \<open>channel.tokens.get(token)!.noteNonce\<close>: the token map of a pool channel creates the entry it misses.
\<close>

definition readNonce :: "tstate \<Rightarrow> int \<Rightarrow> int \<Rightarrow> (nat \<times> bignum \<times> tstate) result" where
  "readNonce st recipient token =
     bindR (of_option (TypeError ''channel'') (getChannel (t_pool st) recipient)) (\<lambda>channel.
     let (toks, tc) = jm_get_default (tokens channel) token fresh_token
     in Inr (noteNonce tc, publicKey channel,
          st\<lparr>t_pool := (t_pool st)\<lparr>p_channels :=
               jm_set (p_channels (t_pool st)) recipient (channel\<lparr>tokens := toks\<rparr>)\<rparr>\<rparr>))"

definition createNoteInput :: "rng \<Rightarrow> CreateNoteAction \<Rightarrow> nat \<Rightarrow> bignum \<Rightarrow> nat \<Rightarrow> ClientAction" where
  "createNoteInput R action index pk ctr = (case c_amount action of
      Open \<Rightarrow> CreateOpenNote \<lparr>coi_recipient_addr = c_recipient action, coi_recipient_public_key = pk,
                coi_token = c_token action, coi_index = index, coi_random = generateRandom R ctr\<rparr>
    | Amt a \<Rightarrow> CreateEncNote \<lparr>cei_recipient_addr = c_recipient action, cei_recipient_public_key = pk,
                cei_token = c_token action, cei_amount = a, cei_index = index,
                cei_salt = genRandom120 R ctr\<rparr>)"

definition stepCreateNote ::
  "starknet_lib \<Rightarrow> rng \<Rightarrow> ExecuteOptions \<Rightarrow> tstate \<Rightarrow> CreateNoteAction \<Rightarrow> tstate result"
where
  "stepCreateNote L R opts st action =
     bindR (transformOpenSubchannel L R opts (c_recipient action) (c_token action) False st) (\<lambda>st1.
     bindR (readNonce st1 (c_recipient action) (c_token action)) (\<lambda>(index, pk, st2).
       let input = createNoteInput R action index pk (t_ctr st2)
       in execute L input (\<lambda>o'. o'\<lparr>ca_createNotes := ca_createNotes o' @ [input]\<rparr>) (draw 1 st2)))"

definition stepWithdraw :: "starknet_lib \<Rightarrow> rng \<Rightarrow> tstate \<Rightarrow> WithdrawAction \<Rightarrow> tstate result" where
  "stepWithdraw L R st action =
     (let input = Withdraw \<lparr>wi_to_addr = wd_recipient action, wi_token = wd_token action,
                    wi_amount = wd_amount action, wi_random = generateRandom R (t_ctr st)\<rparr>
      in execute L input (\<lambda>o'. o'\<lparr>ca_withdraws := ca_withdraws o' @ [input]\<rparr>) (draw 1 st))"

section \<open>Invocation\<close>

definition openNotesOf :: "starknet_lib \<Rightarrow> PoolSimulator \<Rightarrow> ClientAction \<Rightarrow> InvokeOpenNote list result" where
  "openNotesOf L pool note = (case note of
      CreateOpenNote i \<Rightarrow>
        (case Option.bind (getChannel pool (coi_recipient_addr i)) key of
           None \<Rightarrow> Inl (MissingChannelKey ''open note recipient'')
         | Some channelKey \<Rightarrow>
             if channelKey = 0 then Inl (MissingChannelKey ''open note recipient'')
             else Inr [\<lparr>io_noteId = compute_note_id L channelKey (coi_token i) (int (coi_index i)),
                        io_token = coi_token i\<rparr>])
    | _ \<Rightarrow> Inr [])"

definition withdrawalsOf :: "ClientAction \<Rightarrow> WithdrawAction list" where
  "withdrawalsOf a = (case a of
      Withdraw i \<Rightarrow> [\<lparr>wd_recipient = wi_to_addr i, wd_token = wi_token i, wd_amount = wi_amount i\<rparr>]
    | _ \<Rightarrow> [])"

definition invokeBuilderArgs ::
  "starknet_lib \<Rightarrow> CompilerCfg \<Rightarrow> ClientActions \<Rightarrow> PoolSimulator \<Rightarrow> InvokeCalldataBuilderArgs result"
where
  "invokeBuilderArgs L cfg ca pool =
     bindR (mapR (openNotesOf L pool) (ca_createNotes ca)) (\<lambda>ons.
     Inr \<lparr>openNotes = concat ons, withdrawals = concat (map withdrawalsOf (ca_withdraws ca)),
          poolAddress = cfg_poolAddress cfg\<rparr>)"

definition compiledCalldata :: "starknet_lib \<Rightarrow> raw_arg list option \<Rightarrow> int list result" where
  "compiledCalldata L args = mapR (\<lambda>s. toBigInt (BNString s)) (callDataCompile L (optl args))"

definition stepInvoke :: "starknet_lib \<Rightarrow> CompilerCfg \<Rightarrow> InvokeAction \<Rightarrow> tstate \<Rightarrow> tstate result" where
  "stepInvoke L cfg callBuilder st =
     bindR (invokeBuilderArgs L cfg (t_out st) (t_pool st)) (\<lambda>args.
     bindR (callBuilder args) (\<lambda>call.
     bindR (compiledCalldata L (cd_calldata call)) (\<lambda>calldata.
     bindR (toBigInt (cd_contractAddress call)) (\<lambda>addr.
     let input = InvokeExternal \<lparr>iei_contract_address = addr, iei_calldata = calldata\<rparr>
     in execute L input (\<lambda>o'. o'\<lparr>ca_invoke := Some input\<rparr>) st))))"

definition stepComputeAndInvoke ::
  "starknet_lib \<Rightarrow> CompilerCfg \<Rightarrow> ComputeAndInvokeAction \<Rightarrow> tstate \<Rightarrow> tstate result"
where
  "stepComputeAndInvoke L cfg callBuilder st =
     bindR (invokeBuilderArgs L cfg (t_out st) (t_pool st)) (\<lambda>args.
     bindR (callBuilder args) (\<lambda>details.
     bindR (compiledCalldata L (computeAdditionalData details)) (\<lambda>cdata.
     bindR (compiledCalldata L (invokeAdditionalData details)) (\<lambda>idata.
     bindR (toBigInt (ci_contractAddress details)) (\<lambda>addr.
     let input = ComputeAndInvoke \<lparr>cai_contract_address = addr, cai_compute_additional_data = cdata,
                   cai_invoke_additional_data = idata\<rparr>
     in execute L input (\<lambda>o'. o'\<lparr>ca_computeAndInvoke := Some input\<rparr>) st)))))"

section \<open>transformToClientActions\<close>

definition prepareActions ::
  "CompilerCfg \<Rightarrow> ExecuteOptions \<Rightarrow> PoolSimulator \<Rightarrow> (int, bool) jsmap \<Rightarrow> Actions \<Rightarrow> Actions \<times> nat"
where
  "prepareActions cfg opts pool recipientsNeeded actions =
     (let registered = (case getChannel pool (cfg_userAddress cfg) of
              None \<Rightarrow> False | Some c \<Rightarrow> truthy (publicKey c));
          (a1, n) = (if autoRegister opts \<and> \<not> registered
                     then (actions\<lparr>a_setViewingKey := True\<rparr>, 1) else (actions, 0));
          a2 = (if a_setViewingKey a1 \<and> autoSetup opts then addOpenChannel a1 (cfg_userAddress cfg) else a1);
          a3 = foldl (\<lambda>a r.
                 if \<not> key_truthy (Option.bind (getChannel pool r) key) \<and> autoSetup opts
                 then addOpenChannel a r else a) a2 (jm_keys recipientsNeeded)
      in (a3, n))"

definition runPhases ::
  "starknet_lib \<Rightarrow> rng \<Rightarrow> CompilerCfg \<Rightarrow> ExecuteOptions \<Rightarrow> Actions \<Rightarrow> tstate \<Rightarrow> tstate result"
where
  "runPhases L R cfg opts actions st0 =
     bindR (if a_setViewingKey actions then stepSetViewingKey L R st0 else Inr st0) (\<lambda>st1.
     bindR (foldR (stepOpenChannel L R) ([], st1) (optl (a_openChannels actions))) (\<lambda>(_, st2).
     bindR (foldR (\<lambda>st a. transformOpenSubchannel L R opts (ot_recipient a) (ot_token a) True st) st2
              (optl (a_openTokenChannels actions))) (\<lambda>st3.
     bindR (foldR (stepDeposit L) st3 (optl (a_deposits actions))) (\<lambda>st4.
     bindR (foldR (stepUseNote L) st4 (optl (a_useNotes actions))) (\<lambda>st5.
     bindR (foldR (stepCreateNote L R opts) st5 (optl (a_createNotes actions))) (\<lambda>st6.
     bindR (foldR (stepWithdraw L R) st6 (optl (a_withdraws actions))) (\<lambda>st7.
     bindR (assertR (Option.is_none (a_invoke actions) \<or> Option.is_none (a_computeAndInvoke actions)) InvokePhaseTaken) (\<lambda>_.
     bindR (case a_invoke actions of None \<Rightarrow> Inr st7 | Some b \<Rightarrow> stepInvoke L cfg b st7) (\<lambda>st8.
     case a_computeAndInvoke actions of None \<Rightarrow> Inr st8 | Some b \<Rightarrow> stepComputeAndInvoke L cfg b st8)))))))))"

definition transformToClientActions ::
  "starknet_lib \<Rightarrow> rng \<Rightarrow> CompilerCfg \<Rightarrow> ExecuteOptions \<Rightarrow> Actions \<Rightarrow> PoolSimulator \<Rightarrow> (int, bool) jsmap
     \<Rightarrow> Actions \<times> (ClientAction list \<times> PoolSimulator) result"
where
  "transformToClientActions L R cfg opts actions pool recipientsNeeded =
     (let (actions', n) = prepareActions cfg opts pool recipientsNeeded actions
      in (actions',
          bindR (runPhases L R cfg opts actions' \<lparr>t_pool = pool, t_out = no_client_actions, t_ctr = n\<rparr>)
            (\<lambda>st. Inr (flatten (t_out st), t_pool st))))"

section \<open>Channel resolution\<close>

definition allOpen :: "(int, Channel) jsmap option \<Rightarrow> int list \<Rightarrow> bool" where
  "allOpen chs recipients =
     list_all (\<lambda>r. Option.bind (Option.bind chs (\<lambda>m. jm_get m r)) key \<noteq> None) recipients"

definition resolveRecipientChannels ::
  "CompilerCfg \<Rightarrow> DiscoveryProvider \<Rightarrow> Actions \<Rightarrow> ExecuteOptions \<Rightarrow> PrivateRegistry \<Rightarrow> (int, bool) jsmap
     \<Rightarrow> ((int, Channel) jsmap option \<times> nat option) result"
where
  "resolveRecipientChannels cfg D actions opts registry recipientsNeeded =
     (let hasOpenChannels = (optl (a_openChannels actions) \<noteq> []);
          recipientsToDiscover = (if autoDiscover_channels opts = Some Refresh then jm_keys recipientsNeeded
            else filter (\<lambda>r. \<not> jm_has (reg_channels registry) r) (jm_keys recipientsNeeded));
          params = \<lparr>cp_cursor = None, cp_blockIdentifier = provingBlockId opts\<rparr>
      in if autoDiscover_channels opts = None \<and> \<not> hasOpenChannels \<and> \<not> autoSetup opts then Inr (None, None)
         else if recipientsToDiscover = [] then Inr (None, None)
         else bindR (discoverChannels D (cfg_userAddress cfg) (cfg_userViewingKey cfg)
                       (Recipients recipientsToDiscover) params) (\<lambda>r.
           if allOpen (cr_channels r) recipientsToDiscover then Inr (cr_channels r, None)
           else (case cr_total r of
               Some n \<Rightarrow> Inr (cr_channels r, Some n)
             | None \<Rightarrow> bindR (discoverChannels D (cfg_userAddress cfg) (cfg_userViewingKey cfg) TotalOnly params)
                         (\<lambda>r2. Inr (cr_channels r, cr_total r2)))))"

section \<open>Note resolution\<close>

type_synonym balances = "(int, int) jsmap"
type_synonym used_ids = "(string, bool) jsmap"

definition bal_update :: "balances \<Rightarrow> int \<Rightarrow> int \<Rightarrow> balances" where
  "bal_update balances token amount =
     (let (m, current) = jm_get_default balances token 0 in jm_set m token (current + amount))"

definition balDeposit :: "balances \<Rightarrow> DepositAction \<Rightarrow> balances result" where
  "balDeposit b d =
     bindR (assertR (d_amount d > 0) (AssertionError ''Deposit amount must be positive'')) (\<lambda>_.
     Inr (if d_noteId d = None then bal_update b (d_token d) (d_amount d) else b))"

definition balUseNote :: "balances \<times> used_ids \<Rightarrow> UseNoteAction \<Rightarrow> (balances \<times> used_ids) result" where
  "balUseNote bu u = (case bu of (b, used) \<Rightarrow>
     bindR (assertR (n_amount (u_note u) > 0) (AssertionError ''Note: amount must be positive'')) (\<lambda>_.
     Inr (bal_update b (u_token u) (n_amount (u_note u)), jm_set used (String_of (n_id (u_note u))) True)))"

definition balWithdraw :: "balances \<Rightarrow> WithdrawAction \<Rightarrow> balances result" where
  "balWithdraw b w =
     bindR (assertR (wd_amount w > 0) (AssertionError ''Withdraw amount must be positive'')) (\<lambda>_.
     Inr (bal_update b (wd_token w) (- wd_amount w)))"

definition balCreateNote :: "balances \<Rightarrow> CreateNoteAction \<Rightarrow> balances result" where
  "balCreateNote b c = (case c_amount c of
      Open \<Rightarrow> Inr b
    | Amt a \<Rightarrow> bindR (assertR (a > 0) (AssertionError ''Created note amount must be positive'')) (\<lambda>_.
        Inr (bal_update b (c_token c) (- a))))"

definition initialBalances :: "Actions \<Rightarrow> (balances \<times> used_ids) result" where
  "initialBalances actions =
     bindR (foldR balDeposit [] (optl (a_deposits actions))) (\<lambda>b1.
     bindR (foldR balUseNote (b1, []) (optl (a_useNotes actions))) (\<lambda>(b2, used).
     bindR (foldR balWithdraw b2 (optl (a_withdraws actions))) (\<lambda>b3.
     bindR (foldR balCreateNote b3 (optl (a_createNotes actions))) (\<lambda>b4.
     Inr (b4, used)))))"

definition tokensToDiscover ::
  "ExecuteOptions \<Rightarrow> DiscoveryLevel \<Rightarrow> Actions \<Rightarrow> PrivateRegistry \<Rightarrow> balances \<Rightarrow> int list option"
where
  "tokensToDiscover opts level actions registry balances =
     (if level = AllNotes then None
      else Some (map fst (filter (\<lambda>(token, balance).
        let hasDeficit = balance < 0;
            isSweeping = (autoSelectNotes opts = Some SelectAll \<and>
              list_ex (\<lambda>s. s_token s = token) (optl (a_surpluses actions)))
        in (hasDeficit \<or> isSweeping) \<and> (level = Refresh \<or> \<not> jm_has (reg_notes registry) token)) balances)))"

definition discoverIntoRegistry ::
  "CompilerCfg \<Rightarrow> DiscoveryProvider \<Rightarrow> ExecuteOptions \<Rightarrow> Actions \<Rightarrow> PrivateRegistry \<Rightarrow> balances
     \<Rightarrow> PrivateRegistry result"
where
  "discoverIntoRegistry cfg D opts actions registry balances = (case autoDiscover_notes opts of
      None \<Rightarrow> Inr registry
    | Some level \<Rightarrow>
        (let toks = tokensToDiscover opts level actions registry balances
         in if toks = Some [] then Inr registry
            else bindR (discoverNotes D (cfg_userAddress cfg) (cfg_userViewingKey cfg)
                   \<lparr>np_cursor = reg_cursor registry, np_tokens = toks, np_blockIdentifier = provingBlockId opts\<rparr>) (\<lambda>r.
                 Inr (registry\<lparr>
                   reg_notes := foldl (\<lambda>m e. jm_set m (fst e) (snd e)) (reg_notes registry) (nr_notes r),
                   reg_cursor := Some (nr_cursor r)\<rparr>))))"

text \<open>\<open>registry.notes.get(token) ?? []\<close>\<close>

definition regNotesGet :: "PrivateRegistry \<Rightarrow> int \<Rightarrow> PrivateRegistry \<times> Note list" where
  "regNotesGet registry token = (case jm_get (reg_notes registry) token of
      Some ns \<Rightarrow> (registry, ns)
    | None \<Rightarrow> (if reg_notes_factory registry
               then registry\<lparr>reg_notes := jm_set (reg_notes registry) token []\<rparr> else registry, []))"

fun selectNotes ::
  "bool \<Rightarrow> used_ids \<Rightarrow> int \<Rightarrow> Note list \<Rightarrow> UseNoteAction list \<Rightarrow> int \<Rightarrow> UseNoteAction list \<times> int"
where
  "selectNotes selAll used token [] acc balance = (acc, balance)"
| "selectNotes selAll used token (note # ns) acc balance =
     (if jm_has used (String_of (n_id note)) then selectNotes selAll used token ns acc balance
      else let acc' = acc @ [\<lparr>u_token = token, u_note = note\<rparr>]; balance' = balance + n_amount note
           in if balance' \<ge> 0 \<and> \<not> selAll then (acc', balance')
              else selectNotes selAll used token ns acc' balance')"

definition sortedNotes :: "Note list \<Rightarrow> Note list" where
  "sortedNotes ns = sort_key (\<lambda>n. - n_amount n) ns"

definition autoSelect ::
  "ExecuteOptions \<Rightarrow> used_ids \<Rightarrow> int \<Rightarrow> int \<Rightarrow> Actions \<Rightarrow> PrivateRegistry \<Rightarrow> Actions \<times> PrivateRegistry \<times> int"
where
  "autoSelect opts used token balance actions registry =
     (if (balance < 0 \<and> autoSelectNotes opts \<noteq> None) \<or> autoSelectNotes opts = Some SelectAll
      then let (registry', availableNotes) = regNotesGet registry token;
               (us, balance') = selectNotes (autoSelectNotes opts = Some SelectAll) used token
                 (sortedNotes availableNotes) (optl (a_useNotes actions)) balance
           in (actions\<lparr>a_useNotes := Some us\<rparr>, registry', balance')
      else (actions, registry, balance))"

definition applySurplus :: "CompilerCfg \<Rightarrow> int \<Rightarrow> int \<Rightarrow> Actions \<Rightarrow> Actions \<times> error option" where
  "applySurplus cfg token balance actions =
     (let emit = (\<lambda>s a. if s_withdraw s = Some True
            then a\<lparr>a_withdraws := Some (optl (a_withdraws a) @
                     [\<lparr>wd_recipient = s_recipient s, wd_token = token, wd_amount = balance\<rparr>])\<rparr>
            else a\<lparr>a_createNotes := Some (optl (a_createNotes a) @
                     [\<lparr>c_recipient = s_recipient s, c_token = token, c_amount = Amt balance\<rparr>])\<rparr>)
      in case find (\<lambda>s. s_token s = token) (optl (a_surpluses actions)) of
           Some s \<Rightarrow> (emit s actions, None)
         | None \<Rightarrow>
             if list_ex (\<lambda>d. d_token d = token) (optl (a_deposits actions))
             then let s = \<lparr>s_recipient = cfg_userAddress cfg, s_token = token, s_withdraw = Some False\<rparr>
                  in (emit s (actions\<lparr>a_surpluses := Some (optl (a_surpluses actions) @ [s])\<rparr>), None)
             else (actions, Some (SurplusWithoutAction token balance)))"

definition resolveToken ::
  "CompilerCfg \<Rightarrow> ExecuteOptions \<Rightarrow> used_ids \<Rightarrow> int \<Rightarrow> int \<Rightarrow> Actions \<times> PrivateRegistry
     \<Rightarrow> (Actions \<times> PrivateRegistry) \<times> error option"
where
  "resolveToken cfg opts used token balance0 ar =
     (let (actions, registry, balance) = autoSelect opts used token balance0 (fst ar) (snd ar) in
      if balance < 0 then
        let (registry', ns) = regNotesGet registry token
        in ((actions, registry'),
            Some (InsufficientBalance token (- balance) (foldl (\<lambda>sum n. sum + n_amount n) 0 ns)))
      else if balance > 0 then
        let (actions', e) = applySurplus cfg token balance actions in ((actions', registry), e)
      else ((actions, registry), None))"

fun resolveTokens ::
  "CompilerCfg \<Rightarrow> ExecuteOptions \<Rightarrow> used_ids \<Rightarrow> balances \<Rightarrow> Actions \<times> PrivateRegistry
     \<Rightarrow> (Actions \<times> PrivateRegistry) \<times> error option"
where
  "resolveTokens cfg opts used [] ar = (ar, None)"
| "resolveTokens cfg opts used ((token, balance) # bs) ar =
     (case resolveToken cfg opts used token balance ar of
        (ar', Some e) \<Rightarrow> (ar', Some e)
      | (ar', None) \<Rightarrow> resolveTokens cfg opts used bs ar')"

definition resolveNotes ::
  "CompilerCfg \<Rightarrow> DiscoveryProvider \<Rightarrow> ExecuteOptions \<Rightarrow> Actions \<Rightarrow> PrivateRegistry
     \<Rightarrow> (Actions \<times> PrivateRegistry) \<times> error option"
where
  "resolveNotes cfg D opts actions registry =
     (if a_surpluses actions = None \<and> autoSelectNotes opts = None then ((actions, registry), None)
      else case initialBalances actions of
        Inl e \<Rightarrow> ((actions, registry), Some e)
      | Inr (balances, used) \<Rightarrow>
          (case discoverIntoRegistry cfg D opts actions registry balances of
             Inl e \<Rightarrow> ((actions, registry), Some e)
           | Inr registry' \<Rightarrow> resolveTokens cfg opts used balances (actions, registry')))"

section \<open>compileOnce and compile\<close>

definition cloneRegistry :: "PrivateRegistry \<Rightarrow> PrivateRegistry" where
  "cloneRegistry registry =
     \<lparr>reg_channels = jm_of_entries (reg_channels registry), reg_notes = jm_of_entries (reg_notes registry),
      reg_notes_factory = True, reg_cursor = None\<rparr>"

definition startRegistry :: "ExecuteOptions \<Rightarrow> PrivateRegistry" where
  "startRegistry opts =
     (let registry0 = (case o_registry opts of None \<Rightarrow> createEmptyRegistry | Some r \<Rightarrow> r)
      in if registryConst opts then cloneRegistry registry0 else registry0)"

definition compileOnce ::
  "starknet_lib \<Rightarrow> rng \<Rightarrow> CompilerCfg \<Rightarrow> DiscoveryProvider \<Rightarrow> Actions \<Rightarrow> ExecuteOptions
     \<Rightarrow> Actions \<times> CompileResult result"
where
  "compileOnce L R cfg D actions opts =
     (let registry = startRegistry opts;
          recipientsNeeded = getRecipientsNeeded cfg actions;
          resolvedChannels = resolveRecipientChannels cfg D actions opts registry recipientsNeeded;
          ((actions1, registry1), notesError) = resolveNotes cfg D opts actions registry
      in case notesError of
           Some e \<Rightarrow> (actions1, Inl e)
         | None \<Rightarrow>
             (case bindR resolvedChannels (\<lambda>(chs, total).
                     bindR (toBigInt (cfg_userViewingKey cfg)) (\<lambda>vk. createPool cfg vk registry1 chs total)) of
                Inl e \<Rightarrow> (actions1, Inl e)
              | Inr pool \<Rightarrow>
                  (case transformToClientActions L R cfg opts actions1 pool recipientsNeeded of
                     (actions2, Inl e) \<Rightarrow> (actions2, Inl e)
                   | (actions2, Inr (cas, pool')) \<Rightarrow>
                       (actions2, Inr \<lparr>clientActions = cas, res_registry = updateRegistry pool' registry1,
                          res_warnings = checkWarnings cas\<rparr>))))"

definition clearedOptions :: "ExecuteOptions \<Rightarrow> ExecuteOptions" where
  "clearedOptions opts = opts\<lparr>o_registry :=
     map_option (\<lambda>r. r\<lparr>reg_notes := [], reg_channels := [], reg_cursor := None\<rparr>) (o_registry opts)\<rparr>"

definition compile ::
  "starknet_lib \<Rightarrow> (nat \<Rightarrow> rng) \<Rightarrow> CompilerCfg \<Rightarrow> (nat \<Rightarrow> DiscoveryProvider) \<Rightarrow> Actions \<Rightarrow> ExecuteOptions
     \<Rightarrow> Actions \<times> CompileResult result"
where
  "compile L R cfg D actions opts =
     (case compileOnce L (R 0) cfg (D 0) actions opts of
        (actions', Inl (ReorgError m)) \<Rightarrow> compileOnce L (R 1) cfg (D 1) actions' (clearedOptions opts)
      | r \<Rightarrow> r)"

end
