(* ===== verification/Compiler_Phases.thy ===== *)
theory Compiler_Phases
  imports Compiler
begin

text \<open>
  What the phases of the compiler produce. The locale \<open>phase_invariant\<close> collects the obligations of a
  predicate on the transformation state, one per phase, and gives its preservation by the whole run.
  It is interpreted for the typing of the phase lists, the well-formedness of the pool, the channel
  indices and the note indices.
\<close>

section \<open>Runs of phases\<close>

lemma execute_eq [result_simps]:
  "execute L a push st = Inr st' \<longleftrightarrow>
     (\<exists>p. pool_execute L (t_pool st) a = Inr p \<and> st' = st\<lparr>t_pool := p, t_out := push (t_out st)\<rparr>)"
  by (auto simp: execute_def bindR_eq_Inr)

lemma draw_simps [simp]: "t_pool (draw n st) = t_pool st" "t_out (draw n st) = t_out st"
  by (simp_all add: draw_def)

lemma runPhases_E:
  assumes "runPhases L R cfg opts actions st = Inr st'"
  obtains s1 seen s2 s3 s4 s5 s6 s7 s8 where
    "(if a_setViewingKey actions then stepSetViewingKey L R st else Inr st) = Inr s1"
    "foldR (stepOpenChannel L R) ([], s1) (optl (a_openChannels actions)) = Inr (seen, s2)"
    "foldR (\<lambda>st a. transformOpenSubchannel L R opts (ot_recipient a) (ot_token a) True st) s2
       (optl (a_openTokenChannels actions)) = Inr s3"
    "foldR (stepDeposit L) s3 (optl (a_deposits actions)) = Inr s4"
    "foldR (stepUseNote L) s4 (optl (a_useNotes actions)) = Inr s5"
    "foldR (stepCreateNote L R opts) s5 (optl (a_createNotes actions)) = Inr s6"
    "foldR (stepWithdraw L R) s6 (optl (a_withdraws actions)) = Inr s7"
    "(case a_invoke actions of None \<Rightarrow> Inr s7 | Some b \<Rightarrow> stepInvoke L cfg b s7) = Inr s8"
    "(case a_computeAndInvoke actions of None \<Rightarrow> Inr s8 | Some b \<Rightarrow> stepComputeAndInvoke L cfg b s8) = Inr st'"
    "a_invoke actions = None \<or> a_computeAndInvoke actions = None"
  using assms by (auto simp: runPhases_def bindR_eq_Inr assertR_eq_Inr Option.is_none_def split: prod.splits)

locale phase_invariant =
  fixes L :: starknet_lib and R :: rng and cfg :: CompilerCfg and opts :: ExecuteOptions
    and actions :: Actions and I :: "tstate \<Rightarrow> bool"
  assumes svk: "I st \<Longrightarrow> stepSetViewingKey L R st = Inr st' \<Longrightarrow> I st'"
    and oc: "I st \<Longrightarrow> stepOpenChannel L R (seen, st) ac = Inr (seen', st') \<Longrightarrow> I st'"
    and sub: "I st \<Longrightarrow> transformOpenSubchannel L R opts r t f st = Inr st' \<Longrightarrow> I st'"
    and dep: "I st \<Longrightarrow> stepDeposit L st ad = Inr st' \<Longrightarrow> I st'"
    and use: "I st \<Longrightarrow> stepUseNote L st au = Inr st' \<Longrightarrow> I st'"
    and create: "I st \<Longrightarrow> stepCreateNote L R opts st an = Inr st' \<Longrightarrow> I st'"
    and wd: "I st \<Longrightarrow> stepWithdraw L R st aw = Inr st' \<Longrightarrow> I st'"
    and invoke: "I st \<Longrightarrow> a_invoke actions = Some b \<Longrightarrow> stepInvoke L cfg b st = Inr st' \<Longrightarrow> I st'"
    and compute: "I st \<Longrightarrow> a_computeAndInvoke actions = Some b' \<Longrightarrow>
      stepComputeAndInvoke L cfg b' st = Inr st' \<Longrightarrow> I st'"
begin

lemma foldR_inv:
  "(\<And>s x s'. J s \<Longrightarrow> f s x = Inr s' \<Longrightarrow> J s') \<Longrightarrow> J s \<Longrightarrow> foldR f s xs = Inr s' \<Longrightarrow> J s'"
  by (induction xs arbitrary: s) (auto simp: bindR_eq_Inr)

lemma oc_run: "I st \<Longrightarrow> foldR (stepOpenChannel L R) (seen, st) xs = Inr (seen', st') \<Longrightarrow> I st'"
  using foldR_inv [where J = "\<lambda>(_, s). I s" and f = "stepOpenChannel L R"] oc by fast

lemma sub_run:
  "I st \<Longrightarrow> foldR (\<lambda>st a. transformOpenSubchannel L R opts (ot_recipient a) (ot_token a) True st) st xs = Inr st'
     \<Longrightarrow> I st'"
  by (rule foldR_inv [where J = I]) (auto intro: sub)

lemma runs:
  "I st \<Longrightarrow> foldR (stepDeposit L) st ds = Inr st' \<Longrightarrow> I st'"
  "I st \<Longrightarrow> foldR (stepUseNote L) st us = Inr st' \<Longrightarrow> I st'"
  "I st \<Longrightarrow> foldR (stepCreateNote L R opts) st cs = Inr st' \<Longrightarrow> I st'"
  "I st \<Longrightarrow> foldR (stepWithdraw L R) st ws = Inr st' \<Longrightarrow> I st'"
  by (rule foldR_inv [where J = I]; auto intro: dep use create wd)+

lemma runPhases_inv:
  assumes "I st" "runPhases L R cfg opts actions st = Inr st'"
  shows "I st'"
proof -
  from assms(2) obtain s1 seen s2 s3 s4 s5 s6 s7 s8 where
    r1: "(if a_setViewingKey actions then stepSetViewingKey L R st else Inr st) = Inr s1" and
    r2: "foldR (stepOpenChannel L R) ([], s1) (optl (a_openChannels actions)) = Inr (seen, s2)" and
    r3: "foldR (\<lambda>st a. transformOpenSubchannel L R opts (ot_recipient a) (ot_token a) True st) s2
           (optl (a_openTokenChannels actions)) = Inr s3" and
    r4: "foldR (stepDeposit L) s3 (optl (a_deposits actions)) = Inr s4" and
    r5: "foldR (stepUseNote L) s4 (optl (a_useNotes actions)) = Inr s5" and
    r6: "foldR (stepCreateNote L R opts) s5 (optl (a_createNotes actions)) = Inr s6" and
    r7: "foldR (stepWithdraw L R) s6 (optl (a_withdraws actions)) = Inr s7" and
    r8: "(case a_invoke actions of None \<Rightarrow> Inr s7 | Some b \<Rightarrow> stepInvoke L cfg b s7) = Inr s8" and
    r9: "(case a_computeAndInvoke actions of None \<Rightarrow> Inr s8 | Some b \<Rightarrow> stepComputeAndInvoke L cfg b s8) = Inr st'"
    by (rule runPhases_E)
  have "I s1" using assms(1) r1 svk by (auto split: if_splits)
  then have "I s2" using r2 by (rule oc_run)
  then have "I s3" using r3 by (rule sub_run)
  then have "I s4" using r4 by (rule runs)
  then have "I s5" using r5 by (rule runs)
  then have "I s6" using r6 by (rule runs)
  then have "I s7" using r7 by (rule runs)
  then have "I s8" using r8 invoke by (auto split: option.splits)
  then show ?thesis using r9 compute by (auto split: option.splits)
qed

end

section \<open>What one phase does\<close>

lemmas step_simps = bindR_eq_Inr execute_eq assertR_eq_Inr of_option_eq_Inr Let_def

lemma stepSetViewingKey_E:
  assumes "stepSetViewingKey L R st = Inr st'"
  obtains i p where "handleSetViewingKey L (t_pool st) i = Inr p" "t_pool st' = p"
    "t_out st' = (t_out st)\<lparr>ca_setViewingKey := Some (SetViewingKey i)\<rparr>"
  using assms by (auto simp: stepSetViewingKey_def step_simps)

lemma stepOpenChannel_E:
  assumes "stepOpenChannel L R (seen, st) a = Inr (seen', st')"
  obtains (seen) "oc_recipient a \<in> set seen" "seen' = seen" "st' = st"
  | (fresh) i p where "oc_recipient a \<notin> set seen" "seen' = oc_recipient a # seen"
    "oci_recipient_addr i = oc_recipient a" "oci_index i = nextChannelIndex (t_pool st)"
    "handleOpenChannel L (t_pool st) i = Inr p" "t_pool st' = p"
    "t_out st' = (t_out st)\<lparr>ca_openChannels := ca_openChannels (t_out st) @ [OpenChannel i]\<rparr>"
proof (cases "oc_recipient a \<in> set seen")
  case True
  with assms have "seen' = seen" "st' = st" by (simp_all add: stepOpenChannel_def)
  with True show ?thesis by (rule seen)
next
  case False
  let ?i = "\<lparr>oci_recipient_addr = oc_recipient a, oci_index = nextChannelIndex (t_pool st),
    oci_random = generateRandom R (t_ctr st), oci_salt = generateRandom R (t_ctr st + 1)\<rparr>"
  from assms False obtain p where "seen' = oc_recipient a # seen" "handleOpenChannel L (t_pool st) ?i = Inr p"
    "t_pool st' = p" "t_out st' = (t_out st)\<lparr>ca_openChannels := ca_openChannels (t_out st) @ [OpenChannel ?i]\<rparr>"
    by (auto simp: stepOpenChannel_def step_simps)
  with False show ?thesis by (intro fresh [of ?i p]) simp_all
qed

lemma transformOpenSubchannel_E:
  assumes "transformOpenSubchannel L R opts r t f st = Inr st'"
  obtains (present) c where "getChannel (t_pool st) r = Some c" "jm_has (tokens c) t \<or> \<not> f \<and> \<not> autoSetup opts" "st' = st"
  | (opened) c i p where "getChannel (t_pool st) r = Some c" "\<not> jm_has (tokens c) t"
    "osi_recipient_addr i = r" "osi_token i = t" "osi_index i = length (tokens c)"
    "handleOpenSubchannel (t_pool st) i = Inr p" "t_pool st' = p"
    "t_out st' = (t_out st)\<lparr>ca_openTokenChannels := ca_openTokenChannels (t_out st) @ [OpenSubchannel i]\<rparr>"
proof -
  from assms obtain c where c: "getChannel (t_pool st) r = Some c"
    by (auto simp: transformOpenSubchannel_def step_simps)
  show ?thesis
  proof (cases "jm_has (tokens c) t \<or> \<not> f \<and> \<not> autoSetup opts")
    case True
    with assms c have "st' = st" by (auto simp: transformOpenSubchannel_def cong: if_cong)
    with c True show ?thesis by (rule present)
  next
    case False
    let ?i = "\<lparr>osi_recipient_addr = r, osi_recipient_public_key = publicKey c, osi_channel_key = key c,
      osi_index = length (tokens c), osi_token = t, osi_salt = generateRandom R (t_ctr st)\<rparr>"
    from assms c False obtain p where "handleOpenSubchannel (t_pool st) ?i = Inr p" "t_pool st' = p"
      "t_out st' = (t_out st)\<lparr>ca_openTokenChannels := ca_openTokenChannels (t_out st) @ [OpenSubchannel ?i]\<rparr>"
      by (auto simp: transformOpenSubchannel_def step_simps)
    with c False show ?thesis by (intro opened [of c ?i p]) simp_all
  qed
qed

lemma stepDeposit_E:
  assumes "stepDeposit L st a = Inr st'"
  obtains "t_pool st' = t_pool st"
    "t_out st' = (t_out st)\<lparr>ca_deposits := ca_deposits (t_out st) @ [depositInput a]\<rparr>"
  using assms by (auto simp: stepDeposit_def step_simps depositInput_def)

lemma stepUseNote_E:
  assumes "stepUseNote L st a = Inr st'"
  obtains p p' where "p_channels p = p_channels (t_pool st)" "nextChannelIndex p = nextChannelIndex (t_pool st)"
    "userAddress p = userAddress (t_pool st)" "userViewingKey p = userViewingKey (t_pool st)"
    "pool_wf (t_pool st) \<Longrightarrow> pool_wf p"
    "handleUseNote L p (useNoteInput a) = Inr p'" "t_pool st' = p'"
    "t_out st' = (t_out st)\<lparr>ca_useNotes := ca_useNotes (t_out st) @ [UseNote (useNoteInput a)]\<rparr>"
proof -
  from assms obtain nid where nid: "toBigInt (n_id (u_note a)) = Inr nid"
    by (auto simp: stepUseNote_def step_simps)
  obtain q has where h: "hasNote (t_pool st) (u_token a) nid = (q, has)" by fastforce
  with assms nid obtain p p' where
    p: "(if has then Inr q else setupNote q (u_token a) (u_note a)) = Inr p"
    and e: "handleUseNote L p (useNoteInput a) = Inr p'" "t_pool st' = p'"
      "t_out st' = (t_out st)\<lparr>ca_useNotes := ca_useNotes (t_out st) @ [UseNote (useNoteInput a)]\<rparr>"
    by (auto simp: stepUseNote_def bindR_eq_Inr execute_eq Let_def cong: if_cong)
  have q: "p_channels q = p_channels (t_pool st)" "nextChannelIndex q = nextChannelIndex (t_pool st)"
    "userAddress q = userAddress (t_pool st)" "userViewingKey q = userViewingKey (t_pool st)"
    using h by (auto simp: hasNote_def split: prod.splits)
  have "p_channels p = p_channels q" "nextChannelIndex p = nextChannelIndex q"
    "userAddress p = userAddress q" "userViewingKey p = userViewingKey q"
    using p by (cases has; cases "jm_get_default (p_notes q) (u_token a) []";
        auto simp: setupNote_def step_simps)+
  moreover have "pool_wf p" if "pool_wf (t_pool st)"
    using hasNote_wf [OF that, of "u_token a" nid] h p by (auto split: if_splits dest: setupNote_wf)
  ultimately show ?thesis using that q e by metis
qed

lemma readNonce_E:
  assumes "readNonce st r t = Inr (n, pk, st')"
  obtains c where "getChannel (t_pool st) r = Some c" "n = token_nonce c t" "pk = publicKey c"
    "t_out st' = t_out st" "t_pool st' = (t_pool st)\<lparr>p_channels := jm_set (p_channels (t_pool st)) r
       (c\<lparr>tokens := fst (jm_get_default (tokens c) t fresh_token)\<rparr>)\<rparr>"
proof -
  from assms obtain c where c: "getChannel (t_pool st) r = Some c"
    by (auto simp: readNonce_def step_simps)
  obtain ts tc where d: "jm_get_default (tokens c) t fresh_token = (ts, tc)" by fastforce
  have "token_nonce c t = noteNonce tc"
    using d by (auto simp: jm_get_default_def token_nonce_def fresh_token_def split: option.splits)
  with assms c d that show ?thesis by (auto simp: readNonce_def)
qed

definition is_create :: "ClientAction \<Rightarrow> bool" where
  "is_create a = (case a of CreateEncNote _ \<Rightarrow> True | CreateOpenNote _ \<Rightarrow> True | _ \<Rightarrow> False)"

fun create_key :: "ClientAction \<Rightarrow> int \<times> int" where
  "create_key (CreateEncNote i) = (cei_recipient_addr i, cei_token i)"
| "create_key (CreateOpenNote i) = (coi_recipient_addr i, coi_token i)"
| "create_key _ = (0, 0)"

fun create_index :: "ClientAction \<Rightarrow> nat" where
  "create_index (CreateEncNote i) = cei_index i"
| "create_index (CreateOpenNote i) = coi_index i"
| "create_index _ = 0"

lemma createNoteInput_simps [simp]:
  "is_create (createNoteInput R a n pk c)"
  "create_key (createNoteInput R a n pk c) = (c_recipient a, c_token a)"
  "create_index (createNoteInput R a n pk c) = n"
  by (simp_all add: createNoteInput_def is_create_def split: Amount.split)

lemma stepCreateNote_E:
  assumes "stepCreateNote L R opts st an = Inr st'"
  obtains st1 n pk st2 a p where
    "transformOpenSubchannel L R opts (c_recipient an) (c_token an) False st = Inr st1"
    "readNonce st1 (c_recipient an) (c_token an) = Inr (n, pk, st2)"
    "a = createNoteInput R an n pk (t_ctr st2)"
    "pool_execute L (t_pool st2) a = Inr p" "t_pool st' = p"
    "t_out st' = (t_out st2)\<lparr>ca_createNotes := ca_createNotes (t_out st2) @ [a]\<rparr>"
proof -
  from assms obtain st1 n pk st2 p where
    "transformOpenSubchannel L R opts (c_recipient an) (c_token an) False st = Inr st1"
    "readNonce st1 (c_recipient an) (c_token an) = Inr (n, pk, st2)"
    "pool_execute L (t_pool st2) (createNoteInput R an n pk (t_ctr st2)) = Inr p" "t_pool st' = p"
    "t_out st' = (t_out st2)\<lparr>ca_createNotes := ca_createNotes (t_out st2) @ [createNoteInput R an n pk (t_ctr st2)]\<rparr>"
    by (auto simp: stepCreateNote_def bindR_eq_Inr execute_eq Let_def)
  then show ?thesis by (intro that [of st1 n pk st2 _ p]) simp_all
qed

lemma stepWithdraw_E:
  assumes "stepWithdraw L R st a = Inr st'"
  obtains i where "t_pool st' = t_pool st"
    "t_out st' = (t_out st)\<lparr>ca_withdraws := ca_withdraws (t_out st) @ [Withdraw i]\<rparr>"
  using assms by (auto simp: stepWithdraw_def step_simps)

lemma stepInvoke_E:
  assumes "stepInvoke L cfg b st = Inr st'"
  obtains i where "t_pool st' = t_pool st" "t_out st' = (t_out st)\<lparr>ca_invoke := Some (InvokeExternal i)\<rparr>"
  using assms by (auto simp: stepInvoke_def step_simps)

lemma stepComputeAndInvoke_E:
  assumes "stepComputeAndInvoke L cfg b st = Inr st'"
  obtains i where "t_pool st' = t_pool st"
    "t_out st' = (t_out st)\<lparr>ca_computeAndInvoke := Some (ComputeAndInvoke i)\<rparr>"
  using assms by (auto simp: stepComputeAndInvoke_def step_simps)

section \<open>Typing of the phase lists\<close>

fun phase :: "ClientAction \<Rightarrow> nat" where
  "phase (SetViewingKey _) = 1"
| "phase (OpenChannel _) = 2"
| "phase (OpenSubchannel _) = 3"
| "phase (Deposit _) = 4"
| "phase (UseNote _) = 5"
| "phase (CreateEncNote _) = 6"
| "phase (CreateOpenNote _) = 6"
| "phase (Withdraw _) = 7"
| "phase (InvokeExternal _) = 8"
| "phase (ComputeAndInvoke _) = 9"

definition all_phase :: "nat \<Rightarrow> ClientAction list \<Rightarrow> bool" where
  "all_phase n as = list_all (\<lambda>a. phase a = n) as"

definition out_typed :: "ClientActions \<Rightarrow> bool" where
  "out_typed ca = (all_phase 1 (opt_list (ca_setViewingKey ca)) \<and> all_phase 2 (ca_openChannels ca) \<and>
     all_phase 3 (ca_openTokenChannels ca) \<and> all_phase 4 (ca_deposits ca) \<and> all_phase 5 (ca_useNotes ca) \<and>
     all_phase 6 (ca_createNotes ca) \<and> all_phase 7 (ca_withdraws ca) \<and>
     all_phase 8 (opt_list (ca_invoke ca)) \<and> all_phase 9 (opt_list (ca_computeAndInvoke ca)))"

lemma all_phase_simps [simp]:
  "all_phase n []" "all_phase n (a # as) = (phase a = n \<and> all_phase n as)"
  "all_phase n (as @ bs) = (all_phase n as \<and> all_phase n bs)"
  by (simp_all add: all_phase_def)

lemma is_create_phase: "is_create a \<Longrightarrow> phase a = 6"
  by (cases a) (auto simp: is_create_def)

lemma typed_sub:
  "out_typed (t_out st) \<Longrightarrow> transformOpenSubchannel L R opts r t f st = Inr st' \<Longrightarrow> out_typed (t_out st')"
  by (erule transformOpenSubchannel_E) (auto simp: out_typed_def)

lemma typed_create:
  assumes "out_typed (t_out st)" "stepCreateNote L R opts st an = Inr st'"
  shows "out_typed (t_out st')"
  using assms(2)
proof (rule stepCreateNote_E)
  fix st1 n pk st2 a p
  assume s: "transformOpenSubchannel L R opts (c_recipient an) (c_token an) False st = Inr st1"
    "readNonce st1 (c_recipient an) (c_token an) = Inr (n, pk, st2)"
    "a = createNoteInput R an n pk (t_ctr st2)"
    "t_out st' = (t_out st2)\<lparr>ca_createNotes := ca_createNotes (t_out st2) @ [a]\<rparr>"
  have "out_typed (t_out st1)" using assms(1) s(1) by (rule typed_sub)
  moreover have "t_out st2 = t_out st1" using s(2) by (rule readNonce_E)
  ultimately show ?thesis using s(3,4) is_create_phase [of a] by (simp add: out_typed_def)
qed

interpretation typed: phase_invariant L R cfg opts actions "\<lambda>st. out_typed (t_out st)" for L R cfg opts actions
proof
  fix st st' :: tstate and seen seen' ac r t f ad au an aw b b'
  assume I: "out_typed (t_out st)"
  note intro = I [unfolded out_typed_def]
  show "stepSetViewingKey L R st = Inr st' \<Longrightarrow> out_typed (t_out st')"
    using intro by (elim stepSetViewingKey_E) (simp add: out_typed_def)
  show "stepOpenChannel L R (seen, st) ac = Inr (seen', st') \<Longrightarrow> out_typed (t_out st')"
    using intro by (elim stepOpenChannel_E) (simp_all add: out_typed_def)
  show "transformOpenSubchannel L R opts r t f st = Inr st' \<Longrightarrow> out_typed (t_out st')"
    using I by (rule typed_sub)
  show "stepDeposit L st ad = Inr st' \<Longrightarrow> out_typed (t_out st')"
    using intro by (elim stepDeposit_E) (simp add: out_typed_def depositInput_def)
  show "stepUseNote L st au = Inr st' \<Longrightarrow> out_typed (t_out st')"
    using intro by (elim stepUseNote_E) (simp add: out_typed_def)
  show "stepCreateNote L R opts st an = Inr st' \<Longrightarrow> out_typed (t_out st')"
    using I by (rule typed_create)
  show "stepWithdraw L R st aw = Inr st' \<Longrightarrow> out_typed (t_out st')"
    using intro by (elim stepWithdraw_E) (simp add: out_typed_def)
  show "stepInvoke L cfg b st = Inr st' \<Longrightarrow> out_typed (t_out st')"
    using intro by (elim stepInvoke_E) (simp add: out_typed_def)
  show "stepComputeAndInvoke L cfg b' st = Inr st' \<Longrightarrow> out_typed (t_out st')"
    using intro by (elim stepComputeAndInvoke_E) (simp add: out_typed_def)
qed

lemma out_typed_start [simp]: "out_typed no_client_actions"
  by (simp add: out_typed_def no_client_actions_def)

lemma sorted_phase_append:
  "sorted (map phase xs) \<Longrightarrow> sorted (map phase ys) \<Longrightarrow> (\<forall>x \<in> set xs. \<forall>y \<in> set ys. phase x \<le> phase y)
   \<Longrightarrow> sorted (map phase (xs @ ys))"
  by (auto simp: sorted_append)

lemma all_phase_sorted: "all_phase n as \<Longrightarrow> sorted (map phase as)"
  by (induction as) (auto simp: all_phase_def list_all_iff)

lemma all_phase_mem: "all_phase n as \<Longrightarrow> a \<in> set as \<Longrightarrow> phase a = n"
  by (auto simp: all_phase_def list_all_iff)

lemma phases_sorted:
  "list_all2 all_phase ns ass \<Longrightarrow> sorted ns \<Longrightarrow> sorted (map phase (concat ass))"
proof (induction rule: list_all2_induct)
  case (Cons n ns as ass)
  have "phase y \<in> set ns" if "y \<in> set (concat ass)" for y
    using Cons.hyps(2) that by (induction rule: list_all2_induct) (auto dest: all_phase_mem)
  with Cons show ?case
    by (auto simp: sorted_append all_phase_sorted dest!: all_phase_mem [OF Cons.hyps(1)])
qed simp

lemma flatten_sorted: "out_typed ca \<Longrightarrow> sorted (map phase (flatten ca))"
  unfolding flatten_def by (rule phases_sorted [of "[1, 2, 3, 4, 5, 6, 7, 8, 9]"]) (simp_all add: out_typed_def)

lemma flatten_phase:
  assumes "out_typed ca"
  shows "filter (\<lambda>a. phase a = 2) (flatten ca) = ca_openChannels ca"
    and "filter (\<lambda>a. phase a = 3) (flatten ca) = ca_openTokenChannels ca"
    and "filter (\<lambda>a. phase a = 4) (flatten ca) = ca_deposits ca"
    and "filter (\<lambda>a. phase a = 5) (flatten ca) = ca_useNotes ca"
    and "filter (\<lambda>a. phase a = 6) (flatten ca) = ca_createNotes ca"
    and "filter (\<lambda>a. phase a = 7) (flatten ca) = ca_withdraws ca"
    and "filter (\<lambda>a. 8 \<le> phase a) (flatten ca) = opt_list (ca_invoke ca) @ opt_list (ca_computeAndInvoke ca)"
proof -
  have keep: "filter P as = as" if "all_phase k as" "\<And>a. phase a = k \<Longrightarrow> P a" for k P as
    using that by (induction as) auto
  have drop: "filter P as = []" if "all_phase k as" "\<And>a. phase a = k \<Longrightarrow> \<not> P a" for k P as
    using that by (induction as) auto
  note t = assms [unfolded out_typed_def]
  show "filter (\<lambda>a. phase a = 2) (flatten ca) = ca_openChannels ca"
    "filter (\<lambda>a. phase a = 3) (flatten ca) = ca_openTokenChannels ca"
    "filter (\<lambda>a. phase a = 4) (flatten ca) = ca_deposits ca"
    "filter (\<lambda>a. phase a = 5) (flatten ca) = ca_useNotes ca"
    "filter (\<lambda>a. phase a = 6) (flatten ca) = ca_createNotes ca"
    "filter (\<lambda>a. phase a = 7) (flatten ca) = ca_withdraws ca"
    "filter (\<lambda>a. 8 \<le> phase a) (flatten ca) = opt_list (ca_invoke ca) @ opt_list (ca_computeAndInvoke ca)"
    using t by (simp_all add: flatten_def drop [of 1] drop [of 2] drop [of 3] drop [of 4] drop [of 5]
        drop [of 6] drop [of 7] drop [of 8] drop [of 9] keep [of 2] keep [of 3] keep [of 4] keep [of 5]
        keep [of 6] keep [of 7] keep [of 8] keep [of 9])
qed

section \<open>The single invoke phase\<close>

definition invoke_asked :: "Actions \<Rightarrow> tstate \<Rightarrow> bool" where
  "invoke_asked actions st = ((ca_invoke (t_out st) \<noteq> None \<longrightarrow> a_invoke actions \<noteq> None) \<and>
     (ca_computeAndInvoke (t_out st) \<noteq> None \<longrightarrow> a_computeAndInvoke actions \<noteq> None))"

text \<open>Phases before the invocation leave the two invocation slots alone.\<close>

lemma sub_frame:
  assumes "transformOpenSubchannel L R opts r t f st = Inr st'"
  shows "ca_setViewingKey (t_out st') = ca_setViewingKey (t_out st)" "ca_openChannels (t_out st') = ca_openChannels (t_out st)"
    "ca_deposits (t_out st') = ca_deposits (t_out st)" "ca_useNotes (t_out st') = ca_useNotes (t_out st)"
    "ca_createNotes (t_out st') = ca_createNotes (t_out st)" "ca_withdraws (t_out st') = ca_withdraws (t_out st)"
    "ca_invoke (t_out st') = ca_invoke (t_out st)" "ca_computeAndInvoke (t_out st') = ca_computeAndInvoke (t_out st)"
  using assms by (elim transformOpenSubchannel_E; simp)+

lemma create_frame:
  assumes "stepCreateNote L R opts st an = Inr st'"
  shows "ca_openChannels (t_out st') = ca_openChannels (t_out st)"
    "ca_deposits (t_out st') = ca_deposits (t_out st)" "ca_useNotes (t_out st') = ca_useNotes (t_out st)"
    "ca_withdraws (t_out st') = ca_withdraws (t_out st)"
    "ca_invoke (t_out st') = ca_invoke (t_out st)" "ca_computeAndInvoke (t_out st') = ca_computeAndInvoke (t_out st)"
  using assms by (elim stepCreateNote_E readNonce_E; simp add: sub_frame)+

interpretation asked: phase_invariant L R cfg opts actions "invoke_asked actions" for L R cfg opts actions
proof
  fix st st' :: tstate and seen seen' ac r t f ad au an aw b b'
  assume I: "invoke_asked actions st"
  show "stepSetViewingKey L R st = Inr st' \<Longrightarrow> invoke_asked actions st'"
    using I by (elim stepSetViewingKey_E) (simp add: invoke_asked_def)
  show "stepOpenChannel L R (seen, st) ac = Inr (seen', st') \<Longrightarrow> invoke_asked actions st'"
    using I by (elim stepOpenChannel_E) (simp_all add: invoke_asked_def)
  show "transformOpenSubchannel L R opts r t f st = Inr st' \<Longrightarrow> invoke_asked actions st'"
    using I sub_frame by (simp add: invoke_asked_def)
  show "stepDeposit L st ad = Inr st' \<Longrightarrow> invoke_asked actions st'"
    using I by (elim stepDeposit_E) (simp add: invoke_asked_def)
  show "stepUseNote L st au = Inr st' \<Longrightarrow> invoke_asked actions st'"
    using I by (elim stepUseNote_E) (simp add: invoke_asked_def)
  show "stepCreateNote L R opts st an = Inr st' \<Longrightarrow> invoke_asked actions st'"
    using I create_frame by (simp add: invoke_asked_def)
  show "stepWithdraw L R st aw = Inr st' \<Longrightarrow> invoke_asked actions st'"
    using I by (elim stepWithdraw_E) (simp add: invoke_asked_def)
  show "a_invoke actions = Some b \<Longrightarrow> stepInvoke L cfg b st = Inr st' \<Longrightarrow> invoke_asked actions st'"
    using I by (elim stepInvoke_E) (simp add: invoke_asked_def)
  show "a_computeAndInvoke actions = Some b' \<Longrightarrow> stepComputeAndInvoke L cfg b' st = Inr st' \<Longrightarrow> invoke_asked actions st'"
    using I by (elim stepComputeAndInvoke_E) (simp add: invoke_asked_def)
qed

section \<open>Nonces and channel indices\<close>

definition pool_nonce :: "PoolSimulator \<Rightarrow> int \<Rightarrow> int \<Rightarrow> nat" where
  "pool_nonce p r t = (case getChannel p r of None \<Rightarrow> 0 | Some c \<Rightarrow> token_nonce c t)"

lemma token_nonce_missing: "\<not> jm_has (tokens c) t \<Longrightarrow> token_nonce c t = 0"
  by (simp add: token_nonce_def jm_has_def)

lemma handleSetViewingKey_nonce:
  "handleSetViewingKey L p i = Inr p' \<Longrightarrow> pool_nonce p' r t = pool_nonce p r t \<and> nextChannelIndex p' = nextChannelIndex p"
  by (auto simp: handleSetViewingKey_def step_simps pool_nonce_def getChannel_def jm_has_def
      new_Channel_def token_nonce_def jm_of_entries_def)

lemma handleOpenChannel_nonce:
  "handleOpenChannel L p i = Inr p' \<Longrightarrow>
   pool_nonce p' r t = pool_nonce p r t \<and> nextChannelIndex p' = nextChannelIndex p + 1"
  by (auto simp: handleOpenChannel_def step_simps pool_nonce_def getChannel_def token_nonce_def)

lemma handleOpenSubchannel_nonce:
  assumes "handleOpenSubchannel p i = Inr p'" "getChannel p (osi_recipient_addr i) = Some c"
    "\<not> jm_has (tokens c) (osi_token i)"
  shows "pool_nonce p' r t = pool_nonce p r t \<and> nextChannelIndex p' = nextChannelIndex p"
  using assms token_nonce_missing [OF assms(3)]
  by (auto simp: handleOpenSubchannel_def step_simps pool_nonce_def getChannel_def token_nonce_def)

lemma handleUseNote_channels:
  "handleUseNote L p i = Inr p' \<Longrightarrow> p_channels p' = p_channels p \<and> nextChannelIndex p' = nextChannelIndex p"
  by (auto simp: handleUseNote_def Let_def split: prod.splits)

lemma bumpNonce_nonce:
  "bumpNonce p r t = Inr p' \<Longrightarrow>
   pool_nonce p' r' t' = pool_nonce p r' t' + (if r' = r \<and> t' = t then 1 else 0) \<and>
   nextChannelIndex p' = nextChannelIndex p"
  by (auto simp: bumpNonce_def step_simps pool_nonce_def getChannel_def incrementNoteNonce_nonce)

lemma create_nonce:
  assumes "is_create a" "pool_execute L p a = Inr p'"
  shows "pool_nonce p' r t = pool_nonce p r t + (if create_key a = (r, t) then 1 else 0) \<and>
         nextChannelIndex p' = nextChannelIndex p"
proof (cases a)
  case (CreateEncNote i)
  with assms(2) obtain q where q: "bumpNonce p (cei_recipient_addr i) (cei_token i) = Inr q"
    by (auto simp: handleCreateEncNote_def bindR_eq_Inr)
  obtain ns m where d: "jm_get_default (p_notes q) (cei_token i) [] = (ns, m)" by fastforce
  have "p_channels p' = p_channels q \<and> nextChannelIndex p' = nextChannelIndex q"
    using assms(2) CreateEncNote q d
    by (auto simp: handleCreateEncNote_def bindR_eq_Inr Let_def split: if_splits)
  with bumpNonce_nonce [OF q, of r t] CreateEncNote show ?thesis
    by (auto simp: pool_nonce_def getChannel_def)
next
  case (CreateOpenNote i)
  with assms(2) bumpNonce_nonce [of p "coi_recipient_addr i" "coi_token i" p' r t] show ?thesis
    by (auto simp: handleCreateOpenNote_def)
qed (use assms(1) in \<open>auto simp: is_create_def\<close>)

lemma sub_nonce:
  "transformOpenSubchannel L R opts r t f st = Inr st' \<Longrightarrow>
   pool_nonce (t_pool st') r' t' = pool_nonce (t_pool st) r' t' \<and>
   nextChannelIndex (t_pool st') = nextChannelIndex (t_pool st)"
  by (elim transformOpenSubchannel_E) (auto dest: handleOpenSubchannel_nonce)

lemma readNonce_nonce:
  assumes "readNonce st r t = Inr (n, pk, st')"
  shows "pool_nonce (t_pool st') r' t' = pool_nonce (t_pool st) r' t' \<and>
         nextChannelIndex (t_pool st') = nextChannelIndex (t_pool st) \<and> n = pool_nonce (t_pool st) r t"
  using assms
  by (elim readNonce_E)
    (auto simp: pool_nonce_def getChannel_def token_nonce_def jm_get_default_def fresh_token_def
      split: option.splits)

definition note_indices :: "ClientAction list \<Rightarrow> int \<Rightarrow> int \<Rightarrow> nat list" where
  "note_indices as r t = map create_index (filter (\<lambda>a. create_key a = (r, t)) as)"

definition indices_inv :: "PoolSimulator \<Rightarrow> tstate \<Rightarrow> bool" where
  "indices_inv p0 st =
     ((\<forall>r t. pool_nonce p0 r t \<le> pool_nonce (t_pool st) r t \<and>
        note_indices (ca_createNotes (t_out st)) r t = [pool_nonce p0 r t ..< pool_nonce (t_pool st) r t]) \<and>
      nextChannelIndex p0 \<le> nextChannelIndex (t_pool st) \<and>
      map (\<lambda>a. case a of OpenChannel i \<Rightarrow> oci_index i | _ \<Rightarrow> 0) (ca_openChannels (t_out st))
        = [nextChannelIndex p0 ..< nextChannelIndex (t_pool st)])"

lemma indices_same:
  "indices_inv p0 st \<Longrightarrow> (\<And>r t. pool_nonce (t_pool st') r t = pool_nonce (t_pool st) r t) \<Longrightarrow>
   nextChannelIndex (t_pool st') = nextChannelIndex (t_pool st) \<Longrightarrow>
   ca_createNotes (t_out st') = ca_createNotes (t_out st) \<Longrightarrow>
   ca_openChannels (t_out st') = ca_openChannels (t_out st) \<Longrightarrow> indices_inv p0 st'"
  by (simp add: indices_inv_def)

lemma indices_create:
  assumes "indices_inv p0 st" "stepCreateNote L R opts st an = Inr st'"
  shows "indices_inv p0 st'"
  using assms(2)
proof (rule stepCreateNote_E)
  fix st1 n pk st2 a p
  assume s: "transformOpenSubchannel L R opts (c_recipient an) (c_token an) False st = Inr st1"
    and rn: "readNonce st1 (c_recipient an) (c_token an) = Inr (n, pk, st2)"
    and a: "a = createNoteInput R an n pk (t_ctr st2)"
    and p: "pool_execute L (t_pool st2) a = Inr p" "t_pool st' = p"
    and out: "t_out st' = (t_out st2)\<lparr>ca_createNotes := ca_createNotes (t_out st2) @ [a]\<rparr>"
  have out2: "t_out st2 = t_out st1" using rn by (rule readNonce_E)
  have i2: "indices_inv p0 st2"
    using assms(1) by (rule indices_same) (use sub_nonce [OF s] readNonce_nonce [OF rn] out2 sub_frame [OF s] in auto)
  have n: "n = pool_nonce (t_pool st2) (c_recipient an) (c_token an)" using readNonce_nonce [OF rn] by simp
  have "pool_nonce p r t = pool_nonce (t_pool st2) r t + (if (c_recipient an, c_token an) = (r, t) then 1 else 0) \<and>
      nextChannelIndex p = nextChannelIndex (t_pool st2)" for r t
    using create_nonce [OF _ p(1), of r t] a by simp
  with i2 out p(2) a n show ?thesis by (auto simp: indices_inv_def note_indices_def intro: le_SucI)
qed

lemma indices_open:
  assumes "indices_inv p0 st" "stepOpenChannel L R (seen, st) ac = Inr (seen', st')"
  shows "indices_inv p0 st'"
  using assms(2)
proof (cases rule: stepOpenChannel_E)
  case (fresh i p)
  then have "pool_nonce (t_pool st') r t = pool_nonce (t_pool st) r t \<and>
      nextChannelIndex (t_pool st') = nextChannelIndex (t_pool st) + 1" for r t
    using handleOpenChannel_nonce by blast
  with assms(1) fresh show ?thesis by (simp add: indices_inv_def)
qed (use assms(1) in simp)

interpretation indices: phase_invariant L R cfg opts actions "indices_inv p0" for L R cfg opts actions p0
proof
  fix st st' :: tstate and seen seen' ac r t f ad au an aw b b'
  assume I: "indices_inv p0 st"
  show "stepSetViewingKey L R st = Inr st' \<Longrightarrow> indices_inv p0 st'"
    using I by (elim stepSetViewingKey_E) (auto intro: indices_same dest: handleSetViewingKey_nonce)
  show "stepOpenChannel L R (seen, st) ac = Inr (seen', st') \<Longrightarrow> indices_inv p0 st'"
    using I by (rule indices_open)
  show "transformOpenSubchannel L R opts r t f st = Inr st' \<Longrightarrow> indices_inv p0 st'"
    using I by (auto intro: indices_same dest: sub_nonce sub_frame)
  show "stepDeposit L st ad = Inr st' \<Longrightarrow> indices_inv p0 st'"
    using I by (elim stepDeposit_E) (auto intro: indices_same)
  show "stepUseNote L st au = Inr st' \<Longrightarrow> indices_inv p0 st'"
    using I by (elim stepUseNote_E)
      (auto intro!: indices_same [OF I] simp: pool_nonce_def getChannel_def dest: handleUseNote_channels)
  show "stepCreateNote L R opts st an = Inr st' \<Longrightarrow> indices_inv p0 st'"
    using I by (rule indices_create)
  show "stepWithdraw L R st aw = Inr st' \<Longrightarrow> indices_inv p0 st'"
    using I by (elim stepWithdraw_E) (auto intro: indices_same)
  show "a_invoke actions = Some b \<Longrightarrow> stepInvoke L cfg b st = Inr st' \<Longrightarrow> indices_inv p0 st'"
    using I by (elim stepInvoke_E) (auto intro: indices_same)
  show "a_computeAndInvoke actions = Some b' \<Longrightarrow> stepComputeAndInvoke L cfg b' st = Inr st' \<Longrightarrow> indices_inv p0 st'"
    using I by (elim stepComputeAndInvoke_E) (auto intro: indices_same)
qed

lemma indices_start: "indices_inv p0 \<lparr>t_pool = p0, t_out = no_client_actions, t_ctr = n\<rparr>"
  by (simp add: indices_inv_def no_client_actions_def note_indices_def)

section \<open>Subchannels\<close>

definition pool_tokens :: "PoolSimulator \<Rightarrow> int \<Rightarrow> int list" where
  "pool_tokens p r = (case getChannel p r of None \<Rightarrow> [] | Some c \<Rightarrow> jm_keys (tokens c))"

definition opened_in :: "ClientAction list \<Rightarrow> int \<Rightarrow> OpenSubchannelInput list" where
  "opened_in as r = concat (map (\<lambda>a. case a of OpenSubchannel i \<Rightarrow> if osi_recipient_addr i = r then [i] else [] | _ \<Rightarrow> []) as)"

text \<open>
  The tokens of a channel are those it started with followed by the ones opened, each opened one at
  the index that was the number of subchannels before it; created notes use those tokens only.
\<close>

definition created_in :: "PoolSimulator \<Rightarrow> ClientAction list \<Rightarrow> bool" where
  "created_in p as = (\<forall>a \<in> set as. snd (create_key a) \<in> set (pool_tokens p (fst (create_key a))))"

lemma created_in_mono:
  "created_in p as \<Longrightarrow> (\<And>r. set (pool_tokens p r) \<subseteq> set (pool_tokens p' r)) \<Longrightarrow> created_in p' as"
  by (auto simp: created_in_def)

definition sub_inv :: "PoolSimulator \<Rightarrow> tstate \<Rightarrow> bool" where
  "sub_inv p0 st = ((\<forall>r. pool_tokens (t_pool st) r =
       pool_tokens p0 r @ map osi_token (opened_in (ca_openTokenChannels (t_out st)) r) \<and>
     map osi_index (opened_in (ca_openTokenChannels (t_out st)) r)
       = [length (pool_tokens p0 r) ..< length (pool_tokens (t_pool st) r)]) \<and>
     created_in (t_pool st) (ca_createNotes (t_out st)))"

lemma opened_in_snoc:
  "opened_in (as @ [OpenSubchannel i]) r = opened_in as r @ (if osi_recipient_addr i = r then [i] else [])"
  by (simp add: opened_in_def)

lemma sub_same:
  "sub_inv p0 st \<Longrightarrow> (\<And>r. pool_tokens (t_pool st') r = pool_tokens (t_pool st) r) \<Longrightarrow>
   ca_openTokenChannels (t_out st') = ca_openTokenChannels (t_out st) \<Longrightarrow>
   ca_createNotes (t_out st') = ca_createNotes (t_out st) \<Longrightarrow> sub_inv p0 st'"
  using created_in_mono [of "t_pool st" "ca_createNotes (t_out st)" "t_pool st'"]
  unfolding sub_inv_def by simp

lemma handleSetViewingKey_tokens: "handleSetViewingKey L p i = Inr p' \<Longrightarrow> pool_tokens p' r = pool_tokens p r"
  by (auto simp: handleSetViewingKey_def step_simps pool_tokens_def getChannel_def jm_has_def
      new_Channel_def jm_of_entries_def)

lemma handleOpenChannel_tokens: "handleOpenChannel L p i = Inr p' \<Longrightarrow> pool_tokens p' r = pool_tokens p r"
  by (auto simp: handleOpenChannel_def step_simps pool_tokens_def getChannel_def)

lemma sub_tokens:
  assumes "sub_inv p0 st" "transformOpenSubchannel L R opts r t f st = Inr st'"
  shows "sub_inv p0 st'"
  using assms(2)
proof (cases rule: transformOpenSubchannel_E)
  case (opened c i p)
  have app: "pool_tokens p r' = pool_tokens (t_pool st) r' @ (if r' = r then [t] else [])" for r'
    using opened by (auto simp: handleOpenSubchannel_def step_simps pool_tokens_def getChannel_def jm_keys_set)
  have "created_in p (ca_createNotes (t_out st))"
    by (rule created_in_mono [of "t_pool st"]) (use assms(1) app in \<open>auto simp: sub_inv_def\<close>)
  moreover note app
  moreover have "osi_index i = length (pool_tokens (t_pool st) r)" using opened by (simp add: pool_tokens_def)
  moreover have "length (pool_tokens p0 r) \<le> length (pool_tokens (t_pool st) r)"
    using assms(1) by (auto simp: sub_inv_def)
  ultimately show ?thesis
    using assms(1) opened unfolding sub_inv_def by (simp add: opened_in_snoc)
qed (use assms(1) in simp)

lemma sub_present:
  assumes "transformOpenSubchannel L R opts r t f st = Inr st'" "f \<or> autoSetup opts"
  shows "t \<in> set (pool_tokens (t_pool st') r)"
  using assms(1)
proof (cases rule: transformOpenSubchannel_E)
  case (present c)
  with assms(2) show ?thesis by (auto simp: pool_tokens_def jm_has_image)
next
  case (opened c i p)
  then show ?thesis by (auto simp: handleOpenSubchannel_def step_simps pool_tokens_def getChannel_def)
qed

lemma readNonce_tokens:
  "readNonce st r t = Inr (n, pk, st') \<Longrightarrow> t \<in> set (pool_tokens (t_pool st) r) \<Longrightarrow>
   pool_tokens (t_pool st') r' = pool_tokens (t_pool st) r'"
  by (elim readNonce_E)
    (auto simp: pool_tokens_def getChannel_def jm_get_default_def jm_get_None_keys
      split: option.splits simp del: list.set_map)

lemma bumpNonce_tokens:
  assumes "bumpNonce p r t = Inr p'" "t \<in> set (pool_tokens p r)"
  shows "pool_tokens p' r' = pool_tokens p r'"
proof -
  from assms(1) obtain c where g: "jm_get (p_channels p) r = Some c" by (auto simp: bumpNonce_def step_simps)
  then have c: "jm_get (p_channels p) r = Some c" "jm_has (tokens c) t"
    using assms(2) by (simp_all add: pool_tokens_def getChannel_def jm_has_image)
  then have "jm_keys (tokens (fst (incrementNoteNonce c t))) = jm_keys (tokens c)"
    by (auto simp: incrementNoteNonce_def jm_get_default_def jm_keys_set jm_has_def split: option.splits prod.splits)
  with assms c show ?thesis by (auto simp: bumpNonce_def pool_tokens_def getChannel_def)
qed

lemma create_bump:
  assumes "is_create a" "pool_execute L p a = Inr p'"
  obtains q where "bumpNonce p (fst (create_key a)) (snd (create_key a)) = Inr q" "p_channels p' = p_channels q"
proof (cases a)
  case (CreateEncNote i)
  with assms(2) obtain q where q: "bumpNonce p (cei_recipient_addr i) (cei_token i) = Inr q"
    by (auto simp: handleCreateEncNote_def bindR_eq_Inr)
  obtain ns m where d: "jm_get_default (p_notes q) (cei_token i) [] = (ns, m)" by fastforce
  have "p_channels p' = p_channels q"
    using assms(2) CreateEncNote q d
    by (auto simp: handleCreateEncNote_def bindR_eq_Inr Let_def split: if_splits)
  with CreateEncNote q that show ?thesis by simp
next
  case (CreateOpenNote i)
  with assms(2) that show ?thesis by (simp add: handleCreateOpenNote_def)
qed (use assms(1) in \<open>auto simp: is_create_def\<close>)

lemma sub_create:
  assumes "autoSetup opts" "sub_inv p0 st" "stepCreateNote L R opts st an = Inr st'"
  shows "sub_inv p0 st'"
  using assms(3)
proof (rule stepCreateNote_E)
  fix st1 n pk st2 a p
  assume s: "transformOpenSubchannel L R opts (c_recipient an) (c_token an) False st = Inr st1"
    and rn: "readNonce st1 (c_recipient an) (c_token an) = Inr (n, pk, st2)"
    and a: "a = createNoteInput R an n pk (t_ctr st2)"
    and p: "pool_execute L (t_pool st2) a = Inr p" "t_pool st' = p"
    and out: "t_out st' = (t_out st2)\<lparr>ca_createNotes := ca_createNotes (t_out st2) @ [a]\<rparr>"
  have 1: "sub_inv p0 st1" using assms(2) s by (rule sub_tokens)
  have t: "c_token an \<in> set (pool_tokens (t_pool st1) (c_recipient an))"
    using s assms(1) by (simp add: sub_present)
  have 2: "pool_tokens (t_pool st2) r = pool_tokens (t_pool st1) r" for r by (rule readNonce_tokens [OF rn t])
  obtain q where q: "bumpNonce (t_pool st2) (c_recipient an) (c_token an) = Inr q" "p_channels p = p_channels q"
    using create_bump [OF _ p(1)] a by auto
  have 3: "pool_tokens p r = pool_tokens (t_pool st2) r" for r
  proof -
    have "pool_tokens p r = pool_tokens q r" using q(2) by (simp add: pool_tokens_def getChannel_def)
    also have "\<dots> = pool_tokens (t_pool st2) r" using q(1) by (rule bumpNonce_tokens) (use t 2 in simp)
    finally show ?thesis .
  qed
  have "created_in p (ca_createNotes (t_out st1))"
    by (rule created_in_mono [of "t_pool st1"]) (use 1 2 3 in \<open>auto simp: sub_inv_def\<close>)
  then have "created_in p (ca_createNotes (t_out st1) @ [a])"
    using a t 2 3 by (auto simp: created_in_def)
  moreover have "t_out st2 = t_out st1" using rn by (rule readNonce_E)
  ultimately show ?thesis using 1 2 3 p(2) out unfolding sub_inv_def by simp
qed

definition sub_inv_auto :: "ExecuteOptions \<Rightarrow> PoolSimulator \<Rightarrow> tstate \<Rightarrow> bool" where
  "sub_inv_auto opts p0 st = (autoSetup opts \<longrightarrow> sub_inv p0 st)"

interpretation subs: phase_invariant L R cfg opts actions "sub_inv_auto opts p0" for L R cfg opts actions p0
proof
  fix st st' :: tstate and seen seen' ac r t f ad au an aw b b'
  assume I: "sub_inv_auto opts p0 st"
  note same = sub_same [of p0 st st']
  show "stepSetViewingKey L R st = Inr st' \<Longrightarrow> sub_inv_auto opts p0 st'"
    using I unfolding sub_inv_auto_def
    by (elim stepSetViewingKey_E) (auto intro!: same dest: handleSetViewingKey_tokens)
  show "stepOpenChannel L R (seen, st) ac = Inr (seen', st') \<Longrightarrow> sub_inv_auto opts p0 st'"
    using I unfolding sub_inv_auto_def
    by (elim stepOpenChannel_E) (auto intro!: same dest: handleOpenChannel_tokens)
  show "transformOpenSubchannel L R opts r t f st = Inr st' \<Longrightarrow> sub_inv_auto opts p0 st'"
    using I unfolding sub_inv_auto_def by (auto intro: sub_tokens)
  show "stepDeposit L st ad = Inr st' \<Longrightarrow> sub_inv_auto opts p0 st'"
    using I unfolding sub_inv_auto_def by (elim stepDeposit_E) (auto intro: same)
  show "stepUseNote L st au = Inr st' \<Longrightarrow> sub_inv_auto opts p0 st'"
    using I unfolding sub_inv_auto_def
    by (elim stepUseNote_E) (auto intro!: same simp: pool_tokens_def getChannel_def dest: handleUseNote_channels)
  show "stepCreateNote L R opts st an = Inr st' \<Longrightarrow> sub_inv_auto opts p0 st'"
    using I unfolding sub_inv_auto_def by (auto intro: sub_create)
  show "stepWithdraw L R st aw = Inr st' \<Longrightarrow> sub_inv_auto opts p0 st'"
    using I unfolding sub_inv_auto_def by (elim stepWithdraw_E) (auto intro: same)
  show "a_invoke actions = Some b \<Longrightarrow> stepInvoke L cfg b st = Inr st' \<Longrightarrow> sub_inv_auto opts p0 st'"
    using I unfolding sub_inv_auto_def by (elim stepInvoke_E) (auto intro: same)
  show "a_computeAndInvoke actions = Some b' \<Longrightarrow> stepComputeAndInvoke L cfg b' st = Inr st' \<Longrightarrow> sub_inv_auto opts p0 st'"
    using I unfolding sub_inv_auto_def by (elim stepComputeAndInvoke_E) (auto intro: same)
qed

lemma subs_start: "sub_inv_auto opts p0 \<lparr>t_pool = p0, t_out = no_client_actions, t_ctr = n\<rparr>"
  by (simp add: sub_inv_auto_def sub_inv_def no_client_actions_def opened_in_def created_in_def)

section \<open>Well-formed pools along the phases\<close>

lemma readNonce_wf: "pool_wf (t_pool st) \<Longrightarrow> readNonce st r t = Inr (n, pk, st') \<Longrightarrow> pool_wf (t_pool st')"
  by (elim readNonce_E)
    (auto simp: pool_wf_def getChannel_def channel_wf_def jm_get_default_def
      intro!: channels_wf_set dest: channels_wf_get split: option.splits)

interpretation wf: phase_invariant L R cfg opts actions "\<lambda>st. pool_wf (t_pool st)" for L R cfg opts actions
proof
  fix st st' :: tstate and seen seen' ac r t f ad au an aw b b'
  assume I: "pool_wf (t_pool st)"
  show "stepSetViewingKey L R st = Inr st' \<Longrightarrow> pool_wf (t_pool st')"
    using I by (elim stepSetViewingKey_E) (auto intro: handlers_wf)
  show "stepOpenChannel L R (seen, st) ac = Inr (seen', st') \<Longrightarrow> pool_wf (t_pool st')"
    using I by (elim stepOpenChannel_E) (auto intro: handlers_wf)
  show sub: "transformOpenSubchannel L R opts r t f st = Inr st' \<Longrightarrow> pool_wf (t_pool st')" for r t f st'
    using I by (elim transformOpenSubchannel_E) (auto intro: handlers_wf)
  show "stepDeposit L st ad = Inr st' \<Longrightarrow> pool_wf (t_pool st')"
    using I by (elim stepDeposit_E) simp
  show "stepUseNote L st au = Inr st' \<Longrightarrow> pool_wf (t_pool st')"
    using I by (elim stepUseNote_E) (auto intro: handlers_wf)
  show "stepCreateNote L R opts st an = Inr st' \<Longrightarrow> pool_wf (t_pool st')"
    by (elim stepCreateNote_E) (auto intro: execute_wf readNonce_wf dest: sub)
  show "stepWithdraw L R st aw = Inr st' \<Longrightarrow> pool_wf (t_pool st')"
    using I by (elim stepWithdraw_E) simp
  show "a_invoke actions = Some b \<Longrightarrow> stepInvoke L cfg b st = Inr st' \<Longrightarrow> pool_wf (t_pool st')"
    using I by (elim stepInvoke_E) simp
  show "a_computeAndInvoke actions = Some b' \<Longrightarrow> stepComputeAndInvoke L cfg b' st = Inr st' \<Longrightarrow> pool_wf (t_pool st')"
    using I by (elim stepComputeAndInvoke_E) simp
qed

end
