(* ===== verification/Samples.thy ===== *)
theory Samples
  imports Compiler
begin

text \<open>
  A concrete compilation: a deposit with a private and an open note for a recipient, and a withdrawal
  that has to be covered from the registry. The witnesses of the compiler's properties run on it.
  \<open>reorg_provider\<close> fails its channel discovery with a reorg.
\<close>

definition sample_cfg :: CompilerCfg where
  "sample_cfg = \<lparr>cfg_userAddress = 1, cfg_userViewingKey = BNBigint 7, cfg_poolAddress = 99\<rparr>"

definition sample_rng :: "nat \<Rightarrow> rng" where
  "sample_rng k = \<lparr>generateRandom = (\<lambda>n. int n + 3), genRandom120 = (\<lambda>n. int n + 4)\<rparr>"

definition sample_channel :: Channel where
  "sample_channel = \<lparr>publicKey = BNBigint 5, key = None, tokens = []\<rparr>"

definition sample_provider :: DiscoveryProvider where
  "sample_provider = \<lparr>
     discoverNotes = (\<lambda>addr vk params. Inr \<lparr>nr_timestamp = BlockNumber 3, nr_notes = [],
        nr_cursor = \<lparr>nc_blockId = BlockNumber 3, incomingChannels = []\<rparr>\<rparr>),
     discoverChannels = (\<lambda>addr vk filter params. Inr \<lparr>cr_timestamp = BlockNumber 3,
        cr_channels = (case filter of Recipients rs \<Rightarrow> Some (map (\<lambda>r. (r, sample_channel)) rs) | _ \<Rightarrow> None),
        cr_total = Some 4\<rparr>)\<rparr>"

definition reorg_provider :: DiscoveryProvider where
  "reorg_provider = sample_provider\<lparr>discoverChannels := (\<lambda>addr vk filter params. Inl (ReorgError ''reorg''))\<rparr>"

definition sample_note :: Note where
  "sample_note = \<lparr>n_id = BNBigint 77, n_amount = 5, n_created = None,
     n_witness = \<lparr>w_channelKey = 11, w_nonce = 2, w_r = 6\<rparr>, n_viewingKey = None, n_sender = BNBigint 2, n_open = None\<rparr>"

definition sample_registry :: PrivateRegistry where
  "sample_registry = \<lparr>reg_channels = [], reg_notes = [(9, [sample_note])], reg_notes_factory = True, reg_cursor = None\<rparr>"

definition sample_opts :: ExecuteOptions where
  "sample_opts = no_options\<lparr>autoSetup := True, autoSelectNotes := Some SelectNaive, o_registry := Some sample_registry\<rparr>"

definition sample_actions :: Actions where
  "sample_actions = no_actions\<lparr>
     a_deposits := Some [\<lparr>d_token = 8, d_amount = 10, d_noteId = None\<rparr>],
     a_withdraws := Some [\<lparr>wd_recipient = 50, wd_token = 9, wd_amount = 5\<rparr>],
     a_createNotes := Some [\<lparr>c_recipient = 2, c_token = 8, c_amount = Amt 7\<rparr>, \<lparr>c_recipient = 2, c_token = 8, c_amount = Open\<rparr>]\<rparr>"

definition reorg_then_sample :: "nat \<Rightarrow> DiscoveryProvider" where
  "reorg_then_sample k = (if k = 0 then reorg_provider else sample_provider)"

definition sample_pool :: PoolSimulator where
  "sample_pool = setupChannel (setupChannel (new_PoolSimulator 1 7 4) 1 sample_channel) 2
     (sample_channel\<lparr>key := Some 6, tokens := [(3, \<lparr>tokenIndex = 0, noteNonce = 5\<rparr>)]\<rparr>)"

definition sample_transform :: "Actions \<times> (ClientAction list \<times> PoolSimulator) result" where
  "sample_transform = transformToClientActions sample_lib (sample_rng 0) sample_cfg sample_opts sample_actions
     sample_pool (getRecipientsNeeded sample_cfg sample_actions)"

definition sample_run :: "Actions \<times> CompileResult result" where
  "sample_run = compile sample_lib sample_rng sample_cfg (\<lambda>_. sample_provider) sample_actions sample_opts"

definition reorg_run :: "Actions \<times> CompileResult result" where
  "reorg_run = compile sample_lib sample_rng sample_cfg reorg_then_sample sample_actions sample_opts"

lemma sample_run_ok: "\<not> isl (snd sample_run)"
  by code_simp

lemma sample_transform_ok: "\<not> isl (snd sample_transform)"
  by code_simp

lemma sample_run_eq:
  "compile sample_lib sample_rng sample_cfg (\<lambda>_. sample_provider) sample_actions sample_opts
     = (fst sample_run, Inr (projr (snd sample_run)))"
  using sample_run_ok by (cases sample_run) (auto simp: sample_run_def [symmetric])

lemma sample_transform_eq:
  "transformToClientActions sample_lib (sample_rng 0) sample_cfg sample_opts sample_actions
     sample_pool (getRecipientsNeeded sample_cfg sample_actions)
     = (fst sample_transform, Inr (fst (projr (snd sample_transform)), snd (projr (snd sample_transform))))"
  using sample_transform_ok by (cases sample_transform) (auto simp: sample_transform_def [symmetric])

end
