(* ===== verification/Compiler_Output.thy ===== *)
theory Compiler_Output
  imports Compiler_Phases Samples
begin

text \<open>
  The client actions a successful compilation returns: their order, their correspondence with the
  requested actions, the indices of channels and notes, and the warnings.
\<close>

section \<open>Recorded actions\<close>

lemma foldR_update:
  "(\<And>st x st'. step st x = Inr st' \<Longrightarrow> g st' = k x (g st)) \<Longrightarrow> foldR step st xs = Inr st' \<Longrightarrow>
   g st' = fold k xs (g st)"
  by (induction xs arbitrary: st) (auto simp: bindR_eq_Inr)

lemma fold_id [simp]: "fold (\<lambda>x. id) xs = id"
  by (induction xs) auto

lemma fold_apfst: "fold (\<lambda>x. apfst (f x)) xs = apfst (fold f xs)"
  by (induction xs) (auto simp: fun_eq_iff apfst_def)

lemma fold_apsnd: "fold (\<lambda>x. apsnd (f x)) xs = apsnd (fold f xs)"
  by (induction xs) (auto simp: fun_eq_iff apsnd_def)

lemma fold_snoc: "fold (\<lambda>x ys. ys @ [h x]) xs = (\<lambda>ys. ys @ map h xs)"
  by (induction xs) (auto simp: fun_eq_iff)

lemmas fold_lists = fold_apfst fold_apsnd fold_snoc

fun created :: "ClientAction \<Rightarrow> CreateNoteAction" where
  "created (CreateEncNote i) = \<lparr>c_recipient = cei_recipient_addr i, c_token = cei_token i, c_amount = Amt (cei_amount i)\<rparr>"
| "created (CreateOpenNote i) = \<lparr>c_recipient = coi_recipient_addr i, c_token = coi_token i, c_amount = Open\<rparr>"
| "created _ = \<lparr>c_recipient = 0, c_token = 0, c_amount = Open\<rparr>"

fun withdrawn :: "ClientAction \<Rightarrow> WithdrawAction" where
  "withdrawn (Withdraw i) = \<lparr>wd_recipient = wi_to_addr i, wd_token = wi_token i, wd_amount = wi_amount i\<rparr>"
| "withdrawn _ = \<lparr>wd_recipient = 0, wd_token = 0, wd_amount = 0\<rparr>"

definition at_phase :: "nat \<Rightarrow> ClientAction list \<Rightarrow> ClientAction list" where
  "at_phase n cas = filter (\<lambda>a. phase a = n) cas"

text \<open>The client actions spell out the requested deposits, spends, notes and withdrawals, in order.\<close>

definition emits :: "Actions \<Rightarrow> ClientAction list \<Rightarrow> bool" where
  "emits actions cas =
     (at_phase 4 cas = map depositInput (optl (a_deposits actions)) \<and>
      at_phase 5 cas = map (UseNote \<circ> useNoteInput) (optl (a_useNotes actions)) \<and>
      map created (at_phase 6 cas) = optl (a_createNotes actions) \<and>
      map withdrawn (at_phase 7 cas) = optl (a_withdraws actions))"

lemma created_createNoteInput [simp]: "created (createNoteInput R a n pk c) = a"
  by (cases a) (simp add: createNoteInput_def split: Amount.split)

lemma withdrawn_eta [simp]:
  "\<lparr>wd_recipient = wd_recipient a, wd_token = wd_token a, wd_amount = wd_amount a\<rparr> = (a :: WithdrawAction)"
  by (cases a) simp

definition lists_of :: "tstate \<Rightarrow> ClientAction list \<times> ClientAction list \<times> CreateNoteAction list \<times> WithdrawAction list" where
  "lists_of st = (ca_deposits (t_out st), ca_useNotes (t_out st), map created (ca_createNotes (t_out st)),
     map withdrawn (ca_withdraws (t_out st)))"

lemma svk_lists: "stepSetViewingKey L R st = Inr st' \<Longrightarrow> lists_of st' = lists_of st"
  by (elim stepSetViewingKey_E) (simp add: lists_of_def)

lemma oc_lists: "stepOpenChannel L R s x = Inr s' \<Longrightarrow> lists_of (snd s') = id (lists_of (snd s))"
  by (cases s; cases s') (auto simp: lists_of_def elim!: stepOpenChannel_E)

lemma sub_lists: "transformOpenSubchannel L R opts r t f st = Inr st' \<Longrightarrow> lists_of st' = id (lists_of st)"
  by (simp add: sub_frame lists_of_def)

lemma dep_lists: "stepDeposit L st a = Inr st' \<Longrightarrow>
  lists_of st' = apfst (\<lambda>ds. ds @ [depositInput a]) (lists_of st)"
  by (elim stepDeposit_E) (simp add: lists_of_def)

lemma use_lists: "stepUseNote L st a = Inr st' \<Longrightarrow>
  lists_of st' = apsnd (apfst (\<lambda>us. us @ [(UseNote \<circ> useNoteInput) a])) (lists_of st)"
  by (elim stepUseNote_E) (simp add: lists_of_def)

lemma create_lists: "stepCreateNote L R opts st a = Inr st' \<Longrightarrow>
  lists_of st' = apsnd (apsnd (apfst (\<lambda>cs. cs @ [id a]))) (lists_of st)"
  by (elim stepCreateNote_E readNonce_E) (simp add: sub_frame lists_of_def)

lemma wd_lists: "stepWithdraw L R st a = Inr st' \<Longrightarrow>
  lists_of st' = apsnd (apsnd (apsnd (\<lambda>ws. ws @ [id a]))) (lists_of st)"
  by (auto simp: stepWithdraw_def step_simps lists_of_def)

lemma invoke_lists: "stepInvoke L cfg b st = Inr st' \<Longrightarrow> lists_of st' = lists_of st"
  by (elim stepInvoke_E) (simp add: lists_of_def)

lemma compute_lists: "stepComputeAndInvoke L cfg b' st = Inr st' \<Longrightarrow> lists_of st' = lists_of st"
  by (elim stepComputeAndInvoke_E) (simp add: lists_of_def)

lemma runPhases_lists:
  assumes "runPhases L R cfg opts actions st = Inr st'" "lists_of st = ([], [], [], [])"
  shows "lists_of st' = (map depositInput (optl (a_deposits actions)), map (UseNote \<circ> useNoteInput) (optl (a_useNotes actions)),
           optl (a_createNotes actions), optl (a_withdraws actions))"
  using assms(1)
proof (rule runPhases_E)
  fix s1 seen s2 s3 s4 s5 s6 s7 s8
  assume r: "(if a_setViewingKey actions then stepSetViewingKey L R st else Inr st) = Inr s1"
    "foldR (stepOpenChannel L R) ([], s1) (optl (a_openChannels actions)) = Inr (seen, s2)"
    "foldR (\<lambda>st a. transformOpenSubchannel L R opts (ot_recipient a) (ot_token a) True st) s2
       (optl (a_openTokenChannels actions)) = Inr s3"
    "foldR (stepDeposit L) s3 (optl (a_deposits actions)) = Inr s4"
    "foldR (stepUseNote L) s4 (optl (a_useNotes actions)) = Inr s5"
    "foldR (stepCreateNote L R opts) s5 (optl (a_createNotes actions)) = Inr s6"
    "foldR (stepWithdraw L R) s6 (optl (a_withdraws actions)) = Inr s7"
    "(case a_invoke actions of None \<Rightarrow> Inr s7 | Some b \<Rightarrow> stepInvoke L cfg b s7) = Inr s8"
    "(case a_computeAndInvoke actions of None \<Rightarrow> Inr s8 | Some b \<Rightarrow> stepComputeAndInvoke L cfg b s8) = Inr st'"
  have "lists_of s1 = lists_of st" using r(1) by (auto split: if_splits dest: svk_lists)
  moreover have "lists_of s2 = lists_of s1"
    using foldR_update [where g = "\<lambda>s. lists_of (snd s)" and k = "\<lambda>_. id", OF oc_lists r(2)] by simp
  moreover have "lists_of s3 = lists_of s2"
    using foldR_update [where g = lists_of and k = "\<lambda>_. id", OF sub_lists r(3)] by simp
  moreover note foldR_update [where g = lists_of and k = "\<lambda>a. apfst (\<lambda>ds. ds @ [depositInput a])", OF dep_lists r(4)]
    foldR_update [where g = lists_of and k = "\<lambda>a. apsnd (apfst (\<lambda>us. us @ [(UseNote \<circ> useNoteInput) a]))",
      OF use_lists r(5)]
    foldR_update [where g = lists_of and k = "\<lambda>a. apsnd (apsnd (apfst (\<lambda>cs. cs @ [id a])))", OF create_lists r(6)]
    foldR_update [where g = lists_of and k = "\<lambda>a. apsnd (apsnd (apsnd (\<lambda>ws. ws @ [id a])))", OF wd_lists r(7)]
  moreover have "lists_of s8 = lists_of s7" using r(8) by (auto split: option.splits dest: invoke_lists)
  moreover have "lists_of st' = lists_of s8" using r(9) by (auto split: option.splits dest: compute_lists)
  ultimately show ?thesis using assms(2) by (simp only: fold_lists) simp
qed

section \<open>Opened channels\<close>

definition open_recipients :: "ClientAction list \<Rightarrow> int list" where
  "open_recipients as = concat (map (\<lambda>a. case a of OpenChannel i \<Rightarrow> [oci_recipient_addr i] | _ \<Rightarrow> []) as)"

definition open_indices :: "ClientAction list \<Rightarrow> nat list" where
  "open_indices as = concat (map (\<lambda>a. case a of OpenChannel i \<Rightarrow> [oci_index i] | _ \<Rightarrow> []) as)"

definition seen_inv :: "int list \<times> tstate \<Rightarrow> bool" where
  "seen_inv s = (open_recipients (ca_openChannels (t_out (snd s))) = rev (fst s) \<and> distinct (fst s))"

interpretation seen: fold_invariant "stepOpenChannel L R" seen_inv for L R
proof
  fix s s' :: "int list \<times> tstate" and x
  assume "seen_inv s" "stepOpenChannel L R s x = Inr s'"
  then show "seen_inv s'"
    by (cases s; cases s') (auto simp: seen_inv_def open_recipients_def elim!: stepOpenChannel_E)
qed

lemma later_openChannels:
  "transformOpenSubchannel L R opts r t f st = Inr st' \<Longrightarrow> ca_openChannels (t_out st') = id (ca_openChannels (t_out st))"
  "stepDeposit L st ad = Inr st' \<Longrightarrow> ca_openChannels (t_out st') = id (ca_openChannels (t_out st))"
  "stepUseNote L st au = Inr st' \<Longrightarrow> ca_openChannels (t_out st') = id (ca_openChannels (t_out st))"
  "stepCreateNote L R opts st an = Inr st' \<Longrightarrow> ca_openChannels (t_out st') = id (ca_openChannels (t_out st))"
  "stepWithdraw L R st aw = Inr st' \<Longrightarrow> ca_openChannels (t_out st') = id (ca_openChannels (t_out st))"
  "stepInvoke L cfg b st = Inr st' \<Longrightarrow> ca_openChannels (t_out st') = id (ca_openChannels (t_out st))"
  "stepComputeAndInvoke L cfg b' st = Inr st' \<Longrightarrow> ca_openChannels (t_out st') = id (ca_openChannels (t_out st))"
  by (auto simp: sub_frame create_frame elim: stepDeposit_E stepUseNote_E stepWithdraw_E stepInvoke_E
      stepComputeAndInvoke_E)

lemma runPhases_openChannels:
  assumes "runPhases L R cfg opts actions st = Inr st'" "ca_openChannels (t_out st) = []"
  shows "distinct (open_recipients (ca_openChannels (t_out st')))"
  using assms(1)
proof (rule runPhases_E)
  fix s1 seen s2 s3 s4 s5 s6 s7 s8
  let ?g = "\<lambda>st. ca_openChannels (t_out st)"
  note upd = foldR_update [where g = ?g and k = "\<lambda>_. id"]
  assume r: "(if a_setViewingKey actions then stepSetViewingKey L R st else Inr st) = Inr s1"
    "foldR (stepOpenChannel L R) ([], s1) (optl (a_openChannels actions)) = Inr (seen, s2)"
    "foldR (\<lambda>st a. transformOpenSubchannel L R opts (ot_recipient a) (ot_token a) True st) s2
       (optl (a_openTokenChannels actions)) = Inr s3"
    "foldR (stepDeposit L) s3 (optl (a_deposits actions)) = Inr s4"
    "foldR (stepUseNote L) s4 (optl (a_useNotes actions)) = Inr s5"
    "foldR (stepCreateNote L R opts) s5 (optl (a_createNotes actions)) = Inr s6"
    "foldR (stepWithdraw L R) s6 (optl (a_withdraws actions)) = Inr s7"
    "(case a_invoke actions of None \<Rightarrow> Inr s7 | Some b \<Rightarrow> stepInvoke L cfg b s7) = Inr s8"
    "(case a_computeAndInvoke actions of None \<Rightarrow> Inr s8 | Some b \<Rightarrow> stepComputeAndInvoke L cfg b s8) = Inr st'"
  have "?g s1 = []" using r(1) assms(2) by (auto split: if_splits elim: stepSetViewingKey_E)
  then have "seen_inv ([], s1)" by (simp add: seen_inv_def open_recipients_def)
  then have "seen_inv (seen, s2)" using r(2) by (rule seen.run_inv)
  then have "distinct (open_recipients (?g s2))" by (simp add: seen_inv_def)
  moreover have "?g s3 = ?g s2" using upd [OF later_openChannels(1) r(3)] by simp
  moreover have "?g s4 = ?g s3" using upd [OF later_openChannels(2) r(4)] by simp
  moreover have "?g s5 = ?g s4" using upd [OF later_openChannels(3) r(5)] by simp
  moreover have "?g s6 = ?g s5" using upd [OF later_openChannels(4) r(6)] by simp
  moreover have "?g s7 = ?g s6" using upd [OF later_openChannels(5) r(7)] by simp
  moreover have "?g s8 = ?g s7" using r(8) by (auto split: option.splits dest: later_openChannels(6))
  moreover have "?g st' = ?g s8" using r(9) by (auto split: option.splits dest: later_openChannels(7))
  ultimately show ?thesis by simp
qed

section \<open>From compile to its phases\<close>

lemma compileOnce_E:
  assumes "compileOnce L R cfg D actions opts = (actions', Inr res)"
  obtains reg actions1 registry1 chs total vk pool pool' where
    "resolveNotes cfg D opts actions (startRegistry opts) = ((actions1, registry1), None)"
    "createPool cfg vk registry1 chs total = Inr pool"
    "transformToClientActions L R cfg opts actions1 pool (getRecipientsNeeded cfg actions) =
       (actions', Inr (clientActions res, pool'))"
    "res_registry res = updateRegistry pool' registry1" "res_warnings res = checkWarnings (clientActions res)"
  using assms
  by (auto simp: compileOnce_def Let_def bindR_eq_Inr
      split: prod.splits option.splits sum.splits)

lemma compile_E:
  assumes "compile L R cfg D actions opts = (actions', Inr res)"
  obtains (first) "compileOnce L (R 0) cfg (D 0) actions opts = (actions', Inr res)"
  | (retry) m actions1 where "compileOnce L (R 0) cfg (D 0) actions opts = (actions1, Inl (ReorgError m))"
      "compileOnce L (R 1) cfg (D 1) actions1 (clearedOptions opts) = (actions', Inr res)"
  using assms by (auto simp: compile_def split: prod.splits sum.splits error.splits)

lemma transform_E:
  assumes "transformToClientActions L R cfg opts actions pool rn = (actions', Inr (cas, pool'))"
  obtains n st where "prepareActions cfg opts pool rn actions = (actions', n)"
    "runPhases L R cfg opts actions' \<lparr>t_pool = pool, t_out = no_client_actions, t_ctr = n\<rparr> = Inr st"
    "cas = flatten (t_out st)" "pool' = t_pool st"
  using assms by (auto simp: transformToClientActions_def bindR_eq_Inr split: prod.splits)

lemma transform_typed:
  "transformToClientActions L R cfg opts actions pool rn = (actions', Inr (cas, pool')) \<Longrightarrow>
   \<exists>n st. runPhases L R cfg opts actions' \<lparr>t_pool = pool, t_out = no_client_actions, t_ctr = n\<rparr> = Inr st \<and>
     cas = flatten (t_out st) \<and> pool' = t_pool st \<and> out_typed (t_out st)"
proof (elim transform_E)
  fix n st
  assume run: "runPhases L R cfg opts actions' \<lparr>t_pool = pool, t_out = no_client_actions, t_ctr = n\<rparr> = Inr st"
    and "cas = flatten (t_out st)" "pool' = t_pool st"
  moreover have "out_typed (t_out st)" using run by (rule typed.runPhases_inv [rotated]) simp
  ultimately show ?thesis by blast
qed

lemma compile_transform:
  assumes "compile L R cfg D actions opts = (actions', Inr res)"
  shows "\<exists>R' opts' actions1 pool rn pool'. transformToClientActions L R' cfg opts' actions1 pool rn =
           (actions', Inr (clientActions res, pool')) \<and> res_warnings res = checkWarnings (clientActions res)"
  using assms by (elim compile_E compileOnce_E) blast+

lemma runs_emit:
  assumes "compile L R cfg D actions opts = (actions', Inr res)"
  shows "emits actions' (clientActions res)"
proof -
  from compile_transform [OF assms] obtain R' opts' actions1 pool rn pool' where
    "transformToClientActions L R' cfg opts' actions1 pool rn = (actions', Inr (clientActions res, pool'))" by blast
  from transform_typed [OF this] obtain n st where
    run: "runPhases L R' cfg opts' actions' \<lparr>t_pool = pool, t_out = no_client_actions, t_ctr = n\<rparr> = Inr st"
    and st: "clientActions res = flatten (t_out st)" "out_typed (t_out st)" by blast
  have "lists_of st = (map depositInput (optl (a_deposits actions')), map (UseNote \<circ> useNoteInput) (optl (a_useNotes actions')),
      optl (a_createNotes actions'), optl (a_withdraws actions'))"
    using run by (rule runPhases_lists) (simp add: lists_of_def no_client_actions_def)
  with st show ?thesis by (simp add: emits_def at_phase_def flatten_phase lists_of_def)
qed

section \<open>Properties\<close>

text \<open>
  C2: the client actions of a successful compilation are ordered by phase, as the pool contract
  demands (register, open channels, open subchannels, deposit, use notes, create notes, withdraw,
  invoke), and at most one of them is an invocation.
\<close>

theorem compile_phase_order:
  assumes "compile L R cfg D actions opts = (actions', Inr res)"
  shows "sorted (map phase (clientActions res)) \<and> length (filter (\<lambda>a. 8 \<le> phase a) (clientActions res)) \<le> 1"
proof -
  from compile_transform [OF assms] obtain R' opts' actions1 pool rn pool' where
    "transformToClientActions L R' cfg opts' actions1 pool rn = (actions', Inr (clientActions res, pool'))" by blast
  from transform_typed [OF this] obtain n st where
    run: "runPhases L R' cfg opts' actions' \<lparr>t_pool = pool, t_out = no_client_actions, t_ctr = n\<rparr> = Inr st"
    and st: "clientActions res = flatten (t_out st)" "out_typed (t_out st)" by blast
  have "invoke_asked actions' st"
    using run by (rule asked.runPhases_inv [rotated]) (simp add: invoke_asked_def no_client_actions_def)
  moreover have "a_invoke actions' = None \<or> a_computeAndInvoke actions' = None"
    using run by (rule runPhases_E)
  ultimately have "length (opt_list (ca_invoke (t_out st)) @ opt_list (ca_computeAndInvoke (t_out st))) \<le> 1"
    by (auto simp: invoke_asked_def opt_list_def split: option.splits)
  with st show ?thesis by (simp add: flatten_sorted flatten_phase)
qed

text \<open>
  C3: nothing is lost or invented: the deposits, spends, note creations and withdrawals among the
  client actions are those of the resolved \<open>actions\<close>, one for one, in order, with their recipients,
  tokens and amounts.
\<close>

theorem compile_emits:
  assumes "compile L R cfg D actions opts = (actions', Inr res)"
  shows "emits actions' (clientActions res)"
  using assms by (rule runs_emit)

text \<open>
  A warning is raised exactly when two or more channels are opened in one transaction, and then
  the opened channels have distinct recipients.
\<close>

theorem compile_warnings:
  assumes "compile L R cfg D actions opts = (actions', Inr res)"
  shows "(res_warnings res \<noteq> []) = (1 < length (open_recipients (clientActions res))) \<and>
         distinct (open_recipients (clientActions res))"
proof -
  have count: "length (filter (\<lambda>a. case a of OpenChannel _ \<Rightarrow> True | _ \<Rightarrow> False) as) = length (open_recipients as)" for as
    by (induction as) (auto simp: open_recipients_def split: ClientAction.splits)
  from compile_transform [OF assms] obtain R' opts' actions1 pool rn pool' where
    w: "res_warnings res = checkWarnings (clientActions res)" and
    "transformToClientActions L R' cfg opts' actions1 pool rn = (actions', Inr (clientActions res, pool'))" by blast
  from transform_typed [OF this(2)] obtain n st where
    run: "runPhases L R' cfg opts' actions' \<lparr>t_pool = pool, t_out = no_client_actions, t_ctr = n\<rparr> = Inr st"
    and st: "clientActions res = flatten (t_out st)" "out_typed (t_out st)" by blast
  have d: "distinct (open_recipients (ca_openChannels (t_out st)))"
    using run by (rule runPhases_openChannels) (simp add: no_client_actions_def)
  have only: "open_recipients as = open_recipients (filter (\<lambda>a. phase a = 2) as)" for as
    by (induction as) (auto simp: open_recipients_def split: ClientAction.splits)
  show ?thesis using d st w only [of "flatten (t_out st)"]
    by (simp add: checkWarnings_def count flatten_phase)
qed

text \<open>
  C8: the notes created in one (recipient, token) subchannel get consecutive indices, starting at the
  next free nonce the pool had for it; the pool ends at the next free one. No index is skipped or
  used twice.
\<close>

theorem transform_note_indices:
  assumes "transformToClientActions L R cfg opts actions pool rn = (actions', Inr (cas, pool'))"
  shows "note_indices (at_phase 6 cas) r t = [pool_nonce pool r t ..< pool_nonce pool' r t]"
proof -
  from transform_typed [OF assms] obtain n st where
    run: "runPhases L R cfg opts actions' \<lparr>t_pool = pool, t_out = no_client_actions, t_ctr = n\<rparr> = Inr st"
    and st: "cas = flatten (t_out st)" "pool' = t_pool st" "out_typed (t_out st)" by blast
  have "indices_inv pool st" using indices_start run by (rule indices.runPhases_inv)
  with st show ?thesis by (simp add: indices_inv_def at_phase_def flatten_phase)
qed

text \<open>
  C9: channels are opened at consecutive indices from the sender's current channel count on, and the
  pool's counter ends past the last one.
\<close>

theorem transform_channel_indices:
  assumes "transformToClientActions L R cfg opts actions pool rn = (actions', Inr (cas, pool'))"
  shows "open_indices cas = [nextChannelIndex pool ..< nextChannelIndex pool']"
proof -
  from transform_typed [OF assms] obtain n st where
    run: "runPhases L R cfg opts actions' \<lparr>t_pool = pool, t_out = no_client_actions, t_ctr = n\<rparr> = Inr st"
    and st: "cas = flatten (t_out st)" "pool' = t_pool st" "out_typed (t_out st)" by blast
  have inv: "indices_inv pool st" using indices_start run by (rule indices.runPhases_inv)
  have only: "open_indices as = map (\<lambda>a. case a of OpenChannel i \<Rightarrow> oci_index i | _ \<Rightarrow> 0) (filter (\<lambda>a. phase a = 2) as)" for as
    by (induction as) (auto simp: open_indices_def split: ClientAction.splits)
  from inv st show ?thesis by (simp add: only indices_inv_def flatten_phase)
qed

text \<open>
  with \<open>autoSetup\<close>, the subchannels opened for a recipient extend the known ones: their tokens are
  appended, their indices continue the count, no token is opened twice, and every created note's
  token is among the known and opened ones.
\<close>

theorem transform_subchannels:
  assumes "transformToClientActions L R cfg opts actions pool rn = (actions', Inr (cas, pool'))"
    and "autoSetup opts" "pool_wf pool"
  shows "pool_tokens pool' r = pool_tokens pool r @ map osi_token (opened_in cas r) \<and>
         map osi_index (opened_in cas r) = [length (pool_tokens pool r) ..< length (pool_tokens pool' r)] \<and>
         distinct (pool_tokens pool' r) \<and>
         created_in pool' (at_phase 6 cas)"
proof -
  from transform_typed [OF assms(1)] obtain n st where
    run: "runPhases L R cfg opts actions' \<lparr>t_pool = pool, t_out = no_client_actions, t_ctr = n\<rparr> = Inr st"
    and st: "cas = flatten (t_out st)" "pool' = t_pool st" "out_typed (t_out st)" by blast
  have "sub_inv_auto opts pool st" using subs_start run by (rule subs.runPhases_inv)
  then have inv: "sub_inv pool st" using assms(2) by (simp add: sub_inv_auto_def)
  have wf: "pool_wf (t_pool st)" using run by (rule wf.runPhases_inv [rotated]) (simp add: assms(3))
  have only: "opened_in as r = opened_in (filter (\<lambda>a. phase a = 3) as) r" for as
    by (induction as) (auto simp: opened_in_def split: ClientAction.splits)
  have "distinct (pool_tokens (t_pool st) r)"
    using channels_wf_get [of "p_channels (t_pool st)" r] wf
    by (auto simp: pool_tokens_def getChannel_def pool_wf_def channel_wf_def jm_wf_def split: option.splits)
  with inv st show ?thesis by (simp add: only [of "flatten (t_out st)"] flatten_phase sub_inv_def at_phase_def)
qed

section \<open>Witnesses\<close>

theorem compile_phase_order_witness:
  "sorted (map phase (clientActions (projr (snd sample_run)))) \<and>
   length (filter (\<lambda>a. 8 \<le> phase a) (clientActions (projr (snd sample_run)))) \<le> 1"
  by (rule compile_phase_order [OF sample_run_eq])

theorem compile_emits_witness: "emits (fst sample_run) (clientActions (projr (snd sample_run)))"
  by (rule compile_emits [OF sample_run_eq])

theorem compile_warnings_witness:
  "(res_warnings (projr (snd sample_run)) \<noteq> []) = (1 < length (open_recipients (clientActions (projr (snd sample_run))))) \<and>
   distinct (open_recipients (clientActions (projr (snd sample_run))))"
  by (rule compile_warnings [OF sample_run_eq])

theorem transform_note_indices_witness:
  "note_indices (at_phase 6 (fst (projr (snd sample_transform)))) 2 8
     = [pool_nonce sample_pool 2 8 ..< pool_nonce (snd (projr (snd sample_transform))) 2 8]"
  by (rule transform_note_indices [OF sample_transform_eq])

theorem transform_channel_indices_witness:
  "open_indices (fst (projr (snd sample_transform)))
     = [nextChannelIndex sample_pool ..< nextChannelIndex (snd (projr (snd sample_transform)))]"
  by (rule transform_channel_indices [OF sample_transform_eq])

lemma sample_pool_wf: "pool_wf sample_pool" "autoSetup sample_opts"
  by (simp_all add: sample_pool_def setupChannel_wf sample_opts_def)

theorem transform_subchannels_witness:
  "pool_tokens (snd (projr (snd sample_transform))) 2
     = pool_tokens sample_pool 2 @ map osi_token (opened_in (fst (projr (snd sample_transform))) 2) \<and>
   map osi_index (opened_in (fst (projr (snd sample_transform))) 2)
     = [length (pool_tokens sample_pool 2) ..< length (pool_tokens (snd (projr (snd sample_transform))) 2)] \<and>
   distinct (pool_tokens (snd (projr (snd sample_transform))) 2) \<and>
   created_in (snd (projr (snd sample_transform))) (at_phase 6 (fst (projr (snd sample_transform))))"
  by (rule transform_subchannels [OF sample_transform_eq sample_pool_wf(2,1)])

end
