(* ===== verification/Note_Resolution.thy ===== *)
theory Note_Resolution
  imports Compiler_Output
begin

text \<open>
  Properties of \<open>resolveNotes\<close>: the balances it starts from, the notes it selects, and the result that
  every token it touched is balanced. \<open>net\<close> is the reference definition, inputs minus outputs of a
  token, where a deposit into an open note and an open note count for nothing.
\<close>

section \<open>Net flow of a token\<close>

definition dep_sum :: "DepositAction list \<Rightarrow> int \<Rightarrow> int" where
  "dep_sum ds t = sum_list (map (\<lambda>d. if d_token d = t \<and> d_noteId d = None then d_amount d else 0) ds)"

definition use_sum :: "UseNoteAction list \<Rightarrow> int \<Rightarrow> int" where
  "use_sum us t = sum_list (map (\<lambda>u. if u_token u = t then n_amount (u_note u) else 0) us)"

definition wd_sum :: "WithdrawAction list \<Rightarrow> int \<Rightarrow> int" where
  "wd_sum ws t = sum_list (map (\<lambda>w. if wd_token w = t then wd_amount w else 0) ws)"

definition create_sum :: "CreateNoteAction list \<Rightarrow> int \<Rightarrow> int" where
  "create_sum cs t = sum_list (map (\<lambda>c. if c_token c = t then (case c_amount c of Amt a \<Rightarrow> a | Open \<Rightarrow> 0) else 0) cs)"

definition net :: "Actions \<Rightarrow> int \<Rightarrow> int" where
  "net a t = dep_sum (optl (a_deposits a)) t + use_sum (optl (a_useNotes a)) t
     - wd_sum (optl (a_withdraws a)) t - create_sum (optl (a_createNotes a)) t"

definition bal :: "balances \<Rightarrow> int \<Rightarrow> int" where
  "bal b t = (case jm_get b t of None \<Rightarrow> 0 | Some v \<Rightarrow> v)"

lemma bal_missing: "t \<notin> fst ` set b \<Longrightarrow> bal b t = 0"
  by (simp add: bal_def jm_get_def map_of_eq_None_iff [THEN iffD2])

lemma bal_update: "bal (bal_update b t a) t' = bal b t' + (if t' = t then a else 0)"
  by (auto simp: bal_update_def bal_def jm_get_default_def split: option.splits)

lemma bal_update_wf: "jm_wf b \<Longrightarrow> jm_wf (bal_update b t a)"
  by (auto simp: bal_update_def jm_get_default_def split: option.splits)

lemma sums_Cons:
  "dep_sum (d # ds) t = (if d_token d = t \<and> d_noteId d = None then d_amount d else 0) + dep_sum ds t"
  "use_sum (u # us) t = (if u_token u = t then n_amount (u_note u) else 0) + use_sum us t"
  "wd_sum (w # ws) t = (if wd_token w = t then wd_amount w else 0) + wd_sum ws t"
  "create_sum (c # cs) t = (if c_token c = t then (case c_amount c of Amt a \<Rightarrow> a | Open \<Rightarrow> 0) else 0) + create_sum cs t"
  by (simp_all add: dep_sum_def use_sum_def wd_sum_def create_sum_def)

lemma sums_Nil [simp]: "dep_sum [] t = 0" "use_sum [] t = 0" "wd_sum [] t = 0" "create_sum [] t = 0"
  by (simp_all add: dep_sum_def use_sum_def wd_sum_def create_sum_def)

lemma sums_append [simp]:
  "use_sum (us @ us') t = use_sum us t + use_sum us' t"
  "wd_sum (ws @ ws') t = wd_sum ws t + wd_sum ws' t"
  "create_sum (cs @ cs') t = create_sum cs t + create_sum cs' t"
  by (simp_all add: use_sum_def wd_sum_def create_sum_def)

lemma balDeposit_run:
  "foldR balDeposit b ds = Inr b' \<Longrightarrow> bal b' t = bal b t + dep_sum ds t \<and> (jm_wf b \<longrightarrow> jm_wf b')"
  by (induction ds arbitrary: b)
    (auto simp: bindR_eq_Inr assertR_eq_Inr balDeposit_def sums_Cons bal_update bal_update_wf split: if_splits)

lemma balUseNote_run:
  "foldR balUseNote (b, u) us = Inr (b', u') \<Longrightarrow> bal b' t = bal b t + use_sum us t \<and> (jm_wf b \<longrightarrow> jm_wf b')"
  by (induction us arbitrary: b u)
    (auto simp: bindR_eq_Inr assertR_eq_Inr balUseNote_def sums_Cons bal_update bal_update_wf split: prod.splits)

lemma balWithdraw_run:
  "foldR balWithdraw b ws = Inr b' \<Longrightarrow> bal b' t = bal b t - wd_sum ws t \<and> (jm_wf b \<longrightarrow> jm_wf b')"
  by (induction ws arbitrary: b)
    (auto simp: bindR_eq_Inr assertR_eq_Inr balWithdraw_def sums_Cons bal_update bal_update_wf)

lemma balCreateNote_run:
  "foldR balCreateNote b cs = Inr b' \<Longrightarrow> bal b' t = bal b t - create_sum cs t \<and> (jm_wf b \<longrightarrow> jm_wf b')"
  by (induction cs arbitrary: b)
    (auto simp: bindR_eq_Inr assertR_eq_Inr balCreateNote_def sums_Cons bal_update bal_update_wf
      split: Amount.splits)

lemma initialBalances_net:
  assumes "initialBalances actions = Inr (b, used)"
  shows "bal b t = net actions t" "jm_wf b"
proof -
  from assms obtain b1 b2 b3 where
    "foldR balDeposit [] (optl (a_deposits actions)) = Inr b1"
    "foldR balUseNote (b1, []) (optl (a_useNotes actions)) = Inr (b2, used)"
    "foldR balWithdraw b2 (optl (a_withdraws actions)) = Inr b3"
    "foldR balCreateNote b3 (optl (a_createNotes actions)) = Inr b"
    by (auto simp: initialBalances_def bindR_eq_Inr)
  then have r: "bal b1 t = dep_sum (optl (a_deposits actions)) t \<and> jm_wf b1"
    "bal b2 t = bal b1 t + use_sum (optl (a_useNotes actions)) t \<and> (jm_wf b1 \<longrightarrow> jm_wf b2)"
    "bal b3 t = bal b2 t - wd_sum (optl (a_withdraws actions)) t \<and> (jm_wf b2 \<longrightarrow> jm_wf b3)"
    "bal b t = bal b3 t - create_sum (optl (a_createNotes actions)) t \<and> (jm_wf b3 \<longrightarrow> jm_wf b)"
    using balDeposit_run [of "[]"] balUseNote_run balWithdraw_run balCreateNote_run
    by (simp add: bal_def, blast+)
  then show "bal b t = net actions t" by (simp add: net_def)
  from r show "jm_wf b" by simp
qed

section \<open>Selection\<close>

definition unused :: "used_ids \<Rightarrow> Note \<Rightarrow> bool" where
  "unused used n = (\<not> jm_has used (String_of (n_id n)))"

definition amounts :: "Note list \<Rightarrow> int" where
  "amounts ns = sum_list (map n_amount ns)"

lemma amounts_Nil [simp]: "amounts [] = 0"
  by (simp add: amounts_def)

abbreviation spend :: "int \<Rightarrow> Note \<Rightarrow> UseNoteAction" where
  "spend t n \<equiv> \<lparr>u_token = t, u_note = n\<rparr>"

lemma use_sum_spend [simp]: "use_sum (map (spend t) ns) t' = (if t' = t then amounts ns else 0)"
  by (induction ns) (auto simp: sums_Cons amounts_def)

text \<open>
  The loop takes a prefix of the unused notes: all of them under \<open>all\<close>; otherwise the shortest
  non-empty one that covers the deficit, or all of them when none does.
\<close>

lemma selectNotes_prefix:
  assumes "selectNotes selAll used t ns acc b = (us, b')"
  shows "\<exists>k \<le> length (filter (unused used) ns).
     us = acc @ map (spend t) (take k (filter (unused used) ns)) \<and>
     b' = b + amounts (take k (filter (unused used) ns)) \<and>
     (\<forall>j. 0 < j \<and> j < k \<longrightarrow> b + amounts (take j (filter (unused used) ns)) < 0 \<or> selAll) \<and>
     (k = length (filter (unused used) ns) \<or> 0 \<le> b' \<and> \<not> selAll)"
  using assms
proof (induction ns arbitrary: acc b)
  case Nil
  then show ?case by (simp add: amounts_def)
next
  case (Cons n ns)
  let ?u = "filter (unused used) ns"
  show ?case
  proof (cases "unused used n")
    case False
    with Cons show ?thesis by (simp add: unused_def)
  next
    case True
    then have f: "filter (unused used) (n # ns) = n # ?u" by simp
    show ?thesis
    proof (cases "0 \<le> b + n_amount n \<and> \<not> selAll")
      case True
      with Cons.prems \<open>unused used n\<close> show ?thesis
        unfolding f by (intro exI [of _ 1]) (auto simp: unused_def amounts_def)
    next
      case False
      with Cons.prems \<open>unused used n\<close> have
        "selectNotes selAll used t ns (acc @ [spend t n]) (b + n_amount n) = (us, b')"
        by (auto simp: unused_def Let_def split: if_splits)
      from Cons.IH [OF this] obtain k where k: "k \<le> length ?u"
        "us = (acc @ [spend t n]) @ map (spend t) (take k ?u)" "b' = b + n_amount n + amounts (take k ?u)"
        "\<forall>j. 0 < j \<and> j < k \<longrightarrow> b + n_amount n + amounts (take j ?u) < 0 \<or> selAll"
        "k = length ?u \<or> 0 \<le> b' \<and> \<not> selAll" by blast
      have "b + amounts (take j (n # ?u)) < 0 \<or> selAll" if "0 < j" "j < Suc k" for j
        using that k(4) False by (cases j) (auto simp: amounts_def elim!: allE [of _ "j - 1"], cases "j = 1", auto)
      with k show ?thesis unfolding f by (intro exI [of _ "Suc k"]) (auto simp: amounts_def)
    qed
  qed
qed

lemma regNotesGet_fst [simp]:
  "reg_channels (fst (regNotesGet r t)) = reg_channels r"
  by (simp add: regNotesGet_def split: option.splits)

definition reg_list :: "PrivateRegistry \<Rightarrow> int \<Rightarrow> Note list" where
  "reg_list r t = (case jm_get (reg_notes r) t of None \<Rightarrow> [] | Some ns \<Rightarrow> ns)"

lemma regNotesGet_snd: "snd (regNotesGet r t) = reg_list r t"
  by (simp add: regNotesGet_def reg_list_def split: option.splits)

lemma autoSelect_net:
  assumes "autoSelect opts used t b actions registry = (actions', registry', b')"
  shows "net actions' t' = net actions t' + (if t' = t then b' - b else 0)"
    and "a_surpluses actions' = a_surpluses actions" "a_deposits actions' = a_deposits actions"
    and "set (optl (a_useNotes actions)) \<subseteq> set (optl (a_useNotes actions'))"
proof -
  have "net actions' t' = net actions t' + (if t' = t then b' - b else 0) \<and> a_surpluses actions' = a_surpluses actions \<and>
      a_deposits actions' = a_deposits actions \<and> set (optl (a_useNotes actions)) \<subseteq> set (optl (a_useNotes actions'))"
  proof (cases "(b < 0 \<and> autoSelectNotes opts \<noteq> None) \<or> autoSelectNotes opts = Some SelectAll")
    case True
    obtain r ns where r: "regNotesGet registry t = (r, ns)" by fastforce
    obtain us b1 where s: "selectNotes (autoSelectNotes opts = Some SelectAll) used t (sortedNotes ns)
        (optl (a_useNotes actions)) b = (us, b1)" by fastforce
    have a: "actions' = actions\<lparr>a_useNotes := Some us\<rparr>" "b' = b1"
      using assms True r s by (auto simp: autoSelect_def)
    from selectNotes_prefix [OF s] show ?thesis by (auto simp: a net_def)
  next
    case False
    with assms show ?thesis by (auto simp: autoSelect_def)
  qed
  then show "net actions' t' = net actions t' + (if t' = t then b' - b else 0)"
    "a_surpluses actions' = a_surpluses actions" "a_deposits actions' = a_deposits actions"
    "set (optl (a_useNotes actions)) \<subseteq> set (optl (a_useNotes actions'))" by auto
qed

lemma applySurplus_net:
  "applySurplus cfg t b actions = (actions', None) \<Longrightarrow>
   net actions' t' = net actions t' - (if t' = t then b else 0) \<and> a_useNotes actions' = a_useNotes actions"
  by (auto simp: applySurplus_def Let_def net_def sums_Cons split: option.splits if_splits)

lemma applySurplus_surpluses: "applySurplus cfg t b actions = (actions', e) \<Longrightarrow>
   a_surpluses actions \<noteq> None \<Longrightarrow> a_surpluses actions' \<noteq> None"
  by (auto simp: applySurplus_def Let_def split: option.splits if_splits)

lemma applySurplus_uses: "applySurplus cfg t b actions = (actions', e) \<Longrightarrow> a_useNotes actions' = a_useNotes actions"
  by (auto simp: applySurplus_def Let_def split: option.splits if_splits)

lemma resolveToken_net:
  assumes "resolveToken cfg opts used t b (actions, registry) = ((actions', registry'), None)" "net actions t = b"
  shows "net actions' t' = (if t' = t then 0 else net actions t')"
proof -
  obtain a1 r1 b1 where s: "autoSelect opts used t b actions registry = (a1, r1, b1)" by (metis prod_cases3)
  note n = autoSelect_net [OF s]
  obtain a2 e where su: "applySurplus cfg t b1 a1 = (a2, e)" by fastforce
  from assms(1) s su have "0 \<le> b1" "if b1 = 0 then actions' = a1 else actions' = a2 \<and> e = None"
    by (auto simp: resolveToken_def Let_def split: if_splits prod.splits)
  with n(1) [of t'] assms(2) applySurplus_net [of cfg t b1 a1 a2 t'] su show ?thesis
    by (auto split: if_splits)
qed

lemma resolveTokens_net:
  assumes "resolveTokens cfg opts used bs (actions, registry) = ((actions', registry'), None)"
    "jm_wf bs" "\<And>t. bal bs t = (if t \<in> set (jm_keys bs) then net actions t else 0)"
  shows "net actions' t = (if t \<in> set (jm_keys bs) then 0 else net actions t)"
  using assms
proof (induction bs arbitrary: actions registry)
  case (Cons e bs)
  obtain tok b where e: "e = (tok, b)" by fastforce
  obtain a1 r1 where s: "resolveToken cfg opts used tok b (actions, registry) = ((a1, r1), None)"
    and rest: "resolveTokens cfg opts used bs (a1, r1) = ((actions', registry'), None)"
    using Cons.prems(1) by (auto simp: e split: prod.splits option.splits)
  have fresh: "tok \<notin> set (jm_keys bs)" and wf: "jm_wf bs" using Cons.prems(2) by (auto simp: e jm_wf_def)
  have b: "net actions tok = b" using Cons.prems(3) [of tok] by (simp add: e bal_def)
  note n1 = resolveToken_net [OF s b]
  have "bal bs t' = (if t' \<in> set (jm_keys bs) then net a1 t' else 0)" for t'
  proof (cases "t' = tok")
    case True
    with fresh show ?thesis by (simp add: bal_missing)
  next
    case False
    with Cons.prems(3) [of t'] n1 [of t'] show ?thesis by (auto simp: e bal_def)
  qed
  from Cons.IH [OF rest wf this] n1 [of t] show ?case by (auto simp: e)
qed simp

lemma net_untouched: "initialBalances actions = Inr (b, used) \<Longrightarrow> t \<notin> set (jm_keys b) \<Longrightarrow> net actions t = 0"
  using initialBalances_net(1) [of actions b used t]
  by (simp add: bal_missing)

lemma resolveNotes_net:
  assumes "resolveNotes cfg D opts actions registry = ((actions', registry'), None)"
    "a_surpluses actions \<noteq> None \<or> autoSelectNotes opts \<noteq> None"
  shows "net actions' t = 0"
proof -
  from assms obtain b used r where b: "initialBalances actions = Inr (b, used)"
    and r: "resolveTokens cfg opts used b (actions, r) = ((actions', registry'), None)"
    by (auto simp: resolveNotes_def split: if_splits sum.splits prod.splits)
  have "bal b t = (if t \<in> set (jm_keys b) then net actions t else 0)" for t
    using initialBalances_net(1) [OF b, of t] net_untouched [OF b, of t] by auto
  from resolveTokens_net [OF r initialBalances_net(2) [OF b] this, of t] net_untouched [OF b, of t]
  show ?thesis by auto
qed

section \<open>What compile keeps of the actions\<close>

lemma addOpenChannel_frame [simp]:
  "net (addOpenChannel a r) t = net a t" "a_useNotes (addOpenChannel a r) = a_useNotes a"
  by (simp_all add: addOpenChannel_def Let_def net_def)

lemma foldl_frame: "(\<And>a r. g (f a r) = g a) \<Longrightarrow> g (foldl f a rs) = g a"
  by (induction rs arbitrary: a) auto

lemma prepareActions_keeps:
  assumes "\<And>a r. g (addOpenChannel a r) = g a" "\<And>a. g (a\<lparr>a_setViewingKey := True\<rparr>) = g a"
  shows "g (fst (prepareActions cfg opts pool rn a)) = g a"
proof -
  have "g (foldl (\<lambda>a r. if P r \<and> c then addOpenChannel a r else a) a rs) = g a" for P c a rs
    by (rule foldl_frame) (simp add: assms(1))
  then show ?thesis by (simp add: prepareActions_def Let_def assms)
qed

lemma prepareActions_frame:
  assumes "prepareActions cfg opts pool rn a = (a', n)"
  shows "net a' t = net a t" "a_useNotes a' = a_useNotes a" "a_surpluses a' = a_surpluses a"
proof -
  have fst: "a' = fst (prepareActions cfg opts pool rn a)" using assms by simp
  show "net a' t = net a t" unfolding fst by (rule prepareActions_keeps) (simp, simp add: net_def)
  show "a_useNotes a' = a_useNotes a" unfolding fst by (rule prepareActions_keeps) simp_all
  show "a_surpluses a' = a_surpluses a"
    unfolding fst by (rule prepareActions_keeps) (simp_all add: addOpenChannel_def Let_def)
qed

lemma resolveToken_uses:
  assumes "resolveToken cfg opts used t b (a, r) = ((a', r'), e)"
  shows "set (optl (a_useNotes a)) \<subseteq> set (optl (a_useNotes a'))" "a_surpluses a \<noteq> None \<Longrightarrow> a_surpluses a' \<noteq> None"
proof -
  obtain a1 r1 b1 where s: "autoSelect opts used t b a r = (a1, r1, b1)" by (metis prod_cases3)
  obtain a2 e2 where su: "applySurplus cfg t b1 a1 = (a2, e2)" by fastforce
  have "a' = a1 \<or> a' = a2" using assms s su by (auto simp: resolveToken_def Let_def split: if_splits prod.splits)
  with autoSelect_net [OF s] applySurplus_uses [OF su] applySurplus_surpluses [OF su]
  show "set (optl (a_useNotes a)) \<subseteq> set (optl (a_useNotes a'))" "a_surpluses a \<noteq> None \<Longrightarrow> a_surpluses a' \<noteq> None"
    by auto
qed

lemma resolveTokens_uses:
  "resolveTokens cfg opts used bs (a, r) = ((a', r'), e) \<Longrightarrow>
   set (optl (a_useNotes a)) \<subseteq> set (optl (a_useNotes a')) \<and> (a_surpluses a \<noteq> None \<longrightarrow> a_surpluses a' \<noteq> None)"
proof (induction bs arbitrary: a r)
  case (Cons x bs)
  obtain t b where x: "x = (t, b)" by fastforce
  obtain a1 r1 e1 where s: "resolveToken cfg opts used t b (a, r) = ((a1, r1), e1)" by (metis prod_cases3 surj_pair)
  note u = resolveToken_uses [OF s]
  show ?case
  proof (cases e1)
    case None
    with Cons.prems s have "resolveTokens cfg opts used bs (a1, r1) = ((a', r'), e)" by (simp add: x)
    from Cons.IH [OF this] u show ?thesis by blast
  next
    case (Some v)
    with Cons.prems s u show ?thesis by (auto simp: x)
  qed
qed simp

lemma resolveNotes_uses:
  "resolveNotes cfg D opts a r = ((a', r'), e) \<Longrightarrow>
   set (optl (a_useNotes a)) \<subseteq> set (optl (a_useNotes a')) \<and> (a_surpluses a \<noteq> None \<longrightarrow> a_surpluses a' \<noteq> None)"
  by (auto simp: resolveNotes_def split: if_splits sum.splits prod.splits dest: resolveTokens_uses)

lemma compileOnce_balanced:
  assumes "compileOnce L R cfg D actions opts = (actions', Inr res)"
    "a_surpluses actions \<noteq> None \<or> autoSelectNotes opts \<noteq> None"
  shows "net actions' t = 0 \<and> set (optl (a_useNotes actions)) \<subseteq> set (optl (a_useNotes actions'))"
  using assms(1)
proof (elim compileOnce_E transform_E)
  fix actions1 registry1 pool n
  assume r: "resolveNotes cfg D opts actions (startRegistry opts) = ((actions1, registry1), None)"
    and p: "prepareActions cfg opts pool (getRecipientsNeeded cfg actions) actions1 = (actions', n)"
  from resolveNotes_net [OF r assms(2), of t] resolveNotes_uses [OF r] prepareActions_frame [OF p]
  show ?thesis by simp
qed

lemma compileOnce_failed_surpluses:
  assumes "compileOnce L R cfg D actions opts = (actions1, Inl e)" "a_surpluses actions \<noteq> None"
  shows "a_surpluses actions1 \<noteq> None"
proof -
  obtain a1 r1 e1 where r: "resolveNotes cfg D opts actions (startRegistry opts) = ((a1, r1), e1)"
    by (metis prod_cases3 surj_pair)
  from resolveNotes_uses [OF r] assms(2) have s: "a_surpluses a1 \<noteq> None" by simp
  show ?thesis using assms(1) r s
    by (auto simp: compileOnce_def Let_def transformToClientActions_def
        split: option.splits sum.splits prod.splits dest: prepareActions_frame(3))
qed

section \<open>Properties\<close>



text \<open>
  naive selection spends unused notes of the token from the largest down and stops at the first
  that covers the deficit: every shorter selection leaves the balance negative, and if the balance is
  still negative at the end then every unused note was taken.
\<close>

theorem naive_selection_minimal:
  assumes "autoSelectNotes opts = Some SelectNaive" "b < 0"
    and "autoSelect opts used t b actions registry = (actions', registry', b')"
  shows "let us = filter (unused used) (sortedNotes (reg_list registry t)) in
         sorted (map (\<lambda>n. - n_amount n) us) \<and>
         (\<exists>k \<le> length us.
            optl (a_useNotes actions') = optl (a_useNotes actions) @ map (spend t) (take k us) \<and>
            b' = b + amounts (take k us) \<and>
            (\<forall>j < k. b + amounts (take j us) < 0) \<and>
            (b' < 0 \<longrightarrow> k = length us))"
proof -
  obtain r ns where r: "regNotesGet registry t = (r, ns)" by fastforce
  then have ns: "ns = reg_list registry t" using regNotesGet_snd [of registry t] by simp
  obtain us b1 where s: "selectNotes False used t (sortedNotes ns) (optl (a_useNotes actions)) b = (us, b1)" by fastforce
  have a: "actions' = actions\<lparr>a_useNotes := Some us\<rparr>" "b' = b1"
    using assms r s by (auto simp: autoSelect_def)
  let ?us = "filter (unused used) (sortedNotes (reg_list registry t))"
  have "sorted (map (\<lambda>n. - n_amount n) ?us)"
    unfolding sortedNotes_def by (rule sorted_filter) simp
  moreover from selectNotes_prefix [OF s] obtain k where "k \<le> length ?us"
    "us = optl (a_useNotes actions) @ map (spend t) (take k ?us)" "b1 = b + amounts (take k ?us)"
    "\<forall>j. 0 < j \<and> j < k \<longrightarrow> b + amounts (take j ?us) < 0" "k = length ?us \<or> 0 \<le> b1"
    unfolding ns by auto
  moreover from this(4) have "\<forall>j < k. b + amounts (take j ?us) < 0"
    using assms(2) by (metis add_0_right amounts_Nil gr0I take_0)
  ultimately show ?thesis using a by (auto simp: Let_def)
qed

theorem naive_selection_minimal_witness:
  "let us = filter (unused []) (sortedNotes (reg_list sample_registry 9)) in
   sorted (map (\<lambda>n. - n_amount n) us) \<and>
   (\<exists>k \<le> length us.
      optl (a_useNotes (fst (autoSelect sample_opts [] 9 (- 5) sample_actions sample_registry)))
        = optl (a_useNotes sample_actions) @ map (spend 9) (take k us) \<and>
      snd (snd (autoSelect sample_opts [] 9 (- 5) sample_actions sample_registry)) = - 5 + amounts (take k us) \<and>
      (\<forall>j < k. - 5 + amounts (take j us) < 0) \<and>
      (snd (snd (autoSelect sample_opts [] 9 (- 5) sample_actions sample_registry)) < 0 \<longrightarrow> k = length us))"
  by (rule naive_selection_minimal [where registry' = "fst (snd (autoSelect sample_opts [] 9 (- 5) sample_actions sample_registry))"])
    (simp_all add: sample_opts_def)

text \<open>
  C11: an insufficient-balance error is exact. With selection on, it is raised only if the deficit
  exceeds the sum of all unused notes of the token, and the amount reported missing is the difference.
\<close>

theorem insufficient_balance_exact:
  assumes "resolveToken cfg opts used t b (actions, registry) = (ar, Some (InsufficientBalance t' missing avail))"
    "autoSelectNotes opts \<noteq> None"
  shows "t' = t \<and> 0 < missing \<and>
         missing = - (b + amounts (filter (unused used) (sortedNotes (reg_list registry t)))) \<and>
         avail = amounts (reg_list registry t)"
proof -
  obtain a1 r1 b1 where s: "autoSelect opts used t b actions registry = (a1, r1, b1)" by (metis prod_cases3)
  have not_surplus: "snd (applySurplus cfg t b1 a1) \<noteq> Some (InsufficientBalance t' missing avail)"
    by (auto simp: applySurplus_def Let_def split: option.splits if_splits)
  then have b1: "b1 < 0" "t' = t" "missing = - b1"
    "avail = foldl (\<lambda>sum n. sum + n_amount n) 0 (snd (regNotesGet r1 t))"
    using assms(1) s by (auto simp: resolveToken_def Let_def split: if_splits prod.splits)
  have foldl_amounts: "foldl (\<lambda>sum n. sum + n_amount n) x ns = x + amounts ns" for x ns
    by (induction ns arbitrary: x) (auto simp: amounts_def)
  have "b < 0 \<or> autoSelectNotes opts = Some SelectAll"
    using s b1(1) assms(2) by (auto simp: autoSelect_def split: if_splits)
  then have cond: "(b < 0 \<and> autoSelectNotes opts \<noteq> None) \<or> autoSelectNotes opts = Some SelectAll" using assms(2) by auto
  obtain r ns where r: "regNotesGet registry t = (r, ns)" by fastforce
  obtain us bs where sel: "selectNotes (autoSelectNotes opts = Some SelectAll) used t (sortedNotes ns)
      (optl (a_useNotes actions)) b = (us, bs)" by fastforce
  have eq: "r1 = r" "b1 = bs" using s cond r sel by (auto simp: autoSelect_def)
  have ns: "ns = reg_list registry t" using r regNotesGet_snd [of registry t] by simp
  have "reg_list r t = reg_list registry t"
    using r by (auto simp: regNotesGet_def reg_list_def split: option.splits if_splits)
  then have "avail = amounts (reg_list registry t)" using b1(4) by (simp add: eq regNotesGet_snd foldl_amounts)
  moreover from selectNotes_prefix [OF sel] b1(1) have "b1 = b + amounts (filter (unused used) (sortedNotes ns))"
    by (auto simp: eq)
  ultimately show ?thesis using b1 by (simp add: ns)
qed

lemma sample_insufficient:
  "resolveToken sample_cfg sample_opts [] 9 (- 8) (no_actions, sample_registry)
     = (fst (resolveToken sample_cfg sample_opts [] 9 (- 8) (no_actions, sample_registry)), Some (InsufficientBalance 9 3 5))"
proof -
  have "snd (resolveToken sample_cfg sample_opts [] 9 (- 8) (no_actions, sample_registry)) = Some (InsufficientBalance 9 3 5)"
    by code_simp
  then show ?thesis by (metis prod.collapse)
qed

theorem insufficient_balance_exact_witness:
  "(3::int) = - (- 8 + amounts (filter (unused []) (sortedNotes (reg_list sample_registry 9))))"
  using insufficient_balance_exact [OF sample_insufficient] by (simp add: sample_opts_def)

text \<open>
  the retry after a reorg is not a fresh start. The notes that the failed first attempt selected
  from the registry stay in \<open>actions\<close>, and the second attempt spends each of them, although the
  registry they came from has been cleared as stale.
\<close>

theorem reorg_retry_keeps_selection:
  assumes "compileOnce L (R 0) cfg (D 0) actions opts = (actions1, Inl (ReorgError m))"
    "compile L R cfg D actions opts = (actions', Inr res)"
    "a_surpluses actions1 \<noteq> None \<or> autoSelectNotes opts \<noteq> None"
    "u \<in> set (optl (a_useNotes actions1))"
  shows "UseNote (useNoteInput u) \<in> set (clientActions res)"
proof -
  from assms(1,2) have "compileOnce L (R 1) cfg (D 1) actions1 (clearedOptions opts) = (actions', Inr res)"
    by (simp add: compile_def)
  moreover have "a_surpluses actions1 \<noteq> None \<or> autoSelectNotes (clearedOptions opts) \<noteq> None"
    using assms(3) by (simp add: clearedOptions_def)
  ultimately have "u \<in> set (optl (a_useNotes actions'))" using compileOnce_balanced assms(4) by blast
  then have "UseNote (useNoteInput u) \<in> set (map (UseNote \<circ> useNoteInput) (optl (a_useNotes actions')))" by auto
  then have "UseNote (useNoteInput u) \<in> set (at_phase 5 (clientActions res))"
    using runs_emit [OF assms(2)] by (simp add: emits_def)
  then show ?thesis by (simp add: at_phase_def)
qed

definition reorg_first :: "Actions \<times> CompileResult result" where
  "reorg_first = compileOnce sample_lib (sample_rng 0) sample_cfg (reorg_then_sample 0) sample_actions sample_opts"

lemma reorg_first_ok: "case snd reorg_first of Inl e \<Rightarrow> e = ReorgError ''reorg'' | Inr _ \<Rightarrow> False"
  by code_simp

lemma reorg_run_ok: "\<not> isl (snd reorg_run)"
  by code_simp

lemma reorg_selected: "optl (a_useNotes sample_actions) = []" "optl (a_useNotes (fst reorg_first)) = [spend 9 sample_note]"
  by code_simp+

lemma reorg_first_eq:
  "compileOnce sample_lib (sample_rng 0) sample_cfg (reorg_then_sample 0) sample_actions sample_opts
     = (fst reorg_first, Inl (ReorgError ''reorg''))"
  using reorg_first_ok unfolding reorg_first_def [symmetric] by (cases "snd reorg_first") (auto intro!: prod_eqI)

lemma reorg_run_eq:
  "compile sample_lib sample_rng sample_cfg reorg_then_sample sample_actions sample_opts
     = (fst reorg_run, Inr (projr (snd reorg_run)))"
  using reorg_run_ok unfolding reorg_run_def [symmetric] by (cases reorg_run) auto

theorem reorg_retry_keeps_selection_witness:
  "optl (a_useNotes sample_actions) = [] \<and>
   UseNote (useNoteInput (spend 9 sample_note)) \<in> set (clientActions (projr (snd reorg_run)))"
  using reorg_retry_keeps_selection [OF reorg_first_eq reorg_run_eq, of "spend 9 sample_note"]
  by (simp add: reorg_selected sample_opts_def)

definition respelled_actions :: Actions where
  "respelled_actions = no_actions\<lparr>
     a_useNotes := Some [spend 9 (sample_note\<lparr>n_id := BNString ''0x4d''\<rparr>)],
     a_withdraws := Some [\<lparr>wd_recipient = 50, wd_token = 9, wd_amount = 10\<rparr>]\<rparr>"

text \<open>
  used notes are remembered by the text of their id, while the pool files notes under the number
  the id spells. A note the caller spends under the id \<open>0x4d\<close> is selected a second time from a
  registry that lists it under the bigint \<open>77\<close>: both entries denote one note.
\<close>

theorem same_note_selected_twice:
  "map (\<lambda>u. toBigInt (n_id (u_note u)))
     (optl (a_useNotes (fst (fst (resolveNotes sample_cfg sample_provider sample_opts respelled_actions sample_registry)))))
   = [Inr 77, Inr 77]"
  by code_simp

end
