(* ===== verification/Scan.thy ===== *)
theory Scan
  imports Prelude "HOL-Library.Multiset"
begin

text \<open>
  \<open>sdk/src/utils/scan.ts\<close>: the probing of consecutive storage slots. \<open>scan\<close> jumps ahead in growing steps
  until it meets an empty slot and then bisects for the boundary; the slots it jumped over are
  touched. All probes run concurrently and a \<open>Tracker\<close> waits for them, so what the functions determine
  is which probes are started. That is what the model computes: the list of calls \<open>(index, skipResult)\<close>,
  as a function of the answers \<open>ok\<close> of the awaited probes. \<open>None\<close> is a scan that never stops.
\<close>

section \<open>scan.ts\<close>

definition INITIAL_OFFSET :: nat where "INITIAL_OFFSET = 8"
definition INITIAL_STEP :: nat where "INITIAL_STEP = 8"

type_synonym probe_call = "nat \<times> bool"

definition touch :: "nat \<Rightarrow> nat \<Rightarrow> bool \<Rightarrow> probe_call list" where
  "touch start end' lengthOnly = (if lengthOnly then [] else map (\<lambda>i. (i, True)) [start ..< end'])"

function bisect :: "(nat \<Rightarrow> bool) \<Rightarrow> nat \<Rightarrow> nat \<Rightarrow> bool \<Rightarrow> probe_call list" where
  "bisect ok start end' lengthOnly =
     (if start \<ge> end' then []
      else let mid = (start + end') div 2
           in (mid, False) #
              (if ok mid then touch start mid lengthOnly @ bisect ok (mid + 1) end' lengthOnly
               else bisect ok start mid lengthOnly))"
  by pat_completeness auto
termination
  by (relation "measure (\<lambda>(ok, start, end', lengthOnly). end' - start)") auto

declare bisect.simps [simp del]

text \<open>\<open>next'\<close> is \<open>prev + 1\<close>, which starts at \<open>0\<close> whatever the start of the scan.\<close>

partial_function (option) scan_loop ::
  "(nat \<Rightarrow> bool) \<Rightarrow> bool \<Rightarrow> nat \<Rightarrow> nat \<Rightarrow> nat \<Rightarrow> nat \<Rightarrow> probe_call list option"
where
  "scan_loop ok lengthOnly start offset step next' =
     (let index = start + offset in
      if \<not> ok index then Some ((index, False) # bisect ok next' index lengthOnly)
      else Option.bind (scan_loop ok lengthOnly start (offset + step) (step * 2) (index + 1))
             (\<lambda>rest. Some ((index, False) # touch next' index lengthOnly @ rest)))"

declare scan_loop.simps [code]

definition scan :: "(nat \<Rightarrow> bool) \<Rightarrow> nat \<Rightarrow> bool \<Rightarrow> probe_call list option" where
  "scan ok start lengthOnly = scan_loop ok lengthOnly start INITIAL_OFFSET INITIAL_STEP 0"

section \<open>Storage filled from the front\<close>

text \<open>The pool contract appends: slot \<open>i\<close> is filled exactly when it is below the count \<open>N\<close>.\<close>

definition filled :: "nat \<Rightarrow> nat \<Rightarrow> bool" where
  "filled N i = (i < N)"

lemma touch_mset: "mset (map fst (touch a b False)) = mset [a ..< b]"
  by (simp add: touch_def comp_def)

lemma touch_skip: "c \<in> set (touch a b l) \<Longrightarrow> snd c \<and> a \<le> fst c \<and> fst c < b"
  by (auto simp: touch_def split: if_splits)

lemma filter_upt_lt: "filter (\<lambda>i. i < N) [a ..< b] = [a ..< min b N]"
proof (induction b)
  case (Suc b)
  consider "b < N" | "N \<le> b" by linarith
  then show ?case using Suc by cases (auto simp: min_def not_less intro: le_antisym)
qed simp

lemma upt_join: "a \<le> m \<Longrightarrow> m \<le> k \<Longrightarrow> [a ..< k] = [a ..< m] @ [m ..< k]"
  by (metis le_add_diff_inverse upt_add_eq_append)

lemma upt_split: "a \<le> m \<Longrightarrow> m < k \<Longrightarrow> [a ..< k] = [a ..< m] @ m # [Suc m ..< k]"
  using upt_join [of a m k] by (simp add: upt_conv_Cons)

lemma bisect_cover:
  "a \<le> N \<Longrightarrow> mset (filter (filled N) (map fst (bisect (filled N) a b False))) = mset [a ..< min b N]"
proof (induction "b - a" arbitrary: a b rule: less_induct)
  case less
  show ?case
  proof (cases "a \<ge> b")
    case True
    then show ?thesis by (subst bisect.simps) simp
  next
    case ab: False
    let ?m = "(a + b) div 2"
    have m: "a \<le> ?m" "?m < b" using ab by auto
    show ?thesis
    proof (cases "?m < N")
      case True
      have split: "[a ..< min b N] = [a ..< ?m] @ ?m # [Suc ?m ..< min b N]"
        using m True by (intro upt_split) simp_all
      have touched: "filter (filled N) (map fst (touch a ?m False)) = [a ..< ?m]"
        using True by (simp add: touch_def comp_def filled_def filter_upt_lt)
      have "b - Suc ?m < b - a" using m by linarith
      then have "mset (filter (filled N) (map fst (bisect (filled N) (Suc ?m) b False))) = mset [Suc ?m ..< min b N]"
        using True by (intro less) simp_all
      with True ab split touched show ?thesis
        by (subst bisect.simps) (simp add: Let_def filled_def del: upt_Suc)
    next
      case False
      have "?m - a < b - a" using m by linarith
      then have "mset (filter (filled N) (map fst (bisect (filled N) a ?m False))) = mset [a ..< min ?m N]"
        using less.prems by (intro less) simp_all
      with False m ab show ?thesis by (subst bisect.simps) (simp add: Let_def filled_def min_def)
    qed
  qed
qed

text \<open>Each round of the loop either stops or moves past filled slots only.\<close>

lemma scan_loop_cover:
  assumes "0 < step" "next' \<le> N" "next' \<le> start + offset"
  shows "\<exists>cs. scan_loop (filled N) lengthOnly start offset step next' = Some cs \<and>
    (\<not> lengthOnly \<longrightarrow> mset (filter (filled N) (map fst cs)) = mset [next' ..< N])"
  using assms
proof (induction "N - (start + offset)" arbitrary: offset step next' rule: less_induct)
  case less
  let ?i = "start + offset"
  show ?case
  proof (cases "?i < N")
    case False
    then have "scan_loop (filled N) lengthOnly start offset step next' =
        Some ((?i, False) # bisect (filled N) next' ?i lengthOnly)"
      by (subst scan_loop.simps) (simp add: filled_def Let_def)
    moreover have "mset (filter (filled N) (map fst (bisect (filled N) next' ?i False))) = mset [next' ..< N]"
      using bisect_cover [OF less.prems(2), of ?i] False by (simp add: min_def)
    ultimately show ?thesis using False by (auto simp: filled_def)
  next
    case True
    have "N - (start + (offset + step)) < N - ?i" using True less.prems(1) by linarith
    from less.hyps [OF this, of "step * 2" "?i + 1"] less.prems True obtain cs where
      cs: "scan_loop (filled N) lengthOnly start (offset + step) (step * 2) (?i + 1) = Some cs"
      "\<not> lengthOnly \<longrightarrow> mset (filter (filled N) (map fst cs)) = mset [?i + 1 ..< N]" by auto
    have run: "scan_loop (filled N) lengthOnly start offset step next' =
        Some ((?i, False) # touch next' ?i lengthOnly @ cs)"
      using True cs(1) by (subst scan_loop.simps) (simp add: filled_def Let_def)
    have "mset (filter (filled N) (map fst (touch next' ?i False))) = mset [next' ..< ?i]"
      using True by (simp add: touch_def comp_def filled_def filter_upt_lt)
    moreover have "[next' ..< N] = [next' ..< ?i] @ ?i # [Suc ?i ..< N]"
      using less.prems(3) True by (rule upt_split)
    ultimately show ?thesis using run cs(2) True by (simp add: filled_def del: upt_Suc)
  qed
qed

text \<open>
  C15: a scan of storage filled from the front ends, and it probes every filled slot exactly once.
  Its \<open>start\<close> is no lower bound: the slots below it are probed too.
\<close>

theorem scan_probes_once:
  "\<exists>cs. scan (filled N) start False = Some cs \<and> mset (filter (filled N) (map fst cs)) = mset [0 ..< N]"
  using scan_loop_cover [of INITIAL_STEP 0 N start INITIAL_OFFSET False]
  by (simp add: scan_def INITIAL_STEP_def)

section \<open>Length-only scans\<close>

definition boundary :: "probe_call list \<Rightarrow> nat \<Rightarrow> nat" where
  "boundary cs N = Max (insert 0 (Suc ` {i \<in> fst ` set cs. i < N}))"

lemma bisect_last:
  "a < N \<Longrightarrow> N \<le> b \<Longrightarrow> \<exists>c \<in> set (bisect (filled N) a b l). fst c = N - 1"
proof (induction "b - a" arbitrary: a b rule: less_induct)
  case less
  let ?m = "(a + b) div 2"
  have ab: "\<not> a \<ge> b" and m: "a \<le> ?m" "?m < b" using less.prems by auto
  consider "?m = N - 1" | "?m < N - 1" | "N \<le> ?m" by linarith
  then show ?case
  proof cases
    case 1
    then show ?thesis using ab by (subst bisect.simps) (auto simp: Let_def)
  next
    case 2
    have "\<exists>c \<in> set (bisect (filled N) (?m + 1) b l). fst c = N - 1"
      using 2 m less.prems by (intro less.hyps) linarith+
    then show ?thesis using ab 2 by (subst bisect.simps) (auto simp: Let_def filled_def)
  next
    case 3
    have "\<exists>c \<in> set (bisect (filled N) a ?m l). fst c = N - 1"
      using 3 m less.prems by (intro less.hyps) linarith+
    then show ?thesis using ab 3 by (subst bisect.simps) (auto simp: Let_def filled_def)
  qed
qed

lemma scan_loop_last:
  "scan_loop (filled N) l start offset step next' = Some cs \<Longrightarrow> 0 < step \<Longrightarrow> next' \<le> N \<Longrightarrow>
   next' < N \<Longrightarrow> N - 1 \<in> fst ` set cs"
proof (induction "N - (start + offset)" arbitrary: offset step next' cs rule: less_induct)
  case less
  let ?i = "start + offset"
  show ?case
  proof (cases "?i < N")
    case False
    then have "cs = (?i, False) # bisect (filled N) next' ?i l"
      using less.prems(1) by (subst (asm) scan_loop.simps) (simp add: filled_def Let_def)
    with bisect_last [of next' N ?i l] less.prems(4) False show ?thesis by force
  next
    case True
    then obtain rest where r: "scan_loop (filled N) l start (offset + step) (step * 2) (?i + 1) = Some rest"
      "cs = (?i, False) # touch next' ?i l @ rest"
      using less.prems(1) by (subst (asm) scan_loop.simps) (auto simp: filled_def Let_def bind_eq_Some_conv)
    show ?thesis
    proof (cases "?i = N - 1")
      case True
      with r(2) show ?thesis by simp
    next
      case False
      with True less.prems(2) have "N - (start + (offset + step)) < N - ?i" "?i + 1 < N" by linarith+
      from less.hyps [OF this(1) r(1)] this(2) less.prems(2) r(2) show ?thesis by auto
    qed
  qed
qed

text \<open>
  A length-only scan finds the boundary: it ends, and the number of filled slots is one more than
  the largest filled slot it probed (zero if it probed none), although it touches no slot in between.
\<close>

theorem scan_finds_length:
  "\<exists>cs. scan (filled N) start True = Some cs \<and> boundary cs N = N"
proof -
  from scan_loop_cover [of INITIAL_STEP 0 N start INITIAL_OFFSET True] obtain cs where
    cs: "scan_loop (filled N) True start INITIAL_OFFSET INITIAL_STEP 0 = Some cs"
    by (auto simp: INITIAL_STEP_def)
  have fin: "finite (insert 0 (Suc ` {i \<in> fst ` set cs. i < N}))" by simp
  have "boundary cs N = N"
  proof (cases "N = 0")
    case False
    then have "N - 1 \<in> fst ` set cs" using scan_loop_last [OF cs] by (simp add: INITIAL_STEP_def)
    then have "N \<in> insert 0 (Suc ` {i \<in> fst ` set cs. i < N})"
      using False by (auto simp: image_iff intro!: bexI [of _ "N - 1"])
    with fin show ?thesis unfolding boundary_def by (intro Max_eqI) auto
  qed (simp add: boundary_def)
  with cs show ?thesis by (simp add: scan_def)
qed

section \<open>Bisection of a range that is filled\<close>

lemma bisect_all: "mset (map fst (bisect (\<lambda>_. True) a b False)) = mset [a ..< b]"
proof (induction "b - a" arbitrary: a b rule: less_induct)
  case less
  show ?case
  proof (cases "a \<ge> b")
    case True
    then show ?thesis by (subst bisect.simps) simp
  next
    case False
    let ?m = "(a + b) div 2"
    have m: "a \<le> ?m" "?m < b" using False by auto
    have "mset (map fst (bisect (\<lambda>_. True) (Suc ?m) b False)) = mset [Suc ?m ..< b]"
      using m by (intro less) linarith
    with False upt_split [OF m] show ?thesis
      by (subst bisect.simps) (simp add: Let_def touch_def comp_def del: upt_Suc)
  qed
qed

section \<open>Additive effects of probes\<close>

text \<open>
  A step whose effect on a measured multiset is to add \<open>w\<close> of its call has, over a list of calls, the
  effect of the sum, whatever their order.
\<close>

lemma foldR_additive:
  assumes "\<And>s x. Q s \<Longrightarrow> x \<in> set xs \<Longrightarrow> \<exists>s'. step s x = Inr s' \<and> Q s' \<and> mu s' = mu s + w x" "Q s"
  shows "\<exists>s'. foldR step s xs = Inr s' \<and> Q s' \<and> (mu s' :: 'm multiset) = mu s + sum_list (map w xs)"
  using assms
proof (induction xs arbitrary: s)
  case Nil
  then show ?case by simp
next
  case (Cons x xs)
  from Cons.prems(1) [OF Cons.prems(2), of x] obtain s1 where
    s1: "step s x = Inr s1" "Q s1" "mu s1 = mu s + w x" by auto
  have "\<exists>s'. foldR step s1 xs = Inr s' \<and> Q s' \<and> mu s' = mu s1 + sum_list (map w xs)"
    using Cons.prems(1) s1(2) by (intro Cons.IH) auto
  with s1 show ?case by (auto simp: add.assoc)
qed

lemma sum_calls:
  assumes "mset (filter P (map fst calls)) = mset xs"
  shows "sum_list (map (\<lambda>c. if P (fst c) then g (fst c) else {#}) calls) = (sum_list (map g xs) :: 'm multiset)"
proof -
  have "sum_list (map (\<lambda>c. if P (fst c) then g (fst c) else {#}) calls) = sum_list (map g (filter P (map fst calls)))"
    by (induction calls) auto
  also have "\<dots> = sum_mset (image_mset g (mset (filter P (map fst calls))))"
    by (simp add: sum_mset_sum_list [symmetric] mset_map)
  also have "\<dots> = sum_list (map g xs)"
    by (simp only: assms) (simp add: sum_mset_sum_list [symmetric] mset_map)
  finally show ?thesis .
qed

end
