(* ===== verification/Contract_Discovery.thy ===== *)
theory Contract_Discovery
  imports Interfaces Scan
begin

text \<open>
  \<open>sdk/src/internal/contract-discovery.ts\<close> and \<open>abstract-discovery.ts\<close>: discovery against the pool
  contract. \<open>PoolContract\<close> is a snapshot of the contract's view functions. The tasks the code starts
  without awaiting are run in the order they are started, each to its end; the \<open>Tracker\<close> waits for all
  of them and rethrows an error, so a run fails if one of its tasks does. Only the order of the notes
  of one token depends on the interleaving, and the properties do not mention that order. A run that
  never ends is the error \<open>Diverges\<close>.
\<close>

section \<open>The contract's views\<close>

record NoteData =
  packed_value :: bignum
  nd_token :: bignum

record PoolContract =
  channel_exists :: "int \<Rightarrow> bool"
  get_num_of_channels :: "int \<Rightarrow> nat"
  get_channel_info :: "int \<Rightarrow> nat \<Rightarrow> EncChannelInfo"
  get_subchannel_info :: "int \<Rightarrow> EncSubchannelInfo"
  get_outgoing_channel_info :: "int \<Rightarrow> EncOutgoingChannelInfo"
  get_note :: "int \<Rightarrow> NoteData"
  nullifier_exists :: "int \<Rightarrow> bool"
  get_public_key :: "int \<Rightarrow> bignum"

text \<open>\<open>toBigInt(x) !== 0n\<close>, for the answers of the awaited probes.\<close>

definition nonzero :: "bignum \<Rightarrow> bool" where
  "nonzero b = (case toBigInt b of Inr v \<Rightarrow> v \<noteq> 0 | Inl _ \<Rightarrow> False)"

section \<open>NotesDiscovery\<close>

record NotesDiscovery =
  nd_notes :: "(int, Note list) jsmap"
  nd_cursor :: NotesCursor

definition upd_incoming ::
  "NotesDiscovery \<Rightarrow> int \<Rightarrow> (IncomingChannelCursor \<Rightarrow> IncomingChannelCursor) \<Rightarrow> NotesDiscovery result"
where
  "upd_incoming st sender f =
     bindR (of_option (TypeError ''incomingChannels'') (jm_get (incomingChannels (nd_cursor st)) sender)) (\<lambda>icc.
     Inr (st\<lparr>nd_cursor := (nd_cursor st)\<lparr>incomingChannels :=
            jm_set (incomingChannels (nd_cursor st)) sender (f icc)\<rparr>\<rparr>))"

text \<open>Amount and salt of a stored note: plain in an open note (salt \<open>1\<close>), padded otherwise.\<close>

definition noteContent :: "starknet_lib \<Rightarrow> int \<Rightarrow> int \<Rightarrow> int \<Rightarrow> nat \<Rightarrow> int \<times> int \<times> bool" where
  "noteContent L packedValue channelKey token index =
     (let packedSalt = packedValue div 2 ^ 128; isOpenNote = (packedSalt = 1)
      in if isOpenNote then (packedValue mod 2 ^ 128, 1, True)
         else (case decryptNoteAmount L packedValue channelKey token (int index) of (amount, salt) \<Rightarrow>
                 (amount, salt, False)))"

definition discoveredNote :: "starknet_lib \<Rightarrow> int \<Rightarrow> int \<Rightarrow> int \<Rightarrow> int \<Rightarrow> nat \<Rightarrow> Note" where
  "discoveredNote L packedValue channelKey token sender index =
     (case noteContent L packedValue channelKey token index of (amount, salt, isOpenNote) \<Rightarrow>
        \<lparr>n_id = BNBigint (compute_note_id L channelKey token (int index)), n_amount = amount, n_created = Some 0,
         n_witness = \<lparr>w_channelKey = channelKey, w_nonce = index, w_r = salt\<rparr>, n_viewingKey = None,
         n_sender = BNBigint sender, n_open = Some isOpenNote\<rparr>)"

definition spent :: "starknet_lib \<Rightarrow> PoolContract \<Rightarrow> bignum \<Rightarrow> int \<Rightarrow> int \<Rightarrow> nat \<Rightarrow> bool result" where
  "spent L V viewingKey channelKey token index =
     bindR (BigInt viewingKey) (\<lambda>vk.
     Inr (nullifier_exists V (compute_nullifier L channelKey token (int index) vk)))"

text \<open>The token's entry in \<open>noteIndexes\<close> exists whenever a note of the token is probed.\<close>

definition addNoteIfNotSpent ::
  "starknet_lib \<Rightarrow> PoolContract \<Rightarrow> bignum \<Rightarrow> NoteData \<Rightarrow> nat \<Rightarrow> int \<Rightarrow> int \<Rightarrow> int \<Rightarrow> bool
     \<Rightarrow> NotesDiscovery \<Rightarrow> NotesDiscovery result"
where
  "addNoteIfNotSpent L V viewingKey noteData index channelKey token sender skipNullifierCheck st =
     bindR (if skipNullifierCheck then Inr False else spent L V viewingKey channelKey token index) (\<lambda>isSpent.
     if isSpent then Inr st
     else bindR (toBigInt (packed_value noteData)) (\<lambda>packedValue.
       let (ns, old) = jm_get_default (nd_notes st) token [];
           note = discoveredNote L packedValue channelKey token sender index
       in upd_incoming (st\<lparr>nd_notes := jm_set ns token (old @ [note])\<rparr>) sender (\<lambda>icc.
            icc\<lparr>ic_noteIndexes := jm_set (ic_noteIndexes icc) token
                  (max (case jm_get (ic_noteIndexes icc) token of Some m \<Rightarrow> m | None \<Rightarrow> 0) (int index + 1))\<rparr>)))"

definition probeNote ::
  "starknet_lib \<Rightarrow> PoolContract \<Rightarrow> bignum \<Rightarrow> int \<Rightarrow> int \<Rightarrow> int \<Rightarrow> NotesDiscovery \<Rightarrow> probe_call
     \<Rightarrow> NotesDiscovery result"
where
  "probeNote L V viewingKey channelKey token sender st call =
     (let (i, skipResult) = call; noteData = get_note V (compute_note_id L channelKey token (int i)) in
      if skipResult then
        bindR (spent L V viewingKey channelKey token i) (\<lambda>isSpent.
        if isSpent then Inr st
        else bindR (toBigInt (packed_value noteData)) (\<lambda>packedValue.
          if packedValue = 0 then Inr st
          else addNoteIfNotSpent L V viewingKey noteData i channelKey token sender True st))
      else
        bindR (toBigInt (packed_value noteData)) (\<lambda>packedValue.
          if packedValue = 0 then Inr st
          else addNoteIfNotSpent L V viewingKey noteData i channelKey token sender False st))"

definition noteOk :: "starknet_lib \<Rightarrow> PoolContract \<Rightarrow> int \<Rightarrow> int \<Rightarrow> nat \<Rightarrow> bool" where
  "noteOk L V channelKey token i = nonzero (packed_value (get_note V (compute_note_id L channelKey token (int i))))"

definition nd_discoverNotes ::
  "starknet_lib \<Rightarrow> PoolContract \<Rightarrow> bignum \<Rightarrow> int \<Rightarrow> int \<Rightarrow> nat \<Rightarrow> NotesDiscovery \<Rightarrow> NotesDiscovery result"
where
  "nd_discoverNotes L V viewingKey sender token index st =
     bindR (of_option (TypeError ''incomingChannels'') (jm_get (incomingChannels (nd_cursor st)) sender)) (\<lambda>icc.
     bindR (of_option Diverges (scan (noteOk L V (ic_channelKey icc) token) index False)) (\<lambda>calls.
     foldR (probeNote L V viewingKey (ic_channelKey icc) token sender) st calls))"

definition subOk :: "starknet_lib \<Rightarrow> PoolContract \<Rightarrow> int \<Rightarrow> nat \<Rightarrow> bool" where
  "subOk L V channelKey k = nonzero (enc_sub_salt (get_subchannel_info V (compute_subchannel_id L channelKey (int k))))"

definition probeSubchannel ::
  "starknet_lib \<Rightarrow> PoolContract \<Rightarrow> bignum \<Rightarrow> int list \<Rightarrow> int \<Rightarrow> int \<Rightarrow> NotesDiscovery \<Rightarrow> probe_call
     \<Rightarrow> NotesDiscovery result"
where
  "probeSubchannel L V viewingKey wanted channelKey sender st call =
     (let k = fst call; encSubchannel = get_subchannel_info V (compute_subchannel_id L channelKey (int k)) in
      bindR (toBigInt (enc_sub_salt encSubchannel)) (\<lambda>salt.
      if salt = 0 then Inr st
      else bindR (decryptSubchannelInfo L encSubchannel channelKey (int k)) (\<lambda>info.
        if wanted \<noteq> [] \<and> si_token info \<notin> set wanted then Inr st
        else bindR (upd_incoming st sender (\<lambda>icc. icc\<lparr>
                 ic_noteIndexes := jm_set (ic_noteIndexes icc) (si_token info) 0,
                 ic_subchannelIdIndex := max (ic_subchannelIdIndex icc) (int k)\<rparr>)) (\<lambda>st'.
             nd_discoverNotes L V viewingKey sender (si_token info) 0 st'))))"

definition nd_discoverSubchannels ::
  "starknet_lib \<Rightarrow> PoolContract \<Rightarrow> bignum \<Rightarrow> int list \<Rightarrow> int \<Rightarrow> NotesDiscovery \<Rightarrow> NotesDiscovery result"
where
  "nd_discoverSubchannels L V viewingKey wanted sender st =
     bindR (of_option (TypeError ''incomingChannels'') (jm_get (incomingChannels (nd_cursor st)) sender)) (\<lambda>icc.
     bindR (of_option Diverges (scan (subOk L V (ic_channelKey icc)) (nat (ic_subchannelIdIndex icc)) False)) (\<lambda>calls.
     foldR (probeSubchannel L V viewingKey wanted (ic_channelKey icc) sender) st calls))"

definition probeChannel ::
  "starknet_lib \<Rightarrow> PoolContract \<Rightarrow> int \<Rightarrow> bignum \<Rightarrow> int list \<Rightarrow> NotesDiscovery \<Rightarrow> probe_call \<Rightarrow> NotesDiscovery result"
where
  "probeChannel L V address viewingKey wanted st call =
     bindR (decryptChannelInfo L (get_channel_info V address (fst call)) viewingKey) (\<lambda>channel.
     let icc = \<lparr>ic_channelKey = ci_key channel, ic_subchannelIdIndex = 0, ic_noteIndexes = [], ic_totalNoteCounts = []\<rparr>;
         st' = st\<lparr>nd_cursor := (nd_cursor st)\<lparr>incomingChannels :=
                  jm_set (incomingChannels (nd_cursor st)) (ci_sender channel) icc\<rparr>\<rparr>
     in nd_discoverSubchannels L V viewingKey wanted (ci_sender channel) st')"

definition nd_discoverChannels ::
  "starknet_lib \<Rightarrow> PoolContract \<Rightarrow> int \<Rightarrow> bignum \<Rightarrow> int list \<Rightarrow> nat \<Rightarrow> NotesDiscovery \<Rightarrow> NotesDiscovery result"
where
  "nd_discoverChannels L V address viewingKey wanted start st =
     foldR (probeChannel L V address viewingKey wanted) st
       (bisect (\<lambda>_. True) start (get_num_of_channels V address) False)"

definition contract_discoverNotes ::
  "starknet_lib \<Rightarrow> PoolContract \<Rightarrow> int \<Rightarrow> bignum \<Rightarrow> NotesParams \<Rightarrow> NotesDiscoveryResult result"
where
  "contract_discoverNotes L V address viewingKey params =
     (let existing = (case np_cursor params of None \<Rightarrow> [] | Some c \<Rightarrow> incomingChannels c);
          wanted = optl (np_tokens params);
          st0 = \<lparr>nd_notes = [], nd_cursor = cloneNotesCursor (np_cursor params)\<rparr>
      in bindR (nd_discoverChannels L V address viewingKey wanted (length existing) st0) (\<lambda>st1.
         bindR (foldR (\<lambda>st e. case e of (sender, icc) \<Rightarrow>
             bindR (nd_discoverSubchannels L V viewingKey wanted sender st) (\<lambda>st'.
             foldR (\<lambda>st ti. nd_discoverNotes L V viewingKey sender (fst ti) (nat (snd ti)) st) st' (ic_noteIndexes icc)))
             st1 existing) (\<lambda>st2.
         Inr \<lparr>nr_timestamp = BlockNumber 0, nr_notes = nd_notes st2, nr_cursor = nd_cursor st2\<rparr>)))"

section \<open>ChannelsDiscovery\<close>

text \<open>\<open>cd_undefined\<close>: a cursor without channels leaves \<open>this.channels\<close> undefined.\<close>

record ChannelsDiscovery =
  cd_channels :: "(int, Channel) jsmap"
  cd_undefined :: bool
  cd_total :: "nat option"

text \<open>\<open>this.channels.get(recipient)!\<close>, updated in place.\<close>

definition upd_channel :: "ChannelsDiscovery \<Rightarrow> int \<Rightarrow> (Channel \<Rightarrow> Channel) \<Rightarrow> ChannelsDiscovery result" where
  "upd_channel st recipient f =
     bindR (of_option (TypeError ''channels'') (jm_get (cd_channels st) recipient)) (\<lambda>c.
     Inr (st\<lparr>cd_channels := jm_set (cd_channels st) recipient (f c)\<rparr>))"

definition probeOutNote ::
  "starknet_lib \<Rightarrow> PoolContract \<Rightarrow> int \<Rightarrow> int \<Rightarrow> int \<Rightarrow> ChannelsDiscovery \<Rightarrow> probe_call \<Rightarrow> ChannelsDiscovery result"
where
  "probeOutNote L V recipient channelKey token st call =
     bindR (toBigInt (packed_value (get_note V (compute_note_id L channelKey token (int (fst call)))))) (\<lambda>packedValue.
     if packedValue = 0 then Inr st
     else upd_channel st recipient (\<lambda>c.
       let (toks, nonces) = jm_get_default (tokens c) token fresh_token
       in c\<lparr>tokens := jm_set toks token (nonces\<lparr>noteNonce := max (noteNonce nonces) (fst call + 1)\<rparr>)\<rparr>))"

definition cd_discoverNotes ::
  "starknet_lib \<Rightarrow> PoolContract \<Rightarrow> int \<Rightarrow> int option \<Rightarrow> int \<Rightarrow> nat \<Rightarrow> ChannelsDiscovery \<Rightarrow> ChannelsDiscovery result"
where
  "cd_discoverNotes L V recipient channelKey token index st =
     bindR (of_option (TypeError ''channel.key'') channelKey) (\<lambda>ck.
     bindR (of_option Diverges (scan (noteOk L V ck token) index True)) (\<lambda>calls.
     foldR (probeOutNote L V recipient ck token) st calls))"

definition probeOutSubchannel ::
  "starknet_lib \<Rightarrow> PoolContract \<Rightarrow> int \<Rightarrow> int \<Rightarrow> ChannelsDiscovery \<Rightarrow> probe_call \<Rightarrow> ChannelsDiscovery result"
where
  "probeOutSubchannel L V recipient channelKey st call =
     (let k = fst call; encSubchannel = get_subchannel_info V (compute_subchannel_id L channelKey (int k)) in
      bindR (toBigInt (enc_sub_salt encSubchannel)) (\<lambda>salt.
      if salt = 0 then Inr st
      else bindR (decryptSubchannelInfo L encSubchannel channelKey (int k)) (\<lambda>info.
           bindR (upd_channel st recipient (\<lambda>c. c\<lparr>tokens :=
             jm_set (tokens c) (si_token info) \<lparr>tokenIndex = k, noteNonce = 0\<rparr>\<rparr>)) (\<lambda>st'.
           cd_discoverNotes L V recipient (Some channelKey) (si_token info) 0 st'))))"

definition cd_discoverSubchannels ::
  "starknet_lib \<Rightarrow> PoolContract \<Rightarrow> int \<Rightarrow> Channel \<Rightarrow> ChannelsDiscovery \<Rightarrow> ChannelsDiscovery result"
where
  "cd_discoverSubchannels L V recipient channel st =
     bindR (of_option (TypeError ''channel.key'') (key channel)) (\<lambda>ck.
     bindR (of_option Diverges (scan (subOk L V ck) (length (tokens channel)) False)) (\<lambda>calls.
     foldR (probeOutSubchannel L V recipient ck) st calls))"

text \<open>The part of \<open>discoverChannel\<close> for a recipient whose channel key is not known yet.\<close>

definition cd_discoverUnopened ::
  "starknet_lib \<Rightarrow> PoolContract \<Rightarrow> int \<Rightarrow> int \<Rightarrow> int \<Rightarrow> bignum \<Rightarrow> ChannelsDiscovery \<Rightarrow> ChannelsDiscovery result"
where
  "cd_discoverUnopened L V address viewingKey recipient pk st =
     (if \<not> truthy pk then Inr st
      else
        let (chs, channel) = jm_get_default (cd_channels st) recipient (new_Channel pk None [])
        in bindR (toBigInt pk) (\<lambda>pkv.
           let channelKey = compute_channel_key L address viewingKey recipient pkv;
               channelMarker = compute_channel_marker L channelKey address recipient pkv
           in if channel_exists V channelMarker then
                let channel' = channel\<lparr>key := Some channelKey\<rparr>
                in cd_discoverSubchannels L V recipient channel'
                     (st\<lparr>cd_channels := jm_set chs recipient channel'\<rparr>)
              else Inr (st\<lparr>cd_channels := chs\<rparr>)))"

definition cd_discoverChannel ::
  "starknet_lib \<Rightarrow> PoolContract \<Rightarrow> int \<Rightarrow> int \<Rightarrow> ChannelsDiscovery \<Rightarrow> int \<Rightarrow> ChannelsDiscovery result"
where
  "cd_discoverChannel L V address viewingKey st recipient =
     (if cd_undefined st then Inl (TypeError ''channels'') else case jm_get (cd_channels st) recipient of
        Some channel \<Rightarrow>
          if key channel \<noteq> Some 0 then cd_discoverSubchannels L V recipient channel st
          else cd_discoverUnopened L V address viewingKey recipient (publicKey channel) st
      | None \<Rightarrow> cd_discoverUnopened L V address viewingKey recipient (get_public_key V recipient) st)"

definition outOk :: "starknet_lib \<Rightarrow> PoolContract \<Rightarrow> int \<Rightarrow> int \<Rightarrow> nat \<Rightarrow> bool" where
  "outOk L V address viewingKey s =
     nonzero (enc_out_salt (get_outgoing_channel_info V (compute_outgoing_channel_id L address viewingKey (int s))))"

definition probeOutgoing ::
  "starknet_lib \<Rightarrow> PoolContract \<Rightarrow> int \<Rightarrow> int \<Rightarrow> bool \<Rightarrow> ChannelsDiscovery \<Rightarrow> probe_call \<Rightarrow> ChannelsDiscovery result"
where
  "probeOutgoing L V address viewingKey totalOnly st call =
     (let s = fst call;
          info = get_outgoing_channel_info V (compute_outgoing_channel_id L address viewingKey (int s)) in
      bindR (toBigInt (enc_out_salt info)) (\<lambda>salt.
      if salt = 0 then Inr st
      else bindR (if totalOnly then Inr st
                  else bindR (decryptOutgoingChannelInfo L info (BNBigint address) (BNBigint viewingKey) (int s)) (\<lambda>out.
                       cd_discoverChannel L V address viewingKey st (oi_recipientAddr out))) (\<lambda>st'.
           Inr (st'\<lparr>cd_total := Some (max (case cd_total st' of None \<Rightarrow> 0 | Some n \<Rightarrow> n) (s + 1))\<rparr>))))"

definition rediscoverKnown ::
  "starknet_lib \<Rightarrow> PoolContract \<Rightarrow> ChannelsDiscovery \<Rightarrow> int \<times> Channel \<Rightarrow> ChannelsDiscovery result"
where
  "rediscoverKnown L V st e = (case e of (recipient, channel) \<Rightarrow>
     if \<not> key_truthy (key channel) then Inr st
     else bindR (cd_discoverSubchannels L V recipient channel st) (\<lambda>st'.
          foldR (\<lambda>st tn. cd_discoverNotes L V recipient (key channel) (fst tn) (noteNonce (snd tn)) st) st'
            (tokens channel)))"

definition contract_discoverChannels ::
  "starknet_lib \<Rightarrow> PoolContract \<Rightarrow> int \<Rightarrow> bignum \<Rightarrow> RecipientsFilter \<Rightarrow> ChannelsParams \<Rightarrow> ChannelsDiscoveryResult result"
where
  "contract_discoverChannels L V address viewingKey recipients params =
     bindR (toBigInt viewingKey) (\<lambda>vk.
     let cur = cloneChannelCursor (cp_cursor params);
         st0 = \<lparr>cd_channels = (case cc_channels cur of None \<Rightarrow> [] | Some m \<Rightarrow> m),
           cd_undefined = (cc_channels cur = None), cd_total = cc_total cur\<rparr>;
         start = (case cd_total st0 of None \<Rightarrow> 0 | Some n \<Rightarrow> n)
     in bindR (case recipients of
           Recipients rs \<Rightarrow> foldR (cd_discoverChannel L V address vk) st0 rs
         | AllRecipients \<Rightarrow> bindR (of_option Diverges (scan (outOk L V address vk) start False)) (\<lambda>calls.
             foldR (probeOutgoing L V address vk False) st0 calls)
         | TotalOnly \<Rightarrow> bindR (of_option Diverges (scan (outOk L V address vk) start True)) (\<lambda>calls.
             foldR (probeOutgoing L V address vk True) st0 calls)) (\<lambda>st1.
        bindR (foldR (rediscoverKnown L V) st1
                 (case cp_cursor params of None \<Rightarrow> [] | Some c \<Rightarrow> (case cc_channels c of None \<Rightarrow> [] | Some m \<Rightarrow> m))) (\<lambda>st2.
        Inr \<lparr>cr_timestamp = BlockNumber 0, cr_channels = (if cd_undefined st2 then None else Some (cd_channels st2)), cr_total = cd_total st2\<rparr>)))"

section \<open>The provider\<close>

definition ContractDiscoveryProvider :: "starknet_lib \<Rightarrow> PoolContract \<Rightarrow> DiscoveryProvider" where
  "ContractDiscoveryProvider L V =
     \<lparr>discoverNotes = contract_discoverNotes L V, discoverChannels = contract_discoverChannels L V\<rparr>"

definition discoverRequirement :: "DiscoveryProvider \<Rightarrow> int \<Rightarrow> bignum \<Rightarrow> int \<Rightarrow> int \<Rightarrow> SetupRequirement result" where
  "discoverRequirement D address viewingKey recipient token =
     bindR (discoverChannels D address viewingKey (Recipients [recipient])
              \<lparr>cp_cursor = None, cp_blockIdentifier = None\<rparr>) (\<lambda>r.
     Inr (case Option.bind (cr_channels r) (\<lambda>m. jm_get m recipient) of
            None \<Rightarrow> Register
          | Some channel \<Rightarrow> toSetupRequirement channel token))"

end
