(* ===== verification/Contract_Notes.thy ===== *)
theory Contract_Notes
  imports Contract_Discovery Samples
begin

text \<open>
  Correctness of the contract-based note discovery. \<open>pool_layout\<close> describes what the contract stores for
  the user: the incoming channels with their keys, for each the tokens of its subchannels and how many
  notes each holds. The theorem is that a discovery from scratch returns, for every wanted token,
  exactly the unspent notes of the layout.
\<close>

section \<open>Layout of the contract's storage\<close>

type_synonym layout = "(ChannelInfo \<times> (int \<times> nat) list) list"

definition notes_stored :: "starknet_lib \<Rightarrow> PoolContract \<Rightarrow> int \<Rightarrow> int \<Rightarrow> nat \<Rightarrow> bool" where
  "notes_stored L V ck token n = (\<forall>i. case toBigInt (packed_value (get_note V (compute_note_id L ck token (int i)))) of
     Inl _ \<Rightarrow> False | Inr v \<Rightarrow> (v \<noteq> 0) = (i < n))"

definition subs_stored :: "starknet_lib \<Rightarrow> PoolContract \<Rightarrow> int \<Rightarrow> (int \<times> nat) list \<Rightarrow> bool" where
  "subs_stored L V ck subs =
     ((\<forall>k. case toBigInt (enc_sub_salt (get_subchannel_info V (compute_subchannel_id L ck (int k)))) of
        Inl _ \<Rightarrow> False | Inr v \<Rightarrow> (v \<noteq> 0) = (k < length subs)) \<and>
      (\<forall>k < length subs.
        (case decryptSubchannelInfo L (get_subchannel_info V (compute_subchannel_id L ck (int k))) ck (int k) of
           Inl _ \<Rightarrow> False | Inr info \<Rightarrow> si_token info = fst (subs ! k)) \<and>
        notes_stored L V ck (fst (subs ! k)) (snd (subs ! k))))"

definition pool_layout :: "starknet_lib \<Rightarrow> PoolContract \<Rightarrow> int \<Rightarrow> bignum \<Rightarrow> layout \<Rightarrow> bool" where
  "pool_layout L V address viewingKey chans =
     (get_num_of_channels V address = length chans \<and>
      (\<forall>c < length chans. decryptChannelInfo L (get_channel_info V address c) viewingKey = Inr (fst (chans ! c)) \<and>
         subs_stored L V (ci_key (fst (chans ! c))) (snd (chans ! c))))"

section \<open>The expected notes\<close>

definition unspent_notes :: "starknet_lib \<Rightarrow> PoolContract \<Rightarrow> int \<Rightarrow> int \<Rightarrow> int \<Rightarrow> int \<Rightarrow> nat \<Rightarrow> Note list" where
  "unspent_notes L V vk ck sender token n =
     map (\<lambda>i. discoveredNote L (projr (toBigInt (packed_value (get_note V (compute_note_id L ck token (int i)))))) ck token sender i)
       (filter (\<lambda>i. \<not> nullifier_exists V (compute_nullifier L ck token (int i) vk)) [0 ..< n])"

definition expected_notes :: "starknet_lib \<Rightarrow> PoolContract \<Rightarrow> int \<Rightarrow> int list \<Rightarrow> layout \<Rightarrow> int \<Rightarrow> Note list" where
  "expected_notes L V vk wanted chans t =
     concat (map (\<lambda>(info, subs). concat (map (\<lambda>(token, n).
       if token = t \<and> (wanted = [] \<or> t \<in> set wanted) then unspent_notes L V vk (ci_key info) (ci_sender info) token n else [])
       subs)) chans)"

definition notes_at :: "int \<Rightarrow> NotesDiscovery \<Rightarrow> Note multiset" where
  "notes_at t st = (case jm_get (nd_notes st) t of None \<Rightarrow> {#} | Some ns \<Rightarrow> mset ns)"

definition has_sender :: "int \<Rightarrow> int \<Rightarrow> NotesDiscovery \<Rightarrow> bool" where
  "has_sender sender ck st = (map_option ic_channelKey (jm_get (incomingChannels (nd_cursor st)) sender) = Some ck)"

section \<open>One note\<close>

lemma upd_incoming_ok:
  assumes "has_sender sender ck st" "\<And>icc. ic_channelKey (f icc) = ic_channelKey icc"
  shows "\<exists>st'. upd_incoming st sender f = Inr st' \<and> has_sender sender ck st' \<and> notes_at t st' = notes_at t st"
proof -
  from assms(1) obtain icc where "jm_get (incomingChannels (nd_cursor st)) sender = Some icc" "ic_channelKey icc = ck"
    by (auto simp: has_sender_def)
  then show ?thesis using assms(2) by (simp add: upd_incoming_def has_sender_def notes_at_def)
qed

definition note_weight ::
  "starknet_lib \<Rightarrow> PoolContract \<Rightarrow> int \<Rightarrow> int \<Rightarrow> int \<Rightarrow> int \<Rightarrow> int \<Rightarrow> nat \<Rightarrow> Note multiset"
where
  "note_weight L V vk ck sender token t i =
     (if token = t \<and> \<not> nullifier_exists V (compute_nullifier L ck token (int i) vk)
      then {#discoveredNote L (projr (toBigInt (packed_value (get_note V (compute_note_id L ck token (int i)))))) ck token sender i#}
      else {#})"

lemma push_notes_at:
  "jm_get_default (nd_notes st) token [] = (ns, old) \<Longrightarrow>
   notes_at t (st\<lparr>nd_notes := jm_set ns token (old @ [n])\<rparr>) = notes_at t st + (if token = t then {#n#} else {#})"
  by (auto simp: notes_at_def jm_get_default_def split: option.splits if_splits)

lemma addNote_ok:
  assumes "has_sender sender ck st" "toBigInt (packed_value nd) = Inr pv"
  shows "\<exists>st'. addNoteIfNotSpent L V vk nd i ck token sender True st = Inr st' \<and> has_sender sender ck st' \<and>
    notes_at t st' = notes_at t st + (if token = t then {#discoveredNote L pv ck token sender i#} else {#})"
proof -
  obtain ns old where d: "jm_get_default (nd_notes st) token [] = (ns, old)" by fastforce
  let ?st = "st\<lparr>nd_notes := jm_set ns token (old @ [discoveredNote L pv ck token sender i])\<rparr>"
  have h: "has_sender sender ck ?st" using assms(1) by (simp add: has_sender_def)
  show ?thesis
    using upd_incoming_ok [OF h, of _ t] push_notes_at [OF d, of t] assms(2) d
    by (auto simp: addNoteIfNotSpent_def Let_def)
qed

lemma addNote_check:
  "addNoteIfNotSpent L V vk nd i ck token sender False st =
     bindR (spent L V vk ck token i) (\<lambda>s. if s then Inr st else addNoteIfNotSpent L V vk nd i ck token sender True st)"
  by (cases "spent L V vk ck token i") (auto simp: addNoteIfNotSpent_def)

lemma notes_storedE:
  assumes "notes_stored L V ck token n"
  obtains pv where "toBigInt (packed_value (get_note V (compute_note_id L ck token (int i)))) = Inr pv" "(pv \<noteq> 0) = (i < n)"
  using assms
  by (cases "toBigInt (packed_value (get_note V (compute_note_id L ck token (int i))))")
    (auto simp: notes_stored_def dest: spec [of _ i])

lemma probeNote_ok:
  assumes "notes_stored L V ck token n" "BigInt vk = Inr v" "has_sender sender ck st"
  shows "\<exists>st'. probeNote L V vk ck token sender st call = Inr st' \<and> has_sender sender ck st' \<and>
    notes_at t st' = notes_at t st + (if filled n (fst call) then note_weight L V v ck sender token t (fst call) else {#})"
proof -
  obtain i skip where c: "call = (i, skip)" by fastforce
  let ?nd = "get_note V (compute_note_id L ck token (int i))"
  from assms(1) obtain pv where pv: "toBigInt (packed_value ?nd) = Inr pv" "(pv \<noteq> 0) = (i < n)"
    by (rule notes_storedE)
  have sp: "spent L V vk ck token i = Inr (nullifier_exists V (compute_nullifier L ck token (int i) v))"
    using assms(2) by (simp add: spent_def)
  show ?thesis
    using addNote_ok [OF assms(3) pv(1), of L V vk i token t] assms(3) pv sp
    by (auto simp: c probeNote_def Let_def addNote_check note_weight_def filled_def)
qed

lemma noteOk_filled: "notes_stored L V ck token n \<Longrightarrow> noteOk L V ck token = filled n"
  by (auto simp: noteOk_def nonzero_def notes_stored_def filled_def fun_eq_iff split: sum.splits dest: spec)

lemma sum_weights:
  "sum_list (map (note_weight L V v ck sender token t) [0 ..< n]) =
     (if token = t then mset (unspent_notes L V v ck sender token n) else {#})"
  by (induction n) (auto simp: note_weight_def unspent_notes_def)

lemma discoverNotes_ok:
  assumes "notes_stored L V ck token n" "BigInt vk = Inr v" "has_sender sender ck st"
  shows "\<exists>st'. nd_discoverNotes L V vk sender token start st = Inr st' \<and> has_sender sender ck st' \<and>
    notes_at t st' = notes_at t st + (if token = t then mset (unspent_notes L V v ck sender token n) else {#})"
proof -
  from assms(3) obtain icc where icc: "jm_get (incomingChannels (nd_cursor st)) sender = Some icc" "ic_channelKey icc = ck"
    by (auto simp: has_sender_def)
  from scan_loop_cover [of INITIAL_STEP 0 n start INITIAL_OFFSET False] obtain calls where
    calls: "scan (filled n) start False = Some calls" "mset (filter (filled n) (map fst calls)) = mset [0 ..< n]"
    by (auto simp: scan_def INITIAL_STEP_def)
  from foldR_additive [where step = "probeNote L V vk ck token sender" and Q = "has_sender sender ck" and
      mu = "notes_at t" and w = "\<lambda>c. if filled n (fst c) then note_weight L V v ck sender token t (fst c) else {#}" and
      xs = calls, OF probeNote_ok [OF assms(1,2)] assms(3)]
  show ?thesis using icc calls
    by (auto simp: nd_discoverNotes_def noteOk_filled [OF assms(1)] sum_calls [OF calls(2)] sum_weights)
qed

section \<open>One subchannel, one channel\<close>

lemma subs_storedE:
  assumes "subs_stored L V ck subs"
  obtains v where "toBigInt (enc_sub_salt (get_subchannel_info V (compute_subchannel_id L ck (int k)))) = Inr v"
    "(v \<noteq> 0) = (k < length subs)"
  using assms
  by (cases "toBigInt (enc_sub_salt (get_subchannel_info V (compute_subchannel_id L ck (int k))))")
    (auto simp: subs_stored_def dest: spec [of _ k])

lemma subs_stored_nth:
  assumes "subs_stored L V ck subs" "k < length subs"
  obtains info where
    "decryptSubchannelInfo L (get_subchannel_info V (compute_subchannel_id L ck (int k))) ck (int k) = Inr info"
    "si_token info = fst (subs ! k)" "notes_stored L V ck (fst (subs ! k)) (snd (subs ! k))"
  using assms
  by (cases "decryptSubchannelInfo L (get_subchannel_info V (compute_subchannel_id L ck (int k))) ck (int k)")
    (auto simp: subs_stored_def dest: spec [of _ k])

definition sub_weight ::
  "starknet_lib \<Rightarrow> PoolContract \<Rightarrow> int \<Rightarrow> int list \<Rightarrow> int \<Rightarrow> int \<Rightarrow> int \<Rightarrow> int \<times> nat \<Rightarrow> Note multiset"
where
  "sub_weight L V v wanted ck sender t tn =
     (if fst tn = t \<and> (wanted = [] \<or> t \<in> set wanted) then mset (unspent_notes L V v ck sender (fst tn) (snd tn)) else {#})"

lemma probeSubchannel_ok:
  assumes "subs_stored L V ck subs" "BigInt vk = Inr v" "has_sender sender ck st"
  shows "\<exists>st'. probeSubchannel L V vk wanted ck sender st call = Inr st' \<and> has_sender sender ck st' \<and>
    notes_at t st' = notes_at t st +
      (if filled (length subs) (fst call) then sub_weight L V v wanted ck sender t (subs ! fst call) else {#})"
proof -
  let ?k = "fst call"
  from assms(1) obtain salt where salt:
    "toBigInt (enc_sub_salt (get_subchannel_info V (compute_subchannel_id L ck (int ?k)))) = Inr salt"
    "(salt \<noteq> 0) = (?k < length subs)" by (rule subs_storedE)
  show ?thesis
  proof (cases "?k < length subs")
    case False
    with salt assms(3) show ?thesis by (simp add: probeSubchannel_def Let_def filled_def)
  next
    case True
    from assms(1) True obtain info where info:
      "decryptSubchannelInfo L (get_subchannel_info V (compute_subchannel_id L ck (int ?k))) ck (int ?k) = Inr info"
      "si_token info = fst (subs ! ?k)" "notes_stored L V ck (fst (subs ! ?k)) (snd (subs ! ?k))" by (rule subs_stored_nth)
    show ?thesis
    proof (cases "wanted \<noteq> [] \<and> fst (subs ! ?k) \<notin> set wanted")
      case skip: True
      with salt True info assms(3) show ?thesis
        by (auto simp: probeSubchannel_def Let_def filled_def sub_weight_def)
    next
      case take: False
      let ?f = "\<lambda>icc. icc\<lparr>ic_noteIndexes := jm_set (ic_noteIndexes icc) (si_token info) 0,
        ic_subchannelIdIndex := max (ic_subchannelIdIndex icc) (int ?k)\<rparr>"
      from upd_incoming_ok [OF assms(3), of ?f t] obtain st1 where
        st1: "upd_incoming st sender ?f = Inr st1" "has_sender sender ck st1" "notes_at t st1 = notes_at t st" by auto
      from discoverNotes_ok [OF info(3) assms(2) st1(2), of 0 t] st1 salt True info take show ?thesis
        by (auto simp: probeSubchannel_def Let_def filled_def sub_weight_def)
    qed
  qed
qed

lemma subOk_filled: "subs_stored L V ck subs \<Longrightarrow> subOk L V ck = filled (length subs)"
proof
  fix k
  assume "subs_stored L V ck subs"
  then obtain v where "toBigInt (enc_sub_salt (get_subchannel_info V (compute_subchannel_id L ck (int k)))) = Inr v"
    "(v \<noteq> 0) = (k < length subs)" by (rule subs_storedE)
  then show "subOk L V ck k = filled (length subs) k" by (simp add: subOk_def nonzero_def filled_def)
qed

lemma discoverSubchannels_ok:
  assumes "subs_stored L V ck subs" "BigInt vk = Inr v" "has_sender sender ck st"
  shows "\<exists>st'. nd_discoverSubchannels L V vk wanted sender st = Inr st' \<and>
    notes_at t st' = notes_at t st + sum_list (map (sub_weight L V v wanted ck sender t) subs)"
proof -
  let ?N = "length subs"
  from assms(3) obtain icc where icc: "jm_get (incomingChannels (nd_cursor st)) sender = Some icc" "ic_channelKey icc = ck"
    by (auto simp: has_sender_def)
  from scan_loop_cover [of INITIAL_STEP 0 ?N "nat (ic_subchannelIdIndex icc)" INITIAL_OFFSET False] obtain calls where
    calls: "scan (filled ?N) (nat (ic_subchannelIdIndex icc)) False = Some calls"
    "mset (filter (filled ?N) (map fst calls)) = mset [0 ..< ?N]"
    by (auto simp: scan_def INITIAL_STEP_def)
  let ?g = "\<lambda>k. sub_weight L V v wanted ck sender t (subs ! k)"
  have g: "map ?g [0 ..< ?N] = map (sub_weight L V v wanted ck sender t) subs"
    by (rule nth_equalityI) simp_all
  from foldR_additive [where step = "probeSubchannel L V vk wanted ck sender" and Q = "has_sender sender ck" and
      mu = "notes_at t" and w = "\<lambda>c. if filled ?N (fst c) then ?g (fst c) else {#}" and xs = calls,
      OF probeSubchannel_ok [OF assms(1,2)] assms(3)] obtain st' where
    st': "foldR (probeSubchannel L V vk wanted ck sender) st calls = Inr st'"
    "notes_at t st' = notes_at t st + sum_list (map (\<lambda>c. if filled ?N (fst c) then ?g (fst c) else {#}) calls)" by blast
  have "notes_at t st' = notes_at t st + sum_list (map (sub_weight L V v wanted ck sender t) subs)"
    using st'(2) by (simp only: sum_calls [OF calls(2), of ?g] g)
  then show ?thesis using icc calls(1) st'(1)
    by (simp add: nd_discoverSubchannels_def subOk_filled [OF assms(1)])
qed

definition chan_weight ::
  "starknet_lib \<Rightarrow> PoolContract \<Rightarrow> int \<Rightarrow> int list \<Rightarrow> int \<Rightarrow> ChannelInfo \<times> (int \<times> nat) list \<Rightarrow> Note multiset"
where
  "chan_weight L V v wanted t ch = sum_list (map (sub_weight L V v wanted (ci_key (fst ch)) (ci_sender (fst ch)) t) (snd ch))"

lemma probeChannel_ok:
  assumes "pool_layout L V address vk chans" "BigInt vk = Inr v" "fst call < length chans"
  shows "\<exists>st'. probeChannel L V address vk wanted st call = Inr st' \<and>
    notes_at t st' = notes_at t st + chan_weight L V v wanted t (chans ! fst call)"
proof -
  obtain info subs where ch: "chans ! fst call = (info, subs)" by fastforce
  from assms(1,3) ch have dec: "decryptChannelInfo L (get_channel_info V address (fst call)) vk = Inr info"
    and subs: "subs_stored L V (ci_key info) subs" by (auto simp: pool_layout_def dest: spec [of _ "fst call"])
  let ?st = "st\<lparr>nd_cursor := (nd_cursor st)\<lparr>incomingChannels := jm_set (incomingChannels (nd_cursor st)) (ci_sender info)
    \<lparr>ic_channelKey = ci_key info, ic_subchannelIdIndex = 0, ic_noteIndexes = [], ic_totalNoteCounts = []\<rparr>\<rparr>\<rparr>"
  have "has_sender (ci_sender info) (ci_key info) ?st" by (simp add: has_sender_def)
  from discoverSubchannels_ok [OF subs assms(2) this, of wanted t] dec show ?thesis
    by (simp add: probeChannel_def ch chan_weight_def notes_at_def)
qed

lemma mset_sum_list_concat: "mset (concat xss) = sum_list (map mset xss)"
  by (induction xss) auto

lemma expected_weight:
  "mset (expected_notes L V v wanted chans t) = sum_list (map (chan_weight L V v wanted t) chans)"
  by (auto simp: expected_notes_def chan_weight_def sub_weight_def mset_sum_list_concat comp_def
      split: prod.splits intro!: arg_cong [where f = sum_list] map_cong)

lemma discoverChannels_ok:
  assumes "pool_layout L V address vk chans" "BigInt vk = Inr v"
  shows "\<exists>st'. nd_discoverChannels L V address vk wanted 0 st = Inr st' \<and>
    notes_at t st' = notes_at t st + mset (expected_notes L V v wanted chans t)"
proof -
  let ?calls = "bisect (\<lambda>_. True) 0 (length chans) False"
  let ?g = "\<lambda>c. chan_weight L V v wanted t (chans ! c)"
  have all: "mset (map fst ?calls) = mset [0 ..< length chans]" by (rule bisect_all)
  have bound: "fst x < length chans" if "x \<in> set ?calls" for x
    using that mset_eq_setD [OF all] by (auto simp: set_eq_iff image_iff)
  have g: "map ?g [0 ..< length chans] = map (chan_weight L V v wanted t) chans"
    by (rule nth_equalityI) simp_all
  have "sum_list (map (\<lambda>c. ?g (fst c)) ?calls) = sum_list (map ?g [0 ..< length chans])"
    using sum_calls [where P = "\<lambda>_. True" and g = ?g, of ?calls "[0 ..< length chans]"] all by simp
  with foldR_additive [where step = "probeChannel L V address vk wanted" and Q = "\<lambda>_. True" and
      mu = "notes_at t" and w = "\<lambda>c. ?g (fst c)" and xs = ?calls and s = st]
    probeChannel_ok [OF assms] bound assms(1)
  show ?thesis by (auto simp: nd_discoverChannels_def pool_layout_def expected_weight g)
qed

text \<open>
  C14: a note discovery from scratch returns. Whatever the contract stores (as laid out in channels,
  subchannels and notes), for every token it returns exactly the unspent notes, each once, with their
  decrypted amounts; tokens outside a non-empty filter give none.
\<close>

theorem contract_notes_exact:
  assumes "pool_layout L V address viewingKey chans" "BigInt viewingKey = Inr vk" "np_cursor params = None"
  shows "\<exists>r. contract_discoverNotes L V address viewingKey params = Inr r \<and>
           mset (optl (jm_get (nr_notes r) t)) = mset (expected_notes L V vk (optl (np_tokens params)) chans t)"
proof -
  let ?st = "\<lparr>nd_notes = [], nd_cursor = cloneNotesCursor None\<rparr>"
  from discoverChannels_ok [OF assms(1,2), of "optl (np_tokens params)" ?st t] obtain st1 where
    st1: "nd_discoverChannels L V address viewingKey (optl (np_tokens params)) 0 ?st = Inr st1"
    "notes_at t st1 = notes_at t ?st + mset (expected_notes L V vk (optl (np_tokens params)) chans t)" by blast
  have "mset (optl (jm_get (nd_notes st1) t)) = notes_at t st1" by (simp add: notes_at_def optl_def split: option.splits)
  with st1 assms(3) show ?thesis by (simp add: contract_discoverNotes_def Let_def notes_at_def)
qed

section \<open>A concrete contract\<close>

text \<open>
  One incoming channel (key \<open>90\<close>, sender \<open>13\<close>) with one subchannel for token \<open>8\<close> that holds an open note
  of \<open>25\<close> and a spent one. The hash of \<open>wide_lib\<close> is injective on the identifiers used.
\<close>

definition wide_lib :: starknet_lib where
  "wide_lib = sample_lib\<lparr>poseidonHashMany := foldl (\<lambda>a x. a * 1000 + x) 0\<rparr>"

definition sample_contract :: PoolContract where
  "sample_contract = \<lparr>
     channel_exists = (\<lambda>_. False),
     get_num_of_channels = (\<lambda>_. 1),
     get_channel_info = (\<lambda>_ _. \<lparr>ephemeral_pubkey = BNBigint 15, enc_channel_key = BNBigint 39, enc_sender_addr = BNBigint 73\<rparr>),
     get_subchannel_info = (\<lambda>i. if i = 1483090000000 then \<lparr>enc_sub_salt = BNBigint 3, enc_token = BNBigint 24\<rparr>
        else \<lparr>enc_sub_salt = BNBigint 0, enc_token = BNBigint 0\<rparr>),
     get_outgoing_channel_info = (\<lambda>_. \<lparr>enc_out_salt = BNBigint 0, enc_recipient_addr = BNBigint 0\<rparr>),
     get_note = (\<lambda>i. \<lparr>packed_value = BNBigint (if i = 1054090008000000 then 2 ^ 128 + 25
        else if i = 1054090008001000 then 5 * 2 ^ 128 + 77 else 0), nd_token = BNBigint 8\<rparr>),
     nullifier_exists = (\<lambda>n. n = 1190090008001000007),
     get_public_key = (\<lambda>_. BNBigint 0)\<rparr>"

lemma tagged_wide:
  "hash_arg wide_lib (BNString t) = Inr n \<Longrightarrow> tagged wide_lib t ns = foldl (\<lambda>a x. a * 1000 + x) n ns"
  by (simp add: tagged_def hash_def wide_lib_def)

lemma wide_ids:
  "compute_note_id wide_lib ck t i = (((1054 * 1000 + ck) * 1000 + t) * 1000 + i) * 1000"
  "compute_subchannel_id wide_lib ck i = ((1483 * 1000 + ck) * 1000 + i) * 1000"
proof -
  have "hash_arg wide_lib (BNString NOTE_ID_TAG) = Inr 1054" "hash_arg wide_lib (BNString SUBCHANNEL_ID_TAG) = Inr 1483"
    by code_simp+
  then show "compute_note_id wide_lib ck t i = (((1054 * 1000 + ck) * 1000 + t) * 1000 + i) * 1000"
    "compute_subchannel_id wide_lib ck i = ((1483 * 1000 + ck) * 1000 + i) * 1000"
    by (simp_all add: compute_note_id_def compute_subchannel_id_def tagged_wide)
qed

lemma sample_layout:
  "pool_layout wide_lib sample_contract 1 (BNBigint 7) [(\<lparr>ci_key = 90, ci_sender = 13\<rparr>, [(8, 2)])]"
proof -
  have dec: "decryptChannelInfo wide_lib (get_channel_info sample_contract 1 0) (BNBigint 7) = Inr \<lparr>ci_key = 90, ci_sender = 13\<rparr>"
    "decryptSubchannelInfo wide_lib \<lparr>enc_sub_salt = BNBigint 3, enc_token = BNBigint 24\<rparr> 90 0 = Inr \<lparr>si_token = 8, si_salt = 3\<rparr>"
    by code_simp+
  have stored: "notes_stored wide_lib sample_contract 90 8 2"
    by (auto simp: notes_stored_def sample_contract_def wide_ids)
  show ?thesis using dec stored
    by (auto simp: pool_layout_def subs_stored_def wide_ids sample_contract_def)
qed

theorem contract_notes_exact_witness:
  "\<exists>r. contract_discoverNotes wide_lib sample_contract 1 (BNBigint 7)
         \<lparr>np_cursor = None, np_tokens = Some [8], np_blockIdentifier = None\<rparr> = Inr r \<and>
       mset (optl (jm_get (nr_notes r) 8)) =
         mset (expected_notes wide_lib sample_contract 7 [8] [(\<lparr>ci_key = 90, ci_sender = 13\<rparr>, [(8, 2)])] 8)"
  using contract_notes_exact [OF sample_layout, of 7 "\<lparr>np_cursor = None, np_tokens = Some [8], np_blockIdentifier = None\<rparr>" 8]
  by simp

definition sample_cursor :: NotesCursor where
  "sample_cursor = \<lparr>nc_blockId = BlockNumber 0, incomingChannels =
     [(13, \<lparr>ic_channelKey = 90, ic_subchannelIdIndex = 0, ic_noteIndexes = [(8, 1)], ic_totalNoteCounts = []\<rparr>)]\<rparr>"

text \<open>
  an incremental discovery is not exact. With a cursor that already knows a subchannel, its
  notes are scanned twice, once from the subchannel scan and once from the cursor's own entry, both
  from slot \<open>0\<close>: the unspent note of \<open>25\<close> is returned twice.
\<close>

theorem contract_notes_rediscovered:
  "(case contract_discoverNotes wide_lib sample_contract 1 (BNBigint 7)
           \<lparr>np_cursor = Some sample_cursor, np_tokens = None, np_blockIdentifier = None\<rparr> of
      Inl _ \<Rightarrow> []
    | Inr r \<Rightarrow> map n_amount (optl (jm_get (nr_notes r) 8))) = [25, 25]"
  by code_simp

end
