(* ===== verification/Indexer_Cursor.thy ===== *)
theory Indexer_Cursor
  imports Interfaces
begin

text \<open>
  The wire types of \<open>sdk/src/internal/indexer-discovery.ts\<close>, its cursor conversions and the accumulation
  of outgoing pages. A JSON object is an insertion-ordered map over its property names (addresses in
  hexadecimal, so no name is an array index and \<open>Object.entries\<close> keeps insertion order); an optional
  property is an \<open>option\<close>. The theorems: a cursor survives the trip to the wire and back, and pruning
  drops finished work only.
\<close>

section \<open>Wire types\<close>

record ApiSubchannelCursor =
  note_discovery_complete :: "bool option"
  asc_last_note_index :: "int option"
  total_n_notes :: "int option"

record ApiChannelCursor =
  acc_channel_key :: "string option"
  subchannel_discovery_complete :: "bool option"
  last_subchannel_index :: "int option"
  acc_subchannels :: "(string, ApiSubchannelCursor) jsmap option"

record ApiDiscoveryCursor =
  channel_discovery_complete :: "bool option"
  total_n_channels :: "nat option"
  last_channel_index :: "int option"
  adc_channels :: "(string, ApiChannelCursor) jsmap option"

record ApiIncomingChannel =
  aic_channel_key :: string
  aic_sender_addr :: string

record ApiIncomingSubchannelInfo =
  ais_sender_addr :: string
  ais_token :: string

record ApiIncomingNoteInfo =
  ain_sender_addr :: string
  ain_token :: string
  ain_index :: nat
  ain_note_id :: string
  ain_amount :: string
  ain_salt :: string
  ain_block_number :: int

record ApiOutgoingChannel =
  aoc_recipient_addr :: string
  aoc_recipient_public_key :: string
  aoc_channel_key :: string
  precomputed :: "bool option"

record ApiOutgoingSubchannelInfo =
  aos_recipient_addr :: string
  aos_token :: string
  aos_last_note_index :: "nat option"

record ApiIncomingSyncResponse =
  air_block_ref :: BlockId
  air_channels :: "ApiIncomingChannel list"
  air_subchannels :: "ApiIncomingSubchannelInfo list"
  air_notes :: "ApiIncomingNoteInfo list"
  air_cursor :: ApiDiscoveryCursor

record ApiOutgoingSyncResponse =
  aor_block_ref :: BlockId
  aor_channels :: "ApiOutgoingChannel list"
  aor_subchannels :: "ApiOutgoingSubchannelInfo list"
  aor_cursor :: ApiDiscoveryCursor

abbreviation parse_int :: "string \<Rightarrow> int result" where
  "parse_int s \<equiv> BigInt (BNString s)"

section \<open>Completion and pruning\<close>

abbreviation flag :: "bool option \<Rightarrow> bool" where
  "flag b \<equiv> b = Some True"

definition channel_complete :: "ApiChannelCursor \<Rightarrow> bool" where
  "channel_complete ch = (flag (subchannel_discovery_complete ch) \<and>
     (case acc_subchannels ch of None \<Rightarrow> True
      | Some m \<Rightarrow> list_all (\<lambda>sc. flag (note_discovery_complete sc)) (jm_values m)))"

definition isApiCursorComplete :: "ApiDiscoveryCursor \<Rightarrow> bool" where
  "isApiCursorComplete cursor =
     (if \<not> flag (channel_discovery_complete cursor) then False
      else case adc_channels cursor of None \<Rightarrow> True
           | Some m \<Rightarrow> list_all channel_complete (jm_values m))"

text \<open>
  The loop of \<open>pruneCompleteCursor\<close> runs over a snapshot of the entries and deletes from the object;
  one step is the body for one entry.
\<close>

definition prune_subchannels :: "(string, ApiSubchannelCursor) jsmap \<Rightarrow> (string, ApiSubchannelCursor) jsmap" where
  "prune_subchannels subs =
     foldl (\<lambda>m e. if flag (note_discovery_complete (snd e)) then jm_delete m (fst e) else m) subs subs"

definition prune_channel ::
  "(string, ApiChannelCursor) jsmap \<Rightarrow> string \<times> ApiChannelCursor \<Rightarrow> (string, ApiChannelCursor) jsmap"
where
  "prune_channel m e =
     (case acc_subchannels (snd e) of
        None \<Rightarrow> m
      | Some subs \<Rightarrow>
          if flag (subchannel_discovery_complete (snd e)) then
            let subs' = prune_subchannels subs;
                m' = jm_set m (fst e) ((snd e)\<lparr>acc_subchannels := Some subs'\<rparr>)
            in if subs' = [] then jm_delete m' (fst e) else m'
          else m)"

definition pruneCompleteCursor :: "ApiDiscoveryCursor \<Rightarrow> ApiDiscoveryCursor" where
  "pruneCompleteCursor cursor =
     (case adc_channels cursor of
        None \<Rightarrow> cursor
      | Some m \<Rightarrow> cursor\<lparr>adc_channels := Some (foldl prune_channel m m)\<rparr>)"

section \<open>Cursor conversions\<close>

text \<open>A token filter is the duplicate-free list of its members.\<close>

definition filter_has :: "int list option \<Rightarrow> int \<Rightarrow> bool" where
  "filter_has tokenFilter token = (case tokenFilter of None \<Rightarrow> True | Some ts \<Rightarrow> token \<in> set ts)"

definition subchannelCursor :: "int \<Rightarrow> int option \<Rightarrow> ApiSubchannelCursor" where
  "subchannelCursor noteIndex noteCount =
     \<lparr>note_discovery_complete = None,
      asc_last_note_index = (if noteIndex > 0 then Some (noteIndex - 1) else None),
      total_n_notes = noteCount\<rparr>"

definition buildSubchannelCursors ::
  "(int \<times> int) list \<Rightarrow> int list option \<Rightarrow> (int, int) jsmap option \<Rightarrow> (string, ApiSubchannelCursor) jsmap"
where
  "buildSubchannelCursors noteIndexes tokenFilter totalNoteCounts =
     foldl (\<lambda>subchannels (token, noteIndex).
        if \<not> filter_has tokenFilter token then subchannels
        else jm_set subchannels (hex_of token)
               (subchannelCursor noteIndex (Option.bind totalNoteCounts (\<lambda>m. jm_get m token))))
       [] noteIndexes"

definition incomingToApi :: "int list option \<Rightarrow> IncomingChannelCursor \<Rightarrow> ApiChannelCursor" where
  "incomingToApi tokenFilter icc =
     (let subchannels = buildSubchannelCursors (ic_noteIndexes icc) tokenFilter (Some (ic_totalNoteCounts icc))
      in \<lparr>acc_channel_key = Some (hex_of (ic_channelKey icc)),
          subchannel_discovery_complete = Some (case tokenFilter of None \<Rightarrow> False
             | Some ts \<Rightarrow> length ts = length subchannels),
          last_subchannel_index =
            (if ic_subchannelIdIndex icc > 0 then Some (ic_subchannelIdIndex icc - 1) else None),
          acc_subchannels = Some subchannels\<rparr>)"

definition notesCursorToApiCursor :: "NotesCursor \<Rightarrow> int list option \<Rightarrow> ApiDiscoveryCursor" where
  "notesCursorToApiCursor cursor tokenFilter =
     \<lparr>channel_discovery_complete = Some False,
      total_n_channels = None,
      last_channel_index =
        (if length (incomingChannels cursor) > 0 then Some (int (length (incomingChannels cursor)) - 1) else None),
      adc_channels = Some (foldl (\<lambda>m (sender, icc). jm_set m (hex_of sender) (incomingToApi tokenFilter icc))
        [] (incomingChannels cursor))\<rparr>"

definition index_after :: "int option \<Rightarrow> int" where
  "index_after i = (case i of None \<Rightarrow> - 1 | Some n \<Rightarrow> n) + 1"

definition addSubchannel ::
  "(int, int) jsmap \<times> (int, int) jsmap \<Rightarrow> string \<times> ApiSubchannelCursor \<Rightarrow> ((int, int) jsmap \<times> (int, int) jsmap) result"
where
  "addSubchannel acc e = (case acc of (noteIndexes, totalNoteCounts) \<Rightarrow>
     bindR (parse_int (fst e)) (\<lambda>token.
     Inr (jm_set noteIndexes token (index_after (asc_last_note_index (snd e))),
          case total_n_notes (snd e) of None \<Rightarrow> totalNoteCounts
          | Some n \<Rightarrow> jm_set totalNoteCounts token n)))"

text \<open>An absent or empty \<open>channel_key\<close> is falsy and gives \<open>0n\<close>.\<close>

definition incomingFromApi :: "ApiChannelCursor \<Rightarrow> IncomingChannelCursor result" where
  "incomingFromApi ch =
     bindR (case acc_channel_key ch of None \<Rightarrow> Inr 0 | Some s \<Rightarrow> if s = [] then Inr 0 else parse_int s) (\<lambda>channelKey.
     bindR (foldR addSubchannel ([], []) (optl (acc_subchannels ch))) (\<lambda>(noteIndexes, totalNoteCounts).
     Inr \<lparr>ic_channelKey = channelKey, ic_subchannelIdIndex = index_after (last_subchannel_index ch),
          ic_noteIndexes = noteIndexes, ic_totalNoteCounts = totalNoteCounts\<rparr>))"

definition apiCursorToNotesCursor :: "ApiDiscoveryCursor \<Rightarrow> BlockId \<Rightarrow> NotesCursor result" where
  "apiCursorToNotesCursor apiCursor blockRef =
     bindR (foldR (\<lambda>m (senderHex, ch).
              bindR (incomingFromApi ch) (\<lambda>icc. bindR (parse_int senderHex) (\<lambda>sender. Inr (jm_set m sender icc))))
             [] (optl (adc_channels apiCursor))) (\<lambda>incoming.
     Inr \<lparr>nc_blockId = blockRef, incomingChannels = incoming\<rparr>)"

abbreviation token_nonces :: "Channel \<Rightarrow> (int \<times> int) list" where
  "token_nonces c \<equiv> map (\<lambda>(token, nonces). (token, int (noteNonce nonces))) (tokens c)"

definition outgoingToApi :: "int \<Rightarrow> Channel \<Rightarrow> ApiChannelCursor" where
  "outgoingToApi k channel =
     \<lparr>acc_channel_key = Some (hex_of k), subchannel_discovery_complete = Some False,
      last_subchannel_index = None,
      acc_subchannels = Some (buildSubchannelCursors (token_nonces channel) None None)\<rparr>"

definition channelMapToApiCursor :: "(int, Channel) jsmap option \<Rightarrow> bool \<Rightarrow> ApiDiscoveryCursor" where
  "channelMapToApiCursor channels channelDiscoveryComplete =
     \<lparr>channel_discovery_complete = Some channelDiscoveryComplete, total_n_channels = None,
      last_channel_index = None,
      adc_channels = Some (foldl (\<lambda>m (recipient, channel).
          case key channel of
            None \<Rightarrow> m
          | Some k \<Rightarrow> if k = 0 then m else jm_set m (hex_of recipient) (outgoingToApi k channel))
        [] (optl channels))\<rparr>"

section \<open>Outgoing pages\<close>

record OutgoingInfo =
  ch_publicKey :: int
  ch_channelKey :: int

record SubInfo =
  sub_token :: int
  sub_lastIndex :: "nat option"

record Outgoing =
  createdChannelMap :: "(string, OutgoingInfo) jsmap"
  subchannelsByRecipient :: "(string, (string, SubInfo) jsmap) jsmap"
  nonCreatedChannelMap :: "(string, OutgoingInfo) jsmap"

definition no_outgoing :: Outgoing where
  "no_outgoing = \<lparr>createdChannelMap = [], subchannelsByRecipient = [], nonCreatedChannelMap = []\<rparr>"

definition accChannel :: "Outgoing \<Rightarrow> ApiOutgoingChannel \<Rightarrow> Outgoing result" where
  "accChannel o1 ch =
     bindR (parse_int (aoc_recipient_public_key ch)) (\<lambda>pk.
     bindR (parse_int (aoc_channel_key ch)) (\<lambda>k.
     let info = \<lparr>ch_publicKey = pk, ch_channelKey = k\<rparr>; r = aoc_recipient_addr ch in
     Inr (if flag (precomputed ch) then
            if \<not> jm_has (createdChannelMap o1) r
            then o1\<lparr>nonCreatedChannelMap := jm_set (nonCreatedChannelMap o1) r info\<rparr> else o1
          else o1\<lparr>createdChannelMap := jm_set (createdChannelMap o1) r info,
                  nonCreatedChannelMap := jm_delete (nonCreatedChannelMap o1) r\<rparr>)))"

definition accSubchannel :: "Outgoing \<Rightarrow> ApiOutgoingSubchannelInfo \<Rightarrow> Outgoing result" where
  "accSubchannel o1 sc =
     (let r = aos_recipient_addr sc;
          tokenMap = (case jm_get (subchannelsByRecipient o1) r of None \<Rightarrow> [] | Some m \<Rightarrow> m);
          o2 = o1\<lparr>subchannelsByRecipient := jm_set (subchannelsByRecipient o1) r tokenMap\<rparr>
      in if \<not> jm_has tokenMap (aos_token sc) \<or> aos_last_note_index sc \<noteq> None then
           bindR (parse_int (aos_token sc)) (\<lambda>token.
           Inr (o2\<lparr>subchannelsByRecipient := jm_set (subchannelsByRecipient o2) r
                  (jm_set tokenMap (aos_token sc) \<lparr>sub_token = token, sub_lastIndex = aos_last_note_index sc\<rparr>)\<rparr>))
         else Inr o2)"

definition accumulateOutgoingResponse :: "Outgoing \<Rightarrow> ApiOutgoingSyncResponse \<Rightarrow> Outgoing result" where
  "accumulateOutgoingResponse o1 resp =
     bindR (foldR accChannel o1 (aor_channels resp)) (\<lambda>o2. foldR accSubchannel o2 (aor_subchannels resp))"

definition build_tokens :: "(string, SubInfo) jsmap \<Rightarrow> (int, TokenChannel) jsmap" where
  "build_tokens subs =
     fst (foldl (\<lambda>(toks, i) (_, sub).
        (jm_set toks (sub_token sub)
           \<lparr>tokenIndex = i, noteNonce = (case sub_lastIndex sub of Some n \<Rightarrow> n + 1 | None \<Rightarrow> 0)\<rparr>, i + 1))
       ([], 0) subs)"

definition buildChannelMap :: "Outgoing \<Rightarrow> (int, Channel) jsmap result" where
  "buildChannelMap acc =
     bindR (foldR (\<lambda>channels (recipientHex, info).
              let toks = (case jm_get (subchannelsByRecipient acc) recipientHex of None \<Rightarrow> [] | Some subs \<Rightarrow> build_tokens subs)
              in bindR (parse_int recipientHex) (\<lambda>r.
                 Inr (jm_set channels r (new_Channel (BNBigint (ch_publicKey info)) (Some (ch_channelKey info)) toks))))
             [] (createdChannelMap acc)) (\<lambda>channels.
     foldR (\<lambda>channels (recipientHex, info).
              bindR (parse_int recipientHex) (\<lambda>addr.
              Inr (if \<not> jm_has channels addr
                   then jm_set channels addr (new_Channel (BNBigint (ch_publicKey info)) None []) else channels)))
       channels (nonCreatedChannelMap acc))"

section \<open>Pruning drops finished work only\<close>

lemma jm_set_mid: "fst e \<notin> fst ` set pre \<Longrightarrow> jm_set (pre @ e # es) (fst e) v = pre @ (fst e, v) # es"
proof (induction pre)
  case Nil
  then show ?case by (cases e) simp
next
  case (Cons x pre)
  then show ?case by (cases x) auto
qed

lemma jm_delete_fresh: "k \<notin> fst ` set m \<Longrightarrow> jm_delete m k = m"
  by (induction m) (auto simp: jm_delete_def)

lemma jm_delete_mid:
  "fst e \<notin> fst ` set pre \<Longrightarrow> fst e \<notin> fst ` set es \<Longrightarrow> jm_delete (pre @ (fst e, v) # es) (fst e) = pre @ es"
  using jm_delete_fresh [of "fst e" pre] jm_delete_fresh [of "fst e" es] by (simp add: jm_delete_def)

lemma foldl_delete:
  "foldl (\<lambda>m e. if P (snd e) then jm_delete m (fst e) else m) m es =
   filter (\<lambda>x. \<not> (\<exists>e \<in> set es. P (snd e) \<and> fst e = fst x)) m"
proof (induction es arbitrary: m)
  case (Cons e es)
  then show ?case by (auto simp: jm_delete_def intro!: filter_cong)
qed simp

lemma prune_subchannels_filter:
  "jm_wf subs \<Longrightarrow> prune_subchannels subs = filter (\<lambda>e. \<not> flag (note_discovery_complete (snd e))) subs"
  unfolding prune_subchannels_def foldl_delete [where P = "\<lambda>sc. flag (note_discovery_complete sc)"]
  by (rule filter_cong) (auto simp: jm_wf_entry)

definition pruned_entry :: "string \<times> ApiChannelCursor \<Rightarrow> (string, ApiChannelCursor) jsmap" where
  "pruned_entry e =
     (case acc_subchannels (snd e) of
        None \<Rightarrow> [e]
      | Some subs \<Rightarrow>
          if flag (subchannel_discovery_complete (snd e)) then
            (if prune_subchannels subs = [] then []
             else [(fst e, (snd e)\<lparr>acc_subchannels := Some (prune_subchannels subs)\<rparr>)])
          else [e])"

lemma foldl_prune_channel:
  "distinct (map fst (pre @ es)) \<Longrightarrow>
   foldl prune_channel (pre @ es) es = pre @ concat (map pruned_entry es)"
proof (induction es arbitrary: pre)
  case (Cons e es)
  have fresh: "fst e \<notin> fst ` set pre" "fst e \<notin> fst ` set es" using Cons.prems by auto
  have step: "prune_channel (pre @ e # es) e = (pre @ pruned_entry e) @ es"
    using fresh by (auto simp: prune_channel_def pruned_entry_def jm_set_mid jm_delete_mid Let_def split: option.split)
  have "map fst (pruned_entry e) = [] \<or> map fst (pruned_entry e) = [fst e]"
    by (auto simp: pruned_entry_def split: option.splits)
  then have "distinct (map fst ((pre @ pruned_entry e) @ es))"
    using Cons.prems by (auto simp del: map_is_Nil_conv simp flip: set_map)
  from Cons.IH [OF this] step show ?case by simp
qed simp

definition api_cursor_wf :: "ApiDiscoveryCursor \<Rightarrow> bool" where
  "api_cursor_wf c = (jm_wf (optl (adc_channels c)) \<and>
     list_all (\<lambda>ch. jm_wf (optl (acc_subchannels ch))) (jm_values (optl (adc_channels c))))"

text \<open>
  The work a cursor still asks for: subchannels whose notes are not all discovered, and channels
  whose subchannels are not all discovered.
\<close>

definition entry_pending :: "string \<times> ApiChannelCursor \<Rightarrow> (string \<times> string \<times> ApiSubchannelCursor) list" where
  "entry_pending e = map (Pair (fst e))
     (filter (\<lambda>sc. \<not> flag (note_discovery_complete (snd sc))) (optl (acc_subchannels (snd e))))"

definition pending_notes :: "ApiDiscoveryCursor \<Rightarrow> (string \<times> string \<times> ApiSubchannelCursor) list" where
  "pending_notes c = concat (map entry_pending (optl (adc_channels c)))"

definition pending_channels :: "ApiDiscoveryCursor \<Rightarrow> (string, ApiChannelCursor) jsmap" where
  "pending_channels c = filter (\<lambda>e. \<not> flag (subchannel_discovery_complete (snd e))) (optl (adc_channels c))"

lemma complete_pending:
  "isApiCursorComplete c \<longleftrightarrow>
   flag (channel_discovery_complete c) \<and> pending_notes c = [] \<and> pending_channels c = []"
proof -
  have ch: "channel_complete (snd e) \<longleftrightarrow> entry_pending e = [] \<and> flag (subchannel_discovery_complete (snd e))" for e
    by (cases "acc_subchannels (snd e)")
      (auto simp: channel_complete_def entry_pending_def list_all_iff filter_empty_conv)
  have "list_all channel_complete (jm_values m) \<longleftrightarrow>
      concat (map entry_pending m) = [] \<and> filter (\<lambda>e. \<not> flag (subchannel_discovery_complete (snd e))) m = []" for m
    by (induction m) (auto simp: ch)
  then show ?thesis
    by (cases "adc_channels c") (simp_all add: isApiCursorComplete_def pending_notes_def pending_channels_def)
qed

lemma prune_channels:
  assumes "api_cursor_wf c"
  shows "optl (adc_channels (pruneCompleteCursor c)) = concat (map pruned_entry (optl (adc_channels c)))"
  using assms foldl_prune_channel [of "[]" "optl (adc_channels c)"]
  by (cases "adc_channels c") (auto simp: pruneCompleteCursor_def api_cursor_wf_def jm_wf_def)

lemma pruned_entry_pending:
  assumes "jm_wf (optl (acc_subchannels (snd e)))"
  shows "concat (map entry_pending (pruned_entry e)) = entry_pending e"
    and "filter (\<lambda>e. \<not> flag (subchannel_discovery_complete (snd e))) (pruned_entry e)
         = (if flag (subchannel_discovery_complete (snd e)) then [] else [e])"
  using assms by (auto simp: pruned_entry_def entry_pending_def prune_subchannels_filter split: option.split)

lemma pruned_entry_unfinished:
  assumes "jm_wf (optl (acc_subchannels ch))" "(a, ch') \<in> set (pruned_entry (addr, ch))" "acc_subchannels ch' \<noteq> None"
  shows "\<not> channel_complete ch'"
proof -
  have "\<exists>x \<in> set xs. \<not> P x" if "filter (\<lambda>e. \<not> P e) xs \<noteq> []" for P and xs :: "'a list"
    using that by (auto simp: filter_empty_conv)
  then show ?thesis
    using assms
    by (auto simp: pruned_entry_def prune_subchannels_filter channel_complete_def list_all_iff filter_empty_conv
        split: option.splits if_splits)
qed

lemma prune_pending:
  assumes wf: "api_cursor_wf c"
  shows "pending_notes (pruneCompleteCursor c) = pending_notes c"
    and "pending_channels (pruneCompleteCursor c) = pending_channels c"
proof -
  define m where "m = optl (adc_channels c)"
  have subs: "jm_wf (optl (acc_subchannels (snd e)))" if "e \<in> set m" for e
    using wf that by (auto simp: api_cursor_wf_def m_def list_all_iff)
  have "concat (map entry_pending (concat (map pruned_entry m))) = concat (map entry_pending m)"
    using subs by (induction m) (simp_all add: pruned_entry_pending(1))
  then show "pending_notes (pruneCompleteCursor c) = pending_notes c"
    using prune_channels [OF wf] by (simp add: pending_notes_def m_def)
  have "filter (\<lambda>e. \<not> flag (subchannel_discovery_complete (snd e))) (concat (map pruned_entry m))
      = filter (\<lambda>e. \<not> flag (subchannel_discovery_complete (snd e))) m"
    using subs by (induction m) (simp_all add: pruned_entry_pending(2))
  then show "pending_channels (pruneCompleteCursor c) = pending_channels c"
    using prune_channels [OF wf] by (simp add: pending_channels_def m_def)
qed

definition sample_api_cursor :: ApiDiscoveryCursor where
  "sample_api_cursor = \<lparr>channel_discovery_complete = Some True, total_n_channels = Some 2, last_channel_index = Some 1,
     adc_channels = Some
      [(''0xa'', \<lparr>acc_channel_key = Some ''0x1'', subchannel_discovery_complete = Some True, last_subchannel_index = Some 0,
          acc_subchannels = Some [(''0x5'', \<lparr>note_discovery_complete = Some True, asc_last_note_index = Some 3, total_n_notes = None\<rparr>)]\<rparr>),
       (''0xb'', \<lparr>acc_channel_key = Some ''0x2'', subchannel_discovery_complete = Some True, last_subchannel_index = Some 1,
          acc_subchannels = Some [(''0x5'', \<lparr>note_discovery_complete = Some True, asc_last_note_index = Some 3, total_n_notes = None\<rparr>),
                              (''0x6'', \<lparr>note_discovery_complete = Some False, asc_last_note_index = None, total_n_notes = None\<rparr>)]\<rparr>)]\<rparr>"

text \<open>
  Pruning a cursor between two pages changes neither whether discovery is complete nor what is
  still to be discovered (the subchannels with undiscovered notes and their positions, the channels
  with undiscovered subchannels), and every channel it keeps that lists subchannels is unfinished.
\<close>

theorem prune_keeps_pending:
  assumes "api_cursor_wf c"
  shows "isApiCursorComplete (pruneCompleteCursor c) = isApiCursorComplete c \<and>
     pending_notes (pruneCompleteCursor c) = pending_notes c \<and>
     pending_channels (pruneCompleteCursor c) = pending_channels c \<and>
     (\<forall>ch \<in> set (jm_values (optl (adc_channels (pruneCompleteCursor c)))).
        acc_subchannels ch \<noteq> None \<longrightarrow> \<not> channel_complete ch)"
proof -
  have "channel_discovery_complete (pruneCompleteCursor c) = channel_discovery_complete c"
    by (simp add: pruneCompleteCursor_def split: option.split)
  moreover have "\<not> channel_complete ch'"
    if "(a, ch') \<in> set (optl (adc_channels (pruneCompleteCursor c)))" "acc_subchannels ch' \<noteq> None" for a ch'
  proof -
    from that(1) obtain addr ch where
      e: "(addr, ch) \<in> set (optl (adc_channels c))" "(a, ch') \<in> set (pruned_entry (addr, ch))"
      by (auto simp: prune_channels [OF assms])
    from e(1) assms have "jm_wf (optl (acc_subchannels ch))" by (auto simp: api_cursor_wf_def list_all_iff)
    from pruned_entry_unfinished [OF this e(2) that(2)] show ?thesis .
  qed
  ultimately show ?thesis
    using prune_pending [OF assms] by (auto simp: complete_pending)
qed

theorem prune_keeps_pending_witness:
  "api_cursor_wf sample_api_cursor \<and> \<not> isApiCursorComplete sample_api_cursor \<and>
   length (optl (adc_channels (pruneCompleteCursor sample_api_cursor))) = 1 \<and>
   pending_notes (pruneCompleteCursor sample_api_cursor) = pending_notes sample_api_cursor"
proof -
  have "api_cursor_wf sample_api_cursor" by code_simp
  moreover from prune_keeps_pending [OF this]
  have "pending_notes (pruneCompleteCursor sample_api_cursor) = pending_notes sample_api_cursor" by blast
  moreover have "\<not> isApiCursorComplete sample_api_cursor \<and>
      length (optl (adc_channels (pruneCompleteCursor sample_api_cursor))) = 1" by code_simp
  ultimately show ?thesis by blast
qed

section \<open>A cursor on the wire\<close>

declare StringToBigInt_hex_of [simp]

text \<open>
  The cursors discovery hands out: addresses and keys are field elements, positions are counts, and
  the totals are listed in the order of the note indexes.
\<close>

definition listed_totals :: "(int, int) jsmap \<Rightarrow> (int, int) jsmap \<Rightarrow> (int, int) jsmap" where
  "listed_totals idx totals = concat (map (\<lambda>(t, _). map (Pair t) (opt_list (jm_get totals t))) idx)"

definition wire_icc :: "IncomingChannelCursor \<Rightarrow> bool" where
  "wire_icc icc = (0 \<le> ic_channelKey icc \<and> 0 \<le> ic_subchannelIdIndex icc \<and> jm_wf (ic_noteIndexes icc) \<and>
     list_all (\<lambda>(t, i). 0 \<le> t \<and> 0 \<le> i) (ic_noteIndexes icc) \<and>
     ic_totalNoteCounts icc = listed_totals (ic_noteIndexes icc) (ic_totalNoteCounts icc))"

definition wire_cursor :: "NotesCursor \<Rightarrow> bool" where
  "wire_cursor c = (jm_wf (incomingChannels c) \<and>
     list_all (\<lambda>(sender, icc). 0 \<le> sender \<and> wire_icc icc) (incomingChannels c))"

lemma hex_of_distinct: "distinct xs \<Longrightarrow> \<forall>x \<in> set xs. 0 \<le> x \<Longrightarrow> distinct (map hex_of xs)"
  by (auto simp: distinct_map intro!: inj_onI dest: hex_of_inj)

lemma jm_set_each:
  assumes "jm_wf m" "\<forall>e \<in> set m. 0 \<le> fst e"
  shows "foldl (\<lambda>acc (k, v). jm_set acc (hex_of k) (f k v)) [] m = map (\<lambda>(k, v). (hex_of k, f k v)) m"
proof -
  have "distinct (map fst (map (\<lambda>(k, v). (hex_of k, f k v)) m))"
    using hex_of_distinct [of "map fst m"] assms by (simp add: jm_wf_def comp_def case_prod_beta)
  from foldl_jm_set_fresh [OF this, of "[]"] show ?thesis
    by (simp add: foldl_map split_def)
qed

lemma buildSubchannelCursors_all:
  assumes "jm_wf m" "\<forall>e \<in> set m. 0 \<le> fst e"
  shows "buildSubchannelCursors m None totals =
     map (\<lambda>(t, i). (hex_of t, subchannelCursor i (Option.bind totals (\<lambda>m. jm_get m t)))) m"
  using jm_set_each [OF assms, of "\<lambda>t i. subchannelCursor i (Option.bind totals (\<lambda>m. jm_get m t))"]
  by (simp add: buildSubchannelCursors_def filter_has_def)

lemma index_after_pred: "0 \<le> i \<Longrightarrow> index_after (if i > 0 then Some (i - 1) else None) = i"
  by (simp add: index_after_def)

text \<open>Reading back entry by entry: the maps of what is read so far grow at their ends.\<close>

lemma addSubchannel_back:
  assumes "list_all (\<lambda>(t, i). 0 \<le> t \<and> 0 \<le> i) m" "distinct (map fst (done @ m))" "fst ` set acc \<subseteq> fst ` set done"
  shows "foldR addSubchannel (done, acc) (map (\<lambda>(t, i). (hex_of t, subchannelCursor i (jm_get totals t))) m)
     = Inr (done @ m, acc @ listed_totals m totals)"
  using assms
proof (induction m arbitrary: "done" acc)
  case Nil
  then show ?case by (simp add: listed_totals_def)
next
  case (Cons e m)
  obtain t i where e: "e = (t, i)" by fastforce
  have pos: "0 \<le> t" "0 \<le> i" using Cons.prems e by auto
  have fresh: "\<not> jm_has done t" "\<not> jm_has acc t" using Cons.prems e by (auto simp: jm_has_image)
  have step: "addSubchannel (done, acc) (hex_of t, subchannelCursor i (jm_get totals t))
      = Inr (done @ [(t, i)], acc @ map (Pair t) (opt_list (jm_get totals t)))"
    using pos fresh index_after_pred [OF pos(2)]
    by (cases "jm_get totals t") (simp_all add: addSubchannel_def subchannelCursor_def jm_set_fresh)
  have "foldR addSubchannel (done @ [(t, i)], acc @ map (Pair t) (opt_list (jm_get totals t)))
      (map (\<lambda>(t, i). (hex_of t, subchannelCursor i (jm_get totals t))) m)
      = Inr ((done @ [(t, i)]) @ m, (acc @ map (Pair t) (opt_list (jm_get totals t))) @ listed_totals m totals)"
    using Cons.prems e by (intro Cons.IH) (auto simp: image_iff)
  with step e show ?case by (simp add: listed_totals_def)
qed

lemma hex_of_nonempty [simp]: "hex_of i \<noteq> []"
  by (simp add: hex_of_def)

lemma incoming_back: "wire_icc icc \<Longrightarrow> incomingFromApi (incomingToApi None icc) = Inr icc"
proof -
  assume w: "wire_icc icc"
  then have pos: "\<forall>e \<in> set (ic_noteIndexes icc). 0 \<le> fst e" by (auto simp: wire_icc_def list_all_iff)
  have subs: "buildSubchannelCursors (ic_noteIndexes icc) None (Some (ic_totalNoteCounts icc)) =
      map (\<lambda>(t, i). (hex_of t, subchannelCursor i (jm_get (ic_totalNoteCounts icc) t))) (ic_noteIndexes icc)"
    using w pos by (simp add: buildSubchannelCursors_all wire_icc_def)
  have bk: "foldR addSubchannel ([], [])
      (map (\<lambda>(t, i). (hex_of t, subchannelCursor i (jm_get (ic_totalNoteCounts icc) t))) (ic_noteIndexes icc))
      = Inr (ic_noteIndexes icc, ic_totalNoteCounts icc)"
    using w addSubchannel_back [of "ic_noteIndexes icc" "[]" "[]" "ic_totalNoteCounts icc"]
    by (simp add: wire_icc_def jm_wf_def)
  show ?thesis
    using w bk subs by (simp add: incomingFromApi_def incomingToApi_def wire_icc_def index_after_pred)
qed

lemma channels_back:
  assumes "list_all (\<lambda>(sender, icc). 0 \<le> sender \<and> wire_icc icc) m" "distinct (map fst (done @ m))"
  shows "foldR (\<lambda>m (senderHex, ch).
       bindR (incomingFromApi ch) (\<lambda>icc. bindR (parse_int senderHex) (\<lambda>sender. Inr (jm_set m sender icc))))
     done (map (\<lambda>(sender, icc). (hex_of sender, incomingToApi None icc)) m) = Inr (done @ m)"
  using assms
proof (induction m arbitrary: "done")
  case (Cons e m)
  obtain sender icc where e: "e = (sender, icc)" by fastforce
  have "\<not> jm_has done sender" using Cons.prems e by (auto simp: jm_has_image)
  then have "jm_set done sender icc = done @ [e]" using e by (simp add: jm_set_fresh)
  with Cons.IH [of "done @ [e]"] Cons.prems e show ?case by (simp add: incoming_back)
qed simp

definition sample_wire_cursor :: NotesCursor where
  "sample_wire_cursor = \<lparr>nc_blockId = BlockNumber 9, incomingChannels =
     [(18, \<lparr>ic_channelKey = 300, ic_subchannelIdIndex = 2, ic_noteIndexes = [(5, 0), (6, 4)], ic_totalNoteCounts = [(6, 7)]\<rparr>),
      (2, \<lparr>ic_channelKey = 31, ic_subchannelIdIndex = 0, ic_noteIndexes = [], ic_totalNoteCounts = []\<rparr>)]\<rparr>"

text \<open>
  Converting a notes cursor to its wire form without a token filter and reading it back gives the
  cursor again, with the block reference of the answer: an absent index stands for position zero, an
  index \<open>n\<close> for position \<open>n + 1\<close>, and no entry is lost, reordered or merged.
\<close>

theorem notes_cursor_round_trip:
  assumes "wire_cursor c"
  shows "apiCursorToNotesCursor (notesCursorToApiCursor c None) blockRef = Inr (c\<lparr>nc_blockId := blockRef\<rparr>)"
proof -
  have pos: "\<forall>e \<in> set (incomingChannels c). 0 \<le> fst e" "jm_wf (incomingChannels c)"
    using assms by (auto simp: wire_cursor_def list_all_iff)
  have "foldl (\<lambda>m (sender, icc). jm_set m (hex_of sender) (incomingToApi None icc)) [] (incomingChannels c)
      = map (\<lambda>(sender, icc). (hex_of sender, incomingToApi None icc)) (incomingChannels c)"
    using jm_set_each [OF pos(2,1), of "\<lambda>_. incomingToApi None"] by simp
  then show ?thesis
    using assms channels_back [of "incomingChannels c" "[]"]
    by (simp add: apiCursorToNotesCursor_def notesCursorToApiCursor_def wire_cursor_def jm_wf_def)
qed

theorem notes_cursor_round_trip_witness:
  "wire_cursor sample_wire_cursor \<and>
   apiCursorToNotesCursor (notesCursorToApiCursor sample_wire_cursor None) (BlockNumber 12)
     = Inr (sample_wire_cursor\<lparr>nc_blockId := BlockNumber 12\<rparr>)"
proof -
  have "wire_cursor sample_wire_cursor" by code_simp
  with notes_cursor_round_trip [OF this, of "BlockNumber 12"] show ?thesis by simp
qed

end
