(* ===== verification/Indexer_Discovery.thy ===== *)
theory Indexer_Discovery
  imports Indexer_Cursor Maps
begin

text \<open>
  The provider of \<open>sdk/src/internal/indexer-discovery.ts\<close> over its direct transport. What the service
  answers to the \<open>k\<close>-th request of a run is a parameter, so the theorems hold for every service. A
  paging loop runs until the service reports completion; a run that never ends is \<open>None\<close>. The
  requests posted are kept in a log, newest last.
\<close>

section \<open>Transport\<close>

text \<open>
  What \<open>fetch\<close> yields: a response with its status, its text (\<open>None\<close> when reading it fails) and the
  value its JSON parses to, or a failed connection.
\<close>

datatype 'a http_response =
    Response nat "string option" "'a result"
  | NetworkError string

definition status_ok :: "nat \<Rightarrow> bool" where
  "status_ok st = (200 \<le> st \<and> st \<le> 299)"

definition REORG_STATUS :: nat where
  "REORG_STATUS = 409"

definition indexer_get :: "string \<Rightarrow> 'a http_response \<Rightarrow> 'a result" where
  "indexer_get path resp = (case resp of
      NetworkError e \<Rightarrow> Inl (TypeError e)
    | Response status _ json \<Rightarrow>
        if \<not> status_ok status then Inl (HttpError status (''Indexer API '' @ path @ '' failed''))
        else json)"

definition indexer_post :: "string \<Rightarrow> 'a http_response \<Rightarrow> 'a result" where
  "indexer_post path resp = (case resp of
      NetworkError e \<Rightarrow> Inl (TypeError e)
    | Response status text1 json \<Rightarrow>
        if \<not> status_ok status then
          (let txt = (case text1 of None \<Rightarrow> '''' | Some s \<Rightarrow> s) in
           if status = REORG_STATUS then Inl (ReorgError (''Block reorged during '' @ path @ '': '' @ txt))
           else Inl (HttpError status (''Indexer API '' @ path @ '' failed: '' @ txt)))
        else json)"

record ChainHead =
  head_block_number :: int
  head_block_hash :: string
  head_timestamp :: int

record DiscoveryHealthResponse =
  health_status :: string
  chain_head :: "ChainHead option"
  lag_secs :: "int option"

definition getHealth :: "DiscoveryHealthResponse http_response \<Rightarrow> DiscoveryHealthResponse result" where
  "getHealth resp = indexer_get ''/health'' resp"

definition isHealthy :: "DiscoveryHealthResponse http_response \<Rightarrow> bool" where
  "isHealthy resp = (case indexer_get ''/health'' resp of Inl _ \<Rightarrow> False | Inr body \<Rightarrow> health_status body = ''OK'')"

section \<open>Requests\<close>

text \<open>
  A zero block number and an empty string are falsy; \<open>blockRef\<close> and \<open>lastKnownBlock\<close> are tested for
  truth, \<open>params.blockIdentifier\<close> for being defined.
\<close>

definition block_truthy :: "BlockId option \<Rightarrow> bool" where
  "block_truthy b = (case b of None \<Rightarrow> False | Some (BlockNumber n) \<Rightarrow> n \<noteq> 0
     | Some (BlockTag s) \<Rightarrow> s \<noteq> [] | Some (BlockHash s) \<Rightarrow> s \<noteq> [])"

record SyncBody =
  b_contract_address :: string
  b_user_address :: string     \<comment> \<open>\<open>recipient_address\<close> of an incoming, \<open>sender_address\<close> of an outgoing request\<close>
  b_viewing_key :: string
  b_cursor :: ApiDiscoveryCursor
  b_block_ref :: "BlockId option"
  b_last_known_block :: "BlockId option"
  b_recipients :: "string list option"

record ProviderCfg =
  contractAddress :: bignum
  lib :: starknet_lib

definition syncBody ::
  "ProviderCfg \<Rightarrow> int \<Rightarrow> bignum \<Rightarrow> ApiDiscoveryCursor \<Rightarrow> BlockId option \<Rightarrow> BlockId option \<Rightarrow> BlockId option
     \<Rightarrow> string list option \<Rightarrow> SyncBody result"
where
  "syncBody C address viewingKey apiCursor blockRef blockIdentifier lastKnownBlock recipients =
     bindR (toHex (lib C) (NBig (contractAddress C)) True) (\<lambda>contract.
     bindR (toHex (lib C) (NBig viewingKey) True) (\<lambda>vk.
     Inr \<lparr>b_contract_address = contract, b_user_address = hex_of address, b_viewing_key = vk, b_cursor = apiCursor,
          b_block_ref = (if block_truthy blockRef then blockRef else blockIdentifier),
          b_last_known_block = (if block_truthy blockRef \<or> blockIdentifier \<noteq> None then None
             else if block_truthy lastKnownBlock then lastKnownBlock else None),
          b_recipients = recipients\<rparr>))"

section \<open>Incoming notes\<close>

definition tokenFilter_of :: "int list option \<Rightarrow> int list option" where
  "tokenFilter_of toks = map_option remdups toks"

definition channelKeyMap :: "ApiIncomingChannel list \<Rightarrow> (string, int) jsmap result" where
  "channelKeyMap chs =
     foldR (\<lambda>m ch. bindR (parse_int (aic_channel_key ch)) (\<lambda>k. Inr (jm_set m (aic_sender_addr ch) k))) [] chs"

definition push_notes :: "(int, Note list) jsmap \<Rightarrow> int \<Rightarrow> Note list \<Rightarrow> (int, Note list) jsmap" where
  "push_notes m token ns = (case jm_get_default m token [] of (m', old) \<Rightarrow> jm_set m' token (old @ ns))"

definition convertNote ::
  "(string, int) jsmap \<Rightarrow> (int, IncomingChannelCursor) jsmap \<Rightarrow> int list option
     \<Rightarrow> (int, Note list) jsmap \<Rightarrow> ApiIncomingNoteInfo \<Rightarrow> (int, Note list) jsmap result"
where
  "convertNote keyMap existingChannels tokenFilter acc n =
     bindR (parse_int (ain_token n)) (\<lambda>token.
     if \<not> filter_has tokenFilter token then Inr acc
     else bindR (parse_int (ain_sender_addr n)) (\<lambda>sender.
       case (case jm_get keyMap (ain_sender_addr n) of Some k \<Rightarrow> Some k
             | None \<Rightarrow> map_option ic_channelKey (jm_get existingChannels sender)) of
         None \<Rightarrow> Inl (MissingChannelKey (ain_sender_addr n))
       | Some channelKey \<Rightarrow>
           bindR (parse_int (ain_amount n)) (\<lambda>amount.
           bindR (parse_int (ain_salt n)) (\<lambda>salt.
           Inr (push_notes acc token
             [\<lparr>n_id = BNString (ain_note_id n), n_amount = amount, n_created = Some (ain_block_number n),
               n_witness = \<lparr>w_channelKey = channelKey, w_nonce = ain_index n, w_r = salt\<rparr>,
               n_viewingKey = None, n_sender = BNBigint sender, n_open = Some (ain_salt n = ''1'')\<rparr>])))))"

definition convertIncomingNotes ::
  "ApiIncomingNoteInfo list \<Rightarrow> (string, int) jsmap \<Rightarrow> (int, IncomingChannelCursor) jsmap \<Rightarrow> int list option
     \<Rightarrow> (int, Note list) jsmap result"
where
  "convertIncomingNotes apiNotes keyMap existingChannels tokenFilter =
     foldR (convertNote keyMap existingChannels tokenFilter) [] apiNotes"

record IncomingRun =
  ir_apiCursor :: ApiDiscoveryCursor
  ir_blockRef :: "BlockId option"
  ir_allNotes :: "(int, Note list) jsmap"
  ir_incoming :: "(int, IncomingChannelCursor) jsmap"
  ir_log :: "SyncBody list"

text \<open>What one answer adds to the run: the body of the loop after the request.\<close>

definition absorbIncoming :: "int list option \<Rightarrow> IncomingRun \<Rightarrow> ApiIncomingSyncResponse \<Rightarrow> IncomingRun result" where
  "absorbIncoming tokenFilter st resp =
     bindR (channelKeyMap (air_channels resp)) (\<lambda>keyMap.
     bindR (convertIncomingNotes (air_notes resp) keyMap (ir_incoming st) tokenFilter) (\<lambda>notesByToken.
     bindR (apiCursorToNotesCursor (air_cursor resp) (air_block_ref resp)) (\<lambda>updatedCursor.
     Inr (st\<lparr>ir_apiCursor := air_cursor resp, ir_blockRef := Some (air_block_ref resp),
            ir_allNotes := foldl (\<lambda>m (token, ns). push_notes m token ns) (ir_allNotes st) notesByToken,
            ir_incoming := foldl (\<lambda>m (sender, icc). jm_set m sender icc) (ir_incoming st)
               (incomingChannels updatedCursor)\<rparr>))))"

type_synonym incoming_service = "nat \<Rightarrow> SyncBody \<Rightarrow> ApiIncomingSyncResponse http_response"
type_synonym outgoing_service = "nat \<Rightarrow> SyncBody \<Rightarrow> ApiOutgoingSyncResponse http_response"

definition incomingPage ::
  "ProviderCfg \<Rightarrow> incoming_service \<Rightarrow> int \<Rightarrow> bignum \<Rightarrow> NotesParams \<Rightarrow> IncomingRun \<Rightarrow> IncomingRun result"
where
  "incomingPage C svc address viewingKey params st =
     bindR (syncBody C address viewingKey (ir_apiCursor st) (ir_blockRef st) (np_blockIdentifier params)
              (map_option nc_blockId (np_cursor params)) None) (\<lambda>body.
     bindR (indexer_post ''/v1/sync/incoming_state'' (svc (length (ir_log st)) body)) (\<lambda>resp.
     absorbIncoming (tokenFilter_of (np_tokens params)) (st\<lparr>ir_log := ir_log st @ [body]\<rparr>) resp))"

partial_function (option) incomingLoop ::
  "ProviderCfg \<Rightarrow> incoming_service \<Rightarrow> int \<Rightarrow> bignum \<Rightarrow> NotesParams \<Rightarrow> IncomingRun \<Rightarrow> IncomingRun result option"
where
  "incomingLoop C svc address viewingKey params st =
     (case incomingPage C svc address viewingKey params st of
        Inl e \<Rightarrow> Some (Inl e)
      | Inr st' \<Rightarrow> if isApiCursorComplete (ir_apiCursor st') then Some (Inr st')
                  else incomingLoop C svc address viewingKey params st')"

declare incomingLoop.simps [code]

definition no_cursor :: ApiDiscoveryCursor where
  "no_cursor = \<lparr>channel_discovery_complete = None, total_n_channels = None, last_channel_index = None, adc_channels = None\<rparr>"

definition incomingStart :: "NotesParams \<Rightarrow> IncomingRun" where
  "incomingStart params =
     \<lparr>ir_apiCursor = (case np_cursor params of None \<Rightarrow> no_cursor
        | Some c \<Rightarrow> notesCursorToApiCursor c (tokenFilter_of (np_tokens params))),
      ir_blockRef = None, ir_allNotes = [], ir_incoming = [], ir_log = []\<rparr>"

definition notesResult :: "IncomingRun \<Rightarrow> NotesDiscoveryResult result" where
  "notesResult st =
     bindR (of_option (TypeError ''blockRef'') (ir_blockRef st)) (\<lambda>b.
     Inr \<lparr>nr_timestamp = b, nr_notes = ir_allNotes st, nr_cursor = \<lparr>nc_blockId = b, incomingChannels = ir_incoming st\<rparr>\<rparr>)"

definition indexer_discoverNotes ::
  "ProviderCfg \<Rightarrow> incoming_service \<Rightarrow> int \<Rightarrow> bignum \<Rightarrow> NotesParams \<Rightarrow> NotesDiscoveryResult result"
where
  "indexer_discoverNotes C svc address viewingKey params =
     bindR (case incomingLoop C svc address viewingKey params (incomingStart params) of
              None \<Rightarrow> Inl Diverges | Some r \<Rightarrow> r) notesResult"

section \<open>Outgoing channels\<close>

record OutgoingRun =
  or_apiCursor :: ApiDiscoveryCursor
  or_blockRef :: "BlockId option"
  or_acc :: Outgoing
  or_log :: "SyncBody list"

text \<open>
  One round of the loop. The total-only loop posts the same request without recipients and
  accumulates nothing.
\<close>

definition outgoingPage ::
  "ProviderCfg \<Rightarrow> outgoing_service \<Rightarrow> int \<Rightarrow> bignum \<Rightarrow> RecipientsFilter \<Rightarrow> ChannelsParams \<Rightarrow> OutgoingRun
     \<Rightarrow> (OutgoingRun \<times> bool) result"
where
  "outgoingPage C svc address viewingKey recipients params st =
     bindR (syncBody C address viewingKey (or_apiCursor st) (or_blockRef st) (cp_blockIdentifier params) None
              (case recipients of Recipients rs \<Rightarrow> Some (map hex_of rs) | _ \<Rightarrow> None)) (\<lambda>body.
     bindR (indexer_post ''/v1/sync/outgoing_state'' (svc (length (or_log st)) body)) (\<lambda>resp.
     bindR (if recipients = TotalOnly then Inr (or_acc st) else accumulateOutgoingResponse (or_acc st) resp) (\<lambda>acc.
     let complete = isApiCursorComplete (aor_cursor resp)
     in Inr (\<lparr>or_apiCursor = (if complete then aor_cursor resp else pruneCompleteCursor (aor_cursor resp)),
              or_blockRef = Some (aor_block_ref resp), or_acc = acc, or_log = or_log st @ [body]\<rparr>, complete))))"

partial_function (option) outgoingLoop ::
  "ProviderCfg \<Rightarrow> outgoing_service \<Rightarrow> int \<Rightarrow> bignum \<Rightarrow> RecipientsFilter \<Rightarrow> ChannelsParams \<Rightarrow> OutgoingRun
     \<Rightarrow> OutgoingRun result option"
where
  "outgoingLoop C svc address viewingKey recipients params st =
     (case outgoingPage C svc address viewingKey recipients params st of
        Inl e \<Rightarrow> Some (Inl e)
      | Inr r \<Rightarrow> if snd r then Some (Inr (fst r))
                else outgoingLoop C svc address viewingKey recipients params (fst r))"

declare outgoingLoop.simps [code]

definition known_channel :: "(int, Channel) jsmap option \<Rightarrow> int \<Rightarrow> Channel option" where
  "known_channel cursorMap r = Option.bind cursorMap (\<lambda>m. jm_get m r)"

text \<open>The recipients whose channel and key the cursor already holds, or \<open>None\<close> when one is missing.\<close>

definition resolveRecipients ::
  "(int, Channel) jsmap option \<Rightarrow> int list \<Rightarrow> (bool \<times> (int, int \<times> Channel) jsmap) result"
where
  "resolveRecipients cursorMap rs =
     foldR (\<lambda>(allResolved, resolved) r.
        case known_channel cursorMap r of
          None \<Rightarrow> Inr (False, resolved)
        | Some existing \<Rightarrow>
            (case key existing of
               None \<Rightarrow> Inr (False, resolved)
             | Some k \<Rightarrow> if k = 0 then Inr (False, resolved)
                 else bindR (toBigInt (publicKey existing)) (\<lambda>_. Inr (allResolved, jm_set resolved r (k, existing)))))
       (True, []) rs"

definition outgoingCursor :: "RecipientsFilter \<Rightarrow> (int, Channel) jsmap option \<Rightarrow> ApiDiscoveryCursor result" where
  "outgoingCursor recipients cursorMap =
     (case recipients of
        TotalOnly \<Rightarrow> Inr (no_cursor\<lparr>channel_discovery_complete := Some False\<rparr>)
      | AllRecipients \<Rightarrow> Inr (channelMapToApiCursor cursorMap False)
      | Recipients rs \<Rightarrow>
          bindR (resolveRecipients cursorMap rs) (\<lambda>(allResolved, resolved).
          Inr (if allResolved then
                 no_cursor\<lparr>channel_discovery_complete := Some True,
                   adc_channels := Some (foldl (\<lambda>m (rb, k, existing).
                      jm_set m (hex_of rb) (outgoingToApi k existing)) [] resolved)\<rparr>
               else no_cursor\<lparr>channel_discovery_complete := Some False, adc_channels := Some []\<rparr>)))"

definition channelsResult :: "RecipientsFilter \<Rightarrow> OutgoingRun \<Rightarrow> ChannelsDiscoveryResult result" where
  "channelsResult recipients st =
     bindR (of_option (TypeError ''blockRef'') (or_blockRef st)) (\<lambda>b.
     case recipients of
       TotalOnly \<Rightarrow>
         bindR (of_option IncompleteTotal (total_n_channels (or_apiCursor st))) (\<lambda>total.
         Inr \<lparr>cr_timestamp = b, cr_channels = None, cr_total = Some total\<rparr>)
     | AllRecipients \<Rightarrow>
         bindR (buildChannelMap (or_acc st)) (\<lambda>channels.
         Inr \<lparr>cr_timestamp = b, cr_channels = Some channels, cr_total = total_n_channels (or_apiCursor st)\<rparr>)
     | Recipients rs \<Rightarrow>
         bindR (buildChannelMap (or_acc st)) (\<lambda>channels.
         Inr \<lparr>cr_timestamp = b,
              cr_channels = Some (foldl (\<lambda>m k. if k \<notin> set rs then jm_delete m k else m) channels (jm_keys channels)),
              cr_total = total_n_channels (or_apiCursor st)\<rparr>))"

definition indexer_discoverChannels ::
  "ProviderCfg \<Rightarrow> outgoing_service \<Rightarrow> int \<Rightarrow> bignum \<Rightarrow> RecipientsFilter \<Rightarrow> ChannelsParams \<Rightarrow> ChannelsDiscoveryResult result"
where
  "indexer_discoverChannels C svc address viewingKey recipients params =
     bindR (outgoingCursor recipients (Option.bind (cp_cursor params) cc_channels)) (\<lambda>apiCursor.
     bindR (case outgoingLoop C svc address viewingKey recipients params
              \<lparr>or_apiCursor = apiCursor, or_blockRef = None, or_acc = no_outgoing, or_log = []\<rparr> of
              None \<Rightarrow> Inl Diverges | Some r \<Rightarrow> r) (channelsResult recipients))"

section \<open>Setup requirement\<close>

record PreflightBody =
  pf_contract_address :: string
  pf_sender_address :: string
  pf_viewing_key :: string
  pf_recipient :: string
  pf_token :: string

record PreflightResponse =
  pr_block_ref :: string
  sender_registered :: bool
  pr_channel_exists :: bool
  subchannel_exists :: bool

definition indexer_discoverRequirement ::
  "ProviderCfg \<Rightarrow> (PreflightBody \<Rightarrow> PreflightResponse http_response) \<Rightarrow> int \<Rightarrow> bignum \<Rightarrow> int \<Rightarrow> int \<Rightarrow> SetupRequirement result"
where
  "indexer_discoverRequirement C svc address viewingKey recipient token =
     bindR (toHex (lib C) (NBig (contractAddress C)) True) (\<lambda>contract.
     bindR (toHex (lib C) (NBig viewingKey) True) (\<lambda>vk.
     bindR (indexer_post ''/v1/sync/preflight_check''
              (svc \<lparr>pf_contract_address = contract, pf_sender_address = hex_of address, pf_viewing_key = vk,
                    pf_recipient = hex_of recipient, pf_token = hex_of token\<rparr>)) (\<lambda>resp.
     Inr (if \<not> sender_registered resp then Register
          else if \<not> pr_channel_exists resp then SetupChannel
          else if \<not> subchannel_exists resp then SetupToken
          else Ready))))"

definition IndexerDiscoveryProvider :: "ProviderCfg \<Rightarrow> incoming_service \<Rightarrow> outgoing_service \<Rightarrow> DiscoveryProvider" where
  "IndexerDiscoveryProvider C isvc osvc =
     \<lparr>discoverNotes = indexer_discoverNotes C isvc, discoverChannels = indexer_discoverChannels C osvc\<rparr>"

end
