(* ===== verification/Indexer_Notes.thy ===== *)
theory Indexer_Notes
  imports Indexer_Discovery
begin

text \<open>
  What the paging loops of the indexer provider do, and what \<open>discoverNotes\<close> returns. The locale
  \<open>paging\<close> is the contract of a do-while loop over pages: it returns exactly what a finite number of
  rounds gives. Both loops of the provider are interpretations.
\<close>

section \<open>Loops over pages\<close>

fun run_pages :: "('s \<Rightarrow> 'e + 's \<times> bool) \<Rightarrow> nat \<Rightarrow> 's \<Rightarrow> ('e + 's) option" where
  "run_pages step 0 st = None"
| "run_pages step (Suc n) st = (case step st of
      Inl e \<Rightarrow> Some (Inl e)
    | Inr r \<Rightarrow> if snd r then Some (Inr (fst r)) else run_pages step n (fst r))"

lemma run_pages_inv:
  assumes "\<And>s r. I s \<Longrightarrow> step s = Inr r \<Longrightarrow> I (fst r)" "run_pages step n st = Some (Inr st')" "I st"
  shows "I st'"
  using assms(2,3)
proof (induction n arbitrary: st)
  case (Suc n)
  then show ?case using assms(1) by (auto split: sum.splits if_splits)
qed simp

locale paging =
  fixes step :: "'s \<Rightarrow> 'e + 's \<times> bool"
    and loop :: "'s \<Rightarrow> ('e + 's) option"
  assumes loop_runs: "loop st = Some r \<longleftrightarrow> (\<exists>n. run_pages step n st = Some r)"
begin

lemma loop_inv:
  assumes "\<And>s r. I s \<Longrightarrow> step s = Inr r \<Longrightarrow> I (fst r)" "loop st = Some (Inr st')" "I st"
  shows "I st'"
proof -
  obtain n where "run_pages step n st = Some (Inr st')" using assms(2) loop_runs by blast
  from run_pages_inv [of I step, OF _ this assms(3)] assms(1) show ?thesis by blast
qed

lemma loop_last: "loop st = Some (Inr st') \<Longrightarrow> \<exists>s. step s = Inr (st', True)"
proof -
  have "run_pages step n st = Some (Inr st') \<Longrightarrow> \<exists>s. step s = Inr (st', True)" for n
  proof (induction n arbitrary: st)
    case (Suc n)
    show ?case
    proof (cases "step st")
      case (Inr r)
      with Suc show ?thesis by (cases r) (auto split: if_splits)
    qed (use Suc in simp)
  qed simp
  then show "loop st = Some (Inr st') \<Longrightarrow> ?thesis" using loop_runs by blast
qed

text \<open>A run is over after the pages \<open>ps\<close> when all but the last of its rounds are incomplete.\<close>

lemma loop_steps:
  assumes "\<And>i. i < n \<Longrightarrow> step (s i) = Inr (s (Suc i), False)" "step (s n) = Inr (st', True)"
  shows "loop (s 0) = Some (Inr st')"
proof -
  have "run_pages step (Suc (n - i)) (s i) = Some (Inr st')" if "i \<le> n" for i
    using that
  proof (induction "n - i" arbitrary: i)
    case 0
    then show ?case using assms(2) by simp
  next
    case (Suc d)
    then have "i < n" "d = n - Suc i" "n - i = Suc (n - Suc i)" by auto
    with Suc.hyps(1) [of "Suc i"] assms(1) [of i] show ?case by simp
  qed
  from this [of 0] show ?thesis using loop_runs by blast
qed

lemma loop_error: "step st = Inl e \<Longrightarrow> loop st = Some (Inl e)"
  by (subst loop_runs) (rule exI [of _ 1], simp)

end

definition incomingStep ::
  "ProviderCfg \<Rightarrow> incoming_service \<Rightarrow> int \<Rightarrow> bignum \<Rightarrow> NotesParams \<Rightarrow> IncomingRun \<Rightarrow> (IncomingRun \<times> bool) result"
where
  "incomingStep C svc address viewingKey params st =
     bindR (incomingPage C svc address viewingKey params st) (\<lambda>st'.
     Inr (st', isApiCursorComplete (ir_apiCursor st')))"

lemma incomingLoop_runs:
  "incomingLoop C svc a vk params st = Some r \<longleftrightarrow> (\<exists>n. run_pages (incomingStep C svc a vk params) n st = Some r)"
proof
  show "\<exists>n. run_pages (incomingStep C svc a vk params) n st = Some r" if "incomingLoop C svc a vk params st = Some r"
    using that
  proof (rule incomingLoop.raw_induct [rotated, where P = "\<lambda>C svc a vk params st r. \<exists>n. run_pages (incomingStep C svc a vk params) n st = Some r"])
    fix loop C svc a vk params st r
    assume IH: "\<And>C svc a vk params st r. loop C svc a vk params st = Some r \<Longrightarrow> \<exists>n. run_pages (incomingStep C svc a vk params) n st = Some r"
      and body: "(case incomingPage C svc a vk params st of Inl e \<Rightarrow> Some (Inl e) | Inr st' \<Rightarrow> if isApiCursorComplete (ir_apiCursor st') then Some (Inr st') else loop C svc a vk params st') = Some r"
    show "\<exists>n. run_pages (incomingStep C svc a vk params) n st = Some r"
    proof (cases "incomingPage C svc a vk params st")
      case (Inl e)
      with body have "run_pages (incomingStep C svc a vk params) (Suc 0) st = Some r" by (auto simp: incomingStep_def)
      then show ?thesis by blast
    next
      case (Inr st')
      show ?thesis
      proof (cases "isApiCursorComplete (ir_apiCursor st')")
        case True
        with Inr body have "r = Inr st'" by simp
        with Inr True have "run_pages (incomingStep C svc a vk params) (Suc 0) st = Some r" by (simp add: incomingStep_def)
        then show ?thesis by blast
      next
        case False
        with Inr body have "loop C svc a vk params st' = Some r" by simp
        from IH [OF this] obtain n where "run_pages (incomingStep C svc a vk params) n st' = Some r" by blast
        with Inr False have "run_pages (incomingStep C svc a vk params) (Suc n) st = Some r" by (auto simp: incomingStep_def)
        then show ?thesis by blast
      qed
    qed
  qed
next
  assume "\<exists>n. run_pages (incomingStep C svc a vk params) n st = Some r"
  then obtain n where "run_pages (incomingStep C svc a vk params) n st = Some r" ..
  then show "incomingLoop C svc a vk params st = Some r"
  proof (induction n arbitrary: st)
    case (Suc n)
    then show ?case
      by (subst incomingLoop.simps) (auto simp: incomingStep_def split: sum.splits if_splits)
  qed simp
qed

lemma outgoingLoop_runs:
  "outgoingLoop C svc a vk rf params st = Some r \<longleftrightarrow> (\<exists>n. run_pages (outgoingPage C svc a vk rf params) n st = Some r)"
proof
  show "\<exists>n. run_pages (outgoingPage C svc a vk rf params) n st = Some r" if "outgoingLoop C svc a vk rf params st = Some r"
    using that
  proof (rule outgoingLoop.raw_induct [rotated, where P = "\<lambda>C svc a vk rf params st r. \<exists>n. run_pages (outgoingPage C svc a vk rf params) n st = Some r"])
    fix loop C svc a vk rf params st r
    assume IH: "\<And>C svc a vk rf params st r. loop C svc a vk rf params st = Some r \<Longrightarrow> \<exists>n. run_pages (outgoingPage C svc a vk rf params) n st = Some r"
      and body: "(case outgoingPage C svc a vk rf params st of Inl e \<Rightarrow> Some (Inl e) | Inr p \<Rightarrow> if snd p then Some (Inr (fst p)) else loop C svc a vk rf params (fst p)) = Some r"
    show "\<exists>n. run_pages (outgoingPage C svc a vk rf params) n st = Some r"
    proof (cases "outgoingPage C svc a vk rf params st")
      case (Inl e)
      with body have "run_pages (outgoingPage C svc a vk rf params) (Suc 0) st = Some r" by auto
      then show ?thesis by blast
    next
      case (Inr p)
      show ?thesis
      proof (cases "snd p")
        case True
        with Inr body have "run_pages (outgoingPage C svc a vk rf params) (Suc 0) st = Some r" by auto
        then show ?thesis by blast
      next
        case False
        with Inr body have "loop C svc a vk rf params (fst p) = Some r" by simp
        from IH [OF this] obtain n where "run_pages (outgoingPage C svc a vk rf params) n (fst p) = Some r" by blast
        with Inr False have "run_pages (outgoingPage C svc a vk rf params) (Suc n) st = Some r" by simp
        then show ?thesis by blast
      qed
    qed
  qed
next
  assume "\<exists>n. run_pages (outgoingPage C svc a vk rf params) n st = Some r"
  then obtain n where "run_pages (outgoingPage C svc a vk rf params) n st = Some r" ..
  then show "outgoingLoop C svc a vk rf params st = Some r"
  proof (induction n arbitrary: st)
    case (Suc n)
    then show ?case by (subst outgoingLoop.simps) (auto split: sum.splits if_splits)
  qed simp
qed

interpretation incoming: paging "incomingStep C svc a vk params" "incomingLoop C svc a vk params"
  by unfold_locales (rule incomingLoop_runs)

interpretation outgoing: paging "outgoingPage C svc a vk rf params" "outgoingLoop C svc a vk rf params"
  by unfold_locales (rule outgoingLoop_runs)

section \<open>Answers that fit together\<close>

text \<open>
  \<open>keyOf\<close> is the channel key of each sender. An answer is consistent when its numbers parse, the keys it
  gives are those of \<open>keyOf\<close>, and every note's sender is announced in the answer or listed in the
  cursor of an earlier one (\<open>known\<close>).
\<close>

definition isInt :: "string \<Rightarrow> bool" where
  "isInt s = (case parse_int s of Inl _ \<Rightarrow> False | Inr _ \<Rightarrow> True)"

definition num :: "string \<Rightarrow> int" where
  "num s = (case parse_int s of Inl _ \<Rightarrow> 0 | Inr v \<Rightarrow> v)"

lemma parse_num: "isInt s \<Longrightarrow> parse_int s = Inr (num s)"
  unfolding isInt_def num_def by (cases "parse_int s") (simp_all del: BigInt.simps)

definition channel_ok :: "(int \<Rightarrow> int) \<Rightarrow> ApiIncomingChannel \<Rightarrow> bool" where
  "channel_ok keyOf ch = (isInt (aic_channel_key ch) \<and> num (aic_channel_key ch) = keyOf (num (aic_sender_addr ch)))"

definition note_ok :: "string list \<Rightarrow> int list \<Rightarrow> ApiIncomingNoteInfo \<Rightarrow> bool" where
  "note_ok announced known n =
     (isInt (ain_token n) \<and> isInt (ain_sender_addr n) \<and> isInt (ain_amount n) \<and> isInt (ain_salt n) \<and>
      (ain_sender_addr n \<in> set announced \<or> num (ain_sender_addr n) \<in> set known))"

definition cursor_entry_ok :: "(int \<Rightarrow> int) \<Rightarrow> string \<times> ApiChannelCursor \<Rightarrow> bool" where
  "cursor_entry_ok keyOf e =
     (isInt (fst e) \<and>
      (case acc_channel_key (snd e) of None \<Rightarrow> False | Some k \<Rightarrow> k \<noteq> [] \<and> isInt k \<and> num k = keyOf (num (fst e))) \<and>
      list_all (\<lambda>sc. isInt (fst sc)) (optl (acc_subchannels (snd e))))"

definition cursor_senders :: "ApiIncomingSyncResponse \<Rightarrow> int list" where
  "cursor_senders p = map (num \<circ> fst) (optl (adc_channels (air_cursor p)))"

definition page_ok :: "(int \<Rightarrow> int) \<Rightarrow> int list \<Rightarrow> ApiIncomingSyncResponse \<Rightarrow> bool" where
  "page_ok keyOf known p =
     (list_all (channel_ok keyOf) (air_channels p) \<and>
      list_all (note_ok (map aic_sender_addr (air_channels p)) known) (air_notes p) \<and>
      list_all (cursor_entry_ok keyOf) (optl (adc_channels (air_cursor p))))"

fun pages_ok :: "(int \<Rightarrow> int) \<Rightarrow> int list \<Rightarrow> ApiIncomingSyncResponse list \<Rightarrow> bool" where
  "pages_ok keyOf known [] = True"
| "pages_ok keyOf known (p # ps) = (page_ok keyOf known p \<and> pages_ok keyOf (cursor_senders p @ known) ps)"

text \<open>The note an answer's entry stands for, and the notes of a token in a list of entries.\<close>

definition sdk_note :: "(int \<Rightarrow> int) \<Rightarrow> ApiIncomingNoteInfo \<Rightarrow> Note" where
  "sdk_note keyOf n =
     \<lparr>n_id = BNString (ain_note_id n), n_amount = num (ain_amount n), n_created = Some (ain_block_number n),
      n_witness = \<lparr>w_channelKey = keyOf (num (ain_sender_addr n)), w_nonce = ain_index n, w_r = num (ain_salt n)\<rparr>,
      n_viewingKey = None, n_sender = BNBigint (num (ain_sender_addr n)), n_open = Some (ain_salt n = ''1'')\<rparr>"

definition token_notes :: "(int \<Rightarrow> int) \<Rightarrow> int list option \<Rightarrow> int \<Rightarrow> ApiIncomingNoteInfo list \<Rightarrow> Note list" where
  "token_notes keyOf tf t ns =
     map (sdk_note keyOf) (filter (\<lambda>n. num (ain_token n) = t \<and> filter_has tf (num (ain_token n))) ns)"

definition notes_at :: "(int, Note list) jsmap \<Rightarrow> int \<Rightarrow> Note list" where
  "notes_at m t = optl (jm_get m t)"

section \<open>One answer\<close>

lemma notes_at_Nil [simp]: "notes_at [] t = []"
  by (simp add: notes_at_def)

lemma notes_at_push: "notes_at (push_notes m token ns) t = (if t = token then notes_at m t @ ns else notes_at m t)"
  by (auto simp: notes_at_def push_notes_def jm_get_default_def split: option.splits prod.splits)

lemma push_notes_wf: "jm_wf m \<Longrightarrow> jm_wf (push_notes m token ns)"
  by (auto simp: push_notes_def jm_get_default_def split: option.splits prod.splits)

lemma channelKeyMap_ok:
  assumes "list_all (channel_ok keyOf) chs"
  shows "\<exists>m. channelKeyMap chs = Inr m \<and>
    (\<forall>s. jm_get m s = (if s \<in> set (map aic_sender_addr chs) then Some (keyOf (num s)) else None))"
proof -
  have "\<exists>m. foldR (\<lambda>m ch. bindR (parse_int (aic_channel_key ch)) (\<lambda>k. Inr (jm_set m (aic_sender_addr ch) k))) m0 chs = Inr m \<and>
    (\<forall>s. jm_get m s = (if s \<in> set (map aic_sender_addr chs) then Some (keyOf (num s)) else jm_get m0 s))" for m0
    using assms
  proof (induction chs arbitrary: m0)
    case (Cons ch chs)
    then have "parse_int (aic_channel_key ch) = Inr (keyOf (num (aic_sender_addr ch)))"
      using parse_num [of "aic_channel_key ch"] by (simp add: channel_ok_def del: BigInt.simps)
    with Cons.IH [of "jm_set m0 (aic_sender_addr ch) (keyOf (num (aic_sender_addr ch)))"] Cons.prems
    show ?case by (auto simp del: BigInt.simps)
  qed simp
  from this [of "[]"] show ?thesis unfolding channelKeyMap_def by (simp only: jm_get_Nil)
qed

lemma convertNote_ok:
  assumes "note_ok announced known n"
    and km: "\<And>s. jm_get keyMap s = (if s \<in> set announced then Some (keyOf (num s)) else None)"
    and ex: "\<And>s. s \<in> set known \<Longrightarrow> map_option ic_channelKey (jm_get existing s) = Some (keyOf s)"
  shows "convertNote keyMap existing tf acc n =
     Inr (if filter_has tf (num (ain_token n)) then push_notes acc (num (ain_token n)) [sdk_note keyOf n] else acc)"
proof -
  have key: "(case jm_get keyMap (ain_sender_addr n) of Some k \<Rightarrow> Some k
      | None \<Rightarrow> map_option ic_channelKey (jm_get existing (num (ain_sender_addr n)))) = Some (keyOf (num (ain_sender_addr n)))"
    using assms(1) ex by (auto simp: km note_ok_def)
  have "parse_int (ain_token n) = Inr (num (ain_token n))" "parse_int (ain_sender_addr n) = Inr (num (ain_sender_addr n))"
    "parse_int (ain_amount n) = Inr (num (ain_amount n))" "parse_int (ain_salt n) = Inr (num (ain_salt n))"
    using assms(1) parse_num by (auto simp: note_ok_def simp del: BigInt.simps)
  then show ?thesis using key by (simp add: convertNote_def sdk_note_def del: BigInt.simps)
qed

lemma convert_fold:
  "jm_wf acc \<Longrightarrow>
   jm_wf (foldl (\<lambda>acc n. if filter_has tf (num (ain_token n)) then push_notes acc (num (ain_token n)) [sdk_note keyOf n] else acc) acc ns) \<and>
   notes_at (foldl (\<lambda>acc n. if filter_has tf (num (ain_token n)) then push_notes acc (num (ain_token n)) [sdk_note keyOf n] else acc) acc ns) t
     = notes_at acc t @ token_notes keyOf tf t ns"
  by (induction ns arbitrary: acc) (auto simp: token_notes_def notes_at_push push_notes_wf)

lemma convertIncomingNotes_ok:
  assumes "list_all (note_ok announced known) ns"
    and "\<And>s. jm_get keyMap s = (if s \<in> set announced then Some (keyOf (num s)) else None)"
    and "\<And>s. s \<in> set known \<Longrightarrow> map_option ic_channelKey (jm_get existing s) = Some (keyOf s)"
  shows "\<exists>m. convertIncomingNotes ns keyMap existing tf = Inr m \<and> jm_wf m \<and> (\<forall>t. notes_at m t = token_notes keyOf tf t ns)"
proof -
  have "convertNote keyMap existing tf acc n =
     Inr (if filter_has tf (num (ain_token n)) then push_notes acc (num (ain_token n)) [sdk_note keyOf n] else acc)"
    if "n \<in> set ns" for acc n
    using assms that by (intro convertNote_ok [of announced known]) (auto simp: list_all_iff)
  then show ?thesis
    using convert_fold [of "[]" tf keyOf ns] by (simp add: convertIncomingNotes_def foldR_total)
qed

lemma merge_notes:
  "jm_wf m \<Longrightarrow> notes_at (foldl (\<lambda>m (token, ns). push_notes m token ns) all m) t = notes_at all t @ notes_at m t"
proof (induction m arbitrary: all)
  case (Cons e m)
  obtain token ns where e: "e = (token, ns)" by fastforce
  from Cons.prems e have wf: "jm_wf m" and fresh: "jm_get m token = None"
    by (auto simp: jm_wf_def jm_get_None_keys simp del: list.set_map)
  from fresh have "notes_at m token = []" by (simp add: notes_at_def)
  with Cons.IH [OF wf, of "push_notes all token ns"] e show ?case
    by (auto simp: notes_at_push) (auto simp: notes_at_def)
qed simp

text \<open>The cursor of a consistent answer reads back, with the keys of \<open>keyOf\<close>.\<close>

lemma foldR_returns: "(\<And>s x. x \<in> set xs \<Longrightarrow> \<exists>s'. f s x = Inr s') \<Longrightarrow> \<exists>s'. foldR f s xs = Inr s'"
proof (induction xs arbitrary: s)
  case (Cons x xs)
  then obtain s1 where "f s x = Inr s1" by fastforce
  with Cons show ?case by fastforce
qed simp

lemma incomingFromApi_ok:
  assumes "cursor_entry_ok keyOf e"
  shows "\<exists>icc. incomingFromApi (snd e) = Inr icc \<and> ic_channelKey icc = keyOf (num (fst e))"
proof -
  obtain k where k: "acc_channel_key (snd e) = Some k" "k \<noteq> []" "parse_int k = Inr (keyOf (num (fst e)))"
    using assms parse_num by (auto simp: cursor_entry_ok_def simp del: BigInt.simps split: option.splits)
  have "\<exists>acc. foldR addSubchannel ([], []) (optl (acc_subchannels (snd e))) = Inr acc"
  proof (rule foldR_returns)
    fix s sc assume "sc \<in> set (optl (acc_subchannels (snd e)))"
    then have "isInt (fst sc)" using assms by (auto simp: cursor_entry_ok_def list_all_iff)
    from parse_num [OF this] show "\<exists>s'. addSubchannel s sc = Inr s'"
      by (simp add: addSubchannel_def split_beta del: BigInt.simps)
  qed
  then obtain idx tot where "foldR addSubchannel ([], []) (optl (acc_subchannels (snd e))) = Inr (idx, tot)" by auto
  with k show ?thesis by (auto simp: incomingFromApi_def simp del: BigInt.simps)
qed

lemma readCursor_ok:
  assumes "list_all (cursor_entry_ok keyOf) es" "\<forall>(s, icc) \<in> set m0. ic_channelKey icc = keyOf s"
  shows "\<exists>m. foldR (\<lambda>m (senderHex, ch).
       bindR (incomingFromApi ch) (\<lambda>icc. bindR (parse_int senderHex) (\<lambda>sender. Inr (jm_set m sender icc)))) m0 es = Inr m \<and>
     (\<forall>(s, icc) \<in> set m. ic_channelKey icc = keyOf s) \<and> fst ` set m = set (map (num \<circ> fst) es) \<union> fst ` set m0"
  using assms
proof (induction es arbitrary: m0)
  case (Cons e es)
  obtain icc where icc: "incomingFromApi (snd e) = Inr icc" "ic_channelKey icc = keyOf (num (fst e))"
    using incomingFromApi_ok [of keyOf e] Cons.prems by auto
  have "parse_int (fst e) = Inr (num (fst e))" using Cons.prems by (auto simp: cursor_entry_ok_def intro: parse_num simp del: BigInt.simps)
  moreover have "\<forall>(s, icc) \<in> set (jm_set m0 (num (fst e)) icc). ic_channelKey icc = keyOf s"
    using jm_set_entries [of m0 "num (fst e)" icc] Cons.prems icc by auto
  ultimately show ?case
    using Cons.IH [of "jm_set m0 (num (fst e)) icc"] Cons.prems icc
    by (simp add: split_beta del: BigInt.simps)
qed simp

text \<open>The invariant of a run: every sender recorded so far has its key.\<close>

definition keys_known :: "(int \<Rightarrow> int) \<Rightarrow> int list \<Rightarrow> IncomingRun \<Rightarrow> bool" where
  "keys_known keyOf known st =
     (\<forall>s. s \<in> set known \<longrightarrow> map_option ic_channelKey (jm_get (ir_incoming st) s) = Some (keyOf s))"

lemma set_all_get:
  "jm_get (foldl (\<lambda>m (k, v). jm_set m k v) m0 es) k =
     (case map_of (rev es) k of Some v \<Rightarrow> Some v | None \<Rightarrow> jm_get m0 k)"
  by (induction es arbitrary: m0) (auto simp: map_add_def split: option.splits)

lemma absorb_ok:
  assumes ok: "page_ok keyOf known p" and kn: "keys_known keyOf known st"
  shows "\<exists>st'. absorbIncoming tf st p = Inr st' \<and> keys_known keyOf (cursor_senders p @ known) st' \<and>
     ir_apiCursor st' = air_cursor p \<and> ir_blockRef st' = Some (air_block_ref p) \<and> ir_log st' = ir_log st \<and>
     (\<forall>t. notes_at (ir_allNotes st') t = notes_at (ir_allNotes st) t @ token_notes keyOf tf t (air_notes p))"
proof -
  obtain keyMap where keyMap: "channelKeyMap (air_channels p) = Inr keyMap"
    "\<And>s. jm_get keyMap s = (if s \<in> set (map aic_sender_addr (air_channels p)) then Some (keyOf (num s)) else None)"
    using channelKeyMap_ok [of keyOf "air_channels p"] ok unfolding page_ok_def by blast
  obtain byToken where byToken: "convertIncomingNotes (air_notes p) keyMap (ir_incoming st) tf = Inr byToken" "jm_wf byToken"
    "\<And>t. notes_at byToken t = token_notes keyOf tf t (air_notes p)"
    using convertIncomingNotes_ok [of "map aic_sender_addr (air_channels p)" known "air_notes p" keyMap keyOf "ir_incoming st" tf]
      keyMap(2) kn ok unfolding page_ok_def keys_known_def by blast
  obtain m where m: "foldR (\<lambda>m (senderHex, ch).
       bindR (incomingFromApi ch) (\<lambda>icc. bindR (parse_int senderHex) (\<lambda>sender. Inr (jm_set m sender icc)))) []
       (optl (adc_channels (air_cursor p))) = Inr m" "\<forall>(s, icc) \<in> set m. ic_channelKey icc = keyOf s"
    "fst ` set m = set (cursor_senders p)"
    using readCursor_ok [of keyOf "optl (adc_channels (air_cursor p))" "[]"] ok by (auto simp: page_ok_def cursor_senders_def)
  define st' where "st' = st\<lparr>ir_apiCursor := air_cursor p, ir_blockRef := Some (air_block_ref p),
    ir_allNotes := foldl (\<lambda>m (token, ns). push_notes m token ns) (ir_allNotes st) byToken,
    ir_incoming := foldl (\<lambda>m (sender, icc). jm_set m sender icc) (ir_incoming st) m\<rparr>"
  have run: "absorbIncoming tf st p = Inr st'"
    using keyMap(1) byToken(1) m(1)
    by (simp add: absorbIncoming_def apiCursorToNotesCursor_def st'_def del: BigInt.simps)
  have "map_option ic_channelKey (jm_get (ir_incoming st') s) = Some (keyOf s)"
    if "s \<in> set (cursor_senders p @ known)" for s
  proof (cases "map_of (rev m) s")
    case None
    then have "s \<notin> fst ` set m" by (simp add: map_of_eq_None_iff)
    with that m(3) kn None show ?thesis by (auto simp: st'_def set_all_get keys_known_def)
  next
    case (Some icc)
    then have "(s, icc) \<in> set m" using map_of_SomeD [of "rev m" s icc] by simp
    with m(2) Some show ?thesis by (auto simp: st'_def set_all_get)
  qed
  moreover have "notes_at (ir_allNotes st') t = notes_at (ir_allNotes st) t @ token_notes keyOf tf t (air_notes p)" for t
    using merge_notes [OF byToken(2)] byToken(3) by (simp add: st'_def)
  ultimately have "keys_known keyOf (cursor_senders p @ known) st'"
    "\<forall>t. notes_at (ir_allNotes st') t = notes_at (ir_allNotes st) t @ token_notes keyOf tf t (air_notes p)"
    unfolding keys_known_def by blast+
  with run show ?thesis by (simp add: st'_def)
qed

section \<open>A whole run\<close>

definition answers :: "string \<Rightarrow> (nat \<Rightarrow> SyncBody \<Rightarrow> 'a http_response) \<Rightarrow> 'a list \<Rightarrow> bool" where
  "answers path svc ps = (\<forall>k < length ps. \<forall>body. indexer_post path (svc k body) = Inr (ps ! k))"

lemma syncBody_ok:
  assumes "toHex (lib C) (NBig (contractAddress C)) True = Inr ca" "toHex (lib C) (NBig vk) True = Inr vh"
  shows "\<exists>body. syncBody C a vk cur br bi lk rs = Inr body \<and> b_cursor body = cur \<and>
     (block_truthy br \<longrightarrow> b_block_ref body = br \<and> b_last_known_block body = None)"
  using assms by (simp add: syncBody_def)

lemma pages_ok_append: "pages_ok keyOf known (ps @ qs) \<longleftrightarrow>
   pages_ok keyOf known ps \<and> pages_ok keyOf (concat (rev (map cursor_senders ps)) @ known) qs"
  by (induction ps arbitrary: known) auto

lemma incoming_states:
  assumes svc: "answers ''/v1/sync/incoming_state'' svc ps"
    and hex: "toHex (lib C) (NBig (contractAddress C)) True = Inr ca" "toHex (lib C) (NBig vk) True = Inr vh"
    and ok: "pages_ok keyOf [] ps"
  shows "\<exists>s. s 0 = incomingStart params \<and>
     (\<forall>i < length ps. incomingPage C svc a vk params (s i) = Inr (s (Suc i)) \<and> ir_apiCursor (s (Suc i)) = air_cursor (ps ! i) \<and>
        ir_blockRef (s (Suc i)) = Some (air_block_ref (ps ! i))) \<and>
     (\<forall>i \<le> length ps. keys_known keyOf (concat (rev (map cursor_senders (take i ps)))) (s i) \<and>
        (\<forall>t. notes_at (ir_allNotes (s i)) t =
           token_notes keyOf (tokenFilter_of (np_tokens params)) t (concat (map air_notes (take i ps)))))"
proof -
  define s where "s = rec_nat (incomingStart params) (\<lambda>_ st. case incomingPage C svc a vk params st of Inr st' \<Rightarrow> st' | Inl _ \<Rightarrow> st)"
  have s_simps: "s 0 = incomingStart params"
    "s (Suc i) = (case incomingPage C svc a vk params (s i) of Inr st' \<Rightarrow> st' | Inl _ \<Rightarrow> s i)" for i
    unfolding s_def by simp_all
  let ?kn = "\<lambda>i. concat (rev (map cursor_senders (take i ps)))"
  let ?notes = "\<lambda>i t. token_notes keyOf (tokenFilter_of (np_tokens params)) t (concat (map air_notes (take i ps)))"
  have step: "incomingPage C svc a vk params (s i) = Inr (s (Suc i)) \<and> ir_apiCursor (s (Suc i)) = air_cursor (ps ! i) \<and>
      ir_blockRef (s (Suc i)) = Some (air_block_ref (ps ! i)) \<and> length (ir_log (s (Suc i))) = Suc i \<and>
      keys_known keyOf (?kn (Suc i)) (s (Suc i)) \<and> (\<forall>t. notes_at (ir_allNotes (s (Suc i))) t = ?notes (Suc i) t)"
    if i: "i < length ps" and l: "length (ir_log (s i)) = i" and k: "keys_known keyOf (?kn i) (s i)"
      and n: "\<forall>t. notes_at (ir_allNotes (s i)) t = ?notes i t" for i
  proof -
    obtain body where b: "syncBody C a vk (ir_apiCursor (s i)) (ir_blockRef (s i)) (np_blockIdentifier params)
        (map_option nc_blockId (np_cursor params)) None = Inr body"
      using syncBody_ok [OF hex] by blast
    have tk: "take (Suc i) ps = take i ps @ [ps ! i]" using i by (simp add: take_Suc_conv_app_nth)
    have "pages_ok keyOf [] (take i ps @ ps ! i # drop (Suc i) ps)" using ok i by (simp flip: id_take_nth_drop)
    then have "page_ok keyOf (?kn i) (ps ! i)" by (simp add: pages_ok_append)
    moreover have "keys_known keyOf (?kn i) ((s i)\<lparr>ir_log := ir_log (s i) @ [body]\<rparr>)" using k by (simp add: keys_known_def)
    ultimately obtain st' where st': "absorbIncoming (tokenFilter_of (np_tokens params)) ((s i)\<lparr>ir_log := ir_log (s i) @ [body]\<rparr>) (ps ! i) = Inr st'"
      "keys_known keyOf (cursor_senders (ps ! i) @ ?kn i) st'" "ir_apiCursor st' = air_cursor (ps ! i)"
      "ir_blockRef st' = Some (air_block_ref (ps ! i))" "ir_log st' = ir_log (s i) @ [body]"
      "\<forall>t. notes_at (ir_allNotes st') t = notes_at (ir_allNotes (s i)) t @
         token_notes keyOf (tokenFilter_of (np_tokens params)) t (air_notes (ps ! i))"
      using absorb_ok [of keyOf "?kn i" "ps ! i" "(s i)\<lparr>ir_log := ir_log (s i) @ [body]\<rparr>"] by auto
    have "incomingPage C svc a vk params (s i) = Inr st'"
      using b svc i l st'(1) by (simp add: incomingPage_def answers_def)
    then have page: "incomingPage C svc a vk params (s i) = Inr (s (Suc i))" "s (Suc i) = st'" by (simp_all add: s_simps)
    have "\<forall>t. notes_at (ir_allNotes st') t = ?notes (Suc i) t" using st'(6) n tk by (simp add: token_notes_def)
    with page st'(2-5) l tk show ?thesis by simp
  qed
  have "i \<le> length ps \<longrightarrow> length (ir_log (s i)) = i \<and> keys_known keyOf (?kn i) (s i) \<and>
      (\<forall>t. notes_at (ir_allNotes (s i)) t = ?notes i t)" for i
  proof (induction i)
    case 0
    then show ?case by (simp add: s_simps incomingStart_def keys_known_def token_notes_def)
  next
    case (Suc i)
    then show ?case using step [of i] by auto
  qed
  then show ?thesis using step by (intro exI [of _ s]) (auto simp: s_simps)
qed

text \<open>
  C13: Let the service answer the requests of a run with the pages \<open>ps\<close>, of which only the last reports
  completion, let their numbers parse and agree on the channel key of each sender, and let every note's
  sender be announced in its page or in the cursor of an earlier one. Then \<open>discoverNotes\<close> returns; the
  notes of a token are those all pages report for it, in order, each with its sender's key, and none
  outside the token filter; the returned cursor holds every sender of the pages' cursors with its key
  and is stamped with the block of the last page.
\<close>

theorem indexer_notes_complete:
  assumes "answers ''/v1/sync/incoming_state'' svc ps" "ps \<noteq> []"
    and "\<forall>p \<in> set (butlast ps). \<not> isApiCursorComplete (air_cursor p)" "isApiCursorComplete (air_cursor (last ps))"
    and "toHex (lib C) (NBig (contractAddress C)) True = Inr ca" "toHex (lib C) (NBig vk) True = Inr vh"
    and "pages_ok keyOf [] ps"
  shows "\<exists>r. indexer_discoverNotes C svc a vk params = Inr r \<and>
     (\<forall>t. notes_at (nr_notes r) t = token_notes keyOf (tokenFilter_of (np_tokens params)) t (concat (map air_notes ps))) \<and>
     (\<forall>p \<in> set ps. \<forall>s \<in> set (cursor_senders p).
        map_option ic_channelKey (jm_get (incomingChannels (nr_cursor r)) s) = Some (keyOf s)) \<and>
     nr_timestamp r = air_block_ref (last ps) \<and> nc_blockId (nr_cursor r) = air_block_ref (last ps)"
proof -
  obtain s where s: "s 0 = incomingStart params"
     "\<And>i. i < length ps \<Longrightarrow> incomingPage C svc a vk params (s i) = Inr (s (Suc i)) \<and>
        ir_apiCursor (s (Suc i)) = air_cursor (ps ! i) \<and> ir_blockRef (s (Suc i)) = Some (air_block_ref (ps ! i))"
     "keys_known keyOf (concat (rev (map cursor_senders ps))) (s (length ps))"
     "\<forall>t. notes_at (ir_allNotes (s (length ps))) t =
        token_notes keyOf (tokenFilter_of (np_tokens params)) t (concat (map air_notes ps))"
    using incoming_states [OF assms(1,5,6,7), of params a] by (metis order_refl take_all)
  obtain n where n: "length ps = Suc n" using assms(2) by (cases ps) auto
  have lst: "last ps = ps ! n" using assms(2) n by (simp add: last_conv_nth)
  have notlast: "ps ! i \<in> set (butlast ps)" if "i < n" for i
    using that n by (metis Suc_less_eq diff_Suc_1 length_butlast less_SucI nth_butlast nth_mem)
  have "incomingLoop C svc a vk params (s 0) = Some (Inr (s (Suc n)))"
  proof (rule incoming.loop_steps [of n])
    show "incomingStep C svc a vk params (s i) = Inr (s (Suc i), False)" if "i < n" for i
      using s(2) [of i] that n assms(3) notlast [OF that] by (simp add: incomingStep_def)
    show "incomingStep C svc a vk params (s n) = Inr (s (Suc n), True)"
      using s(2) [of n] n assms(4) lst by (simp add: incomingStep_def)
  qed
  then have "indexer_discoverNotes C svc a vk params = notesResult (s (length ps))"
    using s(1) n by (simp add: indexer_discoverNotes_def)
  moreover have "ir_blockRef (s (length ps)) = Some (air_block_ref (last ps))" using s(2) [of n] n lst by simp
  ultimately show ?thesis
    using s(3,4) by (auto simp: notesResult_def keys_known_def)
qed

section \<open>A sample run\<close>

definition serve :: "'a list \<Rightarrow> nat \<Rightarrow> SyncBody \<Rightarrow> 'a http_response" where
  "serve ps k body = (if k < length ps then Response 200 None (Inr (ps ! k)) else NetworkError ''down'')"

lemma answers_serve [simp]: "answers path (serve ps) ps"
  by (simp add: answers_def serve_def indexer_post_def status_ok_def)

definition sample_provider_cfg :: ProviderCfg where
  "sample_provider_cfg = \<lparr>contractAddress = BNBigint 99, lib = sample_lib\<rparr>"

definition sample_wire_note :: "string \<Rightarrow> nat \<Rightarrow> ApiIncomingNoteInfo" where
  "sample_wire_note token i = \<lparr>ain_sender_addr = ''0xb'', ain_token = token, ain_index = i, ain_note_id = ''0x77'',
     ain_amount = ''1000'', ain_salt = ''1'', ain_block_number = 4\<rparr>"

definition sample_page_cursor :: "bool \<Rightarrow> int \<Rightarrow> ApiDiscoveryCursor" where
  "sample_page_cursor fin i = \<lparr>channel_discovery_complete = Some True, total_n_channels = None, last_channel_index = Some 0,
     adc_channels = Some [(''0xb'', \<lparr>acc_channel_key = Some ''0x2'', subchannel_discovery_complete = Some True,
       last_subchannel_index = Some 0, acc_subchannels = Some [(''0x5'',
         \<lparr>note_discovery_complete = Some fin, asc_last_note_index = Some i, total_n_notes = None\<rparr>)]\<rparr>)]\<rparr>"

definition sample_pages :: "ApiIncomingSyncResponse list" where
  "sample_pages =
     [\<lparr>air_block_ref = BlockHash ''0xabc'', air_channels = [\<lparr>aic_channel_key = ''0x2'', aic_sender_addr = ''0xb''\<rparr>],
       air_subchannels = [], air_notes = [sample_wire_note ''0x5'' 0], air_cursor = sample_page_cursor False 0\<rparr>,
      \<lparr>air_block_ref = BlockHash ''0xabc'', air_channels = [],
       air_subchannels = [], air_notes = [sample_wire_note ''0x5'' 1, sample_wire_note ''0x6'' 0], air_cursor = sample_page_cursor True 1\<rparr>]"

definition no_params :: NotesParams where
  "no_params = \<lparr>np_cursor = None, np_tokens = None, np_blockIdentifier = None\<rparr>"

theorem indexer_notes_complete_witness:
  "\<exists>r. indexer_discoverNotes sample_provider_cfg (serve sample_pages) 1 (BNBigint 7) no_params = Inr r \<and>
     length (notes_at (nr_notes r) 5) = 2 \<and> length (notes_at (nr_notes r) 6) = 1"
proof -
  have "\<forall>p \<in> set (butlast sample_pages). \<not> isApiCursorComplete (air_cursor p)"
    "isApiCursorComplete (air_cursor (last sample_pages))" "pages_ok (\<lambda>_. 2) [] sample_pages" "sample_pages \<noteq> []"
    by code_simp+
  moreover have "toHex (lib sample_provider_cfg) (NBig (contractAddress sample_provider_cfg)) True = Inr (hex_of 99)"
    "toHex (lib sample_provider_cfg) (NBig (BNBigint 7)) True = Inr (hex_of 7)"
    by (simp_all add: sample_provider_cfg_def)
  moreover have "length (token_notes (\<lambda>_. 2) None 5 (concat (map air_notes sample_pages))) = 2"
    "length (token_notes (\<lambda>_. 2) None 6 (concat (map air_notes sample_pages))) = 1" by code_simp+
  ultimately show ?thesis
    using indexer_notes_complete [of "serve sample_pages" sample_pages sample_provider_cfg "hex_of 99" "BNBigint 7" "hex_of 7"
        "\<lambda>_. 2" 1 no_params]
    by (fastforce simp: no_params_def tokenFilter_of_def)
qed

section \<open>Resuming from a cursor\<close>

text \<open>
  A resumed sync fails on the first new note of a known sender: when the first answer lists such a
  note but announces no channel (the service announces only channels it has just found), \<open>discoverNotes\<close>
  throws, although the caller's cursor holds the sender's channel key. The map of keys it falls back on
  starts empty instead of with the cursor's channels.
\<close>

theorem indexer_resume_misses_known_sender:
  assumes "np_cursor params = Some c" "jm_get (incomingChannels c) (num (ain_sender_addr n)) = Some icc"
    and "\<And>body. indexer_post ''/v1/sync/incoming_state'' (svc 0 body) = Inr p"
    and "air_channels p = []" "air_notes p = n # rest" "isInt (ain_token n)" "isInt (ain_sender_addr n)"
    and "filter_has (tokenFilter_of (np_tokens params)) (num (ain_token n))"
    and "toHex (lib C) (NBig (contractAddress C)) True = Inr ca" "toHex (lib C) (NBig vk) True = Inr vh"
  shows "indexer_discoverNotes C svc a vk params = Inl (MissingChannelKey (ain_sender_addr n))"
proof -
  obtain body where b: "syncBody C a vk (ir_apiCursor (incomingStart params)) (ir_blockRef (incomingStart params))
      (np_blockIdentifier params) (map_option nc_blockId (np_cursor params)) None = Inr body"
    using syncBody_ok [OF assms(9,10)] by blast
  have "convertNote [] [] (tokenFilter_of (np_tokens params)) [] n = Inl (MissingChannelKey (ain_sender_addr n))"
    using assms(8) parse_num [OF assms(6)] parse_num [OF assms(7)] by (simp add: convertNote_def del: BigInt.simps)
  then have "incomingPage C svc a vk params (incomingStart params) = Inl (MissingChannelKey (ain_sender_addr n))"
    using b assms(3) [of body] assms(4,5)
    by (simp add: incomingPage_def incomingStart_def absorbIncoming_def channelKeyMap_def convertIncomingNotes_def)
  then have "incomingStep C svc a vk params (incomingStart params) = Inl (MissingChannelKey (ain_sender_addr n))"
    by (simp add: incomingStep_def)
  from incoming.loop_error [OF this] show ?thesis by (simp add: indexer_discoverNotes_def)
qed

definition resume_params :: NotesParams where
  "resume_params = no_params\<lparr>np_cursor := Some \<lparr>nc_blockId = BlockHash ''0xabb'', incomingChannels =
     [(11, \<lparr>ic_channelKey = 2, ic_subchannelIdIndex = 1, ic_noteIndexes = [(5, 1)], ic_totalNoteCounts = []\<rparr>)]\<rparr>\<rparr>"

theorem indexer_resume_misses_known_sender_witness:
  "indexer_discoverNotes sample_provider_cfg (serve (tl sample_pages)) 1 (BNBigint 7) resume_params
     = Inl (MissingChannelKey ''0xb'')"
proof -
  let ?n = "sample_wire_note ''0x5'' 1"
  have num: "num (ain_sender_addr ?n) = 11" "isInt (ain_token ?n)" "isInt (ain_sender_addr ?n)" "ain_sender_addr ?n = ''0xb''"
    by code_simp+
  have p: "air_channels (sample_pages ! 1) = []" "air_notes (sample_pages ! 1) = ?n # [sample_wire_note ''0x6'' 0]"
    by (simp_all add: sample_pages_def)
  have s: "indexer_post ''/v1/sync/incoming_state'' (serve (tl sample_pages) 0 body) = Inr (sample_pages ! 1)" for body
    by (simp add: serve_def sample_pages_def indexer_post_def status_ok_def)
  have f: "filter_has (tokenFilter_of (np_tokens resume_params)) (num (ain_token ?n))"
    by (simp add: resume_params_def no_params_def tokenFilter_of_def filter_has_def)
  have h: "toHex (lib sample_provider_cfg) (NBig (contractAddress sample_provider_cfg)) True = Inr (hex_of 99)"
    "toHex (lib sample_provider_cfg) (NBig (BNBigint 7)) True = Inr (hex_of 7)"
    by (simp_all add: sample_provider_cfg_def)
  have c: "np_cursor resume_params = Some \<lparr>nc_blockId = BlockHash ''0xabb'', incomingChannels =
     [(11, \<lparr>ic_channelKey = 2, ic_subchannelIdIndex = 1, ic_noteIndexes = [(5, 1)], ic_totalNoteCounts = []\<rparr>)]\<rparr>"
    by (simp add: resume_params_def)
  have g: "jm_get (incomingChannels (the (np_cursor resume_params))) (num (ain_sender_addr ?n)) =
      Some \<lparr>ic_channelKey = 2, ic_subchannelIdIndex = 1, ic_noteIndexes = [(5, 1)], ic_totalNoteCounts = []\<rparr>"
    using num(1) by (simp add: c)
  have "indexer_discoverNotes sample_provider_cfg (serve (tl sample_pages)) 1 (BNBigint 7) resume_params
      = Inl (MissingChannelKey (ain_sender_addr ?n))"
    by (rule indexer_resume_misses_known_sender [where svc = "serve (tl sample_pages)" and p = "sample_pages ! 1" and n = ?n,
          OF _ g _ p(1,2) num(2,3) f h]) (simp_all only: s c option.sel)
  then show ?thesis using num(4) by simp
qed

section \<open>The requests of a run\<close>

text \<open>
  Every request but the first continues the answer before it; \<open>chained\<close> also says how the run stands
  after its last request.
\<close>

definition continues :: "incoming_service \<Rightarrow> SyncBody list \<Rightarrow> nat \<Rightarrow> ApiDiscoveryCursor \<Rightarrow> BlockId option \<Rightarrow> bool" where
  "continues svc log k cursor blockRef \<longleftrightarrow>
     (\<exists>resp. indexer_post ''/v1/sync/incoming_state'' (svc k (log ! k)) = Inr resp \<and>
        cursor = air_cursor resp \<and> blockRef = Some (air_block_ref resp))"

definition chained :: "incoming_service \<Rightarrow> IncomingRun \<Rightarrow> bool" where
  "chained svc st \<longleftrightarrow>
     (ir_log st \<noteq> [] \<longrightarrow> continues svc (ir_log st) (length (ir_log st) - 1) (ir_apiCursor st) (ir_blockRef st)) \<and>
     (\<forall>k. Suc k < length (ir_log st) \<longrightarrow>
        (\<exists>b. continues svc (ir_log st) k (b_cursor (ir_log st ! Suc k)) b \<and>
           (block_truthy b \<longrightarrow> b_block_ref (ir_log st ! Suc k) = b \<and> b_last_known_block (ir_log st ! Suc k) = None)))"

lemma absorb_fields:
  "absorbIncoming tf st resp = Inr st' \<Longrightarrow>
   ir_log st' = ir_log st \<and> ir_apiCursor st' = air_cursor resp \<and> ir_blockRef st' = Some (air_block_ref resp)"
  by (auto simp: absorbIncoming_def bindR_eq_Inr)

lemma syncBody_fields:
  "syncBody C a vk cur br bi lk rs = Inr body \<Longrightarrow>
   b_cursor body = cur \<and> (block_truthy br \<longrightarrow> b_block_ref body = br \<and> b_last_known_block body = None)"
  by (auto simp: syncBody_def bindR_eq_Inr)

lemma chained_step:
  assumes "chained svc st" "incomingStep C svc a vk params st = Inr r"
  shows "chained svc (fst r)"
proof -
  obtain body resp where b: "syncBody C a vk (ir_apiCursor st) (ir_blockRef st) (np_blockIdentifier params)
      (map_option nc_blockId (np_cursor params)) None = Inr body"
    and r: "indexer_post ''/v1/sync/incoming_state'' (svc (length (ir_log st)) body) = Inr resp"
    and ab: "absorbIncoming (tokenFilter_of (np_tokens params)) (st\<lparr>ir_log := ir_log st @ [body]\<rparr>) resp = Inr (fst r)"
    using assms(2) by (auto simp: incomingStep_def incomingPage_def bindR_eq_Inr)
  note f = absorb_fields [OF ab] and g = syncBody_fields [OF b]
  have old: "continues svc (ir_log st @ [body]) k c b' \<longleftrightarrow> continues svc (ir_log st) k c b'" if "k < length (ir_log st)" for k c b'
    using that by (simp add: continues_def nth_append)
  have "\<exists>b. continues svc (ir_log st @ [body]) k (b_cursor ((ir_log st @ [body]) ! Suc k)) b \<and>
      (block_truthy b \<longrightarrow> b_block_ref ((ir_log st @ [body]) ! Suc k) = b \<and> b_last_known_block ((ir_log st @ [body]) ! Suc k) = None)"
    if k: "k < length (ir_log st)" for k
  proof (cases "Suc k < length (ir_log st)")
    case True
    with assms(1) show ?thesis by (simp add: chained_def old k) (simp add: nth_append)
  next
    case False
    with k have l: "length (ir_log st) - 1 = k" "ir_log st \<noteq> []" and n: "(ir_log st @ [body]) ! Suc k = body"
      by (auto simp: nth_append less_Suc_eq)
    have "continues svc (ir_log st) k (ir_apiCursor st) (ir_blockRef st)" using assms(1) l unfolding chained_def by metis
    then show ?thesis using g by (intro exI [of _ "ir_blockRef st"]) (simp add: old [OF k] n)
  qed
  moreover have "ir_log (fst r) = ir_log st @ [body]"
    "continues svc (ir_log st @ [body]) (length (ir_log st)) (ir_apiCursor (fst r)) (ir_blockRef (fst r))"
    using f r by (simp_all add: continues_def)
  ultimately show ?thesis by (simp add: chained_def)
qed

text \<open>
  Whatever the service answers, the requests of a finished run form a chain: each request after the
  first sends back the cursor of the answer before it, and pins its reads to that answer's block
  (instead of asking for reorg detection) whenever that block reference is truthy.
\<close>

theorem indexer_requests_chained:
  assumes "incomingLoop C svc a vk params (incomingStart params) = Some (Inr st)" "Suc k < length (ir_log st)"
  shows "\<exists>resp. indexer_post ''/v1/sync/incoming_state'' (svc k (ir_log st ! k)) = Inr resp \<and>
     b_cursor (ir_log st ! Suc k) = air_cursor resp \<and>
     (block_truthy (Some (air_block_ref resp)) \<longrightarrow>
        b_block_ref (ir_log st ! Suc k) = Some (air_block_ref resp) \<and> b_last_known_block (ir_log st ! Suc k) = None)"
proof -
  have "chained svc st"
  proof (rule incoming.loop_inv [where I = "chained svc", OF _ assms(1)])
    show "chained svc (incomingStart params)" by (simp add: chained_def incomingStart_def)
  qed (rule chained_step)
  with assms(2) show ?thesis unfolding chained_def continues_def by blast
qed

theorem indexer_requests_chained_witness:
  "\<exists>st. incomingLoop sample_provider_cfg (serve sample_pages) 1 (BNBigint 7) no_params (incomingStart no_params) = Some (Inr st) \<and>
     b_block_ref (ir_log st ! 1) = Some (BlockHash ''0xabc'')"
proof -
  have "case incomingLoop sample_provider_cfg (serve sample_pages) 1 (BNBigint 7) no_params (incomingStart no_params) of
      Some (Inr st) \<Rightarrow> length (ir_log st) = 2 | _ \<Rightarrow> False"
    by code_simp
  then obtain st where st: "incomingLoop sample_provider_cfg (serve sample_pages) 1 (BNBigint 7) no_params (incomingStart no_params) = Some (Inr st)"
    "Suc 0 < length (ir_log st)" by (auto split: option.splits sum.splits)
  from indexer_requests_chained [OF this] st show ?thesis
    by (auto simp: serve_def indexer_post_def status_ok_def sample_pages_def block_truthy_def)
qed

end
