(* ===== verification/Indexer_Channels.thy ===== *)
theory Indexer_Channels
  imports Indexer_Notes
begin

text \<open>
  What \<open>discoverChannels\<close> of the indexer provider returns: the accumulated outgoing pages as functions
  of all reports, in order, and the channel map built from them.
\<close>

section \<open>Reports\<close>

definition info_of :: "ApiOutgoingChannel \<Rightarrow> OutgoingInfo" where
  "info_of ch = \<lparr>ch_publicKey = num (aoc_recipient_public_key ch), ch_channelKey = num (aoc_channel_key ch)\<rparr>"

text \<open>The last report of a channel that exists on chain, and of one that is only precomputed.\<close>

definition created_at :: "ApiOutgoingChannel list \<Rightarrow> string \<Rightarrow> OutgoingInfo option" where
  "created_at chs = map_of (rev (map (\<lambda>ch. (aoc_recipient_addr ch, info_of ch)) (filter (\<lambda>ch. \<not> flag (precomputed ch)) chs)))"

definition precomputed_at :: "ApiOutgoingChannel list \<Rightarrow> string \<Rightarrow> OutgoingInfo option" where
  "precomputed_at chs = map_of (rev (map (\<lambda>ch. (aoc_recipient_addr ch, info_of ch)) (filter (\<lambda>ch. flag (precomputed ch)) chs)))"

text \<open>The next note nonce of a subchannel: one above the last index reported, zero without one.\<close>

definition last_index_at :: "ApiOutgoingSubchannelInfo list \<Rightarrow> string \<Rightarrow> string \<Rightarrow> nat option" where
  "last_index_at subs r t = map_of (rev (map (\<lambda>sc. ((aos_recipient_addr sc, aos_token sc), the (aos_last_note_index sc)))
     (filter (\<lambda>sc. aos_last_note_index sc \<noteq> None) subs))) (r, t)"

definition sub_reported :: "ApiOutgoingSubchannelInfo list \<Rightarrow> string \<Rightarrow> string \<Rightarrow> bool" where
  "sub_reported subs r t = list_ex (\<lambda>sc. aos_recipient_addr sc = r \<and> aos_token sc = t) subs"

definition nonce_at :: "ApiOutgoingSubchannelInfo list \<Rightarrow> string \<Rightarrow> string \<Rightarrow> nat option" where
  "nonce_at subs r t = (if sub_reported subs r t
     then Some (case last_index_at subs r t of Some n \<Rightarrow> n + 1 | None \<Rightarrow> 0) else None)"

text \<open>Addresses are written as \<open>toHex\<close> writes them.\<close>

definition hex_addr :: "string \<Rightarrow> bool" where
  "hex_addr s = (isInt s \<and> 0 \<le> num s \<and> hex_of (num s) = s)"

definition outgoing_ok :: "ApiOutgoingSyncResponse \<Rightarrow> bool" where
  "outgoing_ok p =
     (list_all (\<lambda>ch. hex_addr (aoc_recipient_addr ch) \<and> isInt (aoc_recipient_public_key ch) \<and> isInt (aoc_channel_key ch)) (aor_channels p) \<and>
      list_all (\<lambda>sc. hex_addr (aos_token sc)) (aor_subchannels p))"

lemma num_hex_of [simp]: "0 \<le> i \<Longrightarrow> num (hex_of i) = i"
  by (simp add: num_def)

lemma hex_addr_inj: "hex_addr s \<Longrightarrow> hex_addr s' \<Longrightarrow> num s = num s' \<Longrightarrow> s = s'"
  by (metis hex_addr_def)

section \<open>Accumulation\<close>

definition add_channel :: "Outgoing \<Rightarrow> ApiOutgoingChannel \<Rightarrow> Outgoing" where
  "add_channel o1 ch =
     (let r = aoc_recipient_addr ch in
      if flag (precomputed ch) then
        if \<not> jm_has (createdChannelMap o1) r
        then o1\<lparr>nonCreatedChannelMap := jm_set (nonCreatedChannelMap o1) r (info_of ch)\<rparr> else o1
      else o1\<lparr>createdChannelMap := jm_set (createdChannelMap o1) r (info_of ch),
              nonCreatedChannelMap := jm_delete (nonCreatedChannelMap o1) r\<rparr>)"

definition tokenMap_of :: "Outgoing \<Rightarrow> string \<Rightarrow> (string, SubInfo) jsmap" where
  "tokenMap_of o1 r = optl (jm_get (subchannelsByRecipient o1) r)"

definition add_sub :: "Outgoing \<Rightarrow> ApiOutgoingSubchannelInfo \<Rightarrow> Outgoing" where
  "add_sub o1 sc = o1\<lparr>subchannelsByRecipient := jm_set (subchannelsByRecipient o1) (aos_recipient_addr sc)
     (if \<not> jm_has (tokenMap_of o1 (aos_recipient_addr sc)) (aos_token sc) \<or> aos_last_note_index sc \<noteq> None
      then jm_set (tokenMap_of o1 (aos_recipient_addr sc)) (aos_token sc)
             \<lparr>sub_token = num (aos_token sc), sub_lastIndex = aos_last_note_index sc\<rparr>
      else tokenMap_of o1 (aos_recipient_addr sc))\<rparr>"

lemma jm_set_twice [simp]: "jm_set (jm_set m k v) k w = jm_set m k w"
  by (induction m k v rule: jm_set.induct) auto

lemma accChannel_ok:
  "isInt (aoc_recipient_public_key ch) \<Longrightarrow> isInt (aoc_channel_key ch) \<Longrightarrow> accChannel o1 ch = Inr (add_channel o1 ch)"
  by (simp add: accChannel_def add_channel_def parse_num info_of_def Let_def del: BigInt.simps)

lemma accSubchannel_ok: "isInt (aos_token sc) \<Longrightarrow> accSubchannel o1 sc = Inr (add_sub o1 sc)"
proof -
  assume "isInt (aos_token sc)"
  then have "parse_int (aos_token sc) = Inr (num (aos_token sc))" by (rule parse_num)
  moreover have "(case jm_get (subchannelsByRecipient o1) (aos_recipient_addr sc) of None \<Rightarrow> [] | Some m \<Rightarrow> m)
      = tokenMap_of o1 (aos_recipient_addr sc)" by (simp add: tokenMap_of_def optl_def)
  ultimately show ?thesis by (simp add: accSubchannel_def add_sub_def Let_def del: BigInt.simps)
qed

lemma accumulate_ok:
  "outgoing_ok p \<Longrightarrow> accumulateOutgoingResponse o1 p = Inr (foldl add_sub (foldl add_channel o1 (aor_channels p)) (aor_subchannels p))"
  by (simp add: accumulateOutgoingResponse_def outgoing_ok_def list_all_iff hex_addr_def
      foldR_total [where g = add_channel] foldR_total [where g = add_sub] accChannel_ok accSubchannel_ok)

text \<open>
  Invariant: the maps hold what was reported so far. A channel reported as created is never in the
  map of precomputed ones.
\<close>

definition merged :: "ApiOutgoingChannel list \<Rightarrow> ApiOutgoingSubchannelInfo list \<Rightarrow> Outgoing \<Rightarrow> bool" where
  "merged chs subs o1 \<longleftrightarrow>
     jm_wf (createdChannelMap o1) \<and> jm_wf (nonCreatedChannelMap o1) \<and>
     (\<forall>r. jm_get (createdChannelMap o1) r = created_at chs r \<and>
          jm_get (nonCreatedChannelMap o1) r = (if created_at chs r = None then precomputed_at chs r else None) \<and>
          jm_wf (tokenMap_of o1 r) \<and>
          (\<forall>t. jm_get (tokenMap_of o1 r) t = (if sub_reported subs r t
             then Some \<lparr>sub_token = num t, sub_lastIndex = last_index_at subs r t\<rparr> else None)))"

lemma merged_start: "merged [] [] no_outgoing"
  by (simp add: merged_def no_outgoing_def created_at_def precomputed_at_def tokenMap_of_def sub_reported_def)

lemma created_at_snoc: "created_at (chs @ [ch]) r =
    (if \<not> flag (precomputed ch) \<and> aoc_recipient_addr ch = r then Some (info_of ch) else created_at chs r)"
  by (auto simp: created_at_def)

lemma precomputed_at_snoc: "precomputed_at (chs @ [ch]) r =
    (if flag (precomputed ch) \<and> aoc_recipient_addr ch = r then Some (info_of ch) else precomputed_at chs r)"
  by (auto simp: precomputed_at_def)

lemma add_channel_get:
  "jm_get (createdChannelMap (add_channel o1 ch)) r =
     (if \<not> flag (precomputed ch) \<and> aoc_recipient_addr ch = r then Some (info_of ch) else jm_get (createdChannelMap o1) r)"
  "jm_get (nonCreatedChannelMap (add_channel o1 ch)) r =
     (if aoc_recipient_addr ch = r then
        if flag (precomputed ch) then
          if jm_get (createdChannelMap o1) r = None then Some (info_of ch) else jm_get (nonCreatedChannelMap o1) r
        else None
      else jm_get (nonCreatedChannelMap o1) r)"
  "tokenMap_of (add_channel o1 ch) r = tokenMap_of o1 r"
  "jm_wf (createdChannelMap o1) \<Longrightarrow> jm_wf (createdChannelMap (add_channel o1 ch))"
  "jm_wf (nonCreatedChannelMap o1) \<Longrightarrow> jm_wf (nonCreatedChannelMap (add_channel o1 ch))"
  by (auto simp: add_channel_def Let_def jm_has_def tokenMap_of_def)

lemma merged_channel: "merged chs subs o1 \<Longrightarrow> merged (chs @ [ch]) subs (add_channel o1 ch)"
  by (auto simp: merged_def add_channel_get created_at_snoc precomputed_at_snoc)

lemma merged_channels: "merged chs subs o1 \<Longrightarrow> merged (chs @ new) subs (foldl add_channel o1 new)"
proof (induction new arbitrary: chs o1)
  case (Cons ch new)
  from Cons.IH [OF merged_channel [OF Cons.prems, of ch]] show ?case by simp
qed simp

lemma last_index_snoc: "last_index_at (subs @ [sc]) r t =
    (if aos_recipient_addr sc = r \<and> aos_token sc = t \<and> aos_last_note_index sc \<noteq> None then aos_last_note_index sc
     else last_index_at subs r t)"
  by (auto simp: last_index_at_def)

lemma last_index_unreported: "\<not> sub_reported subs r t \<Longrightarrow> last_index_at subs r t = None"
  by (auto simp: last_index_at_def sub_reported_def list_ex_iff map_of_eq_None_iff)

lemma add_sub_fields:
  "createdChannelMap (add_sub o1 sc) = createdChannelMap o1"
  "nonCreatedChannelMap (add_sub o1 sc) = nonCreatedChannelMap o1"
  "tokenMap_of (add_sub o1 sc) r =
     (if aos_recipient_addr sc = r \<and> (\<not> jm_has (tokenMap_of o1 r) (aos_token sc) \<or> aos_last_note_index sc \<noteq> None)
      then jm_set (tokenMap_of o1 r) (aos_token sc) \<lparr>sub_token = num (aos_token sc), sub_lastIndex = aos_last_note_index sc\<rparr>
      else tokenMap_of o1 r)"
  by (auto simp: add_sub_def tokenMap_of_def)

lemma sub_reported_snoc:
  "sub_reported (subs @ [sc]) r t \<longleftrightarrow> sub_reported subs r t \<or> aos_recipient_addr sc = r \<and> aos_token sc = t"
  by (auto simp: sub_reported_def)

lemma merged_sub:
  assumes "merged chs subs o1"
  shows "merged chs (subs @ [sc]) (add_sub o1 sc)"
proof -
  have get: "jm_get (tokenMap_of o1 r) t = (if sub_reported subs r t
      then Some \<lparr>sub_token = num t, sub_lastIndex = last_index_at subs r t\<rparr> else None)" for r t
    using assms by (simp add: merged_def)
  have has: "jm_has (tokenMap_of o1 r) t \<longleftrightarrow> sub_reported subs r t" for r t
    by (simp add: jm_has_def get)
  have "jm_get (tokenMap_of (add_sub o1 sc) r) t = (if sub_reported (subs @ [sc]) r t
      then Some \<lparr>sub_token = num t, sub_lastIndex = last_index_at (subs @ [sc]) r t\<rparr> else None)" for r t
    by (auto simp: add_sub_fields has get last_index_snoc sub_reported_snoc last_index_unreported)
  moreover have "jm_wf (tokenMap_of (add_sub o1 sc) r)" for r
    using assms by (simp add: add_sub_fields merged_def)
  ultimately show ?thesis using assms by (simp add: merged_def add_sub_fields(1,2))
qed

lemma merged_subs: "merged chs subs o1 \<Longrightarrow> merged chs (subs @ new) (foldl add_sub o1 new)"
proof (induction new arbitrary: subs o1)
  case (Cons sc new)
  from Cons.IH [OF merged_sub [OF Cons.prems, of sc]] show ?case by simp
qed simp

lemma merged_page:
  assumes "outgoing_ok p" "merged chs subs o1"
  shows "\<exists>o2. accumulateOutgoingResponse o1 p = Inr o2 \<and> merged (chs @ aor_channels p) (subs @ aor_subchannels p) o2"
  using assms accumulate_ok merged_subs merged_channels by blast

section \<open>The channel map\<close>

abbreviation hex_keys :: "(string, 'v) jsmap \<Rightarrow> bool" where
  "hex_keys m \<equiv> list_all (\<lambda>e. hex_addr (fst e)) m"

definition nonce_of :: "SubInfo \<Rightarrow> nat" where
  "nonce_of sub = (case sub_lastIndex sub of Some n \<Rightarrow> n + 1 | None \<Rightarrow> 0)"

lemma num_keys_distinct: "jm_wf m \<Longrightarrow> hex_keys m \<Longrightarrow> distinct (map (num \<circ> fst) m)"
proof (induction m)
  case (Cons e m)
  have "num (fst x) \<noteq> num (fst e)" if x: "x \<in> set m" for x
  proof
    assume "num (fst x) = num (fst e)"
    moreover have "hex_addr (fst x)" "hex_addr (fst e)" using Cons.prems(2) x by (auto simp: list_all_iff)
    ultimately have "fst x = fst e" using hex_addr_inj by blast
    moreover have "fst e \<notin> fst ` set m" using Cons.prems(1) by (simp add: jm_wf_def)
    ultimately show False using x by (metis imageI)
  qed
  then have "num (fst e) \<notin> (num \<circ> fst) ` set m" by (metis comp_apply imageE)
  moreover have "distinct (map (num \<circ> fst) m)" using Cons by (simp add: jm_wf_def comp_def)
  ultimately show ?case by (simp add: comp_def)
qed simp

lemma get_num_keys:
  "hex_keys m \<Longrightarrow> 0 \<le> a \<Longrightarrow> jm_get (map (\<lambda>(s, v). (num s, g s v)) m) a = map_option (g (hex_of a)) (jm_get m (hex_of a))"
proof (induction m)
  case (Cons e m)
  obtain s v where e: "e = (s, v)" by fastforce
  from Cons.prems e have "hex_addr s" by simp
  then have "num s = a \<longleftrightarrow> s = hex_of a" using Cons.prems by (auto simp: hex_addr_def)
  with Cons e show ?case by auto
qed simp

lemma get_num_keys_neg: "hex_keys m \<Longrightarrow> a < 0 \<Longrightarrow> jm_get (map (\<lambda>(s, v). (num s, g s v)) m) a = None"
  by (induction m) (auto simp: hex_addr_def)

lemma tokens_fold:
  assumes "distinct (map fst acc @ map (sub_token \<circ> snd) subs)"
  shows "foldl (\<lambda>(toks, i) (_, sub).
        (jm_set toks (sub_token sub) \<lparr>tokenIndex = i, noteNonce = (case sub_lastIndex sub of Some n \<Rightarrow> n + 1 | None \<Rightarrow> 0)\<rparr>, i + 1))
       (acc, n) subs =
     (acc @ map (\<lambda>(i, _, sub). (sub_token sub, \<lparr>tokenIndex = i, noteNonce = nonce_of sub\<rparr>)) (enumerate n subs), n + length subs)"
  using assms
proof (induction subs arbitrary: acc n)
  case (Cons e subs)
  obtain s sub where e: "e = (s, sub)" by fastforce
  let ?x = "(sub_token sub, \<lparr>tokenIndex = n, noteNonce = nonce_of sub\<rparr>)"
  from Cons.prems e have "\<not> jm_has acc (sub_token sub)" by (auto simp: jm_has_image)
  then have "jm_set acc (sub_token sub) \<lparr>tokenIndex = n, noteNonce = nonce_of sub\<rparr> = acc @ [?x]" by (rule jm_set_fresh)
  moreover have "distinct (map fst (acc @ [?x]) @ map (sub_token \<circ> snd) subs)" using Cons.prems e by (auto simp: comp_def)
  note Cons.IH [OF this, of "n + 1"]
  ultimately show ?case using e by (simp add: nonce_of_def)
qed simp

lemma build_tokens_eq:
  assumes "jm_wf subs" "hex_keys subs" "\<forall>e \<in> set subs. sub_token (snd e) = num (fst e)"
  shows "build_tokens subs =
    map (\<lambda>(i, _, sub). (sub_token sub, \<lparr>tokenIndex = i, noteNonce = nonce_of sub\<rparr>)) (enumerate 0 subs)"
proof -
  have "map (sub_token \<circ> snd) subs = map (num \<circ> fst) subs" using assms(3) by simp
  then have "distinct (map fst ([] :: (int \<times> TokenChannel) list) @ map (sub_token \<circ> snd) subs)"
    using num_keys_distinct [OF assms(1,2)] by (simp only: list.map append_Nil)
  from tokens_fold [OF this, of 0] show ?thesis by (simp add: build_tokens_def)
qed

lemma build_tokens_nonce:
  assumes "jm_wf subs" "hex_keys subs" "\<forall>e \<in> set subs. sub_token (snd e) = num (fst e)" "0 \<le> t"
  shows "map_option noteNonce (jm_get (build_tokens subs) t) = map_option nonce_of (jm_get subs (hex_of t))"
    and "map (tokenIndex \<circ> snd) (build_tokens subs) = [0..<length (build_tokens subs)]"
    and "jm_wf (build_tokens subs)"
proof -
  have "map_option noteNonce (jm_get (map (\<lambda>(i, _, sub). (sub_token sub, \<lparr>tokenIndex = i, noteNonce = nonce_of sub\<rparr>)) (enumerate n subs)) t)
      = map_option nonce_of (jm_get subs (hex_of t))" for n
    using assms(2,3)
  proof (induction subs arbitrary: n)
    case (Cons e subs)
    obtain s sub where e: "e = (s, sub)" by fastforce
    with Cons.prems have "hex_addr s" "sub_token sub = num s" by auto
    then have "sub_token sub = t \<longleftrightarrow> s = hex_of t" using assms(4) by (auto simp: hex_addr_def)
    with Cons e show ?case by auto
  qed simp
  then show "map_option noteNonce (jm_get (build_tokens subs) t) = map_option nonce_of (jm_get subs (hex_of t))"
    by (simp add: build_tokens_eq [OF assms(1-3)])
  show "map (tokenIndex \<circ> snd) (build_tokens subs) = [0..<length (build_tokens subs)]"
    by (simp add: build_tokens_eq [OF assms(1-3)] split_def comp_def enumerate_eq_zip)
  have "map fst (build_tokens subs) = map (sub_token \<circ> snd) subs"
  proof -
    have "map fst (map (\<lambda>(i, _, sub). (sub_token sub, \<lparr>tokenIndex = i, noteNonce = nonce_of sub\<rparr>)) (enumerate 0 subs))
        = map (sub_token \<circ> snd) (map snd (enumerate 0 subs))" by (simp add: split_def comp_def del: map_snd_enumerate)
    then show ?thesis by (simp only: build_tokens_eq [OF assms(1-3)] map_snd_enumerate)
  qed
  also have "\<dots> = map (num \<circ> fst) subs" using assms(3) by simp
  finally have "map fst (build_tokens subs) = map (num \<circ> fst) subs" .
  then show "jm_wf (build_tokens subs)" using num_keys_distinct [OF assms(1,2)] by (simp add: jm_wf_def)
qed

lemma build_created:
  assumes "jm_wf m" "hex_keys m"
  shows "foldR (\<lambda>channels (s, info). bindR (parse_int s) (\<lambda>r. Inr (jm_set channels r (g s info)))) [] m
     = Inr (map (\<lambda>(s, info). (num s, g s info)) m)"
proof -
  have "foldR (\<lambda>channels (s, info). bindR (parse_int s) (\<lambda>r. Inr (jm_set channels r (g s info)))) acc m
     = Inr (acc @ map (\<lambda>(s, info). (num s, g s info)) m)" if "distinct (map fst acc @ map (num \<circ> fst) m)" for acc
    using that assms(2)
  proof (induction m arbitrary: acc)
    case (Cons e m)
    obtain s info where e: "e = (s, info)" by fastforce
    from Cons.prems e have "\<not> jm_has acc (num s)" "parse_int s = Inr (num s)"
      by (auto simp: jm_has_image hex_addr_def parse_num simp del: BigInt.simps)
    with Cons.IH [of "acc @ [(num s, g s info)]"] Cons.prems e show ?case by (simp add: jm_set_fresh del: BigInt.simps)
  qed simp
  from this [of "[]"] show ?thesis using num_keys_distinct [OF assms] by simp
qed

lemma build_precomputed:
  assumes "hex_keys m"
  shows "\<exists>m'. foldR (\<lambda>channels (s, info). bindR (parse_int s) (\<lambda>addr.
       Inr (if \<not> jm_has channels addr then jm_set channels addr (g info) else channels))) m0 m = Inr m' \<and>
     (\<forall>a \<ge> 0. jm_get m' a = (case jm_get m0 a of Some c \<Rightarrow> Some c | None \<Rightarrow> map_option g (jm_get m (hex_of a)))) \<and>
     (\<forall>a < 0. jm_get m' a = jm_get m0 a) \<and> (jm_wf m0 \<longrightarrow> jm_wf m')"
  using assms
proof (induction m arbitrary: m0)
  case (Cons e m)
  obtain s info where e: "e = (s, info)" by fastforce
  let ?m1 = "if \<not> jm_has m0 (num s) then jm_set m0 (num s) (g info) else m0"
  from Cons.prems e have hx: "hex_addr s" by simp
  then have p: "parse_int s = Inr (num s)" "\<And>a. 0 \<le> a \<Longrightarrow> num s = a \<longleftrightarrow> s = hex_of a" "0 \<le> num s"
    by (auto simp: hex_addr_def parse_num simp del: BigInt.simps)
  obtain m' where m': "foldR (\<lambda>channels (s, info). bindR (parse_int s) (\<lambda>addr.
       Inr (if \<not> jm_has channels addr then jm_set channels addr (g info) else channels))) ?m1 m = Inr m'"
    "\<And>a. 0 \<le> a \<Longrightarrow> jm_get m' a = (case jm_get ?m1 a of Some c \<Rightarrow> Some c | None \<Rightarrow> map_option g (jm_get m (hex_of a)))"
    "\<And>a. a < 0 \<Longrightarrow> jm_get m' a = jm_get ?m1 a" "jm_wf ?m1 \<longrightarrow> jm_wf m'"
    using Cons.IH [of ?m1] Cons.prems by auto
  have "jm_get m' a = (case jm_get m0 a of Some c \<Rightarrow> Some c | None \<Rightarrow> map_option g (jm_get (e # m) (hex_of a)))" if "0 \<le> a" for a
    using m'(2) [OF that] p(2) [OF that] e by (auto simp: jm_has_def split: option.splits)
  moreover have "jm_get m' a = jm_get m0 a" if "a < 0" for a using m'(3) [OF that] p(3) that by auto
  moreover have "jm_wf m0 \<longrightarrow> jm_wf m'" using m'(4) by auto
  moreover have "foldR (\<lambda>channels (s, info). bindR (parse_int s) (\<lambda>addr.
       Inr (if \<not> jm_has channels addr then jm_set channels addr (g info) else channels))) m0 (e # m) = Inr m'"
    using m'(1) p(1) e by (simp del: BigInt.simps)
  ultimately show ?case by blast
qed (auto split: option.splits)

text \<open>What the reports say of the channel to \<open>a\<close>.\<close>

definition channel_reported ::
  "ApiOutgoingChannel list \<Rightarrow> ApiOutgoingSubchannelInfo list \<Rightarrow> int \<Rightarrow> Channel option \<Rightarrow> bool"
where
  "channel_reported chs subs a x \<longleftrightarrow>
     (case created_at chs (hex_of a) of
        Some info \<Rightarrow>
          (case x of None \<Rightarrow> False
           | Some c \<Rightarrow> publicKey c = BNBigint (ch_publicKey info) \<and> key c = Some (ch_channelKey info) \<and>
               (\<forall>t \<ge> 0. map_option noteNonce (jm_get (tokens c) t) = nonce_at subs (hex_of a) (hex_of t)) \<and>
               map (tokenIndex \<circ> snd) (tokens c) = [0..<length (tokens c)])
      | None \<Rightarrow> x = map_option (\<lambda>info. new_Channel (BNBigint (ch_publicKey info)) None []) (precomputed_at chs (hex_of a)))"

lemma created_at_hex:
  "list_all (\<lambda>ch. hex_addr (aoc_recipient_addr ch)) chs \<Longrightarrow> created_at chs r \<noteq> None \<Longrightarrow> hex_addr r"
  "list_all (\<lambda>ch. hex_addr (aoc_recipient_addr ch)) chs \<Longrightarrow> precomputed_at chs r \<noteq> None \<Longrightarrow> hex_addr r"
  by (auto simp: created_at_def precomputed_at_def list_all_iff map_of_eq_None_iff)

lemma hex_keys_get: "(\<And>k. jm_get m k \<noteq> None \<Longrightarrow> hex_addr k) \<Longrightarrow> hex_keys m"
  unfolding list_all_iff jm_get_None_keys by auto

lemma tokens_reported:
  assumes "merged chs subs acc" "list_all (\<lambda>sc. hex_addr (aos_token sc)) subs" "0 \<le> t"
  shows "map_option noteNonce (jm_get (build_tokens (tokenMap_of acc r)) t) = nonce_at subs r (hex_of t)"
    and "map (tokenIndex \<circ> snd) (build_tokens (tokenMap_of acc r)) = [0..<length (build_tokens (tokenMap_of acc r))]"
    and "jm_wf (build_tokens (tokenMap_of acc r))"
proof -
  have get: "jm_get (tokenMap_of acc r) t = (if sub_reported subs r t
      then Some \<lparr>sub_token = num t, sub_lastIndex = last_index_at subs r t\<rparr> else None)" for t
    using assms(1) by (simp add: merged_def)
  have wf: "jm_wf (tokenMap_of acc r)" using assms(1) by (simp add: merged_def)
  have hex: "hex_keys (tokenMap_of acc r)"
    using assms(2) by (intro hex_keys_get) (auto simp: get sub_reported_def list_ex_iff list_all_iff split: if_splits)
  have tok: "\<forall>e \<in> set (tokenMap_of acc r). sub_token (snd e) = num (fst e)"
  proof
    fix e assume "e \<in> set (tokenMap_of acc r)"
    then have "jm_get (tokenMap_of acc r) (fst e) = Some (snd e)" using wf by (metis jm_wf_entry prod.collapse)
    then show "sub_token (snd e) = num (fst e)" by (simp add: get split: if_splits) (metis SubInfo.simps(1))
  qed
  show "map_option noteNonce (jm_get (build_tokens (tokenMap_of acc r)) t) = nonce_at subs r (hex_of t)"
    using build_tokens_nonce(1) [OF wf hex tok assms(3)] by (simp add: get nonce_at_def nonce_of_def)
  show "map (tokenIndex \<circ> snd) (build_tokens (tokenMap_of acc r)) = [0..<length (build_tokens (tokenMap_of acc r))]"
    "jm_wf (build_tokens (tokenMap_of acc r))"
    using build_tokens_nonce(2,3) [OF wf hex tok assms(3)] .
qed

lemma buildChannelMap_merged:
  assumes m: "merged chs subs acc"
    and ok: "list_all (\<lambda>ch. hex_addr (aoc_recipient_addr ch)) chs" "list_all (\<lambda>sc. hex_addr (aos_token sc)) subs"
  shows "\<exists>m. buildChannelMap acc = Inr m \<and> jm_wf m \<and> (\<forall>a \<ge> 0. channel_reported chs subs a (jm_get m a)) \<and>
     (\<forall>a < 0. jm_get m a = None)"
proof -
  define g :: "string \<Rightarrow> OutgoingInfo \<Rightarrow> Channel" where "g s info = new_Channel (BNBigint (ch_publicKey info)) (Some (ch_channelKey info)) (build_tokens (tokenMap_of acc s))" for s info
  let ?c = "createdChannelMap acc" and ?n = "nonCreatedChannelMap acc"
  have hc: "hex_keys ?c" using m created_at_hex(1) [OF ok(1)] by (intro hex_keys_get) (simp add: merged_def)
  have hn: "hex_keys ?n"
    using m created_at_hex(2) [OF ok(1)] by (intro hex_keys_get) (simp add: merged_def split: if_splits)
  have wf: "jm_wf ?c" using m by (simp add: merged_def)
  let ?m1 = "map (\<lambda>(s, info). (num s, g s info)) ?c"
  have toks: "(case jm_get (subchannelsByRecipient acc) s of None \<Rightarrow> [] | Some subs \<Rightarrow> build_tokens subs) = build_tokens (tokenMap_of acc s)" for s
    by (cases "jm_get (subchannelsByRecipient acc) s") (simp_all add: tokenMap_of_def build_tokens_def)
  have first: "foldR (\<lambda>channels (recipientHex, info).
              let toks = (case jm_get (subchannelsByRecipient acc) recipientHex of None \<Rightarrow> [] | Some subs \<Rightarrow> build_tokens subs)
              in bindR (parse_int recipientHex) (\<lambda>r.
                 Inr (jm_set channels r (new_Channel (BNBigint (ch_publicKey info)) (Some (ch_channelKey info)) toks))))
             [] ?c = Inr ?m1"
    using build_created [OF wf hc, of g] by (simp add: toks g_def Let_def del: BigInt.simps)
  have wf1: "jm_wf ?m1" using num_keys_distinct [OF wf hc] by (simp add: jm_wf_def split_def comp_def)
  obtain m' where m': "foldR (\<lambda>channels (s, info). bindR (parse_int s) (\<lambda>addr.
       Inr (if \<not> jm_has channels addr then jm_set channels addr (new_Channel (BNBigint (ch_publicKey info)) None []) else channels))) ?m1 ?n = Inr m'"
    "\<And>a. 0 \<le> a \<Longrightarrow> jm_get m' a = (case jm_get ?m1 a of Some c \<Rightarrow> Some c
       | None \<Rightarrow> map_option (\<lambda>info. new_Channel (BNBigint (ch_publicKey info)) None []) (jm_get ?n (hex_of a)))"
    "\<And>a. a < 0 \<Longrightarrow> jm_get m' a = jm_get ?m1 a" "jm_wf m'"
    using build_precomputed [OF hn, of "\<lambda>info. new_Channel (BNBigint (ch_publicKey info)) None []" ?m1] wf1 by blast
  have run: "buildChannelMap acc = Inr m'" unfolding buildChannelMap_def first bindR_Inr m'(1) ..
  have "channel_reported chs subs a (jm_get m' a)" if a: "0 \<le> a" for a
  proof (cases "created_at chs (hex_of a)")
    case None
    then show ?thesis using m m'(2) [OF a] get_num_keys [OF hc a, of g] by (simp add: channel_reported_def merged_def)
  next
    case (Some info)
    then have "jm_get m' a = Some (g (hex_of a) info)"
      using m m'(2) [OF a] get_num_keys [OF hc a, of g] by (simp add: merged_def)
    moreover have "jm_wf (build_tokens (tokenMap_of acc (hex_of a)))" using tokens_reported(3) [OF m ok(2) a] .
    ultimately show ?thesis using Some tokens_reported(1) [OF m ok(2)] tokens_reported(2) [OF m ok(2) a] by (simp add: channel_reported_def g_def new_Channel_def)
  qed
  with run m'(3,4) get_num_keys_neg [OF hc, of _ g] show ?thesis by auto
qed

section \<open>A whole run\<close>

definition requested :: "RecipientsFilter \<Rightarrow> int \<Rightarrow> bool" where
  "requested rf a = (case rf of Recipients rs \<Rightarrow> a \<in> set rs | _ \<Rightarrow> True)"

lemma keep_requested:
  "jm_get (foldl (\<lambda>m k. if k \<notin> set rs then jm_delete m k else m) m ks) a =
     (if a \<in> set ks \<and> a \<notin> set rs then None else jm_get m a)"
  by (induction ks arbitrary: m) auto

lemma outgoing_states:
  assumes svc: "answers ''/v1/sync/outgoing_state'' svc ps"
    and hex: "toHex (lib C) (NBig (contractAddress C)) True = Inr ca" "toHex (lib C) (NBig vk) True = Inr vh"
    and ok: "list_all outgoing_ok ps" and rf: "rf \<noteq> TotalOnly"
  shows "\<exists>s. s 0 = \<lparr>or_apiCursor = cur, or_blockRef = None, or_acc = no_outgoing, or_log = []\<rparr> \<and>
     (\<forall>i < length ps. outgoingPage C svc a vk rf params (s i) = Inr (s (Suc i), isApiCursorComplete (aor_cursor (ps ! i))) \<and>
        or_blockRef (s (Suc i)) = Some (aor_block_ref (ps ! i)) \<and>
        total_n_channels (or_apiCursor (s (Suc i))) = total_n_channels (aor_cursor (ps ! i))) \<and>
     (\<forall>i \<le> length ps. merged (concat (map aor_channels (take i ps))) (concat (map aor_subchannels (take i ps))) (or_acc (s i)))"
proof -
  define s where "s = rec_nat \<lparr>or_apiCursor = cur, or_blockRef = None, or_acc = no_outgoing, or_log = []\<rparr>
     (\<lambda>_ st. case outgoingPage C svc a vk rf params st of Inr r \<Rightarrow> fst r | Inl _ \<Rightarrow> st)"
  have s_simps: "s 0 = \<lparr>or_apiCursor = cur, or_blockRef = None, or_acc = no_outgoing, or_log = []\<rparr>"
    "s (Suc i) = (case outgoingPage C svc a vk rf params (s i) of Inr r \<Rightarrow> fst r | Inl _ \<Rightarrow> s i)" for i
    unfolding s_def by simp_all
  let ?inv = "\<lambda>i. length (or_log (s i)) = i \<and>
     merged (concat (map aor_channels (take i ps))) (concat (map aor_subchannels (take i ps))) (or_acc (s i))"
  have step: "outgoingPage C svc a vk rf params (s i) = Inr (s (Suc i), isApiCursorComplete (aor_cursor (ps ! i))) \<and>
      or_blockRef (s (Suc i)) = Some (aor_block_ref (ps ! i)) \<and>
      total_n_channels (or_apiCursor (s (Suc i))) = total_n_channels (aor_cursor (ps ! i)) \<and> ?inv (Suc i)"
    if i: "i < length ps" and I: "?inv i" for i
  proof -
    obtain body where b: "syncBody C a vk (or_apiCursor (s i)) (or_blockRef (s i)) (cp_blockIdentifier params) None
        (case rf of Recipients rs \<Rightarrow> Some (map hex_of rs) | _ \<Rightarrow> None) = Inr body"
      using syncBody_ok [OF hex] by blast
    have tk: "take (Suc i) ps = take i ps @ [ps ! i]" using i by (simp add: take_Suc_conv_app_nth)
    obtain o2 where o2: "accumulateOutgoingResponse (or_acc (s i)) (ps ! i) = Inr o2"
      "merged (concat (map aor_channels (take (Suc i) ps))) (concat (map aor_subchannels (take (Suc i) ps))) o2"
      using merged_page [of "ps ! i"] ok i I tk by (force simp: list_all_length)
    let ?c = "isApiCursorComplete (aor_cursor (ps ! i))"
    let ?st = "\<lparr>or_apiCursor = (if ?c then aor_cursor (ps ! i) else pruneCompleteCursor (aor_cursor (ps ! i))),
      or_blockRef = Some (aor_block_ref (ps ! i)), or_acc = o2, or_log = or_log (s i) @ [body]\<rparr>"
    have post: "indexer_post ''/v1/sync/outgoing_state'' (svc (length (or_log (s i))) body) = Inr (ps ! i)"
      using svc i I by (simp add: answers_def)
    have page: "outgoingPage C svc a vk rf params (s i) = Inr (?st, ?c)"
      using b post rf o2(1) by (simp add: outgoingPage_def Let_def)
    then have "s (Suc i) = ?st" by (simp add: s_simps)
    moreover have "total_n_channels (pruneCompleteCursor c) = total_n_channels c" for c
      by (simp add: pruneCompleteCursor_def split: option.split)
    ultimately show ?thesis using page I o2(2) by simp
  qed
  have "i \<le> length ps \<longrightarrow> ?inv i" for i
  proof (induction i)
    case 0
    then show ?case by (simp add: s_simps merged_start)
  next
    case (Suc i)
    then show ?case using step [of i] by auto
  qed
  then show ?thesis using step by (intro exI [of _ s]) (auto simp: s_simps)
qed

text \<open>
  C34: Let the service answer the requests of a run with the pages \<open>ps\<close>, of which only the last reports
  completion and whose numbers parse. Then \<open>discoverChannels\<close> returns the last page's block and channel
  count and a map in which, for every requested recipient, the last report of a channel that exists on
  chain decides (a precomputed one never replaces it, in whichever order they arrive), each of its
  tokens carries the nonce after the last note index any page reported, and token indices are the
  positions 0, 1, 2 and so on; a recipient with precomputed reports only has its public key and no
  channel key; nobody else is in the map.
\<close>

theorem indexer_channels_complete:
  assumes "answers ''/v1/sync/outgoing_state'' svc ps" "ps \<noteq> []"
    and "\<forall>p \<in> set (butlast ps). \<not> isApiCursorComplete (aor_cursor p)" "isApiCursorComplete (aor_cursor (last ps))"
    and "toHex (lib C) (NBig (contractAddress C)) True = Inr ca" "toHex (lib C) (NBig vk) True = Inr vh"
    and "list_all outgoing_ok ps" "rf \<noteq> TotalOnly"
    and "outgoingCursor rf (Option.bind (cp_cursor params) cc_channels) = Inr cur"
  shows "\<exists>m. indexer_discoverChannels C svc a vk rf params =
       Inr \<lparr>cr_timestamp = aor_block_ref (last ps), cr_channels = Some m, cr_total = total_n_channels (aor_cursor (last ps))\<rparr> \<and>
     (\<forall>r \<ge> 0. if requested rf r
        then channel_reported (concat (map aor_channels ps)) (concat (map aor_subchannels ps)) r (jm_get m r)
        else jm_get m r = None) \<and>
     (\<forall>r < 0. jm_get m r = None)"
proof -
  obtain s where s: "s 0 = \<lparr>or_apiCursor = cur, or_blockRef = None, or_acc = no_outgoing, or_log = []\<rparr>"
     "\<And>i. i < length ps \<Longrightarrow> outgoingPage C svc a vk rf params (s i) = Inr (s (Suc i), isApiCursorComplete (aor_cursor (ps ! i))) \<and>
        or_blockRef (s (Suc i)) = Some (aor_block_ref (ps ! i)) \<and>
        total_n_channels (or_apiCursor (s (Suc i))) = total_n_channels (aor_cursor (ps ! i))"
     "merged (concat (map aor_channels ps)) (concat (map aor_subchannels ps)) (or_acc (s (length ps)))"
    using outgoing_states [OF assms(1,5,6,7,8), of cur a params] by (metis order_refl take_all)
  obtain n where n: "length ps = Suc n" using assms(2) by (cases ps) auto
  have lst: "last ps = ps ! n" using assms(2) n by (simp add: last_conv_nth)
  have notlast: "ps ! i \<in> set (butlast ps)" if "i < n" for i
    using that n by (metis Suc_less_eq diff_Suc_1 length_butlast less_SucI nth_butlast nth_mem)
  have "outgoingLoop C svc a vk rf params (s 0) = Some (Inr (s (Suc n)))"
  proof (rule outgoing.loop_steps [of n])
    show "outgoingPage C svc a vk rf params (s i) = Inr (s (Suc i), False)" if "i < n" for i
      using s(2) [of i] that n assms(3) notlast [OF that] by simp
    show "outgoingPage C svc a vk rf params (s n) = Inr (s (Suc n), True)"
      using s(2) [of n] n assms(4) lst by simp
  qed
  then have run: "indexer_discoverChannels C svc a vk rf params = channelsResult rf (s (length ps))"
    using s(1) n assms(9) by (simp add: indexer_discoverChannels_def)
  have fin: "or_blockRef (s (length ps)) = Some (aor_block_ref (last ps))"
    "total_n_channels (or_apiCursor (s (length ps))) = total_n_channels (aor_cursor (last ps))"
    using s(2) [of n] n lst by auto
  obtain m where m: "buildChannelMap (or_acc (s (length ps))) = Inr m"
    "\<And>a. 0 \<le> a \<Longrightarrow> channel_reported (concat (map aor_channels ps)) (concat (map aor_subchannels ps)) a (jm_get m a)"
    "\<And>a. a < 0 \<Longrightarrow> jm_get m a = None"
    using buildChannelMap_merged [OF s(3)] assms(7) by (fastforce simp: list_all_iff outgoing_ok_def)
  show ?thesis
  proof (cases rf)
    case (Recipients rs)
    let ?m = "foldl (\<lambda>m k. if k \<notin> set rs then jm_delete m k else m) m (jm_keys m)"
    have get: "jm_get ?m r = (if r \<in> set rs then jm_get m r else None)" for r
      using jm_get_None_keys [of m r] by (simp add: keep_requested del: list.set_map)
    show ?thesis
      using run fin m Recipients by (intro exI [of _ ?m]) (simp add: channelsResult_def requested_def get)
  qed (use run fin m assms(8) in \<open>auto simp: channelsResult_def requested_def\<close>)
qed

definition sample_out_cursor :: "bool \<Rightarrow> ApiDiscoveryCursor" where
  "sample_out_cursor fin = \<lparr>channel_discovery_complete = Some fin, total_n_channels = (if fin then Some 1 else None),
     last_channel_index = None, adc_channels = Some []\<rparr>"

definition sample_out_pages :: "ApiOutgoingSyncResponse list" where
  "sample_out_pages =
     [\<lparr>aor_block_ref = BlockNumber 5,
       aor_channels = [\<lparr>aoc_recipient_addr = ''0xb'', aoc_recipient_public_key = ''0x15'', aoc_channel_key = ''0x16'', precomputed = Some True\<rparr>,
                       \<lparr>aoc_recipient_addr = ''0xc'', aoc_recipient_public_key = ''0x17'', aoc_channel_key = ''0x18'', precomputed = Some True\<rparr>],
       aor_subchannels = [], aor_cursor = sample_out_cursor False\<rparr>,
      \<lparr>aor_block_ref = BlockNumber 5,
       aor_channels = [\<lparr>aoc_recipient_addr = ''0xb'', aoc_recipient_public_key = ''0x15'', aoc_channel_key = ''0x19'', precomputed = None\<rparr>],
       aor_subchannels = [\<lparr>aos_recipient_addr = ''0xb'', aos_token = ''0x5'', aos_last_note_index = Some 2\<rparr>,
                          \<lparr>aos_recipient_addr = ''0xb'', aos_token = ''0x5'', aos_last_note_index = None\<rparr>],
       aor_cursor = sample_out_cursor True\<rparr>]"

definition no_channel_params :: ChannelsParams where
  "no_channel_params = \<lparr>cp_cursor = None, cp_blockIdentifier = None\<rparr>"

theorem indexer_channels_complete_witness:
  "\<exists>m c. indexer_discoverChannels sample_provider_cfg (serve sample_out_pages) 1 (BNBigint 7) AllRecipients no_channel_params =
      Inr \<lparr>cr_timestamp = BlockNumber 5, cr_channels = Some m, cr_total = Some 1\<rparr> \<and>
     jm_get m 11 = Some c \<and> key c = Some 25 \<and> map_option noteNonce (jm_get (tokens c) 5) = Some 3"
proof -
  have p: "\<forall>p \<in> set (butlast sample_out_pages). \<not> isApiCursorComplete (aor_cursor p)"
    "isApiCursorComplete (aor_cursor (last sample_out_pages))" "list_all outgoing_ok sample_out_pages" "sample_out_pages \<noteq> []"
    by code_simp+
  have h: "toHex (lib sample_provider_cfg) (NBig (contractAddress sample_provider_cfg)) True = Inr (hex_of 99)"
    "toHex (lib sample_provider_cfg) (NBig (BNBigint 7)) True = Inr (hex_of 7)"
    by (simp_all add: sample_provider_cfg_def)
  have c: "outgoingCursor AllRecipients (Option.bind (cp_cursor no_channel_params) cc_channels) = Inr (channelMapToApiCursor None False)"
    by (simp add: outgoingCursor_def no_channel_params_def)
  have r: "created_at (concat (map aor_channels sample_out_pages)) (hex_of 11) = Some \<lparr>ch_publicKey = 21, ch_channelKey = 25\<rparr>"
    "nonce_at (concat (map aor_subchannels sample_out_pages)) (hex_of 11) (hex_of 5) = Some 3"
    "aor_block_ref (last sample_out_pages) = BlockNumber 5" "total_n_channels (aor_cursor (last sample_out_pages)) = Some 1"
    by code_simp+
  obtain m where m: "indexer_discoverChannels sample_provider_cfg (serve sample_out_pages) 1 (BNBigint 7) AllRecipients no_channel_params =
      Inr \<lparr>cr_timestamp = BlockNumber 5, cr_channels = Some m, cr_total = Some 1\<rparr>"
    "\<forall>r \<ge> 0. channel_reported (concat (map aor_channels sample_out_pages)) (concat (map aor_subchannels sample_out_pages)) r (jm_get m r)"
    using indexer_channels_complete [OF answers_serve p(4,1,2) h p(3) _ c, of 1] r(3,4) by (auto simp: requested_def)
  then have "channel_reported (concat (map aor_channels sample_out_pages)) (concat (map aor_subchannels sample_out_pages)) 11 (jm_get m 11)"
    by simp
  then obtain c where k: "jm_get m 11 = Some c" "key c = Some 25"
    and t: "\<forall>t \<ge> 0. map_option noteNonce (jm_get (tokens c) t) = nonce_at (concat (map aor_subchannels sample_out_pages)) (hex_of 11) (hex_of t)"
    using r(1) unfolding channel_reported_def by (auto split: option.splits)
  have "map_option noteNonce (jm_get (tokens c) 5) = Some 3" using t r(2) by simp
  with m(1) k show ?thesis by blast
qed

section \<open>Totals and reorgs\<close>

text \<open>
  A total-only query never reports a count the service has not confirmed: it returns the count of an
  answer that reports completion, and fails when that answer carries none.
\<close>

theorem indexer_total_confirmed:
  assumes "indexer_discoverChannels C svc a vk TotalOnly params = Inr r"
  shows "\<exists>k body resp. indexer_post ''/v1/sync/outgoing_state'' (svc k body) = Inr resp \<and>
     isApiCursorComplete (aor_cursor resp) \<and> total_n_channels (aor_cursor resp) \<noteq> None \<and>
     cr_total r = total_n_channels (aor_cursor resp) \<and> cr_timestamp r = aor_block_ref resp \<and> cr_channels r = None"
proof -
  obtain st where st: "outgoingLoop C svc a vk TotalOnly params
      \<lparr>or_apiCursor = no_cursor\<lparr>channel_discovery_complete := Some False\<rparr>, or_blockRef = None, or_acc = no_outgoing, or_log = []\<rparr> = Some (Inr st)"
    "channelsResult TotalOnly st = Inr r"
    using assms by (auto simp: indexer_discoverChannels_def outgoingCursor_def bindR_eq_Inr split: option.splits)
  from outgoing.loop_last [OF st(1)] obtain s where "outgoingPage C svc a vk TotalOnly params s = Inr (st, True)" by blast
  then obtain body resp where "indexer_post ''/v1/sync/outgoing_state'' (svc (length (or_log s)) body) = Inr resp"
    "isApiCursorComplete (aor_cursor resp)" "or_apiCursor st = aor_cursor resp" "or_blockRef st = Some (aor_block_ref resp)"
    by (auto simp: outgoingPage_def bindR_eq_Inr Let_def)
  moreover from this(3,4) st(2) have "total_n_channels (aor_cursor resp) \<noteq> None"
    "cr_total r = total_n_channels (aor_cursor resp)" "cr_timestamp r = aor_block_ref resp" "cr_channels r = None"
    by (auto simp: channelsResult_def bindR_eq_Inr of_option_eq_Inr)
  ultimately show ?thesis by blast
qed

theorem indexer_total_confirmed_witness:
  "\<exists>r (resp :: ApiOutgoingSyncResponse). indexer_discoverChannels sample_provider_cfg (serve sample_out_pages) 1 (BNBigint 7) TotalOnly no_channel_params = Inr r \<and>
     isApiCursorComplete (aor_cursor resp) \<and> cr_total r = total_n_channels (aor_cursor resp)"
proof -
  have "case indexer_discoverChannels sample_provider_cfg (serve sample_out_pages) 1 (BNBigint 7) TotalOnly no_channel_params of
      Inr r \<Rightarrow> True | Inl _ \<Rightarrow> False" by code_simp
  then obtain r where "indexer_discoverChannels sample_provider_cfg (serve sample_out_pages) 1 (BNBigint 7) TotalOnly no_channel_params = Inr r"
    by (auto split: sum.splits)
  with indexer_total_confirmed [OF this] show ?thesis by blast
qed

end
