(* ===== verification/History.thy ===== *)
theory History
  imports Indexer_Discovery
begin

text \<open>
  \<open>sdk/src/internal/history.ts\<close> and \<open>fetchHistory\<close> of the indexer provider: the cursor built from the
  sync cursors, its wire form, and the conversion of an answer. The theorems: a history cursor survives
  the trip to the wire and back, and the cursor that is built lists each subchannel exactly once with
  the last note index as its start.
\<close>

section \<open>Types\<close>

text \<open>A channel kind is a string; the casts of the source check nothing.\<close>

type_synonym ChannelKind = string

record HistorySubchannel =
  hs_channelKey :: int
  hs_token :: int
  hs_channelKind :: ChannelKind
  hs_counterparty :: int
  hs_nextIndex :: "int option"

record HistoryCursor =
  hc_subchannels :: "HistorySubchannel list"
  hc_beginBlockNumber :: "int option"
  hc_historyComplete :: bool

record HistoryNote =
  hn_channelKind :: ChannelKind
  hn_token :: int
  hn_noteIndex :: nat
  hn_noteId :: int
  hn_counterparty :: int
  hn_amount :: int
  hn_salt :: int

record HistoryDeposit =
  hd_fromAddress :: int
  hd_token :: int
  hd_amount :: int

record HistoryWithdrawal =
  hw_toAddress :: int
  hw_token :: int
  hw_amount :: int

record HistoryOpenNoteDeposit =
  ho_depositor :: int
  ho_token :: int
  ho_noteId :: int
  ho_amount :: int

record HistoryTransaction =
  ht_blockNumber :: int
  ht_transactionHash :: int
  ht_notes :: "HistoryNote list"
  ht_deposits :: "HistoryDeposit list"
  ht_withdrawals :: "HistoryWithdrawal list"
  ht_openNoteDeposits :: "HistoryOpenNoteDeposit list"
  ht_registeredPubkey :: "int option"

record HistoryPage =
  hp_blockRef :: BlockId
  hp_transactions :: "HistoryTransaction list"
  hp_cursor :: HistoryCursor

record ApiHistorySubchannel =
  ahs_channel_key :: string
  ahs_token :: string
  ahs_channel_kind :: string
  ahs_counterparty :: string
  ahs_next_index :: "int option"

record ApiHistoryCursor =
  ahc_subchannels :: "ApiHistorySubchannel list"
  ahc_begin_block_number :: "int option"
  ahc_history_complete :: bool

record ApiHistoryNote =
  ahn_channel_kind :: string
  ahn_token :: string
  ahn_note_index :: nat
  ahn_note_id :: string
  ahn_counterparty :: string
  ahn_amount :: string
  ahn_salt :: string

record ApiHistoryDeposit =
  ahd_user_address :: string
  ahd_token :: string
  ahd_amount :: string

record ApiHistoryWithdrawal =
  ahw_to_address :: string
  ahw_token :: string
  ahw_amount :: string

record ApiHistoryOpenNoteDeposit =
  aho_depositor :: string
  aho_token :: string
  aho_note_id :: string
  aho_amount :: string

record ApiHistoryTransaction =
  aht_block_number :: int
  aht_transaction_hash :: string
  aht_notes :: "ApiHistoryNote list"
  aht_deposits :: "ApiHistoryDeposit list"
  aht_withdrawals :: "ApiHistoryWithdrawal list"
  aht_open_note_deposits :: "ApiHistoryOpenNoteDeposit list"
  aht_registered_pubkey :: "string option"

record ApiHistoryResponse =
  ahr_block_ref :: BlockId
  ahr_transactions :: "ApiHistoryTransaction list"
  ahr_cursor :: ApiHistoryCursor

section \<open>Conversions\<close>

definition start_index :: "int \<Rightarrow> int option" where
  "start_index i = (if i > 0 then Some (i - 1) else None)"

definition incomingHistory :: "int \<Rightarrow> NotesCursor \<Rightarrow> HistorySubchannel list" where
  "incomingHistory userAddress notesCursor =
     concat (map (\<lambda>(sender, icc). map (\<lambda>(token, noteIndex).
        \<lparr>hs_channelKey = ic_channelKey icc, hs_token = token,
         hs_channelKind = (if sender = userAddress then ''self_channel'' else ''incoming''),
         hs_counterparty = sender, hs_nextIndex = start_index noteIndex\<rparr>) (ic_noteIndexes icc))
       (incomingChannels notesCursor))"

definition outgoingHistory :: "int \<Rightarrow> ChannelCursor \<Rightarrow> HistorySubchannel list" where
  "outgoingHistory userAddress channelCursor =
     concat (map (\<lambda>(recipient, channel).
        case key channel of
          None \<Rightarrow> []
        | Some k \<Rightarrow>
            if k = 0 \<or> recipient = userAddress then []
            else map (\<lambda>(token, tc).
              \<lparr>hs_channelKey = k, hs_token = token, hs_channelKind = ''outgoing'',
               hs_counterparty = recipient, hs_nextIndex = start_index (int (noteNonce tc))\<rparr>) (tokens channel))
       (optl (cc_channels channelCursor)))"

definition buildHistoryCursor :: "int \<Rightarrow> NotesCursor \<Rightarrow> ChannelCursor \<Rightarrow> HistoryCursor" where
  "buildHistoryCursor userAddress notesCursor channelCursor =
     \<lparr>hc_subchannels = incomingHistory userAddress notesCursor @ outgoingHistory userAddress channelCursor,
      hc_beginBlockNumber = None, hc_historyComplete = False\<rparr>"

definition historyCursorToApi :: "HistoryCursor \<Rightarrow> ApiHistoryCursor" where
  "historyCursorToApi cursor =
     \<lparr>ahc_subchannels = map (\<lambda>sc.
        \<lparr>ahs_channel_key = hex_of (hs_channelKey sc), ahs_token = hex_of (hs_token sc),
         ahs_channel_kind = hs_channelKind sc, ahs_counterparty = hex_of (hs_counterparty sc),
         ahs_next_index = hs_nextIndex sc\<rparr>) (hc_subchannels cursor),
      ahc_begin_block_number = hc_beginBlockNumber cursor,
      ahc_history_complete = hc_historyComplete cursor\<rparr>"

definition historySubchannel :: "ApiHistorySubchannel \<Rightarrow> HistorySubchannel result" where
  "historySubchannel sc =
     bindR (parse_int (ahs_channel_key sc)) (\<lambda>k.
     bindR (parse_int (ahs_token sc)) (\<lambda>t.
     bindR (parse_int (ahs_counterparty sc)) (\<lambda>c.
     Inr \<lparr>hs_channelKey = k, hs_token = t, hs_channelKind = ahs_channel_kind sc, hs_counterparty = c,
          hs_nextIndex = ahs_next_index sc\<rparr>)))"

definition historyNote :: "ApiHistoryNote \<Rightarrow> HistoryNote result" where
  "historyNote n =
     bindR (parse_int (ahn_token n)) (\<lambda>t.
     bindR (parse_int (ahn_note_id n)) (\<lambda>i.
     bindR (parse_int (ahn_counterparty n)) (\<lambda>c.
     bindR (parse_int (ahn_amount n)) (\<lambda>a.
     bindR (parse_int (ahn_salt n)) (\<lambda>s.
     Inr \<lparr>hn_channelKind = ahn_channel_kind n, hn_token = t, hn_noteIndex = ahn_note_index n, hn_noteId = i,
          hn_counterparty = c, hn_amount = a, hn_salt = s\<rparr>)))))"

definition historyDeposit :: "ApiHistoryDeposit \<Rightarrow> HistoryDeposit result" where
  "historyDeposit d =
     bindR (parse_int (ahd_user_address d)) (\<lambda>u.
     bindR (parse_int (ahd_token d)) (\<lambda>t.
     bindR (parse_int (ahd_amount d)) (\<lambda>a.
     Inr \<lparr>hd_fromAddress = u, hd_token = t, hd_amount = a\<rparr>)))"

definition historyWithdrawal :: "ApiHistoryWithdrawal \<Rightarrow> HistoryWithdrawal result" where
  "historyWithdrawal w =
     bindR (parse_int (ahw_to_address w)) (\<lambda>u.
     bindR (parse_int (ahw_token w)) (\<lambda>t.
     bindR (parse_int (ahw_amount w)) (\<lambda>a.
     Inr \<lparr>hw_toAddress = u, hw_token = t, hw_amount = a\<rparr>)))"

definition historyOpenNoteDeposit :: "ApiHistoryOpenNoteDeposit \<Rightarrow> HistoryOpenNoteDeposit result" where
  "historyOpenNoteDeposit d =
     bindR (parse_int (aho_depositor d)) (\<lambda>u.
     bindR (parse_int (aho_token d)) (\<lambda>t.
     bindR (parse_int (aho_note_id d)) (\<lambda>i.
     bindR (parse_int (aho_amount d)) (\<lambda>a.
     Inr \<lparr>ho_depositor = u, ho_token = t, ho_noteId = i, ho_amount = a\<rparr>))))"

text \<open>An empty \<open>registered_pubkey\<close> is falsy: no key is added.\<close>

definition historyTransaction :: "ApiHistoryTransaction \<Rightarrow> HistoryTransaction result" where
  "historyTransaction tx =
     bindR (parse_int (aht_transaction_hash tx)) (\<lambda>h.
     bindR (mapR historyNote (aht_notes tx)) (\<lambda>ns.
     bindR (mapR historyDeposit (aht_deposits tx)) (\<lambda>ds.
     bindR (mapR historyWithdrawal (aht_withdrawals tx)) (\<lambda>ws.
     bindR (mapR historyOpenNoteDeposit (aht_open_note_deposits tx)) (\<lambda>os.
     bindR (case aht_registered_pubkey tx of
              None \<Rightarrow> Inr None
            | Some s \<Rightarrow> if s = [] then Inr None else bindR (parse_int s) (\<lambda>k. Inr (Some k))) (\<lambda>pk.
     Inr \<lparr>ht_blockNumber = aht_block_number tx, ht_transactionHash = h, ht_notes = ns, ht_deposits = ds,
          ht_withdrawals = ws, ht_openNoteDeposits = os, ht_registeredPubkey = pk\<rparr>))))))"

definition historyCursorFromApi :: "ApiHistoryCursor \<Rightarrow> HistoryCursor result" where
  "historyCursorFromApi c =
     bindR (mapR historySubchannel (ahc_subchannels c)) (\<lambda>scs.
     Inr \<lparr>hc_subchannels = scs, hc_beginBlockNumber = ahc_begin_block_number c,
          hc_historyComplete = ahc_history_complete c\<rparr>)"

definition apiResponseToHistoryPage :: "ApiHistoryResponse \<Rightarrow> HistoryPage result" where
  "apiResponseToHistoryPage resp =
     bindR (mapR historyTransaction (ahr_transactions resp)) (\<lambda>txs.
     bindR (historyCursorFromApi (ahr_cursor resp)) (\<lambda>c.
     Inr \<lparr>hp_blockRef = ahr_block_ref resp, hp_transactions = txs, hp_cursor = c\<rparr>))"

section \<open>fetchHistory\<close>

record HistoryBody =
  hb_contract_address :: string
  hb_user_address :: string
  max_transactions :: nat
  hb_cursor :: ApiHistoryCursor
  hb_block_ref :: "BlockId option"
  hb_last_known_block :: "string option"

record HistoryOptions =
  maxTransactions :: "nat option"
  lastKnownBlock :: "string option"
  ho_blockIdentifier :: "BlockId option"
  historyCursor :: "HistoryCursor option"

definition fetchHistory ::
  "ProviderCfg \<Rightarrow> (HistoryBody \<Rightarrow> ApiHistoryResponse http_response) \<Rightarrow> int \<Rightarrow> NotesCursor \<Rightarrow> ChannelCursor
     \<Rightarrow> HistoryOptions \<Rightarrow> HistoryPage result"
where
  "fetchHistory C svc userAddress notesCursor channelCursor options =
     (let cursor = (case historyCursor options of Some c \<Rightarrow> c
            | None \<Rightarrow> buildHistoryCursor userAddress notesCursor channelCursor)
      in bindR (toHex (lib C) (NBig (contractAddress C)) True) (\<lambda>contract.
         bindR (indexer_post ''/v1/history'' (svc
           \<lparr>hb_contract_address = contract, hb_user_address = hex_of userAddress,
            max_transactions = (case maxTransactions options of Some n \<Rightarrow> n | None \<Rightarrow> 50),
            hb_cursor = historyCursorToApi cursor,
            hb_block_ref = ho_blockIdentifier options,
            hb_last_known_block = (if ho_blockIdentifier options \<noteq> None then None
              else (case lastKnownBlock options of Some s \<Rightarrow> if s = [] then None else Some s | None \<Rightarrow> None))\<rparr>))
         apiResponseToHistoryPage))"

section \<open>The wire\<close>

definition wire_history :: "HistoryCursor \<Rightarrow> bool" where
  "wire_history c = list_all (\<lambda>sc. 0 \<le> hs_channelKey sc \<and> 0 \<le> hs_token sc \<and> 0 \<le> hs_counterparty sc) (hc_subchannels c)"

definition sample_history_cursor :: HistoryCursor where
  "sample_history_cursor = \<lparr>hc_subchannels = [\<lparr>hs_channelKey = 255, hs_token = 5, hs_channelKind = ''incoming'',
     hs_counterparty = 11, hs_nextIndex = Some 3\<rparr>], hc_beginBlockNumber = Some 8, hc_historyComplete = False\<rparr>"

text \<open>
  A history cursor sent to the service and returned unchanged reads back as the same cursor, so a
  page's cursor can be passed to the next call.
\<close>

theorem history_cursor_round_trip:
  assumes "wire_history c"
  shows "historyCursorFromApi (historyCursorToApi c) = Inr c"
proof -
  have "mapR historySubchannel (map (\<lambda>sc.
        \<lparr>ahs_channel_key = hex_of (hs_channelKey sc), ahs_token = hex_of (hs_token sc),
         ahs_channel_kind = hs_channelKind sc, ahs_counterparty = hex_of (hs_counterparty sc),
         ahs_next_index = hs_nextIndex sc\<rparr>) scs) = Inr scs"
    if "list_all (\<lambda>sc. 0 \<le> hs_channelKey sc \<and> 0 \<le> hs_token sc \<and> 0 \<le> hs_counterparty sc) scs" for scs :: "HistorySubchannel list"
    using that by (induction scs) (simp_all add: historySubchannel_def)
  with assms show ?thesis by (simp add: historyCursorFromApi_def historyCursorToApi_def wire_history_def)
qed

theorem history_cursor_round_trip_witness:
  "historyCursorFromApi (historyCursorToApi sample_history_cursor) = Inr sample_history_cursor"
proof -
  have "wire_history sample_history_cursor" by code_simp
  from history_cursor_round_trip [OF this] show ?thesis .
qed

section \<open>The built cursor\<close>

text \<open>A subchannel is identified by whether it comes in or goes out, its other end and its token.\<close>

definition history_id :: "HistorySubchannel \<Rightarrow> bool \<times> int \<times> int" where
  "history_id sc = (hs_channelKind sc = ''outgoing'', hs_counterparty sc, hs_token sc)"

definition channels_wf :: "ChannelCursor \<Rightarrow> bool" where
  "channels_wf cc = (jm_wf (optl (cc_channels cc)) \<and> list_all channel_wf (jm_values (optl (cc_channels cc))))"

lemma distinct_concat_keyed:
  assumes "jm_wf m" "\<And>k v. (k, v) \<in> set m \<Longrightarrow> distinct (map g (f k v)) \<and> (\<forall>x \<in> set (f k v). h (g x) = k)"
  shows "distinct (map g (concat (map (\<lambda>(k, v). f k v) m)))"
  using assms
proof (induction m)
  case (Cons e m)
  obtain k v where e: "e = (k, v)" by fastforce
  have wf: "jm_wf m" and fresh: "k \<notin> fst ` set m" using Cons.prems(1) e by (auto simp: jm_wf_def)
  have "distinct (map g (concat (map (\<lambda>(k, v). f k v) m)))" using Cons.IH [OF wf] Cons.prems(2) by auto
  moreover have "set (map g (f k v)) \<inter> set (map g (concat (map (\<lambda>(k, v). f k v) m))) = {}"
  proof (rule ccontr)
    assume "set (map g (f k v)) \<inter> set (map g (concat (map (\<lambda>(k, v). f k v) m))) \<noteq> {}"
    then obtain x y k' v' where x: "x \<in> set (f k v)" "(k', v') \<in> set m" "y \<in> set (f k' v')" "g x = g y" by auto
    have "h (g x) = k" using Cons.prems(2) [of k v] x(1) e by simp
    moreover have "h (g y) = k'" using Cons.prems(2) [of k' v'] x(2,3) by simp
    ultimately show False using fresh x(2,4) by (force simp: image_iff)
  qed
  moreover have "distinct (map g (f k v))" using Cons.prems(2) e by auto
  ultimately show ?case using e by simp
qed simp

lemma distinct_tagged: "distinct (map fst m) \<Longrightarrow> distinct (map (\<lambda>e. (b, r, fst e)) m)"
  by (induction m) (auto simp: image_iff)

lemma incoming_distinct: "cursor_wf nc \<Longrightarrow> distinct (map history_id (incomingHistory u nc))"
  unfolding incomingHistory_def
proof (rule distinct_concat_keyed [where h = "fst \<circ> snd"])
  fix sender icc
  assume "cursor_wf nc" "(sender, icc) \<in> set (incomingChannels nc)"
  then have "distinct (map fst (ic_noteIndexes icc))" by (force simp: cursor_wf_def jm_wf_def)
  then show "distinct (map history_id (map (\<lambda>(token, noteIndex).
        \<lparr>hs_channelKey = ic_channelKey icc, hs_token = token,
         hs_channelKind = (if sender = u then ''self_channel'' else ''incoming''),
         hs_counterparty = sender, hs_nextIndex = start_index noteIndex\<rparr>) (ic_noteIndexes icc))) \<and>
      (\<forall>x \<in> set (map (\<lambda>(token, noteIndex).
        \<lparr>hs_channelKey = ic_channelKey icc, hs_token = token,
         hs_channelKind = (if sender = u then ''self_channel'' else ''incoming''),
         hs_counterparty = sender, hs_nextIndex = start_index noteIndex\<rparr>) (ic_noteIndexes icc)). (fst \<circ> snd) (history_id x) = sender)"
    using distinct_tagged [of "ic_noteIndexes icc" False sender] by (auto simp: history_id_def split_def comp_def)
qed (simp add: cursor_wf_def)

lemma outgoing_distinct: "channels_wf cc \<Longrightarrow> distinct (map history_id (outgoingHistory u cc))"
  unfolding outgoingHistory_def
proof (rule distinct_concat_keyed [where h = "fst \<circ> snd"])
  fix recipient channel
  assume "channels_wf cc" "(recipient, channel) \<in> set (optl (cc_channels cc))"
  then have "distinct (map fst (tokens channel))" by (force simp: channels_wf_def channel_wf_def jm_wf_def list_all_iff)
  then show "distinct (map history_id (case key channel of None \<Rightarrow> []
        | Some k \<Rightarrow> if k = 0 \<or> recipient = u then []
            else map (\<lambda>(token, tc). \<lparr>hs_channelKey = k, hs_token = token, hs_channelKind = ''outgoing'',
               hs_counterparty = recipient, hs_nextIndex = start_index (int (noteNonce tc))\<rparr>) (tokens channel))) \<and>
      (\<forall>x \<in> set (case key channel of None \<Rightarrow> []
        | Some k \<Rightarrow> if k = 0 \<or> recipient = u then []
            else map (\<lambda>(token, tc). \<lparr>hs_channelKey = k, hs_token = token, hs_channelKind = ''outgoing'',
               hs_counterparty = recipient, hs_nextIndex = start_index (int (noteNonce tc))\<rparr>) (tokens channel)).
        (fst \<circ> snd) (history_id x) = recipient)"
    using distinct_tagged [of "tokens channel" True recipient]
    by (auto simp: history_id_def split_def comp_def split: option.splits)
qed (simp add: channels_wf_def)

lemma kinds:
  "sc \<in> set (incomingHistory u nc) \<Longrightarrow> hs_channelKind sc = (if hs_counterparty sc = u then ''self_channel'' else ''incoming'')"
  "sc \<in> set (outgoingHistory u cc) \<Longrightarrow> hs_channelKind sc = ''outgoing'' \<and> hs_counterparty sc \<noteq> u"
  by (auto simp: incomingHistory_def outgoingHistory_def split: option.splits if_splits)

definition sample_channel_cursor :: ChannelCursor where
  "sample_channel_cursor = \<lparr>cc_channels = Some
     [(1, \<lparr>publicKey = BNBigint 5, key = Some 6, tokens = [(5, \<lparr>tokenIndex = 0, noteNonce = 2\<rparr>)]\<rparr>),
      (11, \<lparr>publicKey = BNBigint 5, key = Some 7, tokens = [(5, \<lparr>tokenIndex = 0, noteNonce = 4\<rparr>)]\<rparr>)], cc_total = None\<rparr>"

text \<open>
  The history cursor built from well-formed sync cursors lists no subchannel twice: incoming entries
  and outgoing ones are told apart by their kind, the channel to oneself appears only as \<open>self_channel\<close>
  on the incoming side, and an outgoing entry starts at the last note its channel has created.
\<close>

theorem history_cursor_exact:
  assumes "cursor_wf nc" "channels_wf cc"
  shows "distinct (map history_id (hc_subchannels (buildHistoryCursor u nc cc))) \<and>
     (\<forall>sc \<in> set (hc_subchannels (buildHistoryCursor u nc cc)).
        hs_counterparty sc = u \<longleftrightarrow> hs_channelKind sc = ''self_channel'') \<and>
     (\<forall>r t c tc. (r, c) \<in> set (optl (cc_channels cc)) \<and> (t, tc) \<in> set (tokens c) \<and> key_truthy (key c) \<and> r \<noteq> u \<longrightarrow>
        (\<exists>sc \<in> set (hc_subchannels (buildHistoryCursor u nc cc)). history_id sc = (True, r, t) \<and>
           Some (hs_channelKey sc) = key c \<and>
           hs_nextIndex sc = (if noteNonce tc = 0 then None else Some (int (noteNonce tc) - 1))))"
proof (intro conjI allI impI)
  have "fst (history_id sc) = False" if "sc \<in> set (incomingHistory u nc)" for sc
    using kinds(1) [OF that] by (auto simp: history_id_def)
  moreover have "fst (history_id sc) = True" if "sc \<in> set (outgoingHistory u cc)" for sc
    using kinds(2) [OF that] by (auto simp: history_id_def)
  ultimately have "set (map history_id (incomingHistory u nc)) \<inter> set (map history_id (outgoingHistory u cc)) = {}"
    by (auto, metis)
  then show "distinct (map history_id (hc_subchannels (buildHistoryCursor u nc cc)))"
    using incoming_distinct [OF assms(1)] outgoing_distinct [OF assms(2)] by (simp add: buildHistoryCursor_def)
  show "\<forall>sc \<in> set (hc_subchannels (buildHistoryCursor u nc cc)). hs_counterparty sc = u \<longleftrightarrow> hs_channelKind sc = ''self_channel''"
    using kinds by (fastforce simp: buildHistoryCursor_def)
  fix r t c tc
  assume a: "(r, c) \<in> set (optl (cc_channels cc)) \<and> (t, tc) \<in> set (tokens c) \<and> key_truthy (key c) \<and> r \<noteq> u"
  then obtain k where k: "key c = Some k" "k \<noteq> 0" by (auto simp: key_truthy_def split: option.splits)
  let ?sc = "\<lparr>hs_channelKey = k, hs_token = t, hs_channelKind = ''outgoing'', hs_counterparty = r,
    hs_nextIndex = start_index (int (noteNonce tc))\<rparr>"
  have "?sc \<in> set ((\<lambda>(recipient, channel). case key channel of None \<Rightarrow> []
        | Some k \<Rightarrow> if k = 0 \<or> recipient = u then []
            else map (\<lambda>(token, tc). \<lparr>hs_channelKey = k, hs_token = token, hs_channelKind = ''outgoing'',
               hs_counterparty = recipient, hs_nextIndex = start_index (int (noteNonce tc))\<rparr>) (tokens channel)) (r, c))"
    using a k by auto
  with a have "?sc \<in> set (outgoingHistory u cc)" unfolding outgoingHistory_def set_concat set_map by blast
  then show "\<exists>sc \<in> set (hc_subchannels (buildHistoryCursor u nc cc)). history_id sc = (True, r, t) \<and>
      Some (hs_channelKey sc) = key c \<and>
      hs_nextIndex sc = (if noteNonce tc = 0 then None else Some (int (noteNonce tc) - 1))"
    using k by (intro bexI [of _ ?sc]) (auto simp: buildHistoryCursor_def history_id_def start_index_def)
qed

theorem history_cursor_exact_witness:
  "\<exists>sc \<in> set (hc_subchannels (buildHistoryCursor 1 sample_wire_cursor sample_channel_cursor)).
     history_id sc = (True, 11, 5) \<and> hs_nextIndex sc = Some 3"
proof -
  have "cursor_wf sample_wire_cursor" "channels_wf sample_channel_cursor" by code_simp+
  from history_cursor_exact [OF this, of 1]
  have h: "(r, c) \<in> set (optl (cc_channels sample_channel_cursor)) \<and> (t, tc) \<in> set (tokens c) \<and> key_truthy (key c) \<and> r \<noteq> 1 \<longrightarrow>
        (\<exists>sc \<in> set (hc_subchannels (buildHistoryCursor 1 sample_wire_cursor sample_channel_cursor)). history_id sc = (True, r, t) \<and>
           Some (hs_channelKey sc) = key c \<and>
           hs_nextIndex sc = (if noteNonce tc = 0 then None else Some (int (noteNonce tc) - 1)))" for r t c tc
    by blast
  show ?thesis
    using h [of 11 "\<lparr>publicKey = BNBigint 5, key = Some 7, tokens = [(5, \<lparr>tokenIndex = 0, noteNonce = 4\<rparr>)]\<rparr>" 5 "\<lparr>tokenIndex = 0, noteNonce = 4\<rparr>"]
    by (auto simp: sample_channel_cursor_def key_truthy_def)
qed

end
