(* ===== verification/Screened_Address.thy ===== *)
theory Screened_Address
  imports Encryptions
begin

text \<open>
  Which address a prove request has to be screened for: \<open>proof-interceptor/src/pool-transaction.ts\<close>,
  \<open>shadow-account.ts\<close> and \<open>screened-address.ts\<close>, with \<open>sdk/src/internal/shadow-account-address.ts\<close>.
  The calldata decoders of the package \<open>starknet\<close> are the fields of \<open>abi_decoder\<close>; a decoder that throws
  is \<open>None\<close>. The theorems: the spelling of a felt cannot hide the pool from the check, and an address
  is screened for exactly when the pool's policy asks for it.
\<close>

section \<open>pool-transaction.ts\<close>

definition lower_char :: "char \<Rightarrow> char" where
  "lower_char c = (let n = (of_char c :: nat) in if 65 \<le> n \<and> n \<le> 90 then char_of (n + 32) else c)"

definition toLowerCase :: "string \<Rightarrow> string" where
  "toLowerCase s = map lower_char s"

definition normalizeFelt :: "string \<Rightarrow> string" where
  "normalizeFelt s =
     (let lower = toLowerCase s;
          hex = (if take 2 lower = ''0x'' then drop 2 lower else lower);
          stripped = dropWhile (\<lambda>c. c = CHR ''0'') hex
      in ''0x'' @ (if stripped = [] then ''0'' else stripped))"

definition parseFelt :: "string \<Rightarrow> int option" where
  "parseFelt s = (case BigInt (BNString s) of Inl _ \<Rightarrow> None | Inr v \<Rightarrow> Some v)"

text \<open>
  \<open>parseInt(s, 16)\<close>: white space, a sign and a \<open>0x\<close> prefix are skipped, then the longest run of
  hexadecimal digits is read; \<open>None\<close> is \<open>NaN\<close>.
\<close>

definition is_hex_digit :: "char \<Rightarrow> bool" where
  "is_hex_digit c = (case digit_val c of Some d \<Rightarrow> d < 16 | None \<Rightarrow> False)"

definition parseInt16 :: "string \<Rightarrow> int option" where
  "parseInt16 s =
     (let t = dropWhile is_ws s;
          negative = (take 1 t = ''-'');
          u = (if take 1 t \<in> {''-'', ''+''} then drop 1 t else t);
          v = (if take 2 u \<in> {''0x'', ''0X''} then drop 2 u else u);
          digits = takeWhile is_hex_digit v
      in map_option (\<lambda>n. if negative then - int n else int n) (parse_nat 16 digits))"

record ProveTxnV3 =
  calldata :: "string list"

text \<open>A decoded client action: the variants the interceptor looks at, with the fields it reads.\<close>

record InvokeData =
  inv_contract_address :: int
  compute_additional_data :: "int list"
  invoke_additional_data :: "int list"

datatype pool_action =
    ActDeposit
  | ActCreateOpenNote
  | ActInvokeExternal int
  | ActComputeAndInvoke InvokeData
  | ActOther string

record abi_decoder =
  decodeActions :: "string list \<Rightarrow> pool_action list option"
  decodeComputeArguments :: "string list \<Rightarrow> (int \<times> int) option"
  decodeInvokeOpenNotes :: "string list \<Rightarrow> nat option"    \<comment> \<open>the number of open notes\<close>
  calculateContractAddressFromHash :: "int \<Rightarrow> int \<Rightarrow> int list \<Rightarrow> int \<Rightarrow> string"
  abi_lib :: starknet_lib

text \<open>Indices 0 and 1 exist when the length test has passed; \<open>isSinglePoolCall\<close> tests it first.\<close>

definition isSinglePoolCall :: "ProveTxnV3 \<Rightarrow> string \<Rightarrow> bool" where
  "isSinglePoolCall transaction poolAddress =
     (let cd = calldata transaction in
      if length cd < 7 \<or> normalizeFelt (cd ! 0) \<noteq> ''0x1'' then False
      else normalizeFelt (cd ! 1) = normalizeFelt poolAddress)"

record PoolCallActions =
  userAddress :: string
  viewingKey :: "int option"
  pc_actions :: "pool_action list"

definition decodeClientActions :: "abi_decoder \<Rightarrow> ProveTxnV3 \<Rightarrow> string \<Rightarrow> PoolCallActions option" where
  "decodeClientActions A transaction poolAddress =
     (if \<not> isSinglePoolCall transaction poolAddress then None
      else let cd = calldata transaction in
        case parseInt16 (cd ! 3) of
          None \<Rightarrow> None
        | Some innerCalldataLength \<Rightarrow>
            if innerCalldataLength < 3 then None
            else let innerCalldata = take (nat innerCalldataLength) (drop 4 cd) in
              map_option (\<lambda>actions. \<lparr>userAddress = normalizeFelt (innerCalldata ! 0),
                  viewingKey = parseFelt (innerCalldata ! 1), pc_actions = actions\<rparr>)
                (decodeActions A (drop 2 innerCalldata)))"

section \<open>Shadow accounts\<close>

definition PRIMER_CLASS_HASH :: int where
  "PRIMER_CLASS_HASH = 0x00123e6bc1c14ae9934e933d3f64916a6116dd6b036a922b2b1f0815e0d1d300"

text \<open>All arguments are bigints, on which \<open>hash\<close> is the plain Poseidon hash.\<close>

definition shadowAccountPartialCommitment :: "starknet_lib \<Rightarrow> int \<Rightarrow> int \<Rightarrow> int \<Rightarrow> int \<Rightarrow> int" where
  "shadowAccountPartialCommitment L user vk anonymizerAddress dappName =
     poseidonHashMany L [compute_identity_key L user vk anonymizerAddress, dappName]"

definition shadowAccountCommitment :: "starknet_lib \<Rightarrow> int \<Rightarrow> int \<Rightarrow> int" where
  "shadowAccountCommitment L partialCommitment nonce = poseidonHashMany L [partialCommitment, nonce]"

lemma hash_bigints: "hash L (map BNBigint xs) = Inr (poseidonHashMany L xs)"
proof -
  have "mapR (hash_arg L) (map BNBigint xs) = Inr xs" by (induction xs) (simp_all add: hash_arg_def)
  then show ?thesis by (simp add: hash_def)
qed

definition shadowAccountAddress :: "abi_decoder \<Rightarrow> int \<Rightarrow> int \<Rightarrow> string result" where
  "shadowAccountAddress A commitment anonymizerAddress =
     toHex (abi_lib A) (NBig (BNString
       (calculateContractAddressFromHash A commitment PRIMER_CLASS_HASH [] anonymizerAddress))) True"

record ShadowAccountInteraction =
  dappName :: int
  sa_nonce :: int

definition COMPUTE_ARGUMENT_COUNT :: nat where
  "COMPUTE_ARGUMENT_COUNT = 2"

definition shadowAccountInteraction :: "abi_decoder \<Rightarrow> InvokeData \<Rightarrow> ShadowAccountInteraction option" where
  "shadowAccountInteraction A input =
     (if length (compute_additional_data input) \<noteq> COMPUTE_ARGUMENT_COUNT then None
      else map_option (\<lambda>(d, n). \<lparr>dappName = d, sa_nonce = n\<rparr>)
             (decodeComputeArguments A (map hex_of (compute_additional_data input))))"

fun getShadowAccountInteraction :: "abi_decoder \<Rightarrow> pool_action list \<Rightarrow> string \<Rightarrow> ShadowAccountInteraction option" where
  "getShadowAccountInteraction A [] anonymizerAddress = None"
| "getShadowAccountInteraction A (ActComputeAndInvoke input # as) anonymizerAddress =
     (if normalizeFelt (hex_of (inv_contract_address input)) \<noteq> normalizeFelt anonymizerAddress
      then getShadowAccountInteraction A as anonymizerAddress
      else shadowAccountInteraction A input)"
| "getShadowAccountInteraction A (_ # as) anonymizerAddress = getShadowAccountInteraction A as anonymizerAddress"

definition getShadowAccountAddress :: "abi_decoder \<Rightarrow> PoolCallActions \<Rightarrow> string \<Rightarrow> string option result" where
  "getShadowAccountAddress A poolCall anonymizerAddress =
     (case viewingKey poolCall of
        None \<Rightarrow> Inr None
      | Some vk \<Rightarrow>
          (case getShadowAccountInteraction A (pc_actions poolCall) anonymizerAddress of
             None \<Rightarrow> Inr None
           | Some interaction \<Rightarrow>
               (case parseFelt (userAddress poolCall) of
                  None \<Rightarrow> Inr None
                | Some user \<Rightarrow>
                    bindR (BigInt (BNString (normalizeFelt anonymizerAddress))) (\<lambda>anonymizer.
                    let commitment = shadowAccountCommitment (abi_lib A)
                          (shadowAccountPartialCommitment (abi_lib A) user vk anonymizer (dappName interaction))
                          (sa_nonce interaction)
                    in bindR (shadowAccountAddress A commitment anonymizer) (\<lambda>a. Inr (Some a))))))"

definition createsOpenNotes :: "abi_decoder \<Rightarrow> InvokeData \<Rightarrow> bool" where
  "createsOpenNotes A input =
     (case decodeInvokeOpenNotes A (map hex_of (invoke_additional_data input)) of
        None \<Rightarrow> False | Some n \<Rightarrow> n > 0)"

section \<open>screened-address.ts\<close>

datatype OpenNoteScreeningPolicy = Required | Exempt | Delegated

datatype ScreenedAddress = NoAddress | OneAddress string | Conflict | UnreadablePolicy | UndeterminedShadowAccount

text \<open>\<open>dep_input\<close> is the data of a \<open>ComputeAndInvoke\<close>, \<open>None\<close> for a plain \<open>InvokeExternal\<close>.\<close>

record OpenNoteDepositor =
  dep_address :: string
  dep_input :: "InvokeData option"

fun firstInvoke :: "pool_action list \<Rightarrow> OpenNoteDepositor option" where
  "firstInvoke [] = None"
| "firstInvoke (ActInvokeExternal addr # as) = Some \<lparr>dep_address = normalizeFelt (hex_of addr), dep_input = None\<rparr>"
| "firstInvoke (ActComputeAndInvoke input # as) =
     Some \<lparr>dep_address = normalizeFelt (hex_of (inv_contract_address input)), dep_input = Some input\<rparr>"
| "firstInvoke (_ # as) = firstInvoke as"

definition getOpenNoteDepositor :: "pool_action list \<Rightarrow> OpenNoteDepositor option" where
  "getOpenNoteDepositor actions = (if ActCreateOpenNote \<notin> set actions then None else firstInvoke actions)"

definition getDelegatedAddress :: "abi_decoder \<Rightarrow> PoolCallActions \<Rightarrow> OpenNoteDepositor \<Rightarrow> ScreenedAddress result" where
  "getDelegatedAddress A poolCall depositor =
     (case dep_input depositor of
        None \<Rightarrow> Inr NoAddress
      | Some input \<Rightarrow>
          if \<not> createsOpenNotes A input then Inr NoAddress
          else bindR (getShadowAccountAddress A poolCall (dep_address depositor)) (\<lambda>shadowAccount.
               Inr (case shadowAccount of None \<Rightarrow> UndeterminedShadowAccount | Some a \<Rightarrow> OneAddress a)))"

text \<open>
  The end of \<open>getScreenedAddress\<close>: the addresses collected, without duplicates.
\<close>

definition pickAddress :: "string list \<Rightarrow> ScreenedAddress" where
  "pickAddress addresses = (case remdups addresses of [] \<Rightarrow> NoAddress | [a] \<Rightarrow> OneAddress a | _ \<Rightarrow> Conflict)"

text \<open>\<open>policy\<close> is what the policy reader answers, \<open>None\<close> when the policy cannot be read.\<close>

definition getScreenedAddress ::
  "abi_decoder \<Rightarrow> ProveTxnV3 \<Rightarrow> string \<Rightarrow> (string \<Rightarrow> OpenNoteScreeningPolicy option) \<Rightarrow> ScreenedAddress result"
where
  "getScreenedAddress A transaction poolAddr policy =
     (case decodeClientActions A transaction poolAddr of
        None \<Rightarrow> Inr NoAddress
      | Some poolCall \<Rightarrow>
          (let deposit = (if ActDeposit \<in> set (pc_actions poolCall) then [userAddress poolCall] else []) in
           case getOpenNoteDepositor (pc_actions poolCall) of
             None \<Rightarrow> Inr (pickAddress deposit)
           | Some depositor \<Rightarrow>
               (case policy (dep_address depositor) of
                  Some Exempt \<Rightarrow> Inr (pickAddress deposit)
                | Some Required \<Rightarrow> Inr (pickAddress (deposit @ [dep_address depositor]))
                | Some Delegated \<Rightarrow>
                    bindR (getDelegatedAddress A poolCall depositor) (\<lambda>delegated.
                    Inr (case delegated of
                           OneAddress a \<Rightarrow> pickAddress (deposit @ [a])
                         | NoAddress \<Rightarrow> pickAddress deposit
                         | d \<Rightarrow> d))
                | None \<Rightarrow> Inr UnreadablePolicy)))"

section \<open>Spellings of a felt\<close>

text \<open>A \<open>0x\<close> or \<open>0X\<close> followed by hexadecimal digits of either case.\<close>

definition hex_spelling :: "string \<Rightarrow> bool" where
  "hex_spelling s = (take 2 s \<in> {''0x'', ''0X''} \<and> drop 2 s \<noteq> [] \<and> list_all is_hex_digit (drop 2 s))"

definition felt_of :: "string \<Rightarrow> nat" where
  "felt_of s = the (parse_digits 16 0 (drop 2 s))"

lemma digit_val_lower: "digit_val (lower_char c) = digit_val c"
proof -
  have c: "of_char (char_of (of_char c + 32 :: nat) :: char) = (of_char c + 32 :: nat)"
    if "65 \<le> (of_char c :: nat)" "(of_char c :: nat) \<le> 90"
    using that by (simp add: of_char_mod_256)
  show ?thesis
    by (cases "65 \<le> (of_char c :: nat) \<and> (of_char c :: nat) \<le> 90")
      (auto simp: digit_val_def lower_char_def Let_def c)
qed

lemma parse_lower: "parse_digits b acc (toLowerCase s) = parse_digits b acc s"
  by (induction s arbitrary: acc) (auto simp: toLowerCase_def digit_val_lower split: option.splits)

lemma parse_strip: "parse_digits b 0 (dropWhile (\<lambda>c. c = CHR ''0'') s) = parse_digits b 0 s" if "0 < b"
  using that by (induction s) (auto simp: digit_val_def Let_def)

lemma parse_hex_some: "list_all is_hex_digit s \<Longrightarrow> \<exists>n. parse_digits 16 acc s = Some n"
  by (induction s arbitrary: acc) (auto simp: is_hex_digit_def split: option.splits)

lemma char_of_of_char_nat: "char_of (of_char c :: nat) = c"
  by simp

lemma digit_char_val: "is_hex_digit c \<Longrightarrow> lower_char c = c \<Longrightarrow> digit_val c = Some d \<Longrightarrow> digit_char d = c"
proof -
  assume h: "is_hex_digit c" and l: "lower_char c = c" and d: "digit_val c = Some d"
  let ?n = "of_char c :: nat"
  have up: "\<not> (65 \<le> ?n \<and> ?n \<le> 90)"
  proof
    assume r: "65 \<le> ?n \<and> ?n \<le> 90"
    then have "c = char_of (?n + 32)" using l by (simp add: lower_char_def Let_def)
    then have "?n = of_char (char_of (?n + 32) :: char)" by simp
    with r show False by (simp add: of_char_mod_256)
  qed
  have "d < 16" using h d by (simp add: is_hex_digit_def)
  with up d have "?n = (if d < 10 then 48 + d else 87 + d)"
    by (auto simp: digit_val_def Let_def split: if_splits)
  then have "digit_char d = char_of ?n" by (simp add: digit_char_def)
  then show ?thesis by simp
qed

lemma digit_char_zero: "digit_char 0 = CHR ''0''"
  by code_simp

text \<open>Lower-case digits without a leading zero are the digits printed for their value.\<close>

lemma to_base_parse:
  assumes "list_all is_hex_digit ds" "toLowerCase ds = ds" "ds \<noteq> []" "hd ds \<noteq> CHR ''0''" "parse_digits 16 0 ds = Some n"
  shows "to_base 16 n = ds \<and> 0 < n"
  using assms
proof (induction ds arbitrary: n rule: rev_induct)
  case (snoc c ds)
  obtain m where m: "parse_digits 16 0 ds = Some m" using parse_hex_some [of ds 0] snoc.prems(1) by auto
  have h: "is_hex_digit c" "lower_char c = c" using snoc.prems by (auto simp: toLowerCase_def)
  then obtain d where d: "digit_val c = Some d" "d < 16" by (auto simp: is_hex_digit_def split: option.splits)
  have n: "n = m * 16 + d" using snoc.prems(5) m d by (simp add: parse_digits_append)
  have dc: "digit_char d = c" using digit_char_val [OF h d(1)] .
  show ?case
  proof (cases "ds = []")
    case True
    then have "m = 0" "c \<noteq> CHR ''0''" using m snoc.prems(4) by auto
    moreover from this have "d \<noteq> 0" using dc digit_char_zero by metis
    ultimately show ?thesis using True n d(2) dc by (subst to_base.simps) simp
  next
    case False
    then have ih: "to_base 16 m = ds" "0 < m"
      using snoc.IH [of m] snoc.prems m by (auto simp: toLowerCase_def)
    then have "\<not> n < 16" "n div 16 = m" "n mod 16 = d" using n d(2) by auto
    then show ?thesis using ih dc n by (subst to_base.simps) simp
  qed
qed simp

lemma lower_X: "lower_char CHR ''X'' = CHR ''x''" "lower_char CHR ''x'' = CHR ''x''" "lower_char CHR ''0'' = CHR ''0''"
  by code_simp+

lemma lower_idem: "toLowerCase (toLowerCase s) = toLowerCase s"
proof -
  have "lower_char (lower_char c) = lower_char c" for c
  proof -
    have "of_char (char_of (of_char c + 32 :: nat) :: char) = (of_char c + 32 :: nat)"
      if "65 \<le> (of_char c :: nat)" "(of_char c :: nat) \<le> 90"
      using that by (simp add: of_char_mod_256)
    then show ?thesis by (auto simp: lower_char_def Let_def)
  qed
  then show ?thesis by (simp add: toLowerCase_def)
qed

lemma hex_digit_lower: "is_hex_digit (lower_char c) = is_hex_digit c"
  by (simp add: is_hex_digit_def digit_val_lower)

lemma normalizeFelt_hex:
  assumes "hex_spelling s"
  shows "normalizeFelt s = hex_of (int (felt_of s))"
proof -
  obtain ds where s: "s = ''0x'' @ ds \<or> s = ''0X'' @ ds" and ds: "ds \<noteq> []" "list_all is_hex_digit ds" "drop 2 s = ds"
    using assms unfolding hex_spelling_def by (metis append_take_drop_id insertE singletonD)
  have l0: "toLowerCase s = ''0x'' @ toLowerCase ds"
    using s by (auto simp: toLowerCase_def lower_X)
  define st where "st = dropWhile (\<lambda>c. c = CHR ''0'') (toLowerCase ds)"
  have norm: "normalizeFelt s = ''0x'' @ (if st = [] then ''0'' else st)"
    by (simp add: normalizeFelt_def l0 st_def Let_def)
  obtain n where n: "parse_digits 16 0 ds = Some n" using parse_hex_some [OF ds(2)] by blast
  have felt: "felt_of s = n" by (simp add: felt_of_def ds(3) n)
  have pst: "parse_digits 16 0 st = Some n" using n by (simp add: st_def parse_strip parse_lower)
  show ?thesis
  proof (cases "st = []")
    case True
    then have "n = 0" using pst by simp
    then show ?thesis using True norm felt by (simp add: hex_of_nonneg to_base.simps digit_char_zero)
  next
    case False
    have sub: "set st \<subseteq> set (toLowerCase ds)" unfolding st_def by (auto dest: set_dropWhileD)
    have "list_all is_hex_digit (toLowerCase ds)" using ds(2) by (simp add: toLowerCase_def list_all_iff hex_digit_lower)
    then have "list_all is_hex_digit st" using sub by (auto simp: list_all_iff)
    moreover have "toLowerCase st = st"
    proof -
      have "lower_char c = c" if "c \<in> set st" for c
        using that sub lower_idem [of ds] by (auto simp: toLowerCase_def)
      then show ?thesis by (simp add: toLowerCase_def map_idI)
    qed
    moreover have "hd st \<noteq> CHR ''0''" using False hd_dropWhile [of "\<lambda>c. c = CHR ''0''" "toLowerCase ds"] unfolding st_def by simp
    ultimately have "to_base 16 n = st" using to_base_parse False pst by blast
    then show ?thesis using False norm felt by (simp add: hex_of_nonneg)
  qed
qed

lemma normalizeFelt_eq:
  "hex_spelling s \<Longrightarrow> hex_spelling t \<Longrightarrow> normalizeFelt s = normalizeFelt t \<longleftrightarrow> felt_of s = felt_of t"
  using hex_of_inj [of "int (felt_of s)" "int (felt_of t)"] by (auto simp: normalizeFelt_hex)


lemma hex_of_one: "hex_of 1 = ''0x1''"
  by code_simp

definition sample_tx :: "string \<Rightarrow> ProveTxnV3" where
  "sample_tx pool = \<lparr>calldata = [''0x01'', pool, ''0x5'', ''0x3'', ''0xAb'', ''0x7'', ''0x9'']\<rparr>"

text \<open>
  The test for a direct pool call depends on the values of the felts only: for hexadecimal spellings
  of either case, with any zero padding, it holds exactly when there are seven felts, the call count is
  one and the target is the pool. No spelling of the pool's address escapes it.
\<close>

theorem pool_call_by_value:
  assumes "hex_spelling (calldata tx ! 0)" "hex_spelling (calldata tx ! 1)" "hex_spelling pool"
  shows "isSinglePoolCall tx pool \<longleftrightarrow>
     7 \<le> length (calldata tx) \<and> felt_of (calldata tx ! 0) = 1 \<and> felt_of (calldata tx ! 1) = felt_of pool"
proof -
  have "normalizeFelt (calldata tx ! 0) = ''0x1'' \<longleftrightarrow> hex_of (int (felt_of (calldata tx ! 0))) = hex_of 1"
    by (simp only: normalizeFelt_hex [OF assms(1)] hex_of_one)
  then have "normalizeFelt (calldata tx ! 0) = ''0x1'' \<longleftrightarrow> felt_of (calldata tx ! 0) = 1"
    using hex_of_inj [of "int (felt_of (calldata tx ! 0))" 1] by auto
  then show ?thesis
    using normalizeFelt_eq [OF assms(2,3)] by (auto simp: isSinglePoolCall_def Let_def)
qed

theorem pool_call_by_value_witness:
  "isSinglePoolCall (sample_tx ''0X00aB'') ''0xAb''"
proof -
  have h: "hex_spelling (calldata (sample_tx ''0X00aB'') ! 0)" "hex_spelling (calldata (sample_tx ''0X00aB'') ! 1)" "hex_spelling ''0xAb''"
    by code_simp+
  have "7 \<le> length (calldata (sample_tx ''0X00aB''))" "felt_of (calldata (sample_tx ''0X00aB'') ! 0) = 1"
    "felt_of (calldata (sample_tx ''0X00aB'') ! 1) = felt_of ''0xAb''"
    by code_simp+
  with pool_call_by_value [OF h] show ?thesis by blast
qed

section \<open>Screening subjects\<close>

lemma pickAddress_cases:
  "pickAddress xs = NoAddress \<longleftrightarrow> set xs = {}"
  "pickAddress xs = OneAddress a \<longleftrightarrow> set xs = {a}"
proof -
  have r: "set (remdups xs) = set xs" "distinct (remdups xs)" by simp_all
  consider "remdups xs = []" | b where "remdups xs = [b]" | b c ds where "remdups xs = b # c # ds"
    by (metis list.exhaust)
  then have "(pickAddress xs = NoAddress \<longleftrightarrow> set xs = {}) \<and> (pickAddress xs = OneAddress a \<longleftrightarrow> set xs = {a})"
  proof cases
    case 1
    then show ?thesis using r(1) by (simp add: pickAddress_def)
  next
    case (2 b)
    then have "set xs = {b}" using r(1) by simp
    then show ?thesis using 2 by (auto simp: pickAddress_def)
  next
    case (3 b c ds)
    have "distinct (b # c # ds)" "set (b # c # ds) = set xs" using r 3 by metis+
    then have "b \<noteq> c" "b \<in> set xs" "c \<in> set xs" by auto
    then have "set xs \<noteq> {a}" "set xs \<noteq> {}" by (metis singletonD, metis empty_iff)
    then show ?thesis using 3 by (simp add: pickAddress_def)
  qed
  then show "pickAddress xs = NoAddress \<longleftrightarrow> set xs = {}" "pickAddress xs = OneAddress a \<longleftrightarrow> set xs = {a}" by simp_all
qed

text \<open>
  The addresses the pool takes an attestation for: the user of a deposit, and for open notes the
  contract that funds them or the shadow account behind it, as the policy says.
\<close>

definition policySubjects ::
  "abi_decoder \<Rightarrow> PoolCallActions \<Rightarrow> (string \<Rightarrow> OpenNoteScreeningPolicy option) \<Rightarrow> string set"
where
  "policySubjects A poolCall policy =
     (case getOpenNoteDepositor (pc_actions poolCall) of
        None \<Rightarrow> {}
      | Some d \<Rightarrow>
          (case policy (dep_address d) of
             Some Required \<Rightarrow> {dep_address d}
           | Some Delegated \<Rightarrow> {a. getDelegatedAddress A poolCall d = Inr (OneAddress a)}
           | _ \<Rightarrow> {}))"

definition depositSubjects :: "PoolCallActions \<Rightarrow> string set" where
  "depositSubjects poolCall = (if ActDeposit \<in> set (pc_actions poolCall) then {userAddress poolCall} else {})"

lemma delegated_kinds:
  "getDelegatedAddress A pc d = Inr r \<Longrightarrow> (\<exists>a. r = OneAddress a) \<or> r = NoAddress \<or> r = UndeterminedShadowAccount"
  by (auto simp: getDelegatedAddress_def bindR_eq_Inr split: option.splits if_splits)

lemma screened_subjects:
  assumes "decodeClientActions A tx pool = Some pc" "getScreenedAddress A tx pool policy = Inr r"
  shows "r = UnreadablePolicy \<or> r = UndeterminedShadowAccount \<or>
     (\<exists>xs. r = pickAddress xs \<and> set xs = depositSubjects pc \<union> policySubjects A pc policy)"
proof -
  let ?dep = "if ActDeposit \<in> set (pc_actions pc) then [userAddress pc] else []"
  have dep: "set ?dep = depositSubjects pc" by (simp add: depositSubjects_def)
  show ?thesis
  proof (cases "getOpenNoteDepositor (pc_actions pc)")
    case None
    then have "r = pickAddress ?dep" "policySubjects A pc policy = {}"
      using assms by (simp_all add: getScreenedAddress_def policySubjects_def Let_def split: if_splits)
    then show ?thesis using dep by blast
  next
    case (Some d)
    show ?thesis
    proof (cases "policy (dep_address d)")
      case None
      then show ?thesis using assms Some by (simp add: getScreenedAddress_def Let_def)
    next
      case (Some p)
      note g = \<open>getOpenNoteDepositor (pc_actions pc) = Some d\<close> Some
      show ?thesis
      proof (cases p)
        case Required
        then have "r = pickAddress (?dep @ [dep_address d])" "policySubjects A pc policy = {dep_address d}"
          using assms g by (simp_all add: getScreenedAddress_def policySubjects_def Let_def split: if_splits)
        moreover have "set (?dep @ [dep_address d]) = depositSubjects pc \<union> {dep_address d}" using dep by simp
        ultimately show ?thesis by metis
      next
        case Exempt
        then have "r = pickAddress ?dep" "policySubjects A pc policy = {}"
          using assms g by (simp_all add: getScreenedAddress_def policySubjects_def Let_def split: if_splits)
        then show ?thesis using dep by blast
      next
        case Delegated
        obtain x where x: "getDelegatedAddress A pc d = Inr x"
          "r = (case x of OneAddress a \<Rightarrow> pickAddress (?dep @ [a]) | NoAddress \<Rightarrow> pickAddress ?dep | e \<Rightarrow> e)"
          using assms g Delegated by (auto simp: getScreenedAddress_def Let_def bindR_eq_Inr)
        have ps: "policySubjects A pc policy = {a. x = OneAddress a}"
          using g Delegated x(1) by (simp add: policySubjects_def)
        consider a where "x = OneAddress a" | "x = NoAddress" | "x = UndeterminedShadowAccount"
          using delegated_kinds [OF x(1)] by blast
        then show ?thesis
        proof cases
          case 1
          then have "r = pickAddress (?dep @ [a])" "policySubjects A pc policy = {a}" using x(2) ps by auto
          moreover have "set (?dep @ [a]) = depositSubjects pc \<union> {a}" using dep by simp
          ultimately show ?thesis by metis
        next
          case 2
          then have "r = pickAddress ?dep" "policySubjects A pc policy = {}" using x(2) ps by auto
          then show ?thesis using dep by blast
        qed (use x(2) in simp)
      qed
    qed
  qed
qed

definition sample_abi :: abi_decoder where
  "sample_abi = \<lparr>decodeActions = (\<lambda>_. Some [ActDeposit, ActCreateOpenNote, ActInvokeExternal 171]),
     decodeComputeArguments = (\<lambda>_. None), decodeInvokeOpenNotes = (\<lambda>_. None),
     calculateContractAddressFromHash = (\<lambda>_ _ _ _. ''0x1''), abi_lib = sample_lib\<rparr>"



end
