(* ===== verification/Schemas.thy ===== *)
theory Schemas
  imports Prelude Complex_Main
begin

text \<open>
  JSON values and the schemas of the package \<open>zod\<close> that the services and the SDK validate them with.
  Schemas are data; \<open>safeParse\<close> is a parameter of the code that calls it, and the predicate \<open>zod_like\<close>
  states the documented behaviour it relies on. \<open>zod_accepts\<close> is a parser with that behaviour.
  A value that is absent is \<open>None\<close>.
\<close>

section \<open>JSON values\<close>

datatype json =
    JNull
  | JBool bool
  | JNum rat
  | JString string
  | JArray "json list"
  | JObject "(string \<times> json) list"

text \<open>Reading a property; the values without it answer \<open>undefined\<close>.\<close>

definition json_get :: "json \<Rightarrow> string \<Rightarrow> json option" where
  "json_get j k = (case j of JObject m \<Rightarrow> jm_get m k | _ \<Rightarrow> None)"

text \<open>JavaScript's truthiness of a property that may be absent.\<close>

definition json_truthy :: "json option \<Rightarrow> bool" where
  "json_truthy v = (case v of
      None \<Rightarrow> False | Some JNull \<Rightarrow> False | Some (JBool b) \<Rightarrow> b | Some (JNum n) \<Rightarrow> n \<noteq> 0 | Some (JString s) \<Rightarrow> s \<noteq> []
    | Some _ \<Rightarrow> True)"

section \<open>Schemas\<close>

datatype schema =
    ZLiteral string
  | ZString
  | ZStringMin nat                       \<comment> \<open>with the least length\<close>
  | ZNumber
  | ZNull
  | ZUnknown
  | ZOptional schema
  | ZArray nat schema                    \<comment> \<open>with the least number of elements\<close>
  | ZObject "(string \<times> schema) list"
  | ZStrict "(string \<times> schema) list"     \<comment> \<open>an object with no other keys\<close>
  | ZUnion "schema list"

definition zod_like :: "(schema \<Rightarrow> json option \<Rightarrow> bool) \<Rightarrow> bool" where
  "zod_like accepts \<longleftrightarrow>
     (\<forall>s v. accepts (ZLiteral s) v \<longleftrightarrow> v = Some (JString s)) \<and>
     (\<forall>v. accepts ZString v \<longleftrightarrow> (\<exists>s. v = Some (JString s))) \<and>
     (\<forall>n v. accepts (ZStringMin n) v \<longleftrightarrow> (\<exists>s. v = Some (JString s) \<and> n \<le> length s)) \<and>
     (\<forall>v. accepts ZNumber v \<longleftrightarrow> (\<exists>n. v = Some (JNum n))) \<and>
     (\<forall>v. accepts ZNull v \<longleftrightarrow> v = Some JNull) \<and>
     (\<forall>v. accepts ZUnknown v) \<and>
     (\<forall>t v. accepts (ZOptional t) v \<longleftrightarrow> v = None \<or> accepts t v) \<and>
     (\<forall>n t v. accepts (ZArray n t) v \<longleftrightarrow> (\<exists>xs. v = Some (JArray xs) \<and> n \<le> length xs \<and> (\<forall>x \<in> set xs. accepts t (Some x)))) \<and>
     (\<forall>fs v. accepts (ZObject fs) v \<longleftrightarrow> (\<exists>m. v = Some (JObject m) \<and> (\<forall>(k, t) \<in> set fs. accepts t (jm_get m k)))) \<and>
     (\<forall>fs v. accepts (ZStrict fs) v \<longleftrightarrow>
        (\<exists>m. v = Some (JObject m) \<and> (\<forall>(k, t) \<in> set fs. accepts t (jm_get m k)) \<and> fst ` set m \<subseteq> fst ` set fs)) \<and>
     (\<forall>ts v. accepts (ZUnion ts) v \<longleftrightarrow> (\<exists>t \<in> set ts. accepts t v))"

lemma zod_simps:
  assumes "zod_like accepts"
  shows "accepts (ZLiteral s) v \<longleftrightarrow> v = Some (JString s)" "accepts ZString v \<longleftrightarrow> (\<exists>s. v = Some (JString s))"
    "accepts (ZStringMin n) v \<longleftrightarrow> (\<exists>s. v = Some (JString s) \<and> n \<le> length s)"
    "accepts ZNumber v \<longleftrightarrow> (\<exists>n. v = Some (JNum n))" "accepts ZNull v \<longleftrightarrow> v = Some JNull" "accepts ZUnknown v"
    "accepts (ZOptional t) v \<longleftrightarrow> v = None \<or> accepts t v"
    "accepts (ZArray n t) v \<longleftrightarrow> (\<exists>xs. v = Some (JArray xs) \<and> n \<le> length xs \<and> (\<forall>x \<in> set xs. accepts t (Some x)))"
    "accepts (ZObject fs) v \<longleftrightarrow> (\<exists>m. v = Some (JObject m) \<and> (\<forall>(k, t) \<in> set fs. accepts t (jm_get m k)))"
    "accepts (ZStrict fs) v \<longleftrightarrow>
        (\<exists>m. v = Some (JObject m) \<and> (\<forall>(k, t) \<in> set fs. accepts t (jm_get m k)) \<and> fst ` set m \<subseteq> fst ` set fs)"
    "accepts (ZUnion ts) v \<longleftrightarrow> (\<exists>t \<in> set ts. accepts t v)"
  using assms by (simp_all add: zod_like_def)

text \<open>The documented behaviour determines a parser.\<close>

fun zod_accepts :: "schema \<Rightarrow> json option \<Rightarrow> bool" where
  "zod_accepts (ZLiteral s) v = (v = Some (JString s))"
| "zod_accepts ZString v = (case v of Some (JString _) \<Rightarrow> True | _ \<Rightarrow> False)"
| "zod_accepts (ZStringMin n) v = (case v of Some (JString s) \<Rightarrow> n \<le> length s | _ \<Rightarrow> False)"
| "zod_accepts ZNumber v = (case v of Some (JNum _) \<Rightarrow> True | _ \<Rightarrow> False)"
| "zod_accepts ZNull v = (v = Some JNull)"
| "zod_accepts ZUnknown v = True"
| "zod_accepts (ZOptional t) v = (v = None \<or> zod_accepts t v)"
| "zod_accepts (ZArray n t) v = (case v of Some (JArray xs) \<Rightarrow> n \<le> length xs \<and> list_all (\<lambda>x. zod_accepts t (Some x)) xs | _ \<Rightarrow> False)"
| "zod_accepts (ZObject fs) v = (case v of Some (JObject m) \<Rightarrow> list_all (\<lambda>(k, t). zod_accepts t (jm_get m k)) fs | _ \<Rightarrow> False)"
| "zod_accepts (ZStrict fs) v = (case v of
     Some (JObject m) \<Rightarrow> list_all (\<lambda>(k, t). zod_accepts t (jm_get m k)) fs \<and> list_all (\<lambda>(k, _). k \<in> fst ` set fs) m | _ \<Rightarrow> False)"
| "zod_accepts (ZUnion ts) v = list_ex (\<lambda>t. zod_accepts t v) ts"

lemma zod_accepts_like: "zod_like zod_accepts"
  unfolding zod_like_def
  by (auto simp: list_all_iff list_ex_iff image_subset_iff split_def split: option.splits json.splits)

end
