(* ===== verification/Screening.thy ===== *)
theory Screening
  imports Screened_Address Indexer_Discovery Schemas
begin

text \<open>
  The proof interceptor's screening: \<open>proof-interceptor/src/screening-policy.ts\<close>,
  \<open>screening-interceptor.ts\<close> and \<open>interceptor.ts\<close>. The screening service's answers, the clock and the
  keyed hash are parameters. The theorems: a transaction that needs screening is allowed only with an
  attestation the service issued for its address, whatever fails on the way; the verdict of several
  interceptors is to block as soon as one blocks; and a policy served to a caller was read from the
  pool for that address.
\<close>

section \<open>The policy client\<close>

record PolicyClientConfig =
  pol_poolAddress :: string

text \<open>
  What \<open>callContract\<close> yields: felts (whose decoding by the pool's ABI gives a variant name), the error
  that the entry point does not exist, or another failure.
\<close>

datatype contract_answer = Felts "string list" | EntrypointNotFound | CallFailed string

definition isPolicy :: "string \<Rightarrow> OpenNoteScreeningPolicy option" where
  "isPolicy variant = (if variant = ''Required'' then Some Required
     else if variant = ''Exempt'' then Some Exempt
     else if variant = ''Delegated'' then Some Delegated else None)"

definition parsePolicy :: "(string list \<Rightarrow> string option) \<Rightarrow> string list \<Rightarrow> OpenNoteScreeningPolicy option" where
  "parsePolicy decodeVariant felts =
     (if length felts \<noteq> 1 then None else Option.bind (decodeVariant felts) isPolicy)"

definition readPolicy :: "(string list \<Rightarrow> string option) \<Rightarrow> contract_answer \<Rightarrow> OpenNoteScreeningPolicy option" where
  "readPolicy decodeVariant answer =
     (case answer of
        Felts felts \<Rightarrow> parsePolicy decodeVariant felts
      | EntrypointNotFound \<Rightarrow> Some Exempt
      | CallFailed _ \<Rightarrow> None)"

text \<open>
  The client as a state machine. \<open>pl_waiting\<close> holds the callers of \<open>getPolicy\<close> that await a read, with
  their normalized address; \<open>pl_pending\<close> the addresses whose read is in flight; \<open>pl_settled\<close> the callers
  whose read has settled but who have not resumed. \<open>pl_reads\<close> and \<open>pl_answers\<close> record what happened.
  An entry of the cache may disappear at any time (it expires or is evicted).
\<close>

record policy_client =
  pl_cache :: "string \<Rightarrow> OpenNoteScreeningPolicy option"
  pl_pending :: "string set"
  pl_waiting :: "(nat \<times> string) list"
  pl_settled :: "(nat \<times> string \<times> OpenNoteScreeningPolicy option) list"
  pl_reads :: "(string \<times> OpenNoteScreeningPolicy option) list"
  pl_answers :: "(nat \<times> string \<times> OpenNoteScreeningPolicy option) list"

definition new_client :: policy_client where
  "new_client = \<lparr>pl_cache = (\<lambda>_. None), pl_pending = {}, pl_waiting = [], pl_settled = [], pl_reads = [], pl_answers = []\<rparr>"

inductive policy_step :: "policy_client \<Rightarrow> policy_client \<Rightarrow> bool" where
  hit: "pl_cache s (normalizeFelt d) = Some p \<Longrightarrow>
    policy_step s (s\<lparr>pl_answers := (c, normalizeFelt d, Some p) # pl_answers s\<rparr>)"
| join: "pl_cache s (normalizeFelt d) = None \<Longrightarrow> normalizeFelt d \<in> pl_pending s \<Longrightarrow>
    policy_step s (s\<lparr>pl_waiting := (c, normalizeFelt d) # pl_waiting s\<rparr>)"
| start: "pl_cache s (normalizeFelt d) = None \<Longrightarrow> normalizeFelt d \<notin> pl_pending s \<Longrightarrow>
    policy_step s (s\<lparr>pl_pending := insert (normalizeFelt d) (pl_pending s),
      pl_waiting := (c, normalizeFelt d) # pl_waiting s\<rparr>)"
| settle: "a \<in> pl_pending s \<Longrightarrow> r = readPolicy dec answer \<Longrightarrow>
    policy_step s (s\<lparr>pl_pending := pl_pending s - {a}, pl_reads := (a, r) # pl_reads s,
      pl_settled := map (\<lambda>w. (fst w, a, r)) (filter (\<lambda>w. snd w = a) (pl_waiting s)) @ pl_settled s,
      pl_waiting := filter (\<lambda>w. snd w \<noteq> a) (pl_waiting s)\<rparr>)"
| resume: "(c, a, r) \<in> set (pl_settled s) \<Longrightarrow>
    policy_step s (s\<lparr>pl_cache := (case r of None \<Rightarrow> pl_cache s | Some p \<Rightarrow> (pl_cache s)(a := Some p)),
      pl_settled := remove1 (c, a, r) (pl_settled s), pl_answers := (c, a, r) # pl_answers s\<rparr>)"
| expire: "policy_step s (s\<lparr>pl_cache := (pl_cache s)(a := None)\<rparr>)"

inductive policy_reachable :: "policy_client \<Rightarrow> bool" where
  initial: "policy_reachable new_client"
| step: "policy_reachable s \<Longrightarrow> policy_step s s' \<Longrightarrow> policy_reachable s'"

inductive_cases policy_stepE: "policy_step s s'"

section \<open>The screening service\<close>

record ScreeningConfig =
  ellipticProxyUrl :: string
  partnerName :: string
  partnerSecret :: string
  sc_timeoutMs :: int
  maxRetries :: nat
  totalTimeoutMs :: int
  sc_poolAddress :: string
  blockNonPoolTx :: bool

record ScreeningSignature =
  issued_at :: rat
  sig_r :: string
  sig_s :: string

text \<open>\<open>/^0x[0-9a-fA-F]{1,64}$/\<close>\<close>

definition HEX_FELT :: "string \<Rightarrow> bool" where
  "HEX_FELT s = (take 2 s = ''0x'' \<and> 1 \<le> length (drop 2 s) \<and> length (drop 2 s) \<le> 64 \<and> list_all is_hex_digit (drop 2 s))"

definition isScreenResponse :: "json \<Rightarrow> bool option" where
  "isScreenResponse payload = (case json_get payload ''blocked'' of Some (JBool b) \<Rightarrow> Some b | _ \<Rightarrow> None)"

text \<open>A JSON number is finite.\<close>

definition isScreeningSignature :: "json option \<Rightarrow> ScreeningSignature option" where
  "isScreeningSignature v = Option.bind v (\<lambda>record.
     (case (json_get record ''issued_at'', json_get record ''sig_r'', json_get record ''sig_s'') of
        (Some (JNum t), Some (JString r), Some (JString s)) \<Rightarrow>
          if 0 \<le> t \<and> HEX_FELT r \<and> HEX_FELT s then Some \<lparr>issued_at = t, sig_r = r, sig_s = s\<rparr> else None
      | _ \<Rightarrow> None))"

datatype screen_verdict = ScreenAllowed ScreeningSignature | ScreenBlocked

definition computeHmacSignature ::
  "(string \<Rightarrow> string list \<Rightarrow> string) \<Rightarrow> string \<Rightarrow> string \<Rightarrow> string \<Rightarrow> string \<Rightarrow> string \<Rightarrow> string"
where
  "computeHmacSignature hmac secretBase64 timestamp method path body =
     hmac secretBase64 [timestamp, method, toLowerCase path, body]"

record ScreenRequest =
  rq_accessKey :: string
  rq_accessSign :: string
  rq_accessTimestamp :: string
  rq_method :: string
  rq_path :: string
  rq_address :: string
  rq_rawBody :: string

text \<open>\<open>JSON.stringify({ address })\<close>: the addresses are hexadecimal, nothing is escaped.\<close>

definition addressBody :: "string \<Rightarrow> string" where
  "addressBody address = ''{\"address\":\"'' @ address @ ''\"}''"

definition screenRequest :: "(string \<Rightarrow> string list \<Rightarrow> string) \<Rightarrow> ScreeningConfig \<Rightarrow> int \<Rightarrow> string \<Rightarrow> ScreenRequest" where
  "screenRequest hmac cfg now address =
     \<lparr>rq_accessKey = partnerName cfg,
      rq_accessSign = computeHmacSignature hmac (partnerSecret cfg) (int_toString 10 now) ''POST'' ''/screen'' (addressBody address),
      rq_accessTimestamp = int_toString 10 now, rq_method = ''POST'', rq_path = ''/screen'',
      rq_address = address, rq_rawBody = addressBody address\<rparr>"

definition callScreenEndpoint :: "json http_response \<Rightarrow> screen_verdict result" where
  "callScreenEndpoint response =
     (case response of
        NetworkError e \<Rightarrow> Inl (TypeError e)
      | Response status _ body \<Rightarrow>
          if \<not> status_ok status then Inl (HttpError status ''elliptic-proxy /screen'')
          else bindR body (\<lambda>payload.
            case isScreenResponse payload of
              None \<Rightarrow> Inl (InvalidPayload ''elliptic-proxy /screen returned invalid payload'')
            | Some True \<Rightarrow> Inr ScreenBlocked
            | Some False \<Rightarrow>
                (case isScreeningSignature (json_get payload ''signature'') of
                   None \<Rightarrow> Inl (InvalidPayload ''elliptic-proxy /screen allowed without a signature'')
                 | Some sg \<Rightarrow> Inr (ScreenAllowed sg))))"

datatype SignOutcome = Signed ScreeningSignature | OutcomeBlocked | OutcomeUnavailable

definition exponentialBackoff :: "nat \<Rightarrow> int" where
  "exponentialBackoff attempt = min (1000 * 2 ^ (attempt - 1)) 5000"

text \<open>
  The attempts from \<open>attempt\<close> on. \<open>clock\<close> gives the successive readings of \<open>Date.now()\<close> that the loop
  depends on (before the back-off and before the call); \<open>service k address\<close> is the answer to attempt \<open>k\<close>.
\<close>

function attemptFrom ::
  "ScreeningConfig \<Rightarrow> (nat \<Rightarrow> int) \<Rightarrow> (nat \<Rightarrow> string \<Rightarrow> json http_response) \<Rightarrow> int \<Rightarrow> string \<Rightarrow> nat \<Rightarrow> SignOutcome"
where
  "attemptFrom cfg clock service deadline address attempt =
     (if attempt > maxRetries cfg then OutcomeUnavailable
      else if attempt > 0 \<and> deadline - clock (2 * attempt) \<le> 0 then OutcomeUnavailable
      else if deadline - clock (2 * attempt + 1) \<le> 0 then OutcomeUnavailable
      else (case callScreenEndpoint (service attempt address) of
              Inr (ScreenAllowed sg) \<Rightarrow> Signed sg
            | Inr ScreenBlocked \<Rightarrow> OutcomeBlocked
            | Inl _ \<Rightarrow> attemptFrom cfg clock service deadline address (attempt + 1)))"
  by pat_completeness auto
termination
  by (relation "measure (\<lambda>(cfg, clock, service, deadline, address, attempt). Suc (maxRetries cfg) - attempt)") auto

declare attemptFrom.simps [simp del]

definition screenAndSign ::
  "ScreeningConfig \<Rightarrow> (nat \<Rightarrow> int) \<Rightarrow> (nat \<Rightarrow> string \<Rightarrow> json http_response) \<Rightarrow> string \<Rightarrow> SignOutcome"
where
  "screenAndSign cfg clock service address =
     attemptFrom cfg clock service (clock 0 + totalTimeoutMs cfg) address 0"

section \<open>The interceptor\<close>

datatype Verdict = Allow "ScreeningSignature option" | Block string

definition unresolvedSubjectReason :: "ScreenedAddress \<Rightarrow> string" where
  "unresolvedSubjectReason k = (case k of
      Conflict \<Rightarrow> ''multiple_screening_subjects''
    | UnreadablePolicy \<Rightarrow> ''screening_policy_unavailable''
    | UndeterminedShadowAccount \<Rightarrow> ''shadow_account_undetermined''
    | _ \<Rightarrow> '''')"

definition intercept ::
  "abi_decoder \<Rightarrow> ScreeningConfig \<Rightarrow> (string \<Rightarrow> OpenNoteScreeningPolicy option) \<Rightarrow> (nat \<Rightarrow> int)
     \<Rightarrow> (nat \<Rightarrow> string \<Rightarrow> json http_response) \<Rightarrow> ProveTxnV3 \<Rightarrow> Verdict result"
where
  "intercept A cfg policy clock service transaction =
     (if \<not> isSinglePoolCall transaction (sc_poolAddress cfg) then
        (if blockNonPoolTx cfg then Inr (Block ''transaction is not a direct call to the privacy pool'')
         else Inr (Allow None))
      else bindR (getScreenedAddress A transaction (sc_poolAddress cfg) policy) (\<lambda>screened.
        case screened of
          NoAddress \<Rightarrow> Inr (Allow None)
        | OneAddress address \<Rightarrow>
            (case screenAndSign cfg clock service address of
               OutcomeBlocked \<Rightarrow> Inr (Block ''address_blocked'')
             | OutcomeUnavailable \<Rightarrow> Inr (Block ''screening_unavailable'')
             | Signed sg \<Rightarrow> Inr (Allow (Some sg)))
        | k \<Rightarrow> Inr (Block (unresolvedSubjectReason k))))"

text \<open>
  \<open>runInterceptors\<close>: a thrown error counts as a block. \<open>order\<close> lists the indices in the order in which
  the interceptors settle; the first block to settle wins the race, and the joint promise resolves
  after the reaction of the last block, so it decides only when none blocks.
\<close>

definition settled :: "Verdict result \<Rightarrow> Verdict" where
  "settled r = (case r of Inl _ \<Rightarrow> Block ''interceptor_error'' | Inr v \<Rightarrow> v)"

definition is_block :: "Verdict \<Rightarrow> bool" where
  "is_block v = (case v of Block _ \<Rightarrow> True | Allow _ \<Rightarrow> False)"

definition is_signed :: "Verdict \<Rightarrow> bool" where
  "is_signed v = (case v of Allow (Some _) \<Rightarrow> True | _ \<Rightarrow> False)"

definition runInterceptors :: "nat list \<Rightarrow> (ProveTxnV3 \<Rightarrow> Verdict result) list \<Rightarrow> ProveTxnV3 \<Rightarrow> Verdict" where
  "runInterceptors order interceptors transaction =
     (if interceptors = [] then Allow None
      else let verdicts = map (\<lambda>i. settled (i transaction)) interceptors in
        case find is_block (map ((!) verdicts) order) of
          Some b \<Rightarrow> b
        | None \<Rightarrow> (case find is_signed verdicts of Some v \<Rightarrow> v | None \<Rightarrow> Allow None))"

section \<open>Fail closed\<close>

text \<open>The service vouched for the address with this signature.\<close>

definition attested :: "json http_response \<Rightarrow> ScreeningSignature \<Rightarrow> bool" where
  "attested response sg =
     (case response of
        Response status _ (Inr payload) \<Rightarrow>
          status_ok status \<and> json_get payload ''blocked'' = Some (JBool False) \<and>
          isScreeningSignature (json_get payload ''signature'') = Some sg
      | _ \<Rightarrow> False)"

lemma callScreenEndpoint_allowed: "callScreenEndpoint response = Inr (ScreenAllowed sg) \<longleftrightarrow> attested response sg"
proof (cases response)
  case (Response status tx1 body)
  show ?thesis
  proof (cases body)
    case (Inr payload)
    then show ?thesis using Response
      by (auto simp: callScreenEndpoint_def attested_def isScreenResponse_def split: option.splits json.splits bool.splits)
  qed (use Response in \<open>auto simp: callScreenEndpoint_def attested_def\<close>)
qed (simp add: callScreenEndpoint_def attested_def)

lemma attempt_signed:
  "attemptFrom cfg clock service deadline address attempt = Signed sg \<Longrightarrow>
   \<exists>k. attempt \<le> k \<and> k \<le> maxRetries cfg \<and> attested (service k address) sg \<and>
     (\<forall>j. attempt \<le> j \<and> j < k \<longrightarrow> isl (callScreenEndpoint (service j address)))"
proof (induction cfg clock service deadline address attempt rule: attemptFrom.induct)
  case (1 cfg clock service deadline address attempt)
  from 1(2) have le: "attempt \<le> maxRetries cfg" by (subst (asm) attemptFrom.simps) (simp split: if_splits)
  show ?case
  proof (cases "callScreenEndpoint (service attempt address)")
    case (Inl e)
    with 1(2) have rec: "attemptFrom cfg clock service deadline address (attempt + 1) = Signed sg"
      and guards: "\<not> attempt > maxRetries cfg" "\<not> (attempt > 0 \<and> deadline - clock (2 * attempt) \<le> 0)"
        "\<not> deadline - clock (2 * attempt + 1) \<le> 0"
      by (subst (asm) attemptFrom.simps, simp split: if_splits)+
    from 1(1) [OF guards Inl rec] obtain k where "attempt + 1 \<le> k" "k \<le> maxRetries cfg" "attested (service k address) sg"
      "\<forall>j. attempt + 1 \<le> j \<and> j < k \<longrightarrow> isl (callScreenEndpoint (service j address))" by blast
    moreover have "isl (callScreenEndpoint (service j address))" if "attempt \<le> j" "j < k" for j
      using that calculation(4) Inl by (cases "j = attempt") auto
    ultimately show ?thesis by (intro exI [of _ k]) auto
  next
    case (Inr v)
    with 1(2) have "v = ScreenAllowed sg"
      by (subst (asm) attemptFrom.simps) (auto split: if_splits screen_verdict.splits)
    with Inr le callScreenEndpoint_allowed [of "service attempt address" sg] show ?thesis
      by (intro exI [of _ attempt]) auto
  qed
qed

definition sample_screening :: ScreeningConfig where
  "sample_screening = \<lparr>ellipticProxyUrl = ''http://proxy'', partnerName = ''p'', partnerSecret = ''c2VjcmV0'', sc_timeoutMs = 10,
     maxRetries = 2, totalTimeoutMs = 1000, sc_poolAddress = ''0x099'', blockNonPoolTx = True\<rparr>"

definition sample_signature :: json where
  "sample_signature = JObject [(''issued_at'', JNum 5), (''sig_r'', JString ''0x1f''), (''sig_s'', JString ''0x2f'')]"

text \<open>The first attempt times out, the second one is answered.\<close>

definition sample_service :: "nat \<Rightarrow> string \<Rightarrow> json http_response" where
  "sample_service k address = (if k = 0 then NetworkError ''timeout''
     else Response 200 None (Inr (JObject [(''blocked'', JBool False), (''signature'', sample_signature)])))"

text \<open>
  C6: The interceptor fails closed. If a pool call carries a deposit, or the pool's policy asks for an
  attestation, the interceptor allows it only with a signature that the screening service returned for
  an attempt about that very address, after a successful answer that said "not blocked"; for a deposit
  the address is the depositing user's. Errors, time-outs, malformed answers, unreadable policies and
  conflicts all end in a block.
\<close>

theorem screening_fails_closed:
  assumes "isSinglePoolCall tx (sc_poolAddress cfg)" "decodeClientActions A tx (sc_poolAddress cfg) = Some pc"
    and "depositSubjects pc \<union> policySubjects A pc policy \<noteq> {}"
    and "intercept A cfg policy clock service tx = Inr (Allow x)"
  shows "\<exists>a sg k. x = Some sg \<and> depositSubjects pc \<union> policySubjects A pc policy = {a} \<and> k \<le> maxRetries cfg \<and>
     attested (service k a) sg \<and> (ActDeposit \<in> set (pc_actions pc) \<longrightarrow> a = userAddress pc)"
proof -
  obtain r where r: "getScreenedAddress A tx (sc_poolAddress cfg) policy = Inr r"
    using assms(1,4) by (auto simp: intercept_def bindR_eq_Inr)
  have ok: "r \<noteq> UnreadablePolicy" "r \<noteq> UndeterminedShadowAccount" "r \<noteq> Conflict"
    using assms(1,4) r by (auto simp: intercept_def)
  note ex = screened_subjects [OF assms(2) r]
  then obtain xs where xs: "r = pickAddress xs" "set xs = depositSubjects pc \<union> policySubjects A pc policy"
    using ok by blast
  then have "r \<noteq> NoAddress" using assms(3) pickAddress_cases(1) [of xs] by simp
  then obtain a where a: "r = OneAddress a" using ok by (cases r) auto
  then have sub: "depositSubjects pc \<union> policySubjects A pc policy = {a}" using xs pickAddress_cases(2) [of xs a] by simp
  obtain sg where sg: "x = Some sg" "screenAndSign cfg clock service a = Signed sg"
    using assms(1,4) r a by (auto simp: intercept_def split: SignOutcome.splits)
  then obtain k where "k \<le> maxRetries cfg" "attested (service k a) sg"
    using attempt_signed unfolding screenAndSign_def by blast
  moreover have "a = userAddress pc" if "ActDeposit \<in> set (pc_actions pc)"
    using sub that by (auto simp: depositSubjects_def)
  ultimately show ?thesis using sg(1) sub by blast
qed

theorem screening_fails_closed_witness:
  "\<exists>sg k. intercept sample_abi sample_screening (\<lambda>_. Some Exempt) (\<lambda>k. int k) sample_service (sample_tx ''0x99'') = Inr (Allow (Some sg)) \<and>
     k \<le> 2 \<and> attested (sample_service k ''0xab'') sg"
proof -
  let ?pc = "\<lparr>userAddress = ''0xab'', viewingKey = Some 7, pc_actions = [ActDeposit, ActCreateOpenNote, ActInvokeExternal 171]\<rparr>"
  have s: "isSinglePoolCall (sample_tx ''0x99'') (sc_poolAddress sample_screening)"
    "decodeClientActions sample_abi (sample_tx ''0x99'') (sc_poolAddress sample_screening) = Some ?pc"
    by code_simp+
  have "case intercept sample_abi sample_screening (\<lambda>_. Some Exempt) (\<lambda>k. int k) sample_service (sample_tx ''0x99'') of
      Inr (Allow _) \<Rightarrow> True | _ \<Rightarrow> False" by code_simp
  then obtain x where x: "intercept sample_abi sample_screening (\<lambda>_. Some Exempt) (\<lambda>k. int k) sample_service (sample_tx ''0x99'') = Inr (Allow x)"
    by (auto split: sum.splits Verdict.splits)
  have d: "depositSubjects ?pc \<union> policySubjects sample_abi ?pc (\<lambda>_. Some Exempt) \<noteq> {}" by (simp add: depositSubjects_def)
  from screening_fails_closed [OF s d x] x show ?thesis by (auto simp: sample_screening_def)
qed

section \<open>Several interceptors\<close>

lemma interceptors_verdict:
  assumes "set order = {..<length interceptors}"
  shows "(is_block (runInterceptors order interceptors tx) \<longleftrightarrow> (\<exists>i \<in> set interceptors. is_block (settled (i tx)))) \<and>
     (is_block (runInterceptors order interceptors tx) \<longrightarrow>
        runInterceptors order interceptors tx \<in> (\<lambda>i. settled (i tx)) ` set interceptors) \<and>
     (\<not> is_block (runInterceptors order interceptors tx) \<longrightarrow>
        runInterceptors order interceptors tx =
          (case find is_signed (map (\<lambda>i. settled (i tx)) interceptors) of Some v \<Rightarrow> v | None \<Rightarrow> Allow None))"
proof (cases "interceptors = []")
  case False
  define vs where "vs = map (\<lambda>i. settled (i tx)) interceptors"
  have set_vs: "set (map ((!) vs) order) = set vs"
  proof -
    have "set (map ((!) vs) order) = (!) vs ` {..<length vs}" using assms by (simp add: vs_def)
    then show ?thesis by (auto simp: set_conv_nth)
  qed
  have sv: "set vs = (\<lambda>i. settled (i tx)) ` set interceptors" by (simp add: vs_def)
  have run: "runInterceptors order interceptors tx =
      (case find is_block (map ((!) vs) order) of Some b \<Rightarrow> b
       | None \<Rightarrow> (case find is_signed vs of Some v \<Rightarrow> v | None \<Rightarrow> Allow None))"
    unfolding runInterceptors_def vs_def Let_def using False by simp
  show ?thesis
  proof (cases "find is_block (map ((!) vs) order)")
    case None
    then have none: "\<not> (\<exists>v \<in> set vs. is_block v)" using set_vs by (metis find_None_iff)
    have "\<not> is_block (case find is_signed vs of Some v \<Rightarrow> v | None \<Rightarrow> Allow None)"
    proof (cases "find is_signed vs")
      case (Some v)
      then show ?thesis using none by (metis find_Some_iff nth_mem option.simps(5))
    qed (simp add: is_block_def)
    then show ?thesis using None none run by (auto simp: sv vs_def)
  next
    case (Some b)
    then have "is_block b" "b \<in> set vs" using set_vs by (metis find_Some_iff nth_mem)+
    then show ?thesis using Some run by (auto simp: sv)
  qed
qed (simp add: runInterceptors_def is_block_def)

text \<open>
  Whatever order the interceptors settle in, the joint verdict blocks exactly when some interceptor
  blocks or throws, and then it is a verdict one of them gave; otherwise it is the first verdict that
  carries a signature, if there is one.
\<close>

theorem interceptors_block_if_any:
  assumes "set order = {..<length interceptors}"
  shows "(is_block (runInterceptors order interceptors tx) \<longleftrightarrow> (\<exists>i \<in> set interceptors. is_block (settled (i tx)))) \<and>
     (is_block (runInterceptors order interceptors tx) \<longrightarrow>
        runInterceptors order interceptors tx \<in> (\<lambda>i. settled (i tx)) ` set interceptors) \<and>
     (\<not> is_block (runInterceptors order interceptors tx) \<longrightarrow>
        runInterceptors order interceptors tx =
          (case find is_signed (map (\<lambda>i. settled (i tx)) interceptors) of Some v \<Rightarrow> v | None \<Rightarrow> Allow None))"
  using assms by (rule interceptors_verdict)

theorem interceptors_block_if_any_witness:
  "is_block (runInterceptors [1, 0] [\<lambda>_. Inl NoResult, \<lambda>_. Inr (Allow None)] (sample_tx ''0x99''))"
proof -
  have "set [1, 0] = {..<length [\<lambda>_. Inl NoResult, \<lambda>_ :: ProveTxnV3. Inr (Allow None)]}" by auto
  from interceptors_block_if_any [OF this, of "sample_tx ''0x99''"] show ?thesis by (simp add: settled_def is_block_def)
qed

section \<open>Policies come from the pool\<close>

definition policy_inv :: "policy_client \<Rightarrow> bool" where
  "policy_inv s \<longleftrightarrow>
     (\<forall>a p. pl_cache s a = Some p \<longrightarrow> (a, Some p) \<in> set (pl_reads s)) \<and>
     (\<forall>c a r. (c, a, r) \<in> set (pl_settled s) \<longrightarrow> (a, r) \<in> set (pl_reads s)) \<and>
     (\<forall>c a r. (c, a, r) \<in> set (pl_answers s) \<longrightarrow> (a, r) \<in> set (pl_reads s)) \<and>
     (\<forall>c a. (c, a) \<in> set (pl_waiting s) \<longrightarrow> a \<in> pl_pending s)"

lemma policy_inv_step: "policy_step s s' \<Longrightarrow> policy_inv s \<Longrightarrow> policy_inv s'"
proof (induction rule: policy_step.induct)
  case (resume c a r s)
  have "set (remove1 (c, a, r) (pl_settled s)) \<subseteq> set (pl_settled s)" by (rule set_remove1_subset)
  with resume show ?case by (auto simp: policy_inv_def split: option.splits)
qed (auto simp: policy_inv_def)

text \<open>
  In every interleaving of callers, reads and expiries, a policy answered to a caller was read from
  the pool for that address, an unreadable policy is never cached, and every caller that waits has a
  read of its address in flight.
\<close>

theorem policy_answers_read:
  assumes "policy_reachable s"
  shows "(\<forall>c a r. (c, a, r) \<in> set (pl_answers s) \<longrightarrow> (a, r) \<in> set (pl_reads s)) \<and>
     (\<forall>a p. pl_cache s a = Some p \<longrightarrow> (a, Some p) \<in> set (pl_reads s)) \<and>
     (\<forall>c a. (c, a) \<in> set (pl_waiting s) \<longrightarrow> a \<in> pl_pending s)"
proof -
  have "policy_inv s"
    using assms
  proof (induction rule: policy_reachable.induct)
    case initial
    show ?case by (simp add: policy_inv_def new_client_def)
  next
    case (step s s')
    then show ?case using policy_inv_step by blast
  qed
  then show ?thesis unfolding policy_inv_def by blast
qed

theorem policy_answers_read_witness:
  "\<exists>s. policy_reachable s \<and> (1, ''0xab'', Some Exempt) \<in> set (pl_answers s) \<and> (''0xab'', Some Exempt) \<in> set (pl_reads s)"
proof -
  have n: "normalizeFelt ''0x0AB'' = ''0xab''" by code_simp
  define s1 where "s1 = new_client\<lparr>pl_pending := insert ''0xab'' {}, pl_waiting := [(1 :: nat, ''0xab'')]\<rparr>"
  define s2 where "s2 = s1\<lparr>pl_pending := {}, pl_reads := [(''0xab'', Some Exempt)], pl_settled := [(1, ''0xab'', Some Exempt)], pl_waiting := []\<rparr>"
  define s3 where "s3 = s2\<lparr>pl_cache := (pl_cache s2)(''0xab'' := Some Exempt), pl_settled := [], pl_answers := [(1, ''0xab'', Some Exempt)]\<rparr>"
  have "policy_step new_client s1"
    using policy_step.start [of new_client "''0x0AB''" 1] n by (simp add: new_client_def s1_def)
  moreover have "policy_step s1 s2"
    using policy_step.settle [of "''0xab''" s1 "Some Exempt" "\<lambda>_. None" EntrypointNotFound]
    by (simp add: s1_def s2_def new_client_def readPolicy_def)
  moreover have "policy_step s2 s3"
    using policy_step.resume [of 1 "''0xab''" "Some Exempt" s2] by (simp add: s2_def s3_def s1_def new_client_def)
  ultimately have r: "policy_reachable s3" using policy_reachable.initial policy_reachable.step by blast
  moreover have "(1, ''0xab'', Some Exempt) \<in> set (pl_answers s3)" by (simp add: s3_def)
  ultimately show ?thesis using policy_answers_read [OF r] by blast
qed

end
