(* ===== verification/Interceptor_Service.thy ===== *)
theory Interceptor_Service
  imports Screening
begin

text \<open>
  The interceptor as a JSON-RPC service: \<open>proof-interceptor/src/rpc.ts\<close>, \<open>types.ts\<close> and \<open>proxy.ts\<close>.
  Schemas are data and \<open>safeParse\<close> is the parameter \<open>accepts\<close>, see \<open>Schemas\<close>. \<open>JSON.parse\<close> is the parameter \<open>parse\<close>, \<open>None\<close> on a syntax
  error. The theorems: the requests that reach the interceptors are exactly the well-formed
  \<open>starknet_checkTransaction\<close> calls of a version 3 invoke; a body is never buffered beyond the limit;
  and the service answers "allowed" only when no interceptor blocks.
\<close>

section \<open>Schemas\<close>

definition RequestIdSchema :: schema where
  "RequestIdSchema = ZUnion [ZString, ZNumber, ZNull]"

definition JsonRpcRequestSchema :: schema where
  "JsonRpcRequestSchema = ZObject [(''jsonrpc'', ZLiteral ''2.0''), (''id'', RequestIdSchema), (''method'', ZString), (''params'', ZUnknown)]"

definition INVOKE_TYPE :: string where "INVOKE_TYPE = ''INVOKE''"
definition INVOKE_VERSION :: string where "INVOKE_VERSION = ''0x3''"

definition ProveTxnV3Schema :: schema where
  "ProveTxnV3Schema = ZObject [(''type'', ZLiteral INVOKE_TYPE), (''version'', ZLiteral INVOKE_VERSION), (''calldata'', ZArray 0 ZString)]"

definition TransactionKindSchema :: schema where
  "TransactionKindSchema = ZObject [(''type'', ZUnknown), (''version'', ZUnknown)]"

text \<open>
  The union of the two parameter styles with its refinement and its transformations: the block id and
  the transaction, absent when the parameters match neither style.
\<close>

definition checkTransactionParams :: "(schema \<Rightarrow> json option \<Rightarrow> bool) \<Rightarrow> json option \<Rightarrow> (json \<times> json) option" where
  "checkTransactionParams accepts params =
     (if accepts (ZArray 2 ZUnknown) params
      then (case params of Some (JArray (b # t # _)) \<Rightarrow> Some (b, t) | _ \<Rightarrow> None)
      else if accepts (ZObject [(''block_id'', ZUnknown), (''transaction'', ZUnknown)]) params
      then (case (Option.bind params (\<lambda>p. json_get p ''block_id''), Option.bind params (\<lambda>p. json_get p ''transaction'')) of
              (Some b, Some t) \<Rightarrow> Some (b, t) | _ \<Rightarrow> None)
      else None)"

section \<open>rpc.ts\<close>

datatype RpcErrorType = ParseError | InvalidRequest | MethodNotFound | BlockNotFound | UnsupportedTxVersion

record JsonRpcErrorResponse =
  er_id :: json
  er_code :: int
  er_message :: string
  er_data :: "string option"

definition jsonRpcError :: "json \<Rightarrow> int \<Rightarrow> string \<Rightarrow> string option \<Rightarrow> JsonRpcErrorResponse" where
  "jsonRpcError i code message data = \<lparr>er_id = i, er_code = code, er_message = message, er_data = data\<rparr>"

definition INVALID_REQUEST :: int where "INVALID_REQUEST = - 32600"
definition METHOD_NOT_FOUND :: int where "METHOD_NOT_FOUND = - 32601"
definition BLOCK_NOT_FOUND :: int where "BLOCK_NOT_FOUND = 24"
definition UNSUPPORTED_TX_VERSION :: int where "UNSUPPORTED_TX_VERSION = 61"

datatype RpcVerdict = RpcOk ProveTxnV3 json | RpcFail RpcErrorType JsonRpcErrorResponse

definition requestIdOf :: "(schema \<Rightarrow> json option \<Rightarrow> bool) \<Rightarrow> json \<Rightarrow> json" where
  "requestIdOf accepts parsedBody =
     (case json_get parsedBody ''id'' of
        Some i \<Rightarrow> if accepts RequestIdSchema (Some i) then i else JNull
      | None \<Rightarrow> JNull)"

definition invalidRequest :: "json \<Rightarrow> RpcVerdict" where
  "invalidRequest requestId = RpcFail InvalidRequest (jsonRpcError requestId INVALID_REQUEST ''Invalid Request'' None)"

definition unsupportedTxVersion :: "json \<Rightarrow> string \<Rightarrow> RpcVerdict" where
  "unsupportedTxVersion requestId data =
     RpcFail UnsupportedTxVersion (jsonRpcError requestId UNSUPPORTED_TX_VERSION ''Unsupported tx version'' (Some data))"

text \<open>\<open>String(v)\<close>, with the printing of numbers as a parameter; an array joins its elements, where null is empty.\<close>

fun js_String :: "(rat \<Rightarrow> string) \<Rightarrow> json \<Rightarrow> string" where
  "js_String num JNull = ''null''"
| "js_String num (JBool b) = (if b then ''true'' else ''false'')"
| "js_String num (JNum n) = num n"
| "js_String num (JString s) = s"
| "js_String num (JArray xs) =
     concat (map (\<lambda>(i, s). if i = 0 then s else CHR '','' # s)
       (enumerate 0 (map (\<lambda>x. case x of JNull \<Rightarrow> [] | _ \<Rightarrow> js_String num x) xs)))"
| "js_String num (JObject m) = ''[object Object]''"

definition js_String_opt :: "(rat \<Rightarrow> string) \<Rightarrow> json option \<Rightarrow> string" where
  "js_String_opt num v = (case v of None \<Rightarrow> ''undefined'' | Some j \<Rightarrow> js_String num j)"

text \<open>The calldata of a transaction the schema has accepted.\<close>

definition json_strings :: "json option \<Rightarrow> string list" where
  "json_strings v = (case v of Some (JArray xs) \<Rightarrow> map (\<lambda>x. case x of JString s \<Rightarrow> s | _ \<Rightarrow> []) xs | _ \<Rightarrow> [])"

definition validateCheckTransaction ::
  "(schema \<Rightarrow> json option \<Rightarrow> bool) \<Rightarrow> (rat \<Rightarrow> string) \<Rightarrow> json option \<Rightarrow> json \<Rightarrow> RpcVerdict"
where
  "validateCheckTransaction accepts num rawParams requestId =
     (case checkTransactionParams accepts rawParams of
        None \<Rightarrow> invalidRequest requestId
      | Some (blockId, tx) \<Rightarrow>
          if blockId = JString ''pending''
          then RpcFail BlockNotFound (jsonRpcError requestId BLOCK_NOT_FOUND ''Block not found'' None)
          else if \<not> accepts TransactionKindSchema (Some tx) then invalidRequest requestId
          else if json_get tx ''type'' \<noteq> Some (JString INVOKE_TYPE)
          then unsupportedTxVersion requestId
                 (''Only '' @ INVOKE_TYPE @ '' transactions are supported, got: '' @ js_String_opt num (json_get tx ''type''))
          else if json_get tx ''version'' \<noteq> Some (JString INVOKE_VERSION)
          then unsupportedTxVersion requestId
                 (''Only version '' @ INVOKE_VERSION @ '' is supported, got: '' @ js_String_opt num (json_get tx ''version''))
          else if \<not> accepts ProveTxnV3Schema (Some tx) then invalidRequest requestId
          else RpcOk \<lparr>calldata = json_strings (json_get tx ''calldata'')\<rparr> requestId)"

definition validateRpcRequest ::
  "(schema \<Rightarrow> json option \<Rightarrow> bool) \<Rightarrow> (rat \<Rightarrow> string) \<Rightarrow> (string \<Rightarrow> json option) \<Rightarrow> string \<Rightarrow> RpcVerdict"
where
  "validateRpcRequest accepts num parse body =
     (case parse body of
        None \<Rightarrow> RpcFail ParseError (jsonRpcError JNull INVALID_REQUEST ''Parse error'' None)
      | Some parsedBody \<Rightarrow>
          if \<not> accepts JsonRpcRequestSchema (Some parsedBody) then invalidRequest (requestIdOf accepts parsedBody)
          else (let requestId = (case json_get parsedBody ''id'' of Some i \<Rightarrow> i | None \<Rightarrow> JNull) in
            if json_get parsedBody ''method'' = Some (JString ''starknet_checkTransaction'')
            then validateCheckTransaction accepts num (json_get parsedBody ''params'') requestId
            else RpcFail MethodNotFound (jsonRpcError requestId METHOD_NOT_FOUND ''Method not found'' None)))"

section \<open>proxy.ts\<close>

text \<open>
  \<open>readBody\<close> reacts to the events of the request stream. Its state: the chunks kept, the bytes seen and,
  once settled, whether it resolved (\<open>Inr\<close> the body) or rejected; \<open>rb_destroyed\<close> records \<open>req.destroy()\<close>.
\<close>

datatype body_event = Data string | End | Failed | Closed bool   \<comment> \<open>\<open>Closed\<close> carries \<open>req.complete\<close>\<close>

record read_body =
  rb_chunks :: "string list"
  rb_totalBytes :: nat
  rb_settled :: "string result option"
  rb_destroyed :: bool

definition rb_initial :: read_body where
  "rb_initial = \<lparr>rb_chunks = [], rb_totalBytes = 0, rb_settled = None, rb_destroyed = False\<rparr>"

definition settleOnce :: "string result \<Rightarrow> read_body \<Rightarrow> read_body" where
  "settleOnce r s = (case rb_settled s of Some _ \<Rightarrow> s | None \<Rightarrow> s\<lparr>rb_settled := Some r\<rparr>)"

definition onBodyEvent :: "nat \<Rightarrow> read_body \<Rightarrow> body_event \<Rightarrow> read_body" where
  "onBodyEvent maxBytes s e = (case e of
      Data chunk \<Rightarrow>
        (case rb_settled s of
           Some _ \<Rightarrow> s
         | None \<Rightarrow>
             let total = rb_totalBytes s + length chunk in
             if total > maxBytes
             then settleOnce (Inl (InvalidPayload ''body too large'')) (s\<lparr>rb_totalBytes := total, rb_destroyed := True\<rparr>)
             else s\<lparr>rb_totalBytes := total, rb_chunks := rb_chunks s @ [chunk]\<rparr>)
    | End \<Rightarrow> settleOnce (Inr (concat (rb_chunks s))) s
    | Failed \<Rightarrow> settleOnce (Inl (InvalidPayload ''stream error'')) s
    | Closed received_all \<Rightarrow>
        if \<not> received_all then settleOnce (Inl (InvalidPayload ''request closed before body was fully received'')) s else s)"

definition readBody :: "nat \<Rightarrow> body_event list \<Rightarrow> read_body" where
  "readBody maxBytes events = foldl (onBodyEvent maxBytes) rb_initial events"

record IncomingMessage =
  im_url :: string
  im_method :: string
  im_contentLength :: "string option"
  im_contentType :: "string option"
  im_events :: "body_event list"

definition contains :: "string \<Rightarrow> string \<Rightarrow> bool" where
  "contains s part = list_ex (\<lambda>i. take (length part) (drop i s) = part) [0 ..< Suc (length s)]"

definition isJsonContent :: "IncomingMessage \<Rightarrow> bool" where
  "isJsonContent req = contains (case im_contentType req of None \<Rightarrow> [] | Some t \<Rightarrow> t) ''application/json''"

text \<open>\<open>parseInt(s, 10)\<close>: white space and a sign, then the longest run of decimal digits.\<close>

definition parseInt10 :: "string \<Rightarrow> int option" where
  "parseInt10 s =
     (let t = dropWhile is_ws s;
          u = (if take 1 t \<in> {''-'', ''+''} then drop 1 t else t);
          digits = takeWhile (\<lambda>c. case digit_val c of Some d \<Rightarrow> d < 10 | None \<Rightarrow> False) u
      in map_option (\<lambda>n. if take 1 t = ''-'' then - int n else int n) (parse_nat 10 digits))"

datatype reply =
    Health
  | Metrics
  | PlainError string
  | RpcErrorReply JsonRpcErrorResponse
  | Allowed json "ScreeningSignature option"     \<comment> \<open>the request id and the \<open>additional_data\<close>\<close>

definition TRANSACTION_REJECTED :: int where "TRANSACTION_REJECTED = 10000"

definition DEFAULT_MAX_BODY_BYTES :: nat where "DEFAULT_MAX_BODY_BYTES = 5 * 1024 * 1024"

text \<open>
  One request. \<open>None\<close>: the body stream has not settled, so there is no answer yet. The last argument is
  the joint verdict of the interceptors for a transaction.
\<close>

definition handleRequest ::
  "(schema \<Rightarrow> json option \<Rightarrow> bool) \<Rightarrow> (rat \<Rightarrow> string) \<Rightarrow> (string \<Rightarrow> json option) \<Rightarrow> nat
     \<Rightarrow> (ProveTxnV3 \<Rightarrow> Verdict) \<Rightarrow> IncomingMessage \<Rightarrow> (nat \<times> reply) option"
where
  "handleRequest accepts num parse maxBodyBytes run req =
     (if im_url req = ''/health'' \<and> im_method req = ''GET'' then Some (200, Health)
      else if im_url req = ''/metrics'' \<and> im_method req = ''GET'' then Some (200, Metrics)
      else if (case parseInt10 (case im_contentLength req of None \<Rightarrow> [] | Some l \<Rightarrow> l) of
                 None \<Rightarrow> False | Some n \<Rightarrow> n > int maxBodyBytes)
      then Some (413, PlainError ''payload too large'')
      else (case rb_settled (readBody maxBodyBytes (im_events req)) of
         None \<Rightarrow> None
       | Some (Inl _) \<Rightarrow> Some (413, PlainError ''payload too large'')
       | Some (Inr body) \<Rightarrow>
           if im_method req \<noteq> ''POST'' \<or> \<not> isJsonContent req
           then Some (400, PlainError ''only JSON-RPC POST requests accepted'')
           else (case validateRpcRequest accepts num parse body of
              RpcFail _ response \<Rightarrow> Some (200, RpcErrorReply response)
            | RpcOk tx requestId \<Rightarrow>
                (case run tx of
                   Block why \<Rightarrow> Some (200, RpcErrorReply (jsonRpcError requestId TRANSACTION_REJECTED ''Transaction rejected'' (Some why)))
                 | Allow sg \<Rightarrow> Some (200, Allowed requestId sg)))))"

section \<open>The requests that are checked\<close>

text \<open>The two parameter styles.\<close>

definition paramsOf :: "json option \<Rightarrow> json \<Rightarrow> json \<Rightarrow> bool" where
  "paramsOf params b t \<longleftrightarrow>
     (\<exists>rest. params = Some (JArray (b # t # rest))) \<or>
     (\<exists>m. params = Some (JObject m) \<and> jm_get m ''block_id'' = Some b \<and> jm_get m ''transaction'' = Some t)"

definition invoke_v3 :: "json \<Rightarrow> string list \<Rightarrow> bool" where
  "invoke_v3 t felts \<longleftrightarrow> (\<exists>m. t = JObject m \<and> jm_get m ''type'' = Some (JString ''INVOKE'') \<and>
     jm_get m ''version'' = Some (JString ''0x3'') \<and> jm_get m ''calldata'' = Some (JArray (map JString felts)))"

lemma params_exact:
  assumes "zod_like accepts"
  shows "checkTransactionParams accepts params = Some (b, t) \<longleftrightarrow> paramsOf params b t"
proof (cases params)
  case (Some p)
  show ?thesis
  proof (cases p)
    case (JArray xs)
    then show ?thesis using Some
      by (cases xs rule: list.exhaust [case_product list.exhaust [of "tl xs"]])
        (auto simp: checkTransactionParams_def paramsOf_def zod_simps [OF assms] json_get_def)
  qed (use Some in \<open>auto simp: checkTransactionParams_def paramsOf_def zod_simps [OF assms] json_get_def split: option.splits\<close>)
qed (simp add: checkTransactionParams_def paramsOf_def zod_simps [OF assms])

lemma strings_exact: "(\<forall>x \<in> set xs. \<exists>s. x = JString s) \<Longrightarrow> \<exists>ss. xs = map JString ss"
  by (induction xs) (auto intro: exI [of _ "_ # _"])

lemma json_strings_map: "json_strings (Some (JArray (map JString ss))) = ss"
  by (simp add: json_strings_def comp_def)

lemma map_JString_inject: "map JString xs = map JString ys \<longleftrightarrow> xs = ys"
  by (metis json_strings_map)

lemma schema_exact:
  assumes "zod_like accepts"
  shows "accepts ProveTxnV3Schema (Some t) \<longleftrightarrow> (\<exists>ss. invoke_v3 t ss)"
proof
  assume "accepts ProveTxnV3Schema (Some t)"
  then obtain m xs where m: "t = JObject m" "jm_get m ''type'' = Some (JString ''INVOKE'')"
    "jm_get m ''version'' = Some (JString ''0x3'')" "jm_get m ''calldata'' = Some (JArray xs)" "\<forall>x \<in> set xs. \<exists>s. x = JString s"
    by (auto simp: ProveTxnV3Schema_def INVOKE_TYPE_def INVOKE_VERSION_def zod_simps [OF assms])
  with strings_exact [OF m(5)] show "\<exists>ss. invoke_v3 t ss" by (auto simp: invoke_v3_def)
next
  assume "\<exists>ss. invoke_v3 t ss"
  then show "accepts ProveTxnV3Schema (Some t)"
    by (auto simp: ProveTxnV3Schema_def INVOKE_TYPE_def INVOKE_VERSION_def invoke_v3_def zod_simps [OF assms])
qed

lemma check_exact:
  assumes "zod_like accepts"
  shows "validateCheckTransaction accepts num params i = RpcOk tx i' \<longleftrightarrow>
     i' = i \<and> (\<exists>b t. paramsOf params b t \<and> b \<noteq> JString ''pending'' \<and> invoke_v3 t (calldata tx))"
proof (cases "checkTransactionParams accepts params")
  case None
  with params_exact [OF assms, of params] show ?thesis
    by (simp add: validateCheckTransaction_def invalidRequest_def)
next
  case (Some bt)
  obtain b t where bt: "bt = (b, t)" by (cases bt)
  have ex: "(\<exists>b t. paramsOf params b t \<and> P b t) \<longleftrightarrow> P b t" for P
    using Some bt unfolding params_exact [OF assms, symmetric] by simp
  show ?thesis
  proof (cases "\<exists>ss. invoke_v3 t ss")
    case True
    then obtain ss where ss: "invoke_v3 t ss" by blast
    then have k: "accepts TransactionKindSchema (Some t)" "json_get t ''type'' = Some (JString INVOKE_TYPE)"
      "json_get t ''version'' = Some (JString INVOKE_VERSION)" "json_strings (json_get t ''calldata'') = ss"
      "\<And>ss'. invoke_v3 t ss' \<longleftrightarrow> ss' = ss"
      using json_strings_map
      by (auto simp: map_JString_inject invoke_v3_def TransactionKindSchema_def INVOKE_TYPE_def INVOKE_VERSION_def json_get_def zod_simps [OF assms])
    have "accepts ProveTxnV3Schema (Some t)" using True schema_exact [OF assms] by blast
    with k Some bt ex show ?thesis by (cases tx) (auto simp: validateCheckTransaction_def)
  next
    case False
    then have "\<not> accepts ProveTxnV3Schema (Some t)" using schema_exact [OF assms] by blast
    with False Some bt ex show ?thesis
      by (simp add: validateCheckTransaction_def invalidRequest_def unsupportedTxVersion_def)
  qed
qed

text \<open>
  The requests that reach the interceptors are exactly the well-formed ones: a JSON-RPC 2.0 object
  with a string, numeric or null id, the method \<open>starknet_checkTransaction\<close>, parameters by position or by
  name, a block other than \<open>pending\<close>, and a version 3 invoke whose calldata is a list of strings. That
  calldata and that id are what the service goes on with; everything else is answered with an error.
\<close>

theorem checked_requests_exact:
  assumes "zod_like accepts"
  shows "validateRpcRequest accepts num parse body = RpcOk tx i \<longleftrightarrow>
     (\<exists>m b t. parse body = Some (JObject m) \<and> jm_get m ''jsonrpc'' = Some (JString ''2.0'') \<and> jm_get m ''id'' = Some i \<and>
        ((\<exists>s. i = JString s) \<or> (\<exists>n. i = JNum n) \<or> i = JNull) \<and>
        jm_get m ''method'' = Some (JString ''starknet_checkTransaction'') \<and>
        paramsOf (jm_get m ''params'') b t \<and> b \<noteq> JString ''pending'' \<and> invoke_v3 t (calldata tx))"
proof (cases "\<exists>m. parse body = Some (JObject m) \<and> accepts JsonRpcRequestSchema (Some (JObject m))")
  case True
  then obtain m where m: "parse body = Some (JObject m)" and acc: "accepts JsonRpcRequestSchema (Some (JObject m))" by blast
  obtain i0 where i0: "jm_get m ''id'' = Some i0" "(\<exists>s. i0 = JString s) \<or> (\<exists>n. i0 = JNum n) \<or> i0 = JNull"
    "jm_get m ''jsonrpc'' = Some (JString ''2.0'')"
    using acc by (auto simp: JsonRpcRequestSchema_def RequestIdSchema_def zod_simps [OF assms])
  show ?thesis
    using m acc i0 check_exact [OF assms, of num "jm_get m ''params''" i0 tx i]
    by (simp add: validateRpcRequest_def json_get_def) (metis option.inject)
next
  case False
  then have "validateRpcRequest accepts num parse body \<noteq> RpcOk tx i"
    by (auto simp: validateRpcRequest_def invalidRequest_def zod_simps [OF assms] JsonRpcRequestSchema_def split: option.split)
  moreover have "accepts JsonRpcRequestSchema (Some (JObject m))"
    if "jm_get m ''jsonrpc'' = Some (JString ''2.0'')" "jm_get m ''id'' = Some i"
      "(\<exists>s. i = JString s) \<or> (\<exists>n. i = JNum n) \<or> i = JNull" "jm_get m ''method'' = Some (JString ''starknet_checkTransaction'')" for m
    using that by (auto simp: JsonRpcRequestSchema_def RequestIdSchema_def zod_simps [OF assms])
  ultimately show ?thesis using False by blast
qed


definition sample_rpc :: json where
  "sample_rpc = JObject [(''jsonrpc'', JString ''2.0''), (''id'', JNum 1), (''method'', JString ''starknet_checkTransaction''),
     (''params'', JArray [JString ''latest'', JObject [(''type'', JString ''INVOKE''), (''version'', JString ''0x3''),
        (''calldata'', JArray (map JString (calldata (sample_tx ''0x99''))))]])]"

theorem checked_requests_exact_witness:
  "validateRpcRequest zod_accepts (\<lambda>_. ''1'') (\<lambda>_. Some sample_rpc) ''{}'' = RpcOk (sample_tx ''0x99'') (JNum 1)"
proof -
  let ?t = "JObject [(''type'', JString ''INVOKE''), (''version'', JString ''0x3''), (''calldata'', JArray (map JString (calldata (sample_tx ''0x99''))))]"
  have "paramsOf (Some (JArray [JString ''latest'', ?t])) (JString ''latest'') ?t" by (simp add: paramsOf_def)
  moreover have "invoke_v3 ?t (calldata (sample_tx ''0x99''))" by (simp add: invoke_v3_def)
  ultimately show ?thesis
    unfolding checked_requests_exact [OF zod_accepts_like] sample_rpc_def
    by (intro exI conjI) (rule refl | assumption | simp)+
qed

section \<open>The body is bounded\<close>

text \<open>The chunks that arrive before the stream ends, fails or closes early.\<close>

fun chunksBeforeEnd :: "body_event list \<Rightarrow> string list" where
  "chunksBeforeEnd [] = []"
| "chunksBeforeEnd (Data c # es) = c # chunksBeforeEnd es"
| "chunksBeforeEnd (End # es) = []"
| "chunksBeforeEnd (Failed # es) = []"
| "chunksBeforeEnd (Closed ok # es) = (if ok then chunksBeforeEnd es else [])"

lemma readBody_settled: "rb_settled s = Some r \<Longrightarrow> foldl (onBodyEvent n) s es = s"
  by (induction es) (auto simp: onBodyEvent_def settleOnce_def split: body_event.split)

lemma onBodyEvent_unsettled:
  assumes "rb_settled s = None"
  shows "onBodyEvent n s End = s\<lparr>rb_settled := Some (Inr (concat (rb_chunks s)))\<rparr>"
    "onBodyEvent n s Failed = s\<lparr>rb_settled := Some (Inl (InvalidPayload ''stream error''))\<rparr>"
    "onBodyEvent n s (Closed False) = s\<lparr>rb_settled := Some (Inl (InvalidPayload ''request closed before body was fully received''))\<rparr>"
    "onBodyEvent n s (Closed True) = s"
  using assms by (simp_all add: onBodyEvent_def settleOnce_def)

lemma readBody_chunks:
  "rb_totalBytes s = length (concat (rb_chunks s)) \<Longrightarrow> rb_totalBytes s \<le> n \<Longrightarrow> rb_settled s = None \<Longrightarrow>
   let s' = foldl (onBodyEvent n) s es; all = concat (rb_chunks s @ chunksBeforeEnd es) in
     length (concat (rb_chunks s')) \<le> n \<and>
     (\<forall>b. rb_settled s' = Some (Inr b) \<longrightarrow> b = all \<and> length b \<le> n) \<and>
     (length all > n \<longrightarrow> (\<exists>e. rb_settled s' = Some (Inl e)))"
proof (induction es arbitrary: s rule: chunksBeforeEnd.induct)
  case (2 c es)
  show ?case
  proof (cases "rb_totalBytes s + length c > n")
    case True
    let ?s = "settleOnce (Inl (InvalidPayload ''body too large'')) (s\<lparr>rb_totalBytes := rb_totalBytes s + length c, rb_destroyed := True\<rparr>)"
    have "foldl (onBodyEvent n) s (Data c # es) = ?s"
      using True 2(4) readBody_settled [of ?s] by (simp add: onBodyEvent_def settleOnce_def)
    then show ?thesis using True 2 by (simp add: settleOnce_def)
  next
    case False
    let ?s = "s\<lparr>rb_totalBytes := rb_totalBytes s + length c, rb_chunks := rb_chunks s @ [c]\<rparr>"
    have "foldl (onBodyEvent n) s (Data c # es) = foldl (onBodyEvent n) ?s es"
      using False 2(4) by (simp add: onBodyEvent_def)
    then show ?thesis using 2(1) [of ?s] False 2(2,4) by (simp add: Let_def)
  qed
next
  case (3 es)
  then show ?case by (simp add: onBodyEvent_unsettled readBody_settled Let_def)
next
  case (4 es)
  then show ?case by (simp add: onBodyEvent_unsettled readBody_settled Let_def)
next
  case (5 ok es)
  then show ?case by (cases ok) (simp_all add: onBodyEvent_unsettled readBody_settled Let_def)
qed (simp_all add: Let_def)

lemma body_bounds:
  "length (concat (rb_chunks (readBody n es))) \<le> n \<and>
   (\<forall>b. rb_settled (readBody n es) = Some (Inr b) \<longrightarrow> b = concat (chunksBeforeEnd es) \<and> length b \<le> n) \<and>
   (length (concat (chunksBeforeEnd es)) > n \<longrightarrow> (\<exists>e. rb_settled (readBody n es) = Some (Inl e)))"
  using readBody_chunks [of rb_initial n es] by (simp add: readBody_def rb_initial_def Let_def)

text \<open>
  Whatever the stream delivers, in whatever chunks, the service never holds more than the limit. A
  body it accepts is exactly what arrived before the end of the stream, and a longer one is refused,
  with or without a truthful content length.
\<close>

theorem body_within_limit:
  "length (concat (rb_chunks (readBody n es))) \<le> n \<and>
   (\<forall>b. rb_settled (readBody n es) = Some (Inr b) \<longrightarrow> b = concat (chunksBeforeEnd es) \<and> length b \<le> n) \<and>
   (length (concat (chunksBeforeEnd es)) > n \<longrightarrow> (\<exists>e. rb_settled (readBody n es) = Some (Inl e)))"
  by (rule body_bounds)

theorem body_within_limit_witness:
  "rb_settled (readBody 3 [Data ''ab'', Data ''c'', End]) = Some (Inr ''abc'') \<and>
   (\<exists>e. rb_settled (readBody 3 [Data ''ab'', Data ''cd'', End]) = Some (Inl e))"
  using body_within_limit [of 3 "[Data ''ab'', Data ''cd'', End]"] by (simp add: readBody_def onBodyEvent_def rb_initial_def settleOnce_def)

section \<open>The service's answer\<close>

text \<open>
  C20: The service says "allowed" only when the request is a well-formed check within the size limit and
  no interceptor blocks its transaction or fails, in whatever order they settle; the attestation it
  passes on is the one of an interceptor, and some interceptor's whenever one has been issued.
\<close>

theorem service_allows_unblocked:
  assumes "set order = {..<length interceptors}"
    and "handleRequest accepts num parse maxBytes (runInterceptors order interceptors) req = Some (status, Allowed i sg)"
  shows "\<exists>tx. validateRpcRequest accepts num parse (concat (chunksBeforeEnd (im_events req))) = RpcOk tx i \<and>
     length (concat (chunksBeforeEnd (im_events req))) \<le> maxBytes \<and> im_method req = ''POST'' \<and> status = 200 \<and>
     (\<forall>v \<in> set interceptors. \<exists>x. v tx = Inr (Allow x)) \<and>
     (sg \<noteq> None \<longrightarrow> (\<exists>v \<in> set interceptors. v tx = Inr (Allow sg))) \<and>
     (\<forall>v \<in> set interceptors. \<forall>g. v tx = Inr (Allow (Some g)) \<longrightarrow> sg \<noteq> None)"
proof -
  obtain b where b: "rb_settled (readBody maxBytes (im_events req)) = Some (Inr b)" "im_method req = ''POST''"
    using assms(2) by (auto simp: handleRequest_def split: if_splits option.splits sum.splits)
  obtain tx where tx: "validateRpcRequest accepts num parse b = RpcOk tx i"
    "runInterceptors order interceptors tx = Allow sg" "status = 200"
    using assms(2) b by (auto simp: handleRequest_def split: if_splits RpcVerdict.splits Verdict.splits option.splits)
  have bb: "b = concat (chunksBeforeEnd (im_events req))" "length b \<le> maxBytes"
    using body_bounds [of maxBytes "im_events req"] b(1) by auto
  have none: "\<not> is_block (settled (v tx))" if "v \<in> set interceptors" for v
    using interceptors_verdict [OF assms(1), of tx] tx(2) that by (auto simp: is_block_def)
  have fnd: "Allow sg = (case find is_signed (map (\<lambda>v. settled (v tx)) interceptors) of Some v \<Rightarrow> v | None \<Rightarrow> Allow None)"
    using interceptors_verdict [OF assms(1), of tx] tx(2) by (simp add: is_block_def)
  have allow: "\<exists>x. v tx = Inr (Allow x)" if "v \<in> set interceptors" for v
    using none [OF that] by (cases "v tx") (auto simp: settled_def is_block_def split: Verdict.splits)
  have source: "\<exists>v \<in> set interceptors. v tx = Inr (Allow sg)" if "sg \<noteq> None"
  proof -
    from fnd that obtain w where "find is_signed (map (\<lambda>v. settled (v tx)) interceptors) = Some w" "w = Allow sg"
      by (auto split: option.splits)
    then have "Allow sg \<in> set (map (\<lambda>v. settled (v tx)) interceptors)" by (metis find_Some_iff nth_mem)
    then obtain v where "v \<in> set interceptors" "settled (v tx) = Allow sg" by auto
    with allow show ?thesis by (fastforce simp: settled_def)
  qed
  have passed: "sg \<noteq> None" if "v \<in> set interceptors" "v tx = Inr (Allow (Some g))" for v g
  proof -
    have "is_signed (settled (v tx))" using that(2) by (simp add: is_signed_def settled_def)
    then have "find is_signed (map (\<lambda>v. settled (v tx)) interceptors) \<noteq> None"
      using that(1) by (auto simp: find_None_iff)
    then obtain w where w: "find is_signed (map (\<lambda>v. settled (v tx)) interceptors) = Some w" by blast
    then have "is_signed w" by (metis find_Some_iff)
    moreover have "w = Allow sg" using fnd w by simp
    ultimately show ?thesis by (cases sg) (simp_all add: is_signed_def)
  qed
  show ?thesis
  proof (rule exI [of _ tx], intro conjI)
    show "validateRpcRequest accepts num parse (concat (chunksBeforeEnd (im_events req))) = RpcOk tx i" using tx(1) bb(1) by simp
    show "length (concat (chunksBeforeEnd (im_events req))) \<le> maxBytes" using bb by simp
    show "\<forall>v \<in> set interceptors. \<exists>x. v tx = Inr (Allow x)" using allow by simp
    show "sg \<noteq> None \<longrightarrow> (\<exists>v \<in> set interceptors. v tx = Inr (Allow sg))" using source by simp
    show "\<forall>v \<in> set interceptors. \<forall>g. v tx = Inr (Allow (Some g)) \<longrightarrow> sg \<noteq> None" using passed by blast
  qed (fact b(2), fact tx(3))
qed

theorem service_allows_unblocked_witness:
  "let req = \<lparr>im_url = ''/'', im_method = ''POST'', im_contentLength = None, im_contentType = Some ''application/json'',
        im_events = [Data ''{}'', End]\<rparr>;
       calm = (\<lambda>_. Inr (Allow None))
   in handleRequest zod_accepts (\<lambda>_. ''1'') (\<lambda>_. Some sample_rpc) 100 (runInterceptors [0] [calm]) req = Some (200, Allowed (JNum 1) None) \<and>
      (\<exists>tx. validateRpcRequest zod_accepts (\<lambda>_. ''1'') (\<lambda>_. Some sample_rpc) ''{}'' = RpcOk tx (JNum 1))"
proof -
  let ?req = "\<lparr>im_url = ''/'', im_method = ''POST'', im_contentLength = None, im_contentType = Some ''application/json'',
        im_events = [Data ''{}'', End]\<rparr> :: IncomingMessage"
  let ?calm = "(\<lambda>_. Inr (Allow None)) :: ProveTxnV3 \<Rightarrow> Verdict result"
  have h: "handleRequest zod_accepts (\<lambda>_. ''1'') (\<lambda>_. Some sample_rpc) 100 (runInterceptors [0] [?calm]) ?req =
      Some (200, Allowed (JNum 1) None)" by code_simp
  have "set [0] = {..<length [?calm]}" by auto
  from service_allows_unblocked [OF this h] h show ?thesis by (auto simp: Let_def)
qed

end
