(* ===== verification/Classifier.thy ===== *)
theory Classifier
  imports History "HOL-Library.Multiset"
begin

text \<open>
  The classification of history transactions into user-facing actions,
  \<open>sdk/src/internal/action-classifier.ts\<close>. The theorem is a conservation law: the actions account for
  every deposit, withdrawal, open-note deposit and note of the transaction, exactly once and with its
  amount; what is left out of an incoming transfer are fees only.
\<close>

section \<open>action-classifier.ts\<close>

record SwapLeg =
  leg_token :: int
  leg_amount :: int

datatype HistoryAction =
    HDeposit int int int                      \<comment> \<open>from, token, amount\<close>
  | HWithdrawal int int int                   \<comment> \<open>to, token, amount\<close>
  | HFee int int int
  | TransferSent int int int nat              \<comment> \<open>to, token, amount, number of notes\<close>
  | TransferReceived int int int nat
  | HSwap int "SwapLeg list" "SwapLeg list"   \<comment> \<open>executor, sent, received\<close>
  | TransferSelf int int nat
  | HRegister int

record ClassifiedTransaction =
  ct_blockNumber :: int
  ct_transactionHash :: int
  ct_actions :: "HistoryAction list"

record swap =
  sw_sent :: "SwapLeg list"
  sw_received :: "SwapLeg list"

definition addReceived :: "(int, swap) jsmap \<Rightarrow> HistoryOpenNoteDeposit \<Rightarrow> (int, swap) jsmap" where
  "addReceived swaps d =
     (let sw = (case jm_get swaps (ho_depositor d) of None \<Rightarrow> \<lparr>sw_sent = [], sw_received = []\<rparr> | Some sw \<Rightarrow> sw)
      in jm_set swaps (ho_depositor d)
           (sw\<lparr>sw_received := sw_received sw @ [\<lparr>leg_token = ho_token d, leg_amount = ho_amount d\<rparr>]\<rparr>))"

definition swapsByExecutor :: "HistoryOpenNoteDeposit list \<Rightarrow> (int, swap) jsmap" where
  "swapsByExecutor ds = foldl addReceived [] ds"

text \<open>The inner loop over the withdrawals for one executor: the matched indexes and the legs sent.\<close>

definition matchOne :: "int \<Rightarrow> nat list \<times> SwapLeg list \<Rightarrow> nat \<times> HistoryWithdrawal \<Rightarrow> nat list \<times> SwapLeg list" where
  "matchOne executor ms e =
     (if fst e \<in> set (fst ms) then ms
      else if hw_toAddress (snd e) = executor
      then (fst ms @ [fst e], snd ms @ [\<lparr>leg_token = hw_token (snd e), leg_amount = hw_amount (snd e)\<rparr>])
      else ms)"

definition matchSwap ::
  "HistoryWithdrawal list \<Rightarrow> nat list \<times> HistoryAction list \<Rightarrow> int \<times> swap \<Rightarrow> nat list \<times> HistoryAction list"
where
  "matchSwap ws s e =
     (let (matched, sent) = foldl (matchOne (fst e)) (fst s, sw_sent (snd e)) (enumerate 0 ws)
      in (matched, snd s @ [HSwap (fst e) sent (sw_received (snd e))]))"

definition detectSwaps :: "HistoryTransaction \<Rightarrow> nat list \<times> HistoryAction list" where
  "detectSwaps tx = foldl (matchSwap (ht_withdrawals tx)) ([], []) (swapsByExecutor (ht_openNoteDeposits tx))"

definition depositActions :: "HistoryTransaction \<Rightarrow> HistoryAction list" where
  "depositActions tx = map (\<lambda>d. HDeposit (hd_fromAddress d) (hd_token d) (hd_amount d)) (ht_deposits tx)"

definition withdrawalAction :: "int list \<Rightarrow> HistoryWithdrawal \<Rightarrow> HistoryAction" where
  "withdrawalAction feeRecipients w =
     (if hw_toAddress w \<in> set feeRecipients then HFee else HWithdrawal) (hw_toAddress w) (hw_token w) (hw_amount w)"

definition remainingWithdrawals :: "int list \<Rightarrow> nat list \<Rightarrow> HistoryWithdrawal list \<Rightarrow> HistoryAction list" where
  "remainingWithdrawals feeRecipients matched ws =
     map (\<lambda>(i, w). withdrawalAction feeRecipients w) (filter (\<lambda>(i, w). i \<notin> set matched) (enumerate 0 ws))"

text \<open>
  The string key \<open>kind:counterparty:token\<close> determines its three parts, as no printed part has a colon;
  it is the triple here.
\<close>

type_synonym note_key = "ChannelKind \<times> int \<times> int"

definition noteKey :: "HistoryNote \<Rightarrow> note_key" where
  "noteKey n = (hn_channelKind n, hn_counterparty n, hn_token n)"

record 'a aggregate =
  ag_note :: 'a
  ag_totalAmount :: int
  ag_noteCount :: nat

definition addNote :: "('k, 'a aggregate) jsmap \<Rightarrow> 'k \<Rightarrow> 'a \<Rightarrow> int \<Rightarrow> ('k, 'a aggregate) jsmap" where
  "addNote m k note amount = jm_set m k (case jm_get m k of
      Some a \<Rightarrow> a\<lparr>ag_totalAmount := ag_totalAmount a + amount, ag_noteCount := ag_noteCount a + 1\<rparr>
    | None \<Rightarrow> \<lparr>ag_note = note, ag_totalAmount = amount, ag_noteCount = 1\<rparr>)"

definition aggregateNotes :: "HistoryNote list \<Rightarrow> (note_key, HistoryNote aggregate) jsmap \<times> (int, HistoryNote aggregate) jsmap" where
  "aggregateNotes notes1 = foldl (\<lambda>(m, selfs) n.
      if hn_channelKind n = ''self_channel'' then (m, addNote selfs (hn_token n) n (hn_amount n))
      else (addNote m (noteKey n) n (hn_amount n), selfs)) ([], []) notes1"

definition transferAction :: "HistoryNote aggregate \<Rightarrow> HistoryAction" where
  "transferAction a =
     (if hn_channelKind (ag_note a) = ''outgoing''
      then TransferSent (hn_counterparty (ag_note a)) (hn_token (ag_note a)) (ag_totalAmount a) (ag_noteCount a)
      else TransferReceived (hn_counterparty (ag_note a)) (hn_token (ag_note a)) (ag_totalAmount a) (ag_noteCount a))"

definition isFee :: "HistoryAction \<Rightarrow> bool" where
  "isFee a = (case a of HFee _ _ _ \<Rightarrow> True | _ \<Rightarrow> False)"

definition isReceived :: "HistoryAction \<Rightarrow> bool" where
  "isReceived a = (case a of TransferReceived _ _ _ _ \<Rightarrow> True | _ \<Rightarrow> False)"

definition isSent :: "HistoryAction \<Rightarrow> bool" where
  "isSent a = (case a of TransferSent _ _ _ _ \<Rightarrow> True | _ \<Rightarrow> False)"

definition stripFees :: "HistoryAction list \<Rightarrow> HistoryAction list" where
  "stripFees actions =
     (if list_ex isReceived actions \<and> \<not> list_ex isSent actions then filter (\<lambda>a. \<not> isFee a) actions else actions)"

definition classifiedActions :: "int list \<Rightarrow> HistoryTransaction \<Rightarrow> HistoryAction list" where
  "classifiedActions feeRecipients tx =
     (let (matched, swaps) = detectSwaps tx;
          (aggregates, selfs) = aggregateNotes (ht_notes tx);
          actions = swaps @ depositActions tx @ remainingWithdrawals feeRecipients matched (ht_withdrawals tx) @
                    map (transferAction \<circ> snd) aggregates
      in if filter (\<lambda>a. \<not> isFee a) actions = []
         then actions @ map (\<lambda>(token, a). TransferSelf token (ag_totalAmount a) (ag_noteCount a)) selfs
         else actions)"

definition classifyTransaction :: "HistoryTransaction \<Rightarrow> int list option \<Rightarrow> ClassifiedTransaction" where
  "classifyTransaction tx feeRecipients =
     \<lparr>ct_blockNumber = ht_blockNumber tx, ct_transactionHash = ht_transactionHash tx,
      ct_actions = (case ht_registeredPubkey tx of
          Some pk \<Rightarrow> [HRegister pk]
        | None \<Rightarrow> stripFees (classifiedActions (optl feeRecipients) tx))\<rparr>"

section \<open>What the actions account for\<close>

text \<open>The withdrawals an action stands for: recipient, token and amount.\<close>

definition withdrawn :: "HistoryAction \<Rightarrow> (int \<times> int \<times> int) multiset" where
  "withdrawn a = (case a of
      HWithdrawal to t x \<Rightarrow> {#(to, t, x)#}
    | HFee to t x \<Rightarrow> {#(to, t, x)#}
    | HSwap ex sent _ \<Rightarrow> mset (map (\<lambda>l. (ex, leg_token l, leg_amount l)) sent)
    | _ \<Rightarrow> {#})"

definition funded :: "HistoryAction \<Rightarrow> (int \<times> int \<times> int) multiset" where
  "funded a = (case a of HSwap ex _ received \<Rightarrow> mset (map (\<lambda>l. (ex, leg_token l, leg_amount l)) received) | _ \<Rightarrow> {#})"

definition deposited :: "HistoryAction \<Rightarrow> (int \<times> int \<times> int) list" where
  "deposited a = (case a of HDeposit from t x \<Rightarrow> [(from, t, x)] | _ \<Rightarrow> [])"

text \<open>The channel kind, counterparty and token an action reports a transfer for, with the amount and the number of notes.\<close>

definition transferOf :: "HistoryAction \<Rightarrow> (note_key \<times> int \<times> nat) option" where
  "transferOf a = (case a of
      TransferSent c t x n \<Rightarrow> Some ((''outgoing'', c, t), x, n)
    | TransferReceived c t x n \<Rightarrow> Some ((''incoming'', c, t), x, n)
    | _ \<Rightarrow> None)"

definition withdrawal_key :: "HistoryWithdrawal \<Rightarrow> int \<times> int \<times> int" where
  "withdrawal_key w = (hw_toAddress w, hw_token w, hw_amount w)"

abbreviation total :: "('a \<Rightarrow> 'b multiset) \<Rightarrow> 'a list \<Rightarrow> 'b multiset" where
  "total f xs \<equiv> \<Sum>\<^sub># (mset (map f xs))"

subsection \<open>Withdrawals\<close>

lemma matchOne_run:
  assumes "\<forall>i \<in> set m. i < k \<or> i \<in> set m0" "set m0 \<subseteq> set m"
  shows "foldl (matchOne ex) (m, sent) (enumerate k ws) =
    (let es = filter (\<lambda>(i, w). i \<notin> set m0 \<and> hw_toAddress w = ex) (enumerate k ws)
     in (m @ map fst es, sent @ map (\<lambda>(i, w). \<lparr>leg_token = hw_token w, leg_amount = hw_amount w\<rparr>) es))"
  using assms
proof (induction ws arbitrary: k m sent)
  case (Cons w ws)
  have mem: "k \<in> set m \<longleftrightarrow> k \<in> set m0" using Cons(2,3) by blast
  have later: "\<forall>i \<in> set m'. i < Suc k \<or> i \<in> set m0" "set m0 \<subseteq> set m'" if "m' = m \<or> m' = m @ [k]" for m'
  proof -
    have "set m' \<subseteq> insert k (set m)" using that by auto
    then show "\<forall>i \<in> set m'. i < Suc k \<or> i \<in> set m0" using Cons(2) by (fastforce simp: less_Suc_eq)
    show "set m0 \<subseteq> set m'" using that Cons(3) by auto
  qed
  show ?case
    using Cons(1) [OF later, of m sent] Cons(1) [OF later, of "m @ [k]" "sent @ [\<lparr>leg_token = hw_token w, leg_amount = hw_amount w\<rparr>]"] mem
    by (simp add: matchOne_def Let_def)
qed simp

lemma enumerate_nth: "enumerate 0 xs = map (\<lambda>i. (i, xs ! i)) [0..<length xs]"
  by (rule nth_equalityI) (simp_all add: nth_enumerate_eq)

definition matches :: "HistoryWithdrawal list \<Rightarrow> nat list \<Rightarrow> int \<Rightarrow> nat list" where
  "matches ws m ex = filter (\<lambda>i. i \<notin> set m \<and> hw_toAddress (ws ! i) = ex) [0..<length ws]"

lemma matchSwap_run:
  "matchSwap ws (m, acts) (ex, sw) =
     (m @ matches ws m ex, acts @ [HSwap ex (sw_sent sw @ map (\<lambda>i. \<lparr>leg_token = hw_token (ws ! i), leg_amount = hw_amount (ws ! i)\<rparr>)
        (matches ws m ex)) (sw_received sw)])"
  using matchOne_run [of m 0 m ex "sw_sent sw" ws]
  by (simp add: matchSwap_def Let_def enumerate_nth matches_def filter_map comp_def)

lemma swaps_account:
  assumes "\<forall>e \<in> set es. sw_sent (snd e) = []" "distinct m" "set m \<subseteq> {..<length ws}"
    and "total withdrawn acts = mset (map (\<lambda>i. withdrawal_key (ws ! i)) m)"
    and "foldl (matchSwap ws) (m, acts) es = (m', acts')"
  shows "distinct m' \<and> set m' \<subseteq> {..<length ws} \<and> total withdrawn acts' = mset (map (\<lambda>i. withdrawal_key (ws ! i)) m')"
  using assms
proof (induction es arbitrary: m acts)
  case (Cons e es)
  obtain ex sw where e: "e = (ex, sw)" by (cases e)
  let ?ms = "matches ws m ex"
  let ?a = "HSwap ex (map (\<lambda>i. \<lparr>leg_token = hw_token (ws ! i), leg_amount = hw_amount (ws ! i)\<rparr>) ?ms) (sw_received sw)"
  have run: "matchSwap ws (m, acts) e = (m @ ?ms, acts @ [?a])" using Cons(2) e by (simp add: matchSwap_run)
  have to: "map (\<lambda>i. (ex, hw_token (ws ! i), hw_amount (ws ! i))) ?ms = map (\<lambda>i. withdrawal_key (ws ! i)) ?ms"
    by (auto simp: matches_def withdrawal_key_def)
  have "withdrawn ?a = mset (map (\<lambda>i. withdrawal_key (ws ! i)) ?ms)"
    unfolding to [symmetric] by (simp add: withdrawn_def multiset.map_comp comp_def)
  moreover have "distinct (m @ ?ms)" "set (m @ ?ms) \<subseteq> {..<length ws}"
    using Cons(3,4) by (auto simp: matches_def)
  ultimately show ?case using Cons(1) [of "m @ ?ms" "acts @ [?a]"] Cons(2,5,6) run by simp
qed simp

lemma addReceived_sent:
  "\<forall>e \<in> set swaps. sw_sent (snd e) = [] \<Longrightarrow> \<forall>e \<in> set (addReceived swaps d). sw_sent (snd e) = []"
proof
  fix e assume a: "\<forall>e \<in> set swaps. sw_sent (snd e) = []" "e \<in> set (addReceived swaps d)"
  then show "sw_sent (snd e) = []"
    using jm_set_entries [of swaps "ho_depositor d"] jm_get_mem [of swaps "ho_depositor d"]
    by (fastforce simp: addReceived_def Let_def split: option.splits)
qed

lemma swaps_unsent: "\<forall>e \<in> set (swapsByExecutor ds). sw_sent (snd e) = []"
proof -
  have "\<forall>e \<in> set (foldl addReceived swaps ds). sw_sent (snd e) = []" if "\<forall>e \<in> set swaps. sw_sent (snd e) = []" for swaps
    using that
  proof (induction ds arbitrary: swaps)
    case (Cons d ds)
    from Cons(1) [OF addReceived_sent [OF Cons(2)]] show ?case by simp
  qed simp
  from this [of "[]"] show ?thesis by (simp add: swapsByExecutor_def)
qed

lemma remaining_account:
  "total withdrawn (remainingWithdrawals fees m ws) = mset (map (\<lambda>i. withdrawal_key (ws ! i)) (filter (\<lambda>i. i \<notin> set m) [0..<length ws]))"
proof -
  have "withdrawn (withdrawalAction fees w) = {#withdrawal_key w#}" for w
    by (simp add: withdrawalAction_def withdrawn_def withdrawal_key_def)
  then show ?thesis
    by (simp add: remainingWithdrawals_def enumerate_nth filter_map comp_def split_def)
qed

lemma split_indices:
  assumes "distinct m" "set m \<subseteq> {..<n}"
  shows "mset m + mset (filter (\<lambda>i. i \<notin> set m) [0..<n]) = mset [0..<n]"
proof -
  have "mset (filter (\<lambda>i. i \<in> set m) [0..<n]) = mset m"
    by (rule set_eq_iff_mset_eq_distinct [THEN iffD1]) (use assms in auto)
  moreover have "mset (filter P xs) + mset (filter (\<lambda>x. \<not> P x) xs) = mset xs" for P and xs :: "nat list"
    by (induction xs) simp_all
  ultimately show ?thesis by metis
qed

lemma withdrawals_account:
  assumes "detectSwaps tx = (m, swaps)"
  shows "total withdrawn swaps + total withdrawn (remainingWithdrawals fees m (ht_withdrawals tx)) =
    mset (map withdrawal_key (ht_withdrawals tx))"
proof -
  let ?ws = "ht_withdrawals tx"
  have acc: "distinct m \<and> set m \<subseteq> {..<length ?ws} \<and> total withdrawn swaps = mset (map (\<lambda>i. withdrawal_key (?ws ! i)) m)"
    using swaps_account [OF swaps_unsent, of "[]" ?ws "[]"] assms by (simp add: detectSwaps_def)
  have "mset (map (\<lambda>i. withdrawal_key (?ws ! i)) m) +
      mset (map (\<lambda>i. withdrawal_key (?ws ! i)) (filter (\<lambda>i. i \<notin> set m) [0..<length ?ws])) =
    image_mset (\<lambda>i. withdrawal_key (?ws ! i)) (mset [0..<length ?ws])"
    using arg_cong [OF split_indices [of m "length ?ws"], of "image_mset (\<lambda>i. withdrawal_key (?ws ! i))"] acc
    by (simp only: image_mset_union mset_map)
  also have "\<dots> = mset (map withdrawal_key ?ws)"
    by (metis (no_types, lifting) map_nth mset_map map_map comp_def map_cong)
  finally show ?thesis using acc by (simp only: remaining_account)
qed

subsection \<open>Open-note deposits\<close>

definition funding_key :: "HistoryOpenNoteDeposit \<Rightarrow> int \<times> int \<times> int" where
  "funding_key d = (ho_depositor d, ho_token d, ho_amount d)"

definition entry_received :: "int \<times> swap \<Rightarrow> (int \<times> int \<times> int) multiset" where
  "entry_received e = mset (map (\<lambda>l. (fst e, leg_token l, leg_amount l)) (sw_received (snd e)))"

lemma total_jm_set:
  "total f (jm_set m k v) + (case jm_get m k of None \<Rightarrow> {#} | Some u \<Rightarrow> f (k, u)) = total f m + f (k, v)"
  by (induction m k v rule: jm_set.induct) (auto simp: ac_simps split: option.splits)

lemma received_account: "total entry_received (swapsByExecutor ds) = mset (map funding_key ds)"
proof -
  have step: "total entry_received (addReceived swaps d) = total entry_received swaps + {#funding_key d#}" for swaps d
  proof (cases "jm_get swaps (ho_depositor d)")
    case None
    then show ?thesis
      using total_jm_set [of entry_received swaps "ho_depositor d" "\<lparr>sw_sent = [], sw_received = [\<lparr>leg_token = ho_token d, leg_amount = ho_amount d\<rparr>]\<rparr>"]
      by (simp add: addReceived_def entry_received_def funding_key_def Let_def)
  next
    case (Some sw)
    let ?sw = "sw\<lparr>sw_received := sw_received sw @ [\<lparr>leg_token = ho_token d, leg_amount = ho_amount d\<rparr>]\<rparr>"
    have "entry_received (ho_depositor d, ?sw) = entry_received (ho_depositor d, sw) + {#funding_key d#}"
      by (simp add: entry_received_def funding_key_def)
    with Some total_jm_set [of entry_received swaps "ho_depositor d" ?sw] show ?thesis
      by (simp add: addReceived_def Let_def)
  qed
  have "total entry_received (foldl addReceived swaps ds) = total entry_received swaps + mset (map funding_key ds)" for swaps
    by (induction ds arbitrary: swaps) (simp_all add: step [unfolded mset_map])
  from this [of "[]"] show ?thesis by (simp add: swapsByExecutor_def)
qed

lemma swaps_received: "foldl (matchSwap ws) (m, acts) es = (m', acts') \<Longrightarrow>
    total funded acts' = total funded acts + total entry_received es"
proof (induction es arbitrary: m acts)
  case (Cons e es)
  obtain ex sw where e: "e = (ex, sw)" by (cases e)
  obtain a where a: "matchSwap ws (m, acts) e = (m @ matches ws m ex, acts @ [a])" "funded a = entry_received e"
    using e by (simp add: matchSwap_run funded_def entry_received_def)
  from Cons(1) [of "m @ matches ws m ex" "acts @ [a]"] Cons(2) a show ?case by (simp add: ac_simps)
qed simp

subsection \<open>Notes\<close>

lemma addNote_get:
  "jm_get (foldl (\<lambda>m n. addNote m (f n) n (amt n)) m ns) k =
     (let hits = filter (\<lambda>n. f n = k) ns in
      case jm_get m k of
        Some a \<Rightarrow> Some (a\<lparr>ag_totalAmount := ag_totalAmount a + sum_list (map amt hits), ag_noteCount := ag_noteCount a + length hits\<rparr>)
      | None \<Rightarrow> (case hits of [] \<Rightarrow> None
          | h # _ \<Rightarrow> Some \<lparr>ag_note = h, ag_totalAmount = sum_list (map amt hits), ag_noteCount = length hits\<rparr>))"
  by (induction ns arbitrary: m) (auto simp: addNote_def Let_def split: option.splits list.splits)

lemma addNote_wf: "jm_wf m \<Longrightarrow> jm_wf (foldl (\<lambda>m n. addNote m (f n) n (amt n)) m ns)"
  by (induction ns arbitrary: m) (simp_all add: addNote_def)

lemma aggregateNotes_split:
  "aggregateNotes ns =
     (foldl (\<lambda>m n. addNote m (noteKey n) n (hn_amount n)) [] (filter (\<lambda>n. hn_channelKind n \<noteq> ''self_channel'') ns),
      foldl (\<lambda>m n. addNote m (hn_token n) n (hn_amount n)) [] (filter (\<lambda>n. hn_channelKind n = ''self_channel'') ns))"
proof -
  have "foldl (\<lambda>(m, selfs) n. if hn_channelKind n = ''self_channel'' then (m, addNote selfs (hn_token n) n (hn_amount n))
      else (addNote m (noteKey n) n (hn_amount n), selfs)) (a, b) ns =
     (foldl (\<lambda>m n. addNote m (noteKey n) n (hn_amount n)) a (filter (\<lambda>n. hn_channelKind n \<noteq> ''self_channel'') ns),
      foldl (\<lambda>m n. addNote m (hn_token n) n (hn_amount n)) b (filter (\<lambda>n. hn_channelKind n = ''self_channel'') ns))" for a b
    by (induction ns arbitrary: a b) simp_all
  then show ?thesis by (simp add: aggregateNotes_def)
qed

lemma map_filter_total: "(\<And>x. x \<in> set xs \<Longrightarrow> f (g x) = Some (h x)) \<Longrightarrow> List.map_filter f (map g xs) = map h xs"
  by (induction xs) (simp_all add: List.map_filter_simps)

lemma aggregates_exact:
  assumes "\<forall>n \<in> set ns. hn_channelKind n \<in> {''incoming'', ''outgoing'', ''self_channel''}"
  defines "m \<equiv> fst (aggregateNotes ns)"
  shows "List.map_filter transferOf (map (transferAction \<circ> snd) m) = map (\<lambda>(k, a). (k, ag_totalAmount a, ag_noteCount a)) m" (is ?transfers)
    and "distinct (map fst m)"
    and "(k, a) \<in> set m \<longleftrightarrow> fst k \<noteq> ''self_channel'' \<and> filter (\<lambda>n. noteKey n = k) ns \<noteq> [] \<and>
       a = \<lparr>ag_note = hd (filter (\<lambda>n. noteKey n = k) ns), ag_totalAmount = sum_list (map hn_amount (filter (\<lambda>n. noteKey n = k) ns)),
            ag_noteCount = length (filter (\<lambda>n. noteKey n = k) ns)\<rparr>" (is "?mem k a")
proof -
  let ?ns = "filter (\<lambda>n. hn_channelKind n \<noteq> ''self_channel'') ns"
  have m: "m = foldl (\<lambda>m n. addNote m (noteKey n) n (hn_amount n)) [] ?ns" by (simp add: m_def aggregateNotes_split)
  have wf: "jm_wf m" unfolding m by (rule addNote_wf) simp
  show "distinct (map fst m)" using wf by (simp add: jm_wf_def)
  have hits: "filter (\<lambda>n. noteKey n = k) ?ns = (if fst k = ''self_channel'' then [] else filter (\<lambda>n. noteKey n = k) ns)" for k
  proof (cases "fst k = ''self_channel''")
    case True
    then show ?thesis by (auto simp: filter_empty_conv noteKey_def)
  next
    case False
    then have "filter (\<lambda>n. noteKey n = k) ?ns = filter (\<lambda>n. noteKey n = k) ns"
      unfolding filter_filter by (intro filter_cong) (auto simp: noteKey_def)
    with False show ?thesis by simp
  qed
  show mem: "?mem k a" for k a
    unfolding jm_wf_entry [OF wf] unfolding m addNote_get Let_def hits
    by (auto split: list.split)
  have "transferOf (transferAction a) = Some (k, ag_totalAmount a, ag_noteCount a)" if "(k, a) \<in> set m" for k a
  proof -
    from that mem have h: "filter (\<lambda>n. noteKey n = k) ns \<noteq> []" "ag_note a = hd (filter (\<lambda>n. noteKey n = k) ns)" "fst k \<noteq> ''self_channel''"
      by auto
    then have "noteKey (ag_note a) = k" "ag_note a \<in> set ns"
      using hd_in_set [OF h(1)] by simp_all
    with assms(1) h(3) show ?thesis by (fastforce simp: noteKey_def transferAction_def transferOf_def)
  qed
  then show ?transfers by (intro map_filter_total) auto
qed

section \<open>Conservation\<close>

lemma swaps_only: "foldl (matchSwap ws) (m, acts) es = (m', acts') \<Longrightarrow>
    \<exists>sw. acts' = acts @ sw \<and> (\<forall>a \<in> set sw. \<exists>ex s r. a = HSwap ex s r)"
proof (induction es arbitrary: m acts)
  case (Cons e es)
  obtain ex sw where e: "e = (ex, sw)" by (cases e)
  obtain s where step: "matchSwap ws (m, acts) e = (m @ matches ws m ex, acts @ [HSwap ex s (sw_received sw)])"
    using e by (simp add: matchSwap_run)
  from Cons(1) [of "m @ matches ws m ex" "acts @ [HSwap ex s (sw_received sw)]"] Cons(2) step
  obtain rest where "acts' = (acts @ [HSwap ex s (sw_received sw)]) @ rest" "\<forall>a \<in> set rest. \<exists>ex s r. a = HSwap ex s r" by auto
  then show ?case by (intro exI [of _ "HSwap ex s (sw_received sw) # rest"]) auto
qed simp

text \<open>What each part of the actions contributes.\<close>

lemma total_empty: "(\<And>a. a \<in> set as \<Longrightarrow> f a = {#}) \<Longrightarrow> total f as = {#}"
  by (induction as) auto

lemma total_append: "total f (xs @ ys) = total f xs + total f ys"
  by simp

lemma classified_account:
  fixes fees :: "int list"
  assumes "\<forall>n \<in> set (ht_notes tx). hn_channelKind n \<in> {''incoming'', ''outgoing'', ''self_channel''}"
  defines "acts \<equiv> classifiedActions fees tx"
  shows "total withdrawn acts = mset (map withdrawal_key (ht_withdrawals tx))"
    "total funded acts = mset (map funding_key (ht_openNoteDeposits tx))"
    "concat (map deposited acts) = map (\<lambda>d. (hd_fromAddress d, hd_token d, hd_amount d)) (ht_deposits tx)"
    "List.map_filter transferOf acts =
       map (\<lambda>(k, a). (k, ag_totalAmount a, ag_noteCount a)) (fst (aggregateNotes (ht_notes tx)))"
    "\<And>a. a \<in> set acts \<Longrightarrow> isFee a \<Longrightarrow> \<exists>to t x. to \<in> set fees \<and> a = HFee to t x"
proof -
  obtain m swaps where sw: "detectSwaps tx = (m, swaps)" by (cases "detectSwaps tx")
  let ?dep = "depositActions tx" and ?wd = "remainingWithdrawals fees m (ht_withdrawals tx)"
  let ?tr = "map (transferAction \<circ> snd) (fst (aggregateNotes (ht_notes tx)))"
  obtain selfs where acts: "acts = swaps @ ?dep @ ?wd @ ?tr @ selfs" and
    selfs: "\<forall>a \<in> set selfs. \<exists>t x n. a = TransferSelf t x n"
  proof (cases "filter (\<lambda>a. \<not> isFee a) (swaps @ ?dep @ ?wd @ ?tr) = []")
    case True
    then show thesis using sw that [of "map (\<lambda>(token, a). TransferSelf token (ag_totalAmount a) (ag_noteCount a)) (snd (aggregateNotes (ht_notes tx)))"]
      by (auto simp: acts_def classifiedActions_def Let_def split_def)
  next
    case False
    then show thesis using sw that [of "[]"] by (auto simp: acts_def classifiedActions_def Let_def split_def)
  qed
  have swaps: "\<forall>a \<in> set swaps. \<exists>ex s r. a = HSwap ex s r"
    using swaps_only [of "ht_withdrawals tx" "[]" "[]"] sw by (auto simp: detectSwaps_def)
  have dep: "\<forall>a \<in> set ?dep. \<exists>p t x. a = HDeposit p t x" by (auto simp: depositActions_def)
  have wd: "\<forall>a \<in> set ?wd. \<exists>p t x. a = HWithdrawal p t x \<or> a = HFee p t x \<and> p \<in> set fees"
    by (auto simp: remainingWithdrawals_def withdrawalAction_def)
  have tr: "\<forall>a \<in> set ?tr. \<exists>p t x n. a = TransferSent p t x n \<or> a = TransferReceived p t x n"
    by (auto simp: transferAction_def)
  have quietW: "total withdrawn ?dep = {#}" "total withdrawn ?tr = {#}" "total withdrawn selfs = {#}"
    by (rule total_empty, use dep tr selfs in \<open>fastforce simp: withdrawn_def\<close>)+
  show "total withdrawn acts = mset (map withdrawal_key (ht_withdrawals tx))"
    using withdrawals_account [OF sw, of fees] by (simp only: acts total_append quietW add_0_left add_0_right)
  have quietF: "total funded ?dep = {#}" "total funded ?wd = {#}" "total funded ?tr = {#}" "total funded selfs = {#}"
    by (rule total_empty, use dep wd tr selfs in \<open>fastforce simp: funded_def\<close>)+
  show "total funded acts = mset (map funding_key (ht_openNoteDeposits tx))"
    using swaps_received [OF sw [unfolded detectSwaps_def]]
    by (simp only: acts total_append quietF add_0_left add_0_right received_account) simp
  have none: "concat (map deposited as) = []" if "\<forall>a \<in> set as. deposited a = []" for as using that by (induction as) auto
  show "concat (map deposited acts) = map (\<lambda>d. (hd_fromAddress d, hd_token d, hd_amount d)) (ht_deposits tx)"
  proof -
    have "concat (map deposited swaps) = []" "concat (map deposited ?wd) = []" "concat (map deposited ?tr) = []" "concat (map deposited selfs) = []"
      using swaps wd tr selfs by (intro none; fastforce simp: deposited_def)+
    moreover have "concat (map deposited ?dep) = map (\<lambda>d. (hd_fromAddress d, hd_token d, hd_amount d)) (ht_deposits tx)"
      by (simp add: depositActions_def deposited_def comp_def)
    ultimately show ?thesis by (simp only: acts map_append concat_append append_Nil append_Nil2)
  qed
  have quiet: "List.map_filter transferOf as = []" if "\<forall>a \<in> set as. transferOf a = None" for as
    using that by (induction as) (auto simp: List.map_filter_def)
  show "List.map_filter transferOf acts =
       map (\<lambda>(k, a). (k, ag_totalAmount a, ag_noteCount a)) (fst (aggregateNotes (ht_notes tx)))"
  proof -
    have "List.map_filter transferOf swaps = []" "List.map_filter transferOf ?wd = []" "List.map_filter transferOf ?dep = []"
      "List.map_filter transferOf selfs = []"
      using swaps wd dep selfs by (intro quiet; fastforce simp: transferOf_def)+
    then show ?thesis unfolding acts using aggregates_exact(1) [OF assms(1)] by (simp add: map_filter_def)
  qed
  show "\<exists>to t x. to \<in> set fees \<and> a = HFee to t x" if "a \<in> set acts" "isFee a" for a
  proof -
    have "a \<in> set swaps \<or> a \<in> set ?dep \<or> a \<in> set ?wd \<or> a \<in> set ?tr \<or> a \<in> set selfs" using that(1) acts by auto
    with that(2) swaps dep wd tr selfs show ?thesis by (elim disjE) (fastforce simp: isFee_def)+
  qed
qed

text \<open>
  C21: Classification loses nothing and invents nothing. For a transaction that is not a registration,
  the withdrawals are exactly those that the actions report, as withdrawal, as fee or as a leg of a
  swap, except that an incoming transfer leaves out withdrawals to fee recipients; the open-note
  deposits are exactly the received legs of the swaps; the deposits come out in order; and for every
  channel kind, counterparty and token with notes there is exactly one transfer, with the sum of their
  amounts and their number.
\<close>

theorem classify_conserves:
  fixes feeRecipients :: "int list option"
  assumes "ht_registeredPubkey tx = None"
    and "\<forall>n \<in> set (ht_notes tx). hn_channelKind n \<in> {''incoming'', ''outgoing'', ''self_channel''}"
  defines "acts \<equiv> ct_actions (classifyTransaction tx feeRecipients)"
  shows "(\<exists>stripped. total withdrawn acts + stripped = mset (map withdrawal_key (ht_withdrawals tx)) \<and>
      (\<forall>x. x \<in># stripped \<longrightarrow> fst x \<in> set (optl feeRecipients) \<and> list_ex isReceived acts \<and> \<not> list_ex isSent acts)) \<and>
    total funded acts = mset (map funding_key (ht_openNoteDeposits tx)) \<and>
    concat (map deposited acts) = map (\<lambda>d. (hd_fromAddress d, hd_token d, hd_amount d)) (ht_deposits tx) \<and>
    distinct (map fst (List.map_filter transferOf acts)) \<and>
    (\<forall>k x c. (k, x, c) \<in> set (List.map_filter transferOf acts) \<longleftrightarrow>
       (let hits = filter (\<lambda>n. noteKey n = k) (ht_notes tx) in
        fst k \<noteq> ''self_channel'' \<and> hits \<noteq> [] \<and> x = sum_list (map hn_amount hits) \<and> c = length hits))"
proof -
  let ?all = "classifiedActions (optl feeRecipients) tx"
  note account = classified_account [OF assms(2), where fees = "optl feeRecipients"]
  have acts: "acts = stripFees ?all" using assms(1) by (simp add: acts_def classifyTransaction_def)
  have fee: "funded a = {#}" "deposited a = []" "transferOf a = None" "\<not> isReceived a" "\<not> isSent a" if "isFee a" for a
    using that by (cases a; simp add: isFee_def funded_def deposited_def transferOf_def isReceived_def isSent_def)+
  have kept: "total funded (filter (\<lambda>a. \<not> isFee a) as) = total funded as"
    "concat (map deposited (filter (\<lambda>a. \<not> isFee a) as)) = concat (map deposited as)"
    "List.map_filter transferOf (filter (\<lambda>a. \<not> isFee a) as) = List.map_filter transferOf as"
    "list_ex isReceived (filter (\<lambda>a. \<not> isFee a) as) = list_ex isReceived as"
    "list_ex isSent (filter (\<lambda>a. \<not> isFee a) as) = list_ex isSent as" for as
    by (induction as) (auto simp: fee List.map_filter_simps split: option.split)
  have same: "total funded acts = total funded ?all" "concat (map deposited acts) = concat (map deposited ?all)"
    "List.map_filter transferOf acts = List.map_filter transferOf ?all"
    "list_ex isReceived acts = list_ex isReceived ?all" "list_ex isSent acts = list_ex isSent ?all"
    unfolding acts stripFees_def using kept by simp_all
  have "\<exists>stripped. total withdrawn acts + stripped = mset (map withdrawal_key (ht_withdrawals tx)) \<and>
      (\<forall>x. x \<in># stripped \<longrightarrow> fst x \<in> set (optl feeRecipients) \<and> list_ex isReceived acts \<and> \<not> list_ex isSent acts)"
  proof (cases "list_ex isReceived ?all \<and> \<not> list_ex isSent ?all")
    case True
    have part: "total withdrawn (filter (\<lambda>a. \<not> isFee a) as) + total withdrawn (filter isFee as) = total withdrawn as" for as
      by (induction as) (auto simp: ac_simps)
    have "fst x \<in> set (optl feeRecipients)" if "x \<in># total withdrawn (filter isFee ?all)" for x
    proof -
      from that obtain a where "a \<in> set ?all" "isFee a" "x \<in># withdrawn a" by auto
      with account(5) show ?thesis by (fastforce simp: withdrawn_def)
    qed
    with True part [of ?all] account(1) same(4,5) show ?thesis
      by (intro exI [of _ "total withdrawn (filter isFee ?all)"]) (simp add: acts stripFees_def)
  next
    case False
    then have "acts = ?all" using acts by (auto simp: stripFees_def)
    then show ?thesis using account(1) by (intro exI [of _ "{#}"]) simp
  qed
  moreover have "distinct (map fst (List.map_filter transferOf acts))"
    using aggregates_exact(2) [OF assms(2)] unfolding same(3) account(4) by (simp add: comp_def split_def)
  moreover have "(k, x, c) \<in> set (List.map_filter transferOf acts) \<longleftrightarrow>
       (let hits = filter (\<lambda>n. noteKey n = k) (ht_notes tx) in
        fst k \<noteq> ''self_channel'' \<and> hits \<noteq> [] \<and> x = sum_list (map hn_amount hits) \<and> c = length hits)" for k x c
  proof -
    have "(k, x, c) \<in> set (List.map_filter transferOf acts) \<longleftrightarrow>
        (\<exists>a. (k, a) \<in> set (fst (aggregateNotes (ht_notes tx))) \<and> x = ag_totalAmount a \<and> c = ag_noteCount a)"
      unfolding same(3) account(4) by force
    then show ?thesis unfolding aggregates_exact(3) [OF assms(2)] Let_def by auto
  qed
  ultimately show ?thesis using same account(2,3) by simp
qed

definition sample_history :: HistoryTransaction where
  "sample_history = \<lparr>ht_blockNumber = 5, ht_transactionHash = 9,
     ht_notes = [\<lparr>hn_channelKind = ''incoming'', hn_token = 1, hn_noteIndex = 0, hn_noteId = 7, hn_counterparty = 3, hn_amount = 10, hn_salt = 0\<rparr>,
       \<lparr>hn_channelKind = ''incoming'', hn_token = 1, hn_noteIndex = 1, hn_noteId = 8, hn_counterparty = 3, hn_amount = 5, hn_salt = 0\<rparr>],
     ht_deposits = [], ht_withdrawals = [\<lparr>hw_toAddress = 99, hw_token = 1, hw_amount = 2\<rparr>], ht_openNoteDeposits = [], ht_registeredPubkey = None\<rparr>"

theorem classify_conserves_witness:
  "((''incoming'', 3, 1), 15, 2) \<in> set (List.map_filter transferOf (ct_actions (classifyTransaction sample_history (Some [99]))))"
proof -
  have h: "ht_registeredPubkey sample_history = None"
    "\<forall>n \<in> set (ht_notes sample_history). hn_channelKind n \<in> {''incoming'', ''outgoing'', ''self_channel''}"
    by (simp_all add: sample_history_def)
  from classify_conserves [OF h, of "Some [99]"] show ?thesis
    by (simp add: Let_def sample_history_def noteKey_def)
qed

end
