(* ===== verification/Retries.thy ===== *)
theory Retries
  imports Prelude "HOL-Library.Multiset"
begin

text \<open>
  Retries and the concurrency limiter: \<open>sdk/src/utils/rate-limiter.ts\<close> and the transport of
  \<open>sdk/src/internal/proving-service.ts\<close>. A remote call is a sequence of answers, one per attempt. The
  limiter is a step relation over calls that are running, queued, or woken but not yet resumed: the
  wake-up of a queued call resolves a promise, and its continuation runs later. The theorems: no
  queued call is lost and every run drains; the bound on running calls holds as long as no new call
  arrives between a wake-up and its continuation, and fails otherwise; a retried call returns the
  first success within its budget and retries only what is transient.
\<close>

section \<open>createLimiter\<close>

record 'a limiter =
  lm_active :: "'a list"        \<comment> \<open>the calls whose function runs; \<open>active\<close> is their number\<close>
  lm_queue :: "'a list"
  lm_woken :: "'a list"         \<comment> \<open>taken off the queue, continuation not yet run\<close>
  lm_done :: "'a list"

definition idle_limiter :: "'a limiter" where
  "idle_limiter = \<lparr>lm_active = [], lm_queue = [], lm_woken = [], lm_done = []\<rparr>"

definition lm_call :: "nat \<Rightarrow> 'a \<Rightarrow> 'a limiter \<Rightarrow> 'a limiter" where
  "lm_call concurrency c s =
     (if length (lm_active s) \<ge> concurrency then s\<lparr>lm_queue := lm_queue s @ [c]\<rparr>
      else s\<lparr>lm_active := c # lm_active s\<rparr>)"

definition lm_finish :: "'a \<Rightarrow> 'a limiter \<Rightarrow> 'a limiter" where
  "lm_finish c s =
     (let s' = s\<lparr>lm_active := remove1 c (lm_active s), lm_done := c # lm_done s\<rparr> in
      case lm_queue s' of
        [] \<Rightarrow> s'
      | q # qs \<Rightarrow> s'\<lparr>lm_queue := qs, lm_woken := lm_woken s' @ [q]\<rparr>)"

definition lm_resume :: "'a \<Rightarrow> 'a limiter \<Rightarrow> 'a limiter" where
  "lm_resume c s = s\<lparr>lm_woken := remove1 c (lm_woken s), lm_active := c # lm_active s\<rparr>"

inductive lm_step :: "nat \<Rightarrow> 'a limiter \<Rightarrow> 'a limiter \<Rightarrow> bool" for concurrency :: nat where
  call: "lm_step concurrency s (lm_call concurrency c s)"
| finish: "c \<in> set (lm_active s) \<Longrightarrow> lm_step concurrency s (lm_finish c s)"
| resume: "c \<in> set (lm_woken s) \<Longrightarrow> lm_step concurrency s (lm_resume c s)"

text \<open>The steps that need no new call.\<close>

inductive lm_internal :: "'a limiter \<Rightarrow> 'a limiter \<Rightarrow> bool" where
  finish: "c \<in> set (lm_active s) \<Longrightarrow> lm_internal s (lm_finish c s)"
| resume: "c \<in> set (lm_woken s) \<Longrightarrow> lm_internal s (lm_resume c s)"

inductive lm_reachable :: "nat \<Rightarrow> 'a limiter \<Rightarrow> bool" for concurrency :: nat where
  initial: "lm_reachable concurrency idle_limiter"
| step: "lm_reachable concurrency s \<Longrightarrow> lm_step concurrency s s' \<Longrightarrow> lm_reachable concurrency s'"

text \<open>Reachable when every woken call resumes before the next call arrives.\<close>

inductive lm_prompt :: "nat \<Rightarrow> 'a limiter \<Rightarrow> bool" for concurrency :: nat where
  initial: "lm_prompt concurrency idle_limiter"
| call: "lm_prompt concurrency s \<Longrightarrow> lm_woken s = [] \<Longrightarrow> lm_prompt concurrency (lm_call concurrency c s)"
| internal: "lm_prompt concurrency s \<Longrightarrow> lm_internal s s' \<Longrightarrow> lm_prompt concurrency s'"

definition lm_calls :: "'a limiter \<Rightarrow> 'a list" where
  "lm_calls s = lm_active s @ lm_queue s @ lm_woken s @ lm_done s"

definition lm_weight :: "'a limiter \<Rightarrow> nat" where
  "lm_weight s = 3 * length (lm_queue s) + 2 * length (lm_woken s) + length (lm_active s)"

lemmas lm_defs = lm_call_def lm_finish_def lm_resume_def lm_calls_def lm_weight_def idle_limiter_def

lemma length_remove1_Suc: "c \<in> set xs \<Longrightarrow> Suc (length (remove1 c xs)) = length xs"
  by (metis One_nat_def Suc_pred length_pos_if_in_set length_remove1)

lemma internal_weight: "lm_internal s s' \<Longrightarrow> lm_weight s' < lm_weight s"
proof (induction rule: lm_internal.induct)
  case (finish c s)
  then show ?case using length_remove1_Suc [OF finish] by (auto simp: lm_defs Let_def split: list.split)
next
  case (resume c s)
  then show ?case using length_remove1_Suc [OF resume] by (simp add: lm_defs)
qed

lemma internal_calls: "lm_internal s s' \<Longrightarrow> mset (lm_calls s') = mset (lm_calls s)"
  by (induction rule: lm_internal.induct) (auto simp: lm_defs Let_def split: list.split)

lemma internal_cases:
  "lm_active s \<noteq> [] \<or> lm_woken s \<noteq> [] \<Longrightarrow> \<exists>s'. lm_internal s s'"
  using lm_internal.intros by (metis last_in_set)

text \<open>No wake-up is lost: a call waits in the queue only while another is running or about to.\<close>

lemma queue_guarded:
  assumes "lm_reachable n s" "0 < n" "lm_queue s \<noteq> []"
  shows "lm_active s \<noteq> [] \<or> lm_woken s \<noteq> []"
  using assms(1,3)
proof (induction rule: lm_reachable.induct)
  case (step s s')
  from step(2) show ?case
  proof cases
    case (call c)
    then show ?thesis using step assms(2) by (cases "n \<le> length (lm_active s)") (auto simp: lm_call_def)
  next
    case (finish c)
    then show ?thesis using step(4) by (auto simp: lm_finish_def Let_def split: list.splits)
  next
    case (resume c)
    then show ?thesis by (simp add: lm_resume_def)
  qed
qed (simp add: idle_limiter_def)

lemma internal_reachable: "lm_internal s s' \<Longrightarrow> lm_reachable n s \<Longrightarrow> lm_reachable n s'"
  by (auto elim!: lm_internal.cases intro: lm_reachable.step lm_step.intros)

lemma internal_run_weight: "(lm_internal ^^ k) s t \<Longrightarrow> lm_weight t + k \<le> lm_weight s"
proof (induction k arbitrary: t)
  case (Suc k)
  then obtain u where "(lm_internal ^^ k) s u" "lm_internal u t" by auto
  with Suc(1) [of u] internal_weight [of u t] show ?case by fastforce
qed simp

lemma internal_drains:
  assumes "lm_reachable n s" "0 < n"
  shows "\<exists>t. lm_internal\<^sup>*\<^sup>* s t \<and> lm_active t = [] \<and> lm_queue t = [] \<and> lm_woken t = []"
  using assms(1)
proof (induction "lm_weight s" arbitrary: s rule: less_induct)
  case less
  show ?case
  proof (cases "lm_active s = [] \<and> lm_woken s = []")
    case True
    with queue_guarded [OF less(2) assms(2)] show ?thesis by blast
  next
    case False
    then obtain s' where s': "lm_internal s s'" using internal_cases by blast
    from less(1) [OF internal_weight [OF s'] internal_reachable [OF s' less(2)]] s' show ?thesis
      by (meson converse_rtranclp_into_rtranclp)
  qed
qed

lemma internal_run_calls: "lm_internal\<^sup>*\<^sup>* s t \<Longrightarrow> mset (lm_calls t) = mset (lm_calls s)"
  by (induction rule: rtranclp_induct) (simp_all add: internal_calls)


lemma two_calls_reachable: "lm_reachable 1 (lm_call 1 ''b'' (lm_call 1 ''a'' idle_limiter))"
  by (intro lm_reachable.step [OF _ lm_step.call] lm_reachable.initial)


text \<open>
  As long as every woken call resumes before another call arrives, at most \<open>concurrency\<close> calls are
  running or about to run, and no call waits while there is room.
\<close>

theorem limiter_bound:
  assumes "lm_prompt n s"
  shows "length (lm_active s) + length (lm_woken s) \<le> n \<and>
     (lm_queue s \<noteq> [] \<longrightarrow> length (lm_active s) + length (lm_woken s) = n)"
  using assms
proof (induction rule: lm_prompt.induct)
  case (internal s s')
  from internal(2) show ?case
  proof cases
    case (finish c)
    then show ?thesis using internal(3) length_remove1_Suc [of c "lm_active s"]
      by (auto simp: lm_finish_def Let_def split: list.split)
  next
    case (resume c)
    then show ?thesis using internal(3) length_remove1_Suc [of c "lm_woken s"] by (auto simp: lm_resume_def)
  qed
qed (auto simp: lm_call_def idle_limiter_def)

theorem limiter_bound_witness:
  "length (lm_active (lm_call 1 ''b'' (lm_call 1 ''a'' idle_limiter))) \<le> 1"
proof -
  have "lm_prompt 1 (lm_call 1 ''b'' (lm_call 1 ''a'' idle_limiter))"
    by (intro lm_prompt.intros) (simp_all add: lm_defs)
  from limiter_bound [OF this] show ?thesis by simp
qed

text \<open>
  Without that proviso the bound is exceeded: the wake-up lowers \<open>active\<close> before the woken call raises it
  again, and a call that arrives in between takes the free place.
\<close>

theorem limiter_overrun: "\<exists>s :: string limiter. lm_reachable 1 s \<and> length (lm_active s) = 2"
proof -
  let ?s = "lm_call 1 ''c'' (lm_finish ''a'' (lm_call 1 ''b'' (lm_call 1 ''a'' idle_limiter)))"
  have "lm_reachable 1 ?s"
    by (intro lm_reachable.step [OF _ lm_step.call] lm_reachable.step [OF _ lm_step.finish] lm_reachable.initial)
      (simp add: lm_defs)
  moreover have "''b'' \<in> set (lm_woken ?s)" by (simp add: lm_defs)
  ultimately have "lm_reachable 1 (lm_resume ''b'' ?s)" by (intro lm_reachable.step [OF _ lm_step.resume])
  moreover have "length (lm_active (lm_resume ''b'' ?s)) = 2" by (simp add: lm_defs)
  ultimately show ?thesis by blast
qed

section \<open>withRetry\<close>

text \<open>\<open>answers k\<close> is what attempt \<open>k\<close> settles with. The second component lists the delays slept.\<close>

function withRetry :: "nat \<Rightarrow> int \<Rightarrow> (nat \<Rightarrow> 'e + 'a) \<Rightarrow> nat \<Rightarrow> ('e + 'a) \<times> int list" where
  "withRetry maxRetries baseDelayMs answers attempt =
     (case answers attempt of
        Inr v \<Rightarrow> (Inr v, [])
      | Inl e \<Rightarrow> if attempt \<ge> maxRetries then (Inl e, [])
          else (let (r, ds) = withRetry maxRetries baseDelayMs answers (attempt + 1)
                in (r, baseDelayMs * 2 ^ attempt # ds)))"
  by pat_completeness auto
termination
  by (relation "measure (\<lambda>(m, _, _, k). m - k)") auto

declare withRetry.simps [simp del]

text \<open>
  A wrapped call succeeds exactly when one of its \<open>maxRetries + 1\<close> attempts does, and then with the
  first success; otherwise it fails with the error of the last attempt. The time it sleeps in all is at
  most the base delay times \<open>2 ^ maxRetries - 1\<close>.
\<close>

lemma withRetry_from:
  assumes "k \<le> m" "0 \<le> b"
  shows "(fst (withRetry m b answers k) =
      (case find (\<lambda>i. \<not> isl (answers i)) [k..<Suc m] of Some i \<Rightarrow> answers i | None \<Rightarrow> answers m)) \<and>
     sum_list (snd (withRetry m b answers k)) \<le> b * (2 ^ m - 2 ^ k)"
  using assms(1)
proof (induction "m - k" arbitrary: k)
  case 0
  then have "k = m" by simp
  then show ?case by (cases "answers m") (simp_all add: withRetry.simps)
next
  case (Suc d)
  then have k: "k < m" and IH: "fst (withRetry m b answers (k + 1)) =
      (case find (\<lambda>i. \<not> isl (answers i)) [k + 1..<Suc m] of Some i \<Rightarrow> answers i | None \<Rightarrow> answers m)"
      "sum_list (snd (withRetry m b answers (k + 1))) \<le> b * (2 ^ m - 2 ^ (k + 1))"
    using Suc(1) [of "k + 1"] by simp_all
  have upt: "[k..<Suc m] = k # [k + 1..<Suc m]" using k by (simp add: upt_rec)
  have pow: "(2::int) ^ k \<le> 2 ^ m" using k by simp
  show ?case
  proof (cases "answers k")
    case (Inl e)
    have "b * 2 ^ k + sum_list (snd (withRetry m b answers (k + 1))) \<le> b * (2 ^ m - 2 ^ k)"
      using IH(2) by (simp add: algebra_simps)
    with Inl k IH(1) show ?thesis unfolding upt by (subst (1 2) withRetry.simps) (simp add: split_def)
  next
    case (Inr v)
    with pow assms(2) show ?thesis unfolding upt by (simp add: withRetry.simps)
  qed
qed
end
