(* ===== verification/Proving.thy ===== *)
theory Proving
  imports Screening Retries
begin

text \<open>
  Proving: \<open>sdk/src/internal/proving-service.ts\<close>, \<open>proving-service-provider.ts\<close>, \<open>screening-calldata.ts\<close>
  and the assembly of the call in \<open>private-transfers.ts\<close>. The answers of the service are parameters, one
  per attempt. The theorems: which attempts are made and which answer counts; the attestation that the
  service attaches reaches the end of the calldata unchanged; and the pool's message is looked up by
  the spelling of its address.
\<close>

section \<open>proving-service.ts\<close>

definition DEFAULT_REQUEST_TIMEOUT_MS :: int where "DEFAULT_REQUEST_TIMEOUT_MS = 30000"
definition DEFAULT_PROVE_MAX_RETRIES :: nat where "DEFAULT_PROVE_MAX_RETRIES = 3"
definition DEFAULT_PROVE_BASE_DELAY_MS :: int where "DEFAULT_PROVE_BASE_DELAY_MS = 1000"
definition MAX_PROVE_BACKOFF_MS :: int where "MAX_PROVE_BACKOFF_MS = 30000"
definition SERVICE_BUSY_CODE :: rat where "SERVICE_BUSY_CODE = - 32005"
definition TRANSIENT_HTTP_STATUS :: "nat list" where "TRANSIENT_HTTP_STATUS = [503]"

text \<open>The fields of a JSON-RPC error are whatever the service put there; \<open>data\<close> is kept only as a string.\<close>

datatype prove_error =
    ProvingServiceError "json option" "json option" "string option"
  | ProvingServiceHttpError nat string
  | ProveFailure string                     \<comment> \<open>the transport, the JSON parser, a missing result\<close>
  | InvalidProveResult json

record ProvingRetryOptions =
  ro_maxRetries :: "nat option"
  ro_baseDelayMs :: "int option"

record ProvingServiceConfig =
  sv_baseUrl :: string
  sv_requestTimeoutMs :: "int option"
  sv_ohttp :: bool
  sv_retry :: "ProvingRetryOptions option"

record ProvingService =
  svc_baseUrl :: string
  svc_requestTimeoutMs :: int
  svc_ohttp :: bool
  svc_maxRetries :: nat
  svc_baseDelayMs :: int

definition or_else :: "'a option \<Rightarrow> 'a \<Rightarrow> 'a" where
  "or_else x d = (case x of None \<Rightarrow> d | Some v \<Rightarrow> v)"

definition new_ProvingService :: "ProvingServiceConfig \<Rightarrow> ProvingService" where
  "new_ProvingService config =
     \<lparr>svc_baseUrl = sv_baseUrl config,
      svc_requestTimeoutMs = or_else (sv_requestTimeoutMs config) DEFAULT_REQUEST_TIMEOUT_MS,
      svc_ohttp = sv_ohttp config,
      svc_maxRetries = or_else (Option.bind (sv_retry config) ro_maxRetries) DEFAULT_PROVE_MAX_RETRIES,
      svc_baseDelayMs = or_else (Option.bind (sv_retry config) ro_baseDelayMs) DEFAULT_PROVE_BASE_DELAY_MS\<rparr>"

definition isTransientError :: "prove_error \<Rightarrow> bool" where
  "isTransientError e = (case e of
      ProvingServiceError code _ _ \<Rightarrow> code = Some (JNum SERVICE_BUSY_CODE)
    | ProvingServiceHttpError status _ \<Rightarrow> status \<in> set TRANSIENT_HTTP_STATUS
    | _ \<Rightarrow> False)"

definition readRpcResponse :: "json \<Rightarrow> prove_error + json" where
  "readRpcResponse j =
     (if j = JNull then Inl (ProveFailure ''cannot read a property of null'')
      else case json_get j ''error'' of
        Some e \<Rightarrow>
          if json_truthy (Some e)
          then Inl (ProvingServiceError (json_get e ''code'') (json_get e ''message'')
                 (case json_get e ''data'' of Some (JString s) \<Rightarrow> Some s | _ \<Rightarrow> None))
          else (case json_get j ''result'' of None \<Rightarrow> Inl (ProveFailure ''Proving service returned no result'') | Some r \<Rightarrow> Inr r)
      | None \<Rightarrow>
          (case json_get j ''result'' of None \<Rightarrow> Inl (ProveFailure ''Proving service returned no result'') | Some r \<Rightarrow> Inr r))"

text \<open>
  One attempt: the OHTTP client answers with a JSON value or throws; \<open>fetch\<close> answers with a response.
\<close>

datatype prove_answer = OhttpAnswer "json result" | FetchAnswer "json http_response"

definition callOnce :: "prove_answer \<Rightarrow> prove_error + json" where
  "callOnce answer = (case answer of
      OhttpAnswer (Inl _) \<Rightarrow> Inl (ProveFailure ''ohttp'')
    | OhttpAnswer (Inr j) \<Rightarrow> readRpcResponse j
    | FetchAnswer (NetworkError e) \<Rightarrow> Inl (ProveFailure e)
    | FetchAnswer (Response status None _) \<Rightarrow> Inl (ProveFailure ''body not readable'')
    | FetchAnswer (Response status (Some body) parsed) \<Rightarrow>
        if \<not> status_ok status then Inl (ProvingServiceHttpError status body)
        else (case parsed of Inl _ \<Rightarrow> Inl (ProveFailure ''not JSON'') | Inr j \<Rightarrow> readRpcResponse j))"

function callWithRetry :: "ProvingService \<Rightarrow> (nat \<Rightarrow> prove_answer) \<Rightarrow> nat \<Rightarrow> (prove_error + json) \<times> int list" where
  "callWithRetry svc answers attempt =
     (case callOnce (answers attempt) of
        Inr r \<Rightarrow> (Inr r, [])
      | Inl e \<Rightarrow>
          if attempt \<ge> svc_maxRetries svc \<or> \<not> isTransientError e then (Inl e, [])
          else (let (r, ds) = callWithRetry svc answers (attempt + 1)
                in (r, min (svc_baseDelayMs svc * 2 ^ attempt) MAX_PROVE_BACKOFF_MS # ds)))"
  by pat_completeness auto
termination
  by (relation "measure (\<lambda>(svc, _, k). svc_maxRetries svc - k)") auto

declare callWithRetry.simps [simp del]

definition MessageToL1Schema :: schema where
  "MessageToL1Schema = ZStrict [(''from_address'', ZString), (''to_address'', ZString), (''payload'', ZArray 0 ZString)]"

definition ScreeningSignatureSchema :: schema where
  "ScreeningSignatureSchema = ZStrict [(''issued_at'', ZNumber), (''sig_r'', ZString), (''sig_s'', ZString)]"

definition AdditionalDataSchema :: schema where
  "AdditionalDataSchema = ZStrict [(''signature'', ZOptional ScreeningSignatureSchema)]"

definition ProveTransactionResultSchema :: schema where
  "ProveTransactionResultSchema = ZStrict [(''proof'', ZStringMin 1), (''proof_facts'', ZArray 0 ZString),
     (''l2_to_l1_messages'', ZArray 0 MessageToL1Schema), (''additional_data'', ZOptional AdditionalDataSchema)]"

record MessageToL1 =
  from_address :: string
  to_address :: string
  payload :: "string list"

text \<open>\<open>additional_data\<close> is absent, or present with or without a signature.\<close>

record ProveTransactionResult =
  r_proof :: string
  r_proof_facts :: "string list"
  l2_to_l1_messages :: "MessageToL1 list"
  r_additional_data :: "ScreeningSignature option option"

text \<open>Reading the fields of a value that its schema has accepted.\<close>

definition as_string :: "json option \<Rightarrow> string" where
  "as_string v = (case v of Some (JString s) \<Rightarrow> s | _ \<Rightarrow> [])"

definition as_number :: "json option \<Rightarrow> rat" where
  "as_number v = (case v of Some (JNum n) \<Rightarrow> n | _ \<Rightarrow> 0)"

definition as_list :: "json option \<Rightarrow> json list" where
  "as_list v = (case v of Some (JArray xs) \<Rightarrow> xs | _ \<Rightarrow> [])"

definition as_message :: "json \<Rightarrow> MessageToL1" where
  "as_message j = \<lparr>from_address = as_string (json_get j ''from_address''), to_address = as_string (json_get j ''to_address''),
     payload = map (\<lambda>x. as_string (Some x)) (as_list (json_get j ''payload''))\<rparr>"

definition as_signature :: "json \<Rightarrow> ScreeningSignature" where
  "as_signature j = \<lparr>issued_at = as_number (json_get j ''issued_at''), sig_r = as_string (json_get j ''sig_r''),
     sig_s = as_string (json_get j ''sig_s'')\<rparr>"

definition as_result :: "json \<Rightarrow> ProveTransactionResult" where
  "as_result j =
     \<lparr>r_proof = as_string (json_get j ''proof''),
      r_proof_facts = map (\<lambda>x. as_string (Some x)) (as_list (json_get j ''proof_facts'')),
      l2_to_l1_messages = map as_message (as_list (json_get j ''l2_to_l1_messages'')),
      r_additional_data = map_option (\<lambda>d. map_option as_signature (json_get d ''signature'')) (json_get j ''additional_data'')\<rparr>"

text \<open>The invocation: the sender address and the fields that are sent along with it.\<close>

record ProofInvocation =
  sender_address :: string
  invocation_fields :: "(string \<times> json) list"

definition block_param :: "BlockId \<Rightarrow> json" where
  "block_param b = (case b of
      BlockNumber n \<Rightarrow> JObject [(''block_number'', JNum (of_int n))]
    | BlockTag t \<Rightarrow> JString t
    | BlockHash h \<Rightarrow> JString h)"

definition prove_params :: "BlockId \<Rightarrow> ProofInvocation \<Rightarrow> json" where
  "prove_params b tx = JObject [(''block_id'', block_param b),
     (''transaction'', JObject ((''sender_address'', JString (sender_address tx)) # invocation_fields tx))]"

text \<open>\<open>service params k\<close> is the answer to attempt \<open>k\<close> of a call with these parameters.\<close>

definition proveTransaction ::
  "(schema \<Rightarrow> json option \<Rightarrow> bool) \<Rightarrow> ProvingService \<Rightarrow> (json \<Rightarrow> nat \<Rightarrow> prove_answer) \<Rightarrow> BlockId \<Rightarrow> ProofInvocation
     \<Rightarrow> prove_error + ProveTransactionResult"
where
  "proveTransaction accepts svc service blockId tx =
     bindR (fst (callWithRetry svc (service (prove_params blockId tx)) 0)) (\<lambda>result.
     if accepts ProveTransactionResultSchema (Some result) then Inr (as_result result) else Inl (InvalidProveResult result))"

text \<open>Neither retries.\<close>

definition getSpecVersion :: "prove_answer \<Rightarrow> prove_error + json" where
  "getSpecVersion answer = callOnce answer"

definition isHealthy :: "prove_answer \<Rightarrow> bool" where
  "isHealthy answer = (case getSpecVersion answer of Inr _ \<Rightarrow> True | Inl _ \<Rightarrow> False)"

section \<open>proving-service-provider.ts\<close>

record Proof =
  p_data :: string
  p_output :: "string list"
  proofFacts :: "string list"
  additionalData :: "ScreeningSignature option option"

definition DEFAULT_L2_GAS_MAX_AMOUNT :: int where "DEFAULT_L2_GAS_MAX_AMOUNT = 100000000"
definition PROOF_INVOCATION_NONCE :: int where "PROOF_INVOCATION_NONCE = 0"

record ResourceBound =
  max_amount :: int
  max_price_per_unit :: int

record ProofDetails =
  pd_nonce :: "int option"
  pd_l1_gas :: ResourceBound
  pd_l2_gas :: ResourceBound
  pd_l1_data_gas :: ResourceBound
  pd_tip :: int
  pd_chainId :: string

definition getDefaultProofDetails :: "string \<Rightarrow> ProofDetails" where
  "getDefaultProofDetails chain =
     \<lparr>pd_nonce = Some PROOF_INVOCATION_NONCE,
      pd_l1_gas = \<lparr>max_amount = 1, max_price_per_unit = 0\<rparr>,
      pd_l2_gas = \<lparr>max_amount = DEFAULT_L2_GAS_MAX_AMOUNT, max_price_per_unit = 0\<rparr>,
      pd_l1_data_gas = \<lparr>max_amount = 1, max_price_per_unit = 0\<rparr>, pd_tip = 0, pd_chainId = chain\<rparr>"

record ProofProvider =
  pp_service :: ProvingService
  pp_chainId :: string
  pp_blockIdentifier :: BlockId
  pp_poolAddressHex :: "string option"      \<comment> \<open>present when a node is configured\<close>
  pp_cachedNonce :: "int option"

definition new_ProofProvider ::
  "starknet_lib \<Rightarrow> ProvingServiceConfig \<Rightarrow> string \<Rightarrow> BlockId option \<Rightarrow> string option \<Rightarrow> numeric option \<Rightarrow> ProofProvider result"
where
  "new_ProofProvider L config chain blockIdentifier nodeUrl pool =
     bindR (case nodeUrl of
              None \<Rightarrow> Inr None
            | Some _ \<Rightarrow> (case pool of
                None \<Rightarrow> Inl (ConfigError ''nodeUrl requires poolAddress to be set'')
              | Some a \<Rightarrow> bindR (toHex L a True) (\<lambda>h. Inr (Some h)))) (\<lambda>poolHex.
     Inr \<lparr>pp_service = new_ProvingService config, pp_chainId = chain,
          pp_blockIdentifier = or_else blockIdentifier (BlockTag ''latest''),
          pp_poolAddressHex = poolHex, pp_cachedNonce = None\<rparr>)"

definition invalidateNonceCache :: "ProofProvider \<Rightarrow> ProofProvider" where
  "invalidateNonceCache pp = pp\<lparr>pp_cachedNonce := None\<rparr>"

text \<open>\<open>nonceOf\<close> is the node's answer.\<close>

definition getDefaultDetails :: "(string \<Rightarrow> string result) \<Rightarrow> ProofProvider \<Rightarrow> (ProofDetails \<times> ProofProvider) result" where
  "getDefaultDetails nonceOf pp =
     (let base = getDefaultProofDetails (pp_chainId pp) in
      case pp_poolAddressHex pp of
        None \<Rightarrow> Inr (base, pp)
      | Some pool \<Rightarrow>
          bindR (case pp_cachedNonce pp of
                   Some n \<Rightarrow> Inr n
                 | None \<Rightarrow> bindR (nonceOf pool) (\<lambda>s. BigInt (BNString s))) (\<lambda>n.
          Inr (base\<lparr>pd_nonce := Some n\<rparr>, pp\<lparr>pp_cachedNonce := Some n\<rparr>)))"

definition prove ::
  "starknet_lib \<Rightarrow> (schema \<Rightarrow> json option \<Rightarrow> bool) \<Rightarrow> (json \<Rightarrow> nat \<Rightarrow> prove_answer) \<Rightarrow> ProofProvider
     \<Rightarrow> ProofInvocation \<Rightarrow> BlockId option \<Rightarrow> prove_error + Proof"
where
  "prove L accepts service pp invocation blockIdentifier =
     bindR (proveTransaction accepts (pp_service pp) service (or_else blockIdentifier (pp_blockIdentifier pp)) invocation) (\<lambda>result.
     case toHex L (NBig (BNString (sender_address invocation))) True of
       Inl _ \<Rightarrow> Inl (ProveFailure ''toHex'')
     | Inr poolAddressHex \<Rightarrow>
         let poolMessage = find (\<lambda>m. toLowerCase (from_address m) = toLowerCase poolAddressHex) (l2_to_l1_messages result)
         in Inr \<lparr>p_data = r_proof result, p_output = (case poolMessage of None \<Rightarrow> [] | Some m \<Rightarrow> payload m),
                 proofFacts = r_proof_facts result, additionalData = r_additional_data result\<rparr>)"

section \<open>The call\<close>

text \<open>
  \<open>compileOption\<close> is \<open>CallData.compile\<close> of the option with the attestation, decimal felts.
\<close>

definition screeningCalldataSuffix ::
  "starknet_lib \<Rightarrow> (ScreeningSignature option \<Rightarrow> string list) \<Rightarrow> ScreeningSignature option option \<Rightarrow> string list result"
where
  "screeningCalldataSuffix L compileOption additional =
     mapR (\<lambda>felt. bindR (BigInt (BNString felt)) (\<lambda>v. toHex L (NBig (BNBigint v)) True))
       (compileOption (Option.bind additional id))"

record Call =
  call_contractAddress :: string
  call_entrypoint :: string
  call_calldata :: "string list"

definition buildExecuteResult ::
  "starknet_lib \<Rightarrow> (ScreeningSignature option \<Rightarrow> string list) \<Rightarrow> bignum \<Rightarrow> Proof \<Rightarrow> Call result"
where
  "buildExecuteResult L compileOption pool proof =
     bindR (screeningCalldataSuffix L compileOption (additionalData proof)) (\<lambda>screeningSuffix.
     bindR (toHex L (NBig pool) True) (\<lambda>poolHex.
     Inr \<lparr>call_contractAddress = poolHex, call_entrypoint = ''apply_actions'',
          call_calldata = drop 1 (p_output proof) @ screeningSuffix\<rparr>))"

section \<open>Which attempt counts\<close>

definition transient_attempt :: "prove_answer \<Rightarrow> bool" where
  "transient_attempt a \<longleftrightarrow> (\<exists>e. callOnce a = Inl e \<and> isTransientError e)"

lemma callWithRetry_from:
  assumes "k \<le> svc_maxRetries svc"
  shows "\<exists>n. k \<le> n \<and> n \<le> svc_maxRetries svc \<and> fst (callWithRetry svc answers k) = callOnce (answers n) \<and>
     (\<forall>i. k \<le> i \<and> i < n \<longrightarrow> transient_attempt (answers i)) \<and>
     (n < svc_maxRetries svc \<longrightarrow> \<not> transient_attempt (answers n)) \<and>
     snd (callWithRetry svc answers k) = map (\<lambda>i. min (svc_baseDelayMs svc * 2 ^ i) MAX_PROVE_BACKOFF_MS) [k..<n]"
  using assms
proof (induction "svc_maxRetries svc - k" arbitrary: k)
  case 0
  then have k: "k = svc_maxRetries svc" by simp
  have "fst (callWithRetry svc answers k) = callOnce (answers k) \<and> snd (callWithRetry svc answers k) = []"
    by (subst (1 2) callWithRetry.simps) (simp add: k split: sum.split)
  with k show ?case by (intro exI [of _ k]) auto
next
  case (Suc d)
  then have k: "k < svc_maxRetries svc" by simp
  show ?case
  proof (cases "transient_attempt (answers k)")
    case False
    have "fst (callWithRetry svc answers k) = callOnce (answers k) \<and> snd (callWithRetry svc answers k) = []"
      using False by (subst (1 2) callWithRetry.simps) (auto simp: transient_attempt_def split: sum.split)
    with False k show ?thesis by (intro exI [of _ k]) auto
  next
    case True
    then obtain e where e: "callOnce (answers k) = Inl e" "isTransientError e" by (auto simp: transient_attempt_def)
    have d: "d = svc_maxRetries svc - (k + 1)" "k + 1 \<le> svc_maxRetries svc" using k Suc(2) by simp_all
    obtain n where n: "k + 1 \<le> n" "n \<le> svc_maxRetries svc"
      "fst (callWithRetry svc answers (k + 1)) = callOnce (answers n)"
      "\<forall>i. k + 1 \<le> i \<and> i < n \<longrightarrow> transient_attempt (answers i)"
      "n < svc_maxRetries svc \<longrightarrow> \<not> transient_attempt (answers n)"
      "snd (callWithRetry svc answers (k + 1)) = map (\<lambda>i. min (svc_baseDelayMs svc * 2 ^ i) MAX_PROVE_BACKOFF_MS) [k + 1..<n]"
      using Suc(1) [OF d] by blast
    have step: "callWithRetry svc answers k = (fst (callWithRetry svc answers (k + 1)),
        min (svc_baseDelayMs svc * 2 ^ k) MAX_PROVE_BACKOFF_MS # snd (callWithRetry svc answers (k + 1)))"
      using e k by (subst callWithRetry.simps) (simp add: split_def Let_def)
    have upt: "[k..<n] = k # [k + 1..<n]" using n(1) by (simp add: upt_rec)
    have "\<forall>i. k \<le> i \<and> i < n \<longrightarrow> transient_attempt (answers i)"
      using n(4) True by (metis Suc_eq_plus1 Suc_leI le_neq_implies_less)
    with n step upt show ?thesis by (intro exI [of _ n]) simp
  qed
qed

text \<open>
  A prove request ends. It makes the attempts 0 to \<open>n\<close> for some \<open>n\<close> within the retry budget: all but
  the last failed in a transient way, the last is either the budget's last or did not, and its answer
  is the answer of the request. In particular a success or an error that is not transient is never
  retried, and no wait exceeds half a minute.
\<close>

theorem prove_attempts:
  "\<exists>n \<le> svc_maxRetries svc.
     fst (callWithRetry svc answers 0) = callOnce (answers n) \<and>
     (\<forall>i < n. transient_attempt (answers i)) \<and> (n = svc_maxRetries svc \<or> \<not> transient_attempt (answers n)) \<and>
     length (snd (callWithRetry svc answers 0)) = n \<and>
     list_all (\<lambda>d. d \<le> MAX_PROVE_BACKOFF_MS) (snd (callWithRetry svc answers 0))"
proof -
  obtain n where n: "n \<le> svc_maxRetries svc" "fst (callWithRetry svc answers 0) = callOnce (answers n)"
    "\<forall>i. 0 \<le> i \<and> i < n \<longrightarrow> transient_attempt (answers i)" "n < svc_maxRetries svc \<longrightarrow> \<not> transient_attempt (answers n)"
    "snd (callWithRetry svc answers 0) = map (\<lambda>i. min (svc_baseDelayMs svc * 2 ^ i) MAX_PROVE_BACKOFF_MS) [0..<n]"
    using callWithRetry_from [of 0 svc answers] by auto
  then show ?thesis by (intro exI [of _ n]) (auto simp: list_all_iff)
qed

definition sample_service_config :: ProvingService where
  "sample_service_config = new_ProvingService \<lparr>sv_baseUrl = ''https://p'', sv_requestTimeoutMs = None, sv_ohttp = False, sv_retry = None\<rparr>"

text \<open>Busy once, then a result.\<close>

definition sample_answers :: "json \<Rightarrow> nat \<Rightarrow> prove_answer" where
  "sample_answers result k = (if k = 0 then FetchAnswer (Response 503 (Some ''busy'') (Inl NoResult))
     else FetchAnswer (Response 200 (Some ''{}'') (Inr (JObject [(''result'', result)]))))"

theorem prove_attempts_witness:
  "fst (callWithRetry sample_service_config (sample_answers (JNum 1)) 0) = Inr (JNum 1) \<and>
   length (snd (callWithRetry sample_service_config (sample_answers (JNum 1)) 0)) = 1"
proof -
  let ?c = "\<lambda>i. callOnce (sample_answers (JNum 1) i)"
  have c: "?c i = Inr (JNum 1)" if "0 < i" for i
    using that by (simp add: sample_answers_def callOnce_def readRpcResponse_def json_get_def status_ok_def)
  then have quiet: "\<not> transient_attempt (sample_answers (JNum 1) i)" if "0 < i" for i using that by (simp add: transient_attempt_def)
  have busy: "transient_attempt (sample_answers (JNum 1) 0)"
    by (simp add: transient_attempt_def sample_answers_def callOnce_def status_ok_def isTransientError_def TRANSIENT_HTTP_STATUS_def)
  have m: "svc_maxRetries sample_service_config = 3"
    by (simp add: sample_service_config_def new_ProvingService_def or_else_def DEFAULT_PROVE_MAX_RETRIES_def)
  obtain n where n: "fst (callWithRetry sample_service_config (sample_answers (JNum 1)) 0) = ?c n"
    "\<forall>i < n. transient_attempt (sample_answers (JNum 1) i)"
    "n = svc_maxRetries sample_service_config \<or> \<not> transient_attempt (sample_answers (JNum 1) n)"
    "length (snd (callWithRetry sample_service_config (sample_answers (JNum 1)) 0)) = n"
    using prove_attempts [of sample_service_config "sample_answers (JNum 1)"] by blast
  have "n = 1" using n(2) n(3) busy quiet [of 1] m by (metis less_one linorder_neqE_nat numeral_3_eq_3 zero_less_Suc zero_neq_numeral)
  with n c show ?thesis by simp
qed

section \<open>The attestation on its way\<close>

text \<open>
  What the code relies on of \<open>CallData.compile\<close>: the Serde layout of an option, the variant index
  and then the fields, in decimal.
\<close>

definition serde_option :: "(ScreeningSignature option \<Rightarrow> string list) \<Rightarrow> bool" where
  "serde_option compileOption \<longleftrightarrow> compileOption None = [''1''] \<and>
     (\<forall>sg t r s. issued_at sg = of_nat t \<and> BigInt (BNString (sig_r sg)) = Inr r \<and> BigInt (BNString (sig_s sg)) = Inr s \<and>
        0 \<le> r \<and> 0 \<le> s \<longrightarrow> (\<exists>ft fr fs. compileOption (Some sg) = [''0'', ft, fr, fs] \<and> BigInt (BNString ft) = Inr (int t) \<and>
              BigInt (BNString fr) = Inr r \<and> BigInt (BNString fs) = Inr s))"

lemma BigInt_digit: "BigInt (BNString ''0'') = Inr 0" "BigInt (BNString ''1'') = Inr 1"
  by code_simp+

lemma suffix_present:
  assumes "serde_option compileOption" "issued_at sg = of_nat t" "BigInt (BNString (sig_r sg)) = Inr r" "BigInt (BNString (sig_s sg)) = Inr s"
    "0 \<le> r" "0 \<le> s"
  shows "screeningCalldataSuffix L compileOption (Some (Some sg)) = Inr (map hex_of [0, int t, r, s])"
proof -
  from assms obtain ft fr fs where f: "compileOption (Some sg) = [''0'', ft, fr, fs]" "BigInt (BNString ft) = Inr (int t)"
    "BigInt (BNString fr) = Inr r" "BigInt (BNString fs) = Inr s"
    unfolding serde_option_def by blast
  then show ?thesis using BigInt_digit by (simp add: screeningCalldataSuffix_def del: BigInt.simps)
qed

lemma suffix_absent:
  assumes "serde_option compileOption" "Option.bind additional id = None"
  shows "screeningCalldataSuffix L compileOption additional = Inr [hex_of 1]"
  using assms BigInt_digit by (simp add: screeningCalldataSuffix_def serde_option_def del: BigInt.simps)

text \<open>The signature inside an answer of the service.\<close>

definition answer_signature :: "json \<Rightarrow> json option" where
  "answer_signature result = Option.bind (json_get result ''additional_data'') (\<lambda>d. json_get d ''signature'')"

lemma result_signature:
  "Option.bind (r_additional_data (as_result j)) id = map_option as_signature (answer_signature j)"
  by (cases "json_get j ''additional_data''") (simp_all add: as_result_def answer_signature_def)

lemma prove_result:
  assumes "prove L accepts service pp inv1 b = Inr proof"
  obtains n j h where "n \<le> svc_maxRetries (pp_service pp)"
    "callOnce (service (prove_params (or_else b (pp_blockIdentifier pp)) inv1) n) = Inr j"
    "accepts ProveTransactionResultSchema (Some j)" "additionalData proof = r_additional_data (as_result j)"
    "toHex L (NBig (BNString (sender_address inv1))) True = Inr h"
    "p_output proof = (case find (\<lambda>m. toLowerCase (from_address m) = toLowerCase h) (l2_to_l1_messages (as_result j)) of
       None \<Rightarrow> [] | Some m \<Rightarrow> payload m)"
proof -
  let ?b = "or_else b (pp_blockIdentifier pp)"
  let ?call = "fst (callWithRetry (pp_service pp) (service (prove_params ?b inv1)) 0)"
  obtain j where j: "?call = Inr j" "accepts ProveTransactionResultSchema (Some j)"
    "proveTransaction accepts (pp_service pp) service ?b inv1 = Inr (as_result j)"
    using assms by (auto simp: prove_def proveTransaction_def bindR_eq_Inr split: if_splits)
  obtain h where h: "toHex L (NBig (BNString (sender_address inv1))) True = Inr h"
    using assms j(3) by (cases "toHex L (NBig (BNString (sender_address inv1))) True") (auto simp: prove_def)
  obtain n where "n \<le> svc_maxRetries (pp_service pp)" "?call = callOnce (service (prove_params ?b inv1) n)"
    using callWithRetry_from [of 0 "pp_service pp" "service (prove_params ?b inv1)"] by auto
  moreover have "additionalData proof = r_additional_data (as_result j)"
    "p_output proof = (case find (\<lambda>m. toLowerCase (from_address m) = toLowerCase h) (l2_to_l1_messages (as_result j)) of
       None \<Rightarrow> [] | Some m \<Rightarrow> payload m)"
    using assms j(3) h by (auto simp: prove_def Let_def)
  ultimately show thesis using that j h by metis
qed

text \<open>
  C19: The attestation reaches the contract unchanged. When a proof is obtained and its call built, the
  calldata is what the pool sent after its class hash, followed by the attestation as an option: variant
  0, the time of issue and the two halves of the signature, exactly as in the service's answer, or
  variant 1 when that answer carries none.
\<close>

theorem attestation_relayed:
  assumes "serde_option compileOption"
    and "prove L accepts service pp inv1 b = Inr proof" "buildExecuteResult L compileOption pool proof = Inr call"
  shows "\<exists>n j. n \<le> svc_maxRetries (pp_service pp) \<and>
     callOnce (service (prove_params (or_else b (pp_blockIdentifier pp)) inv1) n) = Inr j \<and>
     call_entrypoint call = ''apply_actions'' \<and>
     (answer_signature j = None \<longrightarrow> call_calldata call = drop 1 (p_output proof) @ [hex_of 1]) \<and>
     (\<forall>sg t r s. answer_signature j = Some sg \<and> json_get sg ''issued_at'' = Some (JNum (of_nat t)) \<and>
        BigInt (BNString (as_string (json_get sg ''sig_r''))) = Inr r \<and> BigInt (BNString (as_string (json_get sg ''sig_s''))) = Inr s \<and>
        0 \<le> r \<and> 0 \<le> s \<longrightarrow> call_calldata call = drop 1 (p_output proof) @ map hex_of [0, int t, r, s])"
proof -
  obtain n j where j: "n \<le> svc_maxRetries (pp_service pp)"
    "callOnce (service (prove_params (or_else b (pp_blockIdentifier pp)) inv1) n) = Inr j"
    "additionalData proof = r_additional_data (as_result j)"
    using prove_result [OF assms(2)] by metis
  obtain suffix where suffix: "screeningCalldataSuffix L compileOption (additionalData proof) = Inr suffix"
    "call_calldata call = drop 1 (p_output proof) @ suffix" "call_entrypoint call = ''apply_actions''"
    using assms(3) by (auto simp: buildExecuteResult_def bindR_eq_Inr)
  have sig: "Option.bind (additionalData proof) id = map_option as_signature (answer_signature j)"
    by (simp add: j(3) result_signature)
  have none: "suffix = [hex_of 1]" if "answer_signature j = None"
    using suffix(1) sig that suffix_absent [OF assms(1)] by (metis map_option_eq_Some map_option_is_None sum.inject(2))
  have some: "suffix = map hex_of [0, int t, r, s]"
    if "answer_signature j = Some sg" "json_get sg ''issued_at'' = Some (JNum (of_nat t))"
      "BigInt (BNString (as_string (json_get sg ''sig_r''))) = Inr r" "BigInt (BNString (as_string (json_get sg ''sig_s''))) = Inr s" "0 \<le> r" "0 \<le> s" for sg t r s
  proof -
    have "additionalData proof = Some (Some (as_signature sg))"
      using sig that(1) by (cases "additionalData proof") simp_all
    moreover have "issued_at (as_signature sg) = of_nat t" "sig_r (as_signature sg) = as_string (json_get sg ''sig_r'')"
      "sig_s (as_signature sg) = as_string (json_get sg ''sig_s'')"
      using that(2) by (simp_all add: as_signature_def as_number_def)
    ultimately show ?thesis using suffix_present [OF assms(1), of "as_signature sg" t r s L] suffix(1) that(3-6)
      by (simp del: BigInt.simps)
  qed
  show ?thesis
    by (rule exI [of _ n], rule exI [of _ j]) (use j suffix none some in blast)
qed

definition sample_compile :: "ScreeningSignature option \<Rightarrow> string list" where
  "sample_compile x = (case x of None \<Rightarrow> [''1'']
     | Some sg \<Rightarrow> [''0'', hex_of \<lfloor>issued_at sg\<rfloor>, hex_of (projr (BigInt (BNString (sig_r sg)))), hex_of (projr (BigInt (BNString (sig_s sg))))])"

lemma sample_compile_serde: "serde_option sample_compile"
  by (auto simp: serde_option_def sample_compile_def simp del: BigInt.simps intro!: BigInt_hex_of)

definition sample_result :: json where
  "sample_result = JObject [(''proof'', JString ''p''), (''proof_facts'', JArray []),
     (''l2_to_l1_messages'', JArray [JObject [(''from_address'', JString ''0xab''), (''to_address'', JString ''0x0''),
        (''payload'', JArray [JString ''0xc'', JString ''0x7''])]]),
     (''additional_data'', JObject [(''signature'', JObject [(''issued_at'', JNum 5), (''sig_r'', JString ''0x2''), (''sig_s'', JString ''0x3'')])])]"

definition sample_provider :: ProofProvider where
  "sample_provider = \<lparr>pp_service = sample_service_config, pp_chainId = ''0x1'', pp_blockIdentifier = BlockTag ''latest'',
     pp_poolAddressHex = None, pp_cachedNonce = None\<rparr>"

definition sample_invocation :: ProofInvocation where
  "sample_invocation = \<lparr>sender_address = ''0xAB'', invocation_fields = []\<rparr>"

theorem attestation_relayed_witness:
  "\<exists>proof call. prove sample_lib zod_accepts (\<lambda>_. sample_answers sample_result) sample_provider sample_invocation None = Inr proof \<and>
     buildExecuteResult sample_lib sample_compile (BNString ''0xab'') proof = Inr call \<and>
     call_calldata call = drop 1 (p_output proof) @ map hex_of [0, 5, 2, 3]"
proof -
  let ?prove = "prove sample_lib zod_accepts (\<lambda>_. sample_answers sample_result) sample_provider sample_invocation None"
  have "case ?prove of Inr p \<Rightarrow> (case buildExecuteResult sample_lib sample_compile (BNString ''0xab'') p of Inr _ \<Rightarrow> True | _ \<Rightarrow> False) | _ \<Rightarrow> False"
    by code_simp
  then obtain p call where p: "?prove = Inr p" "buildExecuteResult sample_lib sample_compile (BNString ''0xab'') p = Inr call"
    by (auto split: sum.splits)
  have only: "j = sample_result" if "callOnce (sample_answers sample_result n) = Inr j" for n j
    using that by (auto simp: sample_answers_def callOnce_def readRpcResponse_def json_get_def status_ok_def split: if_splits)
  let ?sg = "JObject [(''issued_at'', JNum (of_nat 5)), (''sig_r'', JString ''0x2''), (''sig_s'', JString ''0x3'')]"
  have sg: "answer_signature sample_result = Some ?sg" "json_get ?sg ''issued_at'' = Some (JNum (of_nat 5))"
    "as_string (json_get ?sg ''sig_r'') = ''0x2''" "as_string (json_get ?sg ''sig_s'') = ''0x3''"
    by (simp_all add: answer_signature_def sample_result_def json_get_def as_string_def)
  have num: "BigInt (BNString ''0x2'') = Inr 2" "BigInt (BNString ''0x3'') = Inr 3" by code_simp+
  from attestation_relayed [OF sample_compile_serde p] only sg num
  have "call_calldata call = drop 1 (p_output p) @ map hex_of [0, int 5, 2, 3]"
    by (metis zero_le_numeral)
  with p show ?thesis by auto
qed

text \<open>
  The pool's message is found by comparing strings. A service that spells the pool's address with
  leading zeros is not recognised: the proof has no output and the call carries no actions at all.
\<close>

theorem padded_sender_lost:
  "\<exists>proof call. prove sample_lib zod_accepts (\<lambda>_. sample_answers sample_result) sample_provider
       \<lparr>sender_address = ''0x00ab'', invocation_fields = []\<rparr> None = Inr proof \<and> p_output proof = [''0xc'', ''0x7''] \<and>
     prove sample_lib zod_accepts (\<lambda>_. sample_answers (JObject [(''proof'', JString ''p''), (''proof_facts'', JArray []),
       (''l2_to_l1_messages'', JArray [JObject [(''from_address'', JString ''0x00ab''), (''to_address'', JString ''0x0''),
        (''payload'', JArray [JString ''0xc'', JString ''0x7''])]])])) sample_provider sample_invocation None = Inr (proof\<lparr>p_output := [], additionalData := None\<rparr>) \<and>
     buildExecuteResult sample_lib sample_compile (BNString ''0xab'') (proof\<lparr>p_output := [], additionalData := None\<rparr>) = Inr call \<and>
     call_calldata call = [''0x1'']"
  by (rule exI [of _ "\<lparr>p_data = ''p'', p_output = [''0xc'', ''0x7''], proofFacts = [],
        additionalData = Some (Some \<lparr>issued_at = 5, sig_r = ''0x2'', sig_s = ''0x3''\<rparr>)\<rparr>"],
      rule exI [of _ "\<lparr>call_contractAddress = ''0xab'', call_entrypoint = ''apply_actions'', call_calldata = [''0x1'']\<rparr>"]) code_simp

end
