(* ===== verification/Builders.thy ===== *)
theory Builders
  imports Interfaces Screened_Address
begin

text \<open>
  The fluent builders \<open>sdk/src/internal/builders.ts\<close>, \<open>shadow-accounts.ts\<close> and the simple interface
  \<open>sdk/src/simple-private-transfers.ts\<close> on top of them. A method updates the builder in place and may
  throw in the middle of its arguments, so it returns the updated builder and the error, if any. The
  theorems: the collected actions are the contributions of the calls, grouped by token in the order of
  first use and in call order within a token, whichever way the token is spelled; and a transaction
  never holds two actions of the invoke phase.
\<close>

section \<open>Token operations\<close>

record TokenBuilder =
  tb_token :: int
  tb_openTokenChannels :: "OpenTokenChannelAction list"
  tb_useNotes :: "UseNoteAction list"
  tb_deposits :: "DepositAction list"
  tb_createNotes :: "CreateNoteAction list"
  tb_withdraws :: "WithdrawAction list"
  tb_surplusAction :: "SurplusAction option"

definition new_TokenBuilder :: "int \<Rightarrow> TokenBuilder" where
  "new_TokenBuilder t = \<lparr>tb_token = t, tb_openTokenChannels = [], tb_useNotes = [], tb_deposits = [], tb_createNotes = [],
     tb_withdraws = [], tb_surplusAction = None\<rparr>"

text \<open>A loop whose body may throw: what was done before stays done.\<close>

fun run_each :: "('a \<Rightarrow> 's \<Rightarrow> 's \<times> error option) \<Rightarrow> 'a list \<Rightarrow> 's \<Rightarrow> 's \<times> error option" where
  "run_each f [] s = (s, None)"
| "run_each f (x # xs) s = (case f x s of (s', Some e) \<Rightarrow> (s', Some e) | (s', None) \<Rightarrow> run_each f xs s')"

definition with_bigint :: "bignum \<Rightarrow> (int \<Rightarrow> 's \<Rightarrow> 's) \<Rightarrow> 's \<Rightarrow> 's \<times> error option" where
  "with_bigint a f s = (case toBigInt a of Inl e \<Rightarrow> (s, Some e) | Inr v \<Rightarrow> (f v s, None))"

definition tb_setup :: "bignum \<Rightarrow> TokenBuilder \<Rightarrow> TokenBuilder \<times> error option" where
  "tb_setup recipient tb = with_bigint recipient (\<lambda>r tb.
     tb\<lparr>tb_openTokenChannels := tb_openTokenChannels tb @ [\<lparr>ot_recipient = r, ot_token = tb_token tb\<rparr>]\<rparr>) tb"

definition tb_inputs :: "Note list \<Rightarrow> TokenBuilder \<Rightarrow> TokenBuilder \<times> error option" where
  "tb_inputs ns tb = run_each (\<lambda>note tb. (tb\<lparr>tb_useNotes := tb_useNotes tb @ [\<lparr>u_token = tb_token tb, u_note = note\<rparr>]\<rparr>, None)) ns tb"

record TokenDeposit =
  td_recipient :: "bignum option"
  td_amount :: int

definition tb_deposit1 :: "TokenDeposit \<Rightarrow> TokenBuilder \<Rightarrow> TokenBuilder \<times> error option" where
  "tb_deposit1 input tb0 =
     (let tb = tb0\<lparr>tb_deposits := tb_deposits tb0 @ [\<lparr>d_token = tb_token tb0, d_amount = td_amount input, d_noteId = None\<rparr>]\<rparr> in
      case td_recipient input of
        None \<Rightarrow> (tb, None)
      | Some a \<Rightarrow> with_bigint a (\<lambda>r tb. tb\<lparr>tb_createNotes := tb_createNotes tb @
            [\<lparr>c_recipient = r, c_token = tb_token tb, c_amount = Amt (td_amount input)\<rparr>]\<rparr>) tb)"

definition tb_deposit :: "TokenDeposit list \<Rightarrow> TokenBuilder \<Rightarrow> TokenBuilder \<times> error option" where
  "tb_deposit inputs tb = run_each tb_deposit1 inputs tb"

record TokenWithdraw =
  tw_recipient :: "bignum option"
  tw_amount :: int

definition tb_withdraw :: "bignum \<Rightarrow> TokenWithdraw list \<Rightarrow> TokenBuilder \<Rightarrow> TokenBuilder \<times> error option" where
  "tb_withdraw user outputs tb = run_each (\<lambda>out.
     with_bigint (case tw_recipient out of Some a \<Rightarrow> a | None \<Rightarrow> user) (\<lambda>r tb.
       tb\<lparr>tb_withdraws := tb_withdraws tb @ [\<lparr>wd_recipient = r, wd_token = tb_token tb, wd_amount = tw_amount out\<rparr>]\<rparr>)) outputs tb"

record TokenTransfer =
  tt_recipient :: bignum
  tt_amount :: Amount

definition tb_transfer :: "TokenTransfer list \<Rightarrow> TokenBuilder \<Rightarrow> TokenBuilder \<times> error option" where
  "tb_transfer outputs tb = run_each (\<lambda>out.
     with_bigint (tt_recipient out) (\<lambda>r tb.
       tb\<lparr>tb_createNotes := tb_createNotes tb @ [\<lparr>c_recipient = r, c_token = tb_token tb,
            c_amount = (if isOpen (tt_amount out) then Open else tt_amount out)\<rparr>]\<rparr>)) outputs tb"

definition tb_surplusTo :: "bignum \<Rightarrow> bool option \<Rightarrow> TokenBuilder \<Rightarrow> TokenBuilder \<times> error option" where
  "tb_surplusTo recipient withdraw tb = with_bigint recipient (\<lambda>r tb.
     tb\<lparr>tb_surplusAction := Some \<lparr>s_recipient = r, s_token = tb_token tb, s_withdraw = withdraw\<rparr>\<rparr>) tb"

section \<open>The transfers builder\<close>

text \<open>
  Options as they are passed: a missing key is \<open>None\<close>.
\<close>

record PartialOptions =
  po_autoRegister :: "bool option"
  po_discoverNotes :: "DiscoveryLevel option"
  po_discoverChannels :: "DiscoveryLevel option"
  po_autoSetup :: "bool option"
  po_autoSelectNotes :: "AutoSelectionStrategy option"
  po_registry :: "PrivateRegistry option"
  po_registryConst :: "bool option"
  po_provingBlockId :: "BlockId option"

definition no_partial :: PartialOptions where
  "no_partial = \<lparr>po_autoRegister = None, po_discoverNotes = None, po_discoverChannels = None, po_autoSetup = None,
     po_autoSelectNotes = None, po_registry = None, po_registryConst = None, po_provingBlockId = None\<rparr>"

definition over :: "'a option \<Rightarrow> 'a option \<Rightarrow> 'a option" where
  "over x y = (case x of Some v \<Rightarrow> Some v | None \<Rightarrow> y)"

definition mergeOptions :: "PartialOptions \<Rightarrow> PartialOptions \<Rightarrow> PartialOptions" where
  "mergeOptions build options =
     \<lparr>po_autoRegister = over (po_autoRegister options) (po_autoRegister build),
      po_discoverNotes = over (po_discoverNotes options) (po_discoverNotes build),
      po_discoverChannels = over (po_discoverChannels options) (po_discoverChannels build),
      po_autoSetup = over (po_autoSetup options) (po_autoSetup build),
      po_autoSelectNotes = over (po_autoSelectNotes options) (po_autoSelectNotes build),
      po_registry = over (po_registry options) (po_registry build),
      po_registryConst = over (po_registryConst options) (po_registryConst build),
      po_provingBlockId = over (po_provingBlockId options) (po_provingBlockId build)\<rparr>"

definition asExecuteOptions :: "PartialOptions \<Rightarrow> ExecuteOptions" where
  "asExecuteOptions p =
     \<lparr>autoRegister = (po_autoRegister p = Some True), autoDiscover_notes = po_discoverNotes p,
      autoDiscover_channels = po_discoverChannels p, autoSetup = (po_autoSetup p = Some True),
      autoSelectNotes = po_autoSelectNotes p, o_registry = po_registry p, registryConst = (po_registryConst p = Some True),
      provingBlockId = po_provingBlockId p\<rparr>"

record TransfersBuilder =
  pb_setViewingKey :: bool
  pb_openChannels :: "OpenChannelAction list"
  pb_invoke :: "InvokeAction option"
  pb_computeAndInvoke :: "ComputeAndInvokeAction option"
  pb_tokenBuilders :: "(int, TokenBuilder) jsmap"
  pb_defaultSurplus :: "(int \<times> bool option) option"     \<comment> \<open>its token is filled in when the actions are collected\<close>
  pb_userAddress :: bignum
  pb_buildOptions :: PartialOptions

definition new_TransfersBuilder :: "bignum \<Rightarrow> PartialOptions option \<Rightarrow> TransfersBuilder" where
  "new_TransfersBuilder user options =
     \<lparr>pb_setViewingKey = False, pb_openChannels = [], pb_invoke = None, pb_computeAndInvoke = None, pb_tokenBuilders = [],
      pb_defaultSurplus = None, pb_userAddress = user, pb_buildOptions = (case options of None \<Rightarrow> no_partial | Some p \<Rightarrow> p)\<rparr>"

definition pb_register :: "TransfersBuilder \<Rightarrow> TransfersBuilder \<times> error option" where
  "pb_register b = (b\<lparr>pb_setViewingKey := True\<rparr>, None)"

definition pb_setup :: "bignum \<Rightarrow> TransfersBuilder \<Rightarrow> TransfersBuilder \<times> error option" where
  "pb_setup recipient b = with_bigint recipient (\<lambda>r b. b\<lparr>pb_openChannels := pb_openChannels b @ [\<lparr>oc_recipient = r\<rparr>]\<rparr>) b"

definition assertNoInvokePhaseAction :: "TransfersBuilder \<Rightarrow> error option" where
  "assertNoInvokePhaseAction b =
     (if pb_invoke b \<noteq> None \<or> pb_computeAndInvoke b \<noteq> None then Some InvokePhaseTaken else None)"

definition pb_setInvoke :: "InvokeAction \<Rightarrow> TransfersBuilder \<Rightarrow> TransfersBuilder \<times> error option" where
  "pb_setInvoke callBuilder b = (case assertNoInvokePhaseAction b of
      Some e \<Rightarrow> (b, Some e) | None \<Rightarrow> (b\<lparr>pb_invoke := Some callBuilder\<rparr>, None))"

definition pb_setComputeAndInvoke :: "ComputeAndInvokeAction \<Rightarrow> TransfersBuilder \<Rightarrow> TransfersBuilder \<times> error option" where
  "pb_setComputeAndInvoke callBuilder b = (case assertNoInvokePhaseAction b of
      Some e \<Rightarrow> (b, Some e) | None \<Rightarrow> (b\<lparr>pb_computeAndInvoke := Some callBuilder\<rparr>, None))"

definition pb_surplusTo :: "bignum \<Rightarrow> bool option \<Rightarrow> TransfersBuilder \<Rightarrow> TransfersBuilder \<times> error option" where
  "pb_surplusTo recipient withdraw b = with_bigint recipient (\<lambda>r b. b\<lparr>pb_defaultSurplus := Some (r, withdraw)\<rparr>) b"

text \<open>\<open>with(token)\<close> and an operation on the token builder it returns.\<close>

definition pb_with ::
  "bignum \<Rightarrow> (TokenBuilder \<Rightarrow> TokenBuilder \<times> error option) \<Rightarrow> TransfersBuilder \<Rightarrow> TransfersBuilder \<times> error option"
where
  "pb_with token ops b = (case toBigInt token of
      Inl e \<Rightarrow> (b, Some e)
    | Inr t \<Rightarrow>
        let (m, tb) = jm_get_default (pb_tokenBuilders b) t (new_TokenBuilder t);
            (tb', r) = ops tb
        in (b\<lparr>pb_tokenBuilders := jm_set m t tb'\<rparr>, r))"

definition surplusOf :: "TransfersBuilder \<Rightarrow> int \<times> TokenBuilder \<Rightarrow> SurplusAction list" where
  "surplusOf b e = (case tb_surplusAction (snd e) of
      Some s \<Rightarrow> [s\<lparr>s_token := fst e\<rparr>]
    | None \<Rightarrow> (case pb_defaultSurplus b of
        Some (r, w) \<Rightarrow> [\<lparr>s_recipient = r, s_token = fst e, s_withdraw = w\<rparr>] | None \<Rightarrow> []))"

definition collectActions :: "TransfersBuilder \<Rightarrow> Actions" where
  "collectActions b =
     (let tbs = map snd (pb_tokenBuilders b) in
      \<lparr>a_setViewingKey = pb_setViewingKey b,
       a_openChannels = Some (pb_openChannels b),
       a_openTokenChannels = Some (concat (map tb_openTokenChannels tbs)),
       a_deposits = Some (concat (map tb_deposits tbs)),
       a_useNotes = Some (concat (map tb_useNotes tbs)),
       a_createNotes = Some (concat (map tb_createNotes tbs)),
       a_withdraws = Some (concat (map tb_withdraws tbs)),
       a_surpluses = Some (concat (map (surplusOf b) (pb_tokenBuilders b))),
       a_invoke = pb_invoke b,
       a_computeAndInvoke = pb_computeAndInvoke b\<rparr>)"

definition collectActionsAndOptions :: "TransfersBuilder \<Rightarrow> PartialOptions option \<Rightarrow> Actions \<times> PartialOptions" where
  "collectActionsAndOptions b options =
     (collectActions b, mergeOptions (pb_buildOptions b) (case options of None \<Rightarrow> no_partial | Some p \<Rightarrow> p))"

section \<open>Shadow accounts\<close>

text \<open>How much of a token an open note collects.\<close>

datatype CollectPolicy = CollectAll | CollectDiff | CollectExact int

record ShadowCall =
  sc_contractAddress :: string
  sc_entrypoint :: string
  sc_calldata :: "raw_arg list option"

text \<open>
  Functions of the package \<open>starknet\<close>; \<open>compileInvoke\<close> is \<open>compile("privacy_invoke_with_computation",
  [0n, calls, openNotes])\<close> with the calls as (to, selector, calldata) and the notes as (id, token, policy).
\<close>

record shadow_lib =
  encodeShortString :: "string \<Rightarrow> string result"
  getSelectorFromName :: "string \<Rightarrow> string"
  compileInvoke :: "(string \<times> string \<times> string list) list \<Rightarrow> (int \<times> int \<times> CollectPolicy) list \<Rightarrow> string list result"
  shadow_starknet :: starknet_lib

record ShadowAccounts =
  sh_dappName :: int
  sh_anonymizer :: int

datatype dapp_name = DappString string | DappFelt bignum

definition encodeDappName :: "shadow_lib \<Rightarrow> dapp_name \<Rightarrow> int result" where
  "encodeDappName S d = (case d of
      DappString s \<Rightarrow> bindR (encodeShortString S s) (\<lambda>h. toBigInt (BNString h))
    | DappFelt b \<Rightarrow> toBigInt b)"

definition new_ShadowAccounts :: "shadow_lib \<Rightarrow> dapp_name \<Rightarrow> bignum option \<Rightarrow> ShadowAccounts result" where
  "new_ShadowAccounts S dapp anonymizer = (case anonymizer of
      None \<Rightarrow> Inl (ConfigError ''shadowAccountAnonymizerAddress'')
    | Some a \<Rightarrow> bindR (encodeDappName S dapp) (\<lambda>d. bindR (toBigInt a) (\<lambda>an. Inr \<lparr>sh_dappName = d, sh_anonymizer = an\<rparr>)))"

definition anonymizerCall :: "shadow_lib \<Rightarrow> ShadowCall \<Rightarrow> string \<times> string \<times> string list" where
  "anonymizerCall S c = (sc_contractAddress c, getSelectorFromName S (sc_entrypoint c),
     callDataCompile (shadow_starknet S) (case sc_calldata c of None \<Rightarrow> [] | Some d \<Rightarrow> d))"

definition sh_callBuilder :: "shadow_lib \<Rightarrow> ShadowAccounts \<Rightarrow> int \<Rightarrow> ShadowCall list \<Rightarrow> CollectPolicy \<Rightarrow> ComputeAndInvokeAction" where
  "sh_callBuilder S sh nonceFelt calls policy args =
     bindR (compileInvoke S (map (anonymizerCall S) calls) (map (\<lambda>n. (io_noteId n, io_token n, policy)) (openNotes args))) (\<lambda>felts.
     bindR (mapR (\<lambda>x. toBigInt (BNString x)) (drop 1 felts)) (\<lambda>invokeData.
     Inr \<lparr>ci_contractAddress = BNString (hex_of (sh_anonymizer sh)),
          computeAdditionalData = Some [RawNum (BNBigint (sh_dappName sh)), RawNum (BNBigint nonceFelt)],
          invokeAdditionalData = Some (map (\<lambda>v. RawNum (BNBigint v)) invokeData)\<rparr>))"

definition sh_invoke ::
  "shadow_lib \<Rightarrow> ShadowAccounts \<Rightarrow> bignum \<Rightarrow> ShadowCall list \<Rightarrow> CollectPolicy option \<Rightarrow> TransfersBuilder \<Rightarrow> TransfersBuilder \<times> error option"
where
  "sh_invoke S sh nonce calls policy b = (case toBigInt nonce of
      Inl e \<Rightarrow> (b, Some e)
    | Inr n \<Rightarrow> pb_setComputeAndInvoke (sh_callBuilder S sh n calls (case policy of None \<Rightarrow> CollectAll | Some p \<Rightarrow> p)) b)"

definition sh_partialCommitment :: "shadow_lib \<Rightarrow> ShadowAccounts \<Rightarrow> int \<Rightarrow> bignum \<Rightarrow> int result" where
  "sh_partialCommitment S sh user vk = bindR (toBigInt vk) (\<lambda>k.
     Inr (shadowAccountPartialCommitment (shadow_starknet S) user k (sh_anonymizer sh) (sh_dappName sh)))"

definition sh_commitment :: "shadow_lib \<Rightarrow> ShadowAccounts \<Rightarrow> int \<Rightarrow> bignum \<Rightarrow> bignum \<Rightarrow> int result" where
  "sh_commitment S sh user vk nonce = bindR (sh_partialCommitment S sh user vk) (\<lambda>p.
     bindR (toBigInt nonce) (\<lambda>n. Inr (shadowAccountCommitment (shadow_starknet S) p n)))"

section \<open>The simple interface\<close>

datatype AmountOrAll = Exactly int | All

record SimpleTransfers =
  sp_user :: int
  sp_registry :: PrivateRegistry

definition sp_build :: "SimpleTransfers \<Rightarrow> SimpleTransfers \<times> TransfersBuilder" where
  "sp_build s =
     (let reg = (sp_registry s)\<lparr>reg_notes := []\<rparr> in
      (s\<lparr>sp_registry := reg\<rparr>,
       new_TransfersBuilder (BNBigint (sp_user s)) (Some (no_partial\<lparr>po_discoverNotes := Some Refresh, po_discoverChannels := Some Refresh,
          po_autoSetup := Some True, po_autoSelectNotes := Some SelectAll, po_registry := Some reg\<rparr>))))"

text \<open>A chain of calls on one builder, up to the first that throws; then \<open>execute()\<close>.\<close>

fun chain :: "(TransfersBuilder \<Rightarrow> TransfersBuilder \<times> error option) list \<Rightarrow> TransfersBuilder \<Rightarrow> (Actions \<times> PartialOptions) result" where
  "chain [] b = Inr (collectActionsAndOptions b None)"
| "chain (c # cs) b = (case c b of (b', Some e) \<Rightarrow> Inl e | (b', None) \<Rightarrow> chain cs b')"

definition sp_deposit :: "bignum \<Rightarrow> int \<Rightarrow> SimpleTransfers \<Rightarrow> (Actions \<times> PartialOptions) result" where
  "sp_deposit token amount s = chain [pb_with token (tb_deposit [\<lparr>td_recipient = None, td_amount = amount\<rparr>])] (snd (sp_build s))"

definition sp_withdraw :: "bignum \<Rightarrow> bignum \<Rightarrow> AmountOrAll \<Rightarrow> SimpleTransfers \<Rightarrow> (Actions \<times> PartialOptions) result" where
  "sp_withdraw token recipient amount s = (case amount of
      All \<Rightarrow> chain [pb_with token (tb_surplusTo recipient (Some True))] (snd (sp_build s))
    | Exactly x \<Rightarrow> chain [pb_with token (tb_withdraw (BNBigint (sp_user s)) [\<lparr>tw_recipient = Some recipient, tw_amount = x\<rparr>]),
                          pb_with token (tb_surplusTo (BNBigint (sp_user s)) (Some False))] (snd (sp_build s)))"

definition sp_transfer :: "bignum \<Rightarrow> bignum \<Rightarrow> AmountOrAll \<Rightarrow> SimpleTransfers \<Rightarrow> (Actions \<times> PartialOptions) result" where
  "sp_transfer token recipient amount s = (case amount of
      All \<Rightarrow> chain [pb_with token (tb_surplusTo recipient (Some False))] (snd (sp_build s))
    | Exactly x \<Rightarrow> chain [pb_with token (tb_transfer [\<lparr>tt_recipient = recipient, tt_amount = Amt x\<rparr>]),
                          pb_with token (tb_surplusTo (BNBigint (sp_user s)) (Some False))] (snd (sp_build s)))"

definition swapCall :: "starknet_lib \<Rightarrow> bignum \<Rightarrow> int \<Rightarrow> InvokeAction" where
  "swapCall L executor toToken args =
     (case (withdrawals args, openNotes args) of
        (w # _, n # _) \<Rightarrow> bindR (toHex L (NBig executor) True) (\<lambda>h.
          Inr \<lparr>cd_contractAddress = BNString h,
               cd_calldata = Some (map (\<lambda>v. RawNum (BNBigint v)) [wd_token w, toToken, wd_amount w, io_noteId n])\<rparr>)
      | _ \<Rightarrow> Inl (TypeError ''undefined''))"

definition sp_swap :: "starknet_lib \<Rightarrow> bignum \<Rightarrow> int \<Rightarrow> bignum \<Rightarrow> bignum \<Rightarrow> SimpleTransfers \<Rightarrow> (Actions \<times> PartialOptions) result" where
  "sp_swap L fromToken fromAmount toToken executor s =
     bindR (toBigInt toToken) (\<lambda>toTokenAddress.
     chain [pb_with fromToken (tb_withdraw (BNBigint (sp_user s)) [\<lparr>tw_recipient = Some executor, tw_amount = fromAmount\<rparr>]),
            pb_with fromToken (tb_surplusTo (BNBigint (sp_user s)) (Some False)),
            pb_with toToken (tb_transfer [\<lparr>tt_recipient = BNBigint (sp_user s), tt_amount = Open\<rparr>]),
            pb_setInvoke (swapCall L executor toTokenAddress)] (snd (sp_build s)))"

section \<open>The reference: calls and what they contribute\<close>

datatype call =
    OpenToken bignum
  | Inputs "Note list"
  | Deposits "TokenDeposit list"
  | Withdraws "TokenWithdraw list"
  | Transfers "TokenTransfer list"
  | Surplus bignum "bool option"

definition perform :: "bignum \<Rightarrow> call \<Rightarrow> TokenBuilder \<Rightarrow> TokenBuilder \<times> error option" where
  "perform user c = (case c of
      OpenToken r \<Rightarrow> tb_setup r
    | Inputs ns \<Rightarrow> tb_inputs ns
    | Deposits ds \<Rightarrow> tb_deposit ds
    | Withdraws ws \<Rightarrow> tb_withdraw user ws
    | Transfers ts \<Rightarrow> tb_transfer ts
    | Surplus r w \<Rightarrow> tb_surplusTo r w)"

text \<open>Calls on token builders, each reached through \<open>with(token)\<close>.\<close>

definition perform_all :: "(bignum \<times> call) list \<Rightarrow> TransfersBuilder \<Rightarrow> TransfersBuilder \<times> error option" where
  "perform_all cs b = run_each (\<lambda>(token, c) b. pb_with token (perform (pb_userAddress b) c) b) cs b"

definition opened :: "int \<Rightarrow> call \<Rightarrow> OpenTokenChannelAction list" where
  "opened t c = (case c of OpenToken r \<Rightarrow> [\<lparr>ot_recipient = bn_val r, ot_token = t\<rparr>] | _ \<Rightarrow> [])"

definition used :: "int \<Rightarrow> call \<Rightarrow> UseNoteAction list" where
  "used t c = (case c of Inputs ns \<Rightarrow> map (\<lambda>n. \<lparr>u_token = t, u_note = n\<rparr>) ns | _ \<Rightarrow> [])"

definition paid_in :: "int \<Rightarrow> call \<Rightarrow> DepositAction list" where
  "paid_in t c = (case c of Deposits ds \<Rightarrow> map (\<lambda>d. \<lparr>d_token = t, d_amount = td_amount d, d_noteId = None\<rparr>) ds | _ \<Rightarrow> [])"

definition created :: "int \<Rightarrow> call \<Rightarrow> CreateNoteAction list" where
  "created t c = (case c of
      Deposits ds \<Rightarrow> concat (map (\<lambda>d. case td_recipient d of None \<Rightarrow> []
         | Some r \<Rightarrow> [\<lparr>c_recipient = bn_val r, c_token = t, c_amount = Amt (td_amount d)\<rparr>]) ds)
    | Transfers ts \<Rightarrow> map (\<lambda>x. \<lparr>c_recipient = bn_val (tt_recipient x), c_token = t, c_amount = tt_amount x\<rparr>) ts
    | _ \<Rightarrow> [])"

definition paid_out :: "bignum \<Rightarrow> int \<Rightarrow> call \<Rightarrow> WithdrawAction list" where
  "paid_out user t c = (case c of
      Withdraws ws \<Rightarrow> map (\<lambda>w. \<lparr>wd_recipient = bn_val (case tw_recipient w of Some a \<Rightarrow> a | None \<Rightarrow> user), wd_token = t, wd_amount = tw_amount w\<rparr>) ws
    | _ \<Rightarrow> [])"

definition surplus_set :: "int \<Rightarrow> call \<Rightarrow> SurplusAction list" where
  "surplus_set t c = (case c of Surplus r w \<Rightarrow> [\<lparr>s_recipient = bn_val r, s_token = t, s_withdraw = w\<rparr>] | _ \<Rightarrow> [])"

text \<open>A token builder after some calls on it.\<close>

definition built :: "bignum \<Rightarrow> int \<Rightarrow> call list \<Rightarrow> TokenBuilder" where
  "built user t cs = \<lparr>tb_token = t, tb_openTokenChannels = concat (map (opened t) cs), tb_useNotes = concat (map (used t) cs),
     tb_deposits = concat (map (paid_in t) cs), tb_createNotes = concat (map (created t) cs),
     tb_withdraws = concat (map (paid_out user t) cs),
     tb_surplusAction = (case rev (concat (map (surplus_set t) cs)) of [] \<Rightarrow> None | s # _ \<Rightarrow> Some s)\<rparr>"

lemma with_bigint_ok: "with_bigint a f s = (s', None) \<longleftrightarrow> (\<exists>v. toBigInt a = Inr v \<and> s' = f (bn_val a) s)"
  by (auto simp: with_bigint_def bn_val_def split: sum.splits)

lemma run_each_ok:
  assumes "\<And>x s s'. f x s = (s', None) \<Longrightarrow> s' = g x s" "run_each f xs s = (s', None)"
  shows "s' = foldl (\<lambda>s x. g x s) s xs"
  using assms(2)
proof (induction xs arbitrary: s)
  case (Cons x xs)
  from Cons(2) obtain s1 where s1: "f x s = (s1, None)" "run_each f xs s1 = (s', None)"
    by (auto split: prod.splits option.splits)
  with assms(1) [OF s1(1)] Cons(1) [OF s1(2)] show ?case by simp
qed simp

lemma inputs_ok: "tb_inputs ns tb = (tb', None) \<Longrightarrow>
    tb' = tb\<lparr>tb_useNotes := tb_useNotes tb @ used (tb_token tb) (Inputs ns)\<rparr>"
proof -
  assume "tb_inputs ns tb = (tb', None)"
  then have "tb' = foldl (\<lambda>tb n. tb\<lparr>tb_useNotes := tb_useNotes tb @ [\<lparr>u_token = tb_token tb, u_note = n\<rparr>]\<rparr>) tb ns"
    unfolding tb_inputs_def by (intro run_each_ok) auto
  also have "\<dots> = tb\<lparr>tb_useNotes := tb_useNotes tb @ used (tb_token tb) (Inputs ns)\<rparr>"
    by (induction ns arbitrary: tb) (simp_all add: used_def)
  finally show ?thesis .
qed

lemma deposit_ok: "tb_deposit ds tb = (tb', None) \<Longrightarrow>
    tb' = tb\<lparr>tb_deposits := tb_deposits tb @ paid_in (tb_token tb) (Deposits ds),
             tb_createNotes := tb_createNotes tb @ created (tb_token tb) (Deposits ds)\<rparr>"
proof -
  assume "tb_deposit ds tb = (tb', None)"
  then have "tb' = foldl (\<lambda>tb d. tb\<lparr>tb_deposits := tb_deposits tb @ paid_in (tb_token tb) (Deposits [d]),
      tb_createNotes := tb_createNotes tb @ created (tb_token tb) (Deposits [d])\<rparr>) tb ds"
    unfolding tb_deposit_def
    by (intro run_each_ok) (auto simp: tb_deposit1_def Let_def with_bigint_ok paid_in_def created_def split: option.splits)
  also have "\<dots> = tb\<lparr>tb_deposits := tb_deposits tb @ paid_in (tb_token tb) (Deposits ds),
      tb_createNotes := tb_createNotes tb @ created (tb_token tb) (Deposits ds)\<rparr>"
    by (induction ds arbitrary: tb) (simp_all add: paid_in_def created_def cong: option.case_cong)
  finally show ?thesis .
qed

lemma withdraw_ok: "tb_withdraw user ws tb = (tb', None) \<Longrightarrow>
    tb' = tb\<lparr>tb_withdraws := tb_withdraws tb @ paid_out user (tb_token tb) (Withdraws ws)\<rparr>"
proof -
  assume "tb_withdraw user ws tb = (tb', None)"
  then have "tb' = foldl (\<lambda>tb w. tb\<lparr>tb_withdraws := tb_withdraws tb @ paid_out user (tb_token tb) (Withdraws [w])\<rparr>) tb ws"
    unfolding tb_withdraw_def by (intro run_each_ok) (auto simp: with_bigint_ok paid_out_def)
  also have "\<dots> = tb\<lparr>tb_withdraws := tb_withdraws tb @ paid_out user (tb_token tb) (Withdraws ws)\<rparr>"
    by (induction ws arbitrary: tb) (simp_all add: paid_out_def)
  finally show ?thesis .
qed

lemma transfer_ok: "tb_transfer ts tb = (tb', None) \<Longrightarrow>
    tb' = tb\<lparr>tb_createNotes := tb_createNotes tb @ created (tb_token tb) (Transfers ts)\<rparr>"
proof -
  assume "tb_transfer ts tb = (tb', None)"
  then have "tb' = foldl (\<lambda>tb x. tb\<lparr>tb_createNotes := tb_createNotes tb @ created (tb_token tb) (Transfers [x])\<rparr>) tb ts"
    unfolding tb_transfer_def
    by (intro run_each_ok) (auto simp: with_bigint_ok created_def isOpen_def split: Amount.splits)
  also have "\<dots> = tb\<lparr>tb_createNotes := tb_createNotes tb @ created (tb_token tb) (Transfers ts)\<rparr>"
    by (induction ts arbitrary: tb) (simp_all add: created_def)
  finally show ?thesis .
qed

lemmas contributions = opened_def used_def paid_in_def created_def paid_out_def surplus_set_def

lemma perform_ok:
  assumes "perform user c (built user t cs) = (tb', None)"
  shows "tb' = built user t (cs @ [c])"
proof (cases c)
  case (OpenToken r)
  then show ?thesis using assms by (auto simp: perform_def tb_setup_def with_bigint_ok built_def contributions)
next
  case (Inputs ns)
  then show ?thesis using assms inputs_ok [of ns "built user t cs" tb'] by (simp add: perform_def built_def contributions)
next
  case (Deposits ds)
  then show ?thesis using assms deposit_ok [of ds "built user t cs" tb'] by (simp add: perform_def built_def contributions)
next
  case (Withdraws ws)
  then show ?thesis using assms withdraw_ok [of user ws "built user t cs" tb'] by (simp add: perform_def built_def contributions)
next
  case (Transfers ts)
  then show ?thesis using assms transfer_ok [of ts "built user t cs" tb'] by (simp add: perform_def built_def contributions)
next
  case (Surplus r w)
  then show ?thesis using assms
    by (auto simp: perform_def tb_surplusTo_def with_bigint_ok built_def contributions split: list.split)
qed

text \<open>The calls on one token, by value, and the tokens in the order of their first use.\<close>

definition calls_on :: "(bignum \<times> call) list \<Rightarrow> int \<Rightarrow> call list" where
  "calls_on cs t = map snd (filter (\<lambda>c. bn_val (fst c) = t) cs)"

definition first_uses :: "(bignum \<times> call) list \<Rightarrow> int list" where
  "first_uses cs = rev (remdups (rev (map (\<lambda>c. bn_val (fst c)) cs)))"

lemma first_uses_snoc: "first_uses (cs @ [c]) = (if bn_val (fst c) \<in> set (first_uses cs) then first_uses cs else first_uses cs @ [bn_val (fst c)])"
  by (simp add: first_uses_def)

lemma calls_on_snoc: "calls_on (cs @ [c]) t = (if bn_val (fst c) = t then calls_on cs t @ [snd c] else calls_on cs t)"
  by (simp add: calls_on_def)

lemma calls_on_unused: "t \<notin> set (first_uses cs) \<Longrightarrow> calls_on cs t = []"
  by (auto simp: calls_on_def first_uses_def filter_empty_conv)

definition by_token :: "(bignum \<times> call) list \<Rightarrow> (int \<Rightarrow> call \<Rightarrow> 'a list) \<Rightarrow> 'a list" where
  "by_token cs f = concat (map (\<lambda>t. concat (map (f t) (calls_on cs t))) (first_uses cs))"

definition grouped :: "bignum \<Rightarrow> (bignum \<times> call) list \<Rightarrow> (int, TokenBuilder) jsmap" where
  "grouped user cs = map (\<lambda>t. (t, built user t (calls_on cs t))) (first_uses cs)"

lemma grouped_get: "jm_get (grouped user cs) t = (if t \<in> set (first_uses cs) then Some (built user t (calls_on cs t)) else None)"
proof -
  have "jm_get (map (\<lambda>t. (t, f t)) ts) t = (if t \<in> set ts then Some (f t) else None)" for f :: "int \<Rightarrow> TokenBuilder" and ts
    by (induction ts) auto
  then show ?thesis by (simp add: grouped_def)
qed

lemma jm_set_update:
  "distinct ts \<Longrightarrow> t \<in> set ts \<Longrightarrow> jm_set (map (\<lambda>u. (u, f u)) ts) t v = map (\<lambda>u. (u, if u = t then v else f u)) ts"
  by (induction ts) auto

lemma grouped_step:
  assumes "bn_val token = t"
  shows "jm_set (grouped user cs) t (built user t (calls_on cs t @ [c])) = grouped user (cs @ [(token, c)])"
proof (cases "t \<in> set (first_uses cs)")
  case True
  have "distinct (first_uses cs)" by (simp add: first_uses_def)
  with True assms show ?thesis
    by (auto simp: grouped_def jm_set_update first_uses_snoc calls_on_snoc)
next
  case False
  then have "\<not> jm_has (grouped user cs) t" by (simp add: jm_has_def grouped_get)
  with False assms show ?thesis
    by (auto simp: jm_set_fresh grouped_def first_uses_snoc calls_on_snoc calls_on_unused)
qed

lemma run_each_snoc:
  "run_each f (xs @ [x]) s = (case run_each f xs s of (s', Some e) \<Rightarrow> (s', Some e) | (s', None) \<Rightarrow> f x s')"
  by (induction xs arbitrary: s) (auto split: prod.splits option.splits)

lemma built_Nil: "built user t [] = new_TokenBuilder t"
  by (simp add: built_def new_TokenBuilder_def)

lemma pb_with_ok:
  assumes "pb_with token (perform user c) b = (b', None)" "pb_tokenBuilders b = grouped user cs"
  shows "b' = b\<lparr>pb_tokenBuilders := grouped user (cs @ [(token, c)])\<rparr>"
proof -
  obtain t where t: "toBigInt token = Inr t" using assms(1) by (auto simp: pb_with_def split: sum.splits)
  then have val: "bn_val token = t" by (simp add: bn_val_def)
  let ?tb = "built user t (calls_on cs t)"
  have tb: "snd (jm_get_default (grouped user cs) t (new_TokenBuilder t)) = ?tb"
    using calls_on_unused [of t cs] built_Nil [of user t] by (simp add: jm_get_default_snd grouped_get)
  obtain tb' where tb': "perform user c ?tb = (tb', None)"
    "b' = b\<lparr>pb_tokenBuilders := jm_set (fst (jm_get_default (grouped user cs) t (new_TokenBuilder t))) t tb'\<rparr>"
    using assms t tb by (auto simp: pb_with_def split_def prod_eq_iff Let_def)
  have "jm_set (fst (jm_get_default m t d)) t v = jm_set m t v" for m and d v :: TokenBuilder
  proof -
    have "jm_set (jm_set m t d) t v = jm_set m t v" by (induction m t d rule: jm_set.induct) auto
    then show ?thesis by (simp add: jm_get_default_def split: option.split)
  qed
  with tb' perform_ok [OF tb'(1)] grouped_step [OF val] show ?thesis by simp
qed

lemma perform_all_grouped:
  assumes "perform_all cs b = (b', None)" "pb_tokenBuilders b = []"
  shows "b' = b\<lparr>pb_tokenBuilders := grouped (pb_userAddress b) cs\<rparr>"
  using assms(1)
proof (induction cs arbitrary: b' rule: rev_induct)
  case Nil
  then show ?case using assms(2) by (simp add: perform_all_def grouped_def first_uses_def)
next
  case (snoc c cs)
  obtain b1 where b1: "perform_all cs b = (b1, None)" "pb_with (fst c) (perform (pb_userAddress b1) (snd c)) b1 = (b', None)"
    using snoc(2) by (auto simp: perform_all_def run_each_snoc split: prod.splits option.splits)
  from snoc(1) [OF b1(1)] have b1': "b1 = b\<lparr>pb_tokenBuilders := grouped (pb_userAddress b) cs\<rparr>" .
  with pb_with_ok [OF b1(2), of cs] show ?case by simp
qed

text \<open>
  C31: The builder is equivalent to a stable grouping of its calls. After any sequence of calls on token
  builders that do not throw, the actions handed to the compiler are, kind by kind, the contributions of
  the calls grouped by token: tokens in the order of their first use, the calls of one token in the
  order they were made, and two spellings of an address are one token. The surplus of a token goes to
  its last \<open>surplusTo\<close>, else to the builder's default.
\<close>

theorem builder_groups_calls:
  assumes "perform_all cs (b\<lparr>pb_tokenBuilders := []\<rparr>) = (b', None)"
  shows "a_openTokenChannels (collectActions b') = Some (by_token cs opened) \<and>
     a_useNotes (collectActions b') = Some (by_token cs used) \<and>
     a_deposits (collectActions b') = Some (by_token cs paid_in) \<and>
     a_createNotes (collectActions b') = Some (by_token cs created) \<and>
     a_withdraws (collectActions b') = Some (by_token cs (paid_out (pb_userAddress b))) \<and>
     a_surpluses (collectActions b') = Some (concat (map (\<lambda>t.
       case (rev (concat (map (surplus_set t) (calls_on cs t))), pb_defaultSurplus b) of
         (s # _, _) \<Rightarrow> [s]
       | ([], Some (r, w)) \<Rightarrow> [\<lparr>s_recipient = r, s_token = t, s_withdraw = w\<rparr>]
       | ([], None) \<Rightarrow> []) (first_uses cs)))"
proof -
  have b': "b' = b\<lparr>pb_tokenBuilders := grouped (pb_userAddress b) cs\<rparr>"
    using perform_all_grouped [OF assms] by simp
  have s_token: "\<forall>s \<in> set (concat (map (surplus_set t) xs)). s_token s = t" for t xs
    by (induction xs) (auto simp: surplus_set_def split: call.splits)
  have "surplusOf b' (t, built (pb_userAddress b) t xs) =
      (case (rev (concat (map (surplus_set t) xs)), pb_defaultSurplus b) of
         (s # _, _) \<Rightarrow> [s]
       | ([], Some (r, w)) \<Rightarrow> [\<lparr>s_recipient = r, s_token = t, s_withdraw = w\<rparr>]
       | ([], None) \<Rightarrow> [])" for t xs
  proof -
    have sa: "tb_surplusAction (built (pb_userAddress b) t xs) =
        (case rev (concat (map (surplus_set t) xs)) of [] \<Rightarrow> None | s # _ \<Rightarrow> Some s)" by (simp add: built_def)
    obtain ss where ss: "rev (concat (map (surplus_set t) xs)) = ss" by blast
    then have "\<forall>s \<in> set ss. s_token s = t" using s_token [of t xs] by (metis set_rev)
    then show ?thesis
      by (cases ss) (simp_all only: surplusOf_def fst_conv snd_conv sa ss, auto simp: b' split: option.split)
  qed
  then show ?thesis
    by (simp add: by_token_def b' collectActions_def grouped_def comp_def) (simp add: built_def)
qed

definition sample_calls :: "(bignum \<times> call) list" where
  "sample_calls = [(BNBigint 16, Deposits [\<lparr>td_recipient = None, td_amount = 5\<rparr>]), (BNBigint 2, OpenToken (BNBigint 9)),
     (BNString ''0x10'', Withdraws [\<lparr>tw_recipient = None, tw_amount = 3\<rparr>])]"

theorem builder_groups_calls_witness:
  "a_withdraws (collectActions (fst (perform_all sample_calls ((new_TransfersBuilder (BNBigint 7) None)\<lparr>pb_tokenBuilders := []\<rparr>)))) =
     Some [\<lparr>wd_recipient = 7, wd_token = 16, wd_amount = 3\<rparr>]"
proof -
  let ?b = "new_TransfersBuilder (BNBigint 7) None"
  have "snd (perform_all sample_calls (?b\<lparr>pb_tokenBuilders := []\<rparr>)) = None" by code_simp
  then have "perform_all sample_calls (?b\<lparr>pb_tokenBuilders := []\<rparr>) = (fst (perform_all sample_calls (?b\<lparr>pb_tokenBuilders := []\<rparr>)), None)"
    by (simp add: prod_eq_iff)
  from builder_groups_calls [OF this]
  have "a_withdraws (collectActions (fst (perform_all sample_calls (?b\<lparr>pb_tokenBuilders := []\<rparr>)))) =
      Some (by_token sample_calls (paid_out (pb_userAddress ?b)))" by simp
  moreover have "by_token sample_calls (paid_out (pb_userAddress ?b)) = [\<lparr>wd_recipient = 7, wd_token = 16, wd_amount = 3\<rparr>]" by code_simp
  ultimately show ?thesis by simp
qed

section \<open>One invoke phase\<close>

inductive builder_step :: "TransfersBuilder \<Rightarrow> TransfersBuilder \<Rightarrow> bool" where
  register: "builder_step b (fst (pb_register b))"
| channel: "builder_step b (fst (pb_setup r b))"
| surplus: "builder_step b (fst (pb_surplusTo r w b))"
| invoke: "builder_step b (fst (pb_setInvoke f b))"
| compute: "builder_step b (fst (pb_setComputeAndInvoke g b))"
| shadow: "builder_step b (fst (sh_invoke S sh n calls policy b))"
| token: "builder_step b (fst (pb_with t ops b))"

lemma invoke_phase_step:
  "builder_step b b' \<Longrightarrow> (pb_invoke b = None \<or> pb_computeAndInvoke b = None) \<Longrightarrow>
     (pb_invoke b' = None \<or> pb_computeAndInvoke b' = None) \<and>
     (\<forall>f. pb_invoke b = Some f \<longrightarrow> pb_invoke b' = Some f) \<and>
     (\<forall>g. pb_computeAndInvoke b = Some g \<longrightarrow> pb_computeAndInvoke b' = Some g)"
  by (induction rule: builder_step.induct)
    (auto simp: pb_register_def pb_setup_def pb_surplusTo_def with_bigint_def pb_setInvoke_def pb_setComputeAndInvoke_def
      sh_invoke_def assertNoInvokePhaseAction_def pb_with_def split_def Let_def split: sum.splits option.splits)

text \<open>
  A transaction has at most one action of the invoke phase. Whatever calls are made on a builder,
  also after one has thrown, it never holds both an \<open>invoke\<close> and a \<open>computeAndInvoke\<close>; the first one that
  was set is the one that is sent; and setting another one throws and changes nothing.
\<close>

theorem one_invoke_phase:
  assumes "builder_step\<^sup>*\<^sup>* (new_TransfersBuilder user options) b" "builder_step\<^sup>*\<^sup>* b b'"
  shows "\<not> (a_invoke (collectActions b') \<noteq> None \<and> a_computeAndInvoke (collectActions b') \<noteq> None) \<and>
     (\<forall>f. a_invoke (collectActions b) = Some f \<longrightarrow> a_invoke (collectActions b') = Some f) \<and>
     (\<forall>g. a_computeAndInvoke (collectActions b) = Some g \<longrightarrow> a_computeAndInvoke (collectActions b') = Some g) \<and>
     (a_invoke (collectActions b) \<noteq> None \<or> a_computeAndInvoke (collectActions b) \<noteq> None \<longrightarrow>
        pb_setInvoke f b = (b, Some InvokePhaseTaken) \<and> pb_setComputeAndInvoke g b = (b, Some InvokePhaseTaken))"
proof -
  have one: "pb_invoke b = None \<or> pb_computeAndInvoke b = None"
    using assms(1)
  proof (induction rule: rtranclp_induct)
    case base
    show ?case by (simp add: new_TransfersBuilder_def)
  next
    case (step b b')
    from invoke_phase_step [OF step(2,3)] show ?case by (rule conjunct1)
  qed
  have "(pb_invoke b' = None \<or> pb_computeAndInvoke b' = None) \<and> (\<forall>f. pb_invoke b = Some f \<longrightarrow> pb_invoke b' = Some f) \<and>
      (\<forall>g. pb_computeAndInvoke b = Some g \<longrightarrow> pb_computeAndInvoke b' = Some g)"
    using assms(2)
  proof (induction rule: rtranclp_induct)
    case base
    show ?case using one by blast
  next
    case (step b1 b2)
    with invoke_phase_step [OF step(2) conjunct1 [OF step(3)]] show ?case by simp
  qed
  then show ?thesis
    by (auto simp: collectActions_def Let_def pb_setInvoke_def pb_setComputeAndInvoke_def assertNoInvokePhaseAction_def)
qed

theorem one_invoke_phase_witness:
  "\<exists>f. let b = fst (pb_setInvoke f (new_TransfersBuilder (BNBigint 1) None)) in
     pb_setComputeAndInvoke (\<lambda>_. Inl NoResult) b = (b, Some InvokePhaseTaken)"
proof -
  let ?b0 = "new_TransfersBuilder (BNBigint 1) None" and ?f = "\<lambda>_. Inl NoResult"
  have r: "builder_step\<^sup>*\<^sup>* ?b0 (fst (pb_setInvoke ?f ?b0))" by (rule r_into_rtranclp) (rule builder_step.invoke)
  have "a_invoke (collectActions (fst (pb_setInvoke ?f ?b0))) \<noteq> None"
    by (simp add: collectActions_def pb_setInvoke_def assertNoInvokePhaseAction_def new_TransfersBuilder_def Let_def)
  with one_invoke_phase [OF r rtranclp.rtrancl_refl] show ?thesis
    by (intro exI [of _ ?f]) (simp add: Let_def)
qed

end
