(* ===== verification/Execution.thy ===== *)
theory Execution
  imports Proving Samples Builders Contract_Discovery
begin

text \<open>
  From actions to a call: \<open>sdk/src/internal/proof-invocation-factory.ts\<close>, \<open>serialization.ts\<close>,
  \<open>private-transfers.ts\<close>, \<open>abstract-private-transfers.ts\<close>, the simulated prover \<open>mock-proving.ts\<close> and the proof
  facts \<open>utils/proof-facts.ts\<close>. ABI encoders, signer and node are parameters.
\<close>

section \<open>serialization.ts\<close>

definition CLIENT_ACTION_TYPES :: "string list" where
  "CLIENT_ACTION_TYPES = [''SetViewingKey'', ''OpenChannel'', ''OpenSubchannel'', ''CreateEncNote'', ''CreateOpenNote'',
     ''Deposit'', ''UseNote'', ''Withdraw'', ''InvokeExternal'', ''ComputeAndInvoke'']"

fun action_type :: "ClientAction \<Rightarrow> string" where
  "action_type (SetViewingKey _) = ''SetViewingKey''"
| "action_type (OpenChannel _) = ''OpenChannel''"
| "action_type (OpenSubchannel _) = ''OpenSubchannel''"
| "action_type (CreateEncNote _) = ''CreateEncNote''"
| "action_type (CreateOpenNote _) = ''CreateOpenNote''"
| "action_type (Deposit _) = ''Deposit''"
| "action_type (UseNote _) = ''UseNote''"
| "action_type (Withdraw _) = ''Withdraw''"
| "action_type (InvokeExternal _) = ''InvokeExternal''"
| "action_type (ComputeAndInvoke _) = ''ComputeAndInvoke''"

text \<open>The variants in the order of the ABI, \<open>None\<close> for \<open>undefined\<close>; the input is kept inside its action.\<close>

type_synonym CairoCustomEnum = "(string \<times> ClientAction option) list"

definition toCairoEnum :: "ClientAction \<Rightarrow> CairoCustomEnum" where
  "toCairoEnum action = map (\<lambda>variant. (variant, if variant = action_type action then Some action else None)) CLIENT_ACTION_TYPES"

definition serializeClientActions :: "ClientAction list \<Rightarrow> CairoCustomEnum list" where
  "serializeClientActions actions = map toCairoEnum actions"

section \<open>The invocation\<close>

text \<open>
  \<open>compileActionsCall\<close> and \<open>compileExecuteCall\<close> are \<open>CallData.compile\<close> of the pool's \<open>compile_actions\<close> and
  \<open>__execute__\<close>; \<open>signTransaction\<close> is the signer's answer after \<open>formatSignature\<close>. The details are those
  of \<open>getDefaultProofDetails\<close>, in which every optional field but the nonce is set.
\<close>

record invocation_lib =
  inv_starknet :: starknet_lib
  compileActionsCall :: "int \<Rightarrow> bignum \<Rightarrow> CairoCustomEnum list \<Rightarrow> string list result"
  compileExecuteCall :: "string \<Rightarrow> string list \<Rightarrow> string list"
  signTransaction :: "string \<Rightarrow> string list \<Rightarrow> ProofDetails \<Rightarrow> string list result"

definition compileExecuteCalldata :: "invocation_lib \<Rightarrow> string \<Rightarrow> string list \<Rightarrow> string list" where
  "compileExecuteCalldata I pool executeViewCalldata = compileExecuteCall I pool executeViewCalldata"

text \<open>\<open>slice\<close> counts a negative end from the back.\<close>

definition js_slice :: "nat \<Rightarrow> int \<Rightarrow> 'a list \<Rightarrow> 'a list" where
  "js_slice start end' xs =
     (let stop = (if end' < 0 then max 0 (int (length xs) + end') else end') in drop start (take (nat stop) xs))"

definition extractExecuteViewCalldata :: "string list \<Rightarrow> string list result" where
  "extractExecuteViewCalldata executeCalldata =
     (if length executeCalldata \<le> 3 then Inl (TypeError ''undefined'')
      else bindR (BigInt (BNString (executeCalldata ! 3))) (\<lambda>innerCalldataLength.
        Inr (js_slice 4 (4 + innerCalldataLength) executeCalldata)))"

record ProofUser =
  us_address :: bignum
  us_viewingKey :: bignum

definition bound_json :: "ResourceBound \<Rightarrow> json" where
  "bound_json r = JObject [(''max_amount'', JString (hex_of (max_amount r))), (''max_price_per_unit'', JString (hex_of (max_price_per_unit r)))]"

definition toHexAll :: "starknet_lib \<Rightarrow> string list \<Rightarrow> string list result" where
  "toHexAll L = mapR (\<lambda>v. toHex L (NBig (BNString v)) True)"

definition createInvocation ::
  "invocation_lib \<Rightarrow> ProofUser \<Rightarrow> bignum \<Rightarrow> ClientAction list \<Rightarrow> ProofDetails \<Rightarrow> ProofInvocation result"
where
  "createInvocation I user pool actions details =
     bindR (toBigInt (us_address user)) (\<lambda>userAddr.
     bindR (toHex (inv_starknet I) (NBig pool) True) (\<lambda>poolAddressHex.
     bindR (compileActionsCall I userAddr (us_viewingKey user) (serializeClientActions actions)) (\<lambda>executeViewCalldata.
     bindR (toHexAll (inv_starknet I) (compileExecuteCalldata I poolAddressHex executeViewCalldata)) (\<lambda>compiledCalldata.
     let nonce = or_else (pd_nonce details) PROOF_INVOCATION_NONCE in
     bindR (signTransaction I poolAddressHex executeViewCalldata (details\<lparr>pd_nonce := Some nonce\<rparr>)) (\<lambda>signature.
     Inr \<lparr>sender_address = poolAddressHex, invocation_fields =
       [(''type'', JString ''INVOKE''), (''calldata'', JArray (map JString compiledCalldata)),
        (''signature'', JArray (map JString signature)), (''nonce'', JString (hex_of nonce)),
        (''resource_bounds'', JObject [(''l1_gas'', bound_json (pd_l1_gas details)), (''l2_gas'', bound_json (pd_l2_gas details)),
           (''l1_data_gas'', bound_json (pd_l1_data_gas details))]),
        (''tip'', JString (hex_of (pd_tip details))), (''paymaster_data'', JArray []), (''account_deployment_data'', JArray []),
        (''nonce_data_availability_mode'', JString ''L1''), (''fee_data_availability_mode'', JString ''L1''),
        (''version'', JString ''0x3'')]\<rparr>)))))"

section \<open>proof-facts.ts\<close>

definition VIRTUAL_PROGRAM_HASH :: string where
  "VIRTUAL_PROGRAM_HASH = ''0x3e98c2d7703b03a7edb73ed7f075f97f1dcbaa8f717cdf6e1a57bf058265473''"
definition STRK_FEE_TOKEN_ADDRESS :: string where
  "STRK_FEE_TOKEN_ADDRESS = ''0x04718f5a0fc34cc1af16a1cdee98ffb20c31f5cd61d6ab07201858f4287c938d''"
definition STARKNET_OS_CONFIG_HASH_VERSION :: string where
  "STARKNET_OS_CONFIG_HASH_VERSION = ''0x537461726b6e65744f73436f6e66696733''"

definition computeVirtualOsConfigHash :: "(bignum list \<Rightarrow> string) \<Rightarrow> bignum \<Rightarrow> bignum \<Rightarrow> string" where
  "computeVirtualOsConfigHash hashElements chainId strkFeeTokenAddress =
     hashElements [BNString STARKNET_OS_CONFIG_HASH_VERSION, chainId, strkFeeTokenAddress]"

definition buildMessagePayload :: "starknet_lib \<Rightarrow> bignum \<Rightarrow> string list \<Rightarrow> string list result" where
  "buildMessagePayload L poolClassHash serverActions =
     bindR (toHex L (NBig poolClassHash) True) (\<lambda>h. Inr (h # serverActions))"

definition computeMessageHash :: "starknet_lib \<Rightarrow> bignum \<Rightarrow> bignum \<Rightarrow> string list \<Rightarrow> int result" where
  "computeMessageHash L pool poolClassHash serverActions =
     bindR (buildMessagePayload L poolClassHash serverActions) (\<lambda>messagePayload.
     bindR (toBigInt pool) (\<lambda>p.
     bindR (mapR (\<lambda>x. toBigInt (BNString x)) messagePayload) (\<lambda>felts.
     Inr (poseidonHashMany L ([p, 0, int (length messagePayload)] @ felts)))))"

definition buildProofFacts ::
  "starknet_lib \<Rightarrow> (bignum list \<Rightarrow> string) \<Rightarrow> bignum \<Rightarrow> bignum \<Rightarrow> string list \<Rightarrow> int \<Rightarrow> bignum \<Rightarrow> bignum \<Rightarrow> string list result"
where
  "buildProofFacts L hashElements pool poolClassHash serverActions blockNumber blockHash chainId =
     bindR (computeMessageHash L pool poolClassHash serverActions) (\<lambda>messageHash.
     bindR (shortStringToFelt L ''PROOF0'') (\<lambda>version.
     bindR (shortStringToFelt L ''VIRTUAL_SNOS'') (\<lambda>variant.
     bindR (shortStringToFelt L ''VIRTUAL_SNOS0'') (\<lambda>osOutput.
     bindR (toBigInt blockHash) (\<lambda>bh.
     Inr [hex_of version, hex_of variant, VIRTUAL_PROGRAM_HASH, hex_of osOutput, hex_of blockNumber, hex_of bh,
          computeVirtualOsConfigHash hashElements chainId (BNString STRK_FEE_TOKEN_ADDRESS), ''0x1'', hex_of messageHash])))))"

section \<open>mock-proving.ts\<close>

record TraceMessage =
  tm_to_address :: string
  tm_payload :: "string list"

datatype TraceMessageEntry = Unwrapped TraceMessage | Ordered nat TraceMessage

datatype TraceInvocation = Trace "TraceMessageEntry list option" "TraceInvocation list option"

fun unwrapMessage :: "TraceMessageEntry \<Rightarrow> TraceMessage" where
  "unwrapMessage (Unwrapped m) = m"
| "unwrapMessage (Ordered _ m) = m"

fun collectMessages :: "TraceInvocation \<Rightarrow> TraceMessage list" where
  "collectMessages (Trace messages None) = map unwrapMessage (optl messages)"
| "collectMessages (Trace messages (Some calls)) =
     map unwrapMessage (optl messages) @ concat (map collectMessages calls)"

record CompiledActions =
  ca_poolClassHash :: string
  ca_serverActions :: "string list"

text \<open>Searching stops at the first message to address zero; an address that does not convert throws.\<close>

fun findServerMessage :: "TraceMessage list \<Rightarrow> TraceMessage option result" where
  "findServerMessage [] = Inr None"
| "findServerMessage (m # ms) = bindR (BigInt (BNString (tm_to_address m))) (\<lambda>a. if a = 0 then Inr (Some m) else findServerMessage ms)"

text \<open>The node as the simulated prover uses it; \<open>node_simulate\<close> is \<open>None\<close> when the channel cannot simulate.\<close>

record mock_node =
  node_call :: "string \<Rightarrow> string list \<Rightarrow> BlockId option \<Rightarrow> string list result"
  node_classHash :: "string \<Rightarrow> BlockId option \<Rightarrow> string result"
  node_simulate :: "(ProofInvocation \<Rightarrow> BlockId option \<Rightarrow> TraceInvocation option result) option"
  node_blockNumber :: "BlockId \<Rightarrow> int result"
  node_blockHash :: "BlockId \<Rightarrow> string option result"
  node_chainId :: "string result"

definition simulateExecute :: "mock_node \<Rightarrow> ProofInvocation \<Rightarrow> BlockId option \<Rightarrow> CompiledActions result" where
  "simulateExecute N invocation blockIdentifier = (case node_simulate N of
      None \<Rightarrow> Inl (ConfigError ''simulateTransaction'')
    | Some sim \<Rightarrow>
        bindR (sim invocation blockIdentifier) (\<lambda>trace.
        bindR (findServerMessage (case trace of None \<Rightarrow> [] | Some t \<Rightarrow> collectMessages t)) (\<lambda>found.
        case found of
          None \<Rightarrow> Inl NoResult
        | Some m \<Rightarrow> (case tm_payload m of [] \<Rightarrow> Inl NoResult | c # cs \<Rightarrow> Inr \<lparr>ca_poolClassHash = c, ca_serverActions = cs\<rparr>))))"

definition compileActions ::
  "mock_node \<Rightarrow> bool option \<Rightarrow> ProofInvocation \<Rightarrow> string list \<Rightarrow> string list \<Rightarrow> BlockId option \<Rightarrow> CompiledActions result"
where
  "compileActions N validateSignature invocation signature invocationCalldata blockIdentifier =
     (if validateSignature = Some False \<or> signature = [] then
        bindR (extractExecuteViewCalldata invocationCalldata) (\<lambda>inner.
        bindR (node_call N (sender_address invocation) inner blockIdentifier) (\<lambda>serverActions.
        bindR (node_classHash N (sender_address invocation) blockIdentifier) (\<lambda>h.
        Inr \<lparr>ca_poolClassHash = h, ca_serverActions = serverActions\<rparr>)))
      else simulateExecute N invocation blockIdentifier)"

definition baseBlockNumber :: "mock_node \<Rightarrow> BlockId option \<Rightarrow> int result" where
  "baseBlockNumber N blockIdentifier = (case blockIdentifier of
      Some b \<Rightarrow> node_blockNumber N b
    | None \<Rightarrow> bindR (node_blockNumber N (BlockTag ''latest'')) (\<lambda>current. Inr (if current > 10 then current - 10 else 1)))"

text \<open>The strings of a list field of the invocation.\<close>

definition field_strings :: "ProofInvocation \<Rightarrow> string \<Rightarrow> string list" where
  "field_strings tx k = map (\<lambda>x. as_string (Some x)) (as_list (jm_get (invocation_fields tx) k))"

definition mockProve ::
  "starknet_lib \<Rightarrow> (bignum list \<Rightarrow> string) \<Rightarrow> mock_node \<Rightarrow> string \<Rightarrow> bool option \<Rightarrow> ProofInvocation \<Rightarrow> BlockId option \<Rightarrow> Proof result"
where
  "mockProve L hashElements N chainId validateSignature invocation blockIdentifier =
     bindR (compileActions N validateSignature invocation (field_strings invocation ''signature'') (field_strings invocation ''calldata'') blockIdentifier) (\<lambda>compiled.
     bindR (baseBlockNumber N blockIdentifier) (\<lambda>base.
     bindR (node_blockHash N (BlockNumber base)) (\<lambda>hash1.
     bindR (buildProofFacts L hashElements (BNString (sender_address invocation)) (BNString (ca_poolClassHash compiled)) (ca_serverActions compiled)
       base (BNString (case hash1 of None \<Rightarrow> ''0x0'' | Some h \<Rightarrow> h)) (BNString chainId)) (\<lambda>facts.
     bindR (buildMessagePayload L (BNString (ca_poolClassHash compiled)) (ca_serverActions compiled)) (\<lambda>out.
     Inr \<lparr>p_data = [], p_output = out, proofFacts = facts, additionalData = None\<rparr>)))))"

section \<open>private-transfers.ts\<close>

record PrivateTransfers =
  pt_account :: bignum
  pt_pool :: bignum
  pt_user :: int

definition new_PrivateTransfers :: "bignum \<Rightarrow> bignum \<Rightarrow> PrivateTransfers result" where
  "new_PrivateTransfers account pool =
     bindR (toBigInt account) (\<lambda>user. Inr \<lparr>pt_account = account, pt_pool = pool, pt_user = user\<rparr>)"

record ProofInvocationResult =
  pir_invocation :: ProofInvocation
  pir_registry :: PrivateRegistry
  pir_warnings :: "Warning list"

record ExecuteResult =
  er_call :: Call
  er_proof :: Proof
  er_registry :: PrivateRegistry
  er_warnings :: "Warning list"

text \<open>
  What a request is given: the library, randomness and discovery per compile attempt, the viewing key,
  the provider's default details and its \<open>prove\<close>.
\<close>

record transfer_env =
  te_invocation :: invocation_lib
  te_random :: "nat \<Rightarrow> rng"
  te_discovery :: "nat \<Rightarrow> DiscoveryProvider"
  te_viewingKey :: "bignum result"
  te_details :: "ProofDetails result"
  te_prove :: "ProofInvocation \<Rightarrow> BlockId option \<Rightarrow> Proof result"
  te_compileOption :: "ScreeningSignature option \<Rightarrow> string list"

definition createProofInvocation ::
  "transfer_env \<Rightarrow> PrivateTransfers \<Rightarrow> Actions \<Rightarrow> ExecuteOptions \<Rightarrow> ProofInvocationResult result"
where
  "createProofInvocation E pt actions options =
     bindR (te_viewingKey E) (\<lambda>vk.
     bindR (toBigInt (pt_pool pt)) (\<lambda>pool.
     bindR (snd (compile (inv_starknet (te_invocation E)) (te_random E)
              \<lparr>cfg_userAddress = pt_user pt, cfg_userViewingKey = vk, cfg_poolAddress = pool\<rparr> (te_discovery E) actions options)) (\<lambda>res.
     bindR (te_details E) (\<lambda>details.
     bindR (createInvocation (te_invocation E) \<lparr>us_address = pt_account pt, us_viewingKey = vk\<rparr> (pt_pool pt) (clientActions res) details) (\<lambda>tx.
     Inr \<lparr>pir_invocation = tx, pir_registry = res_registry res, pir_warnings = res_warnings res\<rparr>)))))"

definition resultOfProof :: "transfer_env \<Rightarrow> PrivateTransfers \<Rightarrow> ProofInvocationResult \<Rightarrow> Proof \<Rightarrow> ExecuteResult result" where
  "resultOfProof E pt pir proof =
     bindR (buildExecuteResult (inv_starknet (te_invocation E)) (te_compileOption E) (pt_pool pt) proof) (\<lambda>call.
     Inr \<lparr>er_call = call, er_proof = proof, er_registry = pir_registry pir, er_warnings = pir_warnings pir\<rparr>)"

definition executeWithInvocation ::
  "transfer_env \<Rightarrow> PrivateTransfers \<Rightarrow> ProofInvocationResult \<Rightarrow> BlockId option \<Rightarrow> ExecuteResult result"
where
  "executeWithInvocation E pt pir block =
     bindR (te_prove E (pir_invocation pir) block) (resultOfProof E pt pir)"

definition execute_actions :: "transfer_env \<Rightarrow> PrivateTransfers \<Rightarrow> Actions \<Rightarrow> ExecuteOptions \<Rightarrow> ExecuteResult result" where
  "execute_actions E pt actions options =
     bindR (createProofInvocation E pt actions options) (\<lambda>pir. executeWithInvocation E pt pir (provingBlockId options))"

definition simulate ::
  "transfer_env \<Rightarrow> PrivateTransfers \<Rightarrow> (bignum list \<Rightarrow> string) \<Rightarrow> mock_node \<Rightarrow> bool option \<Rightarrow> Actions \<Rightarrow> ExecuteOptions \<Rightarrow> ExecuteResult result"
where
  "simulate E pt hashElements N validateSignature actions options =
     bindR (createProofInvocation E pt actions options) (\<lambda>pir.
     bindR (node_chainId N) (\<lambda>chainId.
     bindR (mockProve (inv_starknet (te_invocation E)) hashElements N chainId (Some (or_else validateSignature False))
              (pir_invocation pir) (provingBlockId options)) (resultOfProof E pt pir)))"

text \<open>
  The queries of the abstract class: the user's address and viewing key are filled in and addresses become
  bigints. A filter that is no list of addresses is passed on.
\<close>

definition pt_discoverNotes :: "transfer_env \<Rightarrow> PrivateTransfers \<Rightarrow> NotesParams \<Rightarrow> NotesDiscoveryResult result" where
  "pt_discoverNotes E pt params = bindR (te_viewingKey E) (\<lambda>vk. DiscoveryProvider.discoverNotes (te_discovery E 0) (pt_user pt) vk params)"

definition pt_discoverChannels ::
  "transfer_env \<Rightarrow> PrivateTransfers \<Rightarrow> bignum list + RecipientsFilter \<Rightarrow> ChannelsParams \<Rightarrow> ChannelsDiscoveryResult result"
where
  "pt_discoverChannels E pt recipients params =
     bindR (te_viewingKey E) (\<lambda>vk.
     bindR (case recipients of Inl rs \<Rightarrow> bindR (mapR toBigInt rs) (\<lambda>as. Inr (Recipients as)) | Inr f \<Rightarrow> Inr f) (\<lambda>f.
     DiscoveryProvider.discoverChannels (te_discovery E 0) (pt_user pt) vk f params))"

definition pt_discoverRequirement :: "transfer_env \<Rightarrow> PrivateTransfers \<Rightarrow> bignum \<Rightarrow> bignum \<Rightarrow> SetupRequirement result" where
  "pt_discoverRequirement E pt recipient token =
     bindR (te_viewingKey E) (\<lambda>vk. bindR (toBigInt recipient) (\<lambda>r. bindR (toBigInt token) (\<lambda>t.
     discoverRequirement (te_discovery E 0) (pt_user pt) vk r t)))"

section \<open>Simulation and execution\<close>

lemma created_once:
  assumes "execute_actions E pt actions options = Inr r"
  shows "\<exists>pir proof. createProofInvocation E pt actions options = Inr pir \<and>
     te_prove E (pir_invocation pir) (provingBlockId options) = Inr proof \<and> resultOfProof E pt pir proof = Inr r"
  using assms by (auto simp: execute_actions_def executeWithInvocation_def bindR_eq_Inr)

lemma simulated_output:
  assumes "mockProve L H N chainId (Some False) tx b = Inr proof"
  shows "\<exists>inner acts. node_call N (sender_address tx) inner b = Inr acts \<and> drop 1 (p_output proof) = acts \<and> additionalData proof = None"
  using assms by (auto simp: mockProve_def compileActions_def buildMessagePayload_def bindR_eq_Inr)


definition sample_proof :: Proof where
  "sample_proof = \<lparr>p_data = ''p'', p_output = [''0xc'', ''0x7''], proofFacts = [], additionalData = None\<rparr>"

definition sample_env :: transfer_env where
  "sample_env =
     \<lparr>te_invocation = \<lparr>inv_starknet = sample_lib, compileActionsCall = (\<lambda>_ _ _. Inr [''5'', ''7'', ''1'']),
        compileExecuteCall = (\<lambda>_ inner. [''1'', ''8'', ''9'', ''3''] @ inner), signTransaction = (\<lambda>_ _ _. Inr [''0x1''])\<rparr>,
      te_random = sample_rng, te_discovery = (\<lambda>_. Samples.sample_provider), te_viewingKey = Inr (BNBigint 7),
      te_details = Inr \<lparr>pd_nonce = Some 0, pd_l1_gas = \<lparr>max_amount = 1, max_price_per_unit = 0\<rparr>,
        pd_l2_gas = \<lparr>max_amount = 1, max_price_per_unit = 0\<rparr>, pd_l1_data_gas = \<lparr>max_amount = 1, max_price_per_unit = 0\<rparr>,
        pd_tip = 0, pd_chainId = ''SN''\<rparr>,
      te_prove = (\<lambda>_ _. Inr sample_proof), te_compileOption = (\<lambda>_. [''1''])\<rparr>"

definition sample_node :: mock_node where
  "sample_node = \<lparr>node_call = (\<lambda>_ _ _. Inr [''0x7'']), node_classHash = (\<lambda>_ _. Inr ''0xc''), node_simulate = None,
     node_blockNumber = (\<lambda>_. Inr 12), node_blockHash = (\<lambda>_. Inr None), node_chainId = Inr ''0x1''\<rparr>"

definition sample_transfers :: PrivateTransfers where
  "sample_transfers = \<lparr>pt_account = BNBigint 1, pt_pool = BNBigint 9, pt_user = 1\<rparr>"


section \<open>The proof facts cover the output\<close>

text \<open>
  A simulated proof is consistent: its facts are the nine felts of the layout, the last the Poseidon
  hash of pool, zero, payload length and payload, where the payload is the very output returned with
  them. Without an explicit block the base is ten blocks back, but never before block one.
\<close>

theorem mock_facts_cover_output:
  assumes "mockProve L H N chainId validate tx b = Inr proof"
  shows "\<exists>base pool fs. baseBlockNumber N b = Inr base \<and> toBigInt (BNString (sender_address tx)) = Inr pool \<and>
     mapR (\<lambda>x. toBigInt (BNString x)) (p_output proof) = Inr fs \<and>
     length (proofFacts proof) = 9 \<and> proofFacts proof ! 2 = VIRTUAL_PROGRAM_HASH \<and> proofFacts proof ! 4 = hex_of base \<and>
     drop 7 (proofFacts proof) = [''0x1'', hex_of (poseidonHashMany L ([pool, 0, int (length fs)] @ fs))] \<and>
     (\<forall>latest. b = None \<and> node_blockNumber N (BlockTag ''latest'') = Inr latest \<longrightarrow> base = max 1 (latest - 10))"
proof -
  have "\<exists>(c :: CompiledActions) base h. baseBlockNumber N b = Inr base \<and>
      buildProofFacts L H (BNString (sender_address tx)) (BNString (ca_poolClassHash c)) (ca_serverActions c) base h (BNString chainId)
        = Inr (proofFacts proof) \<and>
      buildMessagePayload L (BNString (ca_poolClassHash c)) (ca_serverActions c) = Inr (p_output proof)"
    using assms by (auto simp: mockProve_def bindR_eq_Inr) blast
  then obtain c :: CompiledActions and base h where c: "baseBlockNumber N b = Inr base" and
    facts: "buildProofFacts L H (BNString (sender_address tx)) (BNString (ca_poolClassHash c)) (ca_serverActions c) base h (BNString chainId)
      = Inr (proofFacts proof)" and
    out: "buildMessagePayload L (BNString (ca_poolClassHash c)) (ca_serverActions c) = Inr (p_output proof)" by blast
  have "\<exists>pool fs a1 a2 a3 a4 a5. toBigInt (BNString (sender_address tx)) = Inr pool \<and>
      mapR (\<lambda>x. toBigInt (BNString x)) (p_output proof) = Inr fs \<and>
      [a1, a2, VIRTUAL_PROGRAM_HASH, a3, hex_of base, a4, a5, ''0x1'', hex_of (poseidonHashMany L ([pool, 0, int (length (p_output proof))] @ fs))] = proofFacts proof"
    using facts out by (auto simp: buildProofFacts_def computeMessageHash_def bindR_eq_Inr) blast
  then obtain pool fs a1 a2 a3 a4 a5 where f: "toBigInt (BNString (sender_address tx)) = Inr pool"
    "mapR (\<lambda>x. toBigInt (BNString x)) (p_output proof) = Inr fs"
    and eq: "proofFacts proof = [a1, a2, VIRTUAL_PROGRAM_HASH, a3, hex_of base, a4, a5, ''0x1'',
      hex_of (poseidonHashMany L ([pool, 0, int (length (p_output proof))] @ fs))]" by metis
  have "length fs = length (p_output proof)" using mapR_length [OF f(2)] by simp
  moreover have "base = max 1 (latest - 10)" if "b = None" "node_blockNumber N (BlockTag ''latest'') = Inr latest" for latest
    using c that by (auto simp: baseBlockNumber_def bindR_def split: if_splits)
  ultimately show ?thesis using c f by (intro exI [of _ base] exI [of _ pool] exI [of _ fs]) (simp add: eq)
qed

theorem mock_facts_cover_output_witness:
  "\<exists>proof. mockProve sample_lib (\<lambda>_. ''0x5'') sample_node ''0x1'' (Some False)
     \<lparr>sender_address = ''0x8'', invocation_fields = [(''calldata'', JArray (map JString [''0x1'', ''0x8'', ''0x9'', ''0x0'']))]\<rparr> None = Inr proof \<and>
     length (proofFacts proof) = 9 \<and> proofFacts proof ! 4 = ''0x2''"
proof -
  let ?run = "mockProve sample_lib (\<lambda>_. ''0x5'') sample_node ''0x1'' (Some False)
     \<lparr>sender_address = ''0x8'', invocation_fields = [(''calldata'', JArray (map JString [''0x1'', ''0x8'', ''0x9'', ''0x0'']))]\<rparr> None"
  have "case ?run of Inr _ \<Rightarrow> True | Inl _ \<Rightarrow> False" by code_simp
  then obtain pf where p: "?run = Inr pf" by (auto split: sum.splits)
  have "node_blockNumber sample_node (BlockTag ''latest'') = Inr 12" by (simp add: sample_node_def)
  then have "length (proofFacts pf) = 9" "proofFacts pf ! 4 = hex_of 2"
    using mock_facts_cover_output [OF p] by auto
  moreover have "hex_of 2 = ''0x2''" by code_simp
  ultimately show ?thesis using p by auto
qed

end
