(* ===== verification/Elliptic_Proxy.thy ===== *)
theory Elliptic_Proxy
  imports Screening
begin

text \<open>
  The screening proxy \<open>elliptic-proxy/src\<close>: \<open>felt.ts\<close>, \<open>config.ts\<close> (validation), \<open>auth.ts\<close>,
  \<open>rate-limit.ts\<close>, \<open>scoring.ts\<close>, \<open>signing.ts\<close> (the message that is signed) and \<open>handler.ts\<close>. Keyed
  hash, base64, curve signature, upstream and clock are parameters. JavaScript numbers that stand for
  amounts and percentages are exact rationals; an upstream body that parses has the documented shape.
\<close>

section \<open>felt.ts\<close>

definition isHexFelt :: "int \<Rightarrow> string \<Rightarrow> bool" where
  "isHexFelt STARK_PRIME s = (HEX_FELT s \<and> (case BigInt (BNString s) of Inr v \<Rightarrow> v < STARK_PRIME | Inl _ \<Rightarrow> False))"

definition feltListIncludes :: "string list option \<Rightarrow> int \<Rightarrow> bool result" where
  "feltListIncludes entries addressFelt =
     foldR (\<lambda>found entry. if found then Inr True
              else bindR (BigInt (BNString entry)) (\<lambda>v. Inr (v = addressFelt))) False (optl entries)"

section \<open>config.ts\<close>

record PartnerCredentials =
  hmacSecret :: string
  ellipticKey :: string
  ellipticSecret :: string

record Config =
  elliptic_url :: string
  elliptic_timeoutMs :: rat
  rateLimitPerMinute :: rat
  maxBodyBytes :: rat
  configCacheTtlSeconds :: rat
  blockedCacheTtlSeconds :: rat
  partners :: "(string, PartnerCredentials) jsmap"
  additionalBlockedAddresses :: "string list option"
  blockOverrideAddresses :: "string list option"
  signingPrivateKey :: string
  chainId :: string

definition SN_MAIN_CHAIN_ID :: int where
  "SN_MAIN_CHAIN_ID = 0x534e5f4d41494e"

definition isMockEllipticUrl :: "string \<Rightarrow> bool" where
  "isMockEllipticUrl url = (take 5 url = ''mock:'')"

definition config_error :: "string \<Rightarrow> error" where
  "config_error path = ConfigError path"

definition requireString :: "json \<Rightarrow> string \<Rightarrow> string result" where
  "requireString obj path = (case json_get obj path of
      Some (JString s) \<Rightarrow> if s = [] then Inl (config_error path) else Inr s
    | _ \<Rightarrow> Inl (config_error path))"

definition requireNumber :: "json \<Rightarrow> string \<Rightarrow> rat result" where
  "requireNumber obj path = (case json_get obj path of Some (JNum n) \<Rightarrow> Inr n | _ \<Rightarrow> Inl (config_error path))"

definition requirePositiveNumber :: "json \<Rightarrow> string \<Rightarrow> rat result" where
  "requirePositiveNumber obj path =
     bindR (requireNumber obj path) (\<lambda>v. if v \<le> 0 then Inl (config_error path) else Inr v)"

definition requireObject :: "json option \<Rightarrow> string \<Rightarrow> (string \<times> json) list result" where
  "requireObject v path = (case v of Some (JObject m) \<Rightarrow> Inr m | _ \<Rightarrow> Inl (config_error path))"

definition parsePartner :: "string \<times> json \<Rightarrow> (string \<times> PartnerCredentials) result" where
  "parsePartner e =
     bindR (requireObject (Some (snd e)) (fst e)) (\<lambda>_.
     bindR (requireString (snd e) ''hmacSecret'') (\<lambda>h.
     bindR (requireString (snd e) ''ellipticKey'') (\<lambda>k.
     bindR (requireString (snd e) ''ellipticSecret'') (\<lambda>s.
     Inr (fst e, \<lparr>hmacSecret = h, ellipticKey = k, ellipticSecret = s\<rparr>)))))"

definition json_string :: "json \<Rightarrow> string option" where
  "json_string j = (case j of JString s \<Rightarrow> Some s | _ \<Rightarrow> None)"

definition parseLowercaseHexList :: "int \<Rightarrow> json \<Rightarrow> string \<Rightarrow> string list option result" where
  "parseLowercaseHexList prime obj k = (case json_get obj k of
      None \<Rightarrow> Inr None
    | Some (JArray xs) \<Rightarrow>
        bindR (mapR (\<lambda>x. of_option (config_error k) (json_string x)) xs) (\<lambda>entries.
        bindR (mapR (\<lambda>entry. if isHexFelt prime entry then Inr (toLowerCase entry) else Inl (config_error k)) entries)
          (\<lambda>es. Inr (Some es)))
    | Some _ \<Rightarrow> Inl (config_error k))"

definition validateConfig :: "int \<Rightarrow> json \<Rightarrow> Config result" where
  "validateConfig prime raw =
     bindR (requireObject (Some raw) ''root'') (\<lambda>_.
     bindR (requireObject (json_get raw ''elliptic'') ''elliptic'') (\<lambda>ell.
     bindR (requireObject (json_get raw ''partners'') ''partners'') (\<lambda>ps.
     bindR (mapR parsePartner ps) (\<lambda>parsedPartners.
     bindR (requireString (JObject ell) ''url'') (\<lambda>ellipticUrl.
     bindR (requireString raw ''chainId'') (\<lambda>chain0.
     let chain = toLowerCase chain0 in
     bindR (assertR (isHexFelt prime chain) (config_error ''chainId'')) (\<lambda>_.
     bindR (BigInt (BNString chain)) (\<lambda>chainFelt.
     bindR (assertR (\<not> (isMockEllipticUrl ellipticUrl \<and> chainFelt = SN_MAIN_CHAIN_ID)) (config_error ''mock'')) (\<lambda>_.
     bindR (requirePositiveNumber (JObject ell) ''timeoutMs'') (\<lambda>timeoutMs.
     bindR (requirePositiveNumber raw ''rateLimitPerMinute'') (\<lambda>limit.
     bindR (requirePositiveNumber raw ''maxBodyBytes'') (\<lambda>maxBody.
     bindR (requirePositiveNumber raw ''configCacheTtlSeconds'') (\<lambda>cttl.
     bindR (requirePositiveNumber raw ''blockedCacheTtlSeconds'') (\<lambda>bttl.
     bindR (parseLowercaseHexList prime raw ''additionalBlockedAddresses'') (\<lambda>blocked.
     bindR (parseLowercaseHexList prime raw ''blockOverrideAddresses'') (\<lambda>override.
     bindR (requireString raw ''signingPrivateKey'') (\<lambda>signKey.
     Inr \<lparr>elliptic_url = ellipticUrl, elliptic_timeoutMs = timeoutMs, rateLimitPerMinute = limit, maxBodyBytes = maxBody,
          configCacheTtlSeconds = cttl, blockedCacheTtlSeconds = bttl, partners = jm_of_entries parsedPartners,
          additionalBlockedAddresses = blocked, blockOverrideAddresses = override,
          signingPrivateKey = signKey, chainId = chain\<rparr>)))))))))))))))))"

section \<open>auth.ts\<close>

text \<open>
  \<open>Number(string)\<close>: white space around a decimal literal or a prefixed integer, the empty string is
  zero. \<open>NaN\<close> and the infinities are \<open>None\<close>: both fail the drift test.
\<close>

definition split_at :: "(char \<Rightarrow> bool) \<Rightarrow> string \<Rightarrow> string \<times> string" where
  "split_at P s = (takeWhile P s, dropWhile P s)"

definition is_decimal :: "char \<Rightarrow> bool" where
  "is_decimal c = (case digit_val c of Some d \<Rightarrow> d < 10 | None \<Rightarrow> False)"

definition dec_nat :: "string \<Rightarrow> nat" where
  "dec_nat s = (case parse_digits 10 0 s of Some n \<Rightarrow> n | None \<Rightarrow> 0)"

definition exponent_part :: "string \<Rightarrow> int option" where
  "exponent_part s = (case s of [] \<Rightarrow> Some 0
     | c # cs \<Rightarrow> if c \<in> {CHR ''e'', CHR ''E''} then
         (let sgn' = (case cs of CHR ''-'' # _ \<Rightarrow> (- 1 :: int) | _ \<Rightarrow> 1);
              ds = (case cs of CHR ''-'' # r \<Rightarrow> r | CHR ''+'' # r \<Rightarrow> r | r \<Rightarrow> r)
          in if ds \<noteq> [] \<and> list_all is_decimal ds then Some (sgn' * int (dec_nat ds)) else None)
       else None)"

definition pow10 :: "int \<Rightarrow> rat" where
  "pow10 e = (if e < 0 then 1 / 10 ^ nat (- e) else 10 ^ nat e)"

definition unsigned_decimal :: "string \<Rightarrow> rat option" where
  "unsigned_decimal s =
     (let (ip, r) = split_at is_decimal s;
          (fp, r') = (case r of CHR ''.'' # q \<Rightarrow> split_at is_decimal q | _ \<Rightarrow> ([], r))
      in if ip = [] \<and> fp = [] then None
         else map_option (\<lambda>e. (of_nat (dec_nat ip) + of_nat (dec_nat fp) / 10 ^ length fp) * pow10 e) (exponent_part r'))"

definition js_Number :: "string \<Rightarrow> rat option" where
  "js_Number s =
     (let t = trim s in
      if t = [] then Some 0
      else if take 2 t \<in> {''0x'', ''0X''} then map_option of_nat (parse_nat 16 (drop 2 t))
      else if take 2 t \<in> {''0o'', ''0O''} then map_option of_nat (parse_nat 8 (drop 2 t))
      else if take 2 t \<in> {''0b'', ''0B''} then map_option of_nat (parse_nat 2 (drop 2 t))
      else if take 1 t = ''-'' then map_option uminus (unsigned_decimal (drop 1 t))
      else if take 1 t = ''+'' then unsigned_decimal (drop 1 t)
      else unsigned_decimal t)"

definition MAX_TIMESTAMP_DRIFT_MS :: rat where
  "MAX_TIMESTAMP_DRIFT_MS = 5 * 60 * 1000"

text \<open>A header is absent, or a list of values: a plain string is a list of one.\<close>

record Request =
  h_access_key :: "string list option"
  h_access_sign :: "string list option"
  h_access_timestamp :: "string list option"
  r_method :: string
  r_path :: string
  r_rawBody :: "string option"
  r_address :: "string option"       \<comment> \<open>\<open>req.body.address\<close> when the body is an object and it is a string\<close>

definition firstValue :: "string list option \<Rightarrow> string option" where
  "firstValue header = (case header of None \<Rightarrow> None | Some [] \<Rightarrow> None | Some (v # _) \<Rightarrow> Some v)"

record crypto_lib =
  hmac_base64 :: "string \<Rightarrow> string list \<Rightarrow> string"
  base64_bytes :: "string \<Rightarrow> nat list"
  getStarkKey :: "string \<Rightarrow> string"
  starkSign :: "string \<Rightarrow> string \<Rightarrow> (int \<times> int) result"
  poseidon :: "int list \<Rightarrow> int"
  STARK_PRIME :: int

definition verifySignature ::
  "crypto_lib \<Rightarrow> string \<Rightarrow> string \<Rightarrow> string \<Rightarrow> string \<Rightarrow> string \<Rightarrow> string \<Rightarrow> bool"
where
  "verifySignature K secretBase64 providedSignature timestamp method path body =
     (let expected = computeHmacSignature (hmac_base64 K) secretBase64 timestamp method path body;
          expectedBuf = base64_bytes K expected; providedBuf = base64_bytes K providedSignature
      in if length expectedBuf \<noteq> length providedBuf then False else expectedBuf = providedBuf)"

definition authenticateRequest :: "crypto_lib \<Rightarrow> rat \<Rightarrow> Request \<Rightarrow> Config \<Rightarrow> string + string" where
  "authenticateRequest K now req config =
     (case (firstValue (h_access_key req), firstValue (h_access_sign req), firstValue (h_access_timestamp req)) of
        (Some partner, Some accessSign, Some accessTimestamp) \<Rightarrow>
          if partner = [] \<or> accessSign = [] \<or> accessTimestamp = [] then Inl ''missing_headers''
          else (case js_Number accessTimestamp of
             None \<Rightarrow> Inl ''timestamp_expired''
           | Some timestampMs \<Rightarrow>
               if \<bar>now - timestampMs\<bar> > MAX_TIMESTAMP_DRIFT_MS then Inl ''timestamp_expired''
               else (case jm_get (partners config) partner of
                  None \<Rightarrow> Inl ''unknown_partner''
                | Some cred \<Rightarrow>
                    if hmacSecret cred = [] then Inl ''unknown_partner''
                    else if \<not> verifySignature K (hmacSecret cred) accessSign accessTimestamp (r_method req) (r_path req)
                                (case r_rawBody req of None \<Rightarrow> '''' | Some b \<Rightarrow> b)
                    then Inl ''invalid_signature''
                    else Inr partner))
      | _ \<Rightarrow> Inl ''missing_headers'')"

section \<open>rate-limit.ts\<close>

definition WINDOW_MS :: int where
  "WINDOW_MS = 60000"

record Window =
  count :: nat
  windowStart :: int

text \<open>\<open>windows\<close> is what the cache answers; entries it has evicted or that expired are absent.\<close>

definition rl_check ::
  "(string, Window) jsmap \<Rightarrow> int \<Rightarrow> string \<Rightarrow> rat \<Rightarrow> (string, Window) jsmap \<times> bool"
where
  "rl_check windows now partner limitPerMinute =
     (case jm_get windows partner of
        None \<Rightarrow> (jm_set windows partner \<lparr>count = 1, windowStart = now\<rparr>, True)
      | Some w \<Rightarrow>
          if now - windowStart w \<ge> WINDOW_MS then (jm_set windows partner \<lparr>count = 1, windowStart = now\<rparr>, True)
          else if of_nat (count w) \<ge> limitPerMinute then (windows, False)
          else (jm_set windows partner (w\<lparr>count := count w + 1\<rparr>), True))"

section \<open>scoring.ts\<close>

record MatchedElement =
  contribution_percentage :: rat
  contribution_usd :: "rat option"
  counterparty_percentage :: "rat option"
  counterparty_usd :: "rat option"

record Evaluation =
  rule_id :: string
  risk_score :: "rat option"
  matched_elements :: "MatchedElement list option"

record EllipticResponse =
  process_status :: string
  ev_source :: "Evaluation list option"
  ev_destination :: "Evaluation list option"

record RuleThresholds =
  t_counterpartyPercentage :: rat
  t_counterpartyUsd :: rat
  t_contributionPercentage :: rat
  t_contributionUsd :: rat
  t_hardBlockUsd :: "rat option"

definition ILLICIT_ACTIVITY :: string where
  "ILLICIT_ACTIVITY = ''8f023e48-b9c2-41c6-8c8a-42a936eee86d''"
definition SANCTIONED_ENTITY :: string where
  "SANCTIONED_ENTITY = ''1f86dce1-166a-4749-a5df-3972fae7635a''"
definition OBFUSCATING :: string where
  "OBFUSCATING = ''1e24a6cf-620a-4c89-b423-5e43b2f13614''"
definition DPRK_BYBIT_EXPLOIT :: string where
  "DPRK_BYBIT_EXPLOIT = ''090208b1-18e3-4da0-94d3-23e7eca5fd92''"

definition RULES :: "(string, RuleThresholds) jsmap" where
  "RULES =
     [(ILLICIT_ACTIVITY, \<lparr>t_counterpartyPercentage = 1 / 10, t_counterpartyUsd = 0, t_contributionPercentage = 1 / 10,
        t_contributionUsd = 10, t_hardBlockUsd = Some 5000\<rparr>),
      (SANCTIONED_ENTITY, \<lparr>t_counterpartyPercentage = 0, t_counterpartyUsd = 0, t_contributionPercentage = 1 / 10,
        t_contributionUsd = 10, t_hardBlockUsd = Some 5000\<rparr>),
      (OBFUSCATING, \<lparr>t_counterpartyPercentage = 1 / 10, t_counterpartyUsd = 0, t_contributionPercentage = 1 / 10,
        t_contributionUsd = 10, t_hardBlockUsd = None\<rparr>),
      (DPRK_BYBIT_EXPLOIT, \<lparr>t_counterpartyPercentage = 1 / 100000, t_counterpartyUsd = 0, t_contributionPercentage = 1 / 10,
        t_contributionUsd = 10, t_hardBlockUsd = None\<rparr>)]"

definition HARD_BLOCK_RULES :: "string list" where
  "HARD_BLOCK_RULES = [ILLICIT_ACTIVITY, SANCTIONED_ENTITY]"

definition ALLOWED_RISK_EXPOSURE :: rat where
  "ALLOWED_RISK_EXPOSURE = 1 / 100"

record Aggregated =
  counterpartyPercentage :: rat
  counterpartyUsd :: rat
  contributionPercentage :: rat
  contributionUsd :: rat

definition or_zero :: "rat option \<Rightarrow> rat" where
  "or_zero x = (case x of None \<Rightarrow> 0 | Some v \<Rightarrow> v)"

definition aggregateElements :: "MatchedElement list \<Rightarrow> Aggregated" where
  "aggregateElements elements = foldl (\<lambda>a e.
      \<lparr>counterpartyPercentage = counterpartyPercentage a + contribution_percentage e / 100 * or_zero (counterparty_percentage e),
       counterpartyUsd = counterpartyUsd a + or_zero (counterparty_usd e),
       contributionPercentage = contributionPercentage a + contribution_percentage e,
       contributionUsd = contributionUsd a + or_zero (contribution_usd e)\<rparr>)
     \<lparr>counterpartyPercentage = 0, counterpartyUsd = 0, contributionPercentage = 0, contributionUsd = 0\<rparr> elements"

definition shouldFilter :: "Aggregated \<Rightarrow> RuleThresholds \<Rightarrow> bool" where
  "shouldFilter a rule =
     (if (case t_hardBlockUsd rule of None \<Rightarrow> False | Some h \<Rightarrow> contributionUsd a \<ge> h) then True
      else contributionUsd a > t_contributionUsd rule \<and> contributionPercentage a > t_contributionPercentage rule \<or>
           counterpartyUsd a > t_counterpartyUsd rule \<and> counterpartyPercentage a > t_counterpartyPercentage rule)"

record Trigger =
  ruleId :: string
  percentage :: rat
  riskScore :: "rat option"

definition triggerOf :: "Evaluation \<Rightarrow> Trigger list" where
  "triggerOf evaluation =
     (let aggregated = aggregateElements (optl (matched_elements evaluation));
          rule = jm_get RULES (rule_id evaluation);
          hard = (case Option.bind rule t_hardBlockUsd of None \<Rightarrow> False
            | Some h \<Rightarrow> rule_id evaluation \<in> set HARD_BLOCK_RULES \<and> contributionUsd aggregated \<ge> h);
          score = (if hard then Some 10 else risk_score evaluation)
      in if (case rule of None \<Rightarrow> False | Some r \<Rightarrow> \<not> shouldFilter aggregated r) then []
         else [\<lparr>ruleId = rule_id evaluation, percentage = contributionPercentage aggregated, riskScore = score\<rparr>])"

definition filterAndBuildTriggers :: "Evaluation list \<Rightarrow> Trigger list" where
  "filterAndBuildTriggers evaluations = concat (map triggerOf evaluations)"

datatype ScoringReason = Clean | MalformedJson | Incomplete | RuleTriggered | UnknownRule

record ScoringResult =
  blocked :: bool
  reason :: ScoringReason
  triggeringRuleIds :: "string list"

definition fired :: "Trigger \<Rightarrow> bool" where
  "fired t = ((case riskScore t of Some s \<Rightarrow> s | None \<Rightarrow> percentage t) > ALLOWED_RISK_EXPOSURE)"

text \<open>\<open>None\<close> is a body that is not JSON. The list of rule ids is without duplicates, in order of first occurrence.\<close>

definition scoreResponse :: "EllipticResponse option \<Rightarrow> ScoringResult" where
  "scoreResponse body = (case body of
      None \<Rightarrow> \<lparr>blocked = True, reason = MalformedJson, triggeringRuleIds = []\<rparr>
    | Some response \<Rightarrow>
        if process_status response \<noteq> ''complete'' then \<lparr>blocked = False, reason = Incomplete, triggeringRuleIds = []\<rparr>
        else let triggers = filterAndBuildTriggers (optl (ev_source response)) @
                    filterAndBuildTriggers (optl (ev_destination response));
                 firedTriggers = filter fired triggers
             in if firedTriggers = [] then \<lparr>blocked = False, reason = Clean, triggeringRuleIds = []\<rparr>
                else let ids = rev (remdups (rev (map ruleId firedTriggers)))
                     in \<lparr>blocked = True,
                         reason = (if list_ex (\<lambda>i. \<not> jm_has RULES i) ids then UnknownRule else RuleTriggered),
                         triggeringRuleIds = ids\<rparr>)"

section \<open>signing.ts\<close>

definition short_string_felt :: "string \<Rightarrow> int" where
  "short_string_felt s = foldl (\<lambda>acc c. acc * 256 + int (of_char c :: nat)) 0 s"

definition STARKNET_DOMAIN_TYPE_HASH :: int where
  "STARKNET_DOMAIN_TYPE_HASH = 0x1ff2f602e42168014d405a94f75e8a93d640751d71d16311266e140d8b0a210"
definition DEPOSITOR_VALIDATION_TYPE_HASH :: int where
  "DEPOSITOR_VALIDATION_TYPE_HASH = 0x32d43b7372c9ea8a35daf12b02c5f6f74837910ecbaf2a3ecfe71fec901913d"

definition computeScreeningMessageHash :: "crypto_lib \<Rightarrow> int \<Rightarrow> int \<Rightarrow> int \<Rightarrow> int \<Rightarrow> int" where
  "computeScreeningMessageHash K chain depositor issuedAt signerPublicKey =
     (let domainHash = poseidon K [STARKNET_DOMAIN_TYPE_HASH, short_string_felt ''Screening'', 2, chain, 1];
          messageStructHash = poseidon K [DEPOSITOR_VALIDATION_TYPE_HASH, depositor, issuedAt]
      in poseidon K [short_string_felt ''StarkNet Message'', domainHash, signerPublicKey, messageStructHash])"

definition signScreening :: "crypto_lib \<Rightarrow> string \<Rightarrow> int \<Rightarrow> int \<Rightarrow> int \<Rightarrow> ScreeningSignature result" where
  "signScreening K privateKey chain depositor issuedAt =
     bindR (BigInt (BNString (getStarkKey K privateKey))) (\<lambda>signerPublicKey.
     bindR (starkSign K (hex_of (computeScreeningMessageHash K chain depositor issuedAt signerPublicKey)) privateKey) (\<lambda>(r, s).
     Inr \<lparr>issued_at = of_int issuedAt, sig_r = hex_of r, sig_s = hex_of s\<rparr>))"

section \<open>handler.ts\<close>

definition ADDRESS_UPPER_BOUND :: int where
  "ADDRESS_UPPER_BOUND = 2 ^ 251"

record proxy_state =
  ps_windows :: "(string, Window) jsmap"
  ps_blocked :: "string list"          \<comment> \<open>the addresses in the cache of blocked ones\<close>
  ps_cacheTtlMs :: rat

datatype payload =
    ErrorBody string
  | ScreenBody bool string "ScreeningSignature option"    \<comment> \<open>\<open>blocked\<close>, \<open>source\<close>, \<open>signature\<close>\<close>

record ForwardResponse =
  fw_status :: nat
  fw_body :: "EllipticResponse option"

text \<open>
  The upstream answer, by address, and the clock readings of one request, in milliseconds.
\<close>

record request_env =
  env_config :: "Config option"                 \<comment> \<open>\<open>None\<close>: loading the configuration failed\<close>
  env_forward :: "string \<Rightarrow> ForwardResponse result"
  env_now :: int

definition sendAllowed :: "crypto_lib \<Rightarrow> Config \<Rightarrow> int \<Rightarrow> int \<Rightarrow> string \<Rightarrow> int \<Rightarrow> nat \<times> payload" where
  "sendAllowed K config chainFelt addressFelt source now =
     (case signScreening K (signingPrivateKey config) chainFelt addressFelt (now div 1000) of
        Inl _ \<Rightarrow> (503, ErrorBody ''signing failed'')
      | Inr signature \<Rightarrow> (200, ScreenBody False source (Some signature)))"

definition screenUpstream ::
  "crypto_lib \<Rightarrow> Config \<Rightarrow> request_env \<Rightarrow> int \<Rightarrow> int \<Rightarrow> string \<Rightarrow> proxy_state \<Rightarrow> proxy_state \<times> nat \<times> payload"
where
  "screenUpstream K config E chainFelt addressFelt address st =
     (let upstreamSource = (if isMockEllipticUrl (elliptic_url config) then ''mock'' else ''elliptic'') in
      case env_forward E address of
        Inl _ \<Rightarrow> (st, 504, ErrorBody ''upstream unreachable'')
      | Inr result \<Rightarrow>
          if fw_status result = 404 then (st, sendAllowed K config chainFelt addressFelt upstreamSource (env_now E))
          else if fw_status result < 200 \<or> fw_status result \<ge> 300 then (st, 502, ErrorBody ''upstream error'')
          else let scoringResult = scoreResponse (fw_body result) in
            if reason scoringResult = MalformedJson then (st, 502, ErrorBody ''upstream error'')
            else if blocked scoringResult
            then (st\<lparr>ps_blocked := address # ps_blocked st\<rparr>, 200, ScreenBody True upstreamSource None)
            else (st, sendAllowed K config chainFelt addressFelt upstreamSource (env_now E)))"

definition screenAddress ::
  "crypto_lib \<Rightarrow> Config \<Rightarrow> request_env \<Rightarrow> string \<Rightarrow> proxy_state \<Rightarrow> (proxy_state \<times> nat \<times> payload) result"
where
  "screenAddress K config E address0 st =
     (if \<not> isHexFelt (STARK_PRIME K) address0 then Inr (st, 400, ErrorBody ''invalid address format'')
      else let address = toLowerCase address0 in
        bindR (BigInt (BNString address)) (\<lambda>addressFelt.
        if addressFelt \<ge> ADDRESS_UPPER_BOUND then Inr (st, 400, ErrorBody ''invalid address'')
        else bindR (BigInt (BNString (chainId config))) (\<lambda>chainFelt.
          bindR (feltListIncludes (blockOverrideAddresses config) addressFelt) (\<lambda>allowed.
          if allowed then Inr (st, sendAllowed K config chainFelt addressFelt ''allowlist'' (env_now E))
          else bindR (feltListIncludes (additionalBlockedAddresses config) addressFelt) (\<lambda>denied.
            if denied then Inr (st, 200, ScreenBody True ''blocklist'' None)
            else if address \<in> set (ps_blocked st) then Inr (st, 200, ScreenBody True ''cache'' None)
            else Inr (screenUpstream K config E chainFelt addressFelt address st))))))"

definition proxy_handler :: "crypto_lib \<Rightarrow> request_env \<Rightarrow> Request \<Rightarrow> proxy_state \<Rightarrow> (proxy_state \<times> nat \<times> payload) result" where
  "proxy_handler K E req st =
     (case env_config E of
        None \<Rightarrow> Inr (st, 503, ErrorBody ''service unavailable'')
      | Some config \<Rightarrow>
          if (case r_rawBody req of None \<Rightarrow> False | Some b \<Rightarrow> of_nat (length b) > maxBodyBytes config)
          then Inr (st, 413, ErrorBody ''payload too large'')
          else let ttl = blockedCacheTtlSeconds config * 1000;
                   st1 = (if ttl \<noteq> ps_cacheTtlMs st then st\<lparr>ps_blocked := [], ps_cacheTtlMs := ttl\<rparr> else st)
            in case authenticateRequest K (of_int (env_now E)) req config of
                 Inl _ \<Rightarrow> Inr (st1, 401, ErrorBody ''unauthorized'')
               | Inr partner \<Rightarrow>
                   (case rl_check (ps_windows st1) (env_now E) partner (rateLimitPerMinute config) of
                      (ws, ok) \<Rightarrow>
                        let st2 = st1\<lparr>ps_windows := ws\<rparr> in
                        if \<not> ok then Inr (st2, 429, ErrorBody ''too many requests'')
                        else (case r_address req of
                           None \<Rightarrow> Inr (st2, 400, ErrorBody ''missing address'')
                         | Some address \<Rightarrow>
                             if address = [] then Inr (st2, 400, ErrorBody ''missing address'')
                             else screenAddress K config E address st2)))"

section \<open>Scoring\<close>

definition sum_of :: "(MatchedElement \<Rightarrow> rat) \<Rightarrow> Evaluation \<Rightarrow> rat" where
  "sum_of f e = sum_list (map f (optl (matched_elements e)))"

abbreviation contributed_usd :: "Evaluation \<Rightarrow> rat" where
  "contributed_usd \<equiv> sum_of (\<lambda>m. or_zero (contribution_usd m))"

abbreviation contributed_percentage :: "Evaluation \<Rightarrow> rat" where
  "contributed_percentage \<equiv> sum_of contribution_percentage"

abbreviation traded_usd :: "Evaluation \<Rightarrow> rat" where
  "traded_usd \<equiv> sum_of (\<lambda>m. or_zero (counterparty_usd m))"

abbreviation traded_percentage :: "Evaluation \<Rightarrow> rat" where
  "traded_percentage \<equiv> sum_of (\<lambda>m. contribution_percentage m / 100 * or_zero (counterparty_percentage m))"

lemma aggregate_totals:
  "aggregateElements (optl (matched_elements e)) =
     \<lparr>counterpartyPercentage = traded_percentage e, counterpartyUsd = traded_usd e,
      contributionPercentage = contributed_percentage e, contributionUsd = contributed_usd e\<rparr>"
proof -
  have "foldl (\<lambda>a e.
      \<lparr>counterpartyPercentage = counterpartyPercentage a + contribution_percentage e / 100 * or_zero (counterparty_percentage e),
       counterpartyUsd = counterpartyUsd a + or_zero (counterparty_usd e),
       contributionPercentage = contributionPercentage a + contribution_percentage e,
       contributionUsd = contributionUsd a + or_zero (contribution_usd e)\<rparr>) a ms =
     \<lparr>counterpartyPercentage = counterpartyPercentage a + sum_list (map (\<lambda>e. contribution_percentage e / 100 * or_zero (counterparty_percentage e)) ms),
      counterpartyUsd = counterpartyUsd a + sum_list (map (\<lambda>e. or_zero (counterparty_usd e)) ms),
      contributionPercentage = contributionPercentage a + sum_list (map contribution_percentage ms),
      contributionUsd = contributionUsd a + sum_list (map (\<lambda>e. or_zero (contribution_usd e)) ms)\<rparr>"
    for ms :: "MatchedElement list" and a :: Aggregated
    by (induction ms arbitrary: a) simp_all
  then show ?thesis by (simp add: aggregateElements_def sum_of_def)
qed

text \<open>
  The decision, evaluation by evaluation: a known rule must exceed its thresholds, an unknown one
  always counts; the risk is the score (raised to 10 by a hard block), or the contributed percentage
  without a score.
\<close>

definition hard_blocked :: "Evaluation \<Rightarrow> bool" where
  "hard_blocked e = (rule_id e \<in> {ILLICIT_ACTIVITY, SANCTIONED_ENTITY} \<and> contributed_usd e \<ge> 5000)"

definition over_threshold :: "Evaluation \<Rightarrow> bool" where
  "over_threshold e = (case jm_get RULES (rule_id e) of
      None \<Rightarrow> True
    | Some r \<Rightarrow> hard_blocked e \<or>
        contributed_usd e > t_contributionUsd r \<and> contributed_percentage e > t_contributionPercentage r \<or>
        traded_usd e > t_counterpartyUsd r \<and> traded_percentage e > t_counterpartyPercentage r)"

definition risky :: "Evaluation \<Rightarrow> bool" where
  "risky e = (over_threshold e \<and>
     (hard_blocked e \<or> (case risk_score e of Some s \<Rightarrow> s | None \<Rightarrow> contributed_percentage e) > 1 / 100))"

lemma rule_ids_distinct:
  "ILLICIT_ACTIVITY \<noteq> SANCTIONED_ENTITY" "ILLICIT_ACTIVITY \<noteq> OBFUSCATING" "ILLICIT_ACTIVITY \<noteq> DPRK_BYBIT_EXPLOIT"
  "SANCTIONED_ENTITY \<noteq> OBFUSCATING" "SANCTIONED_ENTITY \<noteq> DPRK_BYBIT_EXPLOIT" "OBFUSCATING \<noteq> DPRK_BYBIT_EXPLOIT"
  by code_simp+

lemma hard_rule: "jm_get RULES i = Some r \<Longrightarrow> t_hardBlockUsd r = (if i \<in> {ILLICIT_ACTIVITY, SANCTIONED_ENTITY} then Some 5000 else None)"
  using rule_ids_distinct by (auto simp: RULES_def split: if_splits)

lemma hard_rule_known: "i \<in> {ILLICIT_ACTIVITY, SANCTIONED_ENTITY} \<Longrightarrow> \<exists>r. jm_get RULES i = Some r"
  using rule_ids_distinct by (auto simp: RULES_def)

lemma trigger_fires: "filter fired (triggerOf e) \<noteq> [] \<longleftrightarrow> risky e"
proof (cases "jm_get RULES (rule_id e)")
  case None
  then have "\<not> hard_blocked e" using hard_rule_known by (fastforce simp: hard_blocked_def)
  with None show ?thesis
    by (simp add: triggerOf_def aggregate_totals fired_def risky_def over_threshold_def ALLOWED_RISK_EXPOSURE_def Let_def
        split: option.split)
next
  case (Some r)
  show ?thesis
  proof (cases "rule_id e \<in> {ILLICIT_ACTIVITY, SANCTIONED_ENTITY}")
    case True
    then have h: "t_hardBlockUsd r = Some 5000" "rule_id e \<in> set HARD_BLOCK_RULES"
      using hard_rule [OF Some] by (auto simp: HARD_BLOCK_RULES_def)
    show ?thesis using Some h True
      by (simp add: triggerOf_def aggregate_totals shouldFilter_def fired_def risky_def over_threshold_def hard_blocked_def
          ALLOWED_RISK_EXPOSURE_def Let_def split: option.split)
  next
    case False
    then have h: "t_hardBlockUsd r = None" "\<not> hard_blocked e"
      using hard_rule [OF Some] by (auto simp: hard_blocked_def)
    show ?thesis using Some h
      by (simp add: triggerOf_def aggregate_totals shouldFilter_def fired_def risky_def over_threshold_def
          ALLOWED_RISK_EXPOSURE_def Let_def split: option.split)
  qed
qed

lemma trigger_id: "t \<in> set (triggerOf e) \<Longrightarrow> ruleId t = rule_id e"
  by (auto simp: triggerOf_def Let_def split: if_splits option.splits)

lemma fired_ids: "ruleId ` set (filter fired (filterAndBuildTriggers es)) = rule_id ` set (filter risky es)"
proof -
  have "ruleId ` set (filter fired (triggerOf e)) = (if risky e then {rule_id e} else {})" for e
  proof (cases "filter fired (triggerOf e)")
    case Nil
    then show ?thesis using trigger_fires [of e] by simp
  next
    case (Cons t ts)
    then have "risky e" using trigger_fires [of e] by simp
    moreover have "ruleId x = rule_id e" if "x \<in> set (filter fired (triggerOf e))" for x
      using that trigger_id by auto
    ultimately show ?thesis using Cons by (auto simp: image_iff)
  qed
  then show ?thesis by (induction es) (auto simp: filterAndBuildTriggers_def image_Un)
qed

abbreviation evaluations_of :: "EllipticResponse \<Rightarrow> Evaluation list" where
  "evaluations_of r \<equiv> optl (ev_source r) @ optl (ev_destination r)"

text \<open>
  A complete upstream report blocks the address exactly when one of its evaluations, of either
  direction, is risky, and the reported rules are exactly those of the risky evaluations. In particular
  five thousand dollars from an illicit or sanctioned source block whatever the score says.
\<close>

theorem scoring_exact:
  assumes "process_status r = ''complete''"
  shows "(blocked (scoreResponse (Some r)) \<longleftrightarrow> (\<exists>e \<in> set (evaluations_of r). risky e)) \<and>
     set (triggeringRuleIds (scoreResponse (Some r))) = rule_id ` {e \<in> set (evaluations_of r). risky e} \<and>
     (\<forall>e \<in> set (evaluations_of r). rule_id e \<in> {ILLICIT_ACTIVITY, SANCTIONED_ENTITY} \<and> contributed_usd e \<ge> 5000
        \<longrightarrow> blocked (scoreResponse (Some r)))"
proof -
  let ?ts = "filterAndBuildTriggers (optl (ev_source r)) @ filterAndBuildTriggers (optl (ev_destination r))"
  have all: "?ts = filterAndBuildTriggers (evaluations_of r)" by (simp add: filterAndBuildTriggers_def)
  have ids: "ruleId ` set (filter fired ?ts) = rule_id ` {e \<in> set (evaluations_of r). risky e}"
    unfolding all fired_ids by (intro arg_cong [where f = "image rule_id"]) auto
  have b: "blocked (scoreResponse (Some r)) \<longleftrightarrow> filter fired ?ts \<noteq> []"
    using assms by (simp add: scoreResponse_def Let_def)
  have "set (triggeringRuleIds (scoreResponse (Some r))) = ruleId ` set (filter fired ?ts)"
    using assms by (auto simp: scoreResponse_def Let_def filter_empty_conv)
  moreover have "filter fired ?ts \<noteq> [] \<longleftrightarrow> (\<exists>e \<in> set (evaluations_of r). risky e)"
    using ids by (metis (mono_tags, lifting) empty_Collect_eq image_is_empty set_empty)
  moreover have "risky e" if "rule_id e \<in> {ILLICIT_ACTIVITY, SANCTIONED_ENTITY}" "contributed_usd e \<ge> 5000" for e
    using that by (auto simp: risky_def over_threshold_def hard_blocked_def split: option.split)
  ultimately show ?thesis using ids b by blast
qed

definition sample_report :: EllipticResponse where
  "sample_report = \<lparr>process_status = ''complete'', ev_source = Some [\<lparr>rule_id = SANCTIONED_ENTITY, risk_score = Some 0,
     matched_elements = Some [\<lparr>contribution_percentage = 1, contribution_usd = Some 6000, counterparty_percentage = None, counterparty_usd = None\<rparr>]\<rparr>],
     ev_destination = None\<rparr>"

theorem scoring_exact_witness: "blocked (scoreResponse (Some sample_report))"
proof -
  have "process_status sample_report = ''complete''" by (simp add: sample_report_def)
  from scoring_exact [OF this] show ?thesis
    by (auto simp: sample_report_def sum_of_def or_zero_def)
qed

section \<open>Only cleared addresses are signed\<close>

definition cleared :: "ForwardResponse result \<Rightarrow> bool" where
  "cleared fw = (case fw of Inl _ \<Rightarrow> False
     | Inr r \<Rightarrow> fw_status r = 404 \<or> 200 \<le> fw_status r \<and> fw_status r < 300 \<and> \<not> blocked (scoreResponse (fw_body r)))"

lemma sendAllowed_signed:
  "sendAllowed K config c a src0 now = (200, ScreenBody b src x) \<Longrightarrow>
   \<not> b \<and> (\<exists>sg. x = Some sg \<and> signScreening K (signingPrivateKey config) c a (now div 1000) = Inr sg)"
  by (auto simp: sendAllowed_def split: sum.splits)

lemma screenUpstream_allowed:
  assumes "screenUpstream K config E c a address st = (st', 200, ScreenBody False src x)"
  shows "cleared (env_forward E address) \<and>
     (\<exists>sg. x = Some sg \<and> signScreening K (signingPrivateKey config) c a (env_now E div 1000) = Inr sg)"
proof (cases "env_forward E address")
  case (Inr r)
  then show ?thesis
    using assms
    by (auto simp: screenUpstream_def cleared_def Let_def split: if_splits dest!: sendAllowed_signed)
qed (use assms in \<open>simp add: screenUpstream_def Let_def\<close>)

lemma screenAddress_allowed:
  assumes "screenAddress K config E address st = Inr (st', 200, ScreenBody False src x)"
  shows "\<exists>a c sg. isHexFelt (STARK_PRIME K) address \<and> BigInt (BNString (toLowerCase address)) = Inr a \<and> a < 2 ^ 251 \<and>
     BigInt (BNString (chainId config)) = Inr c \<and>
     x = Some sg \<and> signScreening K (signingPrivateKey config) c a (env_now E div 1000) = Inr sg \<and>
     (feltListIncludes (blockOverrideAddresses config) a = Inr True \<or>
      feltListIncludes (additionalBlockedAddresses config) a = Inr False \<and> toLowerCase address \<notin> set (ps_blocked st) \<and>
      cleared (env_forward E (toLowerCase address)))"
proof -
  obtain a where a: "isHexFelt (STARK_PRIME K) address" "BigInt (BNString (toLowerCase address)) = Inr a" "a < 2 ^ 251"
    using assms by (auto simp: screenAddress_def Let_def bindR_eq_Inr ADDRESS_UPPER_BOUND_def simp del: BigInt.simps split: if_splits)
  obtain c where c: "BigInt (BNString (chainId config)) = Inr c"
    using assms a by (auto simp: screenAddress_def Let_def bindR_eq_Inr ADDRESS_UPPER_BOUND_def simp del: BigInt.simps)
  obtain allow where allow: "feltListIncludes (blockOverrideAddresses config) a = Inr allow"
    using assms a c by (auto simp: screenAddress_def Let_def bindR_eq_Inr ADDRESS_UPPER_BOUND_def simp del: BigInt.simps)
  show ?thesis
  proof (cases allow)
    case True
    then have "sendAllowed K config c a ''allowlist'' (env_now E) = (200, ScreenBody False src x)"
      using assms a c allow by (simp add: screenAddress_def Let_def ADDRESS_UPPER_BOUND_def del: BigInt.simps)
    moreover have "feltListIncludes (blockOverrideAddresses config) a = Inr True" using allow True by simp
    ultimately show ?thesis using sendAllowed_signed a c by blast
  next
    case False
    then have "feltListIncludes (additionalBlockedAddresses config) a = Inr False"
      "toLowerCase address \<notin> set (ps_blocked st)"
      "screenUpstream K config E c a (toLowerCase address) st = (st', 200, ScreenBody False src x)"
      using assms a c allow
      by (auto simp: screenAddress_def Let_def bindR_eq_Inr ADDRESS_UPPER_BOUND_def simp del: BigInt.simps split: if_splits)
    with screenUpstream_allowed [OF this(3)] a c show ?thesis by blast
  qed
qed

text \<open>
  C7: The proxy signs only for cleared addresses. Whenever it answers "not blocked", the request was
  authenticated, the address is a felt below 2^251, the answer carries the signature over exactly that
  address, the configured chain and the current time, and either an operator has put the address on the
  allow list, or it is on no deny list, not known as blocked, and the upstream has just said that it does
  not know it or that its report is not blocking. Every other path (errors of the configuration, the
  upstream, the report or the signer) gives no such answer.
\<close>

theorem proxy_signs_only_cleared:
  assumes "proxy_handler K E req st = Inr (st', 200, ScreenBody False src x)"
  shows "\<exists>config partner address a c sg. env_config E = Some config \<and>
     authenticateRequest K (of_int (env_now E)) req config = Inr partner \<and> r_address req = Some address \<and>
     BigInt (BNString (toLowerCase address)) = Inr a \<and> a < 2 ^ 251 \<and> BigInt (BNString (chainId config)) = Inr c \<and>
     x = Some sg \<and> signScreening K (signingPrivateKey config) c a (env_now E div 1000) = Inr sg \<and>
     (feltListIncludes (blockOverrideAddresses config) a = Inr True \<or>
      feltListIncludes (additionalBlockedAddresses config) a = Inr False \<and> cleared (env_forward E (toLowerCase address)))"
proof -
  obtain config where config: "env_config E = Some config"
    using assms by (cases "env_config E") (simp_all add: proxy_handler_def)
  obtain partner where partner: "authenticateRequest K (of_int (env_now E)) req config = Inr partner"
    using assms config
    by (cases "authenticateRequest K (of_int (env_now E)) req config") (auto simp: proxy_handler_def Let_def split: if_splits)
  obtain address st2 where "r_address req = Some address"
    "screenAddress K config E address st2 = Inr (st', 200, ScreenBody False src x)"
    using assms config partner
    by (cases "r_address req") (auto simp: proxy_handler_def Let_def split: if_splits prod.splits)
  with screenAddress_allowed [OF this(2)] config partner show ?thesis by blast
qed

definition sample_crypto :: crypto_lib where
  "sample_crypto = \<lparr>hmac_base64 = (\<lambda>s ms. s @ concat ms), base64_bytes = map of_char, getStarkKey = (\<lambda>_. ''0x5''),
     starkSign = (\<lambda>h k. Inr (17, 18)), poseidon = (\<lambda>xs. int (length xs)), STARK_PRIME = 2 ^ 251 + 17 * 2 ^ 192 + 1\<rparr>"

definition sample_config :: Config where
  "sample_config = \<lparr>elliptic_url = ''https://e'', elliptic_timeoutMs = 10, rateLimitPerMinute = 2, maxBodyBytes = 1000,
     configCacheTtlSeconds = 60, blockedCacheTtlSeconds = 60,
     partners = [(''p'', \<lparr>hmacSecret = ''c2VjcmV0'', ellipticKey = ''k'', ellipticSecret = ''s''\<rparr>)],
     additionalBlockedAddresses = Some [''0x0d''], blockOverrideAddresses = None, signingPrivateKey = ''0x9'', chainId = ''0x1''\<rparr>"

definition sample_env :: request_env where
  "sample_env = \<lparr>env_config = Some sample_config, env_forward = (\<lambda>_. Inr \<lparr>fw_status = 404, fw_body = None\<rparr>), env_now = 7\<rparr>"

text \<open>The request as the server receives it.\<close>

definition received :: "ScreenRequest \<Rightarrow> Request" where
  "received rq = \<lparr>h_access_key = Some [rq_accessKey rq], h_access_sign = Some [rq_accessSign rq],
     h_access_timestamp = Some [rq_accessTimestamp rq], r_method = rq_method rq, r_path = rq_path rq,
     r_rawBody = Some (rq_rawBody rq), r_address = Some (rq_address rq)\<rparr>"

definition new_proxy :: proxy_state where
  "new_proxy = \<lparr>ps_windows = [], ps_blocked = [], ps_cacheTtlMs = 0\<rparr>"

theorem proxy_signs_only_cleared_witness:
  "\<exists>st' src sg. proxy_handler sample_crypto sample_env
       (received (screenRequest (hmac_base64 sample_crypto) sample_screening 7 ''0xAB'')) new_proxy
     = Inr (st', 200, ScreenBody False src (Some sg)) \<and> cleared (env_forward sample_env ''0xab'')"
proof -
  let ?rq = "received (screenRequest (hmac_base64 sample_crypto) sample_screening 7 ''0xAB'')"
  have "case proxy_handler sample_crypto sample_env ?rq new_proxy of
      Inr (st', st, ScreenBody b src x) \<Rightarrow> st = 200 \<and> \<not> b | _ \<Rightarrow> False" by code_simp
  then obtain st' src x where h: "proxy_handler sample_crypto sample_env ?rq new_proxy = Inr (st', 200, ScreenBody False src x)"
    by (auto split: sum.splits prod.splits payload.splits)
  have n: "toLowerCase ''0xAB'' = ''0xab''" by code_simp
  have f: "feltListIncludes (blockOverrideAddresses sample_config) a = Inr False" for a
    by (simp add: feltListIncludes_def sample_config_def)
  have e: "env_config sample_env = Some sample_config" "r_address ?rq = Some ''0xAB''"
    by (simp_all add: sample_env_def received_def screenRequest_def)
  obtain config address a sg where r: "env_config sample_env = Some config" "r_address ?rq = Some address" "x = Some sg"
    "feltListIncludes (blockOverrideAddresses config) a = Inr True \<or> cleared (env_forward sample_env (toLowerCase address))"
    using proxy_signs_only_cleared [OF h] by blast
  have "config = sample_config" "address = ''0xAB''" using r(1,2) e by (metis option.inject)+
  with r(4) f n have "cleared (env_forward sample_env ''0xab'')" by simp
  with h r(3) show ?thesis by blast
qed

end
