(* ===== verification/Proxy_Config.thy ===== *)
theory Proxy_Config
  imports Elliptic_Proxy
begin

text \<open>
  The rest of the screening proxy: the configuration loader of \<open>elliptic-proxy/src/config.ts\<close>, the
  signed upstream request of \<open>elliptic.ts\<close> and the mock upstream of \<open>mock-elliptic.ts\<close>. The theorems: a
  configuration that loads is well-formed, so the request handler never trips over it, and a mock
  upstream never serves mainnet; and the loader serves a configuration only within its own lifetime.
\<close>

section \<open>ConfigLoader\<close>

record ConfigLoader =
  cl_cached :: "Config option"
  cl_cachedAt :: rat
  cl_ttlMs :: rat

definition new_ConfigLoader :: ConfigLoader where
  "new_ConfigLoader = \<lparr>cl_cached = None, cl_cachedAt = 0, cl_ttlMs = 0\<rparr>"

text \<open>
  \<open>fetched\<close> is the secret after \<open>JSON.parse\<close>, \<open>now\<close> and \<open>later\<close> the clock before and after fetching. The
  lifetime is always that of the configuration: \<open>validateConfig\<close> leaves no field out.
\<close>

definition cl_load :: "int \<Rightarrow> json result \<Rightarrow> rat \<Rightarrow> ConfigLoader \<Rightarrow> ConfigLoader \<times> Config result" where
  "cl_load prime fetched later cl = (case bindR fetched (validateConfig prime) of
      Inl e \<Rightarrow> (cl, Inl e)
    | Inr config \<Rightarrow> (\<lparr>cl_cached = Some config, cl_cachedAt = later, cl_ttlMs = configCacheTtlSeconds config * 1000\<rparr>, Inr config))"

definition cl_get :: "int \<Rightarrow> json result \<Rightarrow> rat \<Rightarrow> rat \<Rightarrow> ConfigLoader \<Rightarrow> ConfigLoader \<times> Config result" where
  "cl_get prime fetched now later cl = (case cl_cached cl of
      Some c \<Rightarrow> if now - cl_cachedAt cl < cl_ttlMs cl then (cl, Inr c) else cl_load prime fetched later cl
    | None \<Rightarrow> cl_load prime fetched later cl)"

section \<open>elliptic.ts and mock-elliptic.ts\<close>

definition ELLIPTIC_PATH :: string where "ELLIPTIC_PATH = ''/v2/wallet/synchronous''"

record ForwardRequest =
  fr_ellipticUrl :: string
  fr_ellipticKey :: string
  fr_ellipticSecret :: string
  fr_ellipticTimeoutMs :: rat
  fr_address :: string

text \<open>What \<open>fetch\<close> is given; \<open>up_base\<close> is the base the path is resolved against.\<close>

record UpstreamCall =
  up_base :: string
  up_path :: string
  up_method :: string
  up_accessKey :: string
  up_accessSign :: string
  up_accessTimestamp :: string
  up_body :: string
  up_timeoutMs :: rat

text \<open>The address is a hexadecimal felt, which \<open>JSON.stringify\<close> leaves as it is.\<close>

definition upstreamBody :: "string \<Rightarrow> string" where
  "upstreamBody address =
     ''{\"subject\":{\"asset\":\"holistic\",\"blockchain\":\"holistic\",\"type\":\"address\",\"hash\":\"'' @ address @
     ''\"},\"type\":\"wallet_exposure\"}''"

definition upstreamCall :: "crypto_lib \<Rightarrow> ForwardRequest \<Rightarrow> int \<Rightarrow> UpstreamCall" where
  "upstreamCall K request now =
     (let body = upstreamBody (fr_address request); timestamp = int_toString 10 now in
      \<lparr>up_base = fr_ellipticUrl request, up_path = ELLIPTIC_PATH, up_method = ''POST'', up_accessKey = fr_ellipticKey request,
       up_accessSign = computeHmacSignature (hmac_base64 K) (fr_ellipticSecret request) timestamp ''POST'' ELLIPTIC_PATH body,
       up_accessTimestamp = timestamp, up_body = body, up_timeoutMs = fr_ellipticTimeoutMs request\<rparr>)"

definition forwardToElliptic :: "crypto_lib \<Rightarrow> (UpstreamCall \<Rightarrow> ForwardResponse result) \<Rightarrow> int \<Rightarrow> ForwardRequest \<Rightarrow> ForwardResponse result" where
  "forwardToElliptic K upstream now request = upstream (upstreamCall K request now)"

text \<open>The body \<open>{}\<close> has none of the fields the scoring reads; it is never scored, a 404 is allowed at once.\<close>

definition mockForward :: ForwardResponse where
  "mockForward = \<lparr>fw_status = 404, fw_body = None\<rparr>"

definition mockableForwarder :: "(ForwardRequest \<Rightarrow> ForwardResponse result) \<Rightarrow> ForwardRequest \<Rightarrow> ForwardResponse result" where
  "mockableForwarder liveForward request =
     (if isMockEllipticUrl (fr_ellipticUrl request) then Inr mockForward else liveForward request)"

section \<open>Well-formed configurations\<close>

definition felt_list :: "int \<Rightarrow> string list option \<Rightarrow> bool" where
  "felt_list prime xs = list_all (\<lambda>x. isHexFelt prime x \<and> toLowerCase x = x) (optl xs)"

definition partner_wf :: "string \<times> PartnerCredentials \<Rightarrow> bool" where
  "partner_wf e \<longleftrightarrow> hmacSecret (snd e) \<noteq> [] \<and> ellipticKey (snd e) \<noteq> [] \<and> ellipticSecret (snd e) \<noteq> []"

definition config_wf :: "int \<Rightarrow> Config \<Rightarrow> bool" where
  "config_wf prime c \<longleftrightarrow>
     elliptic_url c \<noteq> [] \<and> signingPrivateKey c \<noteq> [] \<and>
     list_all (\<lambda>x. 0 < x) [elliptic_timeoutMs c, rateLimitPerMinute c, maxBodyBytes c, configCacheTtlSeconds c, blockedCacheTtlSeconds c] \<and>
     list_all partner_wf (partners c) \<and>
     jm_wf (partners c) \<and> isHexFelt prime (chainId c) \<and> toLowerCase (chainId c) = chainId c \<and>
     felt_list prime (additionalBlockedAddresses c) \<and> felt_list prime (blockOverrideAddresses c) \<and>
     \<not> (isMockEllipticUrl (elliptic_url c) \<and> BigInt (BNString (chainId c)) = Inr SN_MAIN_CHAIN_ID)"

lemma hex_digit_not_ws: "is_hex_digit c \<Longrightarrow> \<not> is_ws c"
  by (auto simp: is_hex_digit_def is_ws_def digit_val_def Let_def split: option.splits if_splits)

lemma hex_value:
  assumes "ds \<noteq> []" "list_all is_hex_digit ds"
  shows "StringToBigInt (''0x'' @ ds) = map_option int (parse_nat 16 ds)"
proof -
  have "\<not> is_ws (last ds)" using assms hex_digit_not_ws by (auto simp: list_all_iff)
  then have "trim (''0x'' @ ds) = ''0x'' @ ds" using assms(1) by (intro trim_id) (auto simp: is_ws_def)
  then show ?thesis by (simp add: StringToBigInt_def)
qed

lemma HEX_FELT_split: "HEX_FELT s \<Longrightarrow> s = ''0x'' @ drop 2 s \<and> drop 2 s \<noteq> [] \<and> list_all is_hex_digit (drop 2 s)"
  unfolding HEX_FELT_def by (metis append_take_drop_id list.size(3) not_one_le_zero)

lemma hex_lower: "isHexFelt prime s \<Longrightarrow> isHexFelt prime (toLowerCase s)"
proof -
  assume h: "isHexFelt prime s"
  obtain ds where ds: "s = ''0x'' @ ds" "ds \<noteq> []" "list_all is_hex_digit ds" "length ds \<le> 64"
    using h HEX_FELT_split [of s] unfolding isHexFelt_def HEX_FELT_def by metis
  have lower: "toLowerCase s = ''0x'' @ toLowerCase ds" by (simp add: ds(1) toLowerCase_def lower_X)
  have all: "list_all is_hex_digit (toLowerCase ds)" "toLowerCase ds \<noteq> []" "length (toLowerCase ds) = length ds"
    using ds(2,3) by (simp_all add: toLowerCase_def list_all_iff hex_digit_lower)
  have "parse_nat 16 (toLowerCase ds) = parse_nat 16 ds" using ds(2) all(2) by (simp add: parse_nat_def parse_lower)
  then have "StringToBigInt (toLowerCase s) = StringToBigInt s"
    using hex_value [OF ds(2,3)] hex_value [OF all(2,1)] unfolding lower by (simp only: ds(1))
  moreover have "HEX_FELT (toLowerCase s)" using all ds(2,4) by (cases ds) (simp_all add: HEX_FELT_def lower)
  ultimately show ?thesis using h by (auto simp: isHexFelt_def of_option_def split: option.splits)
qed

lemma requireString_nonempty: "requireString obj path = Inr s \<Longrightarrow> s \<noteq> []"
  by (auto simp: requireString_def split: option.splits json.splits if_splits)

lemma requirePositive: "requirePositiveNumber obj path = Inr n \<Longrightarrow> 0 < n"
  by (auto simp: requirePositiveNumber_def bindR_eq_Inr split: if_splits)

lemma parsed_list: "parseLowercaseHexList prime obj k = Inr xs \<Longrightarrow> felt_list prime xs"
proof -
  assume h: "parseLowercaseHexList prime obj k = Inr xs"
  have "list_all (\<lambda>x. isHexFelt prime x \<and> toLowerCase x = x) ys"
    if "list_all2 (\<lambda>x y. (if isHexFelt prime x then Inr (toLowerCase x) else Inl (config_error k)) = Inr y) zs ys" for zs ys
    using that by (induction rule: list_all2_induct) (auto simp: hex_lower lower_idem split: if_splits)
  then show ?thesis using h
    by (auto simp: parseLowercaseHexList_def felt_list_def bindR_eq_Inr mapR_eq_Inr split: option.splits json.splits)
qed

lemma parsed_partners: "mapR parsePartner ps = Inr es \<Longrightarrow> list_all partner_wf (jm_of_entries es)"
proof -
  assume "mapR parsePartner ps = Inr es"
  then have "list_all partner_wf es"
    unfolding mapR_eq_Inr by (induction rule: list_all2_induct) (auto simp: parsePartner_def bindR_eq_Inr partner_wf_def dest: requireString_nonempty)
  moreover have "list_all partner_wf m \<Longrightarrow> list_all partner_wf es' \<Longrightarrow> list_all partner_wf (foldl (\<lambda>m e. jm_set m (fst e) (snd e)) m es')" for m es'
  proof (induction es' arbitrary: m)
    case (Cons e es')
    then have "list_all partner_wf (jm_set m (fst e) (snd e))" using jm_set_entries [of m "fst e" "snd e"] by (auto simp: list_all_iff)
    then show ?case using Cons by simp
  qed simp
  ultimately show ?thesis by (simp add: jm_of_entries_def)
qed

text \<open>
  C40: A configuration that \<open>validateConfig\<close> returns is well-formed: every limit and lifetime is positive,
  every credential is there, the chain id and both address lists are lower-case hexadecimal felts
  below the prime, and the mock upstream is never combined with mainnet.
\<close>

theorem validated_config_wf:
  assumes "validateConfig prime raw = Inr c"
  shows "config_wf prime c"
  using assms
  by (auto simp: validateConfig_def Let_def bindR_eq_Inr assertR_eq_Inr config_wf_def lower_idem simp del: BigInt.simps
      dest: requireString_nonempty requirePositive parsed_list parsed_partners)

text \<open>A fetched configuration that loads.\<close>

definition sample_raw :: json where
  "sample_raw = JObject [(''elliptic'', JObject [(''url'', JString ''mock:''), (''timeoutMs'', JNum 5)]),
     (''partners'', JObject [(''p'', JObject [(''hmacSecret'', JString ''h''), (''ellipticKey'', JString ''k''), (''ellipticSecret'', JString ''s'')])]),
     (''chainId'', JString ''0xAB''), (''rateLimitPerMinute'', JNum 2), (''maxBodyBytes'', JNum 9), (''configCacheTtlSeconds'', JNum 3),
     (''blockedCacheTtlSeconds'', JNum 4), (''additionalBlockedAddresses'', JArray [JString ''0xD'']), (''signingPrivateKey'', JString ''0x9'')]"

theorem validated_config_wf_witness: "\<exists>c. validateConfig 1000 sample_raw = Inr c \<and> config_wf 1000 c \<and> chainId c = ''0xab''"
proof -
  have "case validateConfig 1000 sample_raw of Inr c \<Rightarrow> chainId c = ''0xab'' | Inl _ \<Rightarrow> False" by code_simp
  then obtain c where "validateConfig 1000 sample_raw = Inr c" "chainId c = ''0xab''" by (auto split: sum.splits)
  with validated_config_wf [OF this(1)] show ?thesis by blast
qed

section \<open>Loading\<close>

text \<open>The calls of \<open>get\<close>, in order: what was fetched and the two clock readings; the answers are kept.\<close>

fun cl_run :: "int \<Rightarrow> ConfigLoader \<Rightarrow> (json result \<times> rat \<times> rat) list \<Rightarrow> ConfigLoader \<times> Config result list" where
  "cl_run prime cl [] = (cl, [])"
| "cl_run prime cl ((fetched, now, later) # es) =
     (let (cl', r) = cl_get prime fetched now later cl; (cl'', rs) = cl_run prime cl' es in (cl'', r # rs))"

text \<open>The cached configuration is the one fetched by the \<open>j\<close>-th call of the history.\<close>

definition cl_inv :: "int \<Rightarrow> (json result \<times> rat \<times> rat) list \<Rightarrow> ConfigLoader \<Rightarrow> bool" where
  "cl_inv prime past cl \<longleftrightarrow> (\<forall>c. cl_cached cl = Some c \<longrightarrow>
     (\<exists>j < length past. bindR (fst (past ! j)) (validateConfig prime) = Inr c \<and> cl_cachedAt cl = snd (snd (past ! j))) \<and>
     cl_ttlMs cl = configCacheTtlSeconds c * 1000)"

text \<open>What the last call of a history may answer.\<close>

definition served :: "int \<Rightarrow> (json result \<times> rat \<times> rat) list \<Rightarrow> nat \<Rightarrow> Config \<Rightarrow> bool" where
  "served prime es i c \<longleftrightarrow> (\<exists>j \<le> i. bindR (fst (es ! j)) (validateConfig prime) = Inr c \<and>
     (j = i \<or> fst (snd (es ! i)) - snd (snd (es ! j)) < configCacheTtlSeconds c * 1000))"

lemma cl_get_step:
  assumes "cl_inv prime past cl" "cl_get prime (fst e) (fst (snd e)) (snd (snd e)) cl = (cl', r)"
  shows "cl_inv prime (past @ [e]) cl'" "r = Inr c \<Longrightarrow> served prime (past @ [e]) (length past) c"
proof -
  have keep: "cl_inv prime (past @ [e]) cl" using assms(1) unfolding cl_inv_def
    by (metis length_append_singleton less_SucI nth_append_left)
  have load: "cl_inv prime (past @ [e]) (fst (cl_load prime (fst e) (snd (snd e)) cl))"
  proof (cases "bindR (fst e) (validateConfig prime)")
    case (Inr config)
    then show ?thesis by (auto simp: cl_load_def cl_inv_def intro: exI [of _ "length past"])
  qed (simp add: cl_load_def keep)
  have new: "snd (cl_load prime (fst e) (snd (snd e)) cl) = Inr c \<Longrightarrow> served prime (past @ [e]) (length past) c"
    unfolding served_def by (intro exI [of _ "length past"]) (simp add: cl_load_def split: sum.splits)
  show "cl_inv prime (past @ [e]) cl'"
    using assms(2) keep load by (auto simp: cl_get_def split: option.splits if_splits)
  show "served prime (past @ [e]) (length past) c" if r: "r = Inr c"
  proof (cases "cl_cached cl = Some c \<and> fst (snd e) - cl_cachedAt cl < cl_ttlMs cl")
    case True
    then obtain j where "j < length past" "bindR (fst (past ! j)) (validateConfig prime) = Inr c"
      "cl_cachedAt cl = snd (snd (past ! j))" "cl_ttlMs cl = configCacheTtlSeconds c * 1000"
      using assms(1) unfolding cl_inv_def by blast
    then show ?thesis using True unfolding served_def by (intro exI [of _ j]) (simp add: nth_append)
  next
    case False
    then have "snd (cl_load prime (fst e) (snd (snd e)) cl) = Inr c"
      using assms(2) r by (auto simp: cl_get_def split: option.splits if_splits)
    then show ?thesis by (rule new)
  qed
qed

lemma cl_run_served:
  assumes "cl_inv prime past cl" "snd (cl_run prime cl es) ! i = Inr c" "i < length es"
  shows "served prime (past @ es) (length past + i) c"
  using assms
proof (induction es arbitrary: past cl i)
  case (Cons e es)
  obtain cl' r where g: "cl_get prime (fst e) (fst (snd e)) (snd (snd e)) cl = (cl', r)" by fastforce
  note s = cl_get_step [OF Cons.prems(1) g]
  have run: "snd (cl_run prime cl (e # es)) = r # snd (cl_run prime cl' es)"
    using g by (cases e) (simp add: split_def Let_def)
  show ?case
  proof (cases i)
    case 0
    then have "served prime (past @ [e]) (length past) c" using s(2) Cons.prems(2) run by simp
    then obtain j where "j \<le> length past" "bindR (fst ((past @ [e]) ! j)) (validateConfig prime) = Inr c"
      "j = length past \<or> fst (snd ((past @ [e]) ! length past)) - snd (snd ((past @ [e]) ! j)) < configCacheTtlSeconds c * 1000"
      unfolding served_def by blast
    moreover from this(1) have "(past @ [e]) ! j = (past @ e # es) ! j" by (auto simp: nth_append)
    ultimately show ?thesis using 0 unfolding served_def by (intro exI [of _ j]) simp
  next
    case (Suc k)
    then show ?thesis using Cons.IH [OF s(1), of k] Cons.prems run by simp
  qed
qed simp

text \<open>
  The proxy runs on a configuration only within that configuration's own lifetime: whatever the
  order of fetches, failures and clock readings, each answer of \<open>get\<close> passed validation in this call,
  or in an earlier one that completed less than the configuration's \<open>configCacheTtlSeconds\<close> before.
\<close>

theorem loader_serves_fresh:
  assumes "snd (cl_run prime new_ConfigLoader es) ! i = Inr c" "i < length es"
  shows "\<exists>j \<le> i. bindR (fst (es ! j)) (validateConfig prime) = Inr c \<and>
     (j = i \<or> fst (snd (es ! i)) - snd (snd (es ! j)) < configCacheTtlSeconds c * 1000)"
  using cl_run_served [of prime "[]" new_ConfigLoader es i c] assms
  by (simp add: cl_inv_def new_ConfigLoader_def served_def)

theorem loader_serves_fresh_witness:
  "\<exists>c. snd (cl_run 1000 new_ConfigLoader [(Inr sample_raw, 0, 1), (Inl NoResult, 2000, 0)]) ! 1 = Inr c \<and>
     bindR (Inr sample_raw) (validateConfig 1000) = Inr c"
proof -
  let ?es = "[(Inr sample_raw, 0, 1), (Inl NoResult, 2000, 0)] :: (json result \<times> rat \<times> rat) list"
  have "case snd (cl_run 1000 new_ConfigLoader ?es) of [_, Inr c] \<Rightarrow> True | _ \<Rightarrow> False" by code_simp
  then obtain c where c: "snd (cl_run 1000 new_ConfigLoader ?es) ! 1 = Inr c" by (auto split: list.splits sum.splits)
  obtain j where "j \<le> 1" "bindR (fst (?es ! j)) (validateConfig 1000) = Inr c"
    using loader_serves_fresh [OF c] by auto
  then have "bindR (Inr sample_raw) (validateConfig 1000) = Inr c" by (cases j) (auto simp: bindR_def)
  with c show ?thesis by blast
qed

end
