(* ===== verification/Map_Refinement.thy ===== *)
theory Map_Refinement
  imports Maps
begin

text \<open>
  Programs over an address map (\<open>sdk/src/utils/maps.ts\<close>). The specification is a partial map from
  numbers to values, with no order and no spelling; the theorem is a forward simulation: every
  sequence of calls on a \<open>BigNumberishMap\<close> gives the answers of the specification, errors included.
\<close>

datatype 'v map_call = MGet bignum "(bignum \<Rightarrow> 'v) option" | MSet bignum 'v | MHas bignum | MDelete bignum | MClear | MSize

datatype 'v map_reply = Value "'v option" | Flag bool | Count nat | Done | Threw error

definition reply_of :: "'m \<Rightarrow> ('m \<times> 'v map_reply) result \<Rightarrow> 'm \<times> 'v map_reply" where
  "reply_of m r = (case r of Inl e \<Rightarrow> (m, Threw e) | Inr x \<Rightarrow> x)"

text \<open>A call on the class; a throwing call leaves the map as it was.\<close>

fun map_step :: "(bignum, 'v, int) map_options \<Rightarrow> (int, 'v) jsmap \<Rightarrow> 'v map_call \<Rightarrow> (int, 'v) jsmap \<times> 'v map_reply" where
  "map_step opts m (MGet k d) = reply_of m (bindR (am_get opts m k d) (\<lambda>(m', v). Inr (m', Value v)))"
| "map_step opts m (MSet k v) = reply_of m (bindR (am_set opts m k v) (\<lambda>m'. Inr (m', Done)))"
| "map_step opts m (MHas k) = reply_of m (bindR (am_has opts m k) (\<lambda>b. Inr (m, Flag b)))"
| "map_step opts m (MDelete k) = reply_of m (bindR (am_delete opts m k) (\<lambda>(m', b). Inr (m', Flag b)))"
| "map_step opts m MClear = (am_clear m, Done)"
| "map_step opts m MSize = (m, Count (am_size m))"

text \<open>The same call on the specification.\<close>

definition spec_default :: "(bignum \<Rightarrow> 'v) option \<Rightarrow> (bignum \<Rightarrow> 'v) option \<Rightarrow> (int \<rightharpoonup> 'v) \<Rightarrow> bignum \<Rightarrow> int \<Rightarrow> int \<rightharpoonup> 'v" where
  "spec_default factory d f key k =
     (case f k of Some _ \<Rightarrow> f
      | None \<Rightarrow> (case (case d of Some g \<Rightarrow> Some g | None \<Rightarrow> factory) of Some g \<Rightarrow> f(k \<mapsto> g key) | None \<Rightarrow> f))"

fun spec_step :: "(bignum \<Rightarrow> 'v) option \<Rightarrow> (int \<rightharpoonup> 'v) \<Rightarrow> 'v map_call \<Rightarrow> (int \<rightharpoonup> 'v) \<times> 'v map_reply" where
  "spec_step factory f (MGet key d) = reply_of f (bindR (toBigInt key) (\<lambda>k.
     Inr (spec_default factory d f key k, Value (spec_default factory d f key k k))))"
| "spec_step factory f (MSet key v) = reply_of f (bindR (toBigInt key) (\<lambda>k. Inr (f(k \<mapsto> v), Done)))"
| "spec_step factory f (MHas key) = reply_of f (bindR (toBigInt key) (\<lambda>k. Inr (f, Flag (f k \<noteq> None))))"
| "spec_step factory f (MDelete key) = reply_of f (bindR (toBigInt key) (\<lambda>k. Inr (f(k := None), Flag (f k \<noteq> None))))"
| "spec_step factory f MClear = (Map.empty, Done)"
| "spec_step factory f MSize = (f, Count (card (dom f)))"

fun run_calls :: "('m \<Rightarrow> 'c \<Rightarrow> 'm \<times> 'r) \<Rightarrow> 'm \<Rightarrow> 'c list \<Rightarrow> 'm \<times> 'r list" where
  "run_calls step m [] = (m, [])"
| "run_calls step m (c # cs) = (let (m', r) = step m c; (m'', rs) = run_calls step m' cs in (m'', r # rs))"

text \<open>A simulation of steps extends to runs.\<close>

lemma run_simulation:
  assumes "\<And>m f c. R m f \<Longrightarrow> R (fst (step m c)) (fst (step' f c)) \<and> snd (step m c) = snd (step' f c)"
  shows "R m f \<Longrightarrow> R (fst (run_calls step m cs)) (fst (run_calls step' f cs)) \<and> snd (run_calls step m cs) = snd (run_calls step' f cs)"
proof (induction cs arbitrary: m f)
  case (Cons c cs)
  then show ?case
    using assms [OF Cons.prems, of c] Cons.IH [of "fst (step m c)" "fst (step' f c)"] by (simp add: split_def Let_def)
qed simp

definition represents :: "(int, 'v) jsmap \<Rightarrow> (int \<rightharpoonup> 'v) \<Rightarrow> bool" where
  "represents m f \<longleftrightarrow> jm_wf m \<and> jm_get m = f"

lemma jm_has_get: "jm_has m k \<longleftrightarrow> jm_get m k \<noteq> None"
  by (simp add: jm_has_keys jm_get_None_keys)

lemma size_card: "jm_wf m \<Longrightarrow> length m = card (dom (jm_get m))"
proof -
  assume wf: "jm_wf m"
  have "dom (jm_get m) = set (jm_keys m)" using jm_get_None_keys [of m] by (auto simp: dom_def)
  then show ?thesis using wf distinct_card [of "jm_keys m"] by (simp add: jm_wf_def)
qed

lemma get_after_set: "jm_get (jm_set m k v) = (jm_get m)(k \<mapsto> v)" "jm_get (jm_delete m k) = (jm_get m)(k := None)"
  by (auto simp: fun_eq_iff)

lemma step_simulation:
  assumes "represents m f"
  shows "represents (fst (map_step (BigNumberishMap factory) m c)) (fst (spec_step factory f c)) \<and>
    snd (map_step (BigNumberishMap factory) m c) = snd (spec_step factory f c)"
proof -
  note am = am_get_def am_set_def am_has_def am_delete_def toInternalKey_def BigNumberishMap_def reply_of_def bindR_def
  have r: "jm_wf m" "jm_get m = f" using assms by (simp_all add: represents_def)
  show ?thesis
  proof (cases c)
    case (MGet key d)
    then show ?thesis using r
      by (auto simp: am represents_def spec_default_def jm_has_get get_after_set Let_def split: sum.splits option.splits)
  next
    case MClear
    then show ?thesis by (auto simp: am_clear_def represents_def fun_eq_iff)
  next
    case MSize
    then show ?thesis using r by (simp add: am_size_def represents_def size_card)
  qed (use r in \<open>auto simp: am represents_def jm_has_get get_after_set split: sum.splits\<close>)
qed

text \<open>
  C37: An address map refines a partial map over numbers: whatever the sequence of \<open>get\<close> (with or without
  defaults), \<open>set\<close>, \<open>has\<close>, \<open>delete\<close>, \<open>clear\<close> and \<open>size\<close> calls and however their keys are spelled, each
  answer, error included, is the one of the specification, and the map that results represents the
  specification's state.
\<close>

theorem address_map_refines:
  assumes "jm_wf m"
  shows "snd (run_calls (map_step (BigNumberishMap factory)) m cs) = snd (run_calls (spec_step factory) (jm_get m) cs) \<and>
    jm_wf (fst (run_calls (map_step (BigNumberishMap factory)) m cs)) \<and>
    jm_get (fst (run_calls (map_step (BigNumberishMap factory)) m cs)) = fst (run_calls (spec_step factory) (jm_get m) cs)"
  using run_simulation [of represents "map_step (BigNumberishMap factory)" "spec_step factory", OF step_simulation, of m "jm_get m" cs] assms
  by (simp add: represents_def)

theorem address_map_refines_witness:
  "snd (run_calls (map_step (BigNumberishMap (Some (\<lambda>_. 5 :: int)))) [] [MSet (BNString ''0x1'') 2, MGet (BNBigint 1) None, MGet (BNNumber 3) None, MSize, MHas (BNString ''z'')])
     = [Done, Value (Some 2), Value (Some 5), Count 2, Threw (SyntaxError ''z'')] \<and>
   snd (run_calls (map_step (BigNumberishMap (Some (\<lambda>_. 5 :: int)))) [] [MSet (BNString ''0x1'') 2, MGet (BNBigint 1) None, MGet (BNNumber 3) None, MSize, MHas (BNString ''z'')])
     = snd (run_calls (spec_step (Some (\<lambda>_. 5))) (jm_get []) [MSet (BNString ''0x1'') 2, MGet (BNBigint 1) None, MGet (BNNumber 3) None, MSize, MHas (BNString ''z'')])"
proof
  show "snd (run_calls (map_step (BigNumberishMap (Some (\<lambda>_. 5 :: int)))) [] [MSet (BNString ''0x1'') 2, MGet (BNBigint 1) None, MGet (BNNumber 3) None, MSize, MHas (BNString ''z'')])
     = [Done, Value (Some 2), Value (Some 5), Count 2, Threw (SyntaxError ''z'')]" by code_simp
qed (rule conjunct1 [OF address_map_refines [OF jm_wf_Nil]])

end
