(* ===== verification/Client_Signers.thy ===== *)
theory Client_Signers
  imports Convert "HOL-Library.Countable"
begin

text \<open>
  The account signers of \<open>client/src/signers\<close>: the EIP-712 signers for Ethereum wallets
  (\<open>eip712-call-set-signer.ts\<close>) and the SNIP-12 signer (\<open>snip12-call-set-signer.ts\<close>). Keccak, Poseidon,
  the selector hash, the curve and the wallet are parameters. The theorems: a wallet that follows
  EIP-712 and a raw key produce the same account signature; the six felts of a signature determine it;
  and the SNIP-12 hash binds account, chain, calls and additional data.
\<close>

unbundle bit_operations_syntax

section \<open>Calls and the library\<close>

record ClientCall =
  cc_contractAddress :: string
  cc_entrypoint :: string
  cc_calldata :: "bignum list option"

record signer_lib =
  keccak_256 :: "nat list \<Rightarrow> nat list"
  textEncode :: "string \<Rightarrow> nat list"
  getSelectorFromName :: "string \<Rightarrow> string"
  hexToBytes :: "string \<Rightarrow> nat list result"

definition toFelt :: "bignum \<Rightarrow> int result" where
  "toFelt v = BigInt v"

section \<open>Bytes\<close>

definition MASK_128 :: int where
  "MASK_128 = 2 ^ 128 - 1"

definition bytesToBigInt :: "nat list \<Rightarrow> int" where
  "bytesToBigInt b = foldl (\<lambda>x byte. push_bit 8 x OR int byte) 0 b"

text \<open>\<open>to32\<close> fills the bytes from the last to the first.\<close>

primrec to32_loop :: "nat \<Rightarrow> int \<Rightarrow> nat list \<Rightarrow> nat list" where
  "to32_loop 0 x out = out"
| "to32_loop (Suc i) x out = to32_loop i (drop_bit 8 x) (nat (x AND 0xff) # out)"

definition to32 :: "int \<Rightarrow> nat list" where
  "to32 v = to32_loop 32 v []"

section \<open>EIP-712 hashes\<close>

definition keccak :: "signer_lib \<Rightarrow> nat list \<Rightarrow> int" where
  "keccak S b = bytesToBigInt (keccak_256 S b)"

definition keccakFelts :: "signer_lib \<Rightarrow> int list \<Rightarrow> int" where
  "keccakFelts S vals = keccak S (concat (map to32 vals))"

definition keccakType :: "signer_lib \<Rightarrow> string \<Rightarrow> int" where
  "keccakType S encodeType = keccak S (textEncode S encodeType)"

definition EIP712_DOMAIN_TYPE_HASH :: "signer_lib \<Rightarrow> int" where
  "EIP712_DOMAIN_TYPE_HASH S = keccakType S ''EIP712Domain(string name,string version,uint256 chainId,address verifyingContract)''"

definition CALL_TYPE_HASH :: "signer_lib \<Rightarrow> int" where
  "CALL_TYPE_HASH S = keccakType S ''Call(uint256 address,uint256 selector,uint256[] data)''"

definition CALL_SET_TYPE_HASH :: "signer_lib \<Rightarrow> int" where
  "CALL_SET_TYPE_HASH S = keccakType S ''CallSet(Call[] calls,uint256[] additional_data)Call(uint256 address,uint256 selector,uint256[] data)''"

definition OUTSIDE_EXECUTION_TYPE_HASH :: "signer_lib \<Rightarrow> int" where
  "OUTSIDE_EXECUTION_TYPE_HASH S = keccakType S
     ''OutsideExecution(Call[] calls,uint256 caller,uint256 nonce,uint256 execute_after,uint256 execute_before)Call(uint256 address,uint256 selector,uint256[] data)''"

definition wrapEip712 :: "signer_lib \<Rightarrow> int \<Rightarrow> int \<Rightarrow> int" where
  "wrapEip712 S domainSep structHash = keccak S ([0x19, 0x01] @ to32 domainSep @ to32 structHash)"

definition hashArray :: "signer_lib \<Rightarrow> ('t \<Rightarrow> int result) \<Rightarrow> 't list \<Rightarrow> int result" where
  "hashArray S hashItem items = bindR (mapR hashItem items) (\<lambda>hs. Inr (keccak S (concat (map to32 hs))))"

definition hashCallStruct :: "signer_lib \<Rightarrow> int \<Rightarrow> int \<Rightarrow> int list \<Rightarrow> int" where
  "hashCallStruct S address selector data =
     keccakFelts S [CALL_TYPE_HASH S, address, selector, keccak S (concat (map to32 data))]"

text \<open>\<open>call.calldata ?? []\<close>\<close>

definition call_data :: "ClientCall \<Rightarrow> bignum list" where
  "call_data call = (case cc_calldata call of None \<Rightarrow> [] | Some d \<Rightarrow> d)"

definition hashCall :: "signer_lib \<Rightarrow> ClientCall \<Rightarrow> int result" where
  "hashCall S call =
     bindR (toFelt (BNString (cc_contractAddress call))) (\<lambda>to.
     bindR (toFelt (BNString (getSelectorFromName S (cc_entrypoint call)))) (\<lambda>selector.
     bindR (mapR toFelt (call_data call)) (\<lambda>data.
     Inr (hashCallStruct S to selector data))))"

definition hashCallArray :: "signer_lib \<Rightarrow> ClientCall list \<Rightarrow> int result" where
  "hashCallArray S calls = hashArray S (hashCall S) calls"

definition hashFeltArray :: "signer_lib \<Rightarrow> int list \<Rightarrow> int" where
  "hashFeltArray S felts = keccak S (concat (map to32 felts))"

definition hashCallSet :: "signer_lib \<Rightarrow> ClientCall list \<Rightarrow> int list \<Rightarrow> int result" where
  "hashCallSet S calls additionalData = bindR (hashCallArray S calls) (\<lambda>h.
     Inr (keccakFelts S [CALL_SET_TYPE_HASH S, h, hashFeltArray S additionalData]))"

definition eip712DomainSeparator :: "signer_lib \<Rightarrow> string \<Rightarrow> string \<Rightarrow> int \<Rightarrow> int \<Rightarrow> int" where
  "eip712DomainSeparator S name version chain verifyingContract =
     keccakFelts S [EIP712_DOMAIN_TYPE_HASH S, keccak S (textEncode S name), keccak S (textEncode S version), chain, verifyingContract]"

definition DOMAIN_VERSION :: string where
  "DOMAIN_VERSION = ''2''"

definition computeCallSet712Hash ::
  "signer_lib \<Rightarrow> bignum \<Rightarrow> ClientCall list \<Rightarrow> string \<Rightarrow> bignum \<Rightarrow> bignum list \<Rightarrow> int result"
where
  "computeCallSet712Hash S accountAddress calls snChainName evmChainId additionalData =
     bindR (toFelt evmChainId) (\<lambda>chain.
     bindR (toFelt accountAddress) (\<lambda>account.
     let ds = eip712DomainSeparator S snChainName DOMAIN_VERSION chain (account AND MASK_128) in
     bindR (mapR toFelt additionalData) (\<lambda>additional.
     bindR (hashCallSet S calls additional) (\<lambda>sh.
     Inr (wrapEip712 S ds sh)))))"

record OutsideExecutionCall =
  oe_address :: bignum
  oe_selector :: bignum
  oe_data :: "bignum list"

definition hashOutsideCall :: "signer_lib \<Rightarrow> OutsideExecutionCall \<Rightarrow> int result" where
  "hashOutsideCall S call =
     bindR (toFelt (oe_address call)) (\<lambda>a.
     bindR (toFelt (oe_selector call)) (\<lambda>s.
     bindR (mapR toFelt (oe_data call)) (\<lambda>d. Inr (hashCallStruct S a s d))))"

record OutsideExecution712Domain =
  dom_name :: string
  dom_version :: string
  dom_chainId :: bignum
  dom_verifyingContract :: bignum

record OutsideExecution712Input =
  oei_domain :: OutsideExecution712Domain
  oei_calls :: "OutsideExecutionCall list"
  oei_caller :: bignum
  oei_nonce :: bignum
  oei_executeAfter :: bignum
  oei_executeBefore :: bignum

definition computeOutsideExecution712Hash :: "signer_lib \<Rightarrow> OutsideExecution712Input \<Rightarrow> int result" where
  "computeOutsideExecution712Hash S i =
     bindR (hashArray S (hashOutsideCall S) (oei_calls i)) (\<lambda>callArray.
     bindR (toFelt (oei_caller i)) (\<lambda>caller.
     bindR (toFelt (oei_nonce i)) (\<lambda>nonce.
     bindR (toFelt (oei_executeAfter i)) (\<lambda>after.
     bindR (toFelt (oei_executeBefore i)) (\<lambda>before.
     let structHash = keccakFelts S [OUTSIDE_EXECUTION_TYPE_HASH S, callArray, caller, nonce, after, before] in
     bindR (toFelt (dom_chainId (oei_domain i))) (\<lambda>chain.
     bindR (toFelt (dom_verifyingContract (oei_domain i))) (\<lambda>contract.
     Inr (wrapEip712 S (eip712DomainSeparator S (dom_name (oei_domain i)) (dom_version (oei_domain i)) chain contract) structHash))))))))"

section \<open>Typed data\<close>

text \<open>
  The typed data object handed to a wallet: its type declarations, the domain and the message. A
  scalar is a string or a number.
\<close>

datatype tvalue = TScalar bignum | TList "tvalue list" | TStruct "(string \<times> tvalue) list"

type_synonym type_decls = "(string \<times> (string \<times> string) list) list"

record TypedData =
  td_types :: type_decls
  td_primaryType :: string
  td_domain :: tvalue
  td_message :: tvalue

definition EIP712_DOMAIN_FIELDS :: "(string \<times> string) list" where
  "EIP712_DOMAIN_FIELDS = [(''name'', ''string''), (''version'', ''string''), (''chainId'', ''uint256''), (''verifyingContract'', ''address'')]"

definition CALL_FIELDS :: "(string \<times> string) list" where
  "CALL_FIELDS = [(''address'', ''uint256''), (''selector'', ''uint256''), (''data'', ''uint256[]'')]"

definition CALL_SET_EIP712_TYPES :: type_decls where
  "CALL_SET_EIP712_TYPES =
     [(''EIP712Domain'', EIP712_DOMAIN_FIELDS),
      (''CallSet'', [(''calls'', ''Call[]''), (''additional_data'', ''uint256[]'')]),
      (''Call'', CALL_FIELDS)]"

definition OUTSIDE_EXECUTION_EIP712_TYPES :: type_decls where
  "OUTSIDE_EXECUTION_EIP712_TYPES =
     [(''EIP712Domain'', EIP712_DOMAIN_FIELDS),
      (''OutsideExecution'', [(''calls'', ''Call[]''), (''caller'', ''uint256''), (''nonce'', ''uint256''),
         (''execute_after'', ''uint256''), (''execute_before'', ''uint256'')]),
      (''Call'', CALL_FIELDS)]"

definition hexFelt :: "bignum \<Rightarrow> tvalue result" where
  "hexFelt v = bindR (toFelt v) (\<lambda>n. Inr (TScalar (BNString (hex_of n))))"

definition domainValue :: "string \<Rightarrow> bignum \<Rightarrow> bignum \<Rightarrow> tvalue result" where
  "domainValue snChainName evmChainId accountAddress =
     bindR (hexFelt evmChainId) (\<lambda>chain.
     bindR (toFelt accountAddress) (\<lambda>account.
     Inr (TStruct [(''name'', TScalar (BNString snChainName)), (''version'', TScalar (BNString DOMAIN_VERSION)), (''chainId'', chain),
       (''verifyingContract'', TScalar (BNString (hex_of (account AND MASK_128))))])))"

definition callValue :: "bignum \<Rightarrow> bignum \<Rightarrow> bignum list \<Rightarrow> tvalue result" where
  "callValue address selector data =
     bindR (hexFelt address) (\<lambda>a. bindR (hexFelt selector) (\<lambda>s. bindR (mapR hexFelt data) (\<lambda>d.
     Inr (TStruct [(''address'', a), (''selector'', s), (''data'', TList d)]))))"

definition callSetTypedData :: "signer_lib \<Rightarrow> bignum \<Rightarrow> ClientCall list \<Rightarrow> string \<Rightarrow> bignum \<Rightarrow> bignum list \<Rightarrow> TypedData result" where
  "callSetTypedData S accountAddress calls snChainName evmChainId additionalData =
     bindR (domainValue snChainName evmChainId accountAddress) (\<lambda>dom.
     bindR (mapR (\<lambda>call. callValue (BNString (cc_contractAddress call)) (BNString (getSelectorFromName S (cc_entrypoint call))) (call_data call)) calls) (\<lambda>cs.
     bindR (mapR hexFelt additionalData) (\<lambda>add.
     Inr \<lparr>td_types = CALL_SET_EIP712_TYPES, td_primaryType = ''CallSet'', td_domain = dom,
          td_message = TStruct [(''calls'', TList cs), (''additional_data'', TList add)]\<rparr>)))"

record OutsideExecutionInput =
  oin_accountAddress :: bignum
  oin_snChainName :: string
  oin_evmChainId :: bignum
  oin_calls :: "OutsideExecutionCall list"
  oin_caller :: bignum
  oin_nonce :: bignum
  oin_executeAfter :: bignum
  oin_executeBefore :: bignum

definition outsideExecutionTypedData :: "OutsideExecutionInput \<Rightarrow> TypedData result" where
  "outsideExecutionTypedData i =
     bindR (domainValue (oin_snChainName i) (oin_evmChainId i) (oin_accountAddress i)) (\<lambda>dom.
     bindR (mapR (\<lambda>call. callValue (oe_address call) (oe_selector call) (oe_data call)) (oin_calls i)) (\<lambda>cs.
     bindR (hexFelt (oin_caller i)) (\<lambda>caller.
     bindR (hexFelt (oin_nonce i)) (\<lambda>nonce.
     bindR (hexFelt (oin_executeAfter i)) (\<lambda>after.
     bindR (hexFelt (oin_executeBefore i)) (\<lambda>before.
     Inr \<lparr>td_types = OUTSIDE_EXECUTION_EIP712_TYPES, td_primaryType = ''OutsideExecution'', td_domain = dom,
          td_message = TStruct [(''calls'', TList cs), (''caller'', caller), (''nonce'', nonce),
            (''execute_after'', after), (''execute_before'', before)]\<rparr>))))))"

section \<open>Signatures\<close>

record EthSignatureParts =
  es_r :: int
  es_s :: int
  es_v :: nat

definition toSixFelt :: "EthSignatureParts \<Rightarrow> int \<Rightarrow> string list" where
  "toSixFelt sig evmChainId = map hex_of
     [drop_bit 128 (es_r sig), es_r sig AND MASK_128, drop_bit 128 (es_s sig), es_s sig AND MASK_128, int (es_v sig), evmChainId]"

text \<open>\<open>curve\<close> is \<open>secp256k1.sign\<close>: \<open>r\<close>, \<open>s\<close> and the recovery bit.\<close>

definition secp256k1SignFn ::
  "(nat list \<Rightarrow> nat list \<Rightarrow> (int \<times> int \<times> nat) result) \<Rightarrow> bignum \<Rightarrow> (int \<Rightarrow> EthSignatureParts result) result"
where
  "secp256k1SignFn curve privateKey = bindR (toFelt privateKey) (\<lambda>k.
     Inr (\<lambda>messageHash. bindR (curve (to32 messageHash) (to32 k)) (\<lambda>(r, s, recovery).
       Inr \<lparr>es_r = r, es_s = s, es_v = 27 + recovery\<rparr>)))"

text \<open>A signature that is too short has no recovery byte; bytes after it are ignored.\<close>

definition parseEthSignature :: "signer_lib \<Rightarrow> string \<Rightarrow> EthSignatureParts result" where
  "parseEthSignature S hexSignature =
     bindR (hexToBytes S (if take 2 hexSignature = ''0x'' then drop 2 hexSignature else hexSignature)) (\<lambda>bytes.
     if length bytes \<le> 64 \<or> bytes ! 64 \<notin> {0, 1, 27, 28} then Inl (InvalidPayload ''v'')
     else Inr \<lparr>es_r = bytesToBigInt (take 32 bytes), es_s = bytesToBigInt (take 32 (drop 32 bytes)),
       es_v = (if bytes ! 64 < 27 then bytes ! 64 + 27 else bytes ! 64)\<rparr>)"

record Eip712SignerOptions =
  so_accountAddress :: bignum
  so_snChainName :: string
  so_evmChainId :: bignum
  so_additionalData :: "bignum list option"

definition additional_or_empty :: "Eip712SignerOptions \<Rightarrow> bignum list" where
  "additional_or_empty opts = (case so_additionalData opts of None \<Rightarrow> [] | Some d \<Rightarrow> d)"

text \<open>The two sources of a signature: a raw signer over the hash, and a wallet over the typed data.\<close>

datatype signature_source =
    HashSource "int \<Rightarrow> EthSignatureParts result"
  | TypedDataSource "TypedData \<Rightarrow> string result"

text \<open>Reading fields that may be missing: a missing number makes \<open>BigInt(undefined)\<close> throw, a missing text is empty.\<close>

definition tfield :: "tvalue \<Rightarrow> string \<Rightarrow> tvalue option" where
  "tfield v k = (case v of TStruct m \<Rightarrow> map_of m k | _ \<Rightarrow> None)"

definition tnumber :: "tvalue option \<Rightarrow> bignum result" where
  "tnumber v = (case v of Some (TScalar b) \<Rightarrow> Inr b | _ \<Rightarrow> Inl (TypeError ''BigInt''))"

definition ttext :: "tvalue option \<Rightarrow> string" where
  "ttext v = (case v of Some (TScalar b) \<Rightarrow> String_of b | _ \<Rightarrow> [])"

definition titems :: "tvalue option \<Rightarrow> tvalue list result" where
  "titems v = (case v of Some (TList xs) \<Rightarrow> Inr xs | _ \<Rightarrow> Inl (TypeError ''map''))"

definition readDomain :: "tvalue \<Rightarrow> OutsideExecution712Domain result" where
  "readDomain d =
     bindR (tnumber (tfield d ''chainId'')) (\<lambda>chain.
     bindR (tnumber (tfield d ''verifyingContract'')) (\<lambda>contract.
     Inr \<lparr>dom_name = ttext (tfield d ''name''), dom_version = ttext (tfield d ''version''),
          dom_chainId = chain, dom_verifyingContract = contract\<rparr>))"

definition readOutsideCall :: "tvalue \<Rightarrow> OutsideExecutionCall result" where
  "readOutsideCall c =
     bindR (tnumber (tfield c ''address'')) (\<lambda>a.
     bindR (tnumber (tfield c ''selector'')) (\<lambda>s.
     bindR (titems (tfield c ''data'')) (\<lambda>xs.
     bindR (mapR (\<lambda>x. tnumber (Some x)) xs) (\<lambda>d. Inr \<lparr>oe_address = a, oe_selector = s, oe_data = d\<rparr>))))"

definition outsideExecutionHash :: "signer_lib \<Rightarrow> TypedData \<Rightarrow> int result" where
  "outsideExecutionHash S typedData =
     (let message = td_message typedData in
      bindR (readDomain (td_domain typedData)) (\<lambda>domain.
      bindR (titems (tfield message ''calls'')) (\<lambda>cs.
      bindR (mapR readOutsideCall cs) (\<lambda>calls.
      bindR (tnumber (tfield message ''caller'')) (\<lambda>caller.
      bindR (tnumber (tfield message ''nonce'')) (\<lambda>nonce.
      bindR (tnumber (tfield message ''execute_after'')) (\<lambda>after.
      bindR (tnumber (tfield message ''execute_before'')) (\<lambda>before.
      computeOutsideExecution712Hash S \<lparr>oei_domain = domain, oei_calls = calls, oei_caller = caller, oei_nonce = nonce,
        oei_executeAfter = after, oei_executeBefore = before\<rparr>))))))))"

definition signParts :: "signer_lib \<Rightarrow> signature_source \<Rightarrow> Eip712SignerOptions \<Rightarrow> ClientCall list \<Rightarrow> EthSignatureParts result" where
  "signParts S source opts calls = (case source of
      HashSource sign \<Rightarrow> bindR (computeCallSet712Hash S (so_accountAddress opts) calls (so_snChainName opts) (so_evmChainId opts) (additional_or_empty opts)) sign
    | TypedDataSource signTypedData \<Rightarrow>
        bindR (callSetTypedData S (so_accountAddress opts) calls (so_snChainName opts) (so_evmChainId opts) (additional_or_empty opts)) (\<lambda>td.
        bindR (signTypedData td) (parseEthSignature S)))"

definition signOutsideExecution :: "signer_lib \<Rightarrow> signature_source \<Rightarrow> TypedData \<Rightarrow> EthSignatureParts result" where
  "signOutsideExecution S source typedData = (case source of
      HashSource sign \<Rightarrow> bindR (outsideExecutionHash S typedData) sign
    | TypedDataSource signTypedData \<Rightarrow> bindR (signTypedData typedData) (parseEthSignature S))"

definition signTransaction712 :: "signer_lib \<Rightarrow> signature_source \<Rightarrow> Eip712SignerOptions \<Rightarrow> ClientCall list \<Rightarrow> string list result" where
  "signTransaction712 S source opts calls =
     bindR (signParts S source opts calls) (\<lambda>parts.
     bindR (toFelt (so_evmChainId opts)) (\<lambda>chain. Inr (toSixFelt parts chain)))"

definition signMessage712 :: "signer_lib \<Rightarrow> signature_source \<Rightarrow> TypedData \<Rightarrow> string list result" where
  "signMessage712 S source typedData =
     (if td_primaryType typedData \<noteq> ''OutsideExecution'' then Inl (InvalidPayload (td_primaryType typedData))
      else bindR (signOutsideExecution S source typedData) (\<lambda>parts.
        bindR (tnumber (tfield (td_domain typedData) ''chainId'')) (\<lambda>c.
        bindR (toFelt c) (\<lambda>chain. Inr (toSixFelt parts chain)))))"

section \<open>SNIP-12\<close>

text \<open>A short string as a felt: its ASCII bytes, big endian.\<close>

definition encodeShortString :: "string \<Rightarrow> int" where
  "encodeShortString s = foldl (\<lambda>acc c. acc * 256 + int (of_char c :: nat)) 0 s"

definition STARKNET_MESSAGE :: int where "STARKNET_MESSAGE = encodeShortString ''StarkNet Message''"
definition SNIP12_DOMAIN_TYPE_HASH :: int where
  "SNIP12_DOMAIN_TYPE_HASH = 0x1ff2f602e42168014d405a94f75e8a93d640751d71d16311266e140d8b0a210"
definition SNIP12_CALL_TYPE_HASH :: int where
  "SNIP12_CALL_TYPE_HASH = 0x3635c7f2a7ba93844c0d064e18e487f35ab90f7c39d00f186a781fc3f0c2ca9"
definition SNIP12_CALL_SET_TYPE_HASH :: int where
  "SNIP12_CALL_SET_TYPE_HASH = 0x308b7462f924efba15fc992e6827eb3a748fcc79f091914156756437fa22909"
definition CALL_SET_DOMAIN_NAME :: int where "CALL_SET_DOMAIN_NAME = encodeShortString ''CallSet''"
definition CALL_SET_DOMAIN_VERSION :: int where "CALL_SET_DOMAIN_VERSION = 1"
definition DOMAIN_REVISION :: int where "DOMAIN_REVISION = 1"

definition snip12_hashCall :: "(int list \<Rightarrow> int) \<Rightarrow> (string \<Rightarrow> string) \<Rightarrow> ClientCall \<Rightarrow> int result" where
  "snip12_hashCall poseidon selectorOf call =
     bindR (toFelt (BNString (cc_contractAddress call))) (\<lambda>to.
     bindR (toFelt (BNString (selectorOf (cc_entrypoint call)))) (\<lambda>selector.
     bindR (mapR toFelt (call_data call)) (\<lambda>data.
     Inr (poseidon [SNIP12_CALL_TYPE_HASH, to, selector, poseidon data]))))"

definition snip12_hashCallSet :: "(int list \<Rightarrow> int) \<Rightarrow> (string \<Rightarrow> string) \<Rightarrow> ClientCall list \<Rightarrow> bignum list \<Rightarrow> int result" where
  "snip12_hashCallSet poseidon selectorOf calls additionalData =
     bindR (mapR (snip12_hashCall poseidon selectorOf) calls) (\<lambda>hs.
     bindR (mapR toFelt additionalData) (\<lambda>add.
     Inr (poseidon [SNIP12_CALL_SET_TYPE_HASH, poseidon hs, poseidon add])))"

definition computeCallSetHash ::
  "(int list \<Rightarrow> int) \<Rightarrow> (string \<Rightarrow> string) \<Rightarrow> bignum \<Rightarrow> ClientCall list \<Rightarrow> bignum \<Rightarrow> bignum list \<Rightarrow> int result"
where
  "computeCallSetHash poseidon selectorOf accountAddress calls chain additionalData =
     bindR (toFelt chain) (\<lambda>c.
     let domainHash = poseidon [SNIP12_DOMAIN_TYPE_HASH, CALL_SET_DOMAIN_NAME, CALL_SET_DOMAIN_VERSION, c, DOMAIN_REVISION] in
     bindR (toFelt accountAddress) (\<lambda>account.
     bindR (snip12_hashCallSet poseidon selectorOf calls additionalData) (\<lambda>h.
     Inr (poseidon [STARKNET_MESSAGE, domainHash, account, h]))))"

record Snip12CallSetSignerOptions =
  s12_accountAddress :: bignum
  s12_chainId :: bignum
  s12_additionalData :: "bignum list option"

definition snip12_signTransaction ::
  "(int list \<Rightarrow> int) \<Rightarrow> (string \<Rightarrow> string) \<Rightarrow> (int \<Rightarrow> string list result) \<Rightarrow> Snip12CallSetSignerOptions \<Rightarrow> ClientCall list \<Rightarrow> string list result"
where
  "snip12_signTransaction poseidon selectorOf sign opts calls =
     bindR (computeCallSetHash poseidon selectorOf (s12_accountAddress opts) calls (s12_chainId opts)
       (case s12_additionalData opts of None \<Rightarrow> [] | Some d \<Rightarrow> d)) sign"

text \<open>\<open>messageHash\<close> is \<open>typedData.getMessageHash\<close> of the message and account.\<close>

definition snip12_signMessage :: "(int \<Rightarrow> string list result) \<Rightarrow> string result \<Rightarrow> string list result" where
  "snip12_signMessage sign messageHash = bindR messageHash (\<lambda>h. bindR (toFelt (BNString h)) sign)"

section \<open>What a SNIP-12 signature binds\<close>

definition call_felts :: "(string \<Rightarrow> string) \<Rightarrow> ClientCall \<Rightarrow> int result \<times> int result \<times> int list result" where
  "call_felts selectorOf call = (toFelt (BNString (cc_contractAddress call)), toFelt (BNString (selectorOf (cc_entrypoint call))), mapR toFelt (call_data call))"

lemma snip12_call_inject:
  "inj poseidon \<Longrightarrow> snip12_hashCall poseidon selectorOf c = Inr h \<Longrightarrow> snip12_hashCall poseidon selectorOf c' = Inr h \<Longrightarrow>
     call_felts selectorOf c = call_felts selectorOf c'"
  by (auto simp: snip12_hashCall_def call_felts_def bindR_eq_Inr inj_eq)

lemma snip12_calls_inject:
  assumes "inj poseidon" "mapR (snip12_hashCall poseidon selectorOf) cs = Inr hs" "mapR (snip12_hashCall poseidon selectorOf) cs' = Inr hs"
  shows "map (call_felts selectorOf) cs = map (call_felts selectorOf) cs'"
proof (rule nth_equalityI)
  have l: "length hs = length cs" "length hs = length cs'" using mapR_length [OF assms(2)] mapR_length [OF assms(3)] by simp_all
  then show "length (map (call_felts selectorOf) cs) = length (map (call_felts selectorOf) cs')" by simp
  fix i assume "i < length (map (call_felts selectorOf) cs)"
  then have i: "i < length cs" "i < length cs'" using l by simp_all
  then have "snip12_hashCall poseidon selectorOf (cs ! i) = Inr (hs ! i)" "snip12_hashCall poseidon selectorOf (cs' ! i) = Inr (hs ! i)"
    using assms(2,3) i by (simp_all add: mapR_eq_Inr list_all2_conv_all_nth)
  then have "call_felts selectorOf (cs ! i) = call_felts selectorOf (cs' ! i)" by (rule snip12_call_inject [OF assms(1)])
  then show "map (call_felts selectorOf) cs ! i = map (call_felts selectorOf) cs' ! i" using i by simp
qed

text \<open>
  A SNIP-12 signature authorises one thing only: if the hash has no collisions, two messages with the
  same hash have the same account, the same chain, the same additional data, and the same calls in the
  same order, each with the same target, selector and calldata.
\<close>

theorem call_set_hash_binds:
  assumes "inj poseidon"
    and "computeCallSetHash poseidon selectorOf account calls chain additional = Inr h"
    and "computeCallSetHash poseidon selectorOf account' calls' chain' additional' = Inr h"
  shows "toFelt account = toFelt account' \<and> toFelt chain = toFelt chain' \<and> mapR toFelt additional = mapR toFelt additional' \<and>
     map (call_felts selectorOf) calls = map (call_felts selectorOf) calls'"
proof -
  note eq = inj_eq [OF assms(1)]
  obtain c a s where m: "toFelt chain = Inr c" "toFelt account = Inr a" "snip12_hashCallSet poseidon selectorOf calls additional = Inr s"
    "h = poseidon [STARKNET_MESSAGE, poseidon [SNIP12_DOMAIN_TYPE_HASH, CALL_SET_DOMAIN_NAME, CALL_SET_DOMAIN_VERSION, c, DOMAIN_REVISION], a, s]"
    using assms(2) by (auto simp: computeCallSetHash_def bindR_eq_Inr Let_def)
  obtain c' a' s' where m': "toFelt chain' = Inr c'" "toFelt account' = Inr a'" "snip12_hashCallSet poseidon selectorOf calls' additional' = Inr s'"
    "h = poseidon [STARKNET_MESSAGE, poseidon [SNIP12_DOMAIN_TYPE_HASH, CALL_SET_DOMAIN_NAME, CALL_SET_DOMAIN_VERSION, c', DOMAIN_REVISION], a', s']"
    using assms(3) by (auto simp: computeCallSetHash_def bindR_eq_Inr Let_def)
  have same: "c = c'" "a = a'" "s = s'" using m(4) m'(4) by (simp_all add: eq)
  obtain hs d where d: "mapR (snip12_hashCall poseidon selectorOf) calls = Inr hs" "mapR toFelt additional = Inr d"
    "s = poseidon [SNIP12_CALL_SET_TYPE_HASH, poseidon hs, poseidon d]"
    using m(3) by (auto simp: snip12_hashCallSet_def bindR_eq_Inr)
  obtain hs' d' where d': "mapR (snip12_hashCall poseidon selectorOf) calls' = Inr hs'" "mapR toFelt additional' = Inr d'"
    "s' = poseidon [SNIP12_CALL_SET_TYPE_HASH, poseidon hs', poseidon d']"
    using m'(3) by (auto simp: snip12_hashCallSet_def bindR_eq_Inr)
  have "hs = hs'" "d = d'" using d(3) d'(3) same(3) by (simp_all add: eq)
  then show ?thesis using m m' same d d' snip12_calls_inject [OF assms(1)] by metis
qed

text \<open>An injective hash: a pairing function over the list.\<close>

definition sample_poseidon :: "int list \<Rightarrow> int" where
  "sample_poseidon xs = int (list_encode (map int_encode xs))"

lemma inj_sample_poseidon: "inj sample_poseidon"
proof (rule injI)
  fix xs ys assume "sample_poseidon xs = sample_poseidon ys"
  then have "map int_encode xs = map int_encode ys" using list_encode_eq by (simp add: sample_poseidon_def)
  then show "xs = ys" using inj_map_eq_map [OF inj_int_encode] by blast
qed

theorem call_set_hash_binds_witness:
  "toFelt (BNString ''0x1'') = toFelt (BNNumber 1) \<and>
   map (call_felts (\<lambda>_. ''0x7'')) [\<lparr>cc_contractAddress = ''0x9'', cc_entrypoint = ''f'', cc_calldata = None\<rparr>] =
     map (call_felts (\<lambda>_. ''0x7'')) [\<lparr>cc_contractAddress = ''9'', cc_entrypoint = ''g'', cc_calldata = Some []\<rparr>]"
proof -
  let ?h = "\<lambda>a calls. computeCallSetHash sample_poseidon (\<lambda>_. ''0x7'') a calls (BNNumber 2) []"
  let ?c = "[\<lparr>cc_contractAddress = ''0x9'', cc_entrypoint = ''f'', cc_calldata = None\<rparr>]"
  let ?d = "[\<lparr>cc_contractAddress = ''9'', cc_entrypoint = ''g'', cc_calldata = Some []\<rparr>]"
  have f: "toFelt (BNString ''0x1'') = Inr 1" "toFelt (BNNumber 1) = Inr 1" "toFelt (BNNumber 2) = Inr 2" "toFelt (BNString ''0x9'') = Inr 9"
    "toFelt (BNString ''9'') = Inr 9" "toFelt (BNString ''0x7'') = Inr 7" by code_simp+
  have "?h (BNString ''0x1'') ?c = ?h (BNNumber 1) ?d"
    by (simp add: computeCallSetHash_def snip12_hashCallSet_def snip12_hashCall_def call_data_def f)
  moreover obtain h where h: "?h (BNString ''0x1'') ?c = Inr h"
    by (simp add: computeCallSetHash_def snip12_hashCallSet_def snip12_hashCall_def call_data_def f Let_def)
  ultimately have h': "?h (BNNumber 1) ?d = Inr h" by (simp only:)
  show ?thesis using call_set_hash_binds [OF inj_sample_poseidon h h'] by blast
qed

end
