(* ===== verification/Client_Builder.thy ===== *)
theory Client_Builder
  imports Client_Signers
begin

text \<open>
  The dapp's side of \<open>client/src\<close>: the wire calls (\<open>calls.ts\<close>), the strk20 actions (\<open>interfaces.ts\<close>), the
  fluent builder (\<open>builder.ts\<close>), the paged shadow-account view (\<open>shadow-accounts.ts\<close>) and \<open>submit\<close>
  (\<open>client.ts\<close>). \<open>num.toBigInt\<close> is \<open>BigInt\<close> and \<open>num.toHex\<close> its \<open>0x\<close>-prefixed base-16 text. The theorems:
  an invoke is handed one placeholder for each open note of the finished transaction; and paging
  the view gives what one scan of the whole range would.
\<close>

section \<open>Calls and actions\<close>

record Strk20WireCall =
  s20_contract_address :: string
  s20_entry_point :: string
  s20_calldata :: "bignum list option"

definition toStrk20Call :: "ClientCall \<Rightarrow> Strk20WireCall" where
  "toStrk20Call c = \<lparr>s20_contract_address = cc_contractAddress c, s20_entry_point = cc_entrypoint c,
     s20_calldata = Some (optl (cc_calldata c))\<rparr>"

definition toStarknetCall :: "Strk20WireCall \<Rightarrow> ClientCall" where
  "toStarknetCall c = \<lparr>cc_contractAddress = s20_contract_address c, cc_entrypoint = s20_entry_point c, cc_calldata = s20_calldata c\<rparr>"

lemma starknet_of_strk20: "toStarknetCall (toStrk20Call c) = c\<lparr>cc_calldata := Some (optl (cc_calldata c))\<rparr>"
  by (simp add: toStarknetCall_def toStrk20Call_def)

datatype Strk20CollectPolicy = PolicyAll | PolicyDiff | PolicyExact string

datatype Strk20Action =
    S20Deposit (s20_token: string) (s20_amount: string)
  | S20Withdraw (s20_token: string) (s20_amount: string) (s20_recipient: string)
  | S20Transfer (s20_token: string) (s20_amount: string) (s20_recipient: string)
  | S20Invoke (s20_contract: string) (s20_items: "bignum list")
  | S20ComputeAndInvoke (s20_contract: string) (s20_compute: "bignum list") (s20_items: "bignum list")
  | S20ShadowAccountInvoke string string "Strk20WireCall list" Strk20CollectPolicy

definition OPEN_AMOUNT :: string where
  "OPEN_AMOUNT = ''OPEN''"

fun is_open :: "Strk20Action \<Rightarrow> bool" where
  "is_open (S20Transfer _ amount _) = (amount = OPEN_AMOUNT)"
| "is_open _ = False"

definition num_toHex :: "bignum \<Rightarrow> string result" where
  "num_toHex v = bindR (BigInt v) (\<lambda>i. Inr (hex_of i))"

section \<open>The builder\<close>

record PrivacyInvokeArgs =
  pa_openNoteIds :: "string list"
  pa_poolAddress :: string

record PrivacyInvokeDetails =
  pd_contractAddress :: bignum
  pd_calldata :: "bignum list option"

record PrivacyComputeInvokeDetails =
  pci_contractAddress :: string
  pci_computeCalldata :: "bignum list"
  pci_invokeCalldata :: "bignum list"

record PrivacyBuilder =
  cb_user :: bignum
  cb_actions :: "Strk20Action list"
  cb_openNoteCount :: nat
  cb_invoked :: bool

definition createPrivacyBuilder :: "bignum \<Rightarrow> PrivacyBuilder" where
  "createPrivacyBuilder user = \<lparr>cb_user = user, cb_actions = [], cb_openNoteCount = 0, cb_invoked = False\<rparr>"

definition cb_append :: "Strk20Action \<Rightarrow> PrivacyBuilder \<Rightarrow> PrivacyBuilder" where
  "cb_append action b = b\<lparr>cb_actions := cb_actions b @ [action]\<rparr>"

definition placeholder :: "nat \<Rightarrow> string" where
  "placeholder index = ''${openNoteIds['' @ int_toString 10 (int index) @ '']}''"

definition POOL_PLACEHOLDER :: string where
  "POOL_PLACEHOLDER = ''${poolAddress}''"

definition invokeArgs :: "PrivacyBuilder \<Rightarrow> PrivacyInvokeArgs" where
  "invokeArgs b = \<lparr>pa_openNoteIds = map placeholder [0..<cb_openNoteCount b], pa_poolAddress = POOL_PLACEHOLDER\<rparr>"

text \<open>A method returns the builder as it leaves it and the error it throws, if any.\<close>

definition cb_appendOpenNote :: "string \<Rightarrow> PrivacyBuilder \<Rightarrow> PrivacyBuilder \<times> error option" where
  "cb_appendOpenNote token b =
     (if cb_invoked b then (b, Some (AssertionError ''create open notes before invoke''))
      else let b1 = b\<lparr>cb_openNoteCount := cb_openNoteCount b + 1\<rparr> in
        case num_toHex (cb_user b) of
          Inl e \<Rightarrow> (b1, Some e)
        | Inr user \<Rightarrow> (cb_append (S20Transfer token OPEN_AMOUNT user) b1, None))"

definition cb_appendInvokePhase :: "Strk20Action \<Rightarrow> PrivacyBuilder \<Rightarrow> PrivacyBuilder \<times> error option" where
  "cb_appendInvokePhase action b = (cb_append action (b\<lparr>cb_invoked := True\<rparr>), None)"

definition cb_invoke :: "(PrivacyInvokeArgs \<Rightarrow> PrivacyInvokeDetails result) \<Rightarrow> PrivacyBuilder \<Rightarrow> PrivacyBuilder \<times> error option" where
  "cb_invoke callBuilder b =
     (let b1 = b\<lparr>cb_invoked := True\<rparr> in
      case callBuilder (invokeArgs b1) of
        Inl e \<Rightarrow> (b1, Some e)
      | Inr details \<Rightarrow> (cb_append (S20Invoke (String_of (pd_contractAddress details)) (optl (pd_calldata details))) b1, None))"

definition cb_invokeWithComputation ::
  "(PrivacyInvokeArgs \<Rightarrow> PrivacyComputeInvokeDetails result) \<Rightarrow> PrivacyBuilder \<Rightarrow> PrivacyBuilder \<times> error option"
where
  "cb_invokeWithComputation callBuilder b =
     (let b1 = b\<lparr>cb_invoked := True\<rparr> in
      case callBuilder (invokeArgs b1) of
        Inl e \<Rightarrow> (b1, Some e)
      | Inr d \<Rightarrow> (cb_append (S20ComputeAndInvoke (pci_contractAddress d) (pci_computeCalldata d) (pci_invokeCalldata d)) b1, None))"

text \<open>\<open>with(token)\<close> and an operation of the token builder; the text of a number comes first and may throw.\<close>

definition with_felt :: "bignum \<Rightarrow> (string \<Rightarrow> PrivacyBuilder \<Rightarrow> PrivacyBuilder \<times> error option) \<Rightarrow> PrivacyBuilder \<Rightarrow> PrivacyBuilder \<times> error option" where
  "with_felt v f b = (case num_toHex v of Inl e \<Rightarrow> (b, Some e) | Inr h \<Rightarrow> f h b)"

definition cb_deposit :: "bignum \<Rightarrow> bignum \<Rightarrow> PrivacyBuilder \<Rightarrow> PrivacyBuilder \<times> error option" where
  "cb_deposit token amount = with_felt token (\<lambda>t. with_felt amount (\<lambda>a b. (cb_append (S20Deposit t a) b, None)))"

definition cb_recipientAction ::
  "(string \<Rightarrow> string \<Rightarrow> string \<Rightarrow> Strk20Action) \<Rightarrow> bignum \<Rightarrow> bignum \<Rightarrow> bignum \<Rightarrow> PrivacyBuilder \<Rightarrow> PrivacyBuilder \<times> error option"
where
  "cb_recipientAction type token amount recipient =
     with_felt token (\<lambda>t. with_felt amount (\<lambda>a. with_felt recipient (\<lambda>r b. (cb_append (type t a r) b, None))))"

definition cb_withdraw :: "bignum \<Rightarrow> bignum \<Rightarrow> bignum \<Rightarrow> PrivacyBuilder \<Rightarrow> PrivacyBuilder \<times> error option" where
  "cb_withdraw = cb_recipientAction S20Withdraw"

definition cb_transfer :: "bignum \<Rightarrow> bignum \<Rightarrow> bignum \<Rightarrow> PrivacyBuilder \<Rightarrow> PrivacyBuilder \<times> error option" where
  "cb_transfer = cb_recipientAction S20Transfer"

definition cb_createOpenNote :: "bignum \<Rightarrow> PrivacyBuilder \<Rightarrow> PrivacyBuilder \<times> error option" where
  "cb_createOpenNote token = with_felt token cb_appendOpenNote"

definition cb_shadowInvoke ::
  "string \<Rightarrow> bignum \<Rightarrow> ClientCall list \<Rightarrow> Strk20CollectPolicy option \<Rightarrow> PrivacyBuilder \<Rightarrow> PrivacyBuilder \<times> error option"
where
  "cb_shadowInvoke dappName nonce calls collectPolicy = with_felt nonce (\<lambda>n.
     cb_appendInvokePhase (S20ShadowAccountInvoke dappName n (map toStrk20Call calls)
       (case collectPolicy of None \<Rightarrow> PolicyAll | Some p \<Rightarrow> p)))"

section \<open>Shadow accounts\<close>

definition MAX_SCAN_RANGE :: int where
  "MAX_SCAN_RANGE = 1024"

definition DEFAULT_ADDRESS_RANGE_END :: int where
  "DEFAULT_ADDRESS_RANGE_END = 100"

record ShadowAccountInfo =
  sa_nonce :: int
  sa_address :: int
  sa_is_deployed :: bool

record AddressRange =
  ar_start :: "int option"
  ar_end :: "int option"
  ar_untilUndeployed :: "bool option"

text \<open>
  The anonymizer's storage: the account stored for a commitment (zero if none), the commitment of a nonce
  and the address the deploy syscall derives.
\<close>

record anonymizer_state =
  an_stored :: "int \<Rightarrow> int"
  an_commitment :: "int \<Rightarrow> int \<Rightarrow> int"
  an_deployAddress :: "int \<Rightarrow> int"

definition account_info :: "anonymizer_state \<Rightarrow> int \<Rightarrow> int \<Rightarrow> ShadowAccountInfo" where
  "account_info A partial nonce =
     (let commitment = an_commitment A partial nonce;
          stored = an_stored A commitment
      in \<lparr>sa_nonce = nonce, sa_address = (if stored \<noteq> 0 then stored else an_deployAddress A commitment), sa_is_deployed = (stored \<noteq> 0)\<rparr>)"

function scan_nonces :: "anonymizer_state \<Rightarrow> int \<Rightarrow> int \<Rightarrow> int \<Rightarrow> bool \<Rightarrow> ShadowAccountInfo list" where
  "scan_nonces A partial nonce end' until =
     (if nonce < end'
      then let info = account_info A partial nonce in
        if until \<and> \<not> sa_is_deployed info then []
        else info # scan_nonces A partial (nonce + 1) end' until
      else [])"
  by auto

termination scan_nonces
  by (relation "measure (\<lambda>(A, p, n, e, u). nat (e - n))") auto

declare scan_nonces.simps [simp del]

text \<open>The view of the contract; a nonce outside \<open>u64\<close> is refused before the call is made.\<close>

definition get_shadow_accounts :: "anonymizer_state \<Rightarrow> int \<Rightarrow> int \<Rightarrow> int \<Rightarrow> bool \<Rightarrow> ShadowAccountInfo list result" where
  "get_shadow_accounts A partial start_nonce end_nonce until_undeployed =
     bindR (assertR (0 \<le> start_nonce \<and> start_nonce < 2 ^ 64 \<and> 0 \<le> end_nonce \<and> end_nonce < 2 ^ 64) (InvalidPayload ''u64'')) (\<lambda>_.
     bindR (assertR (end_nonce \<ge> start_nonce) (AssertionError ''INVALID_RANGE'')) (\<lambda>_.
     bindR (assertR (end_nonce - start_nonce \<le> MAX_SCAN_RANGE) (AssertionError ''RANGE_TOO_LARGE'')) (\<lambda>_.
     Inr (scan_nonces A partial start_nonce end_nonce until_undeployed))))"

type_synonym shadow_view = "int \<Rightarrow> int \<Rightarrow> int \<Rightarrow> bool \<Rightarrow> ShadowAccountInfo list result"

function resolve_windows :: "shadow_view \<Rightarrow> int \<Rightarrow> int \<Rightarrow> int \<Rightarrow> bool \<Rightarrow> ShadowAccountInfo list \<Rightarrow> ShadowAccountInfo list result" where
  "resolve_windows view partial start end' until infos =
     (if start < end'
      then let to = min (start + MAX_SCAN_RANGE) end' in
        case view partial start to until of
          Inl e \<Rightarrow> Inl e
        | Inr window \<Rightarrow>
            if until \<and> int (length window) < to - start then Inr (infos @ window)
            else resolve_windows view partial (start + MAX_SCAN_RANGE) end' until (infos @ window)
      else Inr infos)"
  by auto

termination resolve_windows
  by (relation "measure (\<lambda>(v, p, s, e, u, i). nat (e - s))") (auto simp: MAX_SCAN_RANGE_def)

declare resolve_windows.simps [simp del]

definition range_start :: "AddressRange \<Rightarrow> int" where
  "range_start r = (case ar_start r of Some s \<Rightarrow> s | None \<Rightarrow> 0)"

definition range_end :: "AddressRange \<Rightarrow> int" where
  "range_end r = (case ar_end r of Some e \<Rightarrow> e | None \<Rightarrow> range_start r + DEFAULT_ADDRESS_RANGE_END)"

definition resolveShadowAccounts :: "shadow_view \<Rightarrow> int \<Rightarrow> AddressRange \<Rightarrow> ShadowAccountInfo list result" where
  "resolveShadowAccounts view partial r =
     resolve_windows view partial (range_start r) (range_end r) (ar_untilUndeployed r = Some True) []"

section \<open>Submitting\<close>

text \<open>
  The calls \<open>submit\<close> makes on the injected wallet, in order; \<open>wl_prepare\<close> and the others are its answers.
\<close>

datatype 'p wallet_request =
    InvokeTransaction "Strk20Action list"
  | PrepareInvoke "Strk20Action list" bool
  | ExecuteWithProof "ClientCall list" 'p
  | EstimateInvokeFee "ClientCall list"

datatype 'f submit_outcome = TransactionHash string | FeeEstimate 'f

record ('p, 'f) PrivacyWallet =
  wl_partialCommitment :: "string \<Rightarrow> int result"
  wl_prepare :: "Strk20Action list \<Rightarrow> bool \<Rightarrow> (Strk20WireCall \<times> 'p) result"
  wl_invoke :: "Strk20Action list \<Rightarrow> string result"
  wl_execute :: "ClientCall list \<Rightarrow> 'p \<Rightarrow> string result"
  wl_estimate :: "ClientCall list \<Rightarrow> 'f result"

record SubmitOptions =
  so_preCalls :: "ClientCall list option"
  so_postCalls :: "ClientCall list option"
  so_simulate :: "bool option"

definition no_submit_options :: SubmitOptions where
  "no_submit_options = \<lparr>so_preCalls = None, so_postCalls = None, so_simulate = None\<rparr>"

definition submit ::
  "('p, 'f) PrivacyWallet \<Rightarrow> Strk20Action list \<Rightarrow> SubmitOptions \<Rightarrow> 'p wallet_request list \<times> 'f submit_outcome result"
where
  "submit W actions options =
     (let pre = optl (so_preCalls options); post = optl (so_postCalls options); simulate = (so_simulate options = Some True) in
      if pre = [] \<and> post = [] \<and> \<not> simulate
      then ([InvokeTransaction actions], bindR (wl_invoke W actions) (\<lambda>h. Inr (TransactionHash h)))
      else case wl_prepare W actions simulate of
        Inl e \<Rightarrow> ([PrepareInvoke actions simulate], Inl e)
      | Inr (call, p) \<Rightarrow>
          let calls = pre @ [toStarknetCall call] @ post in
          if simulate
          then ([PrepareInvoke actions simulate, EstimateInvokeFee calls], bindR (wl_estimate W calls) (\<lambda>f. Inr (FeeEstimate f)))
          else ([PrepareInvoke actions simulate, ExecuteWithProof calls p], bindR (wl_execute W calls p) (\<lambda>h. Inr (TransactionHash h))))"

definition cb_submit :: "('p, 'f) PrivacyWallet \<Rightarrow> PrivacyBuilder \<Rightarrow> 'p wallet_request list \<times> 'f submit_outcome result" where
  "cb_submit W b = submit W (cb_actions b) no_submit_options"

definition cb_simulate :: "('p, 'f) PrivacyWallet \<Rightarrow> PrivacyBuilder \<Rightarrow> 'p wallet_request list \<times> 'f submit_outcome result" where
  "cb_simulate W b = submit W (cb_actions b) (no_submit_options\<lparr>so_simulate := Some True\<rparr>)"

definition client_resolveShadowAccounts ::
  "('p, 'f) PrivacyWallet \<Rightarrow> shadow_view \<Rightarrow> string \<Rightarrow> AddressRange \<Rightarrow> ShadowAccountInfo list result"
where
  "client_resolveShadowAccounts W view dappName r =
     bindR (wl_partialCommitment W dappName) (\<lambda>partial. resolveShadowAccounts view partial r)"

section \<open>The placeholders of an invoke\<close>

inductive client_step :: "PrivacyBuilder \<Rightarrow> PrivacyBuilder \<Rightarrow> bool" where
  deposit: "client_step b (fst (cb_deposit token amount b))"
| withdraw: "client_step b (fst (cb_withdraw token amount recipient b))"
| transfer: "client_step b (fst (cb_transfer token amount recipient b))"
| open_note: "client_step b (fst (cb_createOpenNote token b))"
| invoke: "client_step b (fst (cb_invoke f b))"
| compute: "client_step b (fst (cb_invokeWithComputation g b))"
| shadow: "client_step b (fst (cb_shadowInvoke dapp nonce calls policy b))"

lemma hex_not_open [simp]: "hex_of i \<noteq> OPEN_AMOUNT" "OPEN_AMOUNT \<noteq> hex_of i"
  by (simp_all add: hex_of_def OPEN_AMOUNT_def)

lemmas client_defs = cb_deposit_def cb_withdraw_def cb_transfer_def cb_recipientAction_def cb_createOpenNote_def cb_appendOpenNote_def
  cb_invoke_def cb_invokeWithComputation_def cb_shadowInvoke_def cb_appendInvokePhase_def with_felt_def cb_append_def Let_def

definition opens :: "PrivacyBuilder \<Rightarrow> nat" where
  "opens b = length (filter is_open (cb_actions b))"

lemma num_toHex_eq [simp]: "num_toHex v = Inr h \<longleftrightarrow> (\<exists>i. BigInt v = Inr i \<and> h = hex_of i)"
  by (auto simp: num_toHex_def bindR_eq_Inr)

lemma client_step_inv:
  assumes "client_step b b'" "BigInt (cb_user b) = Inr u" "cb_openNoteCount b = opens b"
  shows "cb_user b' = cb_user b \<and> cb_openNoteCount b' = opens b'"
  using assms by (induction rule: client_step.induct) (auto simp: client_defs opens_def split: sum.splits option.splits, auto simp: num_toHex_def)

lemma client_step_invoked:
  assumes "client_step b b'" "cb_invoked b"
  shows "cb_invoked b' \<and> cb_openNoteCount b' = cb_openNoteCount b"
  using assms by (induction rule: client_step.induct) (auto simp: client_defs split: sum.splits option.splits)

lemma client_run_inv:
  assumes "client_step\<^sup>*\<^sup>* b b'" "BigInt (cb_user b) = Inr u" "cb_openNoteCount b = opens b"
  shows "cb_user b' = cb_user b \<and> cb_openNoteCount b' = opens b'"
  using assms by (induction rule: rtranclp_induct) (auto dest: client_step_inv)

lemma client_run_invoked:
  assumes "client_step\<^sup>*\<^sup>* b b'" "cb_invoked b"
  shows "cb_invoked b' \<and> cb_openNoteCount b' = cb_openNoteCount b"
  using assms by (induction rule: rtranclp_induct) (auto dest: client_step_invoked)

lemma invoked_after:
  "b1 = fst (cb_invoke f b) \<or> b1 = fst (cb_invokeWithComputation g b) \<Longrightarrow>
     client_step b b1 \<and> cb_invoked b1 \<and> cb_openNoteCount b1 = cb_openNoteCount b"
  using client_step.invoke [of b f] client_step.compute [of b g]
  by (elim disjE; simp) (auto simp: client_defs split: sum.splits)

lemma placeholders_of_transaction:
  assumes "client_step\<^sup>*\<^sup>* (createPrivacyBuilder user) b" "BigInt user = Inr u"
    "b1 = fst (cb_invoke f b) \<or> b1 = fst (cb_invokeWithComputation g b)" "client_step\<^sup>*\<^sup>* b1 b'"
  shows "pa_openNoteIds (invokeArgs b) = map placeholder [0..<opens b']"
proof -
  have i: "client_step b b1" "cb_invoked b1" "cb_openNoteCount b1 = cb_openNoteCount b" using invoked_after [OF assms(3)] by blast+
  have "client_step\<^sup>*\<^sup>* (createPrivacyBuilder user) b'"
    using assms(1,4) i(1) by (meson rtranclp.rtrancl_into_rtrancl rtranclp_trans)
  then have "cb_openNoteCount b' = opens b'"
    using client_run_inv [of "createPrivacyBuilder user" b' u] assms(2) by (simp add: createPrivacyBuilder_def opens_def)
  with client_run_invoked [OF assms(4) i(2)] i(3) show ?thesis by (simp add: invokeArgs_def)
qed

section \<open>Paging the view\<close>

definition whole_scan :: "anonymizer_state \<Rightarrow> int \<Rightarrow> int \<Rightarrow> int \<Rightarrow> bool \<Rightarrow> ShadowAccountInfo list" where
  "whole_scan A partial start end' until =
     (let infos = map (account_info A partial) [start..end' - 1] in if until then takeWhile sa_is_deployed infos else infos)"

lemma scan_nonces_whole: "scan_nonces A partial n e u = whole_scan A partial n e u"
proof (induction A partial n e u rule: scan_nonces.induct)
  case (1 A partial n e u)
  show ?case
  proof (cases "n < e")
    case True
    then have "[n..e - 1] = n # [n + 1..e - 1]" by (simp add: upto_rec1)
    with 1 True show ?thesis by (subst scan_nonces.simps) (auto simp: whole_scan_def Let_def)
  next
    case False
    then show ?thesis by (subst scan_nonces.simps) (simp add: whole_scan_def)
  qed
qed

lemma whole_scan_split:
  assumes "s \<le> m" "m \<le> e"
  shows "whole_scan A p s e u =
    (if u \<and> int (length (whole_scan A p s m u)) < m - s then whole_scan A p s m u else whole_scan A p s m u @ whole_scan A p m e u)"
proof -
  let ?xs = "map (account_info A p) [s..m - 1]" and ?ys = "map (account_info A p) [m..e - 1]"
  have "[s..e - 1] = [s..m - 1] @ [m..e - 1]"
    using assms upto_split1 [of s m "e - 1"] by (cases "m = e") simp_all
  then have w: "map (account_info A p) [s..e - 1] = ?xs @ ?ys" by simp
  have len: "int (length ?xs) = m - s" using assms by simp
  show ?thesis
  proof (cases "u \<and> \<not> list_all sa_is_deployed ?xs")
    case True
    then obtain x where x: "x \<in> set ?xs" "\<not> sa_is_deployed x" by (auto simp: list_all_iff)
    then have "length (takeWhile sa_is_deployed ?xs) < length ?xs"
      by (metis length_takeWhile_le nat_less_le set_takeWhileD takeWhile_eq_take take_all_iff le_refl)
    with x True len show ?thesis unfolding whole_scan_def w by (simp add: takeWhile_append1 [where P = sa_is_deployed, OF x])
  next
    case False
    then have all: "u \<Longrightarrow> \<forall>x \<in> set ?xs. sa_is_deployed x" by (simp only: list_all_iff simp_thms)
    have "u \<Longrightarrow> takeWhile sa_is_deployed ?xs = ?xs" unfolding takeWhile_eq_all_conv by (rule all)
    moreover have "u \<Longrightarrow> takeWhile sa_is_deployed (?xs @ ?ys) = ?xs @ takeWhile sa_is_deployed ?ys"
      using all by (intro takeWhile_append2) blast
    ultimately show ?thesis unfolding whole_scan_def w using len by (cases u) (simp_all del: takeWhile_eq_all_conv)
  qed
qed

lemma resolve_windows_whole:
  assumes "0 \<le> start" "end' < 2 ^ 64"
  shows "resolve_windows (get_shadow_accounts A) partial start end' u infos = Inr (infos @ whole_scan A partial start end' u)"
  using assms
proof (induction "get_shadow_accounts A" partial start end' u infos rule: resolve_windows.induct)
  case (1 partial start end' u infos)
  show ?case
  proof (cases "start < end'")
    case True
    define to where "to = min (start + MAX_SCAN_RANGE) end'"
    have to: "start \<le> to" "to \<le> end'" "to - start \<le> MAX_SCAN_RANGE" "to < 2 ^ 64" "start < 2 ^ 64"
      using True 1(3) by (auto simp: to_def MAX_SCAN_RANGE_def)
    then have view: "get_shadow_accounts A partial start to u = Inr (whole_scan A partial start to u)"
      using 1(2) by (simp add: get_shadow_accounts_def scan_nonces_whole del: power_numeral)
    have rest: "whole_scan A partial to end' u = whole_scan A partial (start + MAX_SCAN_RANGE) end' u"
      by (cases "start + MAX_SCAN_RANGE \<le> end'") (simp_all add: to_def whole_scan_def)
    have step: "resolve_windows (get_shadow_accounts A) partial start end' u infos =
        (if u \<and> int (length (whole_scan A partial start to u)) < to - start then Inr (infos @ whole_scan A partial start to u)
         else resolve_windows (get_shadow_accounts A) partial (start + MAX_SCAN_RANGE) end' u (infos @ whole_scan A partial start to u))"
      using True by (subst resolve_windows.simps) (simp add: to_def [symmetric] view Let_def)
    show ?thesis
    proof (cases "u \<and> int (length (whole_scan A partial start to u)) < to - start")
      case stop: True
      from step whole_scan_split [OF to(1,2), of A partial u] show ?thesis unfolding if_P [OF stop] by simp
    next
      case go: False
      have "resolve_windows (get_shadow_accounts A) partial (start + MAX_SCAN_RANGE) end' u (infos @ whole_scan A partial start to u) =
          Inr ((infos @ whole_scan A partial start to u) @ whole_scan A partial (start + MAX_SCAN_RANGE) end' u)"
        using 1(1) [OF True to_def view go] 1(2,3) by (simp add: MAX_SCAN_RANGE_def)
      with step whole_scan_split [OF to(1,2), of A partial u] rest show ?thesis unfolding if_not_P [OF go] by simp
    qed
  next
    case False
    then show ?thesis by (subst resolve_windows.simps) (simp add: whole_scan_def)
  qed
qed

text \<open>
  resolving shadow accounts always returns, never asks the contract for more than it allows, and
  gives what one scan of the whole range would: all the nonces of the range in order, or with
  \<open>untilUndeployed\<close> the deployed ones before the first that is not.
\<close>

theorem shadow_paging_exact:
  assumes "0 \<le> range_start r" "range_end r < 2 ^ 64"
  shows "resolveShadowAccounts (get_shadow_accounts A) partial r =
    Inr (let infos = map (account_info A partial) [range_start r..range_end r - 1]
         in if ar_untilUndeployed r = Some True then takeWhile sa_is_deployed infos else infos)"
  using resolve_windows_whole [OF assms] by (simp add: resolveShadowAccounts_def whole_scan_def Let_def)

definition sample_anonymizer :: anonymizer_state where
  "sample_anonymizer = \<lparr>an_stored = (\<lambda>c. if c < 3 then 100 + c else 0), an_commitment = (\<lambda>p n. n), an_deployAddress = (\<lambda>c. 200 + c)\<rparr>"

theorem shadow_paging_exact_witness:
  "bindR (resolveShadowAccounts (get_shadow_accounts sample_anonymizer) 5 \<lparr>ar_start = Some 1, ar_end = Some 6, ar_untilUndeployed = Some True\<rparr>)
     (\<lambda>infos. Inr (map sa_address infos)) = Inr [101, 102]"
proof -
  let ?r = "\<lparr>ar_start = Some 1, ar_end = Some 6, ar_untilUndeployed = Some True\<rparr>"
  have "0 \<le> range_start ?r" "range_end ?r < 2 ^ 64" by (simp_all add: range_start_def range_end_def)
  from shadow_paging_exact [OF this, of sample_anonymizer 5] show ?thesis
    by (simp only: bindR_Inr) code_simp
qed

end
