(* ===== verification/Typed_Data.thy ===== *)
theory Typed_Data
  imports Client_Signers "HOL-Library.List_Lexorder" "HOL-Library.Char_ord"
begin

unbundle bit_operations_syntax

text \<open>
  What a wallet computes from typed data (\<open>eth_signTypedData_v4\<close>), as EIP-712 specifies it, and the
  proof that the two EIP-712 signers of \<open>client/src/signers/eip712-call-set-signer.ts\<close> agree.
\<close>

section \<open>Big-endian bytes\<close>

definition is_bytes :: "nat list \<Rightarrow> bool" where
  "is_bytes bs = list_all (\<lambda>b. b < 256) bs"

definition be_value :: "nat list \<Rightarrow> int" where
  "be_value bs = foldl (\<lambda>x b. x * 256 + int b) 0 bs"

lemma be_value_simps [simp]: "be_value [] = 0" "be_value (bs @ [b]) = be_value bs * 256 + int b"
  by (simp_all add: be_value_def)

lemma shift_or: "b < 256 \<Longrightarrow> push_bit 8 x OR int b = x * 256 + int b"
proof -
  assume "b < 256"
  then have "take_bit 8 (int b) = int b" by (simp add: take_bit_eq_mod)
  then show ?thesis using concat_bit_eq [of 8 "int b" x]
    by (simp add: concat_bit_def push_bit_eq_mult or.commute)
qed

lemma bytesToBigInt_value: "is_bytes bs \<Longrightarrow> bytesToBigInt bs = be_value bs"
  unfolding bytesToBigInt_def be_value_def is_bytes_def
  by (induction bs rule: rev_induct) (simp_all add: shift_or)

lemma low_byte: "x AND 0xff = x mod (256 :: int)" "drop_bit 8 x = x div (256 :: int)"
proof -
  have "x AND mask 8 = take_bit 8 x" by (simp add: take_bit_eq_mask)
  then show "x AND 0xff = x mod (256 :: int)" by (simp add: take_bit_eq_mod mask_eq_exp_minus_1)
qed (simp add: drop_bit_eq_div)

lemma to32_loop_snoc: "to32_loop n x out = to32_loop n x [] @ out"
proof (induction n arbitrary: x out)
  case (Suc n)
  show ?case using Suc [of "drop_bit 8 x" "nat (x AND 0xff) # out"] Suc [of "drop_bit 8 x" "[nat (x AND 0xff)]"] by simp
qed simp

lemma to32_loop_Suc: "to32_loop (Suc n) x [] = to32_loop n (x div 256) [] @ [nat (x mod 256)]"
  using to32_loop_snoc [of n "x div 256" "[nat (x mod 256)]"] by (simp add: low_byte)

declare to32_loop.simps(2) [simp del]

lemma to32_of_value: "length bs = n \<Longrightarrow> is_bytes bs \<Longrightarrow> to32_loop n (be_value bs) [] = bs"
proof (induction n arbitrary: bs)
  case (Suc n)
  then obtain bs' b where b: "bs = bs' @ [b]" "length bs' = n" "is_bytes bs'" "b < 256"
    by (cases bs rule: rev_exhaust) (auto simp: is_bytes_def)
  then show ?case using Suc.IH [OF b(2,3)] by (simp add: to32_loop_Suc)
qed simp

lemma to32_loop_bytes: "length (to32_loop n x []) = n \<and> is_bytes (to32_loop n x [])"
proof (induction n arbitrary: x)
  case (Suc n)
  have "nat (x mod 256) < 256" by (simp add: nat_less_iff)
  then show ?case using Suc [of "x div 256"] by (simp add: to32_loop_Suc is_bytes_def)
qed (simp add: is_bytes_def)

lemma value_of_to32: "be_value (to32_loop n x []) = x mod 256 ^ n"
proof (induction n arbitrary: x)
  case (Suc n)
  have "x mod 256 ^ Suc n = x div 256 mod 256 ^ n * 256 + x mod 256"
    using mod_mult2_eq' [of x 256 "256 ^ n"] by (simp add: mult.commute)
  then show ?case using Suc [of "x div 256"] by (simp add: to32_loop_Suc)
qed simp

lemma to32_length [simp]: "length (to32 v) = 32" and to32_bytes [simp]: "is_bytes (to32 v)"
  using to32_loop_bytes [of 32 v] by (simp_all add: to32_def)

lemma to32_bytesToBigInt: "length bs = 32 \<Longrightarrow> is_bytes bs \<Longrightarrow> to32 (bytesToBigInt bs) = bs"
  by (simp add: to32_def bytesToBigInt_value to32_of_value)

lemma bytesToBigInt_to32: "0 \<le> v \<Longrightarrow> v < 2 ^ 256 \<Longrightarrow> bytesToBigInt (to32 v) = v"
proof -
  assume v: "0 \<le> v" "v < 2 ^ 256"
  have "(256 :: int) ^ 32 = 2 ^ 256" by simp
  then show ?thesis using v bytesToBigInt_value [OF to32_bytes, of v] value_of_to32 [of 32 v] by (simp add: to32_def)
qed

section \<open>EIP-712\<close>

definition is_array :: "string \<Rightarrow> bool" where
  "is_array t = (2 \<le> length t \<and> drop (length t - 2) t = ''[]'')"

definition elem_type :: "string \<Rightarrow> string" where
  "elem_type t = (if is_array t then take (length t - 2) t else t)"

text \<open>
  The struct types a type refers to, each once: a work list with as much fuel as there are fields to
  look at.
\<close>

fun struct_types :: "nat \<Rightarrow> type_decls \<Rightarrow> string list \<Rightarrow> string list \<Rightarrow> string list" where
  "struct_types 0 T seen todo = seen"
| "struct_types (Suc n) T seen [] = seen"
| "struct_types (Suc n) T seen (t # todo) =
     (case map_of T (elem_type t) of
        None \<Rightarrow> struct_types n T seen todo
      | Some fs \<Rightarrow>
          if elem_type t \<in> set seen then struct_types n T seen todo
          else struct_types n T (seen @ [elem_type t]) (map snd fs @ todo))"

fun commas :: "string list \<Rightarrow> string" where
  "commas [] = []"
| "commas [x] = x"
| "commas (x # xs) = x @ '','' @ commas xs"

definition struct_decl :: "type_decls \<Rightarrow> string \<Rightarrow> string" where
  "struct_decl T t = t @ ''('' @ commas (map (\<lambda>(n, ty). ty @ '' '' @ n) (case map_of T t of None \<Rightarrow> [] | Some fs \<Rightarrow> fs)) @ '')''"

definition encodeType :: "type_decls \<Rightarrow> string \<Rightarrow> string" where
  "encodeType T t =
     (let fuel = 2 + length (concat (map snd T)) in
      concat (map (struct_decl T) (t # sort (remove1 t (struct_types fuel T [] [t])))))"

text \<open>
  \<open>encodeValue S T v t\<close> is the 32-byte encoding of a value at a type, \<open>None\<close> where the wallet refuses it.
  Numbers must fit into their type. A struct is its hash, an array the hash of its encoded elements.
\<close>

definition number_limit :: "string \<Rightarrow> int option" where
  "number_limit t = (if t = ''uint256'' then Some (2 ^ 256) else if t = ''address'' then Some (2 ^ 160) else None)"

definition be32 :: "int \<Rightarrow> nat list" where
  "be32 n = map (\<lambda>i. nat (n div 256 ^ (31 - i) mod 256)) [0..<32]"

definition encodeScalar :: "signer_lib \<Rightarrow> bignum \<Rightarrow> string \<Rightarrow> nat list option" where
  "encodeScalar S b t =
     (if t = ''string'' then Some (keccak_256 S (textEncode S (String_of b)))
      else case (number_limit t, BigInt b) of
        (Some limit, Inr n) \<Rightarrow> if 0 \<le> n \<and> n < limit then Some (be32 n) else None
      | _ \<Rightarrow> None)"

fun encodeValue :: "signer_lib \<Rightarrow> type_decls \<Rightarrow> tvalue \<Rightarrow> string \<Rightarrow> nat list option" where
  "encodeValue S T (TScalar b) t = encodeScalar S b t"
| "encodeValue S T (TList vs) t =
     (if is_array t then map_option (\<lambda>es. keccak_256 S (concat es)) (those (map (\<lambda>v. encodeValue S T v (elem_type t)) vs)) else None)"
| "encodeValue S T (TStruct m) t =
     (case map_of T t of
        None \<Rightarrow> None
      | Some fs \<Rightarrow>
          let encoders = map (\<lambda>e. (fst e, encodeValue S T (snd e))) m in
          map_option (\<lambda>es. keccak_256 S (keccak_256 S (textEncode S (encodeType T t)) @ concat es))
            (those (map (\<lambda>(n, ty). Option.bind (map_of encoders n) (\<lambda>enc. enc ty)) fs)))"

text \<open>The digest that is signed.\<close>

definition typedDataDigest :: "signer_lib \<Rightarrow> TypedData \<Rightarrow> nat list option" where
  "typedDataDigest S td =
     Option.bind (encodeValue S (td_types td) (td_domain td) ''EIP712Domain'') (\<lambda>d.
     Option.bind (encodeValue S (td_types td) (td_message td) (td_primaryType td)) (\<lambda>m.
     Some (keccak_256 S ([0x19, 0x01] @ d @ m))))"

section \<open>The code's hashes are the digests\<close>

lemma to32_loop_digits: "to32_loop n x [] = map (\<lambda>i. nat (x div 256 ^ (n - 1 - i) mod 256)) [0..<n]"
proof (induction n arbitrary: x)
  case (Suc n)
  have "x div 256 div 256 ^ (n - 1 - i) = x div 256 ^ (n - i)" if "i < n" for i
  proof -
    have "n - i = Suc (n - 1 - i)" using that by simp
    then show ?thesis by (simp only: power_Suc zdiv_zmult2_eq [of "256 ^ _"]) (simp add: zdiv_zmult2_eq mult.commute)
  qed
  then show ?case by (simp add: to32_loop_Suc Suc)
qed simp

lemma be32_to32: "be32 n = to32 n"
  by (simp add: be32_def to32_def to32_loop_digits)

text \<open>Keccak-256 yields 32 bytes.\<close>

definition keccak_ok :: "signer_lib \<Rightarrow> bool" where
  "keccak_ok S \<longleftrightarrow> (\<forall>b. length (keccak_256 S b) = 32 \<and> is_bytes (keccak_256 S b))"

lemma to32_keccak: "keccak_ok S \<Longrightarrow> to32 (keccak S b) = keccak_256 S b"
  by (simp add: keccak_def keccak_ok_def to32_bytesToBigInt)

lemma those_map: "(\<And>x. x \<in> set xs \<Longrightarrow> f x = Some (g x)) \<Longrightarrow> those (map f xs) = Some (map g xs)"
  by (induction xs) simp_all

lemma encodeTypes:
  "encodeType CALL_SET_EIP712_TYPES ''EIP712Domain'' = ''EIP712Domain(string name,string version,uint256 chainId,address verifyingContract)''"
  "encodeType CALL_SET_EIP712_TYPES ''Call'' = ''Call(uint256 address,uint256 selector,uint256[] data)''"
  "encodeType CALL_SET_EIP712_TYPES ''CallSet'' = ''CallSet(Call[] calls,uint256[] additional_data)Call(uint256 address,uint256 selector,uint256[] data)''"
  "encodeType OUTSIDE_EXECUTION_EIP712_TYPES ''EIP712Domain'' = ''EIP712Domain(string name,string version,uint256 chainId,address verifyingContract)''"
  "encodeType OUTSIDE_EXECUTION_EIP712_TYPES ''Call'' = ''Call(uint256 address,uint256 selector,uint256[] data)''"
  "encodeType OUTSIDE_EXECUTION_EIP712_TYPES ''OutsideExecution'' =
     ''OutsideExecution(Call[] calls,uint256 caller,uint256 nonce,uint256 execute_after,uint256 execute_before)Call(uint256 address,uint256 selector,uint256[] data)''"
  by code_simp+

lemma array_types:
  "is_array ''uint256[]''" "elem_type ''uint256[]'' = ''uint256''" "is_array ''Call[]''" "elem_type ''Call[]'' = ''Call''"
  by code_simp+

definition in_range :: "int \<Rightarrow> bool" where
  "in_range n \<longleftrightarrow> 0 \<le> n \<and> n < 2 ^ 256"

lemma encode_number: "in_range n \<Longrightarrow> encodeValue S T (TScalar (BNString (hex_of n))) ''uint256'' = Some (to32 n)"
  by (simp add: in_range_def encodeScalar_def number_limit_def be32_to32 StringToBigInt_hex_of)

lemma encode_numbers:
  "\<forall>n \<in> set ns. in_range n \<Longrightarrow>
     encodeValue S T (TList (map (\<lambda>n. TScalar (BNString (hex_of n))) ns)) ''uint256[]'' = Some (keccak_256 S (concat (map to32 ns)))"
  using those_map [of ns "\<lambda>n. encodeValue S T (TScalar (BNString (hex_of n))) ''uint256''" to32]
  by (simp add: array_types encode_number comp_def del: encodeValue.simps(1))

lemma encode_text: "encodeValue S T (TScalar (BNString s)) ''string'' = Some (keccak_256 S (textEncode S s))"
  by (simp add: encodeScalar_def)

lemma encode_address: "0 \<le> n \<Longrightarrow> n < 2 ^ 160 \<Longrightarrow> encodeValue S T (TScalar (BNString (hex_of n))) ''address'' = Some (to32 n)"
  by (simp add: encodeScalar_def number_limit_def be32_to32 StringToBigInt_hex_of)

lemma masked: "0 \<le> n AND MASK_128" "n AND MASK_128 < 2 ^ 160"
proof -
  have "n AND MASK_128 = take_bit 128 n" by (simp add: MASK_128_def take_bit_eq_mask mask_eq_exp_minus_1)
  moreover have "take_bit 128 n < 2 ^ 128" "0 \<le> take_bit 128 n" by (simp_all add: take_bit_eq_mod)
  ultimately show "0 \<le> n AND MASK_128" "n AND MASK_128 < 2 ^ 160" by simp_all
qed

lemma encode_domain:
  assumes "keccak_ok S" "map_of T ''EIP712Domain'' = Some EIP712_DOMAIN_FIELDS" "in_range chain"
    and "encodeType T ''EIP712Domain'' = ''EIP712Domain(string name,string version,uint256 chainId,address verifyingContract)''"
  shows "encodeValue S T (TStruct [(''name'', TScalar (BNString name)), (''version'', TScalar (BNString version)),
      (''chainId'', TScalar (BNString (hex_of chain))), (''verifyingContract'', TScalar (BNString (hex_of (account AND MASK_128))))]) ''EIP712Domain''
    = Some (to32 (eip712DomainSeparator S name version chain (account AND MASK_128)))"
  using assms encode_address [OF masked]
  by (simp add: EIP712_DOMAIN_FIELDS_def encode_text encode_number eip712DomainSeparator_def keccakFelts_def
      EIP712_DOMAIN_TYPE_HASH_def keccakType_def to32_keccak del: encodeValue.simps(1))

definition call_value :: "int \<Rightarrow> int \<Rightarrow> int list \<Rightarrow> tvalue" where
  "call_value a sel d = TStruct [(''address'', TScalar (BNString (hex_of a))), (''selector'', TScalar (BNString (hex_of sel))),
     (''data'', TList (map (\<lambda>n. TScalar (BNString (hex_of n))) d))]"

lemma encode_call:
  assumes "keccak_ok S" "map_of T ''Call'' = Some CALL_FIELDS" "encodeType T ''Call'' = ''Call(uint256 address,uint256 selector,uint256[] data)''"
    and "\<forall>n \<in> set (a # sel # d). in_range n"
  shows "encodeValue S T (call_value a sel d) ''Call'' = Some (to32 (hashCallStruct S a sel d))"
  using assms
  by (simp add: call_value_def CALL_FIELDS_def encode_number encode_numbers hashCallStruct_def keccakFelts_def CALL_TYPE_HASH_def
      keccakType_def to32_keccak del: encodeValue.simps(1,2))

lemma encode_calls:
  assumes "keccak_ok S" "map_of T ''Call'' = Some CALL_FIELDS" "encodeType T ''Call'' = ''Call(uint256 address,uint256 selector,uint256[] data)''"
    and "\<forall>(a, sel, d) \<in> set cs. \<forall>n \<in> set (a # sel # d). in_range n"
  shows "encodeValue S T (TList (map (\<lambda>(a, sel, d). call_value a sel d) cs)) ''Call[]''
    = Some (keccak_256 S (concat (map (\<lambda>(a, sel, d). to32 (hashCallStruct S a sel d)) cs)))"
proof -
  have "those (map (\<lambda>c. encodeValue S T (case c of (a, sel, d) \<Rightarrow> call_value a sel d) ''Call'') cs)
    = Some (map (\<lambda>(a, sel, d). to32 (hashCallStruct S a sel d)) cs)"
    by (rule those_map) (use assms(4) encode_call [OF assms(1-3)] in fastforce)
  then show ?thesis by (simp add: array_types comp_def del: encodeValue.simps(1,3))
qed

section \<open>The digest of a call set and of an outside execution\<close>

definition felt_ok :: "bignum \<Rightarrow> bool" where
  "felt_ok v = (case toFelt v of Inr n \<Rightarrow> in_range n | Inl _ \<Rightarrow> False)"

definition felt_val :: "bignum \<Rightarrow> int" where
  "felt_val v = (case toFelt v of Inr n \<Rightarrow> n | Inl _ \<Rightarrow> 0)"

lemma felt_okD: "felt_ok v \<Longrightarrow> toFelt v = Inr (felt_val v) \<and> in_range (felt_val v) \<and> hexFelt v = Inr (TScalar (BNString (hex_of (felt_val v))))"
  by (auto simp: felt_ok_def felt_val_def hexFelt_def bindR_def split: sum.splits)

lemma felt_oks:
  "list_all felt_ok vs \<Longrightarrow> mapR toFelt vs = Inr (map felt_val vs)"
  "list_all felt_ok vs \<Longrightarrow> mapR hexFelt vs = Inr (map (\<lambda>n. TScalar (BNString (hex_of n))) (map felt_val vs))"
  "list_all felt_ok vs \<Longrightarrow> \<forall>n \<in> set (map felt_val vs). in_range n"
  using felt_okD mapR_total [of vs toFelt felt_val] mapR_total [of vs hexFelt "\<lambda>v. TScalar (BNString (hex_of (felt_val v)))"]
  by (fastforce simp: list_all_iff comp_def)+

lemma callValue_ok:
  "felt_ok a \<Longrightarrow> felt_ok sel \<Longrightarrow> list_all felt_ok d \<Longrightarrow> callValue a sel d = Inr (call_value (felt_val a) (felt_val sel) (map felt_val d))"
  by (simp add: callValue_def call_value_def felt_okD felt_oks)

definition call_parts :: "signer_lib \<Rightarrow> ClientCall \<Rightarrow> bignum \<times> bignum \<times> bignum list" where
  "call_parts S c = (BNString (cc_contractAddress c), BNString (getSelectorFromName S (cc_entrypoint c)), call_data c)"

definition parts_ok :: "bignum \<times> bignum \<times> bignum list \<Rightarrow> bool" where
  "parts_ok p \<longleftrightarrow> felt_ok (fst p) \<and> felt_ok (fst (snd p)) \<and> list_all felt_ok (snd (snd p))"

definition parts_val :: "bignum \<times> bignum \<times> bignum list \<Rightarrow> int \<times> int \<times> int list" where
  "parts_val p = (felt_val (fst p), felt_val (fst (snd p)), map felt_val (snd (snd p)))"

lemma parts_value: "parts_ok p \<Longrightarrow> callValue (fst p) (fst (snd p)) (snd (snd p)) = Inr (case parts_val p of (a, sel, d) \<Rightarrow> call_value a sel d)"
  by (simp add: parts_ok_def parts_val_def callValue_ok)

lemma parts_range: "parts_ok p \<Longrightarrow> case parts_val p of (a, sel, d) \<Rightarrow> \<forall>n \<in> set (a # sel # d). in_range n"
  using felt_okD felt_oks(3) [of "snd (snd p)"] by (auto simp: parts_ok_def parts_val_def)

lemma parts_values:
  assumes "list_all parts_ok ps"
  shows "mapR (\<lambda>p. callValue (fst p) (fst (snd p)) (snd (snd p))) ps = Inr (map (\<lambda>(a, sel, d). call_value a sel d) (map parts_val ps))"
    and "\<forall>(a, sel, d) \<in> set (map parts_val ps). \<forall>n \<in> set (a # sel # d). in_range n"
proof -
  show "mapR (\<lambda>p. callValue (fst p) (fst (snd p)) (snd (snd p))) ps = Inr (map (\<lambda>(a, sel, d). call_value a sel d) (map parts_val ps))"
    using assms by (induction ps) (simp_all add: parts_value)
  show "\<forall>(a, sel, d) \<in> set (map parts_val ps). \<forall>n \<in> set (a # sel # d). in_range n"
    using assms parts_range by (auto simp: list_all_iff)
qed

lemma mapR_map: "mapR f (map g xs) = mapR (\<lambda>x. f (g x)) xs"
  by (induction xs) simp_all

lemma hashed_parts:
  assumes "\<And>x. x \<in> set xs \<Longrightarrow> hashOne x = Inr (case parts_val (g x) of (a, sel, d) \<Rightarrow> hashCallStruct S a sel d)"
  shows "hashArray S hashOne xs = Inr (keccak S (concat (map (\<lambda>(a, sel, d). to32 (hashCallStruct S a sel d)) (map parts_val (map g xs)))))"
proof -
  have "mapR hashOne xs = Inr (map (\<lambda>x. case parts_val (g x) of (a, sel, d) \<Rightarrow> hashCallStruct S a sel d) xs)"
    by (rule mapR_total) (rule assms)
  then show ?thesis by (simp add: hashArray_def comp_def split_def)
qed

lemma hashCall_parts: "parts_ok (call_parts S c) \<Longrightarrow> hashCall S c = Inr (case parts_val (call_parts S c) of (a, sel, d) \<Rightarrow> hashCallStruct S a sel d)"
  by (simp add: hashCall_def call_parts_def parts_ok_def parts_val_def felt_okD felt_oks)

definition domain_value :: "string \<Rightarrow> int \<Rightarrow> int \<Rightarrow> tvalue" where
  "domain_value name chain account = TStruct [(''name'', TScalar (BNString name)), (''version'', TScalar (BNString DOMAIN_VERSION)),
     (''chainId'', TScalar (BNString (hex_of chain))), (''verifyingContract'', TScalar (BNString (hex_of (account AND MASK_128))))]"

lemma domainValue_ok: "felt_ok chain \<Longrightarrow> felt_ok account \<Longrightarrow> domainValue name chain account = Inr (domain_value name (felt_val chain) (felt_val account))"
  by (simp add: domainValue_def domain_value_def felt_okD)

lemma declared_types:
  "map_of CALL_SET_EIP712_TYPES ''EIP712Domain'' = Some EIP712_DOMAIN_FIELDS" "map_of CALL_SET_EIP712_TYPES ''Call'' = Some CALL_FIELDS"
  "map_of CALL_SET_EIP712_TYPES ''CallSet'' = Some [(''calls'', ''Call[]''), (''additional_data'', ''uint256[]'')]"
  "map_of OUTSIDE_EXECUTION_EIP712_TYPES ''EIP712Domain'' = Some EIP712_DOMAIN_FIELDS" "map_of OUTSIDE_EXECUTION_EIP712_TYPES ''Call'' = Some CALL_FIELDS"
  "map_of OUTSIDE_EXECUTION_EIP712_TYPES ''OutsideExecution'' = Some [(''calls'', ''Call[]''), (''caller'', ''uint256''), (''nonce'', ''uint256''),
     (''execute_after'', ''uint256''), (''execute_before'', ''uint256'')]"
  by (simp_all add: CALL_SET_EIP712_TYPES_def OUTSIDE_EXECUTION_EIP712_TYPES_def)

lemma digest_wrap:
  assumes "keccak_ok S" "encodeValue S (td_types td) (td_domain td) ''EIP712Domain'' = Some (to32 ds)"
    and "encodeValue S (td_types td) (td_message td) (td_primaryType td) = Some (to32 sh)"
  shows "map_option bytesToBigInt (typedDataDigest S td) = Some (wrapEip712 S ds sh)"
  using assms by (simp add: typedDataDigest_def wrapEip712_def keccak_def)

lemma call_set_digest:
  assumes "keccak_ok S" "felt_ok account" "felt_ok chain" "list_all felt_ok additional" "list_all (\<lambda>c. parts_ok (call_parts S c)) calls"
  shows "\<exists>td h. callSetTypedData S account calls name chain additional = Inr td \<and>
     computeCallSet712Hash S account calls name chain additional = Inr h \<and> map_option bytesToBigInt (typedDataDigest S td) = Some h"
proof -
  let ?ps = "map (call_parts S) calls"
  have ok: "list_all parts_ok ?ps" using assms(5) by (simp add: list_all_iff)
  have vals: "mapR (\<lambda>call. callValue (BNString (cc_contractAddress call)) (BNString (getSelectorFromName S (cc_entrypoint call))) (call_data call)) calls
    = Inr (map (\<lambda>(a, sel, d). call_value a sel d) (map parts_val ?ps))"
    using parts_values(1) [OF ok] by (simp add: mapR_map call_parts_def)
  let ?td = "\<lparr>td_types = CALL_SET_EIP712_TYPES, td_primaryType = ''CallSet'', td_domain = domain_value name (felt_val chain) (felt_val account),
    td_message = TStruct [(''calls'', TList (map (\<lambda>(a, sel, d). call_value a sel d) (map parts_val ?ps))),
      (''additional_data'', TList (map (\<lambda>n. TScalar (BNString (hex_of n))) (map felt_val additional)))]\<rparr>"
  have td: "callSetTypedData S account calls name chain additional = Inr ?td"
    using vals felt_oks(2) [OF assms(4)] by (simp add: callSetTypedData_def domainValue_ok assms(2,3))
  let ?h = "keccak S (concat (map (\<lambda>(a, sel, d). to32 (hashCallStruct S a sel d)) (map parts_val ?ps)))"
  let ?sh = "keccakFelts S [CALL_SET_TYPE_HASH S, ?h, hashFeltArray S (map felt_val additional)]"
  let ?ds = "eip712DomainSeparator S name DOMAIN_VERSION (felt_val chain) (felt_val account AND MASK_128)"
  have "hashCallArray S calls = Inr ?h" unfolding hashCallArray_def
    by (rule hashed_parts) (use assms(5) hashCall_parts in \<open>auto simp: list_all_iff\<close>)
  then have hash: "computeCallSet712Hash S account calls name chain additional = Inr (wrapEip712 S ?ds ?sh)"
    by (simp add: computeCallSet712Hash_def hashCallSet_def felt_okD assms(2,3) felt_oks(1) [OF assms(4)] Let_def)
  have "encodeValue S CALL_SET_EIP712_TYPES (domain_value name (felt_val chain) (felt_val account)) ''EIP712Domain'' = Some (to32 ?ds)"
    unfolding domain_value_def by (rule encode_domain [OF assms(1) declared_types(1) _ encodeTypes(1)]) (use assms(3) felt_okD in blast)
  moreover have "encodeValue S CALL_SET_EIP712_TYPES (td_message ?td) ''CallSet'' = Some (to32 ?sh)"
    using encode_calls [OF assms(1) declared_types(2) encodeTypes(2) parts_values(2) [OF ok]] encode_numbers [OF felt_oks(3) [OF assms(4)], of S CALL_SET_EIP712_TYPES]
    by (simp add: declared_types encodeTypes keccakFelts_def hashFeltArray_def CALL_SET_TYPE_HASH_def keccakType_def to32_keccak assms(1)
        del: encodeValue.simps(1,2))
  ultimately have "map_option bytesToBigInt (typedDataDigest S ?td) = Some (wrapEip712 S ?ds ?sh)"
    by (intro digest_wrap [OF assms(1)]) simp_all
  with td hash show ?thesis by blast
qed

lemma toFelt_hex: "in_range n \<Longrightarrow> toFelt (BNString (hex_of n)) = Inr n"
  by (simp add: toFelt_def in_range_def StringToBigInt_hex_of)

lemma toFelts_hex: "\<forall>n \<in> set ns. in_range n \<Longrightarrow> mapR toFelt (map (\<lambda>n. BNString (hex_of n)) ns) = Inr ns"
  using toFelt_hex by (induction ns) auto

definition hex_call :: "int \<times> int \<times> int list \<Rightarrow> OutsideExecutionCall" where
  "hex_call c = (case c of (a, sel, d) \<Rightarrow>
     \<lparr>oe_address = BNString (hex_of a), oe_selector = BNString (hex_of sel), oe_data = map (\<lambda>n. BNString (hex_of n)) d\<rparr>)"

lemma read_call: "readOutsideCall (call_value a sel d) = Inr (hex_call (a, sel, d))"
proof -
  have "mapR (\<lambda>x. tnumber (Some x)) (map (\<lambda>n. TScalar (BNString (hex_of n))) d) = Inr (map (\<lambda>n. BNString (hex_of n)) d)"
    by (induction d) (simp_all add: tnumber_def)
  then show ?thesis by (simp add: readOutsideCall_def call_value_def hex_call_def tfield_def titems_def) (simp add: tnumber_def)
qed

lemma read_calls: "mapR readOutsideCall (map (\<lambda>(a, sel, d). call_value a sel d) cs) = Inr (map hex_call cs)"
  by (induction cs) (auto simp: read_call)

lemma hash_hex_calls:
  assumes "\<forall>(a, sel, d) \<in> set cs. \<forall>n \<in> set (a # sel # d). in_range n"
  shows "hashArray S (hashOutsideCall S) (map hex_call cs) = Inr (keccak S (concat (map (\<lambda>(a, sel, d). to32 (hashCallStruct S a sel d)) cs)))"
proof -
  have "mapR (hashOutsideCall S) (map hex_call cs) = Inr (map (\<lambda>(a, sel, d). hashCallStruct S a sel d) cs)"
    unfolding mapR_map by (rule mapR_total) (use assms in \<open>auto simp: hashOutsideCall_def hex_call_def toFelt_hex toFelts_hex\<close>)
  then show ?thesis by (simp add: hashArray_def comp_def split_def)
qed

definition oe_parts :: "OutsideExecutionCall \<Rightarrow> bignum \<times> bignum \<times> bignum list" where
  "oe_parts c = (oe_address c, oe_selector c, oe_data c)"

definition input_ok :: "OutsideExecutionInput \<Rightarrow> bool" where
  "input_ok i \<longleftrightarrow> list_all felt_ok [oin_accountAddress i, oin_evmChainId i, oin_caller i, oin_nonce i, oin_executeAfter i, oin_executeBefore i] \<and>
     list_all (\<lambda>c. parts_ok (oe_parts c)) (oin_calls i)"

lemma masked_range: "in_range (n AND MASK_128)"
  using masked [of n] by (simp add: in_range_def)

lemma read_domain: "readDomain (domain_value name chain account) =
    Inr \<lparr>dom_name = name, dom_version = DOMAIN_VERSION, dom_chainId = BNString (hex_of chain), dom_verifyingContract = BNString (hex_of (account AND MASK_128))\<rparr>"
  by (simp add: readDomain_def domain_value_def tfield_def tnumber_def ttext_def)

lemma outside_digest:
  assumes "keccak_ok S" "input_ok i"
  shows "\<exists>td h. outsideExecutionTypedData i = Inr td \<and> outsideExecutionHash S td = Inr h \<and> td_primaryType td = ''OutsideExecution'' \<and>
     map_option bytesToBigInt (typedDataDigest S td) = Some h"
proof -
  let ?cs = "map parts_val (map oe_parts (oin_calls i))"
  let ?hex = "\<lambda>v. TScalar (BNString (hex_of (felt_val v)))"
  have ok: "list_all parts_ok (map oe_parts (oin_calls i))" using assms(2) by (simp add: input_ok_def list_all_iff)
  have f: "felt_ok (oin_accountAddress i)" "felt_ok (oin_evmChainId i)" "felt_ok (oin_caller i)" "felt_ok (oin_nonce i)"
    "felt_ok (oin_executeAfter i)" "felt_ok (oin_executeBefore i)" using assms(2) by (simp_all add: input_ok_def)
  have vals: "mapR (\<lambda>call. callValue (oe_address call) (oe_selector call) (oe_data call)) (oin_calls i) = Inr (map (\<lambda>(a, sel, d). call_value a sel d) ?cs)"
    using parts_values(1) [OF ok] by (simp add: mapR_map oe_parts_def)
  let ?td = "\<lparr>td_types = OUTSIDE_EXECUTION_EIP712_TYPES, td_primaryType = ''OutsideExecution'',
    td_domain = domain_value (oin_snChainName i) (felt_val (oin_evmChainId i)) (felt_val (oin_accountAddress i)),
    td_message = TStruct [(''calls'', TList (map (\<lambda>(a, sel, d). call_value a sel d) ?cs)), (''caller'', ?hex (oin_caller i)), (''nonce'', ?hex (oin_nonce i)),
      (''execute_after'', ?hex (oin_executeAfter i)), (''execute_before'', ?hex (oin_executeBefore i))]\<rparr>"
  have td: "outsideExecutionTypedData i = Inr ?td"
    using vals by (simp add: outsideExecutionTypedData_def domainValue_ok f felt_okD)
  let ?h = "keccak S (concat (map (\<lambda>(a, sel, d). to32 (hashCallStruct S a sel d)) ?cs))"
  let ?sh = "keccakFelts S [OUTSIDE_EXECUTION_TYPE_HASH S, ?h, felt_val (oin_caller i), felt_val (oin_nonce i), felt_val (oin_executeAfter i), felt_val (oin_executeBefore i)]"
  let ?ds = "eip712DomainSeparator S (oin_snChainName i) DOMAIN_VERSION (felt_val (oin_evmChainId i)) (felt_val (oin_accountAddress i) AND MASK_128)"
  have r: "toFelt (BNString (hex_of (felt_val v))) = Inr (felt_val v)" if "felt_ok v" for v using felt_okD [OF that] toFelt_hex by simp
  have "outsideExecutionHash S ?td = Inr (wrapEip712 S ?ds ?sh)"
    using hash_hex_calls [OF parts_values(2) [OF ok], of S]
    by (simp add: outsideExecutionHash_def read_domain read_calls tfield_def titems_def tnumber_def computeOutsideExecution712Hash_def
        r f toFelt_hex [OF masked_range] Let_def del: map_map)
  moreover have "encodeValue S OUTSIDE_EXECUTION_EIP712_TYPES (td_domain ?td) ''EIP712Domain'' = Some (to32 ?ds)"
    unfolding domain_value_def using encode_domain [OF assms(1) declared_types(4) _ encodeTypes(4)] f(2) felt_okD by simp
  moreover have "encodeValue S OUTSIDE_EXECUTION_EIP712_TYPES (td_message ?td) ''OutsideExecution'' = Some (to32 ?sh)"
  proof -
    have n: "encodeValue S OUTSIDE_EXECUTION_EIP712_TYPES (?hex v) ''uint256'' = Some (to32 (felt_val v))" if "felt_ok v" for v
      using felt_okD [OF that] by (intro encode_number) blast
    show ?thesis
      using encode_calls [OF assms(1) declared_types(5) encodeTypes(5) parts_values(2) [OF ok]]
      by (simp add: declared_types encodeTypes n f keccakFelts_def OUTSIDE_EXECUTION_TYPE_HASH_def keccakType_def to32_keccak assms(1)
          del: encodeValue.simps(1,2))
  qed
  ultimately show ?thesis using td digest_wrap [OF assms(1), of ?td ?ds ?sh] by (intro exI conjI) (simp_all add: td)
qed

section \<open>The two signers agree\<close>

definition parts_wf :: "EthSignatureParts \<Rightarrow> bool" where
  "parts_wf p \<longleftrightarrow> in_range (es_r p) \<and> in_range (es_s p) \<and> es_v p \<in> {27, 28}"

text \<open>A hexadecimal spelling of \<open>r\<close>, \<open>s\<close> and the recovery byte, the latter counted from 0 or from 27.\<close>

definition spells :: "signer_lib \<Rightarrow> string \<Rightarrow> EthSignatureParts \<Rightarrow> bool" where
  "spells S hex p \<longleftrightarrow> (\<exists>v \<in> {es_v p, es_v p - 27}.
     hexToBytes S (if take 2 hex = ''0x'' then drop 2 hex else hex) = Inr (to32 (es_r p) @ to32 (es_s p) @ [v]))"

lemma parse_spelled: "parts_wf p \<Longrightarrow> spells S hex p \<Longrightarrow> parseEthSignature S hex = Inr p"
  by (cases p) (auto simp: spells_def parts_wf_def parseEthSignature_def in_range_def bytesToBigInt_to32 nth_append)

text \<open>The raw signer answers every hash with a well-formed signature; the wallet signs the EIP-712 digest with the same key.\<close>

definition same_key :: "signer_lib \<Rightarrow> (int \<Rightarrow> EthSignatureParts result) \<Rightarrow> (TypedData \<Rightarrow> string result) \<Rightarrow> bool" where
  "same_key S sign w \<longleftrightarrow> (\<forall>h. \<exists>p. sign h = Inr p \<and> parts_wf p) \<and>
     (\<forall>td d p. typedDataDigest S td = Some d \<and> sign (bytesToBigInt d) = Inr p \<longrightarrow> (\<exists>hex. w td = Inr hex \<and> spells S hex p))"

lemma wallet_parts:
  assumes "same_key S sign w" "map_option bytesToBigInt (typedDataDigest S td) = Some h"
  shows "\<exists>p. sign h = Inr p \<and> bindR (w td) (parseEthSignature S) = Inr p"
proof -
  obtain d where d: "typedDataDigest S td = Some d" "bytesToBigInt d = h" using assms(2) by auto
  obtain p where p: "sign h = Inr p" "parts_wf p" using assms(1) unfolding same_key_def by blast
  obtain hex where "w td = Inr hex" "spells S hex p" using assms(1) d p(1) unfolding same_key_def by blast
  then show ?thesis using p parse_spelled by simp
qed

definition options_ok :: "signer_lib \<Rightarrow> Eip712SignerOptions \<Rightarrow> ClientCall list \<Rightarrow> bool" where
  "options_ok S opts calls \<longleftrightarrow> felt_ok (so_accountAddress opts) \<and> felt_ok (so_evmChainId opts) \<and>
     list_all felt_ok (additional_or_empty opts) \<and> list_all (\<lambda>c. parts_ok (call_parts S c)) calls"

text \<open>
  C12: A browser wallet and a raw key give the account the same signature. When the wallet hashes typed
  data as EIP-712 prescribes (type strings from the declarations, struct and array hashes, the domain)
  and signs with the same key, both signers return, for every set of calls and every outside execution
  whose numbers fit into 256 bits, the same six felts: the hash computed by hand is the wallet's digest,
  and the wallet's 65 bytes are read back correctly with either convention for the recovery byte.
\<close>

theorem eip712_signers_agree:
  assumes "keccak_ok S" "same_key S sign w" "options_ok S opts calls" "input_ok i"
  shows "(\<exists>sig. signTransaction712 S (HashSource sign) opts calls = Inr sig \<and> signTransaction712 S (TypedDataSource w) opts calls = Inr sig) \<and>
     (\<exists>td sig. outsideExecutionTypedData i = Inr td \<and>
        signMessage712 S (HashSource sign) td = Inr sig \<and> signMessage712 S (TypedDataSource w) td = Inr sig)"
proof
  have ok: "felt_ok (so_accountAddress opts)" "felt_ok (so_evmChainId opts)" "list_all felt_ok (additional_or_empty opts)"
    "list_all (\<lambda>c. parts_ok (call_parts S c)) calls" using assms(3) by (simp_all add: options_ok_def)
  obtain td h where td: "callSetTypedData S (so_accountAddress opts) calls (so_snChainName opts) (so_evmChainId opts) (additional_or_empty opts) = Inr td"
    "computeCallSet712Hash S (so_accountAddress opts) calls (so_snChainName opts) (so_evmChainId opts) (additional_or_empty opts) = Inr h"
    "map_option bytesToBigInt (typedDataDigest S td) = Some h"
    using call_set_digest [OF assms(1) ok] by blast
  obtain p where p: "sign h = Inr p" "bindR (w td) (parseEthSignature S) = Inr p" using wallet_parts [OF assms(2) td(3)] by blast
  have "signParts S (HashSource sign) opts calls = Inr p" "signParts S (TypedDataSource w) opts calls = Inr p"
    by (simp_all add: signParts_def td p)
  then show "\<exists>sig. signTransaction712 S (HashSource sign) opts calls = Inr sig \<and> signTransaction712 S (TypedDataSource w) opts calls = Inr sig"
    using felt_okD [OF ok(2)] by (simp add: signTransaction712_def)
next
  obtain td h where td: "outsideExecutionTypedData i = Inr td" "outsideExecutionHash S td = Inr h" "td_primaryType td = ''OutsideExecution''"
    "map_option bytesToBigInt (typedDataDigest S td) = Some h"
    using outside_digest [OF assms(1,4)] by blast
  obtain p where p: "sign h = Inr p" "bindR (w td) (parseEthSignature S) = Inr p" using wallet_parts [OF assms(2) td(4)] by blast
  have parts: "signOutsideExecution S (HashSource sign) td = Inr p" "signOutsideExecution S (TypedDataSource w) td = Inr p"
    by (simp_all add: signOutsideExecution_def td p)
  have "felt_ok (oin_evmChainId i)" "felt_ok (oin_accountAddress i)" using assms(4) by (simp_all add: input_ok_def)
  then have "td_domain td = domain_value (oin_snChainName i) (felt_val (oin_evmChainId i)) (felt_val (oin_accountAddress i))"
    using td(1) by (auto simp: outsideExecutionTypedData_def domainValue_ok bindR_eq_Inr)
  then have "tnumber (tfield (td_domain td) ''chainId'') = Inr (BNString (hex_of (felt_val (oin_evmChainId i))))"
    by (simp add: domain_value_def tfield_def tnumber_def)
  moreover have "toFelt (BNString (hex_of (felt_val (oin_evmChainId i)))) = Inr (felt_val (oin_evmChainId i))"
    using \<open>felt_ok (oin_evmChainId i)\<close> felt_okD toFelt_hex by blast
  ultimately show "\<exists>td sig. outsideExecutionTypedData i = Inr td \<and>
      signMessage712 S (HashSource sign) td = Inr sig \<and> signMessage712 S (TypedDataSource w) td = Inr sig"
    using td(1,3) parts by (simp add: signMessage712_def)
qed

text \<open>A library and a wallet that meet the hypotheses: a checksum for Keccak and real hexadecimal coding.\<close>

definition byte_hex :: "nat \<Rightarrow> string" where
  "byte_hex b = [digit_char (b div 16), digit_char (b mod 16)]"

fun unhex :: "string \<Rightarrow> nat list result" where
  "unhex [] = Inr []"
| "unhex [c] = Inl (InvalidPayload ''odd length'')"
| "unhex (a # b # cs) = (case (digit_val a, digit_val b) of
      (Some x, Some y) \<Rightarrow> if x < 16 \<and> y < 16 then bindR (unhex cs) (\<lambda>bs. Inr ((16 * x + y) # bs)) else Inl (InvalidPayload ''no digit'')
    | _ \<Rightarrow> Inl (InvalidPayload ''no digit''))"

lemma unhex_hex: "is_bytes bs \<Longrightarrow> unhex (concat (map byte_hex bs)) = Inr bs"
  by (induction bs) (simp_all add: byte_hex_def is_bytes_def less_mult_imp_div_less)

definition sample_signer_lib :: signer_lib where
  "sample_signer_lib = \<lparr>keccak_256 = (\<lambda>b. to32 (int (sum_list b))), textEncode = map of_char,
     getSelectorFromName = (\<lambda>_. ''0x5''), hexToBytes = unhex\<rparr>"

definition sample_sign :: "int \<Rightarrow> EthSignatureParts result" where
  "sample_sign h = Inr \<lparr>es_r = h mod 2 ^ 256, es_s = 3, es_v = 28\<rparr>"

definition sample_wallet :: "TypedData \<Rightarrow> string result" where
  "sample_wallet td = (case typedDataDigest sample_signer_lib td of
      None \<Rightarrow> Inl (InvalidPayload ''typed data'')
    | Some d \<Rightarrow> Inr (''0x'' @ concat (map byte_hex (to32 (bytesToBigInt d mod 2 ^ 256) @ to32 3 @ [1]))))"

lemma sample_signer_ok: "keccak_ok sample_signer_lib" "same_key sample_signer_lib sample_sign sample_wallet"
proof -
  show "keccak_ok sample_signer_lib" by (simp add: keccak_ok_def sample_signer_lib_def)
  have "unhex (concat (map byte_hex (to32 n @ to32 3 @ [1]))) = Inr (to32 n @ to32 3 @ [1])" for n
    by (rule unhex_hex) (use to32_bytes in \<open>simp add: is_bytes_def\<close>)
  then have "spells sample_signer_lib (''0x'' @ concat (map byte_hex (to32 (n mod 2 ^ 256) @ to32 3 @ [1]))) \<lparr>es_r = n mod 2 ^ 256, es_s = 3, es_v = 28\<rparr>" for n
    by (simp add: spells_def sample_signer_lib_def)
  moreover have "parts_wf \<lparr>es_r = n mod 2 ^ 256, es_s = 3, es_v = 28\<rparr>" for n by (simp add: parts_wf_def in_range_def)
  ultimately show "same_key sample_signer_lib sample_sign sample_wallet"
    unfolding same_key_def sample_sign_def sample_wallet_def by auto
qed

definition sample_signer_options :: Eip712SignerOptions where
  "sample_signer_options = \<lparr>so_accountAddress = BNString ''0xab'', so_snChainName = ''SN'', so_evmChainId = BNNumber 1, so_additionalData = None\<rparr>"

definition sample_calls :: "ClientCall list" where
  "sample_calls = [\<lparr>cc_contractAddress = ''0x9'', cc_entrypoint = ''f'', cc_calldata = Some [BNNumber 4]\<rparr>]"

definition sample_outside :: OutsideExecutionInput where
  "sample_outside = \<lparr>oin_accountAddress = BNString ''0xab'', oin_snChainName = ''SN'', oin_evmChainId = BNNumber 1,
     oin_calls = [\<lparr>oe_address = BNNumber 9, oe_selector = BNNumber 5, oe_data = [BNNumber 4]\<rparr>], oin_caller = BNNumber 2, oin_nonce = BNNumber 3,
     oin_executeAfter = BNNumber 0, oin_executeBefore = BNNumber 7\<rparr>"

theorem eip712_signers_agree_witness:
  "(\<exists>sig. signTransaction712 sample_signer_lib (HashSource sample_sign) sample_signer_options sample_calls = Inr sig \<and>
      signTransaction712 sample_signer_lib (TypedDataSource sample_wallet) sample_signer_options sample_calls = Inr sig) \<and>
   (\<exists>td sig. outsideExecutionTypedData sample_outside = Inr td \<and>
      signMessage712 sample_signer_lib (HashSource sample_sign) td = Inr sig \<and> signMessage712 sample_signer_lib (TypedDataSource sample_wallet) td = Inr sig)"
proof (rule eip712_signers_agree [OF sample_signer_ok])
  show "options_ok sample_signer_lib sample_signer_options sample_calls" "input_ok sample_outside"
    unfolding options_ok_def input_ok_def parts_ok_def felt_ok_def in_range_def by code_simp+
qed

section \<open>The six felts\<close>

lemma be_value_bound: "is_bytes bs \<Longrightarrow> 0 \<le> be_value bs \<and> be_value bs < 256 ^ length bs"
proof (induction bs rule: rev_induct)
  case (snoc b bs)
  then have "be_value bs + 1 \<le> 256 ^ length bs" "0 \<le> be_value bs" "b < 256" by (auto simp: is_bytes_def)
  then have "(be_value bs + 1) * 256 \<le> 256 ^ length bs * 256" by (intro mult_right_mono) simp_all
  with \<open>b < 256\<close> \<open>0 \<le> be_value bs\<close> show ?case by simp
qed simp

lemma bytes32_range: "is_bytes bs \<Longrightarrow> length bs = 32 \<Longrightarrow> in_range (bytesToBigInt bs)"
proof -
  assume bs: "is_bytes bs" "length bs = 32"
  have "(256 :: int) ^ 32 = 2 ^ 256" by simp
  then show ?thesis using be_value_bound [OF bs(1)] bs by (simp only: in_range_def bytesToBigInt_value) 
qed

lemma halves: "in_range n \<Longrightarrow> 0 \<le> drop_bit 128 n \<and> drop_bit 128 n < 2 ^ 128 \<and> 0 \<le> n AND MASK_128 \<and> n AND MASK_128 < 2 ^ 128 \<and>
    n = drop_bit 128 n * 2 ^ 128 + (n AND MASK_128)"
proof -
  assume n: "in_range n"
  have m: "n AND MASK_128 = n mod 2 ^ 128"
    unfolding MASK_128_def mask_eq_exp_minus_1 [symmetric] take_bit_eq_mask [symmetric] by (rule take_bit_eq_mod)
  have d: "drop_bit 128 n = n div 2 ^ 128" by (rule drop_bit_eq_div)
  have "n div 2 ^ 128 < 2 ^ 128"
  proof (rule ccontr)
    assume "\<not> n div 2 ^ 128 < 2 ^ 128"
    then have "2 ^ 128 * 2 ^ 128 \<le> n div 2 ^ 128 * 2 ^ 128" by (intro mult_right_mono) simp_all
    also have "\<dots> \<le> n" by (simp add: div_times_less_eq_dividend)
    finally show False using n by (simp add: in_range_def)
  qed
  then show ?thesis using n by (simp add: m d in_range_def pos_imp_zdiv_nonneg_iff)
qed

text \<open>
  The account can recover the signature from the six felts: whatever signature \<open>parseEthSignature\<close>
  accepts, the felts are two halves below \<open>2^128\<close> that make up \<open>r\<close>, two that make up \<open>s\<close>, a recovery
  value of 27 or 28, and the chain id; and a signature is rejected exactly when it has no recovery byte or
  one other than 0, 1, 27, 28.
\<close>

theorem six_felts_exact:
  assumes "\<forall>s bs. hexToBytes S s = Inr bs \<longrightarrow> is_bytes bs" "hexToBytes S (if take 2 hex = ''0x'' then drop 2 hex else hex) = Inr bytes"
  shows "(isl (parseEthSignature S hex) \<longleftrightarrow> length bytes \<le> 64 \<or> bytes ! 64 \<notin> {0, 1, 27, 28}) \<and>
    (\<forall>p. parseEthSignature S hex = Inr p \<longrightarrow> (\<exists>rh rl sh sl v. toSixFelt p chain = map hex_of [rh, rl, sh, sl, v, chain] \<and>
       list_all (\<lambda>x. 0 \<le> x \<and> x < 2 ^ 128) [rh, rl, sh, sl] \<and> v \<in> {27, 28} \<and>
       rh * 2 ^ 128 + rl = be_value (take 32 bytes) \<and> sh * 2 ^ 128 + sl = be_value (take 32 (drop 32 bytes))))"
proof (intro conjI allI impI)
  show "isl (parseEthSignature S hex) \<longleftrightarrow> length bytes \<le> 64 \<or> bytes ! 64 \<notin> {0, 1, 27, 28}"
    using assms(2) by (simp add: parseEthSignature_def)
  fix p assume p: "parseEthSignature S hex = Inr p"
  then have len: "64 < length bytes" "bytes ! 64 \<in> {0, 1, 27, 28}" and
    e: "es_r p = bytesToBigInt (take 32 bytes)" "es_s p = bytesToBigInt (take 32 (drop 32 bytes))" "es_v p = (if bytes ! 64 < 27 then bytes ! 64 + 27 else bytes ! 64)"
    using assms(2) by (auto simp: parseEthSignature_def split: if_splits)
  have "is_bytes bytes" using assms by blast
  then have b: "is_bytes (take 32 bytes)" "is_bytes (take 32 (drop 32 bytes))"
    by (auto simp: is_bytes_def list_all_iff dest!: in_set_takeD in_set_dropD)
  have r: "in_range (es_r p)" "in_range (es_s p)" using b len(1) unfolding e by (simp_all add: bytes32_range)
  have "int (es_v p) \<in> {27, 28}" using len(2) e(3) by auto
  then show "\<exists>rh rl sh sl v. toSixFelt p chain = map hex_of [rh, rl, sh, sl, v, chain] \<and>
       list_all (\<lambda>x. 0 \<le> x \<and> x < 2 ^ 128) [rh, rl, sh, sl] \<and> v \<in> {27, 28} \<and>
       rh * 2 ^ 128 + rl = be_value (take 32 bytes) \<and> sh * 2 ^ 128 + sl = be_value (take 32 (drop 32 bytes))"
    using halves [OF r(1)] halves [OF r(2)] e(1,2) bytesToBigInt_value b
    by (intro exI [of _ "drop_bit 128 (es_r p)"] exI [of _ "es_r p AND MASK_128"] exI [of _ "drop_bit 128 (es_s p)"]
        exI [of _ "es_s p AND MASK_128"] exI [of _ "int (es_v p)"] conjI)
       (simp_all only: toSixFelt_def list.map list.pred_inject simp_thms)
qed

lemma unhex_bytes: "unhex s = Inr bs \<Longrightarrow> is_bytes bs"
proof (induction s arbitrary: bs rule: unhex.induct)
  case (3 a b cs)
  then obtain x y bs' where x: "digit_val a = Some x" "digit_val b = Some y" "x < 16" "y < 16" "unhex cs = Inr bs'" "bs = (16 * x + y) # bs'"
    by (auto simp: bindR_eq_Inr split: option.splits if_splits)
  then have "is_bytes bs'" using "3.IH" by simp
  then show ?case using x by (simp add: is_bytes_def)
qed (simp_all add: is_bytes_def)

theorem six_felts_exact_witness:
  "\<exists>p. parseEthSignature sample_signer_lib (''0x'' @ concat (map byte_hex (to32 (2 ^ 128) @ to32 3 @ [1]))) = Inr p \<and>
     toSixFelt p 5 = map hex_of [1, 0, 0, 3, 28, 5]"
proof -
  let ?bytes = "to32 (2 ^ 128) @ to32 3 @ [1]" and ?hex = "''0x'' @ concat (map byte_hex (to32 (2 ^ 128) @ to32 3 @ [1]))"
  have bytes: "\<forall>s bs. hexToBytes sample_signer_lib s = Inr bs \<longrightarrow> is_bytes bs" using unhex_bytes by (simp add: sample_signer_lib_def)
  have "unhex (concat (map byte_hex ?bytes)) = Inr ?bytes" by (rule unhex_hex) (use to32_bytes in \<open>simp add: is_bytes_def\<close>)
  then have h: "hexToBytes sample_signer_lib (if take 2 ?hex = ''0x'' then drop 2 ?hex else ?hex) = Inr ?bytes" by (simp add: sample_signer_lib_def)
  note t = six_felts_exact [OF bytes h]
  have n: "?bytes ! 64 = 1" "length ?bytes = 65" by (simp_all add: nth_append)
  have "\<not> isl (parseEthSignature sample_signer_lib ?hex)" using conjunct1 [OF t] n by simp
  then obtain p where p: "parseEthSignature sample_signer_lib ?hex = Inr p" by (cases "parseEthSignature sample_signer_lib ?hex") simp_all
  have "be_value (to32 m) = m mod 256 ^ 32" for m using value_of_to32 [of 32 m] by (simp add: to32_def)
  then have v: "be_value (take 32 ?bytes) = 2 ^ 128" "be_value (take 32 (drop 32 ?bytes)) = 3" by simp_all
  then have "es_r p = 2 ^ 128" "es_s p = 3" "es_v p = 28"
    using p h n bytesToBigInt_value [OF to32_bytes] by (auto simp: parseEthSignature_def)
  then have "toSixFelt p 5 = map hex_of [1, 0, 0, 3, 28, 5]" by (simp add: toSixFelt_def MASK_128_def drop_bit_eq_div)
  then show ?thesis using p by blast
qed

end
