(* ===== verification/Viewing_Key.thy ===== *)
theory Viewing_Key
  imports Typed_Data
begin

text \<open>
  The passphrase-backed viewing key of \<open>client/src/viewing-key.ts\<close>. Poseidon and the curve order are the
  library's. Characters are the code points below 256, so \<open>TextEncoder\<close> writes one or two bytes for each.
  The theorems: what is hashed determines passphrase and account; and the derived key is canonical.
\<close>

section \<open>Packing the passphrase\<close>

definition utf8_char :: "char \<Rightarrow> nat list" where
  "utf8_char c = (let n = of_char c in if n < 128 then [n] else [192 + n div 64, 128 + n mod 64])"

definition TextEncoder_encode :: "string \<Rightarrow> nat list" where
  "TextEncoder_encode s = concat (map utf8_char s)"

definition KDF_ROUNDS :: nat where
  "KDF_ROUNDS = 1000"

definition BYTES_PER_FELT :: nat where
  "BYTES_PER_FELT = 31"

definition limb :: "nat list \<Rightarrow> int" where
  "limb bytes = foldl (\<lambda>limb byte. push_bit 8 limb OR int byte) 0 bytes"

function limbs_from :: "nat list \<Rightarrow> nat \<Rightarrow> int list" where
  "limbs_from bytes offset =
     (if offset < length bytes
      then limb (take BYTES_PER_FELT (drop offset bytes)) # limbs_from bytes (offset + BYTES_PER_FELT)
      else [])"
  by auto

termination limbs_from
  by (relation "measure (\<lambda>(bytes, offset). length bytes - offset)") (auto simp: BYTES_PER_FELT_def)

declare limbs_from.simps [simp del]

definition passphraseToFelts :: "string \<Rightarrow> int list" where
  "passphraseToFelts passphrase =
     (let bytes = TextEncoder_encode passphrase in int (length bytes) # limbs_from bytes 0)"

section \<open>Deriving the key\<close>

definition canonicalViewingKey :: "starknet_lib \<Rightarrow> int \<Rightarrow> int" where
  "canonicalViewingKey L key =
     (let HALF_ORDER = drop_bit 1 (CURVE_n L);
          reduced = js_rem key (CURVE_n L);
          scalar = (if reduced \<ge> HALF_ORDER then CURVE_n L - reduced else reduced)
      in if scalar = 0 \<or> scalar \<ge> HALF_ORDER then 1 else scalar)"

definition kdf_input :: "string \<Rightarrow> int \<Rightarrow> int list" where
  "kdf_input passphrase salt = passphraseToFelts passphrase @ [salt]"

definition kdf_round :: "starknet_lib \<Rightarrow> int \<Rightarrow> int \<Rightarrow> int" where
  "kdf_round L salt key = poseidonHashMany L [key, salt]"

definition deriveViewingKey :: "starknet_lib \<Rightarrow> string \<Rightarrow> bignum \<Rightarrow> int result" where
  "deriveViewingKey L passphrase address = bindR (BigInt address) (\<lambda>salt.
     let key = poseidonHashMany L (kdf_input passphrase salt)
     in Inr (canonicalViewingKey L ((kdf_round L salt ^^ (KDF_ROUNDS - 1)) key)))"

text \<open>The provider: the closure's variable \<open>cached\<close> and one call of \<open>getViewingKey\<close>.\<close>

record KeyProvider =
  kp_passphrase :: string
  kp_address :: bignum
  kp_cached :: "int option"

definition passphraseViewingKeyProvider :: "string \<Rightarrow> bignum \<Rightarrow> KeyProvider" where
  "passphraseViewingKeyProvider passphrase address = \<lparr>kp_passphrase = passphrase, kp_address = address, kp_cached = None\<rparr>"

definition getViewingKey :: "starknet_lib \<Rightarrow> KeyProvider \<Rightarrow> KeyProvider \<times> int result" where
  "getViewingKey L p = (case kp_cached p of
      Some k \<Rightarrow> (p, Inr k)
    | None \<Rightarrow> (case deriveViewingKey L (kp_passphrase p) (kp_address p) of
        Inl e \<Rightarrow> (p, Inl e)
      | Inr k \<Rightarrow> (p\<lparr>kp_cached := Some k\<rparr>, Inr k)))"

section \<open>The packing is injective\<close>

lemma utf8_head: "of_char c < (128 :: nat) \<longleftrightarrow> hd (utf8_char c) < 128"
  by (simp add: utf8_char_def Let_def)

lemma utf8_char_inj: "utf8_char c @ r = utf8_char d @ s \<Longrightarrow> c = d \<and> r = s"
proof -
  assume eq: "utf8_char c @ r = utf8_char d @ s"
  have "of_char c = (of_char d :: nat) \<and> r = s"
  proof (cases "of_char c < (128 :: nat)")
    case True
    then show ?thesis using eq by (auto simp: utf8_char_def Let_def split: if_splits)
  next
    case False
    then have "of_char c div 64 = (of_char d div 64 :: nat)" "of_char c mod 64 = (of_char d mod 64 :: nat)" "r = s"
      using eq by (auto simp: utf8_char_def Let_def split: if_splits)
    then show ?thesis by (metis div_mult_mod_eq)
  qed
  then show ?thesis by simp
qed

lemma utf8_nonempty [simp]: "utf8_char c \<noteq> []"
  by (simp add: utf8_char_def Let_def)

lemma TextEncoder_inj: "TextEncoder_encode s = TextEncoder_encode t \<Longrightarrow> s = t"
proof (induction s arbitrary: t)
  case Nil
  then show ?case by (cases t) (simp_all add: TextEncoder_encode_def)
next
  case (Cons c s)
  then obtain d t' where t: "t = d # t'" by (cases t) (simp_all add: TextEncoder_encode_def)
  then have "utf8_char c @ TextEncoder_encode s = utf8_char d @ TextEncoder_encode t'"
    using Cons.prems by (simp add: TextEncoder_encode_def)
  from utf8_char_inj [OF this] show ?case using Cons.IH t by simp
qed

lemma utf8_bytes: "is_bytes (TextEncoder_encode s)"
proof -
  have "is_bytes (utf8_char c)" for c
  proof -
    have "of_char c div 64 < (4 :: nat)" by (rule less_mult_imp_div_less) simp
    moreover have "of_char c mod 64 < (64 :: nat)" by simp
    ultimately show ?thesis by (auto simp: utf8_char_def Let_def is_bytes_def simp del: mod_less_divisor)
  qed
  then show ?thesis by (induction s) (auto simp: TextEncoder_encode_def is_bytes_def)
qed

lemma limb_value: "is_bytes bs \<Longrightarrow> limb bs = be_value bs"
  using bytesToBigInt_value [of bs] by (simp add: bytesToBigInt_def limb_def)

lemma be_value_inj: "is_bytes a \<Longrightarrow> is_bytes b \<Longrightarrow> length a = length b \<Longrightarrow> be_value a = be_value b \<Longrightarrow> a = b"
  by (metis to32_of_value)

lemma is_bytes_part [simp]: "is_bytes bs \<Longrightarrow> is_bytes (take n (drop m bs))"
  by (auto simp: is_bytes_def list_all_iff dest: in_set_takeD in_set_dropD)

lemma limbs_inj:
  assumes "is_bytes a" "is_bytes b" "length a = length b"
  shows "limbs_from a n = limbs_from b n \<Longrightarrow> drop n a = drop n b"
  using assms
proof (induction a n rule: limbs_from.induct)
  case (1 a n)
  show ?case
  proof (cases "n < length a")
    case True
    let ?A = "take BYTES_PER_FELT (drop n a)" and ?B = "take BYTES_PER_FELT (drop n b)"
    from True "1.prems" have "limb ?A = limb ?B" "limbs_from a (n + BYTES_PER_FELT) = limbs_from b (n + BYTES_PER_FELT)"
      by (simp_all add: limbs_from.simps [of _ n])
    then have "?A = ?B" "drop BYTES_PER_FELT (drop n a) = drop BYTES_PER_FELT (drop n b)"
      using "1.IH" [OF True] "1.prems" by (auto intro!: be_value_inj simp: limb_value add.commute)
    then show ?thesis by (metis append_take_drop_id)
  next
    case False
    then show ?thesis using "1.prems" by simp
  qed
qed

lemma passphraseToFelts_inj: "passphraseToFelts p = passphraseToFelts q \<Longrightarrow> p = q"
  using limbs_inj [OF utf8_bytes utf8_bytes, of p q 0]
  by (intro TextEncoder_inj) (auto simp: passphraseToFelts_def Let_def)

lemma limbs_bounded: "is_bytes bs \<Longrightarrow> list_all (\<lambda>f. 0 \<le> f \<and> f < 2 ^ 248) (limbs_from bs n)"
proof (induction bs n rule: limbs_from.induct)
  case (1 bs n)
  have "(256 :: int) ^ length (take BYTES_PER_FELT (drop n bs)) \<le> 256 ^ 31"
    by (rule power_increasing) (simp_all add: BYTES_PER_FELT_def)
  also have "(256 :: int) ^ 31 = 2 ^ 248" by simp
  finally have "0 \<le> limb (take BYTES_PER_FELT (drop n bs)) \<and> limb (take BYTES_PER_FELT (drop n bs)) < 2 ^ 248"
    using be_value_bound [of "take BYTES_PER_FELT (drop n bs)"] 1 by (simp add: limb_value)
  with 1 show ?case by (subst limbs_from.simps) (simp del: power_numeral)
qed

text \<open>
  two passphrases and accounts are hashed alike only if they are the same, and every limb fits a felt.
\<close>

theorem kdf_input_binds:
  "(kdf_input p a = kdf_input q b \<longleftrightarrow> p = q \<and> a = b) \<and> list_all (\<lambda>f. 0 \<le> f \<and> f < 2 ^ 248) (tl (passphraseToFelts p))"
proof
  show "kdf_input p a = kdf_input q b \<longleftrightarrow> p = q \<and> a = b"
    using passphraseToFelts_inj by (auto simp: kdf_input_def)
  show "list_all (\<lambda>f. 0 \<le> f \<and> f < 2 ^ 248) (tl (passphraseToFelts p))"
    using limbs_bounded [OF utf8_bytes] by (simp add: passphraseToFelts_def Let_def)
qed

section \<open>The key is canonical\<close>

lemma canonical_bounds:
  assumes "0 \<le> key" "4 \<le> CURVE_n L"
  shows "0 < canonicalViewingKey L key \<and> canonicalViewingKey L key < CURVE_n L div 2"
proof -
  have r: "js_rem key (CURVE_n L) = key mod CURVE_n L" "0 \<le> key mod CURVE_n L" "key mod CURVE_n L < CURVE_n L" using assms by simp_all
  have h: "drop_bit (Suc 0) (CURVE_n L) = CURVE_n L div 2" by (simp add: drop_bit_eq_div)
  show ?thesis using r assms by (auto simp: canonicalViewingKey_def Let_def h simp del: pos_mod_sign pos_mod_bound)
qed

lemma rounds_nonneg: "(\<And>xs. 0 \<le> poseidonHashMany L xs) \<Longrightarrow> 0 \<le> key \<Longrightarrow> 0 \<le> (kdf_round L salt ^^ n) key"
  by (induction n) (simp_all add: kdf_round_def)

text \<open>
  from a numeric address the derivation yields a key, a canonical one (\<open>0 < key < HALF_ORDER\<close>, which
  is what the pool demands); every later call of the provider returns that same key.
\<close>

theorem viewing_key_canonical:
  assumes "\<forall>xs. 0 \<le> poseidonHashMany L xs" "4 \<le> CURVE_n L" "BigInt address = Inr salt"
  shows "\<exists>k. deriveViewingKey L passphrase address = Inr k \<and> 0 < k \<and> k < CURVE_n L div 2 \<and>
    (let p = passphraseViewingKeyProvider passphrase address; p1 = fst (getViewingKey L p)
     in snd (getViewingKey L p) = Inr k \<and> ((\<lambda>p. fst (getViewingKey L p)) ^^ n) p1 = p1 \<and> snd (getViewingKey L p1) = Inr k)"
proof -
  define k where "k = canonicalViewingKey L ((kdf_round L salt ^^ (KDF_ROUNDS - 1)) (poseidonHashMany L (kdf_input passphrase salt)))"
  have d: "deriveViewingKey L passphrase address = Inr k" using assms(3) by (simp add: deriveViewingKey_def k_def Let_def)
  have k: "0 < k" "k < CURVE_n L div 2"
    using canonical_bounds [OF rounds_nonneg assms(2)] assms(1) by (auto simp: k_def)
  let ?p1 = "\<lparr>kp_passphrase = passphrase, kp_address = address, kp_cached = Some k\<rparr>"
  have p1: "getViewingKey L ?p1 = (?p1, Inr k)" by (simp add: getViewingKey_def)
  have "((\<lambda>p. fst (getViewingKey L p)) ^^ n) ?p1 = ?p1" by (induction n) (simp_all add: p1)
  with d k p1 show ?thesis by (auto simp: getViewingKey_def passphraseViewingKeyProvider_def Let_def)
qed

definition sample_key_lib :: "starknet_lib \<Rightarrow> starknet_lib" where
  "sample_key_lib L = L\<lparr>poseidonHashMany := (\<lambda>xs. (foldl (\<lambda>a x. 3 * a + x) 1 xs) mod 97), CURVE_n := 89\<rparr>"

theorem viewing_key_canonical_witness:
  "BigInt (BNNumber 7) = Inr 7 \<and>
   (\<exists>k. deriveViewingKey (sample_key_lib undefined) ''secret'' (BNNumber 7) = Inr k \<and> 0 < k \<and> k < CURVE_n (sample_key_lib undefined) div 2)"
  using viewing_key_canonical [of "sample_key_lib undefined" "BNNumber 7" 7 "''secret''" 3]
  by (auto simp: sample_key_lib_def Let_def)

end
