(* ===== verification/Client_Prover.thy ===== *)
theory Client_Prover
  imports Client_Builder Viewing_Key Execution
begin

text \<open>
  The default prover of the client (\<open>client/src/strk20-prover.ts\<close>): strk20 actions are replayed onto the
  core builder and executed, with the viewing key of the passphrase and the stored registry. The
  theorems: the collected core actions are exactly the strk20 actions, grouped by token; a placeholder
  an invoke was given resolves to the open note of that position in the core's order, which is not
  always the order of creation; and the registry is saved only by a proof that succeeded.
\<close>

section \<open>Placeholders\<close>

definition decimal_digit :: "char \<Rightarrow> bool" where
  "decimal_digit c = (case digit_val c of Some d \<Rightarrow> d < 10 | None \<Rightarrow> False)"

text \<open>The match of \<open>OPEN_NOTE_PLACEHOLDER\<close> and the number of its group.\<close>

definition open_note_index :: "string \<Rightarrow> nat option" where
  "open_note_index item =
     (let prefix = ''${openNoteIds[''; rest = drop (length prefix) item; digits = takeWhile decimal_digit rest in
      if take (length prefix) item = prefix \<and> digits \<noteq> [] \<and> drop (length digits) rest = '']}''
      then parse_nat 10 digits else None)"

definition substitute :: "bignum \<Rightarrow> InvokeCalldataBuilderArgs \<Rightarrow> string result" where
  "substitute item args = (case open_note_index (String_of item) of
      Some index \<Rightarrow>
        if index < length (openNotes args) then Inr (hex_of (io_noteId (openNotes args ! index)))
        else Inl (AssertionError ''out of range'')
    | None \<Rightarrow>
        if item = BNString POOL_PLACEHOLDER then Inr (hex_of (poolAddress args))
        else num_toHex item)"

definition substituteAll :: "bignum list \<Rightarrow> InvokeCalldataBuilderArgs \<Rightarrow> raw_arg list result" where
  "substituteAll items args = bindR (mapR (\<lambda>item. substitute item args) items) (\<lambda>xs. Inr (map (\<lambda>x. RawNum (BNString x)) xs))"

section \<open>Replaying the actions\<close>

definition coreCall :: "Strk20WireCall \<Rightarrow> ShadowCall" where
  "coreCall c = (let k = toStarknetCall c in
     \<lparr>sc_contractAddress = cc_contractAddress k, sc_entrypoint = cc_entrypoint k, sc_calldata = map_option (map RawNum) (cc_calldata k)\<rparr>)"

definition corePolicy :: "Strk20CollectPolicy \<Rightarrow> CollectPolicy result" where
  "corePolicy p = (case p of
      PolicyAll \<Rightarrow> Inr CollectAll
    | PolicyDiff \<Rightarrow> Inr CollectDiff
    | PolicyExact amount \<Rightarrow> bindR (BigInt (BNString amount)) (\<lambda>a. Inr (CollectExact a)))"

definition with_amount :: "string \<Rightarrow> (int \<Rightarrow> 's \<Rightarrow> 's \<times> error option) \<Rightarrow> 's \<Rightarrow> 's \<times> error option" where
  "with_amount amount f s = (case BigInt (BNString amount) of Inl e \<Rightarrow> (s, Some e) | Inr a \<Rightarrow> f a s)"

definition translate1 ::
  "shadow_lib \<Rightarrow> bignum option \<Rightarrow> Strk20Action \<Rightarrow> TransfersBuilder \<Rightarrow> TransfersBuilder \<times> error option"
where
  "translate1 S anonymizer action b = (case action of
      S20Deposit token amount \<Rightarrow>
        pb_with (BNString token) (with_amount amount (\<lambda>a. tb_deposit [\<lparr>td_recipient = None, td_amount = a\<rparr>])) b
    | S20Withdraw token amount recipient \<Rightarrow>
        pb_with (BNString token) (with_amount amount (\<lambda>a.
          tb_withdraw (pb_userAddress b) [\<lparr>tw_recipient = Some (BNString recipient), tw_amount = a\<rparr>])) b
    | S20Transfer token amount recipient \<Rightarrow>
        pb_with (BNString token)
          (if amount = OPEN_AMOUNT then tb_transfer [\<lparr>tt_recipient = BNString recipient, tt_amount = Open\<rparr>]
           else with_amount amount (\<lambda>a. tb_transfer [\<lparr>tt_recipient = BNString recipient, tt_amount = Amt a\<rparr>])) b
    | S20Invoke contract items \<Rightarrow>
        pb_setInvoke (\<lambda>args. bindR (substituteAll items args) (\<lambda>d.
          Inr \<lparr>cd_contractAddress = BNString contract, cd_calldata = Some d\<rparr>)) b
    | S20ComputeAndInvoke contract compute items \<Rightarrow>
        pb_setComputeAndInvoke (\<lambda>args. bindR (substituteAll compute args) (\<lambda>c. bindR (substituteAll items args) (\<lambda>d.
          Inr \<lparr>ci_contractAddress = BNString contract, computeAdditionalData = Some c, invokeAdditionalData = Some d\<rparr>))) b
    | S20ShadowAccountInvoke dapp_name nonce calls policy \<Rightarrow>
        (case new_ShadowAccounts S (DappString dapp_name) anonymizer of
           Inl e \<Rightarrow> (b, Some e)
         | Inr sh \<Rightarrow> (case corePolicy policy of
             Inl e \<Rightarrow> (b, Some e)
           | Inr p \<Rightarrow> sh_invoke S sh (BNString nonce) (map coreCall calls) (Some p) b)))"

definition translate :: "shadow_lib \<Rightarrow> bignum option \<Rightarrow> Strk20Action list \<Rightarrow> TransfersBuilder \<Rightarrow> TransfersBuilder \<times> error option" where
  "translate S anonymizer actions b = run_each (translate1 S anonymizer) actions b"

section \<open>The prover\<close>

record PrivacyStorage =
  loadRegistry :: "PrivateRegistry result"
  saveRegistry :: "PrivateRegistry \<Rightarrow> unit result"

record ProverConfig =
  pc_address :: bignum
  pc_passphrase :: string
  pc_node :: mock_node
  pc_env :: transfer_env                      \<comment> \<open>signer, discovery and proving provider\<close>
  pc_hashElements :: "bignum list \<Rightarrow> string"
  pc_shadow :: shadow_lib
  pc_pool :: bignum
  pc_anonymizer :: bignum
  pc_storage :: PrivacyStorage

record CoreProver =
  cp_transfers :: PrivateTransfers
  cp_env :: transfer_env
  cp_config :: ProverConfig

definition new_CoreProver :: "ProverConfig \<Rightarrow> CoreProver result" where
  "new_CoreProver C = bindR (new_PrivateTransfers (pc_address C) (pc_pool C)) (\<lambda>pt.
     Inr \<lparr>cp_transfers = pt,
          cp_env = (pc_env C)\<lparr>te_viewingKey := bindR (snd (getViewingKey (inv_starknet (te_invocation (pc_env C)))
             (passphraseViewingKeyProvider (pc_passphrase C) (pc_address C)))) (\<lambda>k. Inr (BNBigint k))\<rparr>,
          cp_config = C\<rparr>)"

record Strk20Proof =
  s20_data :: string
  s20_output :: "string list"
  s20_proof_facts :: "string list"

definition toStrk20CallAndProof :: "ExecuteResult \<Rightarrow> Strk20WireCall \<times> Strk20Proof" where
  "toStrk20CallAndProof r =
     (let c = er_call r in
      (toStrk20Call \<lparr>cc_contractAddress = call_contractAddress c, cc_entrypoint = call_entrypoint c,
                     cc_calldata = Some (map BNString (call_calldata c))\<rparr>,
       \<lparr>s20_data = p_data (er_proof r), s20_output = p_output (er_proof r), s20_proof_facts = proofFacts (er_proof r)\<rparr>))"

definition prover_options :: "PrivateRegistry \<Rightarrow> PartialOptions" where
  "prover_options registry = no_partial\<lparr>po_autoRegister := Some True, po_autoSetup := Some True, po_autoSelectNotes := Some SelectNaive,
     po_discoverChannels := Some Refresh, po_discoverNotes := Some Refresh, po_registry := Some registry\<rparr>"

definition core_partialCommitment :: "CoreProver \<Rightarrow> string \<Rightarrow> int result" where
  "core_partialCommitment P dapp =
     bindR (new_ShadowAccounts (pc_shadow (cp_config P)) (DappString dapp) (Some (pc_anonymizer (cp_config P)))) (\<lambda>sh.
     bindR (te_viewingKey (cp_env P)) (sh_partialCommitment (pc_shadow (cp_config P)) sh (pt_user (cp_transfers P))))"

text \<open>The registries that were saved, and the answer.\<close>

definition core_prove :: "CoreProver \<Rightarrow> Strk20Action list \<Rightarrow> bool \<Rightarrow> PrivateRegistry list \<times> (Strk20WireCall \<times> Strk20Proof) result" where
  "core_prove P actions simulated = (let C = cp_config P in
     case loadRegistry (pc_storage C) of
       Inl e \<Rightarrow> ([], Inl e)
     | Inr registry \<Rightarrow>
         (case translate (pc_shadow C) (Some (pc_anonymizer C)) actions
                 (new_TransfersBuilder (BNBigint (pt_user (cp_transfers P))) (Some (prover_options registry))) of
            (b, Some e) \<Rightarrow> ([], Inl e)
          | (b, None) \<Rightarrow>
              let (acts, opts) = collectActionsAndOptions b None in
              if simulated
              then ([], bindR (simulate (cp_env P) (cp_transfers P) (pc_hashElements C) (pc_node C) None acts (asExecuteOptions opts))
                         (\<lambda>r. Inr (toStrk20CallAndProof r)))
              else (case execute_actions (cp_env P) (cp_transfers P) acts (asExecuteOptions opts) of
                  Inl e \<Rightarrow> ([], Inl e)
                | Inr r \<Rightarrow> (case saveRegistry (pc_storage C) (er_registry r) of
                    Inl e \<Rightarrow> ([], Inl e)
                  | Inr _ \<Rightarrow> ([er_registry r], Inr (toStrk20CallAndProof r))))))"

section \<open>The collected actions\<close>

text \<open>What a strk20 action asks of the core builder, as a call on a token builder.\<close>

definition amount_of :: "string \<Rightarrow> int" where
  "amount_of s = bn_val (BNString s)"

fun token_calls :: "Strk20Action list \<Rightarrow> (bignum \<times> call) list" where
  "token_calls [] = []"
| "token_calls (S20Deposit t a # as) = (BNString t, Deposits [\<lparr>td_recipient = None, td_amount = amount_of a\<rparr>]) # token_calls as"
| "token_calls (S20Withdraw t a r # as) =
     (BNString t, Withdraws [\<lparr>tw_recipient = Some (BNString r), tw_amount = amount_of a\<rparr>]) # token_calls as"
| "token_calls (S20Transfer t a r # as) =
     (BNString t, Transfers [\<lparr>tt_recipient = BNString r, tt_amount = (if a = OPEN_AMOUNT then Open else Amt (amount_of a))\<rparr>]) # token_calls as"
| "token_calls (_ # as) = token_calls as"

lemma token_calls_append: "token_calls (as @ bs) = token_calls as @ token_calls bs"
  by (induction as rule: token_calls.induct) simp_all

lemma with_amount_ok: "with_amount amount f s = (s', None) \<Longrightarrow> f (amount_of amount) s = (s', None)"
  by (auto simp: with_amount_def amount_of_def bn_val_def toBigInt_def split: sum.splits)

lemma pb_with_weaken:
  "pb_with token f b = (b', None) \<Longrightarrow> (\<And>tb tb'. f tb = (tb', None) \<Longrightarrow> g tb = (tb', None)) \<Longrightarrow> pb_with token g b = (b', None)"
  by (auto simp: pb_with_def Let_def split: sum.splits prod.splits)

lemma perform_simps:
  "perform user (Deposits ds) = tb_deposit ds" "perform user (Withdraws ws) = tb_withdraw user ws" "perform user (Transfers ts) = tb_transfer ts"
  by (simp_all add: perform_def)

lemma translate1_grouped:
  assumes "translate1 S an action b = (b', None)" "pb_tokenBuilders b = grouped (pb_userAddress b) cs"
  shows "pb_tokenBuilders b' = grouped (pb_userAddress b) (cs @ token_calls [action]) \<and>
    pb_userAddress b' = pb_userAddress b \<and> pb_setViewingKey b' = pb_setViewingKey b \<and> pb_openChannels b' = pb_openChannels b \<and>
    pb_defaultSurplus b' = pb_defaultSurplus b \<and> pb_buildOptions b' = pb_buildOptions b"
proof -
  have tok: ?thesis if "token_calls [action] = [(BNString t, c)]" "pb_with (BNString t) (perform (pb_userAddress b) c) b = (b', None)" for t c
    using pb_with_ok [OF that(2) assms(2)] that(1) by simp
  show ?thesis
  proof (cases action)
    case (S20Deposit t a)
    show ?thesis
      by (rule tok) (use assms(1) in \<open>auto simp: S20Deposit translate1_def perform_simps elim!: pb_with_weaken dest: with_amount_ok\<close>)
  next
    case (S20Withdraw t a r)
    show ?thesis
      by (rule tok) (use assms(1) in \<open>auto simp: S20Withdraw translate1_def perform_simps elim!: pb_with_weaken dest: with_amount_ok\<close>)
  next
    case (S20Transfer t a r)
    show ?thesis
      by (rule tok) (use assms(1) in \<open>auto simp: S20Transfer translate1_def perform_simps elim!: pb_with_weaken dest: with_amount_ok split: if_splits\<close>)
  qed (use assms in \<open>auto simp: translate1_def pb_setInvoke_def pb_setComputeAndInvoke_def sh_invoke_def split: option.splits sum.splits\<close>)
qed

lemma translate_grouped:
  assumes "translate S an actions (new_TransfersBuilder user opts) = (b, None)"
  shows "pb_tokenBuilders b = grouped user (token_calls actions) \<and> pb_userAddress b = user \<and>
    pb_setViewingKey b = False \<and> pb_openChannels b = [] \<and> pb_defaultSurplus b = None \<and>
    pb_buildOptions b = pb_buildOptions (new_TransfersBuilder user opts)"
  using assms
proof (induction actions arbitrary: b rule: rev_induct)
  case Nil
  then show ?case by (auto simp: translate_def new_TransfersBuilder_def grouped_def first_uses_def)
next
  case (snoc a as)
  then obtain b1 where b1: "translate S an as (new_TransfersBuilder user opts) = (b1, None)" "translate1 S an a b1 = (b, None)"
    by (auto simp: translate_def run_each_snoc split: prod.splits option.splits)
  from snoc.IH [OF b1(1)] translate1_grouped [OF b1(2)] show ?case by (simp add: token_calls_append)
qed

text \<open>What each strk20 action asks for.\<close>

fun action_deposits :: "Strk20Action \<Rightarrow> DepositAction list" where
  "action_deposits (S20Deposit t a) = [\<lparr>d_token = amount_of t, d_amount = amount_of a, d_noteId = None\<rparr>]"
| "action_deposits _ = []"

fun action_withdraws :: "Strk20Action \<Rightarrow> WithdrawAction list" where
  "action_withdraws (S20Withdraw t a r) = [\<lparr>wd_recipient = amount_of r, wd_token = amount_of t, wd_amount = amount_of a\<rparr>]"
| "action_withdraws _ = []"

fun action_notes :: "Strk20Action \<Rightarrow> CreateNoteAction list" where
  "action_notes (S20Transfer t a r) =
     [\<lparr>c_recipient = amount_of r, c_token = amount_of t, c_amount = (if a = OPEN_AMOUNT then Open else Amt (amount_of a))\<rparr>]"
| "action_notes _ = []"

definition same_per_token :: "('x \<Rightarrow> int) \<Rightarrow> 'x list \<Rightarrow> 'x list \<Rightarrow> bool" where
  "same_per_token tok xs ys \<longleftrightarrow> (\<forall>t. filter (\<lambda>x. tok x = t) xs = filter (\<lambda>x. tok x = t) ys)"

lemma same_per_token_set: "same_per_token tok xs ys \<Longrightarrow> set xs = set ys"
proof -
  assume s: "same_per_token tok xs ys"
  have m: "x \<in> set zs \<longleftrightarrow> x \<in> set (filter (\<lambda>y. tok y = tok x) zs)" for x zs by simp
  show ?thesis
  proof (rule set_eqI)
    fix x
    show "x \<in> set xs \<longleftrightarrow> x \<in> set ys"
      unfolding m [of x xs] m [of x ys] using s [unfolded same_per_token_def, rule_format, of "tok x"] by simp
  qed
qed

lemma same_per_token_mset: "same_per_token tok xs ys \<Longrightarrow> mset xs = mset ys"
proof (rule multiset_eqI)
  fix x
  assume s: "same_per_token tok xs ys"
  have c: "count (mset zs) x = count (mset (filter (\<lambda>y. tok y = tok x) zs)) x" for zs by simp
  show "count (mset xs) x = count (mset ys) x"
    unfolding c [of xs] c [of ys] using s [unfolded same_per_token_def, rule_format, of "tok x"] by simp
qed

lemma same_per_token_count: "same_per_token tok xs ys \<Longrightarrow> length (filter P xs) = length (filter P ys)"
  using same_per_token_mset [of tok xs ys] by (metis mset_filter size_mset)

lemma open_action_notes: "length (filter (\<lambda>x. c_amount x = Open) (concat (map action_notes as))) = length (filter is_open as)"
proof (induction as)
  case (Cons a as)
  then show ?case by (cases a) auto
qed simp

lemma filter_concat: "filter P (concat xss) = concat (map (filter P) xss)"
  by (induction xss) simp_all

lemma by_token_filter:
  assumes "\<And>u c x. x \<in> set (f u c) \<Longrightarrow> tok x = u"
  shows "same_per_token tok (by_token cs f) (concat (map (\<lambda>c. f (bn_val (fst c)) (snd c)) cs))"
  unfolding same_per_token_def
proof
  fix t
  have only: "filter (\<lambda>x. tok x = t) (concat (map (f u) xs)) = (if u = t then concat (map (f u) xs) else [])" for u xs
    using assms by (auto simp: filter_empty_conv filter_id_conv)
  have one: "concat (map (\<lambda>u. if u = t then g u else []) us) = (if t \<in> set us then g t else [])" if "distinct us" for us and g :: "int \<Rightarrow> 'x list"
    using that by (induction us) auto
  have "filter (\<lambda>x. tok x = t) (by_token cs f) = (if t \<in> set (first_uses cs) then concat (map (f t) (calls_on cs t)) else [])"
  proof -
    have "distinct (first_uses cs)" by (simp add: first_uses_def)
    from one [OF this, of "\<lambda>u. concat (map (f u) (calls_on cs u))"] show ?thesis
      unfolding by_token_def filter_concat [of _ "map _ (first_uses cs)"] map_map comp_def only .
  qed
  also have "\<dots> = concat (map (f t) (calls_on cs t))" using calls_on_unused [of t cs] by simp
  also have "\<dots> = filter (\<lambda>x. tok x = t) (concat (map (\<lambda>c. f (bn_val (fst c)) (snd c)) cs))"
  proof (induction cs)
    case (Cons c cs)
    have "filter (\<lambda>x. tok x = t) (f (bn_val (fst c)) (snd c)) = (if bn_val (fst c) = t then f t (snd c) else [])"
      using only [of "bn_val (fst c)" "[snd c]"] by simp
    with Cons show ?case by (simp add: calls_on_def)
  qed (simp add: calls_on_def)
  finally show "filter (\<lambda>x. tok x = t) (by_token cs f) = filter (\<lambda>x. tok x = t) (concat (map (\<lambda>c. f (bn_val (fst c)) (snd c)) cs))" .
qed

lemma asked_calls:
  "concat (map (\<lambda>c. paid_in (bn_val (fst c)) (snd c)) (token_calls actions)) = concat (map action_deposits actions)"
  "concat (map (\<lambda>c. paid_out user (bn_val (fst c)) (snd c)) (token_calls actions)) = concat (map action_withdraws actions)"
  "concat (map (\<lambda>c. created (bn_val (fst c)) (snd c)) (token_calls actions)) = concat (map action_notes actions)"
  by (induction actions rule: token_calls.induct) (simp_all add: contributions amount_of_def)

lemma token_calls_none:
  assumes "\<And>ds. f t (Deposits ds) = []" "\<And>ws. f t (Withdraws ws) = []" "\<And>ts. f t (Transfers ts) = []"
  shows "concat (map (f t) (calls_on (token_calls actions) t)) = []"
  using assms by (induction actions rule: token_calls.induct) (simp_all add: calls_on_def)

fun invoke_phase :: "Strk20Action \<Rightarrow> bool" where
  "invoke_phase (S20Invoke _ _) = True"
| "invoke_phase (S20ComputeAndInvoke _ _ _) = True"
| "invoke_phase (S20ShadowAccountInvoke _ _ _ _) = True"
| "invoke_phase _ = False"

lemma translate1_phase:
  assumes "translate1 S an a b = (b', None)"
  shows "if invoke_phase a then pb_invoke b = None \<and> pb_computeAndInvoke b = None \<and> (pb_invoke b' \<noteq> None \<or> pb_computeAndInvoke b' \<noteq> None)
    else pb_invoke b' = pb_invoke b \<and> pb_computeAndInvoke b' = pb_computeAndInvoke b"
  using assms
  by (cases a) (auto simp: translate1_def pb_setInvoke_def pb_setComputeAndInvoke_def sh_invoke_def assertNoInvokePhaseAction_def pb_with_def Let_def
      split: option.splits sum.splits if_splits prod.splits)

lemma translate_phase:
  assumes "translate S an actions (new_TransfersBuilder user opts) = (b, None)"
  shows "length (filter invoke_phase actions) = (if pb_invoke b = None \<and> pb_computeAndInvoke b = None then 0 else 1)"
  using assms
proof (induction actions arbitrary: b rule: rev_induct)
  case Nil
  then show ?case by (auto simp: translate_def new_TransfersBuilder_def)
next
  case (snoc a as)
  then obtain b1 where b1: "translate S an as (new_TransfersBuilder user opts) = (b1, None)" "translate1 S an a b1 = (b, None)"
    by (auto simp: translate_def run_each_snoc split: prod.splits option.splits)
  from snoc.IH [OF b1(1)] translate1_phase [OF b1(2)] show ?case by (auto split: if_splits)
qed

text \<open>
  Replaying strk20 actions loses, adds and changes nothing: for every token the deposits, withdrawals and
  notes of the core transaction are those the actions ask for, in their order; nothing else is asked
  of the core builder; and there is an invocation exactly if there is one among the actions, at most one.
\<close>

lemma translate_exact:
  assumes "translate S an actions (new_TransfersBuilder user opts) = (b, None)"
  shows "\<exists>ds ws ns. a_deposits (collectActions b) = Some ds \<and> same_per_token d_token ds (concat (map action_deposits actions)) \<and>
    a_withdraws (collectActions b) = Some ws \<and> same_per_token wd_token ws (concat (map action_withdraws actions)) \<and>
    a_createNotes (collectActions b) = Some ns \<and> same_per_token c_token ns (concat (map action_notes actions)) \<and>
    a_useNotes (collectActions b) = Some [] \<and> a_openChannels (collectActions b) = Some [] \<and> a_openTokenChannels (collectActions b) = Some [] \<and>
    a_surpluses (collectActions b) = Some [] \<and> \<not> a_setViewingKey (collectActions b) \<and>
    length (filter invoke_phase actions) = (if a_invoke (collectActions b) = None \<and> a_computeAndInvoke (collectActions b) = None then 0 else 1)"
proof -
  let ?cs = "token_calls actions"
  have g: "pb_tokenBuilders b = grouped user ?cs" "pb_setViewingKey b = False" "pb_openChannels b = []" "pb_defaultSurplus b = None"
    using translate_grouped [OF assms] by auto
  have built: "tb_openTokenChannels (built user t (calls_on ?cs t)) = []" "tb_useNotes (built user t (calls_on ?cs t)) = []"
    "tb_surplusAction (built user t (calls_on ?cs t)) = None" for t
  proof -
    have "concat (map (opened t) (calls_on ?cs t)) = []" "concat (map (used t) (calls_on ?cs t)) = []" "concat (map (surplus_set t) (calls_on ?cs t)) = []"
      by (rule token_calls_none; simp add: contributions)+
    then show "tb_openTokenChannels (built user t (calls_on ?cs t)) = []" "tb_useNotes (built user t (calls_on ?cs t)) = []"
      "tb_surplusAction (built user t (calls_on ?cs t)) = None"
      unfolding built_def by (simp_all only: TokenBuilder.simps rev.simps list.case)
  qed
  have empty: "a_useNotes (collectActions b) = Some []" "a_openTokenChannels (collectActions b) = Some []" "a_surpluses (collectActions b) = Some []"
    using g built by (simp_all add: collectActions_def grouped_def surplusOf_def comp_def Let_def)
  have parts: "a_deposits (collectActions b) = Some (by_token ?cs paid_in)" "a_withdraws (collectActions b) = Some (by_token ?cs (paid_out user))"
    "a_createNotes (collectActions b) = Some (by_token ?cs created)"
    using g(1) by (simp_all add: collectActions_def grouped_def by_token_def comp_def Let_def) (simp_all add: built_def)
  have "same_per_token d_token (by_token ?cs paid_in) (concat (map action_deposits actions))"
    unfolding asked_calls [symmetric] by (rule by_token_filter) (auto simp: paid_in_def split: call.splits)
  moreover have "same_per_token wd_token (by_token ?cs (paid_out user)) (concat (map action_withdraws actions))"
    unfolding asked_calls(2) [of user, symmetric] by (rule by_token_filter) (auto simp: paid_out_def split: call.splits)
  moreover have "same_per_token c_token (by_token ?cs created) (concat (map action_notes actions))"
    unfolding asked_calls [symmetric] by (rule by_token_filter) (auto simp: created_def split: call.splits option.splits)
  ultimately show ?thesis
    using parts empty g translate_phase [OF assms] by (intro exI conjI) (simp_all add: collectActions_def Let_def)
qed

definition sample_shadow_lib :: shadow_lib where
  "sample_shadow_lib = \<lparr>encodeShortString = (\<lambda>s. Inr ''0x1''), getSelectorFromName = (\<lambda>s. ''0x2''),
     compileInvoke = (\<lambda>cs ns. Inr [''0x0'', ''0x3'']), shadow_starknet = sample_lib\<rparr>"

section \<open>Placeholders and open notes\<close>

lemma to_base_decimal_digits: "list_all decimal_digit (to_base 10 n)"
proof -
  have "c \<in> set (to_base 10 n) \<Longrightarrow> decimal_digit c" for c
    using to_base_digits [of 10 c n] by (auto simp: decimal_digit_def)
  then show ?thesis by (simp add: list_all_iff)
qed

lemma placeholder_index: "open_note_index (placeholder i) = Some i"
proof -
  define ds where "ds = to_base 10 i"
  have p: "placeholder i = ''${openNoteIds['' @ ds @ '']}''" by (simp add: placeholder_def int_toString_def ds_def)
  have dec: "\<forall>c \<in> set ds. decimal_digit c" using to_base_decimal_digits [of i] by (simp add: list_all_iff ds_def)
  have "\<not> decimal_digit (CHR '']'')" by code_simp
  then have "takeWhile decimal_digit (ds @ '']}'') = ds" using dec by (simp add: takeWhile_append2)
  moreover have "ds \<noteq> []" "parse_nat 10 ds = Some i" by (simp_all add: ds_def)
  ultimately show ?thesis by (simp add: open_note_index_def p)
qed

text \<open>
  C17: open notes and invocations fit together. Whatever the dapp does with its builder before and after it invokes a
  contract, the call builder is given one placeholder for each open note of the finished transaction;
  the core transaction creates as many open notes; and where the prover is given that many, the \<open>i\<close>-th
  placeholder is replaced by the id of the \<open>i\<close>-th of them, while an index past them is refused.
\<close>

theorem placeholders_resolve:
  assumes "client_step\<^sup>*\<^sup>* (createPrivacyBuilder user) b" "BigInt user = Inr u"
    "b1 = fst (cb_invoke f b) \<or> b1 = fst (cb_invokeWithComputation g b)" "client_step\<^sup>*\<^sup>* b1 b'"
    "translate S an (cb_actions b') (new_TransfersBuilder core_user opts) = (t, None)"
  shows "\<exists>n ns. pa_openNoteIds (invokeArgs b) = map placeholder [0..<n] \<and>
    a_createNotes (collectActions t) = Some ns \<and> length (filter (\<lambda>x. c_amount x = Open) ns) = n \<and>
    (\<forall>i args. substitute (BNString (placeholder i)) args =
       (if i < length (openNotes args) then Inr (hex_of (io_noteId (openNotes args ! i))) else Inl (AssertionError ''out of range'')))"
proof -
  have ids: "pa_openNoteIds (invokeArgs b) = map placeholder [0..<opens b']" by (rule placeholders_of_transaction [OF assms(1-4)])
  obtain ns where ns: "a_createNotes (collectActions t) = Some ns" "same_per_token c_token ns (concat (map action_notes (cb_actions b')))"
    using translate_exact [OF assms(5)] by blast
  have "length (filter (\<lambda>x. c_amount x = Open) ns) = length (filter (\<lambda>x. c_amount x = Open) (concat (map action_notes (cb_actions b'))))"
    by (rule same_per_token_count [OF ns(2)])
  also have "\<dots> = opens b'" unfolding opens_def by (rule open_action_notes)
  finally show ?thesis using ids ns(1)
    by (intro exI [of _ "opens b'"] exI [of _ ns]) (simp add: substitute_def placeholder_index)
qed

definition sample_builder :: PrivacyBuilder where
  "sample_builder = fst (cb_createOpenNote (BNBigint 10) (fst (cb_createOpenNote (BNBigint 11)
     (fst (cb_withdraw (BNBigint 10) (BNBigint 5) (BNBigint 9) (createPrivacyBuilder (BNBigint 7)))))))"

definition sample_invoke :: "PrivacyInvokeArgs \<Rightarrow> PrivacyInvokeDetails result" where
  "sample_invoke args = Inr \<lparr>pd_contractAddress = BNBigint 12, pd_calldata = Some [BNString (hd (pa_openNoteIds args)), BNString (pa_poolAddress args)]\<rparr>"

lemma sample_builder_run:
  "client_step\<^sup>*\<^sup>* (createPrivacyBuilder (BNBigint 7)) sample_builder"
  unfolding sample_builder_def
  by (meson client_step.withdraw client_step.open_note rtranclp.rtrancl_into_rtrancl rtranclp.rtrancl_refl)

lemma sample_builder_actions:
  "map s20_token (filter is_open (cb_actions sample_builder)) = [''0xb'', ''0xa'']"
  "pa_openNoteIds (invokeArgs sample_builder) = [placeholder 0, placeholder 1]"
  "snd (translate sample_shadow_lib None (cb_actions (fst (cb_invoke sample_invoke sample_builder))) (new_TransfersBuilder (BNBigint 7) None)) = None"
  by code_simp+

theorem placeholders_resolve_witness:
  "\<exists>t ns. translate sample_shadow_lib None (cb_actions (fst (cb_invoke sample_invoke sample_builder))) (new_TransfersBuilder (BNBigint 7) None) = (t, None) \<and>
     a_createNotes (collectActions t) = Some ns \<and> length (filter (\<lambda>x. c_amount x = Open) ns) = 2"
proof -
  let ?b1 = "fst (cb_invoke sample_invoke sample_builder)" and ?new = "new_TransfersBuilder (BNBigint 7) None"
  obtain t where t: "translate sample_shadow_lib None (cb_actions ?b1) ?new = (t, None)"
    using sample_builder_actions(3) by (metis prod.collapse)
  have "?b1 = fst (cb_invoke sample_invoke sample_builder) \<or> ?b1 = fst (cb_invokeWithComputation undefined sample_builder)" by (rule disjI1) (rule refl)
  from placeholders_resolve [OF sample_builder_run _ this rtranclp.rtrancl_refl t, of 7]
  obtain n ns where n: "pa_openNoteIds (invokeArgs sample_builder) = map placeholder [0..<n]"
    "a_createNotes (collectActions t) = Some ns" "length (filter (\<lambda>x. c_amount x = Open) ns) = n" by auto
  have "n = 2" using arg_cong [OF n(1), of length] by (simp add: sample_builder_actions(2))
  with t n show ?thesis by blast
qed

text \<open>
  The order differs, though: the core groups its notes by token, in the order of first use. Here the dapp creates an
  open note for token \<open>0xb\<close> and then one for \<open>0xa\<close>, which it has used before; \<open>${openNoteIds[0]}\<close>, meant for the
  first, is the position of the note for \<open>0xa\<close>.
\<close>

theorem open_notes_reordered:
  "map s20_token (filter is_open (cb_actions sample_builder)) = [''0xb'', ''0xa''] \<and>
   map_option (map c_token) (a_createNotes (collectActions (fst (translate sample_shadow_lib None
     (cb_actions (fst (cb_invoke sample_invoke sample_builder))) (new_TransfersBuilder (BNBigint 7) None))))) = Some [10, 11]"
  by (rule conjI, rule sample_builder_actions(1)) code_simp

section \<open>What a returned proof stands for\<close>

definition core_proves :: "CoreProver \<Rightarrow> Strk20Action list \<Rightarrow> Strk20WireCall \<times> Strk20Proof \<Rightarrow> bool" where
  "core_proves P actions cp \<longleftrightarrow> (\<exists>registry b r. loadRegistry (pc_storage (cp_config P)) = Inr registry \<and>
     translate (pc_shadow (cp_config P)) (Some (pc_anonymizer (cp_config P))) actions
       (new_TransfersBuilder (BNBigint (pt_user (cp_transfers P))) (Some (prover_options registry))) = (b, None) \<and>
     execute_actions (cp_env P) (cp_transfers P) (collectActions b) (asExecuteOptions (mergeOptions (prover_options registry) no_partial)) = Inr r \<and>
     cp = toStrk20CallAndProof r)"

lemma core_prove_real:
  assumes "snd (core_prove P actions False) = Inr cp"
  shows "core_proves P actions cp"
proof -
  obtain registry where reg: "loadRegistry (pc_storage (cp_config P)) = Inr registry"
    using assms by (auto simp: core_prove_def Let_def split: sum.splits)
  let ?new = "new_TransfersBuilder (BNBigint (pt_user (cp_transfers P))) (Some (prover_options registry))"
  obtain b where b: "translate (pc_shadow (cp_config P)) (Some (pc_anonymizer (cp_config P))) actions ?new = (b, None)"
    using assms reg by (auto simp: core_prove_def Let_def split: prod.splits option.splits)
  have o: "pb_buildOptions b = prover_options registry" using translate_grouped [OF b] by (simp add: new_TransfersBuilder_def)
  from assms reg b o show ?thesis
    by (auto simp: core_proves_def core_prove_def Let_def collectActionsAndOptions_def split: sum.splits)
qed

lemma core_prove_saves:
  "fst (core_prove P actions True) = []"
  "fst (core_prove P actions False) = (case snd (core_prove P actions False) of Inl e \<Rightarrow> [] | Inr cp \<Rightarrow> fst (core_prove P actions False))"
  "snd (core_prove P actions False) = Inr cp \<Longrightarrow> length (fst (core_prove P actions False)) = 1"
  by (auto simp: core_prove_def Let_def collectActionsAndOptions_def split: sum.splits prod.splits option.splits)

end
