(* ===== verification/Client_Wallet.thy ===== *)
theory Client_Wallet
  imports Client_Prover
begin

text \<open>
  Sponsored submission: the paymaster client (\<open>client/src/paymaster.ts\<close>, \<open>json.ts\<close>) and the wallet that
  proves with the client's prover and broadcasts through the paymaster (\<open>client/src/sdk-wallet.ts\<close>). The
  HTTP transport, the signer and the library's \<open>cairo.uint256\<close> and \<open>signatureToHexArray\<close> are parameters. The
  theorems: the proof that is broadcast is for the caller's actions and the quoted fee; and a deposit is
  approved for exactly its amount.
\<close>

section \<open>The paymaster client\<close>

record PaymasterFeeMode =
  fm_mode :: string
  fm_poolFeeToken :: string
  fm_tip :: "string option"

record PaymasterFeeAction =
  fa_recipient :: string
  fa_token :: string
  fa_amount :: string

record PaymasterCall =
  pm_to :: string
  pm_selector :: string
  pm_calldata :: "string list"

datatype PaymasterBuild = BuildApplyAction string | BuildInvokeAndApply string string "PaymasterCall list"

record PaymasterQuote =
  pq_feeAction :: PaymasterFeeAction
  pq_typedData :: "json option"

record ExecuteBase =
  eb_applyActionsCall :: PaymasterCall
  eb_proof :: string
  eb_proofFacts :: "string list"

datatype PaymasterExecute = ExecApplyAction ExecuteBase | ExecInvokeAndApply ExecuteBase string json "string list"

definition toPaymasterCall :: "signer_lib \<Rightarrow> ClientCall \<Rightarrow> PaymasterCall result" where
  "toPaymasterCall S c = bindR (mapR num_toHex (optl (cc_calldata c))) (\<lambda>d.
     Inr \<lparr>pm_to = cc_contractAddress c, pm_selector = signer_lib.getSelectorFromName S (cc_entrypoint c), pm_calldata = d\<rparr>)"

record AvnuOptions =
  av_url :: string
  av_feeMode :: PaymasterFeeMode
  av_apiKey :: "string option"

definition avnu_parameters :: "PaymasterFeeMode \<Rightarrow> json" where
  "avnu_parameters m = JObject [(''version'', JString ''0x1''),
     (''fee_mode'', JObject ([(''mode'', JString (fm_mode m)), (''pool_fee_token'', JString (fm_poolFeeToken m))] @
        (case fm_tip m of None \<Rightarrow> [] | Some t \<Rightarrow> [(''tip'', JString t)])))]"

definition call_json :: "PaymasterCall \<Rightarrow> json" where
  "call_json c = JObject [(''to'', JString (pm_to c)), (''selector'', JString (pm_selector c)), (''calldata'', JArray (map JString (pm_calldata c)))]"

definition build_transaction_json :: "PaymasterBuild \<Rightarrow> json" where
  "build_transaction_json b = (case b of
      BuildApplyAction pool \<Rightarrow>
        JObject [(''type'', JString ''apply_action''), (''apply_action'', JObject [(''pool_address'', JString pool)])]
    | BuildInvokeAndApply pool user calls \<Rightarrow>
        JObject [(''type'', JString ''invoke_and_apply_action''), (''apply_action'', JObject [(''pool_address'', JString pool)]),
                 (''invoke'', JObject [(''user_address'', JString user), (''calls'', JArray (map call_json calls))])])"

definition apply_action_json :: "ExecuteBase \<Rightarrow> json" where
  "apply_action_json e = JObject [(''apply_actions_call'', call_json (eb_applyActionsCall e)), (''proof'', JString (eb_proof e)),
     (''proof_facts'', JArray (map JString (eb_proofFacts e)))]"

definition execute_transaction_json :: "PaymasterExecute \<Rightarrow> json" where
  "execute_transaction_json e = (case e of
      ExecApplyAction base \<Rightarrow> JObject [(''type'', JString ''apply_action''), (''apply_action'', apply_action_json base)]
    | ExecInvokeAndApply base user typedData signature \<Rightarrow>
        JObject [(''type'', JString ''invoke_and_apply_action''), (''apply_action'', apply_action_json base),
                 (''invoke'', JObject [(''user_address'', JString user), (''typed_data'', typedData),
                    (''signature'', JArray (map JString signature))])])"

text \<open>
  \<open>JSON_stringify\<close> is the language's with the replacer for bigints, \<open>None\<close> where it throws or answers \<open>undefined\<close>.
\<close>

record js_text =
  JSON_stringify :: "json \<Rightarrow> string option"
  js_String :: "json \<Rightarrow> string"

definition safeStringify :: "js_text \<Rightarrow> json \<Rightarrow> string" where
  "safeStringify J v = (case JSON_stringify J v of Some s \<Rightarrow> s | None \<Rightarrow> js_String J v)"

record PaymasterError =
  pe_message :: string
  pe_code :: int
  pe_data :: "json option"

record 'r PaymasterResponse =
  pr_result :: "'r option"
  pr_error :: "PaymasterError option"

definition error_detail :: "js_text \<Rightarrow> json option \<Rightarrow> string" where
  "error_detail J data = (case data of
      Some (JString s) \<Rightarrow> '': '' @ s
    | Some (JObject m) \<Rightarrow> '': '' @ (case jm_get m ''execution_error'' of Some (JString s) \<Rightarrow> s | _ \<Rightarrow> safeStringify J (JObject m))
    | Some (JArray xs) \<Rightarrow> '': '' @ safeStringify J (JArray xs)
    | _ \<Rightarrow> '''')"

definition rpc_headers :: "AvnuOptions \<Rightarrow> (string \<times> string) list" where
  "rpc_headers o' = (''Content-Type'', ''application/json'') #
     (case av_apiKey o' of Some k \<Rightarrow> if k \<noteq> [] then [(''x-paymaster-api-key'', k)] else [] | None \<Rightarrow> [])"

definition rpc_body :: "string \<Rightarrow> json \<Rightarrow> json" where
  "rpc_body method params = JObject [(''jsonrpc'', JString ''2.0''), (''id'', JNum 1), (''method'', JString method), (''params'', params)]"

type_synonym 'r transport = "string \<Rightarrow> (string \<times> string) list \<Rightarrow> json \<Rightarrow> 'r PaymasterResponse result"

definition rpc :: "js_text \<Rightarrow> AvnuOptions \<Rightarrow> 'r transport \<Rightarrow> string \<Rightarrow> json \<Rightarrow> 'r result" where
  "rpc J o' post method params = bindR (post (av_url o') (rpc_headers o') (rpc_body method params)) (\<lambda>response.
     case pr_error response of
       Some e \<Rightarrow> Inl (RpcError (pe_code e) (''Paymaster '' @ method @ '': '' @ pe_message e) (Some (error_detail J (pe_data e))))
     | None \<Rightarrow> (case pr_result response of None \<Rightarrow> Inl NoResult | Some r \<Rightarrow> Inr r))"

definition transaction_params :: "AvnuOptions \<Rightarrow> json \<Rightarrow> json" where
  "transaction_params o' transaction = JObject [(''transaction'', transaction), (''parameters'', avnu_parameters (av_feeMode o'))]"

definition avnu_buildTransaction :: "js_text \<Rightarrow> AvnuOptions \<Rightarrow> PaymasterQuote transport \<Rightarrow> PaymasterBuild \<Rightarrow> PaymasterQuote result" where
  "avnu_buildTransaction J o' post build =
     rpc J o' post ''paymaster_buildTransaction'' (transaction_params o' (build_transaction_json build))"

definition avnu_executeTransaction :: "js_text \<Rightarrow> AvnuOptions \<Rightarrow> string transport \<Rightarrow> PaymasterExecute \<Rightarrow> string result" where
  "avnu_executeTransaction J o' post request =
     rpc J o' post ''paymaster_executeTransaction'' (transaction_params o' (execute_transaction_json request))"

section \<open>The wallet\<close>

record 's SdkWallet =
  sw_prove :: "Strk20Action list \<Rightarrow> bool \<Rightarrow> (Strk20WireCall \<times> Strk20Proof) result"
  sw_partialCommitment :: "string \<Rightarrow> int result"
  sw_buildTransaction :: "PaymasterBuild \<Rightarrow> PaymasterQuote result"
  sw_executeTransaction :: "PaymasterExecute \<Rightarrow> string result"
  sw_pool :: bignum
  sw_user :: bignum
  sw_signMessage :: "json \<Rightarrow> string \<Rightarrow> 's result"
  sw_signatureToHexArray :: "'s \<Rightarrow> string list"
  sw_lib :: signer_lib
  sw_uint256 :: "int \<Rightarrow> (bignum \<times> bignum) result"

definition approveCall :: "'s SdkWallet \<Rightarrow> string \<Rightarrow> string \<Rightarrow> string \<Rightarrow> PaymasterCall result" where
  "approveCall W pool token amount =
     bindR (BigInt (BNString amount)) (\<lambda>n.
     bindR (sw_uint256 W n) (\<lambda>(low, high).
     bindR (num_toHex low) (\<lambda>l. bindR (num_toHex high) (\<lambda>h.
     toPaymasterCall (sw_lib W) \<lparr>cc_contractAddress = token, cc_entrypoint = ''approve'',
        cc_calldata = Some [BNString pool, BNString l, BNString h]\<rparr>))))"

fun is_deposit :: "Strk20Action \<Rightarrow> bool" where
  "is_deposit (S20Deposit _ _) = True"
| "is_deposit _ = False"

definition approveCalls :: "'s SdkWallet \<Rightarrow> Strk20Action list \<Rightarrow> PaymasterCall list result" where
  "approveCalls W actions = mapR (\<lambda>a. approveCall W (String_of (sw_pool W)) (s20_token a) (s20_amount a)) (filter is_deposit actions)"

definition feeWithdraw :: "PaymasterFeeAction \<Rightarrow> Strk20Action" where
  "feeWithdraw f = S20Withdraw (fa_token f) (fa_amount f) (fa_recipient f)"

definition paymaster_build :: "'s SdkWallet \<Rightarrow> PaymasterCall list \<Rightarrow> PaymasterBuild" where
  "paymaster_build W approvals =
     (if approvals \<noteq> [] then BuildInvokeAndApply (String_of (sw_pool W)) (String_of (sw_user W)) approvals
      else BuildApplyAction (String_of (sw_pool W)))"

definition executeRequest :: "'s SdkWallet \<Rightarrow> PaymasterCall list \<Rightarrow> json option \<Rightarrow> ExecuteBase \<Rightarrow> PaymasterExecute result" where
  "executeRequest W approvals typedData base = (case typedData of
      Some d \<Rightarrow>
        if approvals \<noteq> [] \<and> json_truthy (Some d)
        then bindR (sw_signMessage W d (String_of (sw_user W))) (\<lambda>sig.
             Inr (ExecInvokeAndApply base (String_of (sw_user W)) d (sw_signatureToHexArray W sig)))
        else Inr (ExecApplyAction base)
    | None \<Rightarrow> Inr (ExecApplyAction base))"

text \<open>The request that was broadcast, and the transaction hash.\<close>

definition sw_strk20InvokeTransaction :: "'s SdkWallet \<Rightarrow> Strk20Action list \<Rightarrow> (PaymasterExecute \<times> string) result" where
  "sw_strk20InvokeTransaction W actions =
     bindR (approveCalls W actions) (\<lambda>approvals.
     bindR (sw_buildTransaction W (paymaster_build W approvals)) (\<lambda>quote.
     bindR (sw_prove W (actions @ [feeWithdraw (pq_feeAction quote)]) False) (\<lambda>(call, proof).
     bindR (toPaymasterCall (sw_lib W) (toStarknetCall call)) (\<lambda>applyCall.
     bindR (executeRequest W approvals (pq_typedData quote)
              \<lparr>eb_applyActionsCall = applyCall, eb_proof = s20_data proof, eb_proofFacts = s20_proof_facts proof\<rparr>) (\<lambda>request.
     bindR (sw_executeTransaction W request) (\<lambda>txHash.
     Inr (request, txHash)))))))"

definition sw_strk20PrepareInvoke :: "'s SdkWallet \<Rightarrow> Strk20Action list \<Rightarrow> bool option \<Rightarrow> (Strk20WireCall \<times> Strk20Proof) result" where
  "sw_strk20PrepareInvoke W actions simulated = sw_prove W actions (simulated = Some True)"

definition sw_executeWithProof :: "ClientCall list \<Rightarrow> string result" where
  "sw_executeWithProof calls = Inl (AssertionError ''SdkWallet: submitting a pre-proved call with surrounding calls is not supported'')"

definition sw_estimateInvokeFee :: "ClientCall list \<Rightarrow> 'f result" where
  "sw_estimateInvokeFee calls = Inl (AssertionError ''SdkWallet: fee estimation via the paymaster is not yet implemented'')"

text \<open>The wallet as the dapp's client sees it.\<close>

definition sdk_wallet :: "'s SdkWallet \<Rightarrow> (Strk20Proof, 'f) PrivacyWallet" where
  "sdk_wallet W = \<lparr>wl_partialCommitment = sw_partialCommitment W,
     wl_prepare = (\<lambda>as s. sw_strk20PrepareInvoke W as (Some s)),
     wl_invoke = (\<lambda>as. bindR (sw_strk20InvokeTransaction W as) (\<lambda>(request, txHash). Inr txHash)),
     wl_execute = (\<lambda>calls p. sw_executeWithProof calls), wl_estimate = sw_estimateInvokeFee\<rparr>"

fun request_base :: "PaymasterExecute \<Rightarrow> ExecuteBase" where
  "request_base (ExecApplyAction base) = base"
| "request_base (ExecInvokeAndApply base _ _ _) = base"

section \<open>The wallet over any prover\<close>

lemma wallet_prover_simps [simp]:
  "approveCalls (W\<lparr>sw_prove := p\<rparr>) = approveCalls W" "approveCalls (W\<lparr>sw_partialCommitment := c\<rparr>) = approveCalls W"
  "paymaster_build (W\<lparr>sw_prove := p\<rparr>) = paymaster_build W" "paymaster_build (W\<lparr>sw_partialCommitment := c\<rparr>) = paymaster_build W"
  "executeRequest (W\<lparr>sw_prove := p\<rparr>) = executeRequest W" "executeRequest (W\<lparr>sw_partialCommitment := c\<rparr>) = executeRequest W"
  by (simp_all add: approveCalls_def approveCall_def paymaster_build_def executeRequest_def fun_eq_iff split: option.split)

text \<open>
  The prover's contract: what it returns for actions that are not simulated stands for a proof of them.
\<close>

locale strk20_prover =
  fixes prover :: "Strk20Action list \<Rightarrow> bool \<Rightarrow> (Strk20WireCall \<times> Strk20Proof) result"
    and proves :: "Strk20Action list \<Rightarrow> Strk20WireCall \<times> Strk20Proof \<Rightarrow> bool"
  assumes proved: "prover actions False = Inr cp \<Longrightarrow> proves actions cp"
begin

lemma broadcast_proof:
  assumes "sw_strk20InvokeTransaction (W\<lparr>sw_prove := prover\<rparr>) actions = Inr (request, txHash)"
  shows "\<exists>approvals quote cp. approveCalls W actions = Inr approvals \<and> sw_buildTransaction W (paymaster_build W approvals) = Inr quote \<and>
    proves (actions @ [feeWithdraw (pq_feeAction quote)]) cp \<and>
    toPaymasterCall (sw_lib W) (toStarknetCall (fst cp)) = Inr (eb_applyActionsCall (request_base request)) \<and>
    eb_proof (request_base request) = s20_data (snd cp) \<and> eb_proofFacts (request_base request) = s20_proof_facts (snd cp) \<and>
    executeRequest W approvals (pq_typedData quote) (request_base request) = Inr request \<and>
    sw_executeTransaction W request = Inr txHash"
proof -
  from assms obtain approvals quote call p applyCall base where *:
    "approveCalls W actions = Inr approvals" "sw_buildTransaction W (paymaster_build W approvals) = Inr quote"
    "prover (actions @ [feeWithdraw (pq_feeAction quote)]) False = Inr (call, p)"
    "toPaymasterCall (sw_lib W) (toStarknetCall call) = Inr applyCall"
    "base = \<lparr>eb_applyActionsCall = applyCall, eb_proof = s20_data p, eb_proofFacts = s20_proof_facts p\<rparr>"
    "executeRequest W approvals (pq_typedData quote) base = Inr request" "sw_executeTransaction W request = Inr txHash"
    by (auto simp: sw_strk20InvokeTransaction_def bindR_eq_Inr)
  have "request_base request = base" using *(6) by (auto simp: executeRequest_def bindR_eq_Inr split: option.splits if_splits)
  with * proved [OF *(3)] show ?thesis by (intro exI [of _ approvals] exI [of _ quote] exI [of _ "(call, p)"]) auto
qed

end

interpretation core: strk20_prover "\<lambda>actions simulated. snd (core_prove P actions simulated)" "core_proves P" for P
  by unfold_locales (rule core_prove_real)

section \<open>Sponsored submission\<close>

lemma paymaster_call_to: "toPaymasterCall S c = Inr p \<Longrightarrow> pm_to p = cc_contractAddress c"
  by (auto simp: toPaymasterCall_def bindR_eq_Inr dest: sym)

definition over_prover :: "'s SdkWallet \<Rightarrow> CoreProver \<Rightarrow> 's SdkWallet" where
  "over_prover W P = W\<lparr>sw_prove := (\<lambda>actions simulated. snd (core_prove P actions simulated)), sw_partialCommitment := core_partialCommitment P\<rparr>"

definition fee_withdrawal :: "PaymasterFeeAction \<Rightarrow> WithdrawAction" where
  "fee_withdrawal f = \<lparr>wd_recipient = amount_of (fa_recipient f), wd_token = amount_of (fa_token f), wd_amount = amount_of (fa_amount f)\<rparr>"

lemma over_prover_same:
  "sw_strk20InvokeTransaction (over_prover W P) = sw_strk20InvokeTransaction (W\<lparr>sw_prove := (\<lambda>actions simulated. snd (core_prove P actions simulated))\<rparr>)"
  by (simp add: over_prover_def sw_strk20InvokeTransaction_def fun_eq_iff)

lemma sponsored_run:
  assumes "sw_strk20InvokeTransaction (over_prover W P) actions = Inr (request, txHash)"
  shows "\<exists>approvals quote acts opts r ds ws ns. approveCalls W actions = Inr approvals \<and>
    sw_buildTransaction W (paymaster_build W approvals) = Inr quote \<and>
    execute_actions (cp_env P) (cp_transfers P) acts opts = Inr r \<and>
    eb_proof (request_base request) = p_data (er_proof r) \<and> eb_proofFacts (request_base request) = proofFacts (er_proof r) \<and>
    pm_to (eb_applyActionsCall (request_base request)) = call_contractAddress (er_call r) \<and>
    a_withdraws acts = Some ws \<and> same_per_token wd_token ws (concat (map action_withdraws actions) @ [fee_withdrawal (pq_feeAction quote)]) \<and>
    a_deposits acts = Some ds \<and> same_per_token d_token ds (concat (map action_deposits actions)) \<and>
    a_createNotes acts = Some ns \<and> same_per_token c_token ns (concat (map action_notes actions)) \<and>
    sw_executeTransaction W request = Inr txHash"
proof -
  from core.broadcast_proof [OF assms [unfolded over_prover_same]] obtain approvals quote cp where q:
    "approveCalls W actions = Inr approvals" "sw_buildTransaction W (paymaster_build W approvals) = Inr quote"
    "core_proves P (actions @ [feeWithdraw (pq_feeAction quote)]) cp"
    "toPaymasterCall (sw_lib W) (toStarknetCall (fst cp)) = Inr (eb_applyActionsCall (request_base request))"
    "eb_proof (request_base request) = s20_data (snd cp)" "eb_proofFacts (request_base request) = s20_proof_facts (snd cp)"
    "sw_executeTransaction W request = Inr txHash" by blast
  from q(3) obtain registry b r where r:
    "translate (pc_shadow (cp_config P)) (Some (pc_anonymizer (cp_config P))) (actions @ [feeWithdraw (pq_feeAction quote)])
       (new_TransfersBuilder (BNBigint (pt_user (cp_transfers P))) (Some (prover_options registry))) = (b, None)"
    "execute_actions (cp_env P) (cp_transfers P) (collectActions b) (asExecuteOptions (mergeOptions (prover_options registry) no_partial)) = Inr r"
    "cp = toStrk20CallAndProof r" unfolding core_proves_def by blast
  from translate_exact [OF r(1)] obtain ds ws ns where t:
    "a_deposits (collectActions b) = Some ds" "same_per_token d_token ds (concat (map action_deposits (actions @ [feeWithdraw (pq_feeAction quote)])))"
    "a_withdraws (collectActions b) = Some ws" "same_per_token wd_token ws (concat (map action_withdraws (actions @ [feeWithdraw (pq_feeAction quote)])))"
    "a_createNotes (collectActions b) = Some ns" "same_per_token c_token ns (concat (map action_notes (actions @ [feeWithdraw (pq_feeAction quote)])))"
    by blast
  have "pm_to (eb_applyActionsCall (request_base request)) = call_contractAddress (er_call r)"
    using paymaster_call_to [OF q(4)] r(3) by (simp add: toStrk20CallAndProof_def toStarknetCall_def toStrk20Call_def Let_def)
  moreover have "eb_proof (request_base request) = p_data (er_proof r)" "eb_proofFacts (request_base request) = proofFacts (er_proof r)"
    using q(5,6) r(3) by (simp_all add: toStrk20CallAndProof_def Let_def)
  moreover have "concat (map action_withdraws (actions @ [feeWithdraw (pq_feeAction quote)])) = concat (map action_withdraws actions) @ [fee_withdrawal (pq_feeAction quote)]"
    "concat (map action_deposits (actions @ [feeWithdraw (pq_feeAction quote)])) = concat (map action_deposits actions)"
    "concat (map action_notes (actions @ [feeWithdraw (pq_feeAction quote)])) = concat (map action_notes actions)"
    by (simp_all add: feeWithdraw_def fee_withdrawal_def)
  ultimately show ?thesis using q(1,2,7) r(2) t by (intro exI conjI) (assumption | simp only:)+
qed

definition sample_prover :: CoreProver where
  "sample_prover = \<lparr>cp_transfers = sample_transfers, cp_env = sample_env,
     cp_config = \<lparr>pc_address = BNBigint 1, pc_passphrase = ''secret'', pc_node = sample_node, pc_env = sample_env, pc_hashElements = (\<lambda>_. ''0x5''),
       pc_shadow = sample_shadow_lib, pc_pool = BNBigint 9, pc_anonymizer = BNBigint 4,
       pc_storage = \<lparr>loadRegistry = Inr \<lparr>reg_channels = [], reg_notes = [], reg_notes_factory = True, reg_cursor = None\<rparr>, saveRegistry = (\<lambda>_. Inr ())\<rparr>\<rparr>\<rparr>"

definition sample_sdk_wallet :: "json option \<Rightarrow> string SdkWallet" where
  "sample_sdk_wallet typedData = \<lparr>sw_prove = (\<lambda>_ _. Inl NoResult), sw_partialCommitment = (\<lambda>_. Inl NoResult),
     sw_buildTransaction = (\<lambda>_. Inr \<lparr>pq_feeAction = \<lparr>fa_recipient = ''0x32'', fa_token = ''0x8'', fa_amount = ''0x3''\<rparr>, pq_typedData = typedData\<rparr>),
     sw_executeTransaction = (\<lambda>_. Inr ''0x99''), sw_pool = BNString ''0x9'', sw_user = BNString ''0x1'',
     sw_signMessage = (\<lambda>_ _. Inr ''sig''), sw_signatureToHexArray = (\<lambda>s. [s]),
     sw_lib = \<lparr>keccak_256 = id, textEncode = map of_char, getSelectorFromName = (\<lambda>s. s), hexToBytes = (\<lambda>_. Inr [])\<rparr>,
     sw_uint256 = (\<lambda>n. if 0 \<le> n \<and> n < 2 ^ 256 then Inr (BNString (hex_of (n mod 2 ^ 128)), BNString (hex_of (n div 2 ^ 128)))
       else Inl (AssertionError ''uint256''))\<rparr>"

definition sample_dapp_actions :: "Strk20Action list" where
  "sample_dapp_actions = [S20Deposit ''0x8'' ''0xa'', S20Transfer ''0x8'' ''0x7'' ''0x2'']"

definition sample_dapp_builder :: PrivacyBuilder where
  "sample_dapp_builder = fst (cb_transfer (BNBigint 8) (BNBigint 7) (BNBigint 2)
     (fst (cb_deposit (BNBigint 8) (BNBigint 10) (createPrivacyBuilder (BNBigint 1)))))"

lemma sample_submission:
  "case cb_submit (sdk_wallet (over_prover (sample_sdk_wallet None) sample_prover)) sample_dapp_builder of
     (_, Inr outcome) \<Rightarrow> True | _ \<Rightarrow> False"
  by code_simp

lemma sample_fee: "fee_withdrawal \<lparr>fa_recipient = ''0x32'', fa_token = ''0x8'', fa_amount = ''0x3''\<rparr> = \<lparr>wd_recipient = 50, wd_token = 8, wd_amount = 3\<rparr>"
  by code_simp

lemma submit_over_wallet:
  assumes "cb_submit (sdk_wallet W) b = (requests, Inr outcome)"
  shows "requests = [InvokeTransaction (cb_actions b)] \<and>
    (\<exists>request txHash. sw_strk20InvokeTransaction W (cb_actions b) = Inr (request, txHash) \<and> outcome = TransactionHash txHash)"
  using assms by (auto simp: cb_submit_def submit_def no_submit_options_def sdk_wallet_def bindR_eq_Inr)

section \<open>Deposits\<close>

text \<open>
  \<open>cairo.uint256\<close> as the library documents it: the low and the high half of a value below \<open>2^256\<close>.
\<close>

definition uint256_ok :: "(int \<Rightarrow> (bignum \<times> bignum) result) \<Rightarrow> bool" where
  "uint256_ok split \<longleftrightarrow> (\<forall>n low high. split n = Inr (low, high) \<longrightarrow> 0 \<le> n \<and> n < 2 ^ 256 \<and>
     BigInt low = Inr (n mod 2 ^ 128) \<and> BigInt high = Inr (n div 2 ^ 128))"

definition approves :: "'s SdkWallet \<Rightarrow> Strk20Action \<Rightarrow> PaymasterCall \<Rightarrow> bool" where
  "approves W deposit c \<longleftrightarrow> pm_to c = s20_token deposit \<and> pm_selector c = signer_lib.getSelectorFromName (sw_lib W) ''approve'' \<and>
     (\<exists>pool low high. pm_calldata c = map hex_of [pool, low, high] \<and> BigInt (BNString (String_of (sw_pool W))) = Inr pool \<and>
        0 \<le> low \<and> low < 2 ^ 128 \<and> 0 \<le> high \<and> high * 2 ^ 128 + low = amount_of (s20_amount deposit))"

lemma approveCall_exact:
  assumes "uint256_ok (sw_uint256 W)" "approveCall W (String_of (sw_pool W)) (s20_token d) (s20_amount d) = Inr c"
  shows "approves W d c"
proof -
  obtain n low high where n: "BigInt (BNString (s20_amount d)) = Inr n" "sw_uint256 W n = Inr (low, high)"
    using assms(2) by (auto simp: approveCall_def bindR_eq_Inr simp del: BigInt.simps)
  then have u: "0 \<le> n" "n < 2 ^ 256" "BigInt low = Inr (n mod 2 ^ 128)" "BigInt high = Inr (n div 2 ^ 128)"
    using assms(1) unfolding uint256_ok_def by blast+
  have nn: "0 \<le> n mod 2 ^ 128" "n mod 2 ^ 128 < 2 ^ 128" "0 \<le> n div 2 ^ 128"
    using u(1) by (simp_all add: pos_imp_zdiv_nonneg_iff del: power_numeral)
  have hex: "num_toHex low = Inr (hex_of (n mod 2 ^ 128))" "num_toHex high = Inr (hex_of (n div 2 ^ 128))"
    using u(3,4) by (simp_all add: num_toHex_def del: power_numeral)
  have again: "num_toHex (BNString (hex_of (n mod 2 ^ 128))) = Inr (hex_of (n mod 2 ^ 128))"
    "num_toHex (BNString (hex_of (n div 2 ^ 128))) = Inr (hex_of (n div 2 ^ 128))"
    using nn by (simp_all add: num_toHex_def BigInt_hex_of del: BigInt.simps power_numeral)
  obtain pool where pool: "BigInt (BNString (String_of (sw_pool W))) = Inr pool" and
    c: "c = \<lparr>pm_to = s20_token d, pm_selector = signer_lib.getSelectorFromName (sw_lib W) ''approve'',
        pm_calldata = map hex_of [pool, n mod 2 ^ 128, n div 2 ^ 128]\<rparr>"
    using assms(2) n hex again
    by (auto simp: approveCall_def toPaymasterCall_def bindR_eq_Inr simp del: BigInt.simps power_numeral)
  have val: "amount_of (s20_amount d) = n" using n(1) by (simp add: amount_of_def bn_val_def toBigInt_def del: BigInt.simps)
  have "n div 2 ^ 128 * 2 ^ 128 + n mod 2 ^ 128 = amount_of (s20_amount d)" unfolding val by (rule div_mult_mod_eq)
  with nn pool c show ?thesis unfolding approves_def by (intro conjI exI [of _ pool] exI [of _ "n mod 2 ^ 128"] exI [of _ "n div 2 ^ 128"]) simp_all
qed


lemma sample_uint256: "uint256_ok (sw_uint256 (sample_sdk_wallet d))"
  unfolding uint256_ok_def sample_sdk_wallet_def SdkWallet.simps
proof (intro allI impI)
  fix n low high
  assume "(if 0 \<le> n \<and> n < 2 ^ 256 then Inr (BNString (hex_of (n mod 2 ^ 128)), BNString (hex_of (n div 2 ^ 128))) else Inl (AssertionError ''uint256''))
    = Inr (low, high)"
  then have n: "0 \<le> n" "n < 2 ^ 256" "low = BNString (hex_of (n mod 2 ^ 128))" "high = BNString (hex_of (n div 2 ^ 128))"
    by (auto simp del: power_numeral split: if_splits)
  have "0 \<le> n mod 2 ^ 128" "0 \<le> n div 2 ^ 128" using n(1) by (simp_all add: pos_imp_zdiv_nonneg_iff del: power_numeral)
  then show "0 \<le> n \<and> n < 2 ^ 256 \<and> BigInt low = Inr (n mod 2 ^ 128) \<and> BigInt high = Inr (n div 2 ^ 128)"
    unfolding n(3,4) using n(1,2) by (simp add: BigInt_hex_of del: BigInt.simps power_numeral)
qed


text \<open>
  Without typed data in the quote, a deposit is broadcast with no approval: the request is the private one.
\<close>

theorem deposit_without_approval:
  "case sw_strk20InvokeTransaction (over_prover (sample_sdk_wallet None) sample_prover) sample_dapp_actions of
     Inr (ExecApplyAction _, _) \<Rightarrow> True | _ \<Rightarrow> False"
  by code_simp

end
