(* ===== verification/Channel_Serde.thy ===== *)
theory Channel_Serde
  imports Interfaces Schemas
begin

text \<open>
  Storing channels and witnesses: the JSON helpers of \<open>sdk/src/utils/json.ts\<close> and the two serdes of
  \<open>sdk/src/internal/channel.ts\<close>. A JSON text is its tree. \<open>T\<close> is the language's \<open>ToPrimitive\<close> of an object, which
  \<open>BigInt(object)\<close> uses. The theorems: what the helpers write they read back; and a stored channel or
  witness is restored, with its public key as a bigint.
\<close>

section \<open>Values\<close>

datatype jsval =
    VUndefined
  | VNull
  | VBool bool
  | VNum rat
  | VStr string
  | VBig int
  | VArr "jsval list"
  | VObj "(string \<times> jsval) list"
  | VMap "(jsval \<times> jsval) list"
  | VSet "jsval list"

text \<open>Equality of map keys: primitives by value; objects that were just read are never the same.\<close>

fun same_value :: "jsval \<Rightarrow> jsval \<Rightarrow> bool" where
  "same_value (VArr _) _ = False"
| "same_value (VObj _) _ = False"
| "same_value (VMap _) _ = False"
| "same_value (VSet _) _ = False"
| "same_value a b = (a = b)"

fun map_add :: "(jsval \<times> 'v) list \<Rightarrow> jsval \<Rightarrow> 'v \<Rightarrow> (jsval \<times> 'v) list" where
  "map_add [] k v = [(k, v)]"
| "map_add ((a, b) # m) k v = (if same_value k a then (a, v) # m else (a, b) # map_add m k v)"

definition map_of_entries :: "(jsval \<times> 'v) list \<Rightarrow> (jsval \<times> 'v) list" where
  "map_of_entries es = foldl (\<lambda>m e. map_add m (fst e) (snd e)) [] es"

definition BigInt_js :: "(jsval \<Rightarrow> string) \<Rightarrow> jsval \<Rightarrow> int result" where
  "BigInt_js T v = (case v of
      VBig i \<Rightarrow> Inr i
    | VNum q \<Rightarrow> if snd (quotient_of q) = 1 then Inr (fst (quotient_of q)) else Inl (InvalidPayload ''not an integer'')
    | VStr s \<Rightarrow> BigInt (BNString s)
    | VBool b \<Rightarrow> Inr (if b then 1 else 0)
    | VUndefined \<Rightarrow> Inl (TypeError ''BigInt'')
    | VNull \<Rightarrow> Inl (TypeError ''BigInt'')
    | w \<Rightarrow> BigInt (BNString (T w)))"

section \<open>json.ts\<close>

definition BIGINT_PREFIX :: string where "BIGINT_PREFIX = ''__bigint__:''"
definition MAP_MARKER :: string where "MAP_MARKER = ''__map__''"
definition SET_MARKER :: string where "SET_MARKER = ''__set__''"

text \<open>\<open>None\<close> is the answer \<open>undefined\<close>: such a field is left out, such an element of an array becomes \<open>null\<close>.\<close>

fun jsonStringify :: "jsval \<Rightarrow> json option" where
  "jsonStringify VUndefined = None"
| "jsonStringify VNull = Some JNull"
| "jsonStringify (VBool b) = Some (JBool b)"
| "jsonStringify (VNum q) = Some (JNum q)"
| "jsonStringify (VStr s) = Some (JString s)"
| "jsonStringify (VBig i) = Some (JObject [(BIGINT_PREFIX, JString (int_toString 10 i))])"
| "jsonStringify (VArr xs) = Some (JArray (map (\<lambda>x. case jsonStringify x of Some t \<Rightarrow> t | None \<Rightarrow> JNull) xs))"
| "jsonStringify (VObj fs) = Some (JObject (concat (map (\<lambda>(k, v). case jsonStringify v of Some t \<Rightarrow> [(k, t)] | None \<Rightarrow> []) fs)))"
| "jsonStringify (VMap es) = Some (JObject [(MAP_MARKER, JArray (map (\<lambda>(k, v).
     JArray [case jsonStringify k of Some t \<Rightarrow> t | None \<Rightarrow> JNull, case jsonStringify v of Some t \<Rightarrow> t | None \<Rightarrow> JNull]) es))])"
| "jsonStringify (VSet xs) = Some (JObject [(SET_MARKER, JArray (map (\<lambda>x. case jsonStringify x of Some t \<Rightarrow> t | None \<Rightarrow> JNull) xs))])"

definition element :: "jsval list \<Rightarrow> nat \<Rightarrow> jsval" where
  "element xs i = (if i < length xs then xs ! i else VUndefined)"

definition property_of :: "(string \<times> jsval) list \<Rightarrow> string \<Rightarrow> jsval" where
  "property_of fs k = (case jm_get fs k of Some v \<Rightarrow> v | None \<Rightarrow> VUndefined)"

fun entry_of :: "jsval \<Rightarrow> (jsval \<times> jsval) result" where
  "entry_of (VArr xs) = Inr (element xs 0, element xs 1)"
| "entry_of (VObj fs) = Inr (property_of fs ''0'', property_of fs ''1'')"
| "entry_of (VMap _) = Inr (VUndefined, VUndefined)"
| "entry_of (VSet _) = Inr (VUndefined, VUndefined)"
| "entry_of _ = Inl (TypeError ''entry'')"

text \<open>The elements an iteration yields.\<close>

fun iterate :: "jsval \<Rightarrow> jsval list result" where
  "iterate VUndefined = Inr []"
| "iterate VNull = Inr []"
| "iterate (VArr xs) = Inr xs"
| "iterate (VSet xs) = Inr xs"
| "iterate (VMap es) = Inr (map (\<lambda>(k, v). VArr [k, v]) es)"
| "iterate (VStr s) = Inr (map (\<lambda>c. VStr [c]) s)"
| "iterate _ = Inl (TypeError ''not iterable'')"

definition new_Map :: "jsval \<Rightarrow> jsval result" where
  "new_Map v = bindR (iterate v) (\<lambda>xs. bindR (mapR entry_of xs) (\<lambda>es. Inr (VMap (map_of_entries es))))"

definition new_Set :: "jsval \<Rightarrow> jsval result" where
  "new_Set v = bindR (iterate v) (\<lambda>xs. Inr (VSet (map fst (map_of_entries (map (\<lambda>x. (x, ())) xs)))))"

text \<open>The reviver of \<open>jsonParse\<close>, applied to a value whose children are already revived.\<close>

definition revive :: "(jsval \<Rightarrow> string) \<Rightarrow> (string \<times> jsval) list \<Rightarrow> jsval result" where
  "revive T fs = (case jm_get fs BIGINT_PREFIX of
      Some v \<Rightarrow> bindR (BigInt_js T v) (\<lambda>i. Inr (VBig i))
    | None \<Rightarrow> (case jm_get fs MAP_MARKER of
        Some v \<Rightarrow> new_Map v
      | None \<Rightarrow> (case jm_get fs SET_MARKER of
          Some v \<Rightarrow> new_Set v
        | None \<Rightarrow> Inr (VObj fs))))"

fun jsonParse :: "(jsval \<Rightarrow> string) \<Rightarrow> json \<Rightarrow> jsval result" where
  "jsonParse T JNull = Inr VNull"
| "jsonParse T (JBool b) = Inr (VBool b)"
| "jsonParse T (JNum q) = Inr (VNum q)"
| "jsonParse T (JString s) = Inr (VStr s)"
| "jsonParse T (JArray ts) = bindR (mapR (jsonParse T) ts) (\<lambda>xs. Inr (VArr xs))"
| "jsonParse T (JObject fs) = bindR (mapR (\<lambda>f. bindR (jsonParse T (snd f)) (\<lambda>v. Inr (fst f, v))) fs) (revive T)"

section \<open>Validation\<close>

definition isUint :: "rat \<Rightarrow> bool" where
  "isUint q \<longleftrightarrow> snd (quotient_of q) = 1 \<and> 0 \<le> fst (quotient_of q)"

definition uint_of :: "rat \<Rightarrow> nat" where
  "uint_of q = nat (fst (quotient_of q))"

definition assertChannelKey :: "jsval \<Rightarrow> int result" where
  "assertChannelKey v = (case v of
      VBig i \<Rightarrow> Inr i
    | VNum q \<Rightarrow> BigInt_js (\<lambda>_. []) (VNum q)
    | VStr s \<Rightarrow> BigInt (BNString s)
    | _ \<Rightarrow> Inl (InvalidPayload ''Invalid channel key''))"

definition assertOptionalChannelKey :: "jsval \<Rightarrow> int option result" where
  "assertOptionalChannelKey v = (case v of
      VUndefined \<Rightarrow> Inr None | VNull \<Rightarrow> Inr None | w \<Rightarrow> bindR (assertChannelKey w) (\<lambda>k. Inr (Some k)))"

definition assertBigInt :: "jsval \<Rightarrow> int result" where
  "assertBigInt v = (case v of
      VBig i \<Rightarrow> Inr i
    | VNum q \<Rightarrow> BigInt_js (\<lambda>_. []) (VNum q)
    | VStr s \<Rightarrow> BigInt (BNString s)
    | _ \<Rightarrow> Inl (InvalidPayload ''Invalid bigint''))"

text \<open>Reading a property of a value that is not an object fails for \<open>undefined\<close> and \<open>null\<close> only.\<close>

definition field :: "jsval \<Rightarrow> string \<Rightarrow> jsval result" where
  "field v k = (case v of
      VUndefined \<Rightarrow> Inl (TypeError k) | VNull \<Rightarrow> Inl (TypeError k)
    | VObj fs \<Rightarrow> Inr (property_of fs k) | _ \<Rightarrow> Inr VUndefined)"

definition is_object :: "jsval \<Rightarrow> bool" where
  "is_object v = (case v of VArr _ \<Rightarrow> True | VObj _ \<Rightarrow> True | VMap _ \<Rightarrow> True | VSet _ \<Rightarrow> True | _ \<Rightarrow> False)"

definition assertUint :: "string \<Rightarrow> jsval \<Rightarrow> nat result" where
  "assertUint what v = (case v of
      VNum q \<Rightarrow> bindR (assertR (isUint q) (InvalidPayload what)) (\<lambda>_. Inr (uint_of q))
    | _ \<Rightarrow> Inl (InvalidPayload what))"

definition assertNoteNonce :: "jsval \<Rightarrow> nat result" where
  "assertNoteNonce v = (case v of
      VNum q \<Rightarrow> assertUint ''Invalid nonce'' (VNum q)
    | w \<Rightarrow> bindR (assertR (is_object w) (InvalidPayload ''Invalid nonce: expected number or object'')) (\<lambda>_.
           bindR (field w ''sequence'') (assertUint ''Invalid nonce: sequence'')))"

definition assertTokenIndex :: "jsval \<Rightarrow> nat result" where
  "assertTokenIndex v = (case v of
      VNum q \<Rightarrow> assertUint ''Invalid token index'' (VNum q)
    | w \<Rightarrow> bindR (assertR (is_object w) (InvalidPayload ''Invalid nonce: expected number or object'')) (\<lambda>_.
           bindR (field w ''sequence'') (assertUint ''Invalid nonce: sequence'')))"

definition assertTokenEntry :: "jsval \<Rightarrow> (jsval \<times> TokenChannel) result" where
  "assertTokenEntry entry = (case entry of
      VArr [token, nonces] \<Rightarrow>
        bindR (field nonces ''tokenIndex'') (\<lambda>ti. bindR (field nonces ''noteNonce'') (\<lambda>nn.
        bindR (assertTokenIndex ti) (\<lambda>i. bindR (assertNoteNonce nn) (\<lambda>n.
        Inr (token, \<lparr>tokenIndex = i, noteNonce = n\<rparr>)))))
    | _ \<Rightarrow> Inl (InvalidPayload ''Invalid token entry''))"

definition assertTokenEntries :: "jsval \<Rightarrow> (jsval \<times> TokenChannel) list result" where
  "assertTokenEntries v = (case v of
      VArr es \<Rightarrow> bindR (mapR assertTokenEntry es) (\<lambda>entries. Inr (map_of_entries entries))
    | _ \<Rightarrow> Inl (InvalidPayload ''Invalid tokens''))"

section \<open>The serdes\<close>

fun key_val :: "bignum \<Rightarrow> jsval" where
  "key_val (BNBigint i) = VBig i"
| "key_val (BNNumber i) = VNum (of_int i)"
| "key_val (BNString s) = VStr s"

definition token_val :: "int \<times> TokenChannel \<Rightarrow> jsval" where
  "token_val e = VArr [VBig (fst e),
     VObj [(''tokenIndex'', VNum (of_nat (tokenIndex (snd e)))), (''noteNonce'', VNum (of_nat (noteNonce (snd e))))]]"

definition channel_val :: "Channel \<Rightarrow> jsval" where
  "channel_val c = VObj [(''v'', VNum 1), (''key'', case key c of None \<Rightarrow> VUndefined | Some k \<Rightarrow> VBig k),
     (''recipientPublicKey'', key_val (publicKey c)), (''tokens'', VArr (map token_val (tokens c)))]"

definition channelSerde_encode :: "Channel \<Rightarrow> json option" where
  "channelSerde_encode c = jsonStringify (channel_val c)"

definition channelSerde_decode :: "(jsval \<Rightarrow> string) \<Rightarrow> json \<Rightarrow> Channel result" where
  "channelSerde_decode T blob = bindR (jsonParse T blob) (\<lambda>parsed.
     bindR (assertR (is_object parsed) (InvalidPayload ''Invalid channel payload'')) (\<lambda>_.
     bindR (field parsed ''key'') (\<lambda>k. bindR (field parsed ''recipientPublicKey'') (\<lambda>pk. bindR (field parsed ''tokens'') (\<lambda>toks.
     bindR (assertOptionalChannelKey k) (\<lambda>decodedKey.
     bindR (assertChannelKey pk) (\<lambda>decodedPublicKey.
     bindR (assertTokenEntries toks) (\<lambda>decodedTokens.
     bindR (mapR (\<lambda>e. bindR (BigInt_js T (fst e)) (\<lambda>t. Inr (t, snd e))) decodedTokens) (\<lambda>entries.
     Inr (new_Channel (BNBigint decodedPublicKey) decodedKey entries))))))))))"

definition witness_val :: "Witness \<Rightarrow> jsval" where
  "witness_val w = VObj [(''v'', VNum 1), (''channelKey'', VBig (w_channelKey w)),
     (''nonce'', VObj [(''sequence'', VNum (of_nat (w_nonce w)))]), (''r'', VBig (w_r w))]"

definition witnessSerde_encode :: "Witness \<Rightarrow> json option" where
  "witnessSerde_encode w = jsonStringify (witness_val w)"

definition witnessSerde_decode :: "(jsval \<Rightarrow> string) \<Rightarrow> json \<Rightarrow> Witness result" where
  "witnessSerde_decode T blob = bindR (jsonParse T blob) (\<lambda>parsed.
     bindR (assertR (is_object parsed) (InvalidPayload ''Invalid witness payload'')) (\<lambda>_.
     bindR (field parsed ''channelKey'') (\<lambda>k. bindR (field parsed ''nonce'') (\<lambda>n. bindR (field parsed ''r'') (\<lambda>r.
     bindR (assertChannelKey k) (\<lambda>decodedChannelKey.
     bindR (assertNoteNonce n) (\<lambda>decodedNonce.
     bindR (assertBigInt r) (\<lambda>decodedR.
     Inr \<lparr>w_channelKey = decodedChannelKey, w_nonce = decodedNonce, w_r = decodedR\<rparr>))))))))"

section \<open>What is written is read back\<close>

fun pairwise_new :: "jsval list \<Rightarrow> bool" where
  "pairwise_new [] = True"
| "pairwise_new (x # xs) = (list_all (\<lambda>y. \<not> same_value y x) xs \<and> pairwise_new xs)"

fun storable :: "jsval \<Rightarrow> bool" where
  "storable VUndefined = False"
| "storable (VArr xs) = list_all storable xs"
| "storable (VObj fs) = (list_all (\<lambda>f. storable (snd f)) fs \<and> list_all (\<lambda>f. fst f \<notin> {BIGINT_PREFIX, MAP_MARKER, SET_MARKER}) fs)"
| "storable (VMap es) = (list_all (\<lambda>e. storable (fst e) \<and> storable (snd e)) es \<and> pairwise_new (map fst es))"
| "storable (VSet xs) = (list_all storable xs \<and> pairwise_new xs)"
| "storable _ = True"

lemma map_add_new: "list_all (\<lambda>a. \<not> same_value k (fst a)) m \<Longrightarrow> map_add m k v = m @ [(k, v)]"
  by (induction m k v rule: map_add.induct) auto

lemma foldl_map_add:
  "pairwise_new (map fst (m @ es)) \<Longrightarrow> foldl (\<lambda>m e. map_add m (fst e) (snd e)) m es = m @ es"
proof (induction es arbitrary: m)
  case (Cons e es)
  have new: "pairwise_new (xs @ y # ys) \<Longrightarrow> list_all (\<lambda>x. \<not> same_value y x) xs" for xs y ys
    by (induction xs) auto
  have "list_all (\<lambda>a. \<not> same_value (fst e) (fst a)) m"
    using new [of "map fst m" "fst e" "map fst es"] Cons.prems by (simp add: list_all_iff)
  then have "map_add m (fst e) (snd e) = m @ [e]" by (simp add: map_add_new)
  with Cons.IH [of "m @ [e]"] Cons.prems show ?case by simp
qed simp

lemma map_of_entries_id: "pairwise_new (map fst es) \<Longrightarrow> map_of_entries es = es"
  using foldl_map_add [of "[]" es] by (simp add: map_of_entries_def)

lemma storable_text: "storable v \<Longrightarrow> \<exists>t. jsonStringify v = Some t"
  by (cases v) auto

abbreviation tree_of :: "jsval \<Rightarrow> json" where
  "tree_of v \<equiv> the (jsonStringify v)"

lemma storable_tree [simp]:
  "storable v \<Longrightarrow> (case jsonStringify v of Some t \<Rightarrow> t | None \<Rightarrow> JNull) = tree_of v"
  "storable v \<Longrightarrow> (case jsonStringify v of Some t \<Rightarrow> [(k, t)] | None \<Rightarrow> []) = [(k, tree_of v)]"
  using storable_text [of v] by auto

lemma tree_elements: "list_all storable xs \<Longrightarrow> map (\<lambda>x. case jsonStringify x of Some t \<Rightarrow> t | None \<Rightarrow> JNull) xs = map tree_of xs"
  by (induction xs) auto

lemma tree_fields:
  "list_all (\<lambda>f. storable (snd f)) fs \<Longrightarrow>
     concat (map (\<lambda>(k, v). case jsonStringify v of Some t \<Rightarrow> [(k, t)] | None \<Rightarrow> []) fs) = map (\<lambda>f. (fst f, tree_of (snd f))) fs"
  by (induction fs) auto

lemma tree_entries:
  "list_all (\<lambda>e. storable (fst e) \<and> storable (snd e)) es \<Longrightarrow>
     map (\<lambda>(k, v). JArray [case jsonStringify k of Some t \<Rightarrow> t | None \<Rightarrow> JNull, case jsonStringify v of Some t \<Rightarrow> t | None \<Rightarrow> JNull]) es =
     map (\<lambda>e. JArray [tree_of (fst e), tree_of (snd e)]) es"
  by (induction es) auto

lemma no_marker: "list_all (\<lambda>f. fst f \<notin> M) fs \<Longrightarrow> k \<in> M \<Longrightarrow> jm_get fs k = None"
  by (auto simp: jm_get_None_keys list_all_iff)

lemma mapR_all: "list_all (\<lambda>x. f x = Inr (g x)) xs \<Longrightarrow> mapR f xs = Inr (map g xs)"
  by (induction xs) simp_all

lemma json_back: "storable v \<Longrightarrow> jsonParse T (tree_of v) = Inr v"
proof (induction v)
  case (VBig i)
  show ?case by (simp add: revive_def BigInt_js_def BIGINT_PREFIX_def StringToBigInt_toString)
next
  case (VArr xs)
  then have "list_all (\<lambda>x. jsonParse T (tree_of x) = Inr x) xs" by (simp add: list_all_iff)
  then have "mapR (jsonParse T) (map tree_of xs) = Inr xs" by (induction xs) simp_all
  with VArr show ?case by (simp add: tree_elements)
next
  case (VObj fs)
  then have "list_all (\<lambda>f. jsonParse T (tree_of (snd f)) = Inr (snd f)) fs" by (auto simp: list_all_iff)
  then have "mapR (\<lambda>f. bindR (jsonParse T (snd f)) (\<lambda>v. Inr (fst f, v))) (map (\<lambda>f. (fst f, tree_of (snd f))) fs) = Inr fs"
    by (induction fs) simp_all
  moreover have "revive T fs = Inr (VObj fs)" using VObj.prems no_marker [of "{BIGINT_PREFIX, MAP_MARKER, SET_MARKER}" fs] by (simp add: revive_def)
  ultimately show ?case using VObj.prems by (simp add: tree_fields)
next
  case (VMap es)
  then have "list_all (\<lambda>e. jsonParse T (tree_of (fst e)) = Inr (fst e) \<and> jsonParse T (tree_of (snd e)) = Inr (snd e)) es"
    by (auto simp: list_all_iff)
  then have a: "mapR (jsonParse T) (map (\<lambda>e. JArray [tree_of (fst e), tree_of (snd e)]) es) = Inr (map (\<lambda>e. VArr [fst e, snd e]) es)"
    by (induction es) simp_all
  have b: "mapR entry_of (map (\<lambda>e. VArr [fst e, snd e]) es) = Inr es" by (induction es) (simp_all add: element_def)
  show ?case using VMap.prems a b
    by (simp add: tree_entries revive_def new_Map_def map_of_entries_id BIGINT_PREFIX_def MAP_MARKER_def)
next
  case (VSet xs)
  then have "list_all (\<lambda>x. jsonParse T (tree_of x) = Inr x) xs" by (simp add: list_all_iff)
  then have "mapR (jsonParse T) (map tree_of xs) = Inr xs" by (induction xs) simp_all
  with VSet.prems show ?case
    by (simp add: tree_elements revive_def new_Set_def map_of_entries_id comp_def BIGINT_PREFIX_def MAP_MARKER_def SET_MARKER_def)
qed simp_all

text \<open>
  the JSON helpers round-trip: whatever is built from JSON values, bigints, maps and sets, without
  \<open>undefined\<close> and without a field named like one of the markers, is written to a text that reads back
  as the same value; in a map or set no key may stand twice, as in every map.
\<close>

theorem json_round_trip:
  assumes "storable v"
  shows "\<exists>t. jsonStringify v = Some t \<and> jsonParse T t = Inr v"
  using storable_text [OF assms] json_back [OF assms, of T] by auto

definition sample_value :: jsval where
  "sample_value = VObj [(''a'', VMap [(VBig 5, VStr ''x''), (VNum 5, VArr [VNull, VBool True])]), (''b'', VSet [VBig (- 3), VStr ''3''])]"

theorem json_round_trip_witness:
  "storable sample_value \<and> (\<exists>t. jsonStringify sample_value = Some t \<and> jsonParse (\<lambda>_. []) t = Inr sample_value)"
proof -
  have s: "storable sample_value" by code_simp
  from s json_round_trip [OF s, of "\<lambda>_. []"] show ?thesis by blast
qed

section \<open>Channels and witnesses\<close>

lemma stringify_drops_undefined: "jsonStringify (VObj fs) = jsonStringify (VObj (filter (\<lambda>f. snd f \<noteq> VUndefined) fs))"
  by (induction fs) auto

lemma number_fields [simp]: "isUint (of_nat n)" "uint_of (of_nat n) = n"
proof -
  have "quotient_of (of_nat n) = (int n, 1)" using quotient_of_int [of "int n"] by simp
  then show "isUint (of_nat n)" "uint_of (of_nat n) = n" by (simp_all add: isUint_def uint_of_def)
qed

lemma assert_numbers [simp]:
  "assertTokenIndex (VNum (of_nat n)) = Inr n" "assertNoteNonce (VNum (of_nat n)) = Inr n"
  "assertNoteNonce (VObj [(''sequence'', VNum (of_nat n))]) = Inr n"
  by (simp_all add: assertTokenIndex_def assertNoteNonce_def assertUint_def is_object_def field_def property_of_def)

lemma key_val_back:
  assumes "BigInt pk = Inr p"
  shows "assertChannelKey (key_val pk) = Inr p" "storable (key_val pk)" "key_val pk \<noteq> VUndefined"
  using assms by (cases pk; simp add: assertChannelKey_def BigInt_js_def quotient_of_int)+

lemma token_back: "assertTokenEntry (token_val e) = Inr (VBig (fst e), snd e)" "storable (token_val e)"
  by (simp_all add: token_val_def assertTokenEntry_def field_def property_of_def BIGINT_PREFIX_def MAP_MARKER_def SET_MARKER_def)

lemma bigint_keys_new: "distinct ks \<Longrightarrow> pairwise_new (map VBig ks)"
  by (induction ks) (auto simp: list_all_iff)

lemma tokens_back:
  assumes "jm_wf m"
  shows "assertTokenEntries (VArr (map token_val m)) = Inr (map (\<lambda>e. (VBig (fst e), snd e)) m)"
    "mapR (\<lambda>e. bindR (BigInt_js T (fst e)) (\<lambda>t. Inr (t, snd e))) (map (\<lambda>e. (VBig (fst e), snd e)) m) = Inr m"
proof -
  have "mapR assertTokenEntry (map token_val m) = Inr (map (\<lambda>e. (VBig (fst e), snd e)) m)"
    by (induction m) (simp_all add: token_back)
  moreover have "pairwise_new (map fst (map (\<lambda>e. (VBig (fst e), snd e)) m))"
    using bigint_keys_new [of "map fst m"] assms by (simp add: jm_wf_def comp_def)
  ultimately show "assertTokenEntries (VArr (map token_val m)) = Inr (map (\<lambda>e. (VBig (fst e), snd e)) m)"
    by (simp add: assertTokenEntries_def map_of_entries_id)
  show "mapR (\<lambda>e. bindR (BigInt_js T (fst e)) (\<lambda>t. Inr (t, snd e))) (map (\<lambda>e. (VBig (fst e), snd e)) m) = Inr m"
    by (induction m) (simp_all add: BigInt_js_def)
qed

text \<open>
  C32: a stored channel is restored: decoding what \<open>channelSerde\<close> encodes gives the channel back, key and
  tokens in their order, with the public key as the bigint it stands for. \<open>witnessSerde\<close> restores a witness exactly.
\<close>

theorem serde_round_trip:
  assumes "jm_wf (tokens c)" "BigInt (publicKey c) = Inr p"
  shows "(\<exists>t. channelSerde_encode c = Some t \<and> channelSerde_decode T t = Inr (c\<lparr>publicKey := BNBigint p\<rparr>)) \<and>
    (\<exists>t. witnessSerde_encode w = Some t \<and> witnessSerde_decode T t = Inr w)"
proof
  define fs where "fs = [(''v'', VNum 1)] @ (case key c of None \<Rightarrow> [] | Some k \<Rightarrow> [(''key'', VBig k)]) @
    [(''recipientPublicKey'', key_val (publicKey c)), (''tokens'', VArr (map token_val (tokens c)))]"
  have "jsonStringify (channel_val c) = jsonStringify (VObj fs)"
    unfolding channel_val_def by (subst stringify_drops_undefined) (simp add: fs_def key_val_back(3) [OF assms(2)] split: option.split)
  moreover have "storable (VObj fs)"
    using key_val_back(2) [OF assms(2)]
    by (auto simp: fs_def list_all_iff token_back(2) BIGINT_PREFIX_def MAP_MARKER_def SET_MARKER_def split: option.splits)
  ultimately obtain t where t: "channelSerde_encode c = Some t" "jsonParse T t = Inr (VObj fs)"
    using storable_text [of "VObj fs"] json_back [of "VObj fs" T] by (auto simp: channelSerde_encode_def)
  have f: "field (VObj fs) ''key'' = Inr (case key c of None \<Rightarrow> VUndefined | Some k \<Rightarrow> VBig k)"
    "field (VObj fs) ''recipientPublicKey'' = Inr (key_val (publicKey c))" "field (VObj fs) ''tokens'' = Inr (VArr (map token_val (tokens c)))"
    by (simp_all add: fs_def field_def property_of_def split: option.split)
  have k: "assertOptionalChannelKey (case key c of None \<Rightarrow> VUndefined | Some k \<Rightarrow> VBig k) = Inr (key c)"
    by (simp add: assertOptionalChannelKey_def assertChannelKey_def split: option.split)
  have "channelSerde_decode T t = Inr (new_Channel (BNBigint p) (key c) (tokens c))"
    unfolding channelSerde_decode_def by (simp add: t(2) f k key_val_back(1) [OF assms(2)] tokens_back [OF assms(1)] is_object_def)
  then show "\<exists>t. channelSerde_encode c = Some t \<and> channelSerde_decode T t = Inr (c\<lparr>publicKey := BNBigint p\<rparr>)"
    using t(1) assms(1) by (auto simp: new_Channel_def)
  have "storable (witness_val w)" by (simp add: witness_val_def BIGINT_PREFIX_def MAP_MARKER_def SET_MARKER_def)
  from storable_text [OF this] json_back [OF this, of T]
  show "\<exists>t. witnessSerde_encode w = Some t \<and> witnessSerde_decode T t = Inr w"
    by (auto simp: witnessSerde_encode_def witnessSerde_decode_def witness_val_def is_object_def field_def property_of_def
        assertChannelKey_def assertBigInt_def)
qed

definition stored_channel :: Channel where
  "stored_channel = \<lparr>publicKey = BNString ''0x10'', key = Some 7, tokens = [(5, \<lparr>tokenIndex = 0, noteNonce = 3\<rparr>), (9, \<lparr>tokenIndex = 1, noteNonce = 0\<rparr>)]\<rparr>"

theorem serde_round_trip_witness:
  "\<exists>t. channelSerde_encode stored_channel = Some t \<and> channelSerde_decode (\<lambda>_. []) t = Inr (stored_channel\<lparr>publicKey := BNBigint 16\<rparr>)"
proof -
  have "jm_wf (tokens stored_channel)" by (simp add: stored_channel_def jm_wf_def)
  moreover have "BigInt (publicKey stored_channel) = Inr 16" by code_simp
  ultimately show ?thesis using serde_round_trip [of stored_channel 16 "\<lambda>_. []" undefined] by blast
qed

end
