(* ===== verification/Service_Config.thy ===== *)
theory Service_Config
  imports Interceptor_Service
begin

text \<open>
  The interceptor's settings from the environment (\<open>proof-interceptor/src/config.ts\<close>). The package \<open>zod\<close>
  reports complaints in the order of a schema's keys and \<open>parseEnv\<close> throws the first; so a schema is a
  sequence of checks. The theorem: which settings a started service can have.
\<close>

section \<open>Variables\<close>

type_synonym environment = "string \<Rightarrow> string option"

definition integerEnv :: "environment \<Rightarrow> string \<Rightarrow> int \<Rightarrow> int result" where
  "integerEnv env name fallback =
     of_option (ConfigError (name @ '' must be a valid integer''))
       (parseInt10 (case env name of Some raw \<Rightarrow> raw | None \<Rightarrow> int_toString 10 fallback))"

definition requiredEnv :: "environment \<Rightarrow> string \<Rightarrow> string result" where
  "requiredEnv env name = (case env name of
      Some v \<Rightarrow> bindR (assertR (v \<noteq> []) (ConfigError (name @ '' env var is required''))) (\<lambda>_. Inr v)
    | None \<Rightarrow> Inl (ConfigError (name @ '' env var is required'')))"

definition flagEnv :: "environment \<Rightarrow> string \<Rightarrow> bool" where
  "flagEnv env name = (env name = Some ''true'')"

definition set_to :: "environment \<Rightarrow> string \<Rightarrow> bool" where
  "set_to env name = (case env name of Some v \<Rightarrow> v \<noteq> [] | None \<Rightarrow> False)"

section \<open>The schemas\<close>

definition DEFAULT_POLICY_TTL_MS :: int where "DEFAULT_POLICY_TTL_MS = 15 * 60 * 1000"
definition DEFAULT_POLICY_TIMEOUT_MS :: int where "DEFAULT_POLICY_TIMEOUT_MS = 10000"

record ServerEnv =
  se_HOST :: string
  se_PORT :: int
  se_MAX_BODY_BYTES :: int
  se_TLS_CERT_PATH :: "string option"
  se_TLS_KEY_PATH :: "string option"

definition ServerEnvSchema :: "environment \<Rightarrow> ServerEnv result" where
  "ServerEnvSchema env =
     bindR (integerEnv env ''PORT'' 8080) (\<lambda>port.
     bindR (assertR (1 \<le> port \<and> port \<le> 65535) (ConfigError ''PORT must be between 1 and 65535'')) (\<lambda>_.
     bindR (integerEnv env ''MAX_BODY_BYTES'' (int DEFAULT_MAX_BODY_BYTES)) (\<lambda>body.
     bindR (assertR (body > 0) (ConfigError ''MAX_BODY_BYTES must be a positive integer'')) (\<lambda>_.
     bindR (assertR (set_to env ''TLS_CERT_PATH'' = set_to env ''TLS_KEY_PATH'')
              (ConfigError ''TLS_CERT_PATH and TLS_KEY_PATH must both be set or both absent'')) (\<lambda>_.
     Inr \<lparr>se_HOST = (case env ''HOST'' of Some h \<Rightarrow> h | None \<Rightarrow> ''0.0.0.0''), se_PORT = port, se_MAX_BODY_BYTES = body,
          se_TLS_CERT_PATH = env ''TLS_CERT_PATH'', se_TLS_KEY_PATH = env ''TLS_KEY_PATH''\<rparr>)))))"

record EnvScreening =
  en_ellipticProxyUrl :: string
  en_partnerName :: string
  en_partnerSecret :: string
  en_timeoutMs :: int
  en_failOpen :: bool
  en_maxRetries :: int
  en_totalTimeoutMs :: int
  en_poolAddress :: string
  en_rpcUrl :: string
  en_policyTtlMs :: int
  en_policyTimeoutMs :: int
  en_blockNonPoolTx :: bool

definition ScreeningEnvSchema :: "environment \<Rightarrow> EnvScreening result" where
  "ScreeningEnvSchema env =
     bindR (requiredEnv env ''SCREENING_URL'') (\<lambda>url.
     bindR (requiredEnv env ''SCREENING_PARTNER_NAME'') (\<lambda>name.
     bindR (requiredEnv env ''SCREENING_PARTNER_SECRET'') (\<lambda>secret.
     bindR (requiredEnv env ''SCREENING_POOL_ADDRESS'') (\<lambda>pool.
     bindR (requiredEnv env ''SCREENING_RPC_URL'') (\<lambda>rpc.
     bindR (integerEnv env ''SCREENING_TIMEOUT_MS'' 10000) (\<lambda>timeout.
     bindR (integerEnv env ''SCREENING_MAX_RETRIES'' 2) (\<lambda>retries.
     bindR (integerEnv env ''SCREENING_TOTAL_TIMEOUT_MS'' 10000) (\<lambda>total.
     bindR (integerEnv env ''SCREENING_POLICY_TTL_MS'' DEFAULT_POLICY_TTL_MS) (\<lambda>ttl.
     bindR (integerEnv env ''SCREENING_POLICY_TIMEOUT_MS'' DEFAULT_POLICY_TIMEOUT_MS) (\<lambda>ptimeout.
     Inr \<lparr>en_ellipticProxyUrl = url, en_partnerName = name, en_partnerSecret = secret, en_timeoutMs = timeout,
          en_failOpen = flagEnv env ''SCREENING_FAIL_OPEN'', en_maxRetries = retries, en_totalTimeoutMs = total,
          en_poolAddress = pool, en_rpcUrl = rpc, en_policyTtlMs = ttl, en_policyTimeoutMs = ptimeout,
          en_blockNonPoolTx = flagEnv env ''SCREENING_BLOCK_NON_POOL_TX''\<rparr>))))))))))"

section \<open>loadConfig\<close>

record InterceptorConfig =
  ic_host :: string
  ic_port :: int
  ic_maxBodyBytes :: int
  ic_screening :: "EnvScreening option"
  ic_tls :: "(string \<times> string) option"

definition loadConfig :: "environment \<Rightarrow> InterceptorConfig result" where
  "loadConfig env = bindR (ServerEnvSchema env) (\<lambda>server.
     bindR (if set_to env ''SCREENING_URL'' then bindR (ScreeningEnvSchema env) (\<lambda>s. Inr (Some s)) else Inr None) (\<lambda>screening.
     Inr \<lparr>ic_host = se_HOST server, ic_port = se_PORT server, ic_maxBodyBytes = se_MAX_BODY_BYTES server, ic_screening = screening,
          ic_tls = (case (se_TLS_CERT_PATH server, se_TLS_KEY_PATH server) of
             (Some c, Some k) \<Rightarrow> if c \<noteq> [] \<and> k \<noteq> [] then Some (c, k) else None
           | _ \<Rightarrow> None)\<rparr>))"

section \<open>What a started service has\<close>

lemma requiredEnv_ok: "requiredEnv env name = Inr v \<longleftrightarrow> env name = Some v \<and> v \<noteq> []"
  by (auto simp: requiredEnv_def bindR_eq_Inr assertR_eq_Inr split: option.splits)

lemma screening_ok:
  assumes "ScreeningEnvSchema env = Inr s"
  shows "list_all (\<lambda>(name, v). env name = Some v \<and> v \<noteq> [])
      [(''SCREENING_URL'', en_ellipticProxyUrl s), (''SCREENING_PARTNER_NAME'', en_partnerName s), (''SCREENING_PARTNER_SECRET'', en_partnerSecret s),
       (''SCREENING_POOL_ADDRESS'', en_poolAddress s), (''SCREENING_RPC_URL'', en_rpcUrl s)] \<and>
    en_failOpen s = (env ''SCREENING_FAIL_OPEN'' = Some ''true'') \<and> en_blockNonPoolTx s = (env ''SCREENING_BLOCK_NON_POOL_TX'' = Some ''true'')"
  using assms by (auto simp: ScreeningEnvSchema_def bindR_eq_Inr requiredEnv_ok flagEnv_def)

text \<open>
  a service that starts has sound settings: a port a listener accepts and a positive body limit; screening
  exactly if a screening URL is given, with every address and credential taken from its variable and not
  empty; fail-open only if the flag is literally \<open>true\<close>; and TLS with both files or not at all.
\<close>

theorem service_config_wf:
  assumes "loadConfig env = Inr c"
  shows "1 \<le> ic_port c \<and> ic_port c \<le> 65535 \<and> 0 < ic_maxBodyBytes c \<and>
    (case ic_screening c of
       None \<Rightarrow> \<not> set_to env ''SCREENING_URL''
     | Some s \<Rightarrow> list_all (\<lambda>(name, v). env name = Some v \<and> v \<noteq> [])
         [(''SCREENING_URL'', en_ellipticProxyUrl s), (''SCREENING_PARTNER_NAME'', en_partnerName s), (''SCREENING_PARTNER_SECRET'', en_partnerSecret s),
          (''SCREENING_POOL_ADDRESS'', en_poolAddress s), (''SCREENING_RPC_URL'', en_rpcUrl s)] \<and>
         en_failOpen s = (env ''SCREENING_FAIL_OPEN'' = Some ''true'') \<and> en_blockNonPoolTx s = (env ''SCREENING_BLOCK_NON_POOL_TX'' = Some ''true'')) \<and>
    (case ic_tls c of
       None \<Rightarrow> \<not> set_to env ''TLS_CERT_PATH'' \<and> \<not> set_to env ''TLS_KEY_PATH''
     | Some (cert, k) \<Rightarrow> env ''TLS_CERT_PATH'' = Some cert \<and> env ''TLS_KEY_PATH'' = Some k \<and> cert \<noteq> [] \<and> k \<noteq> [])"
proof -
  from assms obtain server screening where l: "ServerEnvSchema env = Inr server"
    "(if set_to env ''SCREENING_URL'' then bindR (ScreeningEnvSchema env) (\<lambda>s. Inr (Some s)) else Inr None) = Inr screening"
    "c = \<lparr>ic_host = se_HOST server, ic_port = se_PORT server, ic_maxBodyBytes = se_MAX_BODY_BYTES server, ic_screening = screening,
          ic_tls = (case (se_TLS_CERT_PATH server, se_TLS_KEY_PATH server) of
             (Some c, Some k) \<Rightarrow> if c \<noteq> [] \<and> k \<noteq> [] then Some (c, k) else None
           | _ \<Rightarrow> None)\<rparr>"
    by (auto simp: loadConfig_def bindR_eq_Inr)
  have srv: "1 \<le> se_PORT server" "se_PORT server \<le> 65535" "0 < se_MAX_BODY_BYTES server"
    "set_to env ''TLS_CERT_PATH'' = set_to env ''TLS_KEY_PATH''" "se_TLS_CERT_PATH server = env ''TLS_CERT_PATH''" "se_TLS_KEY_PATH server = env ''TLS_KEY_PATH''"
    using l(1) by (auto simp: ServerEnvSchema_def bindR_eq_Inr assertR_eq_Inr)
  have scr: "case screening of
       None \<Rightarrow> \<not> set_to env ''SCREENING_URL''
     | Some s \<Rightarrow> ScreeningEnvSchema env = Inr s"
    using l(2) by (auto simp: bindR_eq_Inr split: if_splits)
  show ?thesis
    using srv scr screening_ok [of env] l(3)
    by (auto simp: set_to_def split: option.splits prod.splits if_splits)
qed

definition sample_environment :: environment where
  "sample_environment = map_of [(''PORT'', ''80x''), (''SCREENING_URL'', ''u''), (''SCREENING_PARTNER_NAME'', ''n''), (''SCREENING_PARTNER_SECRET'', ''s''),
     (''SCREENING_POOL_ADDRESS'', ''0x1''), (''SCREENING_RPC_URL'', ''r''), (''SCREENING_FAIL_OPEN'', ''True''), (''MAX_BODY_BYTES'', ''7''),
     (''SCREENING_MAX_RETRIES'', ''5''), (''SCREENING_TIMEOUT_MS'', ''5''), (''SCREENING_TOTAL_TIMEOUT_MS'', ''5''), (''SCREENING_POLICY_TTL_MS'', ''5''), (''SCREENING_POLICY_TIMEOUT_MS'', ''5'')]"

lemma sample_numbers: "parseInt10 ''80x'' = Some 80" "parseInt10 ''7'' = Some 7" "parseInt10 ''5'' = Some 5"
  by code_simp+

lemma sample_variables:
  "sample_environment ''PORT'' = Some ''80x''" "sample_environment ''MAX_BODY_BYTES'' = Some ''7''" "sample_environment ''HOST'' = None"
  "sample_environment ''TLS_CERT_PATH'' = None" "sample_environment ''TLS_KEY_PATH'' = None"
  "sample_environment ''SCREENING_URL'' = Some ''u''" "sample_environment ''SCREENING_PARTNER_NAME'' = Some ''n''"
  "sample_environment ''SCREENING_PARTNER_SECRET'' = Some ''s''" "sample_environment ''SCREENING_POOL_ADDRESS'' = Some ''0x1''"
  "sample_environment ''SCREENING_RPC_URL'' = Some ''r''" "sample_environment ''SCREENING_TIMEOUT_MS'' = Some ''5''"
  "sample_environment ''SCREENING_MAX_RETRIES'' = Some ''5''" "sample_environment ''SCREENING_TOTAL_TIMEOUT_MS'' = Some ''5''"
  "sample_environment ''SCREENING_POLICY_TTL_MS'' = Some ''5''" "sample_environment ''SCREENING_POLICY_TIMEOUT_MS'' = Some ''5''"
  "sample_environment ''SCREENING_FAIL_OPEN'' = Some ''True''"
  by (simp_all add: sample_environment_def)

lemma sample_loaded: "\<exists>c s. loadConfig sample_environment = Inr c \<and> ic_port c = 80 \<and> ic_screening c = Some s"
  by (simp add: loadConfig_def ServerEnvSchema_def ScreeningEnvSchema_def integerEnv_def sample_variables sample_numbers requiredEnv_def set_to_def)

text \<open>
  A number followed by other text passes as an integer: the port \<open>80x\<close> is read as 80.
\<close>

theorem trailing_text_accepted:
  "sample_environment ''PORT'' = Some ''80x'' \<and> (\<exists>c. loadConfig sample_environment = Inr c \<and> ic_port c = 80)"
  using sample_loaded sample_variables(1) by blast

theorem service_config_wf_witness:
  "\<exists>c s. loadConfig sample_environment = Inr c \<and> ic_screening c = Some s \<and> en_partnerName s = ''n'' \<and> \<not> en_failOpen s"
proof -
  obtain c s where c: "loadConfig sample_environment = Inr c" "ic_screening c = Some s" using sample_loaded by blast
  from service_config_wf [OF c(1)] c(2) have "sample_environment ''SCREENING_PARTNER_NAME'' = Some (en_partnerName s)"
    "en_failOpen s = (sample_environment ''SCREENING_FAIL_OPEN'' = Some ''true'')" by simp_all
  then show ?thesis using c by (auto simp: sample_variables)
qed

end
