(* ===== verification/Ohttp.thy ===== *)
theory Ohttp
  imports Schemas Convert
begin

text \<open>
  The oblivious-HTTP transport \<open>sdk/src/internal/ohttp-client.ts\<close>. The package \<open>ohttp-ts\<close> (\<open>parseMultiple\<close>, \<open>encapsulate\<close>,
  \<open>decapsulate\<close>), decompression, \<open>JSON.parse\<close> and the network are parameters; the network may answer
  differently each time. The client keeps its key and the model a log of what left the machine. The
  theorem: only sealed requests leave, under a key the client may trust, and an answer is an inner success.
\<close>

section \<open>Requests and answers\<close>

record inner_request =
  iq_url :: string
  iq_method :: string
  iq_body :: "json option"

record http_answer =
  ha_status :: nat
  ha_contentType :: "string option"
  ha_text :: "string option"          \<comment> \<open>\<open>None\<close> where reading the text fails\<close>
  ha_bytes :: "nat list"

record inner_answer =
  ia_status :: nat
  ia_encoding :: "string option"
  ia_hasBody :: bool
  ia_bytes :: "nat list"

record ('k, 'e, 'x) ohttp_lib =
  parseMultiple :: "nat list \<Rightarrow> 'k list result"
  encapsulate :: "'k \<Rightarrow> inner_request \<Rightarrow> ('e \<times> 'x) result"
  decapsulate :: "'x \<Rightarrow> http_answer \<Rightarrow> inner_answer result"
  oh_text :: "nat list \<Rightarrow> string result"
  oh_decompress :: "string \<Rightarrow> nat list \<Rightarrow> string result"
  oh_parse :: "string \<Rightarrow> json result"
  oh_lowercase :: "string \<Rightarrow> string"

datatype 'e outgoing = FetchKeys string | SendTo string 'e

type_synonym 'e network = "'e outgoing list \<Rightarrow> 'e outgoing \<Rightarrow> http_answer result"

definition response_ok :: "http_answer \<Rightarrow> bool" where
  "response_ok a = (200 \<le> ha_status a \<and> ha_status a < 300)"

definition REORG_STATUS :: nat where "REORG_STATUS = 409"
definition INNER_REQUEST_ORIGIN :: string where "INNER_REQUEST_ORIGIN = ''https://ohttp-target.invalid''"

section \<open>The client\<close>

record ('k, 'e) OhttpClient =
  oh_gatewayUrl :: string
  oh_relayUrl :: "string option"
  oh_pinned :: "nat list option"
  oh_client :: "'k option"
  oh_log :: "'e outgoing list"

definition new_OhttpClient :: "string \<Rightarrow> string option \<Rightarrow> nat list option \<Rightarrow> ('k, 'e) OhttpClient" where
  "new_OhttpClient gateway relay pinned =
     \<lparr>oh_gatewayUrl = gateway, oh_relayUrl = (case relay of Some r \<Rightarrow> if r \<noteq> [] then Some r else None | None \<Rightarrow> None),
      oh_pinned = pinned, oh_client = None, oh_log = []\<rparr>"

definition ask :: "'e network \<Rightarrow> 'e outgoing \<Rightarrow> ('k, 'e) OhttpClient \<Rightarrow> ('k, 'e) OhttpClient \<times> http_answer result" where
  "ask N out c = (c\<lparr>oh_log := oh_log c @ [out]\<rparr>, N (oh_log c) out)"

definition readKeys :: "'e network \<Rightarrow> ('k, 'e) OhttpClient \<Rightarrow> ('k, 'e) OhttpClient \<times> nat list result" where
  "readKeys N c = (case oh_pinned c of
      Some raw \<Rightarrow> (c, Inr raw)
    | None \<Rightarrow>
        let (c', r) = ask N (FetchKeys (oh_gatewayUrl c @ ''/ohttp-keys'')) c in
        (c', bindR r (\<lambda>a. if response_ok a then Inr (ha_bytes a) else Inl (HttpError (ha_status a) ''Failed to fetch OHTTP key config''))))"

definition ensureClient :: "('k, 'e, 'x) ohttp_lib \<Rightarrow> 'e network \<Rightarrow> ('k, 'e) OhttpClient \<Rightarrow> ('k, 'e) OhttpClient \<times> 'k result" where
  "ensureClient L N c = (case oh_client c of
      Some k \<Rightarrow> (c, Inr k)
    | None \<Rightarrow>
        let (c', raw) = readKeys N c in
        (case bindR raw (parseMultiple L) of
           Inl e \<Rightarrow> (c', Inl e)
         | Inr [] \<Rightarrow> (c', Inl (InvalidPayload ''OHTTP key config response contained no key configurations''))
         | Inr (k # _) \<Rightarrow> (c'\<lparr>oh_client := Some k\<rparr>, Inr k)))"

definition targetUrl :: "('k, 'e) OhttpClient \<Rightarrow> string" where
  "targetUrl c = (case oh_relayUrl c of Some r \<Rightarrow> r | None \<Rightarrow> oh_gatewayUrl c)"

lemma targetUrl_simps [simp]: "targetUrl (c\<lparr>oh_log := l\<rparr>) = targetUrl c" "targetUrl (c\<lparr>oh_client := k\<rparr>) = targetUrl c"
  by (simp_all add: targetUrl_def split: option.split)

definition ENCODING_TO_FORMAT :: "(string, string) jsmap" where
  "ENCODING_TO_FORMAT = [(''gzip'', ''gzip''), (''x-gzip'', ''gzip''), (''deflate'', ''deflate'')]"

definition readResponseText :: "('k, 'e, 'x) ohttp_lib \<Rightarrow> inner_answer \<Rightarrow> string result" where
  "readResponseText L a = (case map_option (oh_lowercase L) (ia_encoding a) of
      None \<Rightarrow> oh_text L (ia_bytes a)
    | Some encoding \<Rightarrow>
        if encoding = [] \<or> \<not> ia_hasBody a \<or> encoding = ''identity'' then oh_text L (ia_bytes a)
        else case jm_get ENCODING_TO_FORMAT encoding of
            None \<Rightarrow> Inl (InvalidPayload (''Unsupported Content-Encoding in OHTTP response: '' @ encoding))
          | Some format \<Rightarrow> oh_decompress L format (ia_bytes a))"

definition readAnswer :: "('k, 'e, 'x) ohttp_lib \<Rightarrow> string \<Rightarrow> 'x \<Rightarrow> http_answer \<Rightarrow> json result" where
  "readAnswer L path x a =
     (let text = (case ha_text a of Some t \<Rightarrow> t | None \<Rightarrow> []) in
      if \<not> response_ok a \<and> ha_contentType a \<noteq> Some ''message/ohttp-res''
      then if ha_status a = REORG_STATUS then Inl (ReorgError (''Block reorged during '' @ path @ '': '' @ text)) else Inl (HttpError (ha_status a) text)
      else bindR (decapsulate L x a) (\<lambda>inner.
           bindR (readResponseText L inner) (\<lambda>body.
           if ia_status inner = REORG_STATUS then Inl (ReorgError (''Block reorged during '' @ path @ '': '' @ body))
           else if ia_status inner \<noteq> 200 then Inl (HttpError (ia_status inner) body)
           else oh_parse L body)))"

definition send ::
  "('k, 'e, 'x) ohttp_lib \<Rightarrow> 'e network \<Rightarrow> string \<Rightarrow> inner_request \<Rightarrow> ('k, 'e) OhttpClient \<Rightarrow> ('k, 'e) OhttpClient \<times> json result"
where
  "send L N path request c =
     (case ensureClient L N c of
        (c1, Inl e) \<Rightarrow> (c1, Inl e)
      | (c1, Inr k) \<Rightarrow> (case encapsulate L k request of
          Inl e \<Rightarrow> (c1, Inl e)
        | Inr (e, x) \<Rightarrow>
            let (c2, r) = ask N (SendTo (targetUrl c1) e) c1 in
            (case r of
               Inl err \<Rightarrow> (c2, Inl err)
             | Inr a \<Rightarrow>
                 if ha_status a = 422 then (c2\<lparr>oh_client := None\<rparr>, Inl (HttpError 422 ''OHTTP decapsulation failed on server''))
                 else (c2, readAnswer L path x a))))"

definition oh_get :: "('k, 'e, 'x) ohttp_lib \<Rightarrow> 'e network \<Rightarrow> string \<Rightarrow> ('k, 'e) OhttpClient \<Rightarrow> ('k, 'e) OhttpClient \<times> json result" where
  "oh_get L N path = send L N path \<lparr>iq_url = INNER_REQUEST_ORIGIN @ path, iq_method = ''GET'', iq_body = None\<rparr>"

definition oh_post :: "('k, 'e, 'x) ohttp_lib \<Rightarrow> 'e network \<Rightarrow> string \<Rightarrow> json \<Rightarrow> ('k, 'e) OhttpClient \<Rightarrow> ('k, 'e) OhttpClient \<times> json result" where
  "oh_post L N path body = send L N path \<lparr>iq_url = INNER_REQUEST_ORIGIN @ path, iq_method = ''POST'', iq_body = Some body\<rparr>"

section \<open>What leaves the machine\<close>

inductive ohttp_step :: "('k, 'e, 'x) ohttp_lib \<Rightarrow> 'e network \<Rightarrow> ('k, 'e) OhttpClient \<Rightarrow> ('k, 'e) OhttpClient \<Rightarrow> bool" for L N where
  get: "ohttp_step L N c (fst (oh_get L N path c))"
| post: "ohttp_step L N c (fst (oh_post L N path body c))"

text \<open>A key the client may use: the pinned one, or one the gateway answered with.\<close>

definition trusted :: "('k, 'e, 'x) ohttp_lib \<Rightarrow> 'e network \<Rightarrow> string \<Rightarrow> nat list option \<Rightarrow> 'k \<Rightarrow> bool" where
  "trusted L N gateway pinned k \<longleftrightarrow> (\<exists>raw ks. parseMultiple L raw = Inr (k # ks) \<and>
     (case pinned of Some p \<Rightarrow> raw = p
      | None \<Rightarrow> \<exists>log a. N log (FetchKeys (gateway @ ''/ohttp-keys'')) = Inr a \<and> response_ok a \<and> raw = ha_bytes a))"

fun sealed :: "('k, 'e, 'x) ohttp_lib \<Rightarrow> 'e network \<Rightarrow> string \<Rightarrow> string \<Rightarrow> nat list option \<Rightarrow> 'e outgoing \<Rightarrow> bool" where
  "sealed L N gateway target pinned (FetchKeys url) \<longleftrightarrow> pinned = None \<and> url = gateway @ ''/ohttp-keys''"
| "sealed L N gateway target pinned (SendTo url e) \<longleftrightarrow> url = target \<and>
     (\<exists>k request x path. trusted L N gateway pinned k \<and> encapsulate L k request = Inr (e, x) \<and> iq_url request = INNER_REQUEST_ORIGIN @ path)"

definition client_ok :: "('k, 'e, 'x) ohttp_lib \<Rightarrow> 'e network \<Rightarrow> string \<Rightarrow> string \<Rightarrow> nat list option \<Rightarrow> ('k, 'e) OhttpClient \<Rightarrow> bool" where
  "client_ok L N gateway target pinned c \<longleftrightarrow> oh_gatewayUrl c = gateway \<and> targetUrl c = target \<and> oh_pinned c = pinned \<and>
     list_all (sealed L N gateway target pinned) (oh_log c) \<and> (\<forall>k. oh_client c = Some k \<longrightarrow> trusted L N gateway pinned k)"

lemma ensureClient_ok:
  assumes "client_ok L N g t p c" "ensureClient L N c = (c', r)"
  shows "client_ok L N g t p c' \<and> (\<forall>k. r = Inr k \<longrightarrow> trusted L N g p k \<and> oh_client c' = Some k)"
proof (cases "oh_client c")
  case (Some k)
  with assms show ?thesis by (auto simp: ensureClient_def client_ok_def)
next
  case None
  obtain c1 raw where r: "readKeys N c = (c1, raw)" by fastforce
  have c1: "client_ok L N g t p c1 \<and> oh_client c1 = None" and
    raw: "\<And>bs. raw = Inr bs \<Longrightarrow> (case p of Some q \<Rightarrow> bs = q | None \<Rightarrow> \<exists>log a. N log (FetchKeys (g @ ''/ohttp-keys'')) = Inr a \<and> response_ok a \<and> bs = ha_bytes a)"
    using r assms(1) None
    by (auto simp: readKeys_def ask_def client_ok_def bindR_eq_Inr split: option.splits if_splits)
  show ?thesis
  proof (cases "bindR raw (parseMultiple L)")
    case (Inr ks)
    then obtain bs where "raw = Inr bs" "parseMultiple L bs = Inr ks" by (auto simp: bindR_eq_Inr)
    then have "ks = k # rest \<Longrightarrow> trusted L N g p k" for k rest using raw [of bs] by (auto simp: trusted_def)
    then show ?thesis using assms(2) None r c1 Inr
      by (cases ks) (auto simp: ensureClient_def client_ok_def)
  qed (use assms(2) None r c1 in \<open>auto simp: ensureClient_def\<close>)
qed

lemma send_ok:
  assumes "client_ok L N g t p c" "iq_url request = INNER_REQUEST_ORIGIN @ path"
  shows "client_ok L N g t p (fst (send L N path' request c))"
proof -
  obtain c1 r where e: "ensureClient L N c = (c1, r)" by fastforce
  note c1 = ensureClient_ok [OF assms(1) e]
  have log: "client_ok L N g t p (c1\<lparr>oh_log := oh_log c1 @ [SendTo (targetUrl c1) s]\<rparr>)"
    if "r = Inr k" "encapsulate L k request = Inr (s, x)" for k s x
    using c1 that assms(2) by (auto simp: client_ok_def)
  have drop: "client_ok L N g t p b \<Longrightarrow> client_ok L N g t p (b\<lparr>oh_client := None\<rparr>)" for b
    by (simp add: client_ok_def)
  show ?thesis using c1 log drop by (auto simp: send_def e ask_def split: sum.splits)
qed

lemma step_ok: "ohttp_step L N c c' \<Longrightarrow> client_ok L N g t p c \<Longrightarrow> client_ok L N g t p c'"
  by (induction rule: ohttp_step.induct) (auto simp: oh_get_def oh_post_def intro: send_ok)

lemma new_client_ok: "client_ok L N gateway (targetUrl (new_OhttpClient gateway relay pinned :: ('k, 'e) OhttpClient)) pinned
    (new_OhttpClient gateway relay pinned :: ('k, 'e) OhttpClient)"
  by (simp add: client_ok_def new_OhttpClient_def)

lemma run_ok: "(ohttp_step L N)\<^sup>*\<^sup>* c c' \<Longrightarrow> client_ok L N g t p c \<Longrightarrow> client_ok L N g t p c'"
  by (induction rule: rtranclp_induct) (auto intro: step_ok)

lemma answered:
  assumes "snd (send L N path request c) = Inr v"
  shows "\<exists>x a b body. decapsulate L x a = Inr b \<and> ia_status b = 200 \<and> readResponseText L b = Inr body \<and> oh_parse L body = Inr v"
  using assms by (auto simp: send_def ask_def readAnswer_def Let_def bindR_eq_Inr split: prod.splits sum.splits if_splits)

lemma unopened:
  assumes "oh_client c = Some k" "encapsulate L k request = Inr (e, x)" "N (oh_log c) (SendTo (targetUrl c) e) = Inr a" "ha_status a = 422"
  shows "oh_client (fst (send L N path request c)) = None \<and> isl (snd (send L N path request c))"
  using assms by (simp add: send_def ensureClient_def ask_def)


definition sample_ohttp_lib :: "(nat, string, string) ohttp_lib" where
  "sample_ohttp_lib = \<lparr>parseMultiple = (\<lambda>bs. Inr bs), encapsulate = (\<lambda>k r. Inr (iq_method r, iq_url r)),
     decapsulate = (\<lambda>x a. Inr \<lparr>ia_status = 200, ia_encoding = None, ia_hasBody = True, ia_bytes = []\<rparr>), oh_text = (\<lambda>bs. Inr ''{}''),
     oh_decompress = (\<lambda>f bs. Inr ''{}''), oh_parse = (\<lambda>s. Inr (JObject [])), oh_lowercase = id\<rparr>"

definition sample_network :: "string network" where
  "sample_network earlier out = Inr \<lparr>ha_status = 200, ha_contentType = Some ''message/ohttp-res'', ha_text = None, ha_bytes = [7]\<rparr>"


end
