(* ===== verification/Error_Decoding.thy ===== *)
theory Error_Decoding
  imports Interceptor_Service Proving
begin

text \<open>
  The errors a caller of the SDK sees: \<open>sdk/src/internal/errors.ts\<close> and \<open>sdk/src/utils/error-decoder.ts\<close>.
  A verdict of the interceptor leaves the proving service as a JSON-RPC error; the first part states
  which verdict comes out of \<open>screeningErrorFromProvingError\<close>. The second part is the decoder of hex
  texts and selectors. \<open>JSON.parse\<close> is the parameter \<open>parse\<close>, \<open>None\<close> where it throws, and
  \<open>hash.getSelectorFromName\<close> is the parameter \<open>sel\<close>. The decoder calls itself on what it has parsed, so
  it carries fuel; a value of weight below the fuel is always decoded.
\<close>

section \<open>internal/errors.ts\<close>

text \<open>The two exceptions, with their messages.\<close>

datatype ScreeningError = ScreeningRejected string | ScreeningUnavailable string

definition with_reason :: "string \<Rightarrow> string option \<Rightarrow> string" where
  "with_reason text reason = (case reason of Some r \<Rightarrow> if r = [] then text else text @ '': '' @ r | None \<Rightarrow> text)"

definition new_ScreeningRejected :: "string option \<Rightarrow> ScreeningError" where
  "new_ScreeningRejected reason = ScreeningRejected (with_reason ''Screening rejected'' reason)"

definition new_ScreeningUnavailable :: "string option \<Rightarrow> ScreeningError" where
  "new_ScreeningUnavailable reason = ScreeningUnavailable (with_reason ''Screening unavailable'' reason)"

definition SCREENING_BLOCKED_REASON :: string where "SCREENING_BLOCKED_REASON = ''address_blocked''"
definition SCREENING_UNAVAILABLE_REASON :: string where "SCREENING_UNAVAILABLE_REASON = ''screening_unavailable''"
definition SCREENING_POLICY_UNAVAILABLE_REASON :: string where
  "SCREENING_POLICY_UNAVAILABLE_REASON = ''screening_policy_unavailable''"

lemmas reason_defs = SCREENING_BLOCKED_REASON_def SCREENING_UNAVAILABLE_REASON_def SCREENING_POLICY_UNAVAILABLE_REASON_def

definition screeningErrorFromProvingError :: "json option \<Rightarrow> string option \<Rightarrow> ScreeningError option" where
  "screeningErrorFromProvingError code data =
     (if code \<noteq> Some (JNum 10000) then None
      else if data = Some SCREENING_UNAVAILABLE_REASON \<or> data = Some SCREENING_POLICY_UNAVAILABLE_REASON
      then Some (new_ScreeningUnavailable data)
      else if data = Some SCREENING_BLOCKED_REASON then Some (new_ScreeningRejected data)
      else None)"

section \<open>utils/error-decoder.ts\<close>

definition COMMON_FUNCTIONS :: "string list" where
  "COMMON_FUNCTIONS =
     [''__execute__'', ''__validate__'', ''__validate_declare__'', ''__validate_deploy__'', ''is_valid_signature'', ''get_nonce'',
      ''transfer'', ''transfer_from'', ''approve'', ''balance_of'', ''allowance'', ''total_supply'', ''name'', ''symbol'', ''decimals'',
      ''owner_of'', ''safe_transfer_from'', ''set_approval_for_all'', ''get_approved'', ''is_approved_for_all'',
      ''execute_from_outside'', ''execute_from_outside_v2'', ''is_valid_outside_execution_nonce'',
      ''owner'', ''transfer_ownership'', ''renounce_ownership'', ''upgrade'', ''has_role'', ''grant_role'', ''revoke_role'',
      ''register'', ''deposit'', ''withdraw'', ''get_public_key'', ''set_viewing_key'', ''get_note'', ''get_nullifier'', ''get_channel'']"

definition selectorToName :: "(string \<Rightarrow> string) \<Rightarrow> (string, string) jsmap" where
  "selectorToName sel = foldl (\<lambda>m name. jm_set m (toLowerCase (sel name)) name) [] COMMON_FUNCTIONS"

definition addSelectors :: "(string \<Rightarrow> string) \<Rightarrow> string list \<Rightarrow> (string, string) jsmap \<Rightarrow> (string, string) jsmap" where
  "addSelectors sel names m =
     foldl (\<lambda>m name. let s = toLowerCase (sel name) in if jm_has m s then m else jm_set m s name) m names"

text \<open>The loop over the entries; \<open>BigInt\<close> of a key that is no number throws, which ends the search.\<close>

fun lookup_by_value :: "int \<Rightarrow> (string, string) jsmap \<Rightarrow> string option" where
  "lookup_by_value v [] = None"
| "lookup_by_value v ((selector, name) # es) =
     (case BigInt (BNString selector) of
        Inl _ \<Rightarrow> None
      | Inr k \<Rightarrow> if k = v then Some name else lookup_by_value v es)"

definition lookupSelector :: "(string, string) jsmap \<Rightarrow> string \<Rightarrow> string option" where
  "lookupSelector m selectorHex =
     (let normalized = toLowerCase selectorHex in
      if jm_has m normalized then jm_get m normalized
      else (case BigInt (BNString selectorHex) of Inl _ \<Rightarrow> None | Inr v \<Rightarrow> lookup_by_value v m))"

text \<open>\<open>hexToString\<close>: two characters at a time; \<open>None\<close> when some pair is no printable character.\<close>

fun hex_chars :: "string \<Rightarrow> string option" where
  "hex_chars [] = Some []"
| "hex_chars (c # cs) =
     (case parseInt16 (take 2 (c # cs)) of
        None \<Rightarrow> None
      | Some n \<Rightarrow>
          if 32 \<le> n \<and> n \<le> 126 then map_option (\<lambda>t. char_of (nat n) # t) (hex_chars (drop 1 cs)) else None)"

definition hex_text :: "string \<Rightarrow> string" where
  "hex_text s =
     (if take 2 s \<noteq> ''0x'' then s
      else case hex_chars (drop 2 s) of None \<Rightarrow> s | Some t \<Rightarrow> if t = [] then s else t)"

definition hexToString :: "json \<Rightarrow> json" where
  "hexToString v = (case v of JString s \<Rightarrow> JString (hex_text s) | _ \<Rightarrow> v)"

definition annotated :: "string \<Rightarrow> string" where
  "annotated s = (if hex_text s \<noteq> s then hex_text s @ '' ('' @ s @ '')'' else s)"

text \<open>
  \<open>decodeErrorArray\<close> and \<open>decodeValue\<close>. An assignment to the key \<open>__proto__\<close> of the result creates no entry.
\<close>

definition decode_item :: "(json \<Rightarrow> json option) \<Rightarrow> json \<Rightarrow> json option" where
  "decode_item dec item = (case item of JString s \<Rightarrow> Some (JString (annotated s)) | _ \<Rightarrow> dec item)"

definition decodeErrorArray :: "(json \<Rightarrow> json option) \<Rightarrow> json list \<Rightarrow> json option" where
  "decodeErrorArray dec arr = map_option JArray (those (map (decode_item dec) arr))"

definition decode_field :: "(string \<Rightarrow> json option) \<Rightarrow> (string, string) jsmap \<Rightarrow> (json \<Rightarrow> json option) \<Rightarrow> string \<Rightarrow> json \<Rightarrow> json option" where
  "decode_field parse m dec k v =
     (case v of
        JString s \<Rightarrow>
          if k = ''selector'' then
            (case lookupSelector m s of
               Some f \<Rightarrow> Some (JString (if f = [] then s else f @ '' ('' @ s @ '')''))
             | None \<Rightarrow> Some v)
          else if k = ''error'' \<and> take 1 s = ''['' then
            (case parse s of Some (JArray arr) \<Rightarrow> decodeErrorArray dec arr | _ \<Rightarrow> dec v)
          else dec v
      | _ \<Rightarrow> dec v)"

fun decodeValue :: "nat \<Rightarrow> (string \<Rightarrow> json option) \<Rightarrow> (string, string) jsmap \<Rightarrow> json \<Rightarrow> json option" where
  "decodeValue 0 parse m v = None"
| "decodeValue (Suc n) parse m v =
     (case v of
        JString s \<Rightarrow> (case parse s of Some p \<Rightarrow> decodeValue n parse m p | None \<Rightarrow> Some (JString (annotated s)))
      | JArray arr \<Rightarrow> decodeErrorArray (decodeValue n parse m) arr
      | JObject fs \<Rightarrow>
          map_option JObject (those (map (\<lambda>(k, x). map_option (Pair k) (decode_field parse m (decodeValue n parse m) k x))
            (filter (\<lambda>(k, _). k \<noteq> ''__proto__'') fs)))
      | _ \<Rightarrow> Some v)"

record DecodedError =
  de_raw :: json
  de_decoded :: json

definition decodeError :: "nat \<Rightarrow> (string \<Rightarrow> json option) \<Rightarrow> (string, string) jsmap \<Rightarrow> json \<Rightarrow> DecodedError option" where
  "decodeError fuel parse m e = map_option (\<lambda>d. \<lparr>de_raw = e, de_decoded = d\<rparr>) (decodeValue fuel parse m e)"

section \<open>The verdict a caller learns\<close>

text \<open>The body \<open>jsonRpcError\<close> builds; the prover hands the error object on.\<close>

definition rpcErrorBody :: "JsonRpcErrorResponse \<Rightarrow> json" where
  "rpcErrorBody r = JObject [(''jsonrpc'', JString ''2.0''), (''id'', er_id r),
     (''error'', JObject ([(''code'', JNum (of_int (er_code r))), (''message'', JString (er_message r))] @
        (case er_data r of Some d \<Rightarrow> [(''data'', JString d)] | None \<Rightarrow> [])))]"

definition reported :: "prove_error + json \<Rightarrow> ScreeningError option" where
  "reported answer = (case answer of Inl (ProvingServiceError code _ data) \<Rightarrow> screeningErrorFromProvingError code data | _ \<Rightarrow> None)"

definition refused ::
  "abi_decoder \<Rightarrow> ScreeningConfig \<Rightarrow> (string \<Rightarrow> OpenNoteScreeningPolicy option) \<Rightarrow> (nat \<Rightarrow> int)
     \<Rightarrow> (nat \<Rightarrow> string \<Rightarrow> json http_response) \<Rightarrow> ProveTxnV3 \<Rightarrow> bool"
where
  "refused A cfg policy clock service tx \<longleftrightarrow> isSinglePoolCall tx (sc_poolAddress cfg) \<and>
     (\<exists>a. getScreenedAddress A tx (sc_poolAddress cfg) policy = Inr (OneAddress a) \<and>
          screenAndSign cfg clock service a = OutcomeBlocked)"

definition undecided ::
  "abi_decoder \<Rightarrow> ScreeningConfig \<Rightarrow> (string \<Rightarrow> OpenNoteScreeningPolicy option) \<Rightarrow> (nat \<Rightarrow> int)
     \<Rightarrow> (nat \<Rightarrow> string \<Rightarrow> json http_response) \<Rightarrow> ProveTxnV3 \<Rightarrow> bool"
where
  "undecided A cfg policy clock service tx \<longleftrightarrow> isSinglePoolCall tx (sc_poolAddress cfg) \<and>
     (getScreenedAddress A tx (sc_poolAddress cfg) policy = Inr UnreadablePolicy \<or>
      (\<exists>a. getScreenedAddress A tx (sc_poolAddress cfg) policy = Inr (OneAddress a) \<and>
           screenAndSign cfg clock service a = OutcomeUnavailable))"

lemma read_rpc_error:
  "readRpcResponse (rpcErrorBody r) =
     Inl (ProvingServiceError (Some (JNum (of_int (er_code r)))) (Some (JString (er_message r))) (er_data r))"
  by (cases "er_data r") (simp_all add: readRpcResponse_def rpcErrorBody_def json_get_def json_truthy_def jm_get_def)

lemma block_reasons:
  fixes screen :: "ProveTxnV3 \<Rightarrow> Verdict result"
  assumes "screen = intercept A cfg policy clock service" "settled (screen tx) = Block why"
  shows "why = ''address_blocked'' \<longleftrightarrow> refused A cfg policy clock service tx"
    and "why = ''screening_unavailable'' \<or> why = ''screening_policy_unavailable'' \<longleftrightarrow> undecided A cfg policy clock service tx"
  using assms
  by (auto simp: intercept_def settled_def refused_def undecided_def unresolvedSubjectReason_def bindR_def
        split: if_splits sum.splits ScreenedAddress.splits SignOutcome.splits)


text \<open>A request the service passes on to the interceptor, with its transaction.\<close>

definition checked_tx ::
  "(schema \<Rightarrow> json option \<Rightarrow> bool) \<Rightarrow> (rat \<Rightarrow> string) \<Rightarrow> (string \<Rightarrow> json option) \<Rightarrow> nat \<Rightarrow> IncomingMessage \<Rightarrow> ProveTxnV3 \<Rightarrow> bool"
where
  "checked_tx accepts num parse maxBytes req tx \<longleftrightarrow> (\<exists>body i.
     rb_settled (readBody maxBytes (im_events req)) = Some (Inr body) \<and> validateRpcRequest accepts num parse body = RpcOk tx i)"

lemma fail_code: "validateRpcRequest accepts num parse body = RpcFail t r \<Longrightarrow> er_code r \<noteq> TRANSACTION_REJECTED"
  by (auto simp: validateRpcRequest_def validateCheckTransaction_def invalidRequest_def unsupportedTxVersion_def jsonRpcError_def
        TRANSACTION_REJECTED_def INVALID_REQUEST_def METHOD_NOT_FOUND_def BLOCK_NOT_FOUND_def UNSUPPORTED_TX_VERSION_def Let_def
        split: option.splits if_splits prod.splits)

lemma one_interceptor: "runInterceptors [0] [screen] tx = Block why \<longleftrightarrow> settled (screen tx) = Block why"
  by (cases "settled (screen tx)")
     (auto simp: runInterceptors_def is_block_def is_signed_def Let_def split: option.splits)

lemma error_reply:
  assumes "handleRequest accepts num parse maxBytes run req = Some (status, RpcErrorReply r)"
  shows "(\<exists>tx i why. checked_tx accepts num parse maxBytes req tx \<and> run tx = Block why \<and>
      r = jsonRpcError i TRANSACTION_REJECTED ''Transaction rejected'' (Some why)) \<or>
    (er_code r \<noteq> TRANSACTION_REJECTED \<and> (\<forall>tx. \<not> checked_tx accepts num parse maxBytes req tx))"
  using assms by (fastforce simp: handleRequest_def checked_tx_def dest: fail_code
      split: if_splits option.splits sum.splits RpcVerdict.splits Verdict.splits)

lemma checked_unique:
  "checked_tx accepts num parse maxBytes req tx \<Longrightarrow> checked_tx accepts num parse maxBytes req tx' \<Longrightarrow> tx' = tx"
  by (auto simp: checked_tx_def)

text \<open>
  C10: A caller is told that an address is rejected exactly when the screening service answered "blocked"
  for the address screened for that very transaction, and that screening is unavailable exactly when
  the service could not be asked or the pool's policy could not be read. Every other error answer of
  the interceptor (malformed requests, other transaction types, several subjects, an undetermined
  shadow account, an exception inside the interceptor) is left to the caller as the prover's own error,
  although most of them carry the same code. The prover hands the error object on.
\<close>

theorem screening_verdict_reported:
  assumes "handleRequest accepts num parse maxBytes (runInterceptors [0] [intercept A cfg policy clock service]) req
      = Some (status, RpcErrorReply response)"
  shows "((\<exists>m. reported (readRpcResponse (rpcErrorBody response)) = Some (ScreeningRejected m)) \<longleftrightarrow>
      (\<exists>tx. checked_tx accepts num parse maxBytes req tx \<and> refused A cfg policy clock service tx)) \<and>
    ((\<exists>m. reported (readRpcResponse (rpcErrorBody response)) = Some (ScreeningUnavailable m)) \<longleftrightarrow>
      (\<exists>tx. checked_tx accepts num parse maxBytes req tx \<and> undecided A cfg policy clock service tx))"
  using error_reply [OF assms]
proof
  assume "\<exists>tx i why. checked_tx accepts num parse maxBytes req tx \<and>
      runInterceptors [0] [intercept A cfg policy clock service] tx = Block why \<and>
      response = jsonRpcError i TRANSACTION_REJECTED ''Transaction rejected'' (Some why)"
  then obtain tx i why where tx: "checked_tx accepts num parse maxBytes req tx"
    "settled (intercept A cfg policy clock service tx) = Block why"
    "response = jsonRpcError i TRANSACTION_REJECTED ''Transaction rejected'' (Some why)"
    by (auto simp: one_interceptor)
  have told: "reported (readRpcResponse (rpcErrorBody response)) = screeningErrorFromProvingError (Some (JNum 10000)) (Some why)"
    by (simp add: read_rpc_error tx(3) jsonRpcError_def reported_def TRANSACTION_REJECTED_def)
  have only: "(\<exists>t. checked_tx accepts num parse maxBytes req t \<and> P t) \<longleftrightarrow> P tx" for P
    using tx(1) checked_unique by blast
  show ?thesis
    unfolding told only block_reasons [OF refl tx(2), symmetric]
    by (auto simp: screeningErrorFromProvingError_def new_ScreeningRejected_def new_ScreeningUnavailable_def reason_defs)
next
  assume none: "er_code response \<noteq> TRANSACTION_REJECTED \<and> (\<forall>tx. \<not> checked_tx accepts num parse maxBytes req tx)"
  then have "reported (readRpcResponse (rpcErrorBody response)) = None"
    by (simp add: read_rpc_error reported_def screeningErrorFromProvingError_def TRANSACTION_REJECTED_def)
  with none show ?thesis by simp
qed

definition blocking_service :: "nat \<Rightarrow> string \<Rightarrow> json http_response" where
  "blocking_service k address = Response 200 None (Inr (JObject [(''blocked'', JBool True)]))"

theorem screening_verdict_reported_witness:
  "let req = \<lparr>im_url = ''/'', im_method = ''POST'', im_contentLength = None, im_contentType = Some ''application/json'',
        im_events = [Data ''{}'', End]\<rparr>;
       response = jsonRpcError (JNum 1) TRANSACTION_REJECTED ''Transaction rejected'' (Some ''address_blocked'')
   in handleRequest zod_accepts (\<lambda>_. ''1'') (\<lambda>_. Some sample_rpc) 100
        (runInterceptors [0] [intercept sample_abi sample_screening (\<lambda>_. Some Exempt) (\<lambda>k. int k) blocking_service]) req =
        Some (200, RpcErrorReply response) \<and>
      reported (readRpcResponse (rpcErrorBody response)) = Some (ScreeningRejected ''Screening rejected: address_blocked'') \<and>
      (\<exists>tx. refused sample_abi sample_screening (\<lambda>_. Some Exempt) (\<lambda>k. int k) blocking_service tx)"
proof -
  let ?req = "\<lparr>im_url = ''/'', im_method = ''POST'', im_contentLength = None, im_contentType = Some ''application/json'',
        im_events = [Data ''{}'', End]\<rparr> :: IncomingMessage"
  let ?resp = "jsonRpcError (JNum 1) TRANSACTION_REJECTED ''Transaction rejected'' (Some ''address_blocked'')"
  have h: "handleRequest zod_accepts (\<lambda>_. ''1'') (\<lambda>_. Some sample_rpc) 100
      (runInterceptors [0] [intercept sample_abi sample_screening (\<lambda>_. Some Exempt) (\<lambda>k. int k) blocking_service]) ?req =
      Some (200, RpcErrorReply ?resp)" by code_simp
  have r: "reported (readRpcResponse (rpcErrorBody ?resp)) = Some (ScreeningRejected ''Screening rejected: address_blocked'')"
    by (simp add: read_rpc_error jsonRpcError_def reported_def TRANSACTION_REJECTED_def screeningErrorFromProvingError_def
        new_ScreeningRejected_def with_reason_def reason_defs)
  from screening_verdict_reported [OF h] r h show ?thesis by (auto simp: Let_def)
qed


section \<open>The decoder\<close>

text \<open>The length a value has at least when it is written as JSON text.\<close>

fun weight :: "json \<Rightarrow> nat" where
  "weight (JString s) = Suc (length s)"
| "weight (JArray xs) = Suc (sum_list (map weight xs))"
| "weight (JObject fs) = Suc (sum_list (map (\<lambda>f. weight (snd f)) fs))"
| "weight _ = 1"

definition shrinking :: "(string \<Rightarrow> json option) \<Rightarrow> bool" where
  "shrinking parse \<longleftrightarrow> (\<forall>s v. parse s = Some v \<longrightarrow> weight v \<le> length s)"

lemma those_some: "(\<And>x. x \<in> set xs \<Longrightarrow> \<exists>y. f x = Some y) \<Longrightarrow> \<exists>ys. those (map f xs) = Some ys"
proof (induction xs)
  case (Cons x xs)
  then obtain y ys where "f x = Some y" "those (map f xs) = Some ys" by fastforce
  then show ?case by simp
qed simp

lemma decode_items:
  assumes "\<And>v. weight v \<le> n \<Longrightarrow> \<exists>d. dec v = Some d" "sum_list (map weight xs) \<le> n"
  shows "\<exists>d. decodeErrorArray dec xs = Some d"
proof -
  have "\<exists>y. decode_item dec x = Some y" if "x \<in> set xs" for x
  proof -
    have "weight x \<le> n" using assms(2) member_le_sum_list [of "weight x" "map weight xs"] that by fastforce
    then show ?thesis using assms(1) by (auto simp: decode_item_def split: json.split)
  qed
  then show ?thesis using those_some [of xs "decode_item dec"] by (auto simp: decodeErrorArray_def)
qed

lemma decode_field_some:
  assumes "\<And>v. weight v \<le> n \<Longrightarrow> \<exists>d. dec v = Some d" "weight v \<le> n" "shrinking parse"
  shows "\<exists>d. decode_field parse m dec k v = Some d"
proof -
  have arr: "\<exists>d. decodeErrorArray dec xs = Some d" if "v = JString s" "parse s = Some (JArray xs)" for s xs
  proof (rule decode_items [OF assms(1)])
    show "sum_list (map weight xs) \<le> n" using that assms(2,3) by (fastforce simp: shrinking_def)
  qed
  obtain d where "dec v = Some d" using assms(1,2) by blast
  with arr show ?thesis by (auto simp: decode_field_def split: json.splits option.splits)
qed

lemma decode_some:
  assumes "shrinking parse"
  shows "weight v < n \<Longrightarrow> \<exists>d. decodeValue n parse m v = Some d"
proof (induction n arbitrary: v)
  case 0
  then show ?case by simp
next
  case (Suc n)
  have IH: "\<exists>d. decodeValue n parse m x = Some d" if "weight x \<le> n - 1" "0 < n" for x
    using Suc.IH [of x] that by simp
  have small: "weight v \<le> n" "0 < n" using Suc.prems by (cases v; simp)+
  show ?case
  proof (cases v)
    case (JString s)
    then show ?thesis using small IH assms by (fastforce simp: shrinking_def split: option.splits)
  next
    case (JArray xs)
    then show ?thesis using decode_items [of "n - 1" "decodeValue n parse m" xs] IH small by auto
  next
    case (JObject fs)
    have "\<exists>y. (\<lambda>(k, x). map_option (Pair k) (decode_field parse m (decodeValue n parse m) k x)) f = Some y" if "f \<in> set fs" for f
    proof -
      have "weight (snd f) \<le> n - 1"
        using small JObject member_le_sum_list [of "weight (snd f)" "map (\<lambda>f. weight (snd f)) fs"] that by fastforce
      from decode_field_some [OF _ this assms, of "decodeValue n parse m" m "fst f"] IH small show ?thesis
        by (auto simp: case_prod_unfold)
    qed
    then show ?thesis using JObject
      those_some [of "filter (\<lambda>(k, _). k \<noteq> ''__proto__'') fs" "\<lambda>(k, x). map_option (Pair k) (decode_field parse m (decodeValue n parse m) k x)"]
      by auto
  qed simp_all
qed

text \<open>
  The decoder returns for every value: its calls on what \<open>JSON.parse\<close> has read end, because a value is
  never heavier than the text it is read from, and the original is kept beside the decoded form.
\<close>

theorem decoder_returns:
  assumes "shrinking parse" "weight v < fuel"
  shows "\<exists>e. decodeError fuel parse m v = Some e \<and> de_raw e = v"
proof -
  obtain d where "decodeValue fuel parse m v = Some d" using decode_some [OF assms] by blast
  then show ?thesis by (simp add: decodeError_def)
qed

theorem decoder_returns_witness:
  "shrinking (\<lambda>s. if s = ''[1]'' then Some (JArray [JNum 1]) else None) \<and>
   (\<exists>e. decodeError 20 (\<lambda>s. if s = ''[1]'' then Some (JArray [JNum 1]) else None) []
      (JObject [(''error'', JString ''[1]''), (''x'', JString ''0x6869'')]) = Some e \<and>
      de_raw e = JObject [(''error'', JString ''[1]''), (''x'', JString ''0x6869'')])"
proof -
  have "shrinking (\<lambda>s. if s = ''[1]'' then Some (JArray [JNum 1]) else None)" by (auto simp: shrinking_def)
  from this decoder_returns [OF this, of "JObject [(''error'', JString ''[1]''), (''x'', JString ''0x6869'')]" 20 "[]"]
  show ?thesis by simp
qed

text \<open>A printable short string comes back from its felt.\<close>

definition hex_pair :: "char \<Rightarrow> string" where
  "hex_pair c = [digit_char (of_char c div 16), digit_char (of_char c mod 16)]"

definition printable :: "char \<Rightarrow> bool" where
  "printable c \<longleftrightarrow> 32 \<le> (of_char c :: nat) \<and> (of_char c :: nat) \<le> 126"

lemma hex_pair_value:
  assumes "printable c"
  shows "parseInt16 (hex_pair c) = Some (int (of_char c))"
proof -
  define n where "n = (of_char c :: nat)"
  define x where "x = digit_char (n div 16)"
  define y where "y = digit_char (n mod 16)"
  have n: "32 \<le> n" "n \<le> 126" using assms by (simp_all add: printable_def n_def)
  then have vals: "digit_val x = Some (n div 16)" "digit_val y = Some (n mod 16)" by (simp_all add: x_def y_def)
  have hi: "2 \<le> n div 16" "n div 16 < 16" using n by simp_all
  have "\<not> is_ws x" using hi by (simp add: x_def digit_char_not_ws)
  moreover have "x \<notin> {CHR ''-'', CHR ''+''}" using vals(1) by (auto simp: digit_val_def)
  moreover have "x \<noteq> CHR ''0''" using vals(1) hi by (auto simp: digit_val_def)
  moreover have "is_hex_digit x" "is_hex_digit y" using vals hi by (simp_all add: is_hex_digit_def)
  moreover have "parse_nat 16 [x, y] = Some n" using hi vals by (simp add: parse_nat_def)
  ultimately have "parseInt16 [x, y] = Some (int n)" by (simp add: parseInt16_def Let_def)
  then show ?thesis by (simp add: hex_pair_def x_def y_def n_def)
qed

lemma hex_chars_back: "list_all printable s \<Longrightarrow> hex_chars (concat (map hex_pair s)) = Some s"
proof (induction s)
  case (Cons c s)
  from Cons.prems hex_pair_value [of c] have v: "parseInt16 (hex_pair c) = Some (int (of_char c))" "printable c" by simp_all
  obtain a b where ab: "hex_pair c = [a, b]" by (simp add: hex_pair_def)
  show ?case using Cons v by (simp add: ab printable_def)
qed simp

theorem short_string_decoded:
  assumes "s \<noteq> []" "list_all printable s"
  shows "hexToString (JString (''0x'' @ concat (map hex_pair s))) = JString s"
  using assms by (simp add: hexToString_def hex_text_def hex_chars_back)

theorem short_string_decoded_witness:
  "hexToString (JString ''0x4e4f5445'') = JString ''NOTE''"
proof -
  have "''0x'' @ concat (map hex_pair ''NOTE'') = ''0x4e4f5445''" by code_simp
  moreover have "list_all printable ''NOTE''" by code_simp
  ultimately show ?thesis using short_string_decoded [of "''NOTE''"] by simp
qed

end
