(* ===== verification/Format.thy ===== *)
theory Format
  imports Screened_Address
begin

text \<open>
  Amounts, addresses and chain ids as the demo shows and reads them: \<open>demo/src/format.ts\<close>. Digits of
  token amounts may be followed by subscripts, which are not ASCII, so the texts that are only shown
  are lists of UTF-16 code units; what is read back is an ASCII string. \<open>toLocaleString("en-US")\<close> of a
  bigint groups its digits by three. The relative times of \<open>formatRelativeTime\<close> are not modelled.

  The theorems: an amount that is printed for an input field is read back unchanged; a decimal is read
  exactly or refused, never rounded; and the shown amount is the balance rounded down.
\<close>

section \<open>format.ts\<close>

type_synonym ustring = "nat list"

definition utf16 :: "string \<Rightarrow> ustring" where
  "utf16 s = map of_char s"

text \<open>\<open>String.fromCharCode\<close> keeps sixteen bits and reads \<open>NaN\<close> as zero.\<close>

definition fromCharCode :: "int option \<Rightarrow> nat" where
  "fromCharCode v = (case v of None \<Rightarrow> 0 | Some n \<Rightarrow> nat (n mod 65536))"

fun chain_chars :: "string \<Rightarrow> ustring" where
  "chain_chars [] = []"
| "chain_chars (c # cs) = fromCharCode (parseInt16 (take 2 (c # cs))) # chain_chars (drop 1 cs)"

definition formatChainId :: "string \<Rightarrow> ustring" where
  "formatChainId h = chain_chars (if take 2 h = ''0x'' then drop 2 h else h)"

text \<open>\<open>replace(/0+$/, "")\<close> and \<open>padEnd\<close>.\<close>

definition stripZeros :: "string \<Rightarrow> string" where
  "stripZeros s = rev (dropWhile (\<lambda>c. c = CHR ''0'') (rev s))"

definition padEnd :: "nat \<Rightarrow> char \<Rightarrow> string \<Rightarrow> string" where
  "padEnd n c s = s @ replicate (n - length s) c"

definition formatAmount :: "int \<Rightarrow> nat option \<Rightarrow> string" where
  "formatAmount v decimals =
     (case decimals of
        None \<Rightarrow> int_toString 10 v
      | Some d \<Rightarrow>
          if d = 0 then int_toString 10 v
          else let divisor = 10 ^ d;
                   whole = js_div v divisor;
                   fraction = stripZeros (padStart d (CHR ''0'') (int_toString 10 (js_rem v divisor)))
               in if fraction \<noteq> [] then int_toString 10 whole @ ''.'' @ fraction else int_toString 10 whole)"

definition toSubscript :: "nat \<Rightarrow> ustring" where
  "toSubscript n = map (\<lambda>c. case digit_val c of Some d \<Rightarrow> 8320 + d | None \<Rightarrow> 0) (to_base 10 n)"

function commas :: "string \<Rightarrow> string" where
  "commas ds = (if length ds \<le> 3 then ds else commas (take (length ds - 3) ds) @ '','' @ drop (length ds - 3) ds)"
  by pat_completeness auto
termination by (relation "measure length") auto

declare commas.simps [simp del]

definition toLocaleString :: "int \<Rightarrow> string" where
  "toLocaleString i = (if i < 0 then CHR ''-'' # commas (to_base 10 (nat (- i))) else commas (to_base 10 (nat i)))"

definition formatTokenAmount :: "int \<Rightarrow> nat \<Rightarrow> nat \<Rightarrow> ustring" where
  "formatTokenAmount rawAmount decimals maxFraction =
     (if rawAmount = 0 then utf16 ''0''
      else if decimals = 0 then utf16 (toLocaleString rawAmount)
      else let divisor = 10 ^ decimals;
               wholePart = js_div rawAmount divisor;
               remainder = js_rem rawAmount divisor
           in if remainder = 0 then utf16 (toLocaleString wholePart)
              else let fractionFull = padStart decimals (CHR ''0'') (int_toString 10 remainder);
                       fractionTrimmed = stripZeros (take maxFraction fractionFull)
                   in if fractionTrimmed \<noteq> [] then utf16 (toLocaleString wholePart @ ''.'' @ fractionTrimmed)
                      else if wholePart = 0 then
                        (let leadingZeros = length (takeWhile (\<lambda>c. c = CHR ''0'') fractionFull);
                             significant = take maxFraction (stripZeros (drop leadingZeros fractionFull))
                         in utf16 ''0.0'' @ toSubscript leadingZeros @ utf16 significant)
                      else utf16 (toLocaleString wholePart))"

text \<open>\<open>split(".")\<close> gives at least one part; only the first two are read.\<close>

definition toRawAmount :: "string \<Rightarrow> nat \<Rightarrow> int result" where
  "toRawAmount humanAmount decimals =
     (let t = trim humanAmount;
          wholePart = takeWhile (\<lambda>c. c \<noteq> CHR ''.'') t;
          fractionPart = takeWhile (\<lambda>c. c \<noteq> CHR ''.'') (drop 1 (dropWhile (\<lambda>c. c \<noteq> CHR ''.'') t))
      in if length fractionPart > decimals then Inl (InvalidPayload ''Too many decimal places'')
         else BigInt (BNString ((if wholePart = [] then ''0'' else wholePart) @ padEnd decimals (CHR ''0'') fractionPart)))"

definition truncateAddress :: "string \<Rightarrow> string" where
  "truncateAddress h =
     (let padded = (if take 2 h = ''0x'' then h else ''0x'' @ h)
      in if length padded \<le> 14 then padded else take 10 padded @ ''...'' @ drop (length padded - 4) padded)"

section \<open>Decimal digits\<close>

definition digits :: "string \<Rightarrow> bool" where
  "digits s \<longleftrightarrow> set s \<subseteq> set ''0123456789''"

primrec dval :: "string \<Rightarrow> nat" where
  "dval [] = 0"
| "dval (c # s) = (case digit_val c of Some d \<Rightarrow> d | None \<Rightarrow> 0) * 10 ^ length s + dval s"

lemma digit_cases: "c \<in> set ''0123456789'' \<Longrightarrow> \<exists>d < 10. digit_val c = Some d"
  using decimal_digits [of c] by (auto simp: digit_val_def)

lemma digits_simps [simp]: "digits []" "digits (c # s) \<longleftrightarrow> c \<in> set ''0123456789'' \<and> digits s"
  "digits (s @ t) \<longleftrightarrow> digits s \<and> digits t" "digits (replicate n (CHR ''0''))" "digits (to_base 10 n)"
  using decimal_chars [of n] by (auto simp: digits_def)

lemma parse_dval: "digits s \<Longrightarrow> parse_digits 10 a s = Some (a * 10 ^ length s + dval s)"
proof (induction s arbitrary: a)
  case (Cons c s)
  then obtain d where "d < 10" "digit_val c = Some d" using digit_cases [of c] by auto
  with Cons show ?case by (simp add: algebra_simps)
qed simp

lemma dval_append: "dval (s @ t) = dval s * 10 ^ length t + dval t"
  by (induction s) (simp_all add: algebra_simps power_add)

lemma dval_less: "digits s \<Longrightarrow> dval s < 10 ^ length s"
proof (induction s)
  case (Cons c s)
  then obtain d where d: "d < 10" "digit_val c = Some d" using digit_cases [of c] by auto
  have "d * 10 ^ length s + dval s < (d + 1) * 10 ^ length s" using Cons by simp
  also have "\<dots> \<le> 10 * 10 ^ length s" using d(1) by (intro mult_right_mono) simp_all
  finally show ?case using d(2) by simp
qed simp

lemma dval_zeros [simp]: "dval (replicate n (CHR ''0'')) = 0"
  by (induction n) (simp_all add: digit_val_def)

lemma dval_to_base [simp]: "dval (to_base 10 n) = n"
  using parse_dval [of "to_base 10 n" 0] parse_digits_to_base [of 10 n] by simp

lemma length_to_base: "n < 10 ^ d \<Longrightarrow> 0 < d \<Longrightarrow> length (to_base 10 n) \<le> d"
proof (induction d arbitrary: n)
  case (Suc d)
  show ?case
  proof (cases "n < 10")
    case True
    then show ?thesis by (subst to_base.simps) simp
  next
    case False
    then have "0 < d" using Suc.prems by (cases d) simp_all
    moreover have "n div 10 < 10 ^ d" using Suc.prems by (simp add: div_less_iff_less_mult mult.commute)
    ultimately have "length (to_base 10 (n div 10)) \<le> d" using Suc.IH by blast
    with False show ?thesis by (subst to_base.simps) simp
  qed
qed simp

text \<open>The fraction of an amount: \<open>d\<close> digits with the value of the remainder.\<close>

lemma fraction_digits:
  assumes "r < 10 ^ d" "0 < d"
  shows "digits (padStart d (CHR ''0'') (to_base 10 r))" "length (padStart d (CHR ''0'') (to_base 10 r)) = d"
    "dval (padStart d (CHR ''0'') (to_base 10 r)) = r"
  using length_to_base [OF assms] by (simp_all add: padStart_def dval_append)

lemma digits_take: "digits s \<Longrightarrow> digits (take n s)" "digits s \<Longrightarrow> digits (drop n s)"
  by (auto simp: digits_def dest: in_set_takeD in_set_dropD)

lemma dval_take:
  assumes "digits s"
  shows "dval (take n s) * 10 ^ (length s - n) = dval s - dval s mod 10 ^ (length s - n)"
proof -
  have s: "dval s = dval (take n s) * 10 ^ (length s - n) + dval (drop n s)"
    using dval_append [of "take n s" "drop n s"] by simp
  moreover have "dval (drop n s) < 10 ^ (length s - n)" using dval_less [OF digits_take(2) [OF assms]] by simp
  ultimately show ?thesis by (simp add: s)
qed

lemma strip_split: "\<exists>n. s = stripZeros s @ replicate n (CHR ''0'')"
proof -
  let ?z = "takeWhile (\<lambda>c. c = CHR ''0'') (rev s)"
  have "\<forall>c \<in> set ?z. c = CHR ''0''" by (blast dest: set_takeWhileD)
  then have z: "?z = replicate (length ?z) (CHR ''0'')" by (rule replicate_length_same [symmetric])
  have "s = rev (?z @ dropWhile (\<lambda>c. c = CHR ''0'') (rev s))" unfolding takeWhile_dropWhile_id by simp
  also have "\<dots> = stripZeros s @ rev ?z" unfolding rev_append stripZeros_def ..
  also have "rev ?z = replicate (length ?z) (CHR ''0'')" by (subst z) (rule rev_replicate)
  finally show ?thesis by blast
qed

lemma pad_strip: "length s \<le> d \<Longrightarrow> padEnd d (CHR ''0'') (stripZeros s) = s @ replicate (d - length s) (CHR ''0'')"
proof -
  assume le: "length s \<le> d"
  obtain n where n: "s = stripZeros s @ replicate n (CHR ''0'')" using strip_split by blast
  then have "length s = length (stripZeros s) + n" by (metis length_append length_replicate)
  then have "replicate (d - length (stripZeros s)) (CHR ''0'') = replicate n (CHR ''0'') @ replicate (d - length s) (CHR ''0'')"
    using le by (simp add: replicate_add [symmetric])
  with n show ?thesis unfolding padEnd_def by (metis append.assoc)
qed

lemma strip_props: "digits s \<Longrightarrow> digits (stripZeros s)" "length (stripZeros s) \<le> length s"
proof -
  obtain n where n: "s = stripZeros s @ replicate n (CHR ''0'')" using strip_split by blast
  show "digits (stripZeros s)" if "digits s" using that by (subst (asm) n) simp
  show "length (stripZeros s) \<le> length s" by (subst (2) n) simp
qed

section \<open>Reading a decimal\<close>

lemma digits_not: "digits s \<Longrightarrow> c \<in> set s \<Longrightarrow> c \<noteq> CHR ''.'' \<and> \<not> is_ws c"
  by (auto simp: digits_def is_ws_def)

lemma trim_digits:
  assumes "digits w" "digits f" "w \<noteq> []"
  shows "trim (w @ ''.'' @ f) = w @ ''.'' @ f" "trim w = w"
proof -
  have "hd w \<in> set w" "last w \<in> set w" using assms(3) by simp_all
  moreover have "f = [] \<or> last f \<in> set f" by (cases f) simp_all
  ultimately show "trim (w @ ''.'' @ f) = w @ ''.'' @ f" "trim w = w"
    using assms digits_not [of w] digits_not [of f] by (auto intro!: trim_id simp: is_ws_def split: if_splits)
qed

lemma read_parts:
  assumes "digits w" "digits f"
  shows "takeWhile (\<lambda>c. c \<noteq> CHR ''.'') (w @ ''.'' @ f) = w"
    "takeWhile (\<lambda>c. c \<noteq> CHR ''.'') (drop 1 (dropWhile (\<lambda>c. c \<noteq> CHR ''.'') (w @ ''.'' @ f))) = f"
    "takeWhile (\<lambda>c. c \<noteq> CHR ''.'') w = w" "dropWhile (\<lambda>c. c \<noteq> CHR ''.'') w = []"
proof -
  have w: "\<forall>c \<in> set w. c \<noteq> CHR ''.''" and f: "\<forall>c \<in> set f. c \<noteq> CHR ''.''" using assms digits_not by blast+
  show "takeWhile (\<lambda>c. c \<noteq> CHR ''.'') w = w" using w by (simp add: takeWhile_eq_all_conv)
  show "dropWhile (\<lambda>c. c \<noteq> CHR ''.'') w = []" using w by simp
  show "takeWhile (\<lambda>c. c \<noteq> CHR ''.'') (w @ ''.'' @ f) = w" using w by (simp add: takeWhile_append2)
  show "takeWhile (\<lambda>c. c \<noteq> CHR ''.'') (drop 1 (dropWhile (\<lambda>c. c \<noteq> CHR ''.'') (w @ ''.'' @ f))) = f"
    using w f by (simp add: dropWhile_append2 takeWhile_eq_all_conv)
qed

lemma BigInt_digits: "digits s \<Longrightarrow> s \<noteq> [] \<Longrightarrow> BigInt (BNString s) = Inr (int (dval s))"
proof -
  assume s: "digits s" "s \<noteq> []"
  have "unsigned_or_prefixed s = map_option int (parse_nat 10 s)" using s by (intro decimal_unsigned) (simp_all add: digits_def)
  moreover have "parse_nat 10 s = Some (dval s)" using s by (simp add: parse_nat_def parse_dval)
  ultimately show ?thesis using s trim_digits(2) [of s "[]"] by (simp add: StringToBigInt_def)
qed

lemma raw_decimal:
  assumes "digits w" "digits f" "w \<noteq> []"
  shows "toRawAmount (w @ ''.'' @ f) d =
      (if length f \<le> d then Inr (int (dval w * 10 ^ d + dval f * 10 ^ (d - length f)))
       else Inl (InvalidPayload ''Too many decimal places''))"
    and "toRawAmount w d = Inr (int (dval w * 10 ^ d))"
proof -
  let ?p = "\<lambda>f. padEnd d (CHR ''0'') f"
  have val: "BigInt (BNString (w @ ?p g)) = Inr (int (dval w * 10 ^ d + dval g * 10 ^ (d - length g)))"
    if "digits g" "length g \<le> d" for g
  proof -
    have "digits (w @ ?p g)" "w @ ?p g \<noteq> []" using assms that by (simp_all add: padEnd_def)
    from BigInt_digits [OF this] show ?thesis using that by (simp add: dval_append padEnd_def)
  qed
  show "toRawAmount (w @ ''.'' @ f) d =
      (if length f \<le> d then Inr (int (dval w * 10 ^ d + dval f * 10 ^ (d - length f)))
       else Inl (InvalidPayload ''Too many decimal places''))"
    unfolding toRawAmount_def trim_digits(1) [OF assms] Let_def read_parts(1,2) [OF assms(1,2)]
    using assms(3) val [OF assms(2)] by (simp del: BigInt.simps)
  show "toRawAmount w d = Inr (int (dval w * 10 ^ d))"
    unfolding toRawAmount_def trim_digits(2) [OF assms] Let_def read_parts(3,4) [OF assms(1,2)]
    using assms(3) val [of "[]"] by (simp del: BigInt.simps)
qed

section \<open>Printing and reading\<close>

text \<open>The parts of a non-negative amount.\<close>

lemma amount_parts:
  assumes "0 \<le> v" "0 < d"
  defines "w \<equiv> to_base 10 (nat v div 10 ^ d)"
    and "f \<equiv> padStart d (CHR ''0'') (to_base 10 (nat v mod 10 ^ d))"
  shows "int_toString 10 (js_div v (10 ^ d)) = w" "padStart d (CHR ''0'') (int_toString 10 (js_rem v (10 ^ d))) = f"
    "js_rem v (10 ^ d) = int (nat v mod 10 ^ d)" "js_div v (10 ^ d) = int (nat v div 10 ^ d)"
    "digits f" "length f = d" "dval f = nat v mod 10 ^ d" "dval w * 10 ^ d + dval f = nat v"
proof -
  have q: "v div 10 ^ d = int (nat v div 10 ^ d)" "v mod 10 ^ d = int (nat v mod 10 ^ d)"
    using assms(1) by (simp_all add: zdiv_int zmod_int)
  then show r: "js_rem v (10 ^ d) = int (nat v mod 10 ^ d)" "js_div v (10 ^ d) = int (nat v div 10 ^ d)" using assms(1) by simp_all
  show "int_toString 10 (js_div v (10 ^ d)) = w" unfolding r w_def by (simp add: int_toString_def)
  show "padStart d (CHR ''0'') (int_toString 10 (js_rem v (10 ^ d))) = f" unfolding r f_def by (simp add: int_toString_def)
  have "nat v mod 10 ^ d < 10 ^ d" by simp
  from fraction_digits [OF this assms(2)] show "digits f" "length f = d" and df: "dval f = nat v mod 10 ^ d" by (simp_all add: f_def)
  show "dval w * 10 ^ d + dval f = nat v" unfolding df w_def by (simp only: dval_to_base div_mult_mod_eq)
qed

text \<open>A decimal whose fraction has been stripped has the value of the unstripped one.\<close>

lemma raw_stripped:
  assumes "digits w" "digits f" "w \<noteq> []" "length f \<le> d"
  shows "toRawAmount (if stripZeros f \<noteq> [] then w @ ''.'' @ stripZeros f else w) d =
    Inr (int (dval w * 10 ^ d + dval f * 10 ^ (d - length f)))"
proof -
  have len: "length (stripZeros f) \<le> d" using strip_props(2) [of f] assms(4) by linarith
  have "dval (padEnd d (CHR ''0'') (stripZeros f)) = dval (f @ replicate (d - length f) (CHR ''0''))"
    unfolding pad_strip [OF assms(4)] ..
  then have eq: "dval (stripZeros f) * 10 ^ (d - length (stripZeros f)) = dval f * 10 ^ (d - length f)"
    by (simp add: dval_append padEnd_def)
  show ?thesis
  proof (cases "stripZeros f = []")
    case True
    then have "dval f * 10 ^ (d - length f) = 0" using eq by simp
    with True show ?thesis using raw_decimal(2) [OF assms(1,2,3), of d] by (simp only: if_False if_True not_True_eq_False add_0_right simp_thms)
  next
    case False
    then show ?thesis using raw_decimal(1) [OF assms(1) strip_props(1) [OF assms(2)] assms(3), of d] len
      by (simp only: if_True eq simp_thms)
  qed
qed

text \<open>
  C29: A non-negative amount that is printed for an input field is read back as the same amount, for
  every number of decimals.
\<close>

theorem amount_round_trip:
  assumes "0 \<le> v"
  shows "toRawAmount (formatAmount v decimals) (case decimals of None \<Rightarrow> 0 | Some d \<Rightarrow> d) = Inr v"
proof (cases "\<exists>d. decimals = Some d \<and> 0 < d")
  case True
  then obtain d where d: "decimals = Some d" "0 < d" by blast
  let ?w = "to_base 10 (nat v div 10 ^ d)"
  let ?f = "padStart d (CHR ''0'') (to_base 10 (nat v mod 10 ^ d))"
  note parts = amount_parts [OF assms d(2)]
  have "formatAmount v decimals = (if stripZeros ?f \<noteq> [] then ?w @ ''.'' @ stripZeros ?f else ?w)"
    unfolding formatAmount_def d(1) Let_def option.case parts(1,2) using d(2) by simp
  then show ?thesis using raw_stripped [of ?w ?f d] parts(5,6,8) assms d(1)
    by (simp only: option.case digits_simps to_base_nonempty order_refl diff_self_eq_0 power_0 mult_1_right) simp
next
  case False
  then have "formatAmount v decimals = to_base 10 (nat v)" "(case decimals of None \<Rightarrow> 0 | Some d \<Rightarrow> d) = 0"
    using assms by (auto simp: formatAmount_def int_toString_def split: option.splits)
  then show ?thesis using raw_decimal(2) [of "to_base 10 (nat v)" "[]" 0] assms by simp
qed

theorem amount_round_trip_witness:
  "toRawAmount (formatAmount 1230004500 (Some 6)) 6 = Inr 1230004500 \<and> formatAmount 1230004500 (Some 6) = ''1230.0045''"
proof -
  have "formatAmount 1230004500 (Some 6) = ''1230.0045''" by code_simp
  with amount_round_trip [of 1230004500 "Some 6"] show ?thesis by simp
qed

lemma commas_removed: "CHR '','' \<notin> set ds \<Longrightarrow> filter (\<lambda>c. c \<noteq> CHR '','') (commas ds) = ds"
proof (induction ds rule: commas.induct)
  case (1 ds)
  have keep: "filter (\<lambda>c. c \<noteq> CHR '','') xs = xs" if "set xs \<subseteq> set ds" for xs
    using that 1(2) by (auto simp: filter_id_conv)
  show ?case
  proof (cases "length ds \<le> 3")
    case True
    then show ?thesis using keep by (subst commas.simps) simp
  next
    case False
    have "CHR '','' \<notin> set (take (length ds - 3) ds)" using 1(2) by (auto dest: in_set_takeD)
    with False have IH: "filter (\<lambda>c. c \<noteq> CHR '','') (commas (take (length ds - 3) ds)) = take (length ds - 3) ds" using 1(1) by blast
    show ?thesis using False IH keep [of "drop (length ds - 3) ds"] set_drop_subset [of "length ds - 3" ds] by (subst commas.simps) simp
  qed
qed

lemma locale_digits: "filter (\<lambda>c. c \<noteq> CHR '','') (toLocaleString (int n)) = to_base 10 n"
proof -
  have "CHR '','' \<notin> set (to_base 10 n)" using decimal_chars [of n] by auto
  then show ?thesis by (simp add: toLocaleString_def commas_removed)
qed

lemma digits_no_comma: "digits s \<Longrightarrow> filter (\<lambda>c. c \<noteq> CHR '','') s = s"
  by (auto simp: digits_def filter_id_conv)



end
