(* ===== verification/Demo_Config.thy ===== *)
theory Demo_Config
  imports Format Schemas
begin

text \<open>
  Configuration and accounts of the demo application: \<open>demo/src/config.ts\<close>, \<open>session.ts\<close>,
  \<open>hooks/useAccounts.ts\<close> and \<open>hooks/useLastTxBlock.ts\<close>. \<open>import.meta.env\<close> is a function from names to
  values. A JSON text of the environment is taken to hold values of the declared type, as the casts of
  the source do; the parser is a parameter that may refuse the text.

  The theorems: every vault token is in the token list exactly once, by value; a derived viewing key is
  canonical except at the two middle values of the order; an imported account list only holds usable
  accounts; and the last known block number never goes back for one account.
\<close>

section \<open>config.ts\<close>

record AccountConfig =
  ac_name :: string
  ac_address :: string
  ac_privateKey :: "string option"
  ac_viewingKey :: "string option"
  ac_admin :: bool

record TokenConfig =
  tk_name :: string
  tk_address :: string
  tk_decimals :: nat
  tk_fee :: "bool option"
  tk_mintEntrypoint :: "string option"

record EkuboPool =
  ek_token0 :: string
  ek_token1 :: string
  ek_fee :: string
  ek_tickSpacing :: string
  ek_extension :: string
  ek_skipAhead :: string

record EkuboConfig =
  ek_coreAddress :: string
  ek_routerAddress :: string
  ek_executorAddress :: string
  ek_pools :: "EkuboPool list"
  ek_swapTokens :: "TokenConfig list"

text \<open>\<open>pools.find\<close>; a token that is no number throws when it is reached.\<close>

fun find_pool :: "int \<Rightarrow> int \<Rightarrow> EkuboPool list \<Rightarrow> EkuboPool option result" where
  "find_pool a b [] = Inr None"
| "find_pool a b (p # ps) =
     bindR (BigInt (BNString (ek_token0 p))) (\<lambda>t0.
     bindR (BigInt (BNString (ek_token1 p))) (\<lambda>t1.
     if (t0 = a \<and> t1 = b) \<or> (t0 = b \<and> t1 = a) then Inr (Some p) else find_pool a b ps))"

definition findEkuboPool :: "EkuboConfig option \<Rightarrow> string \<Rightarrow> string \<Rightarrow> EkuboPool option result" where
  "findEkuboPool ekubo fromToken toToken =
     (case ekubo of
        None \<Rightarrow> Inr None
      | Some c \<Rightarrow>
          if fromToken = [] \<or> toToken = [] then Inr None
          else bindR (BigInt (BNString fromToken)) (\<lambda>a. bindR (BigInt (BNString toToken)) (\<lambda>b. find_pool a b (ek_pools c))))"

record VesuVault =
  vv_tokenConfig :: TokenConfig
  vv_vTokenAddress :: string

record VesuConfig =
  ve_anonymizerAddress :: string
  ve_vaults :: "VesuVault list"

record AppConfig =
  cf_rpcUrl :: string
  cf_indexerUrl :: string
  cf_poolAddress :: string
  cf_poolClassHash :: string
  cf_compliancePublicKey :: string
  cf_proofValidityBlocks :: string
  cf_tokens :: "TokenConfig list"
  cf_chainId :: string
  cf_provingServiceUrl :: "string option"
  cf_backendIndexerUrl :: "string option"
  cf_backendProverUrl :: "string option"
  cf_ohttpKeyConfig :: "nat list option"
  cf_gatewayUrl :: "string option"
  cf_feederGatewayUrl :: "string option"
  cf_explorerUrl :: "string option"
  cf_ekubo :: "EkuboConfig option"
  cf_vesu :: "VesuConfig option"
  cf_ohttpEnabled :: "bool option"
  cf_paymasterUrl :: "string option"
  cf_paymasterFeeToken :: "string option"
  cf_avnuApiKey :: "string option"
  cf_paymasterForwarderAddress :: "string option"
  cf_feeAmount :: "int option"
  cf_feeCollectorAddress :: "string option"

type_synonym env = "string \<Rightarrow> string option"

text \<open>The empty string is falsy.\<close>

definition set_text :: "string option \<Rightarrow> bool" where
  "set_text v = (case v of None \<Rightarrow> False | Some s \<Rightarrow> s \<noteq> [])"

definition requireEnv :: "env \<Rightarrow> string \<Rightarrow> string result" where
  "requireEnv env k = (if set_text (env k) then Inr (the (env k)) else Inl (ConfigError (''Missing env var: '' @ k)))"

text \<open>The JSON texts of the environment, read at their declared types.\<close>

record config_parsers =
  parseTokens :: "string \<Rightarrow> TokenConfig list option"
  parsePools :: "string \<Rightarrow> EkuboPool list option"
  parseVaults :: "string \<Rightarrow> (string \<times> string) list option"     \<comment> \<open>token name and vToken address\<close>
  decodeKeys :: "string \<Rightarrow> nat list option"                     \<comment> \<open>\<open>atob\<close>, as character codes\<close>

definition token_values :: "TokenConfig list \<Rightarrow> (int, TokenConfig) jsmap result" where
  "token_values tks = foldR (\<lambda>m t. bindR (BigInt (BNString (tk_address t))) (\<lambda>a. Inr (jm_set m a t))) [] tks"

definition add_value :: "int list \<Rightarrow> int \<Rightarrow> int list" where
  "add_value s a = (if a \<in> set s then s else s @ [a])"

definition pool_values :: "EkuboPool list \<Rightarrow> int list result" where
  "pool_values pools = foldR (\<lambda>s p.
     bindR (BigInt (BNString (ek_token0 p))) (\<lambda>t0.
     bindR (BigInt (BNString (ek_token1 p))) (\<lambda>t1. Inr (add_value (add_value s t0) t1)))) [] pools"

definition parseEkuboConfig :: "config_parsers \<Rightarrow> env \<Rightarrow> TokenConfig list \<Rightarrow> EkuboConfig option result" where
  "parseEkuboConfig P env tks =
     (if \<not> set_text (env ''VITE_EKUBO_EXECUTOR_ADDRESS'') then Inr None
      else bindR (requireEnv env ''VITE_EKUBO_POOLS'') (\<lambda>poolsRaw.
        case parsePools P poolsRaw of
          None \<Rightarrow> Inl (ConfigError ''VITE_EKUBO_POOLS must be a JSON array of pool configs'')
        | Some pools \<Rightarrow>
            bindR (token_values tks) (\<lambda>tokenByBigInt.
            bindR (pool_values pools) (\<lambda>addressesInPools.
            bindR (requireEnv env ''VITE_EKUBO_CORE_ADDRESS'') (\<lambda>core.
            bindR (requireEnv env ''VITE_EKUBO_ROUTER_ADDRESS'') (\<lambda>router.
            Inr (Some \<lparr>ek_coreAddress = core, ek_routerAddress = router,
                  ek_executorAddress = the (env ''VITE_EKUBO_EXECUTOR_ADDRESS''), ek_pools = pools,
                  ek_swapTokens = List.map_filter (jm_get tokenByBigInt) addressesInPools\<rparr>)))))))"

definition parseVesuConfig :: "config_parsers \<Rightarrow> env \<Rightarrow> TokenConfig list \<Rightarrow> VesuConfig option result" where
  "parseVesuConfig P env tks =
     (if \<not> set_text (env ''VITE_VESU_LENDING_HELPER_ADDRESS'') then Inr None
      else bindR (requireEnv env ''VITE_VESU'') (\<lambda>raw.
        case parseVaults P raw of
          None \<Rightarrow> Inl (ConfigError ''VITE_VESU must be valid JSON'')
        | Some vaults \<Rightarrow>
            (let tokenByName = foldl (\<lambda>m t. jm_set m (tk_name t) t) [] tks in
             bindR (mapR (\<lambda>(token, vToken). case jm_get tokenByName token of
                 None \<Rightarrow> Inl (ConfigError (''VITE_VESU vaults: unknown token '' @ token))
               | Some t \<Rightarrow> Inr \<lparr>vv_tokenConfig = t, vv_vTokenAddress = vToken\<rparr>) vaults) (\<lambda>vs.
             Inr (Some \<lparr>ve_anonymizerAddress = the (env ''VITE_VESU_LENDING_HELPER_ADDRESS''), ve_vaults = vs\<rparr>)))))"

definition vault_token :: "VesuVault \<Rightarrow> TokenConfig" where
  "vault_token v = \<lparr>tk_name = ''v'' @ tk_name (vv_tokenConfig v), tk_address = vv_vTokenAddress v, tk_decimals = 18,
     tk_fee = None, tk_mintEntrypoint = None\<rparr>"

definition addVault :: "TokenConfig list \<times> int list \<Rightarrow> VesuVault \<Rightarrow> (TokenConfig list \<times> int list) result" where
  "addVault s v = bindR (BigInt (BNString (vv_vTokenAddress v))) (\<lambda>a.
     if a \<in> set (snd s) then Inr s else Inr (fst s @ [vault_token v], snd s @ [a]))"

definition addVaults :: "VesuConfig option \<Rightarrow> TokenConfig list \<Rightarrow> TokenConfig list result" where
  "addVaults vesu tks =
     (case vesu of
        None \<Rightarrow> Inr tks
      | Some c \<Rightarrow>
          bindR (mapR (\<lambda>t. BigInt (BNString (tk_address t))) tks) (\<lambda>known.
          bindR (foldR addVault (tks, known) (ve_vaults c)) (\<lambda>s. Inr (fst s))))"

definition loadConfig :: "config_parsers \<Rightarrow> env \<Rightarrow> AppConfig result" where
  "loadConfig P env =
     bindR (requireEnv env ''VITE_TOKENS'') (\<lambda>tokensRaw.
     case parseTokens P tokensRaw of
       None \<Rightarrow> Inl (ConfigError ''VITE_TOKENS must be valid JSON array'')
     | Some tokens0 \<Rightarrow>
     bindR (parseEkuboConfig P env tokens0) (\<lambda>ekubo.
     bindR (parseVesuConfig P env tokens0) (\<lambda>vesu.
     bindR (addVaults vesu tokens0) (\<lambda>tks.
     bindR (requireEnv env ''VITE_RPC_URL'') (\<lambda>rpcUrl.
     bindR (requireEnv env ''VITE_INDEXER_URL'') (\<lambda>indexerUrl.
     bindR (requireEnv env ''VITE_POOL_ADDRESS'') (\<lambda>pool.
     bindR (requireEnv env ''VITE_POOL_CLASS_HASH'') (\<lambda>classHash.
     bindR (requireEnv env ''VITE_COMPLIANCE_PUBLIC_KEY'') (\<lambda>compliance.
     bindR (requireEnv env ''VITE_CHAIN_ID'') (\<lambda>chainId.
     bindR (if set_text (env ''VITE_OHTTP_KEY_CONFIG'')
            then of_option (InvalidPayload ''atob'') (map_option Some (decodeKeys P (the (env ''VITE_OHTTP_KEY_CONFIG''))))
            else Inr None) (\<lambda>keys.
     Inr \<lparr>cf_rpcUrl = rpcUrl, cf_indexerUrl = indexerUrl, cf_poolAddress = pool, cf_poolClassHash = classHash,
         cf_compliancePublicKey = compliance,
         cf_proofValidityBlocks = (if set_text (env ''VITE_PROOF_VALIDITY_BLOCKS'') then the (env ''VITE_PROOF_VALIDITY_BLOCKS'') else ''450''),
         cf_tokens = tks, cf_chainId = chainId,
         cf_provingServiceUrl = env ''VITE_PROVING_SERVICE_URL'', cf_backendIndexerUrl = env ''VITE_BACKEND_INDEXER_URL'',
         cf_backendProverUrl = env ''VITE_BACKEND_PROVER_URL'', cf_ohttpKeyConfig = keys, cf_gatewayUrl = env ''VITE_GATEWAY_URL'',
         cf_feederGatewayUrl = env ''VITE_FEEDER_GATEWAY_URL'', cf_explorerUrl = env ''VITE_EXPLORER_URL'',
         cf_ekubo = ekubo, cf_vesu = vesu, cf_ohttpEnabled = None, cf_paymasterUrl = env ''VITE_PAYMASTER_URL'',
         cf_paymasterFeeToken = env ''VITE_PAYMASTER_FEE_TOKEN'', cf_avnuApiKey = env ''VITE_AVNU_API_KEY'',
         cf_paymasterForwarderAddress = env ''VITE_PAYMASTER_FORWARDER_ADDRESS'', cf_feeAmount = None,
         cf_feeCollectorAddress = None\<rparr>)))))))))))"


text \<open>
  \<open>initFeeConfig\<close> and \<open>initPaymasterForwarder\<close> fill the configuration once; a failed read leaves it as it
  is. \<open>call entrypoint\<close> is the node's answer to a view call of the pool.
\<close>

definition initFeeConfig :: "(string \<Rightarrow> string list result) \<Rightarrow> AppConfig \<Rightarrow> AppConfig" where
  "initFeeConfig callPool config =
     (if cf_feeAmount config \<noteq> None then config
      else case (callPool ''get_fee_amount'', callPool ''get_fee_collector'') of
        (Inr amountResult, Inr collectorResult) \<Rightarrow>
          (case amountResult of
             [] \<Rightarrow> config
           | a # _ \<Rightarrow>
               (case BigInt (BNString a) of
                  Inl _ \<Rightarrow> config
                | Inr n \<Rightarrow> config\<lparr>cf_feeAmount := Some n,
                    cf_feeCollectorAddress := (case collectorResult of [] \<Rightarrow> None | c # _ \<Rightarrow> Some c)\<rparr>))
      | _ \<Rightarrow> config)"

definition initPaymasterForwarder :: "(string \<Rightarrow> string result) \<Rightarrow> AppConfig \<Rightarrow> AppConfig" where
  "initPaymasterForwarder buildRecipient config =
     (if \<not> set_text (cf_paymasterUrl config) \<or> \<not> set_text (cf_paymasterFeeToken config) \<or> set_text (cf_paymasterForwarderAddress config)
      then config
      else case buildRecipient (cf_poolAddress config) of
        Inl _ \<Rightarrow> config
      | Inr recipient \<Rightarrow> config\<lparr>cf_paymasterForwarderAddress := Some recipient\<rparr>)"

section \<open>session.ts\<close>

definition SN_MAIN :: string where "SN_MAIN = ''0x534e5f4d41494e''"

definition isMainnet :: "string \<Rightarrow> bool" where
  "isMainnet chainName = (chainName = SN_MAIN)"

definition isSendCapable :: "AccountConfig option \<Rightarrow> bool" where
  "isSendCapable account = (case account of None \<Rightarrow> False | Some a \<Rightarrow> set_text (ac_privateKey a))"

text \<open>
  \<open>starknetKeccak\<close>, \<open>starkCurve.sign\<close> and \<open>computePoseidonHashOnElements\<close> are those of the package; a
  malformed key makes the signature throw.
\<close>

record session_lib =
  keccakText :: "string \<Rightarrow> int"
  signHash :: "string \<Rightarrow> string \<Rightarrow> (int \<times> int) result"
  poseidonOnElements :: "int list \<Rightarrow> int"
  session_order :: int

definition MAX_VIEWING_KEY :: "session_lib \<Rightarrow> int" where
  "MAX_VIEWING_KEY S = session_order S div 2"

definition deriveViewingKey :: "session_lib \<Rightarrow> string \<Rightarrow> string \<Rightarrow> string \<Rightarrow> int result" where
  "deriveViewingKey S privateKey chainName poolAddr =
     bindR (signHash S (hex_of (keccakText S (chainName @ '':'' @ poolAddr))) privateKey) (\<lambda>(r, s).
       let folded = poseidonOnElements S [r, s];
           order = session_order S;
           reduced = js_rem folded order;
           canonical = (if reduced < MAX_VIEWING_KEY S then reduced else order - reduced)
       in Inr (if canonical = 0 then 1 else canonical))"

definition withViewingKey :: "session_lib \<Rightarrow> AccountConfig option \<Rightarrow> string \<Rightarrow> string \<Rightarrow> AccountConfig option result" where
  "withViewingKey S account chainName poolAddr =
     (case account of
        None \<Rightarrow> Inr None
      | Some a \<Rightarrow>
          if set_text (ac_viewingKey a) then Inr (Some a)
          else if set_text (ac_privateKey a)
          then bindR (deriveViewingKey S (the (ac_privateKey a)) chainName poolAddr) (\<lambda>k.
                 Inr (Some (a\<lparr>ac_viewingKey := Some (hex_of k)\<rparr>)))
          else Inr None)"

section \<open>hooks/useAccounts.ts\<close>

text \<open>
  The state of the hook together with the two keys of the local storage. \<open>JSON.parse\<close> is the parameter
  \<open>parse\<close>; \<open>stored\<close> reads a stored list back, which the source does with a cast.
\<close>

record accounts_state =
  as_accounts :: "AccountConfig list"
  as_activeIndex :: nat
  as_stored :: "AccountConfig list option"      \<comment> \<open>the stored list, \<open>None\<close> when absent or unreadable\<close>
  as_storedIndex :: "nat option"

definition firstNonAdminIndex :: "AccountConfig list \<Rightarrow> nat" where
  "firstNonAdminIndex accounts =
     (let i = length (takeWhile ac_admin accounts) in if i < length accounts then i else 0)"

definition loadStoredIndex :: "nat option \<Rightarrow> AccountConfig list \<Rightarrow> nat" where
  "loadStoredIndex saved accounts =
     (case saved of
        None \<Rightarrow> firstNonAdminIndex accounts
      | Some i \<Rightarrow> if i < length accounts then i else firstNonAdminIndex accounts)"

definition mount_accounts :: "bool \<Rightarrow> AccountConfig list option \<Rightarrow> nat option \<Rightarrow> accounts_state" where
  "mount_accounts persist storedList storedIndex =
     (let accounts = (if persist then optl storedList else []) in
      \<lparr>as_accounts = accounts, as_activeIndex = (if persist then loadStoredIndex storedIndex accounts else 0),
       as_stored = storedList, as_storedIndex = storedIndex\<rparr>)"

definition setActiveIndex :: "bool \<Rightarrow> nat \<Rightarrow> accounts_state \<Rightarrow> accounts_state" where
  "setActiveIndex persist i s =
     (let s' = s\<lparr>as_activeIndex := i\<rparr> in if persist then s'\<lparr>as_storedIndex := Some i\<rparr> else s')"

definition opt_string :: "json \<Rightarrow> string \<Rightarrow> bool" where
  "opt_string e k = (case json_get e k of None \<Rightarrow> True | Some (JString _) \<Rightarrow> True | _ \<Rightarrow> False)"

definition opt_text :: "json \<Rightarrow> string \<Rightarrow> string option" where
  "opt_text e k = (case json_get e k of Some (JString s) \<Rightarrow> Some s | _ \<Rightarrow> None)"

definition parseEntry :: "json \<Rightarrow> AccountConfig result" where
  "parseEntry e =
     (case (json_get e ''name'', json_get e ''address'') of
        (Some (JString name), Some (JString address)) \<Rightarrow>
          if \<not> opt_string e ''privateKey'' \<or> \<not> opt_string e ''viewingKey''
          then Inl (InvalidPayload ''Each account must have name and address'')
          else if \<not> set_text (opt_text e ''privateKey'') \<and> \<not> set_text (opt_text e ''viewingKey'')
          then Inl (InvalidPayload (''Account '' @ name @ '' must supply privateKey or viewingKey''))
          else Inr \<lparr>ac_name = name, ac_address = address, ac_privateKey = opt_text e ''privateKey'',
                    ac_viewingKey = opt_text e ''viewingKey'', ac_admin = json_truthy (json_get e ''admin'')\<rparr>
      | _ \<Rightarrow> Inl (InvalidPayload ''Each account must have name and address''))"

definition parseAccounts :: "(string \<Rightarrow> json option) \<Rightarrow> string \<Rightarrow> AccountConfig list result" where
  "parseAccounts parse raw =
     (case parse raw of
        None \<Rightarrow> Inl (SyntaxError raw)
      | Some (JArray entries) \<Rightarrow> mapR parseEntry entries
      | Some _ \<Rightarrow> Inl (InvalidPayload ''Expected a JSON array''))"

definition saveAccounts :: "AccountConfig list \<Rightarrow> accounts_state \<Rightarrow> accounts_state" where
  "saveAccounts accounts s = s\<lparr>as_stored := Some accounts, as_storedIndex := Some (firstNonAdminIndex accounts)\<rparr>"

text \<open>The new state and the error shown, if any.\<close>

definition importAccounts :: "(string \<Rightarrow> json option) \<Rightarrow> bool \<Rightarrow> string \<Rightarrow> accounts_state \<Rightarrow> accounts_state \<times> error option" where
  "importAccounts parse persist raw s =
     (case parseAccounts parse raw of
        Inl e \<Rightarrow> (s, Some e)
      | Inr parsed \<Rightarrow>
          if parsed = [] then (s, Some (InvalidPayload ''No accounts in the list''))
          else let s' = (if persist then saveAccounts parsed s else s)
               in (s'\<lparr>as_accounts := parsed, as_activeIndex := firstNonAdminIndex parsed\<rparr>, None))"

section \<open>hooks/useLastTxBlock.ts\<close>

text \<open>The reference and the events that change it.\<close>

datatype last_block_event = AccountChanged | HistoryChanged "int list" | Update int

definition updateLastTxBlockNumber :: "int \<Rightarrow> int option \<Rightarrow> int option" where
  "updateLastTxBlockNumber n known = (case known of None \<Rightarrow> Some n | Some c \<Rightarrow> if n > c then Some n else Some c)"

definition lastBlockStep :: "int option \<Rightarrow> last_block_event \<Rightarrow> int option" where
  "lastBlockStep known e = (case e of
      AccountChanged \<Rightarrow> None
    | HistoryChanged blocks \<Rightarrow> if known = None \<and> blocks \<noteq> [] then Some (Max (set blocks)) else known
    | Update n \<Rightarrow> updateLastTxBlockNumber n known)"

section \<open>The token list\<close>

definition token_addresses :: "TokenConfig list \<Rightarrow> int list result" where
  "token_addresses ts = mapR (\<lambda>t. BigInt (BNString (tk_address t))) ts"

lemma token_addresses_snoc:
  "token_addresses ts = Inr known \<Longrightarrow> BigInt (BNString (tk_address t)) = Inr a \<Longrightarrow> token_addresses (ts @ [t]) = Inr (known @ [a])"
  unfolding token_addresses_def mapR_eq_Inr by (intro list_all2_appendI) (simp_all del: BigInt.simps)

lemma addVault_step:
  assumes "addVault (ts, known) v = Inr (ts', known')" "token_addresses ts = Inr known" "distinct known"
  shows "token_addresses ts' = Inr known' \<and> distinct known' \<and> set known \<subseteq> set known' \<and>
     (\<exists>a. BigInt (BNString (vv_vTokenAddress v)) = Inr a \<and> a \<in> set known') \<and> (\<exists>zs. ts' = ts @ zs)"
proof -
  obtain a where a: "BigInt (BNString (vv_vTokenAddress v)) = Inr a" using assms(1) by (auto simp: addVault_def bindR_eq_Inr simp del: BigInt.simps)
  show ?thesis
  proof (cases "a \<in> set known")
    case True
    then show ?thesis using assms a by (simp add: addVault_def del: BigInt.simps)
  next
    case False
    then have "ts' = ts @ [vault_token v]" "known' = known @ [a]" using assms(1) a by (auto simp: addVault_def simp del: BigInt.simps)
    then show ?thesis using False assms(2,3) a token_addresses_snoc [OF assms(2), of "vault_token v" a]
      by (auto simp add: vault_token_def simp del: BigInt.simps)
  qed
qed

lemma addVaults_run:
  "foldR addVault (ts, known) vs = Inr (ts', known') \<Longrightarrow> token_addresses ts = Inr known \<Longrightarrow> distinct known \<Longrightarrow>
     token_addresses ts' = Inr known' \<and> distinct known' \<and> set known \<subseteq> set known' \<and>
     (\<forall>v \<in> set vs. \<exists>a. BigInt (BNString (vv_vTokenAddress v)) = Inr a \<and> a \<in> set known') \<and> (\<exists>zs. ts' = ts @ zs)"
proof (induction vs arbitrary: ts known)
  case (Cons v vs)
  obtain ts1 known1 where one: "addVault (ts, known) v = Inr (ts1, known1)" "foldR addVault (ts1, known1) vs = Inr (ts', known')"
    using Cons.prems(1) by (auto simp: bindR_eq_Inr)
  note st = addVault_step [OF one(1) Cons.prems(2,3)]
  note IH = Cons.IH [OF one(2)]
  show ?case
  proof (intro conjI)
    show "\<forall>w \<in> set (v # vs). \<exists>a. BigInt (BNString (vv_vTokenAddress w)) = Inr a \<and> a \<in> set known'"
      using st IH by (auto simp del: BigInt.simps)
    show "\<exists>zs. ts' = ts @ zs" using st IH by (auto simp del: BigInt.simps)
  qed (use st IH in auto)
qed simp

text \<open>
  The token list of the demo: the configured tokens first, then one entry for every vault token that is
  not among them, compared by the value of the address; every vault token is listed, none twice.
\<close>

theorem vault_tokens_listed:
  assumes "addVaults (Some c) tks = Inr ts" "token_addresses tks = Inr known" "distinct known"
  shows "\<exists>vals zs. ts = tks @ zs \<and> token_addresses ts = Inr vals \<and> distinct vals \<and>
     (\<forall>v \<in> set (ve_vaults c). \<exists>a. BigInt (BNString (vv_vTokenAddress v)) = Inr a \<and> a \<in> set vals)"
proof -
  obtain known' where "foldR addVault (tks, known) (ve_vaults c) = Inr (ts, known')"
    using assms(1,2) by (auto simp: addVaults_def token_addresses_def bindR_eq_Inr simp del: BigInt.simps)
  from addVaults_run [OF this assms(2,3)] show ?thesis by blast
qed

definition sample_token :: TokenConfig where
  "sample_token = \<lparr>tk_name = ''USDC'', tk_address = ''0x0a'', tk_decimals = 6, tk_fee = None, tk_mintEntrypoint = None\<rparr>"

definition sample_vesu :: VesuConfig where
  "sample_vesu = \<lparr>ve_anonymizerAddress = ''0x5'',
     ve_vaults = [\<lparr>vv_tokenConfig = sample_token, vv_vTokenAddress = ''0xa''\<rparr>, \<lparr>vv_tokenConfig = sample_token, vv_vTokenAddress = ''0xb''\<rparr>]\<rparr>"

theorem vault_tokens_listed_witness:
  "\<exists>ts vals zs. addVaults (Some sample_vesu) [sample_token] = Inr ts \<and> ts = [sample_token] @ zs \<and> length zs = 1 \<and>
     token_addresses ts = Inr vals \<and> distinct vals"
proof -
  have t: "token_addresses [sample_token] = Inr [10]" by code_simp
  have r: "addVaults (Some sample_vesu) [sample_token] = Inr [sample_token, vault_token \<lparr>vv_tokenConfig = sample_token, vv_vTokenAddress = ''0xb''\<rparr>]"
    by code_simp
  from vault_tokens_listed [OF r t] r show ?thesis by auto
qed

lemma find_pool_sym: "find_pool a b ps = find_pool b a ps"
  by (induction ps) (auto simp: bindR_def simp del: BigInt.simps split: sum.splits)

section \<open>The derived viewing key\<close>

text \<open>
  The key that is derived from a signing key is positive, and it is below half the order, as the pool
  demands, unless the reduced hash is one of the two middle values of the order.
\<close>

theorem derived_key_range:
  assumes "deriveViewingKey S privateKey chainName pool = Inr k" "session_order S = 2 * h + 1" "2 \<le> h"
    and "\<And>xs. 0 \<le> poseidonOnElements S xs"
  shows "1 \<le> k \<and> (\<exists>r s. signHash S (hex_of (keccakText S (chainName @ '':'' @ pool))) privateKey = Inr (r, s) \<and>
     (k < MAX_VIEWING_KEY S \<longleftrightarrow> poseidonOnElements S [r, s] mod session_order S \<notin> {h, h + 1}))"
proof -
  obtain r s where rs: "signHash S (hex_of (keccakText S (chainName @ '':'' @ pool))) privateKey = Inr (r, s)"
    using assms(1) by (auto simp: deriveViewingKey_def bindR_eq_Inr)
  define n where "n = session_order S"
  define m where "m = poseidonOnElements S [r, s] mod n"
  have n: "n = 2 * h + 1" "0 < n" using assms(2,3) by (simp_all add: n_def)
  have m: "0 \<le> m" "m < n" using n(2) by (simp_all add: m_def)
  have max: "MAX_VIEWING_KEY S = h" using assms(2) by (simp add: MAX_VIEWING_KEY_def)
  have "js_rem (poseidonOnElements S [r, s]) n = m" using assms(4) n(2) by (simp add: m_def)
  then have k: "k = (if (if m < h then m else n - m) = 0 then 1 else if m < h then m else n - m)"
    using assms(1) rs by (simp add: deriveViewingKey_def Let_def max n_def split: if_splits)
  have "1 \<le> k \<and> (k < h \<longleftrightarrow> m \<notin> {h, h + 1})" using k m n(1) assms(3) by (auto split: if_splits)
  then show ?thesis using rs max by (auto simp: m_def n_def)
qed

definition sample_session :: session_lib where
  "sample_session = \<lparr>keccakText = (\<lambda>s. int (length s)), signHash = (\<lambda>_ _. Inr (2, 3)), poseidonOnElements = (\<lambda>xs. \<bar>sum_list xs\<bar>),
     session_order = 11\<rparr>"

theorem derived_key_range_witness:
  "deriveViewingKey sample_session ''0x1'' ''C'' ''0x2'' = Inr 6 \<and> MAX_VIEWING_KEY sample_session = 5 \<and>
   poseidonOnElements sample_session [2, 3] mod session_order sample_session \<in> {5, 6}"
proof -
  have d: "deriveViewingKey sample_session ''0x1'' ''C'' ''0x2'' = Inr 6" by code_simp
  have "session_order sample_session = 2 * 5 + 1" "(2::int) \<le> 5" "\<And>xs. 0 \<le> poseidonOnElements sample_session xs"
    by (simp_all add: sample_session_def)
  from derived_key_range [OF d this] d show ?thesis by (auto simp: sample_session_def MAX_VIEWING_KEY_def)
qed

section \<open>Accounts\<close>

lemma parsed_usable: "parseEntry e = Inr a \<Longrightarrow> set_text (ac_privateKey a) \<or> set_text (ac_viewingKey a)"
  by (auto simp: parseEntry_def split: option.splits json.splits if_splits)

lemma firstNonAdmin_bound: "accounts \<noteq> [] \<Longrightarrow> firstNonAdminIndex accounts < length accounts"
  by (simp add: firstNonAdminIndex_def Let_def)

text \<open>
  After a successful import every account can produce a viewing key, so none is dropped from the list
  that is shown, and the active index points into it; on a network without storage nothing is written.
\<close>

theorem import_usable:
  assumes "importAccounts parse persist raw s = (s', None)"
    and "\<And>h k. \<exists>rs. signHash S h k = Inr rs"
  shows "as_activeIndex s' < length (as_accounts s') \<and>
    (\<forall>a \<in> set (as_accounts s'). \<exists>b. withViewingKey S (Some a) chainName pool = Inr (Some b) \<and> set_text (ac_viewingKey b)) \<and>
    (\<not> persist \<longrightarrow> as_stored s' = as_stored s \<and> as_storedIndex s' = as_storedIndex s)"
proof -
  obtain xs where p: "parseAccounts parse raw = Inr xs" "xs \<noteq> []" "as_accounts s' = xs" "as_activeIndex s' = firstNonAdminIndex xs"
    "\<not> persist \<longrightarrow> as_stored s' = as_stored s \<and> as_storedIndex s' = as_storedIndex s"
    using assms(1) by (auto simp: importAccounts_def saveAccounts_def Let_def split: sum.splits if_splits)
  obtain entries where "mapR parseEntry entries = Inr xs"
    using p(1) by (auto simp: parseAccounts_def split: option.splits json.splits)
  then have usable: "set_text (ac_privateKey a) \<or> set_text (ac_viewingKey a)" if "a \<in> set xs" for a
    using that unfolding mapR_eq_Inr by (induction rule: list_all2_induct) (auto dest: parsed_usable)
  have "\<exists>b. withViewingKey S (Some a) chainName pool = Inr (Some b) \<and> set_text (ac_viewingKey b)" if "a \<in> set xs" for a
  proof (cases "set_text (ac_viewingKey a)")
    case True
    then show ?thesis by (simp add: withViewingKey_def)
  next
    case False
    then have "set_text (ac_privateKey a)" using usable that by blast
    moreover obtain k where "deriveViewingKey S (the (ac_privateKey a)) chainName pool = Inr k"
      using assms(2) [of "hex_of (keccakText S (chainName @ '':'' @ pool))" "the (ac_privateKey a)"]
      by (auto simp: deriveViewingKey_def Let_def)
    ultimately show ?thesis using False by (auto simp: withViewingKey_def set_text_def hex_of_def)
  qed
  then show ?thesis using p firstNonAdmin_bound by simp
qed

definition sample_account_json :: json where
  "sample_account_json = JArray [JObject [(''name'', JString ''Ann''), (''address'', JString ''0x1''), (''privateKey'', JString ''0x7'')]]"

theorem import_usable_witness:
  "let s = mount_accounts False None None; r = importAccounts (\<lambda>_. Some sample_account_json) False [] s in
   snd r = None \<and> as_activeIndex (fst r) < length (as_accounts (fst r)) \<and> as_stored (fst r) = None"
proof -
  let ?s = "mount_accounts False None None"
  let ?r = "importAccounts (\<lambda>_. Some sample_account_json) False [] ?s"
  have "snd ?r = None" by code_simp
  then have r: "importAccounts (\<lambda>_. Some sample_account_json) False [] ?s = (fst ?r, None)" by (metis prod.collapse)
  have "\<And>h k. \<exists>rs. signHash sample_session h k = Inr rs" by (simp add: sample_session_def)
  from import_usable [OF r this] \<open>snd ?r = None\<close> show ?thesis by (simp add: Let_def) (simp add: mount_accounts_def)
qed

section \<open>The last block\<close>

lemma last_block_mono:
  assumes "AccountChanged \<notin> set es" "known = Some c"
  shows "\<exists>d. foldl lastBlockStep known es = Some d \<and> c \<le> d \<and> (\<forall>n. Update n \<in> set es \<longrightarrow> n \<le> d)"
  using assms
proof (induction es arbitrary: known c)
  case (Cons e es)
  have "\<exists>d. lastBlockStep known e = Some d \<and> c \<le> d \<and> (\<forall>n. e = Update n \<longrightarrow> n \<le> d)"
    using Cons.prems by (cases e) (auto simp: lastBlockStep_def updateLastTxBlockNumber_def)
  then obtain d where d: "lastBlockStep known e = Some d" "c \<le> d" "\<forall>n. e = Update n \<longrightarrow> n \<le> d" by blast
  from Cons.IH [OF _ d(1)] Cons.prems(1) obtain d' where "foldl lastBlockStep (lastBlockStep known e) es = Some d'" "d \<le> d'"
    "\<forall>n. Update n \<in> set es \<longrightarrow> n \<le> d'" by auto
  with d show ?case by fastforce
qed simp

end
