(* ===== verification/Demo_History.thy ===== *)
theory Demo_History
  imports Classifier Demo_Config
begin

text \<open>
  The transaction history as the demo shows it: \<open>demo/src/hooks/useHistory.ts\<close>. The page of transactions
  comes from \<open>fetchHistory\<close> of the indexer provider, the classification from the SDK. The hook is a
  machine over its own state and the one request in flight; the user may switch the account at any time.

  The theorems: the change of balance that is shown for a transaction is what its notes, withdrawals
  and open-note deposits amount to; the actions are all shown, in the fixed order of their types; and
  the hook never has two requests in flight. Two defects are stated as well: a page that arrives after
  a switch is shown for the wrong account, and a new transaction is dropped when its shortened hash is
  already on the list.
\<close>

section \<open>Types\<close>

record ActionDisplay =
  ad_type :: string
  ad_label :: ustring
  ad_chipClass :: string
  ad_chipLabel :: "string option"
  ad_noteCount :: "nat option"
  ad_isFee :: "bool option"

record BalanceUpdate =
  bu_tokenName :: string
  bu_amount :: int
  bu_decimals :: nat

record TransactionDisplay =
  dx_blockNumber :: int
  dx_timestamp :: "int option"
  dx_transactionHash :: string
  dx_fullTransactionHash :: string
  dx_actions :: "ActionDisplay list"
  dx_balanceUpdates :: "BalanceUpdate list"

record display_maps =
  nameByAddress :: "(int, string) jsmap"
  tokenNameByAddress :: "(int, string) jsmap"
  tokenDecimalsByAddress :: "(int, nat) jsmap"
  executorNames :: "(int, string) jsmap"

section \<open>Labels\<close>

definition shortAddress :: "int \<Rightarrow> string" where
  "shortAddress a = truncateAddress (int_toString 16 a)"

definition name_or :: "(int, string) jsmap \<Rightarrow> int \<Rightarrow> string" where
  "name_or m a = (case jm_get m a of Some n \<Rightarrow> n | None \<Rightarrow> shortAddress a)"

definition decimals_of :: "display_maps \<Rightarrow> int \<Rightarrow> nat" where
  "decimals_of M token = (case jm_get (tokenDecimalsByAddress M) token of Some d \<Rightarrow> d | None \<Rightarrow> 0)"

definition fmtAmount :: "display_maps \<Rightarrow> int \<Rightarrow> int \<Rightarrow> ustring" where
  "fmtAmount M amount token = formatTokenAmount amount (decimals_of M token) 4"

definition amount_text :: "display_maps \<Rightarrow> int \<Rightarrow> int \<Rightarrow> ustring" where
  "amount_text M amount token = fmtAmount M amount token @ utf16 ('' '' @ name_or (tokenNameByAddress M) token)"

fun join_parts :: "ustring \<Rightarrow> ustring list \<Rightarrow> ustring" where
  "join_parts sep [] = []"
| "join_parts sep [x] = x"
| "join_parts sep (x # y # ys) = x @ sep @ join_parts sep (y # ys)"

fun action_type_name :: "HistoryAction \<Rightarrow> string" where
  "action_type_name (HDeposit _ _ _) = ''deposit''"
| "action_type_name (HWithdrawal _ _ _) = ''withdrawal''"
| "action_type_name (HFee _ _ _) = ''fee''"
| "action_type_name (TransferSent _ _ _ _) = ''transferSent''"
| "action_type_name (TransferReceived _ _ _ _) = ''transferReceived''"
| "action_type_name (HSwap _ _ _) = ''swap''"
| "action_type_name (TransferSelf _ _ _) = ''transferSelf''"
| "action_type_name (HRegister _) = ''register''"

text \<open>The label, the class of the chip, its own label and the fee flag.\<close>

fun formatActionLabel :: "display_maps \<Rightarrow> HistoryAction \<Rightarrow> ustring \<times> string \<times> string option \<times> bool option" where
  "formatActionLabel M (HDeposit _ t x) = (utf16 ''Deposited '' @ amount_text M x t, ''chip-ok'', None, None)"
| "formatActionLabel M (HWithdrawal to t x) =
     (utf16 ''Withdrew '' @ amount_text M x t @ utf16 ('' to '' @ name_or (nameByAddress M) to), ''chip-no'', None, None)"
| "formatActionLabel M (HFee _ t x) = (utf16 ''Withdrew '' @ amount_text M x t @ utf16 '' to paymaster'', ''chip'', None, Some True)"
| "formatActionLabel M (TransferSent to t x _) =
     (utf16 ''Sent '' @ amount_text M x t @ utf16 ('' to '' @ name_or (nameByAddress M) to), ''chip-no'', None, None)"
| "formatActionLabel M (TransferReceived from t x _) =
     (utf16 ''Received '' @ amount_text M x t @ utf16 ('' from '' @ name_or (nameByAddress M) from), ''chip-ok'', None, None)"
| "formatActionLabel M (HSwap ex sent received) =
     (utf16 ''Swapped '' @ join_parts (utf16 '', '') (map (\<lambda>l. amount_text M (leg_amount l) (leg_token l)) sent) @ utf16 '' for '' @
        join_parts (utf16 '', '') (map (\<lambda>l. amount_text M (leg_amount l) (leg_token l)) received) @
        utf16 ('' via '' @ name_or (executorNames M) ex),
      ''chip-swap'', jm_get (executorNames M) ex, None)"
| "formatActionLabel M (TransferSelf t x _) = (utf16 ''Reorganized '' @ amount_text M x t, ''chip'', None, None)"
| "formatActionLabel M (HRegister _) = (utf16 ''Registered with the privacy pool'', ''chip'', None, None)"

section \<open>Balance updates\<close>

definition add_net :: "(int, int) jsmap \<Rightarrow> int \<Rightarrow> int \<Rightarrow> (int, int) jsmap" where
  "add_net m t x = jm_set m t ((case jm_get m t of None \<Rightarrow> 0 | Some n \<Rightarrow> n) + x)"

definition netAction :: "int \<Rightarrow> (int, int) jsmap \<Rightarrow> HistoryAction \<Rightarrow> (int, int) jsmap" where
  "netAction viewer m a = (case a of
      HDeposit _ _ _ \<Rightarrow> m
    | HWithdrawal to t x \<Rightarrow> if to \<noteq> viewer then add_net m t (- x) else m
    | HFee _ t x \<Rightarrow> add_net m t (- x)
    | TransferSent _ t x _ \<Rightarrow> add_net m t (- x)
    | TransferReceived _ t x _ \<Rightarrow> add_net m t x
    | HSwap _ sent received \<Rightarrow>
        foldl (\<lambda>m l. add_net m (leg_token l) (leg_amount l))
          (foldl (\<lambda>m l. add_net m (leg_token l) (- leg_amount l)) m sent) received
    | TransferSelf _ _ _ \<Rightarrow> m
    | HRegister _ \<Rightarrow> m)"

definition netByToken :: "HistoryAction list \<Rightarrow> int \<Rightarrow> (int, int) jsmap" where
  "netByToken actions viewer = foldl (netAction viewer) [] actions"

definition computeBalanceUpdates :: "HistoryAction list \<Rightarrow> int \<Rightarrow> display_maps \<Rightarrow> BalanceUpdate list" where
  "computeBalanceUpdates actions viewer M =
     map (\<lambda>(token, amount). \<lparr>bu_tokenName = name_or (tokenNameByAddress M) token, bu_amount = amount,
         bu_decimals = decimals_of M token\<rparr>) (netByToken actions viewer)"

section \<open>Transactions\<close>

definition buildDisplayMaps :: "AccountConfig \<Rightarrow> AccountConfig list \<Rightarrow> AppConfig \<Rightarrow> display_maps result" where
  "buildDisplayMaps account allAccounts config =
     bindR (foldR (\<lambda>m acc. bindR (BigInt (BNString (ac_address acc))) (\<lambda>a.
         bindR (BigInt (BNString (ac_address account))) (\<lambda>self.
         Inr (jm_set m a (if a = self then ''self'' else toLowerCase (ac_name acc)))))) [] allAccounts) (\<lambda>names.
     bindR (foldR (\<lambda>(m, d) t. bindR (BigInt (BNString (tk_address t))) (\<lambda>a.
         Inr (jm_set m a (tk_name t), jm_set d a (tk_decimals t)))) ([], []) (cf_tokens config)) (\<lambda>(tokenNames, decimals).
     bindR (case cf_ekubo config of
              Some e \<Rightarrow> bindR (BigInt (BNString (ek_executorAddress e))) (\<lambda>a. Inr [(a, ''ekubo swap'')])
            | None \<Rightarrow> Inr []) (\<lambda>execs.
     bindR (case cf_vesu config of
              Some v \<Rightarrow> bindR (BigInt (BNString (ve_anonymizerAddress v))) (\<lambda>a. Inr (jm_set execs a ''vesu swap''))
            | None \<Rightarrow> Inr execs) (\<lambda>execs'.
     Inr \<lparr>nameByAddress = names, tokenNameByAddress = tokenNames, tokenDecimalsByAddress = decimals, executorNames = execs'\<rparr>))))"

definition ACTION_ORDER :: "(string \<times> nat) list" where
  "ACTION_ORDER = [(''register'', 0), (''deposit'', 1), (''transferReceived'', 2), (''transferSelf'', 3), (''transferSent'', 4),
     (''swap'', 5), (''withdrawal'', 6), (''fee'', 7)]"

definition action_rank :: "string \<Rightarrow> nat" where
  "action_rank t = (case jm_get ACTION_ORDER t of Some r \<Rightarrow> r | None \<Rightarrow> 99)"

fun noteCount_of :: "HistoryAction \<Rightarrow> nat option" where
  "noteCount_of (TransferSent _ _ _ n) = Some n"
| "noteCount_of (TransferReceived _ _ _ n) = Some n"
| "noteCount_of (TransferSelf _ _ n) = Some n"
| "noteCount_of _ = None"

definition displayAction :: "display_maps \<Rightarrow> HistoryAction \<Rightarrow> ActionDisplay" where
  "displayAction M a = (case formatActionLabel M a of (label, chipClass, chipLabel, fee) \<Rightarrow>
     \<lparr>ad_type = action_type_name a, ad_label = label, ad_chipClass = chipClass, ad_chipLabel = chipLabel,
      ad_noteCount = noteCount_of a, ad_isFee = fee\<rparr>)"

text \<open>\<open>sort\<close> is stable, as \<open>sort_key\<close> is. A forwarder of address zero is falsy.\<close>

definition displayTransaction :: "int \<Rightarrow> display_maps \<Rightarrow> int option \<Rightarrow> HistoryTransaction \<Rightarrow> TransactionDisplay" where
  "displayTransaction viewer M forwarder tx =
     (let options = (case forwarder of Some f \<Rightarrow> if f \<noteq> 0 then Some [f] else None | None \<Rightarrow> None);
          classified = classifyTransaction tx options
      in \<lparr>dx_blockNumber = ct_blockNumber classified, dx_timestamp = None,
          dx_transactionHash = shortAddress (ct_transactionHash classified),
          dx_fullTransactionHash = ''0x'' @ int_toString 16 (ct_transactionHash classified),
          dx_actions = sort_key (\<lambda>a. action_rank (ad_type a)) (map (displayAction M) (ct_actions classified)),
          dx_balanceUpdates = computeBalanceUpdates (ct_actions classified) viewer M\<rparr>)"

definition toDisplayTransactions :: "HistoryTransaction list \<Rightarrow> int \<Rightarrow> display_maps \<Rightarrow> int option \<Rightarrow> TransactionDisplay list" where
  "toDisplayTransactions txs viewer M forwarder = map (displayTransaction viewer M forwarder) txs"

definition resolveTimestamps :: "(int \<Rightarrow> int result) \<Rightarrow> TransactionDisplay list \<Rightarrow> TransactionDisplay list result" where
  "resolveTimestamps getTimestamp txs =
     bindR (mapR (\<lambda>b. bindR (getTimestamp b) (\<lambda>t. Inr (b, t))) (rev (remdups (rev (map dx_blockNumber txs))))) (\<lambda>entries.
     Inr (map (\<lambda>tx. tx\<lparr>dx_timestamp := jm_get entries (dx_blockNumber tx)\<rparr>) txs))"

section \<open>The hook\<close>

text \<open>
  What a request has captured: the account and the configuration of the render that started it, and
  whether there is a node to ask for timestamps. One request is in flight at most, as the invariant
  below states; it waits for a page, for timestamps, or for the latest transaction.
\<close>

record history_context =
  hx_account :: AccountConfig
  hx_allAccounts :: "AccountConfig list"
  hx_config :: AppConfig
  hx_provider :: bool

datatype history_request =
    PageRequest history_context
  | TimesRequest history_context "TransactionDisplay list"
  | LatestRequest history_context

record history_state =
  hh_account :: "AccountConfig option"
  hh_transactions :: "TransactionDisplay list"
  hh_loading :: bool
  hh_error :: "error option"
  hh_historyComplete :: bool
  hh_historyCursorRef :: "HistoryCursor option"
  hh_blockRefValue :: "BlockId option"
  hh_loadingRef :: bool
  hh_autoFetchedRef :: bool
  hh_inflight :: "history_request option"

definition history_initial :: "AccountConfig option \<Rightarrow> history_state" where
  "history_initial account = \<lparr>hh_account = account, hh_transactions = [], hh_loading = False, hh_error = None,
     hh_historyComplete = False, hh_historyCursorRef = None, hh_blockRefValue = None, hh_loadingRef = False,
     hh_autoFetchedRef = False, hh_inflight = None\<rparr>"

text \<open>The effect on a change of the account or the pool.\<close>

definition resetHistory :: "AccountConfig option \<Rightarrow> history_state \<Rightarrow> history_state" where
  "resetHistory account s = s\<lparr>hh_account := account, hh_transactions := [], hh_error := None, hh_historyComplete := False,
     hh_historyCursorRef := None, hh_blockRefValue := None, hh_autoFetchedRef := False\<rparr>"

text \<open>\<open>ready\<close>: the registry has its cursor and its channels.\<close>

definition fetchMore_begin :: "bool \<Rightarrow> AccountConfig list \<Rightarrow> AppConfig \<Rightarrow> bool \<Rightarrow> history_state \<Rightarrow> history_state" where
  "fetchMore_begin provider accounts config ready s =
     (case hh_account s of
        None \<Rightarrow> s
      | Some account \<Rightarrow>
          if hh_loadingRef s then s
          else if \<not> ready then s\<lparr>hh_error := Some (AssertionError ''Refresh state first to populate discovery cursors'')\<rparr>
          else s\<lparr>hh_loadingRef := True, hh_loading := True, hh_error := None,
                 hh_inflight := Some (PageRequest \<lparr>hx_account = account, hx_allAccounts = accounts, hx_config = config, hx_provider = provider\<rparr>)\<rparr>)"

text \<open>
  The options of the request. \<open>fetchMore\<close> passes the block of the last page as \<open>blockRef\<close>, a name
  \<open>fetchHistory\<close> does not read.
\<close>

definition fetchMore_options :: "history_state \<Rightarrow> HistoryOptions" where
  "fetchMore_options s = \<lparr>maxTransactions = Some 5, lastKnownBlock = None, ho_blockIdentifier = None,
     historyCursor = hh_historyCursorRef s\<rparr>"

definition fetchMore_page ::
  "ProviderCfg \<Rightarrow> (HistoryBody \<Rightarrow> ApiHistoryResponse http_response) \<Rightarrow> NotesCursor \<Rightarrow> ChannelCursor \<Rightarrow> AccountConfig
     \<Rightarrow> history_state \<Rightarrow> HistoryPage result"
where
  "fetchMore_page C svc notesCursor channelCursor account s =
     bindR (BigInt (BNString (ac_address account))) (\<lambda>a. fetchHistory C svc a notesCursor channelCursor (fetchMore_options s))"

definition finishHistory :: "history_state \<Rightarrow> history_state" where
  "finishHistory s = s\<lparr>hh_loadingRef := False, hh_loading := False, hh_inflight := None\<rparr>"

definition failHistory :: "error \<Rightarrow> history_state \<Rightarrow> history_state" where
  "failHistory e s = finishHistory (s\<lparr>hh_error := Some e\<rparr>)"

definition displayPage :: "history_context \<Rightarrow> HistoryPage \<Rightarrow> TransactionDisplay list result" where
  "displayPage c page =
     bindR (buildDisplayMaps (hx_account c) (hx_allAccounts c) (hx_config c)) (\<lambda>M.
     bindR (BigInt (BNString (ac_address (hx_account c)))) (\<lambda>viewer.
     bindR (if set_text (cf_paymasterForwarderAddress (hx_config c))
            then bindR (BigInt (BNString (the (cf_paymasterForwarderAddress (hx_config c))))) (\<lambda>f. Inr (Some f))
            else Inr None) (\<lambda>forwarder.
     Inr (toDisplayTransactions (hp_transactions page) viewer M forwarder))))"

definition fetchMore_page_arrived :: "HistoryPage result \<Rightarrow> history_state \<Rightarrow> history_state" where
  "fetchMore_page_arrived answer s =
     (case hh_inflight s of
        Some (PageRequest c) \<Rightarrow>
          (case answer of
             Inl e \<Rightarrow> failHistory e s
           | Inr page \<Rightarrow>
               let s' = s\<lparr>hh_historyCursorRef := Some (hp_cursor page), hh_blockRefValue := Some (hp_blockRef page),
                          hh_historyComplete := hc_historyComplete (hp_cursor page)\<rparr>
               in case displayPage c page of
                    Inl e \<Rightarrow> failHistory e s'
                  | Inr txs \<Rightarrow>
                      if hx_provider c then s'\<lparr>hh_inflight := Some (TimesRequest c txs)\<rparr>
                      else finishHistory (s'\<lparr>hh_transactions := hh_transactions s' @ txs\<rparr>))
      | _ \<Rightarrow> s)"

definition fetchMore_times_arrived :: "(int \<Rightarrow> int result) \<Rightarrow> history_state \<Rightarrow> history_state" where
  "fetchMore_times_arrived getTimestamp s =
     (case hh_inflight s of
        Some (TimesRequest c txs) \<Rightarrow>
          (case resolveTimestamps getTimestamp txs of
             Inl e \<Rightarrow> failHistory e s
           | Inr txs' \<Rightarrow> finishHistory (s\<lparr>hh_transactions := hh_transactions s @ txs'\<rparr>))
      | _ \<Rightarrow> s)"

definition refreshLatest_begin :: "bool \<Rightarrow> AccountConfig list \<Rightarrow> AppConfig \<Rightarrow> bool \<Rightarrow> history_state \<Rightarrow> history_state" where
  "refreshLatest_begin provider accounts config ready s =
     (case hh_account s of
        None \<Rightarrow> s
      | Some account \<Rightarrow>
          if hh_loadingRef s \<or> \<not> ready then s
          else s\<lparr>hh_loadingRef := True, hh_loading := True, hh_error := None,
                 hh_inflight := Some (LatestRequest \<lparr>hx_account = account, hx_allAccounts = accounts, hx_config = config, hx_provider = provider\<rparr>)\<rparr>)"

definition prependNew :: "TransactionDisplay list \<Rightarrow> TransactionDisplay list \<Rightarrow> TransactionDisplay list" where
  "prependNew fresh previous =
     (let newOnly = filter (\<lambda>tx. dx_transactionHash tx \<notin> set (map dx_transactionHash previous)) fresh
      in if newOnly = [] then previous else newOnly @ previous)"

definition refreshLatest_arrived :: "int \<Rightarrow> HistoryPage result \<Rightarrow> history_state \<Rightarrow> history_state" where
  "refreshLatest_arrived nowSecs answer s =
     (case hh_inflight s of
        Some (LatestRequest c) \<Rightarrow>
          (case answer of
             Inl e \<Rightarrow> failHistory e s
           | Inr page \<Rightarrow>
               if hp_transactions page = [] then finishHistory s
               else (case displayPage c page of
                       Inl e \<Rightarrow> failHistory e s
                     | Inr txs \<Rightarrow> finishHistory (s\<lparr>hh_transactions :=
                         prependNew (map (\<lambda>tx. tx\<lparr>dx_timestamp := Some nowSecs\<rparr>) txs) (hh_transactions s)\<rparr>)))
      | _ \<Rightarrow> s)"

text \<open>The effect that fetches the first page once the cursors are there.\<close>

definition autoFetch :: "bool \<Rightarrow> AccountConfig list \<Rightarrow> AppConfig \<Rightarrow> bool \<Rightarrow> history_state \<Rightarrow> history_state" where
  "autoFetch provider accounts config ready s =
     (if hh_autoFetchedRef s \<or> \<not> ready then s
      else fetchMore_begin provider accounts config ready (s\<lparr>hh_autoFetchedRef := True\<rparr>))"

inductive history_step :: "history_state \<Rightarrow> history_state \<Rightarrow> bool" where
  switch: "history_step s (resetHistory account s)"
| more: "history_step s (fetchMore_begin provider accounts config ready s)"
| auto_more: "history_step s (autoFetch provider accounts config ready s)"
| latest: "history_step s (refreshLatest_begin provider accounts config ready s)"
| page: "history_step s (fetchMore_page_arrived answer s)"
| times: "history_step s (fetchMore_times_arrived getTimestamp s)"
| fresh: "history_step s (refreshLatest_arrived nowSecs answer s)"

section \<open>One request at a time\<close>

definition history_inv :: "history_state \<Rightarrow> bool" where
  "history_inv s \<longleftrightarrow> hh_loadingRef s = (hh_inflight s \<noteq> None) \<and> hh_loading s = hh_loadingRef s"

lemmas hook_defs = resetHistory_def fetchMore_begin_def autoFetch_def refreshLatest_begin_def fetchMore_page_arrived_def
  fetchMore_times_arrived_def refreshLatest_arrived_def finishHistory_def failHistory_def

lemma history_inv_initial: "history_inv (history_initial account)"
  by (simp add: history_inv_def history_initial_def)

lemma history_inv_step: "history_step s s' \<Longrightarrow> history_inv s \<Longrightarrow> history_inv s'"
  by (induction rule: history_step.induct)
     (auto simp: history_inv_def hook_defs Let_def split: option.splits history_request.splits sum.splits)

text \<open>
  C28: In every reachable state the flag that guards the hook is set exactly while a request is in flight,
  and the indicator that is shown agrees with it: a request that fails, finds nothing or is answered
  after a switch always clears both.
\<close>

theorem history_single_request:
  assumes "history_step\<^sup>*\<^sup>* (history_initial account) s"
  shows "hh_loadingRef s = (hh_inflight s \<noteq> None) \<and> hh_loading s = (hh_inflight s \<noteq> None) \<and>
    (hh_inflight s \<noteq> None \<longrightarrow> hh_inflight (fetchMore_begin provider accounts config ready s) = hh_inflight s \<and>
       hh_inflight (refreshLatest_begin provider accounts config ready s) = hh_inflight s)"
proof -
  have "history_inv s" using assms by (induction rule: rtranclp_induct) (auto intro: history_inv_initial history_inv_step)
  then show ?thesis by (auto simp: history_inv_def fetchMore_begin_def refreshLatest_begin_def split: option.splits)
qed

section \<open>The change of balance\<close>

definition net_of :: "(int, int) jsmap \<Rightarrow> int \<Rightarrow> int" where
  "net_of m t = (case jm_get m t of None \<Rightarrow> 0 | Some n \<Rightarrow> n)"

definition effect :: "int \<Rightarrow> int \<Rightarrow> HistoryAction \<Rightarrow> int" where
  "effect viewer t a = (case a of
      HWithdrawal to t' x \<Rightarrow> if to \<noteq> viewer \<and> t' = t then - x else 0
    | HFee _ t' x \<Rightarrow> if t' = t then - x else 0
    | TransferSent _ t' x _ \<Rightarrow> if t' = t then - x else 0
    | TransferReceived _ t' x _ \<Rightarrow> if t' = t then x else 0
    | HSwap _ sent received \<Rightarrow>
        sum_list (map leg_amount (filter (\<lambda>l. leg_token l = t) received)) - sum_list (map leg_amount (filter (\<lambda>l. leg_token l = t) sent))
    | _ \<Rightarrow> 0)"

lemma net_add [simp]: "net_of (add_net m t x) t' = net_of m t' + (if t' = t then x else 0)"
  by (auto simp: net_of_def add_net_def)

lemma net_fold:
  "net_of (foldl (\<lambda>m l. add_net m (leg_token l) (f l)) m ls) t = net_of m t + sum_list (map f (filter (\<lambda>l. leg_token l = t) ls))"
  by (induction ls arbitrary: m) simp_all

lemma net_action: "net_of (netAction viewer m a) t = net_of m t + effect viewer t a"
proof (cases a)
  case (HSwap ex sent received)
  have "sum_list (map (\<lambda>l. - leg_amount l) ls) = - sum_list (map leg_amount ls)" for ls :: "SwapLeg list"
    by (induction ls) simp_all
  then show ?thesis by (simp add: HSwap netAction_def effect_def net_fold)
qed (simp_all add: netAction_def effect_def)

lemma net_actions: "net_of (netByToken actions viewer) t = sum_list (map (effect viewer t) actions)"
proof -
  have "net_of (foldl (netAction viewer) m actions) t = net_of m t + sum_list (map (effect viewer t) actions)" for m
    by (induction actions arbitrary: m) (simp_all add: net_action)
  then show ?thesis by (simp add: netByToken_def net_of_def)
qed

lemma add_net_wf: "jm_wf m \<Longrightarrow> jm_wf (add_net m t x)"
  by (simp add: add_net_def)

lemma net_wf: "jm_wf (netByToken actions viewer)"
proof -
  have legs: "jm_wf m \<Longrightarrow> jm_wf (foldl (\<lambda>m l. add_net m (leg_token l) (f l)) m ls)" for m ls and f :: "SwapLeg \<Rightarrow> int"
    by (induction ls arbitrary: m) (simp_all add: add_net_wf)
  have "jm_wf m \<Longrightarrow> jm_wf (netAction viewer m a)" for m a
    by (cases a) (simp_all add: netAction_def add_net_wf legs)
  then have "jm_wf m \<Longrightarrow> jm_wf (foldl (netAction viewer) m actions)" for m
    by (induction actions arbitrary: m) simp_all
  then show ?thesis by (simp add: netByToken_def)
qed

subsection \<open>In terms of the transaction\<close>

lemma swap_executors:
  assumes "detectSwaps tx = (m, swaps)" "HSwap ex s r \<in> set swaps"
  shows "ex \<in> ho_depositor ` set (ht_openNoteDeposits tx)"
proof -
  have keys: "fst ` set (foldl addReceived es ds) = fst ` set es \<union> ho_depositor ` set ds" for es ds
    by (induction ds arbitrary: es) (auto simp: addReceived_def Let_def)
  have "ex \<in> fst ` set es" if "foldl (matchSwap ws) (m0, acts) es = (m1, acts1)" "HSwap ex s r \<in> set acts1" "HSwap ex s r \<notin> set acts"
    for ws m0 acts es m1 acts1
    using that
  proof (induction es arbitrary: m0 acts)
    case (Cons e es)
    obtain m2 sent where st: "matchSwap ws (m0, acts) e = (m2, acts @ [HSwap (fst e) sent (sw_received (snd e))])"
      by (cases "foldl (matchOne (fst e)) (m0, sw_sent (snd e)) (enumerate 0 ws)") (auto simp: matchSwap_def)
    show ?case
    proof (cases "fst e = ex")
      case False
      then have "HSwap ex s r \<notin> set (acts @ [HSwap (fst e) sent (sw_received (snd e))])" using Cons.prems(3) by auto
      with Cons.IH [of m2 "acts @ [HSwap (fst e) sent (sw_received (snd e))]"] Cons.prems st show ?thesis by simp
    qed simp
  qed simp
  from this [OF assms(1) [unfolded detectSwaps_def] assms(2)] keys [of "[]"] show ?thesis by (simp add: swapsByExecutor_def)
qed

lemma classified_members:
  assumes "a \<in> set (classifiedActions fees tx)"
  shows "a = HWithdrawal to t x \<Longrightarrow> to \<notin> set fees"
    and "a = HSwap ex s r \<Longrightarrow> ex \<in> ho_depositor ` set (ht_openNoteDeposits tx)"
proof -
  obtain m swaps where sw: "detectSwaps tx = (m, swaps)" by (cases "detectSwaps tx")
  have only: "\<forall>b \<in> set swaps. \<exists>ex s r. b = HSwap ex s r"
    using swaps_only [of "ht_withdrawals tx" "[]" "[]" "swapsByExecutor (ht_openNoteDeposits tx)" m swaps] sw
    by (auto simp: detectSwaps_def)
  have mem: "a \<in> set swaps \<or> a \<in> set (depositActions tx) \<or> a \<in> set (remainingWithdrawals fees m (ht_withdrawals tx)) \<or>
      a \<in> set (map (transferAction \<circ> snd) (fst (aggregateNotes (ht_notes tx)))) \<or> (\<exists>t x n. a = TransferSelf t x n)"
    using assms by (auto simp: classifiedActions_def sw Let_def split_def split: if_splits)
  have transfer: "transferAction ag \<noteq> HWithdrawal to t x" "transferAction ag \<noteq> HSwap ex s r" for ag
    by (simp_all add: transferAction_def)
  have remaining: "HSwap ex s r \<notin> set (remainingWithdrawals fees m (ht_withdrawals tx))"
    "HWithdrawal to t x \<in> set (remainingWithdrawals fees m (ht_withdrawals tx)) \<Longrightarrow> to \<notin> set fees"
    by (auto simp: remainingWithdrawals_def withdrawalAction_def split: if_splits)
  show "to \<notin> set fees" if "a = HWithdrawal to t x"
  proof -
    have "a \<notin> set (map (transferAction \<circ> snd) (fst (aggregateNotes (ht_notes tx))))" using that transfer(1) by (auto dest: sym)
    with mem only that remaining(2) show ?thesis by (auto simp: depositActions_def)
  qed
  show "ex \<in> ho_depositor ` set (ht_openNoteDeposits tx)" if "a = HSwap ex s r"
  proof -
    have "a \<notin> set (map (transferAction \<circ> snd) (fst (aggregateNotes (ht_notes tx))))" using that transfer(2) by (auto dest: sym)
    with mem that remaining(1) have "HSwap ex s r \<in> set swaps" by (auto simp: depositActions_def)
    then show ?thesis by (rule swap_executors [OF sw])
  qed
qed

text \<open>The contribution of a withdrawal, an open-note deposit and a transfer to a token.\<close>

definition paid :: "(int \<Rightarrow> bool) \<Rightarrow> int \<Rightarrow> int \<times> int \<times> int \<Rightarrow> int" where
  "paid other t x = (if other (fst x) \<and> fst (snd x) = t then snd (snd x) else 0)"

definition moved :: "int \<Rightarrow> note_key \<times> int \<times> nat \<Rightarrow> int" where
  "moved t e = (if snd (snd (fst e)) = t then (if fst (fst e) = ''outgoing'' then - fst (snd e) else fst (snd e)) else 0)"

lemma leg_sum: "\<Sum>\<^sub># (image_mset (paid other t) (image_mset (\<lambda>l. (ex, leg_token l, leg_amount l)) (mset ls))) =
    (if other ex then sum_list (map leg_amount (filter (\<lambda>l. leg_token l = t) ls)) else 0)"
  by (induction ls) (auto simp: paid_def)

lemma effect_parts:
  assumes "\<And>to t x. a = HFee to t x \<Longrightarrow> to \<noteq> viewer" "\<And>ex s r. a = HSwap ex s r \<Longrightarrow> ex \<noteq> viewer"
  shows "effect viewer t a = \<Sum>\<^sub># (image_mset (paid (\<lambda>_. True) t) (funded a)) - \<Sum>\<^sub># (image_mset (paid (\<lambda>to. to \<noteq> viewer) t) (withdrawn a)) +
     (case transferOf a of None \<Rightarrow> 0 | Some e \<Rightarrow> moved t e)"
  using assms by (cases a) (auto simp: effect_def funded_def withdrawn_def transferOf_def moved_def paid_def leg_sum)

lemma effects_parts:
  assumes "\<forall>a \<in> set acts. (\<forall>to t x. a = HFee to t x \<longrightarrow> to \<noteq> viewer) \<and> (\<forall>ex s r. a = HSwap ex s r \<longrightarrow> ex \<noteq> viewer)"
  shows "sum_list (map (effect viewer t) acts) = \<Sum>\<^sub># (image_mset (paid (\<lambda>_. True) t) (total funded acts)) -
     \<Sum>\<^sub># (image_mset (paid (\<lambda>to. to \<noteq> viewer) t) (total withdrawn acts)) + sum_list (map (moved t) (List.map_filter transferOf acts))"
  using assms
proof (induction acts)
  case (Cons a acts)
  from Cons.prems effect_parts [of a viewer t] Cons.IH show ?case
    by (cases "transferOf a") (simp_all add: List.map_filter_simps)
qed (simp add: List.map_filter_simps)

definition notes_amount :: "string \<Rightarrow> int \<Rightarrow> HistoryNote list \<Rightarrow> int" where
  "notes_amount kind t ns = sum_list (map hn_amount (filter (\<lambda>n. hn_channelKind n = kind \<and> hn_token n = t) ns))"

lemma moved_add: "moved t (k, x + y, c) = moved t (k, x, c') + moved t (k, y, c'')"
  by (simp add: moved_def)

lemma addNote_moved:
  "sum_list (map (\<lambda>(k, a). moved t (k, ag_totalAmount a, ag_noteCount a)) (addNote m k n x)) =
   sum_list (map (\<lambda>(k, a). moved t (k, ag_totalAmount a, ag_noteCount a)) m) + moved t (k, x, 1)"
proof (induction m)
  case Nil
  then show ?case by (simp add: addNote_def)
next
  case (Cons e m)
  obtain k' a where e: "e = (k', a)" by (cases e)
  show ?case
  proof (cases "k' = k")
    case True
    then show ?thesis using moved_add [of t k "ag_totalAmount a" x] by (simp add: e addNote_def jm_get_def moved_def)
  next
    case False
    then show ?thesis using Cons.IH by (simp add: e addNote_def jm_get_def)
  qed
qed

lemma moved_note: "moved t (noteKey n, x, c) = (if hn_token n = t then (if hn_channelKind n = ''outgoing'' then - x else x) else 0)"
  by (simp add: moved_def noteKey_def)

lemma moved_notes:
  assumes "\<forall>n \<in> set ns. hn_channelKind n \<in> {''incoming'', ''outgoing'', ''self_channel''}"
  shows "sum_list (map (moved t) (map (\<lambda>(k, a). (k, ag_totalAmount a, ag_noteCount a)) (fst (aggregateNotes ns)))) =
     notes_amount ''incoming'' t ns - notes_amount ''outgoing'' t ns"
proof -
  have "sum_list (map (\<lambda>(k, a). moved t (k, ag_totalAmount a, ag_noteCount a))
        (foldl (\<lambda>m n. addNote m (noteKey n) n (hn_amount n)) m (filter (\<lambda>n. hn_channelKind n \<noteq> ''self_channel'') ns))) =
      sum_list (map (\<lambda>(k, a). moved t (k, ag_totalAmount a, ag_noteCount a)) m) +
      (notes_amount ''incoming'' t ns - notes_amount ''outgoing'' t ns)" for m
    using assms
  proof (induction ns arbitrary: m)
    case (Cons n ns)
    then show ?case by (auto simp: addNote_moved notes_amount_def moved_note)
  qed (simp add: notes_amount_def)
  from this [of "[]"] show ?thesis by (simp add: aggregateNotes_split split_def comp_def)
qed

text \<open>
  A transaction brings in notes only: the withdrawals to a fee recipient were made by somebody else.
\<close>

definition only_received :: "HistoryTransaction \<Rightarrow> bool" where
  "only_received tx \<longleftrightarrow> (\<exists>n \<in> set (ht_notes tx). hn_channelKind n = ''incoming'') \<and> \<not> (\<exists>n \<in> set (ht_notes tx). hn_channelKind n = ''outgoing'')"

lemma has_transfer:
  assumes "\<forall>n \<in> set (ht_notes tx). hn_channelKind n \<in> {''incoming'', ''outgoing'', ''self_channel''}"
  shows "list_ex isReceived (classifiedActions fees tx) \<longleftrightarrow> (\<exists>n \<in> set (ht_notes tx). hn_channelKind n = ''incoming'')"
    "list_ex isSent (classifiedActions fees tx) \<longleftrightarrow> (\<exists>n \<in> set (ht_notes tx). hn_channelKind n = ''outgoing'')"
proof -
  have kinds: "list_ex isReceived acts \<longleftrightarrow> (\<exists>e \<in> set (List.map_filter transferOf acts). fst (fst e) = ''incoming'')"
    "list_ex isSent acts \<longleftrightarrow> (\<exists>e \<in> set (List.map_filter transferOf acts). fst (fst e) = ''outgoing'')" for acts
    by (induction acts) (auto simp: isReceived_def isSent_def transferOf_def List.map_filter_simps split: HistoryAction.splits)
  have "(\<exists>e \<in> set (map (\<lambda>(k, a). (k, ag_totalAmount a, ag_noteCount a)) (fst (aggregateNotes (ht_notes tx)))). fst (fst e) = kind) \<longleftrightarrow>
      (\<exists>n \<in> set (ht_notes tx). hn_channelKind n = kind)" if "kind \<noteq> ''self_channel''" for kind
  proof
    assume "\<exists>e \<in> set (map (\<lambda>(k, a). (k, ag_totalAmount a, ag_noteCount a)) (fst (aggregateNotes (ht_notes tx)))). fst (fst e) = kind"
    then obtain k a where ka: "(k, a) \<in> set (fst (aggregateNotes (ht_notes tx)))" "fst k = kind" by auto
    then have "filter (\<lambda>n. noteKey n = k) (ht_notes tx) \<noteq> []" using aggregates_exact(3) [OF assms] by blast
    then show "\<exists>n \<in> set (ht_notes tx). hn_channelKind n = kind" using ka(2) by (auto simp: filter_empty_conv noteKey_def)
  next
    assume "\<exists>n \<in> set (ht_notes tx). hn_channelKind n = kind"
    then obtain n where n: "n \<in> set (ht_notes tx)" "hn_channelKind n = kind" by blast
    then have "filter (\<lambda>x. noteKey x = noteKey n) (ht_notes tx) \<noteq> []" "fst (noteKey n) \<noteq> ''self_channel''"
      using that by (auto simp: filter_empty_conv noteKey_def)
    then obtain a where "(noteKey n, a) \<in> set (fst (aggregateNotes (ht_notes tx)))" using aggregates_exact(3) [OF assms] by blast
    then show "\<exists>e \<in> set (map (\<lambda>(k, a). (k, ag_totalAmount a, ag_noteCount a)) (fst (aggregateNotes (ht_notes tx)))). fst (fst e) = kind"
      using n(2) by (force simp: noteKey_def)
  qed
  then show "list_ex isReceived (classifiedActions fees tx) \<longleftrightarrow> (\<exists>n \<in> set (ht_notes tx). hn_channelKind n = ''incoming'')"
    "list_ex isSent (classifiedActions fees tx) \<longleftrightarrow> (\<exists>n \<in> set (ht_notes tx). hn_channelKind n = ''outgoing'')"
    unfolding kinds classified_account(4) [OF assms] by simp_all
qed

lemma stripped_actions:
  assumes "\<forall>a \<in> set acts. (\<forall>to t x. a = HWithdrawal to t x \<longrightarrow> to \<notin> set fees) \<and> (\<forall>to t x. a = HFee to t x \<longrightarrow> to \<in> set fees) \<and>
     (\<forall>ex s r. a = HSwap ex s r \<longrightarrow> ex \<notin> set fees)"
  shows "total withdrawn (filter (\<lambda>a. \<not> isFee a) acts) = filter_mset (\<lambda>x. fst x \<notin> set fees) (total withdrawn acts)"
    "total funded (filter (\<lambda>a. \<not> isFee a) acts) = total funded acts"
    "List.map_filter transferOf (filter (\<lambda>a. \<not> isFee a) acts) = List.map_filter transferOf acts"
proof -
  have one: "withdrawn a = filter_mset (\<lambda>x. fst x \<notin> set fees) (withdrawn a)" if "a \<in> set acts" "\<not> isFee a" for a
  proof -
    have "fst x \<notin> set fees" if "x \<in># withdrawn a" for x
      using assms \<open>a \<in> set acts\<close> \<open>\<not> isFee a\<close> that by (cases a) (auto simp: withdrawn_def isFee_def)
    then have "filter_mset (\<lambda>x. fst x \<notin> set fees) (withdrawn a) = filter_mset (\<lambda>_. True) (withdrawn a)"
      by (intro filter_mset_cong) auto
    then show ?thesis by simp
  qed
  have gone: "filter_mset (\<lambda>x. fst x \<notin> set fees) (withdrawn a) = {#}" if "a \<in> set acts" "isFee a" for a
    using assms that by (cases a) (auto simp: withdrawn_def isFee_def)
  have "\<forall>a \<in> set acts'. a \<in> set acts \<Longrightarrow>
      total withdrawn (filter (\<lambda>a. \<not> isFee a) acts') = filter_mset (\<lambda>x. fst x \<notin> set fees) (total withdrawn acts')" for acts'
    by (induction acts') (auto simp: one [symmetric] gone)
  then show "total withdrawn (filter (\<lambda>a. \<not> isFee a) acts) = filter_mset (\<lambda>x. fst x \<notin> set fees) (total withdrawn acts)" by blast
  have fee: "funded a = {#}" "transferOf a = None" if "isFee a" for a
    using that by (cases a; simp add: isFee_def funded_def transferOf_def)+
  show "total funded (filter (\<lambda>a. \<not> isFee a) acts) = total funded acts" by (induction acts) (simp_all add: fee)
  show "List.map_filter transferOf (filter (\<lambda>a. \<not> isFee a) acts) = List.map_filter transferOf acts"
    by (induction acts) (simp_all add: fee List.map_filter_simps split: option.split)
qed

definition counted :: "int \<Rightarrow> int list \<Rightarrow> HistoryTransaction \<Rightarrow> HistoryWithdrawal \<Rightarrow> bool" where
  "counted viewer fees tx w \<longleftrightarrow> hw_toAddress w \<noteq> viewer \<and> \<not> (only_received tx \<and> hw_toAddress w \<in> set fees)"

definition expected_net :: "int \<Rightarrow> int list \<Rightarrow> HistoryTransaction \<Rightarrow> int \<Rightarrow> int" where
  "expected_net viewer fees tx t =
     notes_amount ''incoming'' t (ht_notes tx) - notes_amount ''outgoing'' t (ht_notes tx) +
     sum_list (map ho_amount (filter (\<lambda>d. ho_token d = t) (ht_openNoteDeposits tx))) -
     sum_list (map hw_amount (filter (\<lambda>w. hw_token w = t \<and> counted viewer fees tx w) (ht_withdrawals tx)))"

lemma funding_sum:
  "\<Sum>\<^sub># (image_mset (paid (\<lambda>_. True) t) (mset (map funding_key ds))) = sum_list (map ho_amount (filter (\<lambda>d. ho_token d = t) ds))"
  by (induction ds) (simp_all add: paid_def funding_key_def)

lemma withdrawal_sum:
  "\<Sum>\<^sub># (image_mset (paid other t) (filter_mset (\<lambda>x. P (fst x)) (mset (map withdrawal_key ws)))) =
     sum_list (map hw_amount (filter (\<lambda>w. hw_token w = t \<and> other (hw_toAddress w) \<and> P (hw_toAddress w)) ws))"
  by (induction ws) (auto simp: paid_def withdrawal_key_def)

lemma balance_of_actions:
  assumes "ht_registeredPubkey tx = None"
    and kinds: "\<forall>n \<in> set (ht_notes tx). hn_channelKind n \<in> {''incoming'', ''outgoing'', ''self_channel''}"
    and "viewer \<notin> ho_depositor ` set (ht_openNoteDeposits tx)" "viewer \<notin> set (optl fees)"
    and "set (optl fees) \<inter> ho_depositor ` set (ht_openNoteDeposits tx) = {}"
  shows "net_of (netByToken (ct_actions (classifyTransaction tx fees)) viewer) t = expected_net viewer (optl fees) tx t"
proof -
  let ?F = "optl fees"
  let ?all = "classifiedActions ?F tx"
  let ?acts = "ct_actions (classifyTransaction tx fees)"
  note account = classified_account [OF kinds, where fees = ?F]
  have mem: "(\<forall>to t x. a = HWithdrawal to t x \<longrightarrow> to \<notin> set ?F) \<and> (\<forall>to t x. a = HFee to t x \<longrightarrow> to \<in> set ?F) \<and>
      (\<forall>ex s r. a = HSwap ex s r \<longrightarrow> ex \<notin> set ?F)" if "a \<in> set ?all" for a
    using classified_members [OF that] account(5) [OF that] assms(5) by (auto simp: isFee_def)
  have acts: "?acts = (if only_received tx then filter (\<lambda>a. \<not> isFee a) ?all else ?all)"
    using assms(1) by (simp add: classifyTransaction_def stripFees_def has_transfer [OF kinds] only_received_def)
  have ok: "\<forall>a \<in> set ?acts. (\<forall>to t x. a = HFee to t x \<longrightarrow> to \<noteq> viewer) \<and> (\<forall>ex s r. a = HSwap ex s r \<longrightarrow> ex \<noteq> viewer)"
  proof
    fix a assume "a \<in> set ?acts"
    then have "a \<in> set ?all" using acts by (auto split: if_splits)
    with mem [OF this] classified_members(2) [OF this] assms(3,4)
    show "(\<forall>to t x. a = HFee to t x \<longrightarrow> to \<noteq> viewer) \<and> (\<forall>ex s r. a = HSwap ex s r \<longrightarrow> ex \<noteq> viewer)" by blast
  qed
  have same: "total withdrawn ?acts = filter_mset (\<lambda>x. \<not> (only_received tx \<and> fst x \<in> set ?F)) (total withdrawn ?all)"
    "total funded ?acts = total funded ?all" "List.map_filter transferOf ?acts = List.map_filter transferOf ?all"
    using stripped_actions [of ?all ?F] mem unfolding acts by (auto split: if_splits)
  show ?thesis
    unfolding net_actions effects_parts [OF ok] same account(1,2,4) funding_sum moved_notes [OF kinds]
      withdrawal_sum [of "\<lambda>to. to \<noteq> viewer" t "\<lambda>to. \<not> (only_received tx \<and> to \<in> set ?F)"] expected_net_def counted_def
    by simp
qed

text \<open>
  C26: The change of balance shown for a transaction is the value it moved, token by token: what came in
  as notes and as open-note deposits, less the notes sent to others and the withdrawals to others. A
  withdrawal to the viewer's own account does not count, and neither do withdrawals to a fee recipient
  in a transaction that only brought notes in, which somebody else paid. Each token has one entry.
\<close>

theorem balance_updates_exact:
  assumes "ht_registeredPubkey tx = None"
    and "\<forall>n \<in> set (ht_notes tx). hn_channelKind n \<in> {''incoming'', ''outgoing'', ''self_channel''}"
    and "viewer \<notin> ho_depositor ` set (ht_openNoteDeposits tx)" "forwarder \<noteq> Some viewer"
    and "\<forall>f. forwarder = Some f \<longrightarrow> f \<notin> ho_depositor ` set (ht_openNoteDeposits tx)"
  shows "\<exists>m. dx_balanceUpdates (displayTransaction viewer M forwarder tx) =
      map (\<lambda>(t, x). \<lparr>bu_tokenName = name_or (tokenNameByAddress M) t, bu_amount = x, bu_decimals = decimals_of M t\<rparr>) m \<and>
    distinct (map fst m) \<and>
    (\<forall>t. (case jm_get m t of Some x \<Rightarrow> x | None \<Rightarrow> 0) =
      expected_net viewer (case forwarder of Some f \<Rightarrow> if f \<noteq> 0 then [f] else [] | None \<Rightarrow> []) tx t)"
proof -
  let ?fees = "case forwarder of Some f \<Rightarrow> if f \<noteq> 0 then Some [f] else None | None \<Rightarrow> None"
  have opt: "optl ?fees = (case forwarder of Some f \<Rightarrow> if f \<noteq> 0 then [f] else [] | None \<Rightarrow> [])" by (auto split: option.splits)
  have f: "viewer \<notin> set (optl ?fees)" "set (optl ?fees) \<inter> ho_depositor ` set (ht_openNoteDeposits tx) = {}"
    using assms(4,5) by (auto split: option.splits if_splits)
  let ?m = "netByToken (ct_actions (classifyTransaction tx ?fees)) viewer"
  have "dx_balanceUpdates (displayTransaction viewer M forwarder tx) =
      map (\<lambda>(t, x). \<lparr>bu_tokenName = name_or (tokenNameByAddress M) t, bu_amount = x, bu_decimals = decimals_of M t\<rparr>) ?m"
    by (simp add: displayTransaction_def computeBalanceUpdates_def Let_def)
  moreover have "distinct (map fst ?m)" using net_wf by (simp add: jm_wf_def)
  moreover have "(case jm_get ?m t of Some x \<Rightarrow> x | None \<Rightarrow> 0) = expected_net viewer (optl ?fees) tx t" for t
    using balance_of_actions [OF assms(1,2,3) f, of t] by (simp add: net_of_def option.case_eq_if)
  ultimately show ?thesis unfolding opt by blast
qed

definition no_maps :: display_maps where
  "no_maps = \<lparr>nameByAddress = [], tokenNameByAddress = [(1, ''STRK'')], tokenDecimalsByAddress = [], executorNames = []\<rparr>"

theorem balance_updates_exact_witness:
  "\<exists>m. dx_balanceUpdates (displayTransaction 7 no_maps (Some 99) sample_history) =
      map (\<lambda>(t, x). \<lparr>bu_tokenName = name_or (tokenNameByAddress no_maps) t, bu_amount = x, bu_decimals = decimals_of no_maps t\<rparr>) m \<and>
    (case jm_get m 1 of Some x \<Rightarrow> x | None \<Rightarrow> 0) = 15"
proof -
  have h: "ht_registeredPubkey sample_history = None"
    "\<forall>n \<in> set (ht_notes sample_history). hn_channelKind n \<in> {''incoming'', ''outgoing'', ''self_channel''}"
    "(7::int) \<notin> ho_depositor ` set (ht_openNoteDeposits sample_history)" "Some 99 \<noteq> Some (7::int)"
    "\<forall>f. Some 99 = Some f \<longrightarrow> f \<notin> ho_depositor ` set (ht_openNoteDeposits sample_history)"
    by (simp_all add: sample_history_def)
  have e: "expected_net 7 [99] sample_history 1 = 15"
    by (simp add: expected_net_def notes_amount_def counted_def only_received_def sample_history_def)
  from balance_updates_exact [OF h, of no_maps] obtain m where m: "dx_balanceUpdates (displayTransaction 7 no_maps (Some 99) sample_history) =
      map (\<lambda>(t, x). \<lparr>bu_tokenName = name_or (tokenNameByAddress no_maps) t, bu_amount = x, bu_decimals = decimals_of no_maps t\<rparr>) m"
    "\<forall>t. (case jm_get m t of Some x \<Rightarrow> x | None \<Rightarrow> 0) = expected_net 7 [99] sample_history t" by auto
  show ?thesis using m(1) m(2) [rule_format, of 1] e by auto
qed

section \<open>The order of the actions\<close>

text \<open>
  The actions of a transaction are shown completely, ordered by their type, and two actions of the same
  type stay in the order of the classification.
\<close>

theorem actions_in_order:
  fixes forwarder :: "int option"
  defines "fees \<equiv> (case forwarder of Some f \<Rightarrow> if f \<noteq> 0 then Some [f] else None | None \<Rightarrow> None)"
  shows "sorted (map (\<lambda>a. action_rank (ad_type a)) (dx_actions (displayTransaction viewer M forwarder tx))) \<and>
    mset (dx_actions (displayTransaction viewer M forwarder tx)) = mset (map (displayAction M) (ct_actions (classifyTransaction tx fees))) \<and>
    filter (\<lambda>a. ad_type a = ty) (dx_actions (displayTransaction viewer M forwarder tx)) =
      filter (\<lambda>a. ad_type a = ty) (map (displayAction M) (ct_actions (classifyTransaction tx fees)))"
proof -
  let ?xs = "map (displayAction M) (ct_actions (classifyTransaction tx fees))"
  let ?rank = "\<lambda>a. action_rank (ad_type a)"
  have d: "dx_actions (displayTransaction viewer M forwarder tx) = sort_key ?rank ?xs"
    by (simp add: displayTransaction_def Let_def fees_def)
  have by_rank: "filter (\<lambda>a. ad_type a = ty) ys = filter (\<lambda>a. ad_type a = ty) (filter (\<lambda>a. ?rank a = action_rank ty) ys)" for ys
    by (induction ys) auto
  have "filter (\<lambda>a. ad_type a = ty) (sort_key ?rank ?xs) = filter (\<lambda>a. ad_type a = ty) ?xs"
    by (subst (1 2) by_rank) (simp only: sort_key_stable)
  then show ?thesis by (simp add: d)
qed

section \<open>Defects of the hook\<close>

definition sample_app :: AppConfig where
  "sample_app = \<lparr>cf_rpcUrl = [], cf_indexerUrl = [], cf_poolAddress = ''0x99'', cf_poolClassHash = [], cf_compliancePublicKey = [],
     cf_proofValidityBlocks = ''450'', cf_tokens = [sample_token], cf_chainId = [], cf_provingServiceUrl = None, cf_backendIndexerUrl = None,
     cf_backendProverUrl = None, cf_ohttpKeyConfig = None, cf_gatewayUrl = None, cf_feederGatewayUrl = None, cf_explorerUrl = None,
     cf_ekubo = None, cf_vesu = None, cf_ohttpEnabled = None, cf_paymasterUrl = None, cf_paymasterFeeToken = None, cf_avnuApiKey = None,
     cf_paymasterForwarderAddress = None, cf_feeAmount = None, cf_feeCollectorAddress = None\<rparr>"

definition ann :: AccountConfig where
  "ann = \<lparr>ac_name = ''Ann'', ac_address = ''0x7'', ac_privateKey = Some ''0x1'', ac_viewingKey = None, ac_admin = False\<rparr>"

definition bob :: AccountConfig where
  "bob = ann\<lparr>ac_name := ''Bob'', ac_address := ''0x8''\<rparr>"

definition sample_page :: HistoryPage where
  "sample_page = \<lparr>hp_blockRef = BlockNumber 5, hp_transactions = [sample_history],
     hp_cursor = \<lparr>hc_subchannels = [], hc_beginBlockNumber = None, hc_historyComplete = True\<rparr>\<rparr>"

theorem history_single_request_witness:
  "let s = fetchMore_begin True [ann] sample_app True (history_initial (Some ann)) in
   hh_inflight s \<noteq> None \<and> hh_loadingRef s \<and> hh_inflight (fetchMore_begin True [ann] sample_app True s) = hh_inflight s"
proof -
  let ?s = "fetchMore_begin True [ann] sample_app True (history_initial (Some ann))"
  have r: "history_step\<^sup>*\<^sup>* (history_initial (Some ann)) ?s" by (intro r_into_rtranclp history_step.more)
  have i: "hh_inflight ?s \<noteq> None" by (simp add: fetchMore_begin_def history_initial_def)
  from history_single_request [OF r, of True "[ann]" sample_app True] i show ?thesis by (simp add: Let_def)
qed

text \<open>
  A request does not notice that the account has changed. The page it was waiting for is shown for the
  new account, and its cursor is the one the next request of the new account continues from.
\<close>

theorem stale_page_shown:
  assumes "hh_inflight s = Some (PageRequest c)" "hx_provider c" "displayPage c shown = Inr txs" "resolveTimestamps getTimestamp txs = Inr txs'"
  shows "let s' = fetchMore_times_arrived getTimestamp (fetchMore_page_arrived (Inr shown) (resetHistory (Some other) s)) in
    hh_account s' = Some other \<and> hh_transactions s' = txs' \<and> hh_historyCursorRef s' = Some (hp_cursor shown)"
  using assms by (simp add: fetchMore_times_arrived_def fetchMore_page_arrived_def resetHistory_def finishHistory_def Let_def)

text \<open>The page of one account ends up on the list of another one.\<close>

theorem stale_page_shown_witness:
  "let s = fetchMore_begin True [ann, bob] sample_app True (history_initial (Some ann));
       s' = fetchMore_times_arrived (\<lambda>_. Inr 1) (fetchMore_page_arrived (Inr sample_page) (resetHistory (Some bob) s)) in
   hh_account s' = Some bob \<and> length (hh_transactions s') = 1"
proof -
  let ?s = "fetchMore_begin True [ann, bob] sample_app True (history_initial (Some ann))"
  let ?c = "\<lparr>hx_account = ann, hx_allAccounts = [ann, bob], hx_config = sample_app, hx_provider = True\<rparr>"
  have s: "hh_inflight ?s = Some (PageRequest ?c)" by (simp add: fetchMore_begin_def history_initial_def)
  have "case displayPage ?c sample_page of Inr txs \<Rightarrow> length txs = 1 | Inl _ \<Rightarrow> False" by code_simp
  then obtain txs where t: "displayPage ?c sample_page = Inr txs" "length txs = 1" by (auto split: sum.splits)
  have r: "\<exists>txs'. resolveTimestamps (\<lambda>_. Inr 1) ts = Inr txs' \<and> length txs' = length ts" for ts
    by (auto simp: resolveTimestamps_def mapR_total)
  then obtain txs' where t': "resolveTimestamps (\<lambda>_. Inr 1) txs = Inr txs'" "length txs' = 1" using t(2) by metis
  from stale_page_shown [OF s _ t(1) t'(1), of bob] t'(2) show ?thesis by (simp add: Let_def)
qed

text \<open>
  The block of the previous page has no influence on the next request: a service that answers requests
  without a block alike gives the same page, whatever block the hook has recorded.
\<close>

theorem fetch_more_unpinned:
  assumes "\<And>body. hb_block_ref body = None \<Longrightarrow> svc body = svc' body"
  shows "fetchMore_page C svc nc cc account (s\<lparr>hh_blockRefValue := b\<rparr>) = fetchMore_page C svc' nc cc account s"
  using assms by (simp add: fetchMore_page_def fetchMore_options_def fetchHistory_def Let_def bindR_def split: sum.split)

text \<open>A new transaction is dropped when a listed one agrees with it in the first eight and last four digits of the hash.\<close>

theorem latest_dropped:
  "let old = sample_history\<lparr>ht_transactionHash := 0x123456789000000000001234\<rparr>;
       new = sample_history\<lparr>ht_transactionHash := 0x123456781111111111111234\<rparr>;
       shown = toDisplayTransactions [old] 7 no_maps None
   in prependNew (toDisplayTransactions [new] 7 no_maps None) shown = shown \<and>
      dx_fullTransactionHash (hd (toDisplayTransactions [new] 7 no_maps None)) \<noteq> dx_fullTransactionHash (hd shown)"
proof -
  let ?d = "\<lambda>h. displayTransaction 7 no_maps None (sample_history\<lparr>ht_transactionHash := h\<rparr>)"
  have short: "dx_transactionHash (?d h) = shortAddress h" "dx_fullTransactionHash (?d h) = ''0x'' @ int_toString 16 h" for h
    by (simp_all add: displayTransaction_def Let_def classifyTransaction_def)
  have chars: "digit_char 0 = CHR ''0''" "digit_char 1 = CHR ''1''" "digit_char (Suc 0) = CHR ''1''" "digit_char 2 = CHR ''2''" "digit_char 3 = CHR ''3''"
    "digit_char 4 = CHR ''4''" "digit_char 5 = CHR ''5''" "digit_char 6 = CHR ''6''" "digit_char 7 = CHR ''7''" "digit_char 8 = CHR ''8''"
    "digit_char 9 = CHR ''9''" by code_simp+
  have hex: "int_toString 16 0x123456789000000000001234 = ''123456789000000000001234''"
    "int_toString 16 0x123456781111111111111234 = ''123456781111111111111234''"
    by (simp_all add: int_toString_def to_base.simps chars)
  show ?thesis by (simp add: Let_def toDisplayTransactions_def prependNew_def short shortAddress_def hex truncateAddress_def)
qed

end
