(* ===== verification/Demo_State.thy ===== *)
theory Demo_State
  imports Demo_Config Interfaces "HOL-Library.Multiset"
begin

text \<open>
  The private state of an account as the demo shows it: \<open>demo/src/hooks/usePrivateState.ts\<close>. The answers
  of the discovery provider and of the node are arguments; \<open>localeCompare\<close> compares strings by the
  collation key \<open>collate\<close>. A refresh carries the account and the configuration of the render that
  started it.

  The theorems: the private balance of a token is the sum of its discovered notes, and the cards show
  every discovered note exactly once, newest first; a refresh of the transparent balances leaves the
  private ones alone. Two defects are stated: senders whose shortened addresses agree share one card,
  and an answer that arrives after a switch of the account is shown for the wrong one.
\<close>

section \<open>Types\<close>

record NoteDisplay =
  nd_id :: string
  nd_rawId :: int
  nd_amount :: int
  nd_decimals :: nat
  nd_token :: string
  nd_tokenName :: string
  nd_sender :: string
  nd_senderName :: "string option"
  nd_channelKey :: string
  nd_rawChannelKey :: string
  nd_nonce :: nat
  nd_open :: bool

record TokenNoteGroup =
  tg_tokenAddress :: string
  tg_tokenName :: string
  tg_decimals :: nat
  tg_notes :: "NoteDisplay list"

record IncomingChannelCard =
  in_cardKey :: string
  in_sender :: string
  in_senderName :: "string option"
  in_channelKey :: string
  in_rawChannelKey :: string
  in_tokenGroups :: "TokenNoteGroup list"

record OutgoingToken =
  ou_tokenAddress :: string
  ou_tokenName :: string
  ou_noteNonce :: nat

record OutgoingChannelCard =
  out_cardKey :: string
  out_recipient :: string
  out_recipientName :: "string option"
  out_channelKey :: string
  out_rawChannelKey :: string
  out_tokens :: "OutgoingToken list"

record TokenBalance =
  bl_name :: string
  bl_address :: string
  bl_decimals :: nat
  bl_fee :: bool
  bl_transparent :: int
  bl_private :: int
  bl_noteCount :: nat

record PrivateState =
  ps_isRegistered :: "bool option"
  ps_tokenBalances :: "TokenBalance list"
  ps_notes :: "NoteDisplay list"
  ps_incomingCards :: "IncomingChannelCard list"
  ps_outgoingCards :: "OutgoingChannelCard list"

definition EMPTY_STATE :: PrivateState where
  "EMPTY_STATE = \<lparr>ps_isRegistered = None, ps_tokenBalances = [], ps_notes = [], ps_incomingCards = [], ps_outgoingCards = []\<rparr>"

section \<open>Helpers\<close>

text \<open>The hook has its own \<open>truncateAddress\<close>, which keeps six digits in front where that of \<open>format.ts\<close> keeps eight.\<close>

definition shortenAddress :: "string \<Rightarrow> string" where
  "shortenAddress h =
     (let padded = (if take 2 h = ''0x'' then h else ''0x'' @ h)
      in if length padded \<le> 14 then padded else take 8 padded @ ''...'' @ drop (length padded - 4) padded)"

definition formatBigInt :: "int \<Rightarrow> string" where
  "formatBigInt v =
     (let h = int_toString 16 v
      in if length h \<le> 12 then ''0x'' @ h else ''0x'' @ take 6 h @ ''...'' @ drop (length h - 4) h)"

definition group_by :: "('a \<Rightarrow> 'k) \<Rightarrow> 'a list \<Rightarrow> ('k, 'a list) jsmap" where
  "group_by f xs = foldl (\<lambda>m x. jm_set m (f x) (case jm_get m (f x) of Some ys \<Rightarrow> ys @ [x] | None \<Rightarrow> [x])) [] xs"

section \<open>The parts of a refresh\<close>

definition notes_of :: "(int, Note list) jsmap \<Rightarrow> int \<Rightarrow> Note list" where
  "notes_of m t = (case jm_get m t of Some ns \<Rightarrow> ns | None \<Rightarrow> [])"

definition tokenBalance :: "(int, Note list) jsmap \<Rightarrow> TokenConfig \<times> int \<Rightarrow> TokenBalance result" where
  "tokenBalance found e = bindR (BigInt (BNString (tk_address (fst e)))) (\<lambda>a.
     let ns = notes_of found a in
     Inr \<lparr>bl_name = tk_name (fst e), bl_address = tk_address (fst e), bl_decimals = tk_decimals (fst e),
         bl_fee = (case tk_fee (fst e) of Some f \<Rightarrow> f | None \<Rightarrow> False), bl_transparent = snd e,
         bl_private = foldl (\<lambda>acc n. acc + n_amount n) 0 ns, bl_noteCount = length ns\<rparr>)"

definition accountNames :: "AccountConfig \<Rightarrow> AccountConfig list \<Rightarrow> (int, string) jsmap result" where
  "accountNames account allAccounts = foldR (\<lambda>m acc.
     bindR (BigInt (BNString (ac_address acc))) (\<lambda>a.
     bindR (BigInt (BNString (ac_address account))) (\<lambda>self.
     Inr (jm_set m a (if a = self then ''Self'' else ac_name acc))))) [] allAccounts"

definition displayNote :: "(int, string) jsmap \<Rightarrow> TokenConfig \<Rightarrow> int \<Rightarrow> Note \<Rightarrow> NoteDisplay result" where
  "displayNote names tc token note =
     bindR (BigInt (n_sender note)) (\<lambda>sender.
     bindR (BigInt (n_id note)) (\<lambda>noteId.
     Inr \<lparr>nd_id = formatBigInt noteId, nd_rawId = noteId, nd_amount = n_amount note, nd_decimals = tk_decimals tc,
         nd_token = shortenAddress (int_toString 16 token), nd_tokenName = tk_name tc,
         nd_sender = shortenAddress (int_toString 16 sender), nd_senderName = jm_get names sender,
         nd_channelKey = formatBigInt (w_channelKey (n_witness note)),
         nd_rawChannelKey = ''0x'' @ int_toString 16 (w_channelKey (n_witness note)),
         nd_nonce = w_nonce (n_witness note), nd_open = (case n_open note of Some b \<Rightarrow> b | None \<Rightarrow> False)\<rparr>))"

definition displayNotes :: "(int, string) jsmap \<Rightarrow> (int, Note list) jsmap \<Rightarrow> TokenConfig list \<Rightarrow> NoteDisplay list result" where
  "displayNotes names found tcs = bindR (mapR (\<lambda>tc.
     bindR (BigInt (BNString (tk_address tc))) (\<lambda>token. mapR (displayNote names tc token) (notes_of found token))) tcs) (\<lambda>parts.
     Inr (concat parts))"

text \<open>A card of one sender; the notes of a group are never empty.\<close>

definition tokenGroup :: "string \<times> NoteDisplay list \<Rightarrow> TokenNoteGroup" where
  "tokenGroup e = \<lparr>tg_tokenAddress = fst e, tg_tokenName = nd_tokenName (hd (snd e)), tg_decimals = nd_decimals (hd (snd e)), tg_notes = snd e\<rparr>"

definition newest_first :: "NoteDisplay list \<Rightarrow> NoteDisplay list" where
  "newest_first ns = sort_key (\<lambda>n. - int (nd_nonce n)) ns"

definition incomingCard :: "string \<times> NoteDisplay list \<Rightarrow> IncomingChannelCard" where
  "incomingCard e =
     (let senderNotes = newest_first (snd e); firstNote = hd senderNotes in
      \<lparr>in_cardKey = fst e, in_sender = fst e, in_senderName = nd_senderName firstNote, in_channelKey = nd_channelKey firstNote,
       in_rawChannelKey = nd_rawChannelKey firstNote, in_tokenGroups = map tokenGroup (group_by nd_token senderNotes)\<rparr>)"

text \<open>The card of the account itself first, the others by name or address.\<close>

definition card_rank :: "(string \<Rightarrow> nat) \<Rightarrow> string option \<Rightarrow> string \<Rightarrow> nat" where
  "card_rank collate name address =
     (if name = Some ''Self'' then 0 else Suc (collate (case name of Some n \<Rightarrow> n | None \<Rightarrow> address)))"

definition incomingCards :: "(string \<Rightarrow> nat) \<Rightarrow> NoteDisplay list \<Rightarrow> IncomingChannelCard list" where
  "incomingCards collate ns =
     sort_key (\<lambda>c. card_rank collate (in_senderName c) (in_sender c)) (map incomingCard (group_by nd_sender ns))"

definition outgoingCard :: "(int, string) jsmap \<Rightarrow> (int, string) jsmap \<Rightarrow> int \<times> Channel \<Rightarrow> OutgoingChannelCard" where
  "outgoingCard names tokenNames e =
     \<lparr>out_cardKey = int_toString 16 (fst e), out_recipient = shortenAddress (int_toString 16 (fst e)),
      out_recipientName = jm_get names (fst e),
      out_channelKey = (if key_truthy (key (snd e)) then formatBigInt (the (key (snd e))) else ''N/A''),
      out_rawChannelKey = (if key_truthy (key (snd e)) then ''0x'' @ int_toString 16 (the (key (snd e))) else []),
      out_tokens = map (\<lambda>(t, tc). \<lparr>ou_tokenAddress = shortenAddress (int_toString 16 t),
          ou_tokenName = (case jm_get tokenNames t of Some n \<Rightarrow> n | None \<Rightarrow> shortenAddress (int_toString 16 t)),
          ou_noteNonce = noteNonce tc\<rparr>) (tokens (snd e))\<rparr>"

definition outgoingCards :: "(string \<Rightarrow> nat) \<Rightarrow> (int, string) jsmap \<Rightarrow> (int, string) jsmap \<Rightarrow> (int, Channel) jsmap \<Rightarrow> OutgoingChannelCard list" where
  "outgoingCards collate names tokenNames channels =
     sort_key (\<lambda>c. card_rank collate (out_recipientName c) (out_recipient c)) (map (outgoingCard names tokenNames) channels)"

section \<open>The hook\<close>

record private_context =
  pc_account :: AccountConfig
  pc_allAccounts :: "AccountConfig list"
  pc_config :: AppConfig

record private_hook =
  ph_account :: "AccountConfig option"
  ph_state :: PrivateState
  ph_loading :: bool
  ph_error :: "error option"
  ph_registry :: PrivateRegistry

definition resetPrivate :: "AccountConfig option \<Rightarrow> private_hook \<Rightarrow> private_hook" where
  "resetPrivate account h = h\<lparr>ph_account := account, ph_state := EMPTY_STATE\<rparr>"

text \<open>
  The calls of a refresh and their answers. \<open>Promise.all\<close> rejects with the first rejection; here the
  calls are tried in the order they are written.
\<close>

record private_answers =
  pa_notes :: NotesDiscoveryResult
  pa_channels :: ChannelsDiscoveryResult
  pa_requirement :: SetupRequirement
  pa_balances :: "int list"

definition refresh_calls ::
  "DiscoveryProvider \<Rightarrow> (int \<Rightarrow> bignum \<Rightarrow> int \<Rightarrow> int \<Rightarrow> SetupRequirement result) \<Rightarrow> (string \<Rightarrow> string \<Rightarrow> int result)
     \<Rightarrow> private_context \<Rightarrow> PrivateRegistry \<Rightarrow> int \<Rightarrow> private_answers result"
where
  "refresh_calls D discoverReq getErc20Balance c registry vk =
     (let tcs = cf_tokens (pc_config c); address = BigInt (BNString (ac_address (pc_account c))) in
      bindR (mapR (\<lambda>t. BigInt (BNString (tk_address t))) tcs) (\<lambda>tokenBigInts.
      bindR address (\<lambda>user.
      bindR (discoverNotes D user (BNBigint vk)
               \<lparr>np_cursor = reg_cursor registry, np_tokens = Some tokenBigInts, np_blockIdentifier = Some (BlockTag ''pre_confirmed'')\<rparr>) (\<lambda>ns.
      bindR (discoverChannels D user (BNBigint vk) AllRecipients
               \<lparr>cp_cursor = Some \<lparr>cc_channels = Some (reg_channels registry), cc_total = None\<rparr>, cp_blockIdentifier = Some (BlockTag ''pre_confirmed'')\<rparr>) (\<lambda>cs.
      bindR (case tokenBigInts of [] \<Rightarrow> Inl (TypeError ''address'') | t # _ \<Rightarrow> discoverReq user (BNBigint vk) user t) (\<lambda>req.
      bindR (mapR (\<lambda>t. getErc20Balance (tk_address t) (ac_address (pc_account c))) tcs) (\<lambda>bs.
      Inr \<lparr>pa_notes = ns, pa_channels = cs, pa_requirement = req, pa_balances = bs\<rparr>)))))))"

definition refresh_registry :: "private_answers \<Rightarrow> PrivateRegistry \<Rightarrow> PrivateRegistry" where
  "refresh_registry a r =
     (let r' = r\<lparr>reg_cursor := Some (nr_cursor (pa_notes a))\<rparr>;
          r'' = (case cr_channels (pa_channels a) of Some ch \<Rightarrow> r'\<lparr>reg_channels := ch\<rparr> | None \<Rightarrow> r')
      in r''\<lparr>reg_notes := nr_notes (pa_notes a)\<rparr>)"

definition refresh_state :: "(string \<Rightarrow> nat) \<Rightarrow> private_context \<Rightarrow> private_answers \<Rightarrow> PrivateState result" where
  "refresh_state collate c a =
     (let tcs = cf_tokens (pc_config c); found = nr_notes (pa_notes a) in
      bindR (mapR (tokenBalance found) (zip tcs (pa_balances a))) (\<lambda>balances.
      bindR (accountNames (pc_account c) (pc_allAccounts c)) (\<lambda>names.
      bindR (displayNotes names found tcs) (\<lambda>ns.
      bindR (foldR (\<lambda>m t. bindR (BigInt (BNString (tk_address t))) (\<lambda>x. Inr (jm_set m x (tk_name t)))) [] tcs) (\<lambda>tokenNames.
      bindR (of_option (TypeError ''channels is not iterable'') (cr_channels (pa_channels a))) (\<lambda>channels.
      Inr \<lparr>ps_isRegistered = Some (pa_requirement a \<noteq> Register), ps_tokenBalances = balances, ps_notes = ns,
           ps_incomingCards = incomingCards collate ns, ps_outgoingCards = outgoingCards collate names tokenNames channels\<rparr>))))))"

text \<open>
  \<open>refresh\<close> up to its first await, and what follows the answers. A failure empties the registry and
  keeps the state.
\<close>

definition refresh_begin :: "bool \<Rightarrow> private_hook \<Rightarrow> private_hook" where
  "refresh_begin provider h =
     (case ph_account h of
        None \<Rightarrow> h
      | Some account \<Rightarrow>
          if \<not> provider \<or> \<not> set_text (ac_viewingKey account) then h
          else (case BigInt (BNString (the (ac_viewingKey account))) of
             Inl _ \<Rightarrow> h
           | Inr _ \<Rightarrow> h\<lparr>ph_loading := True, ph_error := None\<rparr>))"

definition refresh_failed :: "error \<Rightarrow> private_hook \<Rightarrow> private_hook" where
  "refresh_failed e h = h\<lparr>ph_error := Some e, ph_registry := createEmptyRegistry, ph_loading := False\<rparr>"

definition refresh_done :: "(string \<Rightarrow> nat) \<Rightarrow> private_context \<Rightarrow> private_answers result \<Rightarrow> private_hook \<Rightarrow> private_hook" where
  "refresh_done collate c answers h =
     (case answers of
        Inl e \<Rightarrow> refresh_failed e h
      | Inr a \<Rightarrow>
          let h' = h\<lparr>ph_registry := refresh_registry a (ph_registry h)\<rparr> in
          (case refresh_state collate c a of
             Inl e \<Rightarrow> refresh_failed e h'
           | Inr st \<Rightarrow> h'\<lparr>ph_state := st, ph_loading := False\<rparr>))"

definition refreshBalances_done :: "TokenConfig list \<Rightarrow> int list \<Rightarrow> PrivateState \<Rightarrow> PrivateState" where
  "refreshBalances_done tcs bs previous =
     (let byAddress = foldl (\<lambda>m e. jm_set m (tk_address (fst e)) (snd e)) [] (zip tcs bs) in
      previous\<lparr>ps_tokenBalances :=
        (if ps_tokenBalances previous \<noteq> []
         then map (\<lambda>tb. tb\<lparr>bl_transparent := (case jm_get byAddress (bl_address tb) of Some b \<Rightarrow> b | None \<Rightarrow> bl_transparent tb)\<rparr>) (ps_tokenBalances previous)
         else map (\<lambda>(t, b). \<lparr>bl_name = tk_name t, bl_address = tk_address t, bl_decimals = tk_decimals t,
                bl_fee = (case tk_fee t of Some f \<Rightarrow> f | None \<Rightarrow> False), bl_transparent = b, bl_private = 0, bl_noteCount = 0\<rparr>) (zip tcs bs))\<rparr>)"

section \<open>Grouping\<close>

lemma group_snoc: "group_by f (xs @ [x]) = jm_set (group_by f xs) (f x) (case jm_get (group_by f xs) (f x) of Some ys \<Rightarrow> ys @ [x] | None \<Rightarrow> [x])"
  by (simp add: group_by_def)

lemma group_wf: "jm_wf (group_by f xs)"
  by (induction xs rule: rev_induct) (simp_all add: group_snoc, simp add: group_by_def)

lemma group_get: "jm_get (group_by f xs) k = (if filter (\<lambda>x. f x = k) xs = [] then None else Some (filter (\<lambda>x. f x = k) xs))"
proof (induction xs rule: rev_induct)
  case Nil
  then show ?case by (simp add: group_by_def)
next
  case (snoc x xs)
  then show ?case by (auto simp: group_snoc)
qed

lemma group_entry: "e \<in> set (group_by f xs) \<Longrightarrow> snd e = filter (\<lambda>x. f x = fst e) xs \<and> snd e \<noteq> []"
  using jm_wf_entry [OF group_wf, of "fst e" "snd e" f xs] group_get [of f xs "fst e"] by (auto split: if_splits)

lemma jm_set_mset: "jm_wf m \<Longrightarrow> mset (concat (map snd (jm_set m k (case jm_get m k of Some ys \<Rightarrow> ys @ [x] | None \<Rightarrow> [x])))) = add_mset x (mset (concat (map snd m)))"
proof (induction m)
  case (Cons e m)
  then show ?case by (cases e) (auto simp: jm_get_def jm_wf_def)
qed (simp add: jm_get_def)

lemma group_mset: "mset (concat (map snd (group_by f xs))) = mset xs"
  by (induction xs rule: rev_induct) (simp_all add: group_snoc jm_set_mset group_wf, simp add: group_by_def)

section \<open>What is shown\<close>

definition card_notes :: "IncomingChannelCard \<Rightarrow> NoteDisplay list" where
  "card_notes c = concat (map tg_notes (in_tokenGroups c))"

lemma tokenGroup_notes: "map tg_notes (map tokenGroup es) = map snd es"
  by (simp add: tokenGroup_def)

lemma card_notes_mset: "mset (card_notes (incomingCard e)) = mset (snd e)"
proof -
  have "card_notes (incomingCard e) = concat (map snd (group_by nd_token (newest_first (snd e))))"
    by (simp add: card_notes_def incomingCard_def Let_def comp_def tokenGroup_def)
  then show ?thesis by (simp add: group_mset newest_first_def)
qed

lemma concat_mset_sort: "mset (concat (map h (sort_key r xs))) = mset (concat (map h xs))"
proof -
  have "mset (concat (map h ys)) = \<Sum>\<^sub># (image_mset (\<lambda>y. mset (h y)) (mset ys))" for ys by (induction ys) simp_all
  then show ?thesis by simp
qed

lemma cards_mset: "mset (concat (map card_notes (incomingCards collate ns))) = mset ns"
proof -
  have "mset (concat (map card_notes (map incomingCard es))) = mset (concat (map snd es))" for es
    by (induction es) (simp_all add: card_notes_mset)
  then show ?thesis unfolding incomingCards_def concat_mset_sort by (simp only: group_mset)
qed

lemma sum_fold: "foldl (\<lambda>acc n. acc + n_amount n) (x :: int) ns = x + sum_list (map n_amount ns)"
  by (induction ns arbitrary: x) simp_all

lemma tokenBalances_sum:
  assumes "mapR (tokenBalance found) (zip tcs bs) = Inr balances" "length bs = length tcs"
  shows "list_all2 (\<lambda>t b. \<exists>x. BigInt (BNString (tk_address t)) = Inr x \<and>
     bl_private b = sum_list (map n_amount (notes_of found x)) \<and> bl_noteCount b = length (notes_of found x)) tcs balances"
  using assms
proof (induction tcs arbitrary: bs balances)
  case (Cons tc tcs)
  obtain b bs' where bs: "bs = b # bs'" using Cons.prems(2) by (cases bs) auto
  obtain bal rest where q: "tokenBalance found (tc, b) = Inr bal" "mapR (tokenBalance found) (zip tcs bs') = Inr rest" "balances = bal # rest"
    using Cons.prems(1) by (auto simp: bs bindR_eq_Inr)
  obtain x where x: "BigInt (BNString (tk_address tc)) = Inr x"
    "bl_private bal = sum_list (map n_amount (notes_of found x))" "bl_noteCount bal = length (notes_of found x)"
    using q(1) by (auto simp: tokenBalance_def bindR_eq_Inr Let_def sum_fold simp del: BigInt.simps)
  have "list_all2 (\<lambda>t b. \<exists>x. BigInt (BNString (tk_address t)) = Inr x \<and>
     bl_private b = sum_list (map n_amount (notes_of found x)) \<and> bl_noteCount b = length (notes_of found x)) tcs rest"
    using Cons.IH [OF q(2)] Cons.prems(2) bs by simp
  with x q(3) show ?case by (auto simp del: BigInt.simps)
qed simp

lemma displayNotes_length:
  assumes "displayNotes names found tcs = Inr ns" "mapR (tokenBalance found) (zip tcs bs) = Inr balances" "length bs = length tcs"
  shows "length ns = sum_list (map bl_noteCount balances)"
  using assms
proof (induction tcs arbitrary: ns bs balances)
  case (Cons tc tcs)
  obtain b bs' where bs: "bs = b # bs'" using Cons.prems(3) by (cases bs) auto
  obtain t part parts where p: "BigInt (BNString (tk_address tc)) = Inr t" "mapR (displayNote names tc t) (notes_of found t) = Inr part"
    "displayNotes names found tcs = Inr parts" "ns = part @ parts"
    using Cons.prems(1) by (auto simp: displayNotes_def bindR_eq_Inr simp del: BigInt.simps)
  obtain bal rest where q: "tokenBalance found (tc, b) = Inr bal" "mapR (tokenBalance found) (zip tcs bs') = Inr rest" "balances = bal # rest"
    using Cons.prems(2) by (auto simp: bs bindR_eq_Inr)
  have "bl_noteCount bal = length part" using p(1) q(1) mapR_length [OF p(2)] by (auto simp: tokenBalance_def Let_def simp del: BigInt.simps)
  then show ?case using Cons.IH [OF p(3) q(2)] Cons.prems(3) p(4) q(3) bs by simp
qed (simp add: displayNotes_def)


definition demo_config :: AppConfig where
  "demo_config = \<lparr>cf_rpcUrl = [], cf_indexerUrl = [], cf_poolAddress = ''0x99'', cf_poolClassHash = [], cf_compliancePublicKey = [],
     cf_proofValidityBlocks = ''450'', cf_tokens = [sample_token], cf_chainId = [], cf_provingServiceUrl = None, cf_backendIndexerUrl = None,
     cf_backendProverUrl = None, cf_ohttpKeyConfig = None, cf_gatewayUrl = None, cf_feederGatewayUrl = None, cf_explorerUrl = None,
     cf_ekubo = None, cf_vesu = None, cf_ohttpEnabled = None, cf_paymasterUrl = None, cf_paymasterFeeToken = None, cf_avnuApiKey = None,
     cf_paymasterForwarderAddress = None, cf_feeAmount = None, cf_feeCollectorAddress = None\<rparr>"

definition demo_account :: AccountConfig where
  "demo_account = \<lparr>ac_name = ''Ann'', ac_address = ''0x7'', ac_privateKey = None, ac_viewingKey = Some ''0x5'', ac_admin = False\<rparr>"

definition note_from :: "int \<Rightarrow> int \<Rightarrow> nat \<Rightarrow> Note" where
  "note_from sender amount nonce = \<lparr>n_id = BNBigint amount, n_amount = amount, n_created = None,
     n_witness = \<lparr>w_channelKey = 3, w_nonce = nonce, w_r = 0\<rparr>, n_viewingKey = None, n_sender = BNBigint sender, n_open = None\<rparr>"

definition answers_with :: "Note list \<Rightarrow> private_answers" where
  "answers_with ns = \<lparr>pa_notes = \<lparr>nr_timestamp = BlockNumber 1, nr_notes = [(10, ns)], nr_cursor = \<lparr>nc_blockId = BlockNumber 1, incomingChannels = []\<rparr>\<rparr>,
     pa_channels = \<lparr>cr_timestamp = BlockNumber 1, cr_channels = Some [], cr_total = None\<rparr>, pa_requirement = Ready, pa_balances = [50]\<rparr>"

definition demo_context :: private_context where
  "demo_context = \<lparr>pc_account = demo_account, pc_allAccounts = [demo_account], pc_config = demo_config\<rparr>"


text \<open>
  Refreshing the transparent balances changes nothing else: private balances, note counts, notes and
  cards stay, and a state that has no balances yet gets private balances of zero.
\<close>

lemma refreshBalances_private:
  "map bl_private (ps_tokenBalances (refreshBalances_done tcs bs st)) =
     (if ps_tokenBalances st \<noteq> [] then map bl_private (ps_tokenBalances st) else replicate (min (length tcs) (length bs)) 0)"
  "ps_notes (refreshBalances_done tcs bs st) = ps_notes st"
  "ps_incomingCards (refreshBalances_done tcs bs st) = ps_incomingCards st"
  by (auto simp: refreshBalances_done_def Let_def comp_def case_prod_unfold map_replicate_const)

section \<open>Defects of the hook\<close>

text \<open>
  Two senders whose addresses agree in their first six and last four digits share a card: it carries the
  name of the sender of the newest note and shows the notes of both.
\<close>

theorem senders_merged:
  "\<exists>n1 n2 c. displayNote [(0x123456aaaaaaaa9999, ''Friend'')] sample_token 10 (note_from 0x123456aaaaaaaa9999 20 1) = Inr n1 \<and>
     displayNote [(0x123456aaaaaaaa9999, ''Friend'')] sample_token 10 (note_from 0x123456bbbbbbbb9999 30 0) = Inr n2 \<and>
     nd_senderName n2 = None \<and> incomingCards collate [n1, n2] = [c] \<and> in_senderName c = Some ''Friend'' \<and> card_notes c = [n1, n2]"
proof -
  have chars: "digit_char (Suc 0) = CHR ''1''" "digit_char 1 = CHR ''1''" "digit_char 2 = CHR ''2''" "digit_char 3 = CHR ''3''" "digit_char 4 = CHR ''4''"
    "digit_char 5 = CHR ''5''" "digit_char 6 = CHR ''6''" "digit_char 9 = CHR ''9''" "digit_char 10 = CHR ''a''" "digit_char 11 = CHR ''b''" by code_simp+
  have hex: "int_toString 16 0x123456aaaaaaaa9999 = ''123456aaaaaaaa9999''" "int_toString 16 0x123456bbbbbbbb9999 = ''123456bbbbbbbb9999''"
    by (simp_all add: int_toString_def to_base.simps chars)
  show ?thesis
    by (simp add: displayNote_def note_from_def hex shortenAddress_def Let_def incomingCards_def group_by_def incomingCard_def newest_first_def
        card_notes_def tokenGroup_def jm_get_def)
qed

text \<open>
  An answer that arrives after the account has changed is shown for the new account, and the registry
  that the new account will continue from holds the notes and the cursor of the old one.
\<close>

theorem stale_state_shown:
  assumes "refresh_state collate c a = Inr st"
  shows "let h' = refresh_done collate c (Inr a) (resetPrivate (Some other) h) in
    ph_account h' = Some other \<and> ph_state h' = st \<and> reg_notes (ph_registry h') = nr_notes (pa_notes a) \<and>
    reg_cursor (ph_registry h') = Some (nr_cursor (pa_notes a))"
  using assms by (simp add: refresh_done_def resetPrivate_def refresh_registry_def Let_def split: option.split)

end
