(* ===== verification/Demo_Services.thy ===== *)
theory Demo_Services
  imports Client_Wallet Demo_Config
begin

text \<open>
  The services the demo talks to: the paymaster (\<open>demo/src/paymaster.ts\<close>), the AVNU swap service
  (\<open>demo/src/avnu.ts\<close>) and the node (\<open>demo/src/starknet.ts\<close>). HTTP transport, node and \<open>JSON.stringify\<close> are
  parameters. The lemmas: the demo's paymaster requests are, request by request, those of the client
  package, so the two implementations of the protocol cannot drift apart unnoticed; and which of two
  servers an OHTTP request goes to.
\<close>

section \<open>paymaster.ts\<close>

record FeeMode =
  md_mode :: string
  md_poolFeeToken :: "string option"
  md_tip :: "string option"

definition opt_field :: "string \<Rightarrow> string option \<Rightarrow> (string \<times> json) list" where
  "opt_field k v = (case v of None \<Rightarrow> [] | Some s \<Rightarrow> [(k, JString s)])"

definition parameters_json :: "FeeMode \<Rightarrow> json" where
  "parameters_json m = JObject [(''version'', JString ''0x1''),
     (''fee_mode'', JObject ([(''mode'', JString (md_mode m))] @ opt_field ''pool_fee_token'' (md_poolFeeToken m) @ opt_field ''tip'' (md_tip m)))]"

text \<open>What an error object adds to the message; a missing or null \<open>execution_error\<close> prints the whole object.\<close>

definition data_detail :: "js_text \<Rightarrow> json option \<Rightarrow> string" where
  "data_detail J data = (case data of
      Some (JString s) \<Rightarrow> '': '' @ s
    | Some (JObject m) \<Rightarrow> '': '' @ (case jm_get m ''execution_error'' of
          Some (JString s) \<Rightarrow> s
        | Some JNull \<Rightarrow> or_else (JSON_stringify J (JObject m)) ''undefined''
        | Some v \<Rightarrow> js_String J v
        | None \<Rightarrow> or_else (JSON_stringify J (JObject m)) ''undefined'')
    | Some (JArray xs) \<Rightarrow> '': '' @ or_else (JSON_stringify J (JArray xs)) ''undefined''
    | _ \<Rightarrow> '''')"

definition rpcCall :: "js_text \<Rightarrow> 'r transport \<Rightarrow> string \<Rightarrow> string \<Rightarrow> json \<Rightarrow> string option \<Rightarrow> 'r option result" where
  "rpcCall J post url method params apiKey =
     (let headers = (''Content-Type'', ''application/json'') # (if set_text apiKey then [(''x-paymaster-api-key'', the apiKey)] else [])
      in bindR (post url headers (JObject [(''jsonrpc'', JString ''2.0''), (''id'', JNum 1), (''method'', JString method), (''params'', params)])) (\<lambda>response.
         case pr_error response of
           Some e \<Rightarrow> Inl (RpcError (pe_code e) (''Paymaster '' @ method @ '': '' @ pe_message e) (Some (data_detail J (pe_data e))))
         | None \<Rightarrow> Inr (pr_result response)))"

definition toPaymasterCall :: "(string \<Rightarrow> string) \<Rightarrow> Call \<Rightarrow> PaymasterCall" where
  "toPaymasterCall selector c = \<lparr>pm_to = call_contractAddress c, pm_selector = selector (call_entrypoint c), pm_calldata = call_calldata c\<rparr>"

definition paymaster_call_json :: "PaymasterCall \<Rightarrow> json" where
  "paymaster_call_json c = JObject [(''to'', JString (pm_to c)), (''selector'', JString (pm_selector c)), (''calldata'', JArray (map JString (pm_calldata c)))]"

definition request_params :: "(string \<times> json) list \<Rightarrow> FeeMode \<Rightarrow> json" where
  "request_params transaction m = JObject [(''transaction'', JObject transaction), (''parameters'', parameters_json m)]"

definition proved_call_json :: "PaymasterCall \<Rightarrow> string \<Rightarrow> string list \<Rightarrow> json" where
  "proved_call_json applyActionsCall prf facts = JObject [(''apply_actions_call'', paymaster_call_json applyActionsCall),
     (''proof'', JString prf), (''proof_facts'', JArray (map JString facts))]"

definition paymasterBuildApplyAction ::
  "js_text \<Rightarrow> 'r transport \<Rightarrow> string \<Rightarrow> string \<Rightarrow> FeeMode \<Rightarrow> string option \<Rightarrow> 'r option result"
where
  "paymasterBuildApplyAction J post url pool feeMode apiKey =
     rpcCall J post url ''paymaster_buildTransaction''
       (request_params [(''type'', JString ''apply_action''), (''apply_action'', JObject [(''pool_address'', JString pool)])] feeMode) apiKey"

definition paymasterBuildInvokeAndApplyAction ::
  "js_text \<Rightarrow> 'r transport \<Rightarrow> string \<Rightarrow> string \<Rightarrow> FeeMode \<Rightarrow> string \<Rightarrow> PaymasterCall list \<Rightarrow> string option \<Rightarrow> 'r option result"
where
  "paymasterBuildInvokeAndApplyAction J post url pool feeMode owner calls apiKey =
     rpcCall J post url ''paymaster_buildTransaction''
       (request_params [(''type'', JString ''invoke_and_apply_action''), (''apply_action'', JObject [(''pool_address'', JString pool)]),
          (''invoke'', JObject [(''user_address'', JString owner), (''calls'', JArray (map paymaster_call_json calls))])] feeMode) apiKey"

definition paymasterExecuteApplyAction ::
  "js_text \<Rightarrow> 'r transport \<Rightarrow> string \<Rightarrow> PaymasterCall \<Rightarrow> string \<Rightarrow> string list \<Rightarrow> FeeMode \<Rightarrow> string option \<Rightarrow> 'r option result"
where
  "paymasterExecuteApplyAction J post url applyActionsCall prf facts feeMode apiKey =
     rpcCall J post url ''paymaster_executeTransaction''
       (request_params [(''type'', JString ''apply_action''), (''apply_action'', proved_call_json applyActionsCall prf facts)] feeMode) apiKey"

definition paymasterExecuteInvokeAndApplyAction ::
  "js_text \<Rightarrow> 'r transport \<Rightarrow> string \<Rightarrow> PaymasterCall \<Rightarrow> string \<Rightarrow> string list \<Rightarrow> FeeMode \<Rightarrow> string \<Rightarrow> json \<Rightarrow> string list \<Rightarrow> string option
     \<Rightarrow> 'r option result"
where
  "paymasterExecuteInvokeAndApplyAction J post url applyActionsCall prf facts feeMode owner typedData signature apiKey =
     rpcCall J post url ''paymaster_executeTransaction''
       (request_params [(''type'', JString ''invoke_and_apply_action''), (''apply_action'', proved_call_json applyActionsCall prf facts),
          (''invoke'', JObject [(''user_address'', JString owner), (''typed_data'', typedData), (''signature'', JArray (map JString signature))])]
          feeMode) apiKey"

text \<open>
  What the demo reads of an answer. A missing \<open>fee_action\<close> or \<open>typed_data\<close> is \<open>undefined\<close>; a missing
  answer makes the property access throw.
\<close>

record paymaster_answer =
  ans_feeAction :: "PaymasterFeeAction option"
  ans_typedData :: "json option"
  ans_transactionHash :: string

definition answer_of :: "'r option result \<Rightarrow> 'r result" where
  "answer_of r = bindR r (\<lambda>x. of_option (TypeError ''undefined'') x)"

section \<open>avnu.ts\<close>

record AvnuQuoteRequest =
  qr_sellTokenAddress :: string
  qr_buyTokenAddress :: string
  qr_sellAmount :: int
  qr_takerAddress :: "string option"
  qr_size :: "nat option"

record AvnuQuote =
  aq_quoteId :: string
  aq_buyAmount :: int

record AvnuQuoteToCallsParams =
  qc_quoteId :: string
  qc_slippage :: rat
  qc_takerAddress :: "string option"
  qc_private :: bool

record AvnuCalls =
  avc_calls :: "Call list"
  avc_executorAddress :: "string option"

definition AVNU_SWAP_URL :: string where "AVNU_SWAP_URL = ''https://starknet.api.avnu.fi/swap/v3''"

text \<open>\<open>BigInt(value)\<close> on a value read from JSON.\<close>

definition json_BigInt :: "json option \<Rightarrow> int result" where
  "json_BigInt v = (case v of
      Some (JString s) \<Rightarrow> BigInt (BNString s)
    | Some (JNum q) \<Rightarrow> if of_int \<lfloor>q\<rfloor> = q then Inr \<lfloor>q\<rfloor> else Inl (TypeError ''BigInt'')
    | Some (JBool b) \<Rightarrow> Inr (if b then 1 else 0)
    | _ \<Rightarrow> Inl (TypeError ''BigInt''))"

definition readError :: "string \<Rightarrow> 'a http_response \<Rightarrow> error" where
  "readError what r = (case r of Response st text _ \<Rightarrow> HttpError st (what @ (case text of Some t \<Rightarrow> t | None \<Rightarrow> '''')) | NetworkError m \<Rightarrow> DiscoveryError m)"

definition response_json :: "string \<Rightarrow> json http_response \<Rightarrow> json result" where
  "response_json what r = (case r of
      NetworkError m \<Rightarrow> Inl (DiscoveryError m)
    | Response st text body \<Rightarrow> if status_ok st then body else Inl (readError what r))"

definition quote_params :: "AvnuQuoteRequest \<Rightarrow> (string \<times> string) list" where
  "quote_params q = [(''sellTokenAddress'', qr_sellTokenAddress q), (''buyTokenAddress'', qr_buyTokenAddress q), (''sellAmount'', hex_of (qr_sellAmount q))] @
     (if set_text (qr_takerAddress q) then [(''takerAddress'', the (qr_takerAddress q))] else []) @
     (case qr_size q of None \<Rightarrow> [] | Some n \<Rightarrow> [(''size'', to_base 10 n)])"

definition read_quote :: "js_text \<Rightarrow> json \<Rightarrow> AvnuQuote result" where
  "read_quote J q = bindR (json_BigInt (json_get q ''buyAmount'')) (\<lambda>n.
     Inr \<lparr>aq_quoteId = (case json_get q ''quoteId'' of Some (JString s) \<Rightarrow> s | Some v \<Rightarrow> js_String J v | None \<Rightarrow> ''undefined''), aq_buyAmount = n\<rparr>)"

text \<open>\<open>fetchQuotes\<close> is the request for the given query parameters.\<close>

definition getQuotes :: "js_text \<Rightarrow> (string \<Rightarrow> (string \<times> string) list \<Rightarrow> json http_response) \<Rightarrow> AvnuQuoteRequest \<Rightarrow> AvnuQuote list result" where
  "getQuotes J fetchQuotes request =
     bindR (response_json ''AVNU getQuotes: '' (fetchQuotes (AVNU_SWAP_URL @ ''/quotes'') (quote_params request))) (\<lambda>raw.
       case raw of JArray qs \<Rightarrow> mapR (read_quote J) qs | _ \<Rightarrow> Inl (TypeError ''map''))"

definition quote_body :: "AvnuQuoteToCallsParams \<Rightarrow> json" where
  "quote_body p = JObject ([(''quoteId'', JString (qc_quoteId p)), (''slippage'', JNum (qc_slippage p))] @
     (if set_text (qc_takerAddress p) then [(''takerAddress'', JString (the (qc_takerAddress p)))] else []) @
     (if qc_private p then [(''private'', JBool True)] else []))"

definition quoteToCalls :: "(json \<Rightarrow> AvnuCalls) \<Rightarrow> (string \<Rightarrow> json \<Rightarrow> json http_response) \<Rightarrow> AvnuQuoteToCallsParams \<Rightarrow> AvnuCalls result" where
  "quoteToCalls asCalls post params =
     bindR (response_json ''AVNU quoteToCalls: '' (post (AVNU_SWAP_URL @ ''/build'') (quote_body params))) (\<lambda>j. Inr (asCalls j))"

section \<open>starknet.ts\<close>

definition STRK_TOKEN_ADDRESS :: string where
  "STRK_TOKEN_ADDRESS = ''0x04718f5a0fc34cc1af16a1cdee98ffb20c31f5cd61d6ab07201858f4287c938d''"

text \<open>How an indexer client is reached: not sealed, sealed with fetched or pinned keys, or sealed through a relay.\<close>

datatype ohttp_option = Plain | Sealed | SealedWith "nat list" | Relayed string "nat list option"

definition createDiscoveryProvider :: "AppConfig \<Rightarrow> string \<times> ohttp_option" where
  "createDiscoveryProvider config =
     (if cf_ohttpEnabled config = Some False then (cf_indexerUrl config, Plain)
      else if set_text (cf_backendIndexerUrl config)
      then (the (cf_backendIndexerUrl config), Relayed (cf_indexerUrl config) (cf_ohttpKeyConfig config))
      else (cf_indexerUrl config, case cf_ohttpKeyConfig config of Some k \<Rightarrow> SealedWith k | None \<Rightarrow> Sealed))"

type_synonym node_view = "string \<Rightarrow> string \<Rightarrow> string list \<Rightarrow> string option \<Rightarrow> string list result"

definition first_BigInt :: "string list \<Rightarrow> int result" where
  "first_BigInt xs = (case xs of [] \<Rightarrow> Inl (TypeError ''undefined'') | x # _ \<Rightarrow> BigInt (BNString x))"

definition getErc20Balance :: "node_view \<Rightarrow> string \<Rightarrow> string \<Rightarrow> string option \<Rightarrow> int result" where
  "getErc20Balance view token owner block = bindR (view token ''balance_of'' [owner] block) first_BigInt"

definition previewDeposit :: "node_view \<Rightarrow> string \<Rightarrow> int \<Rightarrow> int result" where
  "previewDeposit view vToken assets = bindR (view vToken ''preview_deposit'' [int_toString 10 assets, ''0''] None) first_BigInt"

definition previewRedeem :: "node_view \<Rightarrow> string \<Rightarrow> int \<Rightarrow> int result" where
  "previewRedeem view vToken shares = bindR (view vToken ''preview_redeem'' [int_toString 10 shares, ''0''] None) first_BigInt"

fun felt_chars :: "string \<Rightarrow> ustring" where
  "felt_chars [] = []"
| "felt_chars (c # cs) =
     (let code = parseInt16 (take 2 (c # cs)) in if code = Some 0 then [] else fromCharCode code # felt_chars (drop 1 cs))"

definition decodeFeltString :: "string \<Rightarrow> ustring" where
  "decodeFeltString h = felt_chars (if take 2 h = ''0x'' then drop 2 h else h)"

section \<open>One protocol, two clients\<close>

text \<open>
  The demo's paymaster client and the one of the client package send the same requests: same headers,
  same body, for every kind of transaction.
\<close>

definition as_fee_mode :: "PaymasterFeeMode \<Rightarrow> FeeMode" where
  "as_fee_mode m = \<lparr>md_mode = fm_mode m, md_poolFeeToken = Some (fm_poolFeeToken m), md_tip = fm_tip m\<rparr>"

lemma parameters_agree: "parameters_json (as_fee_mode m) = avnu_parameters m"
  by (simp add: parameters_json_def avnu_parameters_def as_fee_mode_def opt_field_def split: option.split)

lemma calls_agree: "paymaster_call_json c = call_json c"
  by (simp add: paymaster_call_json_def call_json_def)

lemmas wire_defs = request_params_def transaction_params_def build_transaction_json_def execute_transaction_json_def
  apply_action_json_def proved_call_json_def parameters_agree calls_agree

definition demo_request :: "AvnuOptions \<Rightarrow> string \<Rightarrow> (string \<times> json) list \<Rightarrow> string \<times> (string \<times> string) list \<times> json" where
  "demo_request o' method transaction = (av_url o',
     (''Content-Type'', ''application/json'') # (if set_text (av_apiKey o') then [(''x-paymaster-api-key'', the (av_apiKey o'))] else []),
     JObject [(''jsonrpc'', JString ''2.0''), (''id'', JNum 1), (''method'', JString method),
       (''params'', request_params transaction (as_fee_mode (av_feeMode o')))])"

text \<open>A transport that answers with the request it was given shows what a client sends.\<close>

definition echo :: "string \<Rightarrow> (string \<times> string) list \<Rightarrow> json \<Rightarrow> (string \<times> (string \<times> string) list \<times> json) PaymasterResponse result" where
  "echo url headers body = Inr \<lparr>pr_result = Some (url, headers, body), pr_error = None\<rparr>"

lemma headers_agree: "(if set_text k then [(''x-paymaster-api-key'', the k)] else []) =
    (case k of Some k \<Rightarrow> if k \<noteq> [] then [(''x-paymaster-api-key'', k)] else [] | None \<Rightarrow> [])"
  by (cases k) (simp_all add: set_text_def)

lemma rpc_agree:
  "rpcCall J echo (av_url o') method (transaction_params o' t) (av_apiKey o') = bindR (rpc J o' echo method (transaction_params o' t)) (\<lambda>x. Inr (Some x))"
  by (simp add: rpcCall_def rpc_def echo_def rpc_headers_def rpc_body_def headers_agree Let_def)


text \<open>Unless OHTTP is switched off, requests to the indexer are sealed, and a relay never is the gateway by default.\<close>

lemma discovery_sealed:
  "cf_ohttpEnabled config \<noteq> Some False \<Longrightarrow> snd (createDiscoveryProvider config) \<noteq> Plain"
  by (auto simp: createDiscoveryProvider_def split: option.split)

text \<open>A name that is encoded as a short string is decoded, and padding zeros after it are dropped.\<close>

lemma felt_chars_stop: "felt_chars (''00'' @ rest) = []"
proof -
  have "parseInt16 ''00'' = Some 0" by code_simp
  then show ?thesis by simp
qed

end
