(* ===== verification/Demo_Transactions.thy ===== *)
theory Demo_Transactions
  imports Demo_Services
begin

text \<open>
  The transactions of the demo: \<open>demo/src/hooks/useTransactions.ts\<close> and \<open>useTransactionBuilder.ts\<close>. An
  operation is a function of the events so far; it gives its result, or an error, and the events with
  its own appended, and \<open>None\<close> where it never returns. What account, node, paymaster and prover answer
  may depend on all earlier events. The steps of the timeline only measure time and are left out.

  The theorems: the proving block lies behind the account's last transaction and waiting for it ends
  when the chain advances; whatever is submitted was proved for the requested actions and the fee; and a
  transaction the user submits directly finds the allowances it needs, which is not true of a batch.
\<close>

section \<open>Operations over events\<close>

datatype demo_event =
    Executed Call "(string list \<times> string) option" string     \<comment> \<open>a transaction of the user's account, with its hash\<close>
  | AdminExecuted Call string
  | Awaited string
  | Posted string json                                         \<comment> \<open>a request to the paymaster\<close>
  | PolledBlock
  | Viewed string string
  | Fetched string
  | SignedMessage json
  | Proved ProofInvocation int
  | BalancesChanged

type_synonym 'a act = "demo_event list \<Rightarrow> ('a result \<times> demo_event list) option"

definition liftA :: "'a result \<Rightarrow> 'a act" where
  "liftA r s = Some (r, s)"

definition bindA :: "'a act \<Rightarrow> ('a \<Rightarrow> 'b act) \<Rightarrow> 'b act" where
  "bindA m f s = (case m s of
      None \<Rightarrow> None
    | Some (Inl e, s') \<Rightarrow> Some (Inl e, s')
    | Some (Inr x, s') \<Rightarrow> f x s')"

text \<open>A request whose answer depends on the events before it; it is recorded whatever the answer.\<close>

definition ask :: "demo_event \<Rightarrow> (demo_event list \<Rightarrow> 'a result) \<Rightarrow> 'a act" where
  "ask ev answer s = Some (answer s, s @ [ev])"

record demo_env =
  dv_config :: AppConfig
  dv_pool :: string
  dv_text :: js_text
  dv_selector :: "string \<Rightarrow> string"
  dv_asCalls :: "json \<Rightarrow> AvnuCalls"
  dv_serializeCalls :: "Call list \<Rightarrow> string list"     \<comment> \<open>\<open>transaction.fromCallsToExecuteCalldata_cairo1\<close>\<close>
  dv_hasUser :: bool
  dv_hasAdmin :: bool
  dv_hasTransfers :: bool
  dv_hasProvider :: bool
  dv_activeAddress :: "string option"
  dv_pt :: PrivateTransfers
  dv_transfers :: "demo_event list \<Rightarrow> transfer_env"
  dv_lastTxBlock :: "demo_event list \<Rightarrow> int option"
  dv_execute :: "demo_event list \<Rightarrow> Call \<Rightarrow> (string list \<times> string) option \<Rightarrow> string result"
  dv_adminExecute :: "demo_event list \<Rightarrow> Call \<Rightarrow> string result"
  dv_receipt :: "demo_event list \<Rightarrow> string \<Rightarrow> (bool \<times> int) result"     \<comment> \<open>success and block number\<close>
  dv_blockNumber :: "demo_event list \<Rightarrow> int result"
  dv_post :: "demo_event list \<Rightarrow> paymaster_answer transport"
  dv_view :: "demo_event list \<Rightarrow> node_view"
  dv_fetchQuotes :: "demo_event list \<Rightarrow> string \<Rightarrow> (string \<times> string) list \<Rightarrow> json http_response"
  dv_fetchCalls :: "demo_event list \<Rightarrow> string \<Rightarrow> json \<Rightarrow> json http_response"
  dv_sign :: "demo_event list \<Rightarrow> json \<Rightarrow> string list result"          \<comment> \<open>\<open>signMessage\<close> and \<open>normalizeSignature\<close>\<close>
  dv_balancesChanged :: "demo_event list \<Rightarrow> unit result"

text \<open>\<open>account.execute\<close> throws before anything is sent, or sends and gives the hash.\<close>

definition execA :: "demo_env \<Rightarrow> Call \<Rightarrow> (string list \<times> string) option \<Rightarrow> string act" where
  "execA E c details s = (case dv_execute E s c details of
      Inl e \<Rightarrow> Some (Inl e, s)
    | Inr h \<Rightarrow> Some (Inr h, s @ [Executed c details h]))"

definition adminA :: "demo_env \<Rightarrow> Call \<Rightarrow> string act" where
  "adminA E c s = (case dv_adminExecute E s c of
      Inl e \<Rightarrow> Some (Inl e, s)
    | Inr h \<Rightarrow> Some (Inr h, s @ [AdminExecuted c h]))"

definition waitA :: "demo_env \<Rightarrow> string \<Rightarrow> (bool \<times> int) act" where
  "waitA E h = ask (Awaited h) (\<lambda>s. dv_receipt E s h)"

section \<open>useTransactions.ts: helpers\<close>

definition getFeeMode :: "AppConfig \<Rightarrow> FeeMode" where
  "getFeeMode config = \<lparr>md_mode = ''sponsored_private'', md_poolFeeToken = cf_paymasterFeeToken config, md_tip = Some ''normal''\<rparr>"

definition base64ByteLength :: "string \<Rightarrow> rat" where
  "base64ByteLength b =
     (let padding = (if drop (length b - 2) b = ''=='' then 2 else if drop (length b - 1) b = ''='' then 1 else 0)
      in of_nat (length b * 3) / 4 - padding)"

text \<open>The configured URL; only called where it is set.\<close>

definition paymaster_url :: "demo_env \<Rightarrow> string" where
  "paymaster_url E = or_else (cf_paymasterUrl (dv_config E)) ''''"

definition fetchPaymasterFee :: "demo_env \<Rightarrow> PaymasterFeeAction option act" where
  "fetchPaymasterFee E =
     (if \<not> set_text (cf_paymasterUrl (dv_config E)) then liftA (Inr None)
      else bindA (ask (Posted ''paymaster_buildTransaction'' (JString (dv_pool E))) (\<lambda>s.
             answer_of (paymasterBuildApplyAction (dv_text E) (dv_post E s) (paymaster_url E) (dv_pool E) (getFeeMode (dv_config E))
               (cf_avnuApiKey (dv_config E))))) (\<lambda>a. liftA (Inr (ans_feeAction a))))"

definition approveFor :: "demo_env \<Rightarrow> string \<Rightarrow> int \<Rightarrow> Call" where
  "approveFor E token amount = \<lparr>call_contractAddress = token, call_entrypoint = ''approve'',
     call_calldata = [dv_pool E, int_toString 10 amount, ''0'']\<rparr>"

definition approveA :: "demo_env \<Rightarrow> string \<Rightarrow> int \<Rightarrow> unit act" where
  "approveA E token amount =
     bindA (execA E (approveFor E token amount) None) (\<lambda>h. bindA (waitA E h) (\<lambda>_. liftA (Inr ())))"

definition feeAmount_of :: "demo_env \<Rightarrow> int" where
  "feeAmount_of E = or_else (cf_feeAmount (dv_config E)) 0"

definition ensureFeeApproval :: "demo_env \<Rightarrow> PaymasterFeeAction option \<Rightarrow> bool \<Rightarrow> unit act" where
  "ensureFeeApproval E feeAction alreadyCovered =
     (if feeAction \<noteq> None \<or> alreadyCovered \<or> feeAmount_of E = 0 then liftA (Inr ())
      else approveA E STRK_TOKEN_ADDRESS (feeAmount_of E))"

text \<open>A chain of calls on a builder, up to the first that throws.\<close>

fun chained :: "(TransfersBuilder \<Rightarrow> TransfersBuilder \<times> error option) list \<Rightarrow> TransfersBuilder \<Rightarrow> TransfersBuilder result" where
  "chained [] b = Inr b"
| "chained (c # cs) b = (case c b of (b', Some e) \<Rightarrow> Inl e | (b', None) \<Rightarrow> chained cs b')"

definition withdrawCall :: "string \<Rightarrow> int \<Rightarrow> call" where
  "withdrawCall recipient amount = Withdraws [\<lparr>tw_recipient = Some (BNString recipient), tw_amount = amount\<rparr>]"

definition onToken :: "bignum \<times> call \<Rightarrow> TransfersBuilder \<Rightarrow> TransfersBuilder \<times> error option" where
  "onToken tc b = pb_with (fst tc) (perform (pb_userAddress b) (snd tc)) b"

definition addFeeWithdraw :: "TransfersBuilder \<Rightarrow> PaymasterFeeAction option \<Rightarrow> TransfersBuilder result" where
  "addFeeWithdraw b feeAction = (case feeAction of
      None \<Rightarrow> Inr b
    | Some f \<Rightarrow> bindR (BigInt (BNString (fa_amount f))) (\<lambda>amount.
        chained [onToken (BNString (fa_token f), withdrawCall (fa_recipient f) amount)] b))"

definition PROVING_BLOCK_DEPTH :: int where "PROVING_BLOCK_DEPTH = 9"

partial_function (option) waitBlocks :: "demo_env \<Rightarrow> int \<Rightarrow> int \<Rightarrow> demo_event list \<Rightarrow> (int result \<times> demo_event list) option" where
  "waitBlocks E lastBlock latest s =
     (if lastBlock \<ge> latest - PROVING_BLOCK_DEPTH
      then (case dv_blockNumber E s of
              Inl e \<Rightarrow> Some (Inl e, s @ [PolledBlock])
            | Inr b \<Rightarrow> waitBlocks E lastBlock b (s @ [PolledBlock]))
      else Some (Inr latest, s))"

declare waitBlocks.simps [code]

definition waitForProvingBlock :: "demo_env \<Rightarrow> int option \<Rightarrow> int act" where
  "waitForProvingBlock E lastTxBlockNumber =
     bindA (ask PolledBlock (dv_blockNumber E)) (\<lambda>latest.
     bindA (case lastTxBlockNumber of None \<Rightarrow> liftA (Inr latest) | Some b \<Rightarrow> waitBlocks E b latest) (\<lambda>block.
     liftA (Inr (block - PROVING_BLOCK_DEPTH))))"

record submission =
  sub_txHash :: string
  sub_proofSizeBytes :: "rat option"
  sub_blockNumber :: "int option"

text \<open>\<open>builder.createProofInvocation({ provingBlockId })\<close>, then \<open>transfers.executeWithInvocation\<close>.\<close>

definition builtInvocation :: "transfer_env \<Rightarrow> PrivateTransfers \<Rightarrow> TransfersBuilder \<Rightarrow> int \<Rightarrow> ProofInvocationResult result" where
  "builtInvocation T pt b block =
     (let (acts, opts) = collectActionsAndOptions b (Some (no_partial\<lparr>po_provingBlockId := Some (BlockNumber block)\<rparr>))
      in createProofInvocation T pt acts (asExecuteOptions opts))"

definition proveA :: "demo_env \<Rightarrow> TransfersBuilder \<Rightarrow> int \<Rightarrow> ExecuteResult act" where
  "proveA E b block =
     bindA (\<lambda>s. liftA (builtInvocation (dv_transfers E s) (dv_pt E) b block) s) (\<lambda>pir.
     ask (Proved (pir_invocation pir) block) (\<lambda>s. executeWithInvocation (dv_transfers E s) (dv_pt E) pir (Some (BlockNumber block))))"

definition directA :: "demo_env \<Rightarrow> ExecuteResult \<Rightarrow> string act" where
  "directA E r = execA E (er_call r)
     (if proofFacts (er_proof r) \<noteq> [] then Some (proofFacts (er_proof r), p_data (er_proof r)) else None)"

definition sponsoredA :: "demo_env \<Rightarrow> ExecuteResult \<Rightarrow> string act" where
  "sponsoredA E r =
     (let c = toPaymasterCall (dv_selector E) (er_call r); prf = p_data (er_proof r); facts = proofFacts (er_proof r)
      in bindA (ask (Posted ''paymaster_executeTransaction'' (proved_call_json c prf facts)) (\<lambda>s.
           answer_of (paymasterExecuteApplyAction (dv_text E) (dv_post E s) (paymaster_url E) c prf facts (getFeeMode (dv_config E))
             (cf_avnuApiKey (dv_config E))))) (\<lambda>a. liftA (Inr (ans_transactionHash a))))"

definition settledA :: "demo_env \<Rightarrow> ExecuteResult \<Rightarrow> string \<Rightarrow> submission act" where
  "settledA E r h =
     bindA (waitA E h) (\<lambda>(isSuccess, block).
     if \<not> isSuccess then liftA (Inl (AssertionError ''Transaction reverted''))
     else liftA (Inr \<lparr>sub_txHash = h,
            sub_proofSizeBytes = (if p_data (er_proof r) \<noteq> [] then Some (base64ByteLength (p_data (er_proof r))) else None),
            sub_blockNumber = Some block\<rparr>))"

definition buildProveSubmit :: "demo_env \<Rightarrow> TransfersBuilder \<Rightarrow> PaymasterFeeAction option \<Rightarrow> int option \<Rightarrow> submission act" where
  "buildProveSubmit E builder feeAction lastTxBlockNumber =
     bindA (liftA (addFeeWithdraw builder feeAction)) (\<lambda>b.
     bindA (waitForProvingBlock E lastTxBlockNumber) (\<lambda>block.
     bindA (proveA E b block) (\<lambda>r.
     bindA (if feeAction \<noteq> None then sponsoredA E r else directA E r) (settledA E r))))"

section \<open>useTransactions.ts: the hook's status\<close>

record TransactionStatus =
  ts_pending :: bool
  ts_action :: "string option"
  ts_lastTxHash :: "string option"
  ts_lastError :: "string option"
  ts_proofSizeBytes :: "rat option"

definition status_initial :: TransactionStatus where
  "status_initial = \<lparr>ts_pending = False, ts_action = None, ts_lastTxHash = None, ts_lastError = None, ts_proofSizeBytes = None\<rparr>"

definition execute_begin :: "string \<Rightarrow> TransactionStatus" where
  "execute_begin action = \<lparr>ts_pending = True, ts_action = Some action, ts_lastTxHash = None, ts_lastError = None, ts_proofSizeBytes = None\<rparr>"

definition stepChange :: "string \<Rightarrow> TransactionStatus \<Rightarrow> TransactionStatus" where
  "stepChange label st = (if ts_pending st then st\<lparr>ts_action := Some label\<rparr> else st)"

text \<open>The status and the last transaction block after the operation has ended.\<close>

definition execute_end ::
  "(error \<Rightarrow> string) \<Rightarrow> string \<Rightarrow> submission result \<Rightarrow> int option \<Rightarrow> TransactionStatus \<times> int option"
where
  "execute_end message action r lastBlock = (case r of
      Inr x \<Rightarrow> (\<lparr>ts_pending = False, ts_action = Some action, ts_lastTxHash = Some (sub_txHash x), ts_lastError = None,
                 ts_proofSizeBytes = sub_proofSizeBytes x\<rparr>,
               case sub_blockNumber x of None \<Rightarrow> lastBlock | Some n \<Rightarrow> updateLastTxBlockNumber n lastBlock)
    | Inl e \<Rightarrow> (\<lparr>ts_pending = False, ts_action = Some action, ts_lastTxHash = None,
                 ts_lastError = Some (action @ '': '' @ message e), ts_proofSizeBytes = None\<rparr>, lastBlock))"

section \<open>useTransactions.ts: the operations\<close>

definition scaleAmount :: "demo_env \<Rightarrow> string \<Rightarrow> string \<Rightarrow> int result" where
  "scaleAmount E token humanAmount =
     (let decimalsByToken = jm_of_entries (map (\<lambda>t. (tk_address t, tk_decimals t)) (cf_tokens (dv_config E)))
      in toRawAmount humanAmount (or_else (jm_get decimalsByToken token) 0))"

definition notReady :: error where "notReady = AssertionError ''Not ready''"

definition readyA :: "demo_env \<Rightarrow> string act" where
  "readyA E = liftA (if dv_hasUser E \<and> dv_hasTransfers E \<and> dv_hasProvider E \<and> set_text (dv_activeAddress E)
     then Inr (the (dv_activeAddress E)) else Inl notReady)"

definition buildWith :: "demo_env \<Rightarrow> PartialOptions \<Rightarrow> TransfersBuilder" where
  "buildWith E options = new_TransfersBuilder (BNBigint (pt_user (dv_pt E))) (Some options)"

definition refreshing :: PartialOptions where
  "refreshing = no_partial\<lparr>po_discoverNotes := Some Refresh, po_discoverChannels := Some Refresh\<rparr>"

text \<open>The end all operations share: the last block is read, the builder is filled, proved and submitted.\<close>

definition transactA ::
  "demo_env \<Rightarrow> PaymasterFeeAction option \<Rightarrow> PartialOptions \<Rightarrow> (TransfersBuilder \<Rightarrow> TransfersBuilder \<times> error option) list \<Rightarrow> submission act"
where
  "transactA E feeAction options steps s =
     bindA (liftA (chained steps (buildWith E options))) (\<lambda>b. buildProveSubmit E b feeAction (dv_lastTxBlock E s)) s"

definition registerA :: "demo_env \<Rightarrow> submission act" where
  "registerA E =
     (if \<not> (dv_hasUser E \<and> dv_hasTransfers E \<and> dv_hasProvider E) then liftA (Inl notReady)
      else bindA (ensureFeeApproval E None False) (\<lambda>_. transactA E None no_partial [pb_register]))"

definition mintA :: "demo_env \<Rightarrow> string \<Rightarrow> string \<Rightarrow> submission act" where
  "mintA E token amount =
     (if \<not> (dv_hasAdmin E \<and> set_text (dv_activeAddress E) \<and> dv_hasProvider E) then liftA (Inl notReady)
      else bindA (liftA (scaleAmount E token amount)) (\<lambda>rawAmount.
        bindA (adminA E \<lparr>call_contractAddress = token,
          call_entrypoint = or_else (Option.bind (find (\<lambda>t. tk_address t = token) (cf_tokens (dv_config E))) tk_mintEntrypoint) ''permissionedMint'',
          call_calldata = [the (dv_activeAddress E), int_toString 10 rawAmount, ''0'']\<rparr>) (\<lambda>h.
        bindA (waitA E h) (\<lambda>_.
        bindA (ask BalancesChanged (dv_balancesChanged E)) (\<lambda>_.
        liftA (Inr \<lparr>sub_txHash = h, sub_proofSizeBytes = None, sub_blockNumber = None\<rparr>))))))"

definition depositA :: "demo_env \<Rightarrow> string \<Rightarrow> string \<Rightarrow> submission act" where
  "depositA E token amount =
     bindA (readyA E) (\<lambda>active.
     bindA (liftA (scaleAmount E token amount)) (\<lambda>rawAmount.
     bindA (fetchPaymasterFee E) (\<lambda>feeAction.
     bindA (liftA (if feeAction \<noteq> None then Inr False
            else bindR (BigInt (BNString token)) (\<lambda>t. bindR (BigInt (BNString STRK_TOKEN_ADDRESS)) (\<lambda>strk. Inr (t = strk))))) (\<lambda>strkDeposit.
     bindA (approveA E token (rawAmount + (if strkDeposit then feeAmount_of E else 0))) (\<lambda>_.
     bindA (ensureFeeApproval E feeAction strkDeposit) (\<lambda>_.
     transactA E feeAction (refreshing\<lparr>po_autoRegister := Some True, po_autoSetup := Some True, po_autoSelectNotes := Some SelectNaive\<rparr>)
       [pb_surplusTo (BNString active) None,
        onToken (BNString token, Deposits [\<lparr>td_recipient = Some (BNString active), td_amount = rawAmount\<rparr>])]))))))"

text \<open>The beginning of the other operations: readiness, the amount, the fee and its approval.\<close>

definition preparedA :: "demo_env \<Rightarrow> string \<Rightarrow> string \<Rightarrow> (string \<Rightarrow> int \<Rightarrow> PaymasterFeeAction option \<Rightarrow> submission act) \<Rightarrow> submission act" where
  "preparedA E token amount go =
     bindA (readyA E) (\<lambda>active.
     bindA (liftA (scaleAmount E token amount)) (\<lambda>rawAmount.
     bindA (fetchPaymasterFee E) (\<lambda>feeAction.
     bindA (ensureFeeApproval E feeAction False) (\<lambda>_.
     go active rawAmount feeAction))))"

definition withdrawA :: "demo_env \<Rightarrow> string \<Rightarrow> string \<Rightarrow> submission act" where
  "withdrawA E token amount = preparedA E token amount (\<lambda>active rawAmount feeAction.
     transactA E feeAction (refreshing\<lparr>po_autoSelectNotes := Some SelectNaive\<rparr>)
       [pb_surplusTo (BNString active) None, onToken (BNString token, withdrawCall active rawAmount)])"

definition transferA :: "demo_env \<Rightarrow> string \<Rightarrow> string \<Rightarrow> string \<Rightarrow> submission act" where
  "transferA E token recipient amount = preparedA E token amount (\<lambda>active rawAmount feeAction.
     transactA E feeAction (refreshing\<lparr>po_autoSetup := Some True, po_autoSelectNotes := Some SelectNaive\<rparr>)
       [pb_surplusTo (BNString active) None,
        onToken (BNString token, Transfers [\<lparr>tt_recipient = BNString recipient, tt_amount = Amt rawAmount\<rparr>])])"

text \<open>
  The shape of a swap: the tokens go to an executor that fills an open note of the other token in the
  same transaction.
\<close>

definition exchange_steps ::
  "string \<Rightarrow> string \<Rightarrow> string \<Rightarrow> string \<Rightarrow> int \<Rightarrow> InvokeAction \<Rightarrow> (TransfersBuilder \<Rightarrow> TransfersBuilder \<times> error option) list"
where
  "exchange_steps active fromToken toToken executor amount invoke =
     [pb_surplusTo (BNString active) None,
      onToken (BNString fromToken, withdrawCall executor amount),
      onToken (BNString fromToken, Surplus (BNString active) (Some False)),
      onToken (BNString toToken, Transfers [\<lparr>tt_recipient = BNString active, tt_amount = Open\<rparr>]),
      pb_setInvoke invoke]"

definition exchange_options :: PartialOptions where
  "exchange_options = refreshing\<lparr>po_autoSetup := Some True, po_autoSelectNotes := Some SelectAll\<rparr>"

definition ekuboCall :: "EkuboConfig \<Rightarrow> EkuboPool \<Rightarrow> string \<Rightarrow> int \<Rightarrow> int \<Rightarrow> InvokeAction" where
  "ekuboCall ekubo pool fromToken rawAmount minReceivedRaw args = (case openNotes args of
      [] \<Rightarrow> Inl (AssertionError ''Expected one open note for swap invocation'')
    | n # _ \<Rightarrow> Inr \<lparr>cd_contractAddress = BNString (ek_executorAddress ekubo), cd_calldata = Some (map RawNum
        [BNString (ek_routerAddress ekubo), BNString fromToken, BNBigint rawAmount, BNBigint 0, BNString (ek_token0 pool), BNString (ek_token1 pool),
         BNString (ek_fee pool), BNString (ek_tickSpacing pool), BNString (ek_extension pool),
         BNBigint (minReceivedRaw mod 2 ^ 128), BNBigint (minReceivedRaw div 2 ^ 128), BNString (ek_skipAhead pool), BNBigint (io_noteId n)])\<rparr>)"

definition swapA :: "demo_env \<Rightarrow> string \<Rightarrow> string \<Rightarrow> string \<Rightarrow> int \<Rightarrow> submission act" where
  "swapA E fromToken toToken amount minReceivedRaw =
     bindA (readyA E) (\<lambda>active.
     case cf_ekubo (dv_config E) of
       None \<Rightarrow> liftA (Inl (ConfigError ''Ekubo config not set''))
     | Some ekubo \<Rightarrow>
         bindA (liftA (scaleAmount E fromToken amount)) (\<lambda>rawAmount.
         bindA (liftA (findEkuboPool (Some ekubo) fromToken toToken)) (\<lambda>found.
         case found of
           None \<Rightarrow> liftA (Inl (ConfigError ''No Ekubo pool configured for this pair''))
         | Some pool \<Rightarrow>
             bindA (fetchPaymasterFee E) (\<lambda>feeAction.
             bindA (ensureFeeApproval E feeAction False) (\<lambda>_.
             transactA E feeAction exchange_options
               (exchange_steps active fromToken toToken (ek_executorAddress ekubo) rawAmount (ekuboCall ekubo pool fromToken rawAmount minReceivedRaw)))))))"

definition avnuCall :: "demo_env \<Rightarrow> string \<Rightarrow> string \<Rightarrow> Call list \<Rightarrow> InvokeAction" where
  "avnuCall E executor toToken innerCalls args = (case openNotes args of
      [] \<Rightarrow> Inl (AssertionError ''Expected one open note for AVNU swap invocation'')
    | n # _ \<Rightarrow> Inr \<lparr>cd_contractAddress = BNString executor, cd_calldata = Some (map RawNum
        (BNString toToken # map BNString (dv_serializeCalls E innerCalls) @ [BNBigint (io_noteId n)]))\<rparr>)"

definition avnuSwapA :: "demo_env \<Rightarrow> string \<Rightarrow> string \<Rightarrow> string \<Rightarrow> rat \<Rightarrow> submission act" where
  "avnuSwapA E fromToken toToken amount slippageBps =
     bindA (readyA E) (\<lambda>active.
     bindA (liftA (scaleAmount E fromToken amount)) (\<lambda>rawAmount.
     bindA (fetchPaymasterFee E) (\<lambda>feeAction.
     if feeAction = None then liftA (Inl (ConfigError ''AVNU private swap requires the paymaster''))
     else
       bindA (ask (Fetched ''quotes'') (\<lambda>s. getQuotes (dv_text E) (dv_fetchQuotes E s)
         \<lparr>qr_sellTokenAddress = fromToken, qr_buyTokenAddress = toToken, qr_sellAmount = rawAmount, qr_takerAddress = Some active, qr_size = Some 1\<rparr>)) (\<lambda>quotes.
       case quotes of
         [] \<Rightarrow> liftA (Inl (DiscoveryError ''AVNU: no quote for this pair''))
       | quote # _ \<Rightarrow>
           bindA (ask (Fetched ''build'') (\<lambda>s. quoteToCalls (dv_asCalls E) (dv_fetchCalls E s)
             \<lparr>qc_quoteId = aq_quoteId quote, qc_slippage = slippageBps / 10000, qc_takerAddress = None, qc_private = True\<rparr>)) (\<lambda>calls.
           if \<not> set_text (avc_executorAddress calls) then liftA (Inl (DiscoveryError ''AVNU: missing executorAddress''))
           else transactA E feeAction exchange_options
             (exchange_steps active fromToken toToken (the (avc_executorAddress calls)) rawAmount
                (avnuCall E (the (avc_executorAddress calls)) toToken (avc_calls calls))))))))"

definition vesuCall :: "string \<Rightarrow> int \<Rightarrow> string \<Rightarrow> string \<Rightarrow> int \<Rightarrow> InvokeAction" where
  "vesuCall anonymizer operation inToken outToken assets args = (case openNotes args of
      [] \<Rightarrow> Inl (TypeError ''undefined'')
    | n # _ \<Rightarrow> Inr \<lparr>cd_contractAddress = BNString anonymizer, cd_calldata = Some (map RawNum
        [BNBigint operation, BNString inToken, BNString outToken, BNBigint assets, BNBigint 0, BNBigint (io_noteId n)])\<rparr>)"

definition vesuSupplyA :: "demo_env \<Rightarrow> string \<Rightarrow> string \<Rightarrow> string \<Rightarrow> submission act" where
  "vesuSupplyA E token vTokenAddress amount =
     bindA (readyA E) (\<lambda>active.
     case cf_vesu (dv_config E) of
       None \<Rightarrow> liftA (Inl (ConfigError ''Vesu config not set''))
     | Some vesu \<Rightarrow> preparedA E token amount (\<lambda>_ rawAmount feeAction.
         transactA E feeAction exchange_options
           (exchange_steps active token vTokenAddress (ve_anonymizerAddress vesu) rawAmount
              (vesuCall (ve_anonymizerAddress vesu) 0 token vTokenAddress rawAmount))))"

definition vesuWithdrawA :: "demo_env \<Rightarrow> string \<Rightarrow> string \<Rightarrow> string \<Rightarrow> submission act" where
  "vesuWithdrawA E token vTokenAddress amount =
     bindA (readyA E) (\<lambda>active.
     case cf_vesu (dv_config E) of
       None \<Rightarrow> liftA (Inl (ConfigError ''Vesu config not set''))
     | Some vesu \<Rightarrow>
         bindA (liftA (scaleAmount E vTokenAddress amount)) (\<lambda>rawShares.
         bindA (ask (Viewed vTokenAddress ''preview_redeem'') (\<lambda>s. previewRedeem (dv_view E s) vTokenAddress rawShares)) (\<lambda>rawAssets.
         bindA (fetchPaymasterFee E) (\<lambda>feeAction.
         bindA (ensureFeeApproval E feeAction False) (\<lambda>_.
         transactA E feeAction exchange_options
           (exchange_steps active vTokenAddress token (ve_anonymizerAddress vesu) rawShares
              (vesuCall (ve_anonymizerAddress vesu) 1 vTokenAddress token rawAssets)))))))"

section \<open>useTransactionBuilder.ts\<close>

datatype OperationType = OpDeposit | OpTransfer | OpWithdraw | OpSurplus

record BuilderOperation =
  bo_type :: OperationType
  bo_amount :: string
  bo_token :: "string option"
  bo_recipient :: "string option"
  bo_withdrawSurplus :: "bool option"

text \<open>\<open>depositsByToken\<close>: the total per spelling of a token.\<close>

definition addDeposit :: "demo_env \<Rightarrow> (string, int) jsmap \<Rightarrow> BuilderOperation \<Rightarrow> (string, int) jsmap result" where
  "addDeposit E m op =
     (if bo_type op = OpDeposit \<and> set_text (bo_token op)
      then let t = the (bo_token op) in bindR (scaleAmount E t (bo_amount op)) (\<lambda>n. Inr (jm_set m t (or_else (jm_get m t) 0 + n)))
      else Inr m)"

definition depositsByToken :: "demo_env \<Rightarrow> BuilderOperation list \<Rightarrow> (string, int) jsmap result" where
  "depositsByToken E ops = foldR (addDeposit E) [] ops"

definition groupOperation :: "(string, BuilderOperation list) jsmap \<Rightarrow> BuilderOperation \<Rightarrow> (string, BuilderOperation list) jsmap" where
  "groupOperation m op =
     (if bo_type op = OpSurplus \<or> \<not> set_text (bo_token op) then m
      else let t = the (bo_token op) in jm_set m t (or_else (jm_get m t) [] @ [op]))"

definition operationsByToken :: "BuilderOperation list \<Rightarrow> (string, BuilderOperation list) jsmap" where
  "operationsByToken ops = foldl groupOperation [] ops"

definition nonempty :: "string option \<Rightarrow> string option" where
  "nonempty s = (if set_text s then s else None)"

text \<open>The call an operation makes on its token builder.\<close>

definition operationCall :: "demo_env \<Rightarrow> string \<Rightarrow> string \<Rightarrow> BuilderOperation \<Rightarrow> call result" where
  "operationCall E active token op =
     bindR (scaleAmount E token (bo_amount op)) (\<lambda>rawAmount.
     case bo_type op of
       OpDeposit \<Rightarrow> Inr (Deposits [\<lparr>td_recipient = map_option BNString (nonempty (bo_recipient op)), td_amount = rawAmount\<rparr>])
     | OpTransfer \<Rightarrow> (case bo_recipient op of
           None \<Rightarrow> Inl (TypeError ''undefined'')
         | Some r \<Rightarrow> Inr (Transfers [\<lparr>tt_recipient = BNString r, tt_amount = Amt rawAmount\<rparr>]))
     | OpWithdraw \<Rightarrow> Inr (withdrawCall (or_else (nonempty (bo_recipient op)) active) rawAmount)
     | OpSurplus \<Rightarrow> Inr (Inputs []))"

definition tokenOperations ::
  "demo_env \<Rightarrow> string \<Rightarrow> string \<times> BuilderOperation list \<Rightarrow> TransfersBuilder \<Rightarrow> TransfersBuilder \<times> error option"
where
  "tokenOperations E active e b = pb_with (BNString (fst e)) (run_each (\<lambda>op tb.
     case operationCall E active (fst e) op of Inl err \<Rightarrow> (tb, Some err) | Inr c \<Rightarrow> perform (pb_userAddress b) c tb) (snd e)) b"

fun approveAll :: "demo_env \<Rightarrow> (string \<times> int) list \<Rightarrow> unit act" where
  "approveAll E [] = liftA (Inr ())"
| "approveAll E ((t, n) # ds) = bindA (approveA E t n) (\<lambda>_. approveAll E ds)"

definition batchApproval :: "demo_env \<Rightarrow> string \<times> int \<Rightarrow> PaymasterCall" where
  "batchApproval E d = \<lparr>pm_to = fst d, pm_selector = dv_selector E ''approve'', pm_calldata = [dv_pool E, hex_of (snd d), ''0x0'']\<rparr>"

text \<open>The fee and, where there are deposits, the signed approvals; without a paymaster the approvals are sent one by one.\<close>

definition batchFee :: "demo_env \<Rightarrow> string \<Rightarrow> (string \<times> int) list \<Rightarrow> (PaymasterFeeAction option \<times> (json \<times> string list) option) act" where
  "batchFee E active deposits =
     (if set_text (cf_paymasterUrl (dv_config E)) then
        (if deposits \<noteq> [] then
           bindA (ask (Posted ''paymaster_buildTransaction'' (JArray (map (\<lambda>d. paymaster_call_json (batchApproval E d)) deposits))) (\<lambda>s.
             answer_of (paymasterBuildInvokeAndApplyAction (dv_text E) (dv_post E s) (paymaster_url E) (dv_pool E) (getFeeMode (dv_config E)) active
               (map (batchApproval E) deposits) (cf_avnuApiKey (dv_config E))))) (\<lambda>a.
           case ans_typedData a of
             None \<Rightarrow> liftA (Inl (TypeError ''undefined''))
           | Some typedData \<Rightarrow> bindA (ask (SignedMessage typedData) (\<lambda>s. dv_sign E s typedData)) (\<lambda>signature.
               liftA (Inr (ans_feeAction a, Some (typedData, signature)))))
         else bindA (fetchPaymasterFee E) (\<lambda>f. liftA (Inr (f, None))))
      else bindA (approveAll E deposits) (\<lambda>_. liftA (Inr (None, None))))"

definition batchSubmit :: "demo_env \<Rightarrow> string \<Rightarrow> (json \<times> string list) option \<Rightarrow> ExecuteResult \<Rightarrow> string act" where
  "batchSubmit E active signed r =
     (if set_text (cf_paymasterUrl (dv_config E)) then
        (case signed of
           Some (typedData, signature) \<Rightarrow>
             (let c = toPaymasterCall (dv_selector E) (er_call r); prf = p_data (er_proof r); facts = proofFacts (er_proof r)
              in bindA (ask (Posted ''paymaster_executeTransaction'' (proved_call_json c prf facts)) (\<lambda>s.
                   answer_of (paymasterExecuteInvokeAndApplyAction (dv_text E) (dv_post E s) (paymaster_url E) c prf facts (getFeeMode (dv_config E)) active
                     typedData signature (cf_avnuApiKey (dv_config E))))) (\<lambda>a. liftA (Inr (ans_transactionHash a))))
         | None \<Rightarrow> sponsoredA E r)
      else directA E r)"

definition executeBatch :: "demo_env \<Rightarrow> BuilderOperation list \<Rightarrow> submission act" where
  "executeBatch E ops =
     bindA (readyA E) (\<lambda>active.
     bindA (liftA (depositsByToken E ops)) (\<lambda>deposits.
     bindA (batchFee E active deposits) (\<lambda>(feeAction, signed).
     let surplus = find (\<lambda>op. bo_type op = OpSurplus) ops in
     bindA (liftA (chained (pb_surplusTo (BNString (or_else (Option.bind surplus bo_recipient) active)) (Option.bind surplus bo_withdrawSurplus)
          # map (tokenOperations E active) (operationsByToken ops))
        (buildWith E (refreshing\<lparr>po_autoRegister := Some True, po_autoSetup := Some True, po_autoSelectNotes := Some SelectNaive\<rparr>)))) (\<lambda>b0.
     bindA (liftA (addFeeWithdraw b0 feeAction)) (\<lambda>b.
     bindA (\<lambda>s. waitForProvingBlock E (dv_lastTxBlock E s) s) (\<lambda>block.
     bindA (proveA E b block) (\<lambda>r.
     bindA (batchSubmit E active signed r) (settledA E r))))))))"

section \<open>Reasoning about operations\<close>

lemma bindA_Inr:
  "bindA m f s = Some (Inr y, s') \<longleftrightarrow> (\<exists>x s1. m s = Some (Inr x, s1) \<and> f x s1 = Some (Inr y, s'))"
  by (auto simp: bindA_def split: option.splits sum.splits)

lemma liftA_Inr: "liftA r s = Some (Inr x, s') \<longleftrightarrow> r = Inr x \<and> s' = s"
  by (auto simp: liftA_def)

lemma ask_Inr: "ask ev answer s = Some (Inr x, s') \<longleftrightarrow> answer s = Inr x \<and> s' = s @ [ev]"
  by (auto simp: ask_def)

lemmas act_success = bindA_Inr liftA_Inr ask_Inr

text \<open>What holds of the events whatever an operation ends with, and what holds after it has succeeded.\<close>

definition keeps ::
  "(demo_event list \<Rightarrow> bool) \<Rightarrow> (demo_event list \<Rightarrow> bool) \<Rightarrow> 'a act \<Rightarrow> ('a \<Rightarrow> demo_event list \<Rightarrow> bool) \<Rightarrow> bool"
where
  "keeps I P m Q \<longleftrightarrow> (\<forall>s r s'. I s \<and> P s \<and> m s = Some (r, s') \<longrightarrow> I s' \<and> (\<forall>x. r = Inr x \<longrightarrow> Q x s'))"

lemma keeps_bind: "keeps I P m Q \<Longrightarrow> (\<And>x. keeps I (Q x) (f x) R) \<Longrightarrow> keeps I P (bindA m f) R"
proof -
  assume m: "keeps I P m Q" and f: "\<And>x. keeps I (Q x) (f x) R"
  have "I s' \<and> (\<forall>x. r = Inr x \<longrightarrow> R x s')" if s: "I s" "P s" "bindA m f s = Some (r, s')" for s r s'
  proof -
    obtain q s1 where q: "m s = Some (q, s1)" using s(3) by (auto simp: bindA_def split: option.splits)
    show ?thesis
    proof (cases q)
      case (Inl e)
      with q s m show ?thesis by (auto simp: bindA_def keeps_def)
    next
      case (Inr x)
      with q s m have "I s1" "Q x s1" by (auto simp: keeps_def)
      moreover have "f x s1 = Some (r, s')" using q s(3) Inr by (simp add: bindA_def)
      ultimately show ?thesis using f [of x] unfolding keeps_def by blast
    qed
  qed
  then show ?thesis unfolding keeps_def by blast
qed

lemma keeps_lift: "(\<And>x s. r = Inr x \<Longrightarrow> P s \<Longrightarrow> Q x s) \<Longrightarrow> keeps I P (liftA r) Q"
  by (auto simp: keeps_def liftA_def)

lemma keeps_weaken: "keeps I P' m Q' \<Longrightarrow> (\<And>s. P s \<Longrightarrow> P' s) \<Longrightarrow> (\<And>x s. Q' x s \<Longrightarrow> Q x s) \<Longrightarrow> keeps I P m Q"
  by (fastforce simp: keeps_def)

lemma keeps_at: "(\<And>s0. keeps I (\<lambda>s. s = s0 \<and> P s) (m s0) Q) \<Longrightarrow> keeps I P (\<lambda>s. m s s) Q"
  by (auto simp: keeps_def)

text \<open>Events other than transactions of the user's account.\<close>

definition quiet :: "demo_event \<Rightarrow> bool" where
  "quiet ev = (case ev of Executed _ _ _ \<Rightarrow> False | _ \<Rightarrow> True)"

definition stable :: "(demo_event list \<Rightarrow> bool) \<Rightarrow> bool" where
  "stable P \<longleftrightarrow> (\<forall>s ev. quiet ev \<longrightarrow> P s \<longrightarrow> P (s @ [ev]))"

definition polled :: "int \<Rightarrow> demo_event list \<Rightarrow> int result \<times> demo_event list \<Rightarrow> bool" where
  "polled lastBlock s y \<longleftrightarrow> (\<exists>k. snd y = s @ replicate k PolledBlock) \<and> (\<forall>x. fst y = Inr x \<longrightarrow> lastBlock < x - PROVING_BLOCK_DEPTH)"

lemma waitBlocks_polls: "waitBlocks E lastBlock latest s = Some y \<Longrightarrow> polled lastBlock s y"
proof (rule waitBlocks.raw_induct [rotated, where P = "\<lambda>E lastBlock latest s y. polled lastBlock s y"])
  fix wb E lastBlock latest s y
  assume IH: "\<And>E lastBlock latest s y. wb E lastBlock latest s = Some y \<Longrightarrow> polled lastBlock s y"
    and body: "(if latest - PROVING_BLOCK_DEPTH \<le> lastBlock
      then (case dv_blockNumber E s of Inl e \<Rightarrow> Some (Inl e, s @ [PolledBlock]) | Inr b \<Rightarrow> wb E lastBlock b (s @ [PolledBlock]))
      else Some (Inr latest, s)) = Some y"
  show "polled lastBlock s y"
  proof (cases "latest - PROVING_BLOCK_DEPTH \<le> lastBlock")
    case True
    show ?thesis
    proof (cases "dv_blockNumber E s")
      case (Inl e)
      with body True have "y = (Inl e, s @ [PolledBlock])" by simp
      then show ?thesis by (auto simp: polled_def intro: exI [of _ "1::nat"])
    next
      case (Inr b)
      with body True have "wb E lastBlock b (s @ [PolledBlock]) = Some y" by simp
      from IH [OF this] obtain k where "snd y = (s @ [PolledBlock]) @ replicate k PolledBlock"
        "\<forall>x. fst y = Inr x \<longrightarrow> lastBlock < x - PROVING_BLOCK_DEPTH" by (auto simp: polled_def)
      then show ?thesis unfolding polled_def by (auto intro: exI [of _ "Suc k"])
    qed
  next
    case False
    with body show ?thesis by (auto simp: polled_def intro: exI [of _ "0::nat"])
  qed
qed

lemma stable_polls: "stable P \<Longrightarrow> P s \<Longrightarrow> P (s @ replicate k PolledBlock)"
proof (induction k)
  case (Suc k)
  have "s @ replicate (Suc k) PolledBlock = (s @ replicate k PolledBlock) @ [PolledBlock]" by (simp add: replicate_append_same)
  moreover have "quiet PolledBlock" by (simp add: quiet_def)
  ultimately show ?case using Suc unfolding stable_def by metis
qed simp

text \<open>
  An invariant of the events that quiet events do not break; what the shared parts of the operations
  keep of it.
\<close>

locale event_invariant =
  fixes I :: "demo_event list \<Rightarrow> bool"
  assumes I_stable: "stable I"
begin

lemma ask_keeps: "quiet ev \<Longrightarrow> stable P \<Longrightarrow> keeps I P (ask ev answer) (\<lambda>_. P)"
  using I_stable by (auto simp: keeps_def ask_def stable_def)

lemma wait_keeps: "stable P \<Longrightarrow> keeps I P (waitA E h) (\<lambda>_. P)"
  by (simp add: waitA_def ask_keeps quiet_def)

lemma fee_keeps: "stable P \<Longrightarrow> keeps I P (fetchPaymasterFee E) (\<lambda>f s. P s \<and> (\<not> set_text (cf_paymasterUrl (dv_config E)) \<longrightarrow> f = None))"
  unfolding fetchPaymasterFee_def
  by (auto intro!: keeps_lift keeps_bind [where Q = "\<lambda>_. P"] ask_keeps simp: quiet_def)

lemma polls_keep: "stable P \<Longrightarrow> keeps I P (waitBlocks E b latest) (\<lambda>_. P)"
  unfolding keeps_def using I_stable by (auto simp: polled_def dest!: waitBlocks_polls intro: stable_polls)

lemma proving_block_keeps: "stable P \<Longrightarrow> keeps I P (waitForProvingBlock E b) (\<lambda>_. P)"
  unfolding waitForProvingBlock_def
  by (cases b) (auto intro!: keeps_lift polls_keep ask_keeps keeps_bind [where Q = "\<lambda>_. P"] simp: quiet_def)

lemma prove_keeps: "stable P \<Longrightarrow> keeps I P (proveA E b block) (\<lambda>r s. P s \<and> call_entrypoint (er_call r) = ''apply_actions'')"
proof -
  assume P: "stable P"
  have entry: "executeWithInvocation T pt pir blk = Inr r \<Longrightarrow> call_entrypoint (er_call r) = ''apply_actions''" for T pt pir blk r
    by (auto simp: executeWithInvocation_def resultOfProof_def buildExecuteResult_def bindR_eq_Inr)
  have "keeps I P (\<lambda>s. liftA (builtInvocation (dv_transfers E s) (dv_pt E) b block) s) (\<lambda>_. P)"
    by (auto simp: keeps_def liftA_def)
  moreover have "keeps I P (ask (Proved (pir_invocation pir) block) (\<lambda>s. executeWithInvocation (dv_transfers E s) (dv_pt E) pir (Some (BlockNumber block))))
      (\<lambda>r s. P s \<and> call_entrypoint (er_call r) = ''apply_actions'')" for pir
    using P I_stable entry by (auto simp: keeps_def ask_def stable_def quiet_def)
  ultimately show ?thesis unfolding proveA_def by (rule keeps_bind)
qed

lemma settled_keeps: "stable P \<Longrightarrow> keeps I P (settledA E r h) (\<lambda>_. P)"
  unfolding settledA_def by (auto intro!: keeps_bind [where Q = "\<lambda>_. P"] wait_keeps keeps_lift simp: case_prod_unfold split: if_splits)

lemma sponsored_keeps: "stable P \<Longrightarrow> keeps I P (sponsoredA E r) (\<lambda>_. P)"
  unfolding sponsoredA_def Let_def by (auto intro!: keeps_bind [where Q = "\<lambda>_. P"] ask_keeps keeps_lift simp: quiet_def)

lemma exec_keeps:
  assumes "\<And>s h. I s \<Longrightarrow> P s \<Longrightarrow> I (s @ [Executed c details h])" "\<And>s h. I s \<Longrightarrow> P s \<Longrightarrow> Q (s @ [Executed c details h])"
  shows "keeps I P (execA E c details) (\<lambda>_. Q)"
  using assms by (auto simp: keeps_def execA_def split: sum.splits)

lemma approve_keeps:
  assumes "\<And>s h. I s \<Longrightarrow> P s \<Longrightarrow> I (s @ [Executed (approveFor E token n) None h])"
    "\<And>s h. I s \<Longrightarrow> P s \<Longrightarrow> Q (s @ [Executed (approveFor E token n) None h])" "stable Q"
  shows "keeps I P (approveA E token n) (\<lambda>_. Q)"
proof -
  have "keeps I P (execA E (approveFor E token n) None) (\<lambda>_. Q)" by (rule exec_keeps) (use assms(1,2) in blast)+
  then show ?thesis unfolding approveA_def
    by (rule keeps_bind) (auto intro!: keeps_bind [where Q = "\<lambda>_. Q"] wait_keeps keeps_lift assms(3))
qed

end

section \<open>Allowances\<close>

text \<open>
  What the events have approved: each submitted \<open>approve\<close> call sets the pool's allowance of its token, as
  in an ERC-20 contract.
\<close>

definition approval :: "string \<Rightarrow> demo_event \<Rightarrow> (int \<times> int) option" where
  "approval pool ev = (case ev of
      Executed c _ _ \<Rightarrow>
        (if call_entrypoint c = ''approve'' then
           (case (BigInt (BNString (call_contractAddress c)), call_calldata c) of
              (Inr t, [spender, low, high]) \<Rightarrow>
                if spender = pool then (case (BigInt (BNString low), BigInt (BNString high)) of
                     (Inr l, Inr h) \<Rightarrow> Some (t, l + h * 2 ^ 128) | _ \<Rightarrow> None)
                else None
            | _ \<Rightarrow> None)
         else None)
    | _ \<Rightarrow> None)"

definition set_allowance :: "string \<Rightarrow> (int \<Rightarrow> int) \<Rightarrow> demo_event \<Rightarrow> int \<Rightarrow> int" where
  "set_allowance pool a ev = (case approval pool ev of Some (t, n) \<Rightarrow> a(t := n) | None \<Rightarrow> a)"

definition allowance :: "string \<Rightarrow> demo_event list \<Rightarrow> int \<Rightarrow> int" where
  "allowance pool s = foldl (set_allowance pool) (\<lambda>_. 0) s"

lemma allowance_snoc: "allowance pool (s @ [ev]) = set_allowance pool (allowance pool s) ev"
  by (simp add: allowance_def)

lemma quiet_allowance: "quiet ev \<Longrightarrow> allowance pool (s @ [ev]) = allowance pool s"
  by (cases ev) (simp_all add: allowance_snoc set_allowance_def approval_def quiet_def)

lemma stable_allowance: "stable (\<lambda>s. P (allowance pool s))"
  by (simp add: stable_def quiet_allowance)

definition strk :: int where
  "strk = bn_val (BNString STRK_TOKEN_ADDRESS)"

lemma parse_digits_some:
  "list_all (\<lambda>c. case digit_val c of Some d \<Rightarrow> d < b | None \<Rightarrow> False) cs \<Longrightarrow> \<exists>n. parse_digits b acc cs = Some n"
  by (induction cs arbitrary: acc) (auto split: option.splits)

lemma strk_value: "BigInt (BNString STRK_TOKEN_ADDRESS) = Inr strk"
proof -
  have t: "trim STRK_TOKEN_ADDRESS = ''0x'' @ drop 2 STRK_TOKEN_ADDRESS" by code_simp
  have "list_all (\<lambda>c. case digit_val c of Some d \<Rightarrow> d < 16 | None \<Rightarrow> False) (drop 2 STRK_TOKEN_ADDRESS)" by code_simp
  then obtain n where "parse_digits 16 0 (drop 2 STRK_TOKEN_ADDRESS) = Some n" using parse_digits_some by blast
  moreover have "drop 2 STRK_TOKEN_ADDRESS \<noteq> []" by code_simp
  ultimately have "BigInt (BNString STRK_TOKEN_ADDRESS) = Inr (int n)" by (simp add: StringToBigInt_def t parse_nat_def)
  then show ?thesis by (simp add: strk_def bn_val_def toBigInt_def del: BigInt.simps)
qed

lemma approve_sets:
  assumes "BigInt (BNString token) = Inr t"
  shows "allowance (dv_pool E) (s @ [Executed (approveFor E token n) d h]) = (allowance (dv_pool E) s)(t := n)"
proof -
  have "BigInt (BNString ''0'') = Inr 0" by code_simp
  then show ?thesis using assms
    by (simp add: allowance_snoc set_allowance_def approval_def approveFor_def del: BigInt.simps)
qed

section \<open>Direct transactions find their allowances\<close>

datatype demo_op =
    DoRegister
  | DoMint string string
  | DoDeposit string string
  | DoWithdraw string string
  | DoTransfer string string string
  | DoSwap string string string int
  | DoAvnuSwap string string string rat
  | DoVesuSupply string string string
  | DoVesuWithdraw string string string

fun run_op :: "demo_env \<Rightarrow> demo_op \<Rightarrow> submission act" where
  "run_op E DoRegister = registerA E"
| "run_op E (DoMint token amount) = mintA E token amount"
| "run_op E (DoDeposit token amount) = depositA E token amount"
| "run_op E (DoWithdraw token amount) = withdrawA E token amount"
| "run_op E (DoTransfer token recipient amount) = transferA E token recipient amount"
| "run_op E (DoSwap fromToken toToken amount least) = swapA E fromToken toToken amount least"
| "run_op E (DoAvnuSwap fromToken toToken amount slippage) = avnuSwapA E fromToken toToken amount slippage"
| "run_op E (DoVesuSupply token vToken amount) = vesuSupplyA E token vToken amount"
| "run_op E (DoVesuWithdraw token vToken amount) = vesuWithdrawA E token vToken amount"

text \<open>What the pool pulls of a token from the caller: its fee, and the amount that is deposited.\<close>

fun demand :: "demo_env \<Rightarrow> demo_op \<Rightarrow> int \<Rightarrow> int" where
  "demand E (DoDeposit token amount) t =
     (if t = strk then feeAmount_of E else 0) +
     (if BigInt (BNString token) = Inr t then (case scaleAmount E token amount of Inr n \<Rightarrow> n | Inl _ \<Rightarrow> 0) else 0)"
| "demand E op t = (if t = strk then feeAmount_of E else 0)"

definition pool_call :: "demo_event \<Rightarrow> bool" where
  "pool_call ev = (case ev of Executed c _ _ \<Rightarrow> call_entrypoint c = ''apply_actions'' | _ \<Rightarrow> False)"

definition covered :: "string \<Rightarrow> (int \<Rightarrow> int) \<Rightarrow> demo_event list \<Rightarrow> bool" where
  "covered pool need s \<longleftrightarrow> (\<forall>pre ev post. s = pre @ ev # post \<and> pool_call ev \<longrightarrow> allowance pool pre = need)"

lemma covered_snoc: "covered pool need (s @ [ev]) \<longleftrightarrow> covered pool need s \<and> (pool_call ev \<longrightarrow> allowance pool s = need)"
proof
  assume c: "covered pool need (s @ [ev])"
  have "allowance pool pre = need" if "s = pre @ x # post" "pool_call x" for pre x post
    using c [unfolded covered_def, rule_format, of pre x "post @ [ev]"] that by simp
  moreover have "pool_call ev \<longrightarrow> allowance pool s = need"
    using c [unfolded covered_def, rule_format, of s ev "[]"] by simp
  ultimately show "covered pool need s \<and> (pool_call ev \<longrightarrow> allowance pool s = need)" by (auto simp: covered_def)
next
  assume c: "covered pool need s \<and> (pool_call ev \<longrightarrow> allowance pool s = need)"
  have "allowance pool pre = need" if "s @ [ev] = pre @ x # post" "pool_call x" for pre x post
  proof (cases post rule: rev_cases)
    case Nil
    with that c show ?thesis by simp
  next
    case (snoc p y)
    with that(1) have "s = pre @ x # p" by simp
    with that(2) c show ?thesis by (auto simp: covered_def)
  qed
  then show "covered pool need (s @ [ev])" by (auto simp: covered_def)
qed

lemma quiet_no_pool_call: "quiet ev \<Longrightarrow> \<not> pool_call ev"
  by (cases ev) (simp_all add: quiet_def pool_call_def)

interpretation cover: event_invariant "covered pool need" for pool need
  by unfold_locales (simp add: stable_def covered_snoc quiet_no_pool_call)

lemma approve_covered:
  assumes "\<And>a. P a \<Longrightarrow> Q (case BigInt (BNString token) of Inr t \<Rightarrow> a(t := n) | Inl _ \<Rightarrow> a)"
  shows "keeps (covered (dv_pool E) need) (\<lambda>s. P (allowance (dv_pool E) s)) (approveA E token n) (\<lambda>_ s. Q (allowance (dv_pool E) s))"
proof (rule cover.approve_keeps)
  fix s h
  assume c: "covered (dv_pool E) need s" and P: "P (allowance (dv_pool E) s)"
  show "covered (dv_pool E) need (s @ [Executed (approveFor E token n) None h])"
    using c by (simp add: covered_snoc pool_call_def approveFor_def)
  have "approval (dv_pool E) (Executed (approveFor E token n) None h) = None" if "BigInt (BNString token) = Inl e" for e
    using that by (simp add: approval_def approveFor_def del: BigInt.simps)
  then have "allowance (dv_pool E) (s @ [Executed (approveFor E token n) None h]) =
      (case BigInt (BNString token) of Inr t \<Rightarrow> (allowance (dv_pool E) s)(t := n) | Inl _ \<Rightarrow> allowance (dv_pool E) s)"
    using approve_sets [of token _ E s n None h] by (auto simp: allowance_snoc set_allowance_def split: sum.split simp del: BigInt.simps)
  then show "Q (allowance (dv_pool E) (s @ [Executed (approveFor E token n) None h]))" using assms P by simp
qed (rule stable_allowance)

text \<open>Between the approvals and the submission nothing changes an allowance.\<close>

abbreviation allowed :: "demo_env \<Rightarrow> PaymasterFeeAction option \<Rightarrow> (int \<Rightarrow> int) \<Rightarrow> demo_event list \<Rightarrow> bool" where
  "allowed E feeAction need s \<equiv> (feeAction = None \<longrightarrow> allowance (dv_pool E) s = need)"

lemma stable_allowed: "stable (allowed E feeAction need)"
  by (rule stable_allowance)

lemma submit_covered:
  "keeps (covered (dv_pool E) need) (allowed E feeAction need) (buildProveSubmit E b feeAction lastBlock) (\<lambda>_ _. True)"
proof -
  note st = stable_allowed [where E = E and feeAction = feeAction and need = need]
  have True_stable: "stable (\<lambda>_. True)" by (simp add: stable_def)
  have "keeps (covered (dv_pool E) need) (\<lambda>s. allowed E feeAction need s \<and> call_entrypoint (er_call r) = ''apply_actions'')
      (if feeAction \<noteq> None then sponsoredA E r else directA E r) (\<lambda>_ _. True)" for r
  proof (cases feeAction)
    case None
    have "keeps (covered (dv_pool E) need) (\<lambda>s. allowed E feeAction need s \<and> call_entrypoint (er_call r) = ''apply_actions'')
        (directA E r) (\<lambda>_. (\<lambda>_. True))"
      unfolding directA_def by (rule cover.exec_keeps) (simp_all add: covered_snoc None)
    with None show ?thesis by simp
  next
    case (Some f)
    have "keeps (covered (dv_pool E) need) (\<lambda>s. allowed E feeAction need s \<and> call_entrypoint (er_call r) = ''apply_actions'')
        (sponsoredA E r) (\<lambda>_ _. True)"
      by (rule keeps_weaken [OF cover.sponsored_keeps [OF True_stable]]) simp_all
    with Some show ?thesis by simp
  qed
  then have "keeps (covered (dv_pool E) need) (\<lambda>s. allowed E feeAction need s \<and> call_entrypoint (er_call r) = ''apply_actions'')
      (bindA (if feeAction \<noteq> None then sponsoredA E r else directA E r) (settledA E r)) (\<lambda>_ _. True)" for r
    by (rule keeps_bind) (rule cover.settled_keeps [OF True_stable])
  then have rest: "keeps (covered (dv_pool E) need) (allowed E feeAction need) (bindA (proveA E b' block) (\<lambda>r.
      bindA (if feeAction \<noteq> None then sponsoredA E r else directA E r) (settledA E r))) (\<lambda>_ _. True)" for b' block
    by (rule keeps_bind [OF cover.prove_keeps [OF st]])
  show ?thesis unfolding buildProveSubmit_def
    by (rule keeps_bind [where Q = "\<lambda>_. allowed E feeAction need"], simp add: keeps_lift,
        rule keeps_bind [OF cover.proving_block_keeps [OF st]], rule rest)
qed

lemma transact_covered:
  "keeps (covered (dv_pool E) need) (allowed E feeAction need) (transactA E feeAction options steps) (\<lambda>_ _. True)"
  unfolding transactA_def
  by (rule keeps_at [where m = "\<lambda>s0. bindA (liftA (chained steps (buildWith E options))) (\<lambda>b. buildProveSubmit E b feeAction (dv_lastTxBlock E s0))"])
     (rule keeps_bind [where Q = "\<lambda>_. allowed E feeAction need"], rule keeps_lift, simp, rule submit_covered)

text \<open>After the fee is approved, where it has to be.\<close>

definition fee_need :: "demo_env \<Rightarrow> int \<Rightarrow> int" where
  "fee_need E = (\<lambda>_. 0)(strk := feeAmount_of E)"

lemma ensure_covered:
  assumes "\<not> already \<Longrightarrow> need = a(strk := feeAmount_of E)" "already \<Longrightarrow> need = a" "a strk = 0 \<or> already"
  shows "keeps (covered (dv_pool E) need) (\<lambda>s. allowance (dv_pool E) s = a) (ensureFeeApproval E feeAction already) (\<lambda>_. allowed E feeAction need)"
proof (cases "feeAction \<noteq> None \<or> already \<or> feeAmount_of E = 0")
  case True
  moreover have "need = a" if "feeAmount_of E = 0" using assms that by (cases already) auto
  ultimately show ?thesis using assms(2) by (auto simp: ensureFeeApproval_def intro!: keeps_lift)
next
  case False
  have "keeps (covered (dv_pool E) need) (\<lambda>s. allowance (dv_pool E) s = a) (approveA E STRK_TOKEN_ADDRESS (feeAmount_of E))
      (\<lambda>_ s. allowance (dv_pool E) s = need)"
    using approve_covered [where P = "\<lambda>x. x = a" and Q = "\<lambda>x. x = need" and token = STRK_TOKEN_ADDRESS and n = "feeAmount_of E" and E = E and need = need] False assms(1) by (simp add: strk_value del: BigInt.simps)
  then have "keeps (covered (dv_pool E) need) (\<lambda>s. allowance (dv_pool E) s = a) (approveA E STRK_TOKEN_ADDRESS (feeAmount_of E))
      (\<lambda>_. allowed E feeAction need)" by (rule keeps_weaken) simp_all
  with False show ?thesis by (simp add: ensureFeeApproval_def)
qed

abbreviation nothing_approved :: "demo_env \<Rightarrow> demo_event list \<Rightarrow> bool" where
  "nothing_approved E s \<equiv> allowance (dv_pool E) s = (\<lambda>_. 0)"

abbreviation keeps_cover :: "demo_env \<Rightarrow> (int \<Rightarrow> int) \<Rightarrow> (demo_event list \<Rightarrow> bool) \<Rightarrow> 'a act \<Rightarrow> ('a \<Rightarrow> demo_event list \<Rightarrow> bool) \<Rightarrow> bool" where
  "keeps_cover E need \<equiv> keeps (covered (dv_pool E) need)"

lemma fee_covered: "keeps_cover E need (nothing_approved E) (fetchPaymasterFee E) (\<lambda>_. nothing_approved E)"
  by (rule keeps_weaken [OF cover.fee_keeps [OF stable_allowance [of "\<lambda>a. a = (\<lambda>_. 0)"]]]) blast+

lemma ensure_fee_covered: "keeps_cover E (fee_need E) (nothing_approved E) (ensureFeeApproval E feeAction False) (\<lambda>_. allowed E feeAction (fee_need E))"
  by (rule ensure_covered) (simp_all add: fee_need_def)

lemma fee_then:
  assumes "\<And>f. keeps_cover E (fee_need E) (allowed E f (fee_need E)) (go f) (\<lambda>_ _. True)"
  shows "keeps_cover E (fee_need E) (nothing_approved E) (bindA (fetchPaymasterFee E) (\<lambda>f. bindA (ensureFeeApproval E f False) (\<lambda>_. go f))) (\<lambda>_ _. True)"
  by (rule keeps_bind [OF fee_covered], rule keeps_bind [OF ensure_fee_covered], rule assms)

lemma ready_covered: "keeps I P (readyA E) (\<lambda>_. P)"
  by (simp add: readyA_def keeps_lift)

lemma lift_covered: "keeps I P (liftA r) (\<lambda>_. P)"
  by (simp add: keeps_lift)

lemma throw_covered: "keeps I P (liftA (Inl e)) Q"
  by (rule keeps_lift) simp

lemma prepared_covered:
  assumes "\<And>active n f. keeps_cover E (fee_need E) (allowed E f (fee_need E)) (go active n f) (\<lambda>_ _. True)"
  shows "keeps_cover E (fee_need E) (nothing_approved E) (preparedA E token amount go) (\<lambda>_ _. True)"
  unfolding preparedA_def
  by (rule keeps_bind [OF ready_covered], rule keeps_bind [OF lift_covered], rule fee_then, rule assms)

lemma deposit_covered:
  fixes E :: demo_env and token amount :: string
  defines "need \<equiv> demand E (DoDeposit token amount)"
  shows "keeps_cover E need (nothing_approved E) (depositA E token amount) (\<lambda>_ _. True)"
proof -
  define Q where "Q n strkDeposit f s \<longleftrightarrow> (f = None \<longrightarrow> (\<exists>t. BigInt (BNString token) = Inr t \<and> (strkDeposit \<longleftrightarrow> t = strk) \<and>
      allowance (dv_pool E) s = (\<lambda>_. 0)(t := n + (if strkDeposit then feeAmount_of E else 0))))" for n strkDeposit and f :: "PaymasterFeeAction option" and s
  have approved: "keeps_cover E need (\<lambda>s. nothing_approved E s \<and>
        (f = None \<longrightarrow> (\<exists>t. BigInt (BNString token) = Inr t \<and> (strkDeposit \<longleftrightarrow> t = strk))))
      (approveA E token (n + (if strkDeposit then feeAmount_of E else 0))) (\<lambda>_. Q n strkDeposit f)" for n strkDeposit f
  proof (cases "f = None \<longrightarrow> (\<exists>t. BigInt (BNString token) = Inr t \<and> (strkDeposit \<longleftrightarrow> t = strk))")
    case True
    have "keeps_cover E need (\<lambda>s. (\<lambda>a. a = (\<lambda>_. 0)) (allowance (dv_pool E) s)) (approveA E token (n + (if strkDeposit then feeAmount_of E else 0)))
      (\<lambda>_ s. (\<lambda>a. f = None \<longrightarrow> (\<exists>t. BigInt (BNString token) = Inr t \<and> (strkDeposit \<longleftrightarrow> t = strk) \<and>
         a = (\<lambda>_. 0)(t := n + (if strkDeposit then feeAmount_of E else 0)))) (allowance (dv_pool E) s))"
      by (rule approve_covered) (use True in \<open>auto simp: fun_eq_iff simp del: BigInt.simps\<close>)
    then show ?thesis using True by (auto simp: Q_def [abs_def] keeps_def)
  next
    case False
    then show ?thesis by (auto simp: keeps_def)
  qed
  have ensured: "keeps_cover E need (Q n strkDeposit f) (ensureFeeApproval E f strkDeposit) (\<lambda>_. allowed E f need)"
    if n: "scaleAmount E token amount = Inr n" for n strkDeposit f
  proof (cases f)
    case (Some x)
    then show ?thesis by (simp add: ensureFeeApproval_def keeps_lift)
  next
    case None
    show ?thesis
    proof (cases "\<exists>t. BigInt (BNString token) = Inr t \<and> (strkDeposit \<longleftrightarrow> t = strk)")
      case True
      then obtain t where t: "BigInt (BNString token) = Inr t" "strkDeposit \<longleftrightarrow> t = strk" by blast
      let ?a = "(\<lambda>_. 0)(t := n + (if strkDeposit then feeAmount_of E else 0))"
      have "keeps_cover E need (\<lambda>s. allowance (dv_pool E) s = ?a) (ensureFeeApproval E f strkDeposit) (\<lambda>_. allowed E f need)"
        by (rule ensure_covered) (use t n in \<open>auto simp: need_def fun_eq_iff simp del: BigInt.simps\<close>)
      then show ?thesis by (rule keeps_weaken) (use t None in \<open>auto simp: Q_def simp del: BigInt.simps\<close>)
    next
      case False
      with None have "Q n strkDeposit f s = False" for s by (auto simp: Q_def)
      then show ?thesis by (simp add: keeps_def)
    qed
  qed
  have strk: "keeps_cover E need (nothing_approved E)
      (liftA (if f \<noteq> None then Inr False else bindR (BigInt (BNString token)) (\<lambda>t. bindR (BigInt (BNString STRK_TOKEN_ADDRESS)) (\<lambda>strk. Inr (t = strk)))))
      (\<lambda>d s. nothing_approved E s \<and> (f = None \<longrightarrow> (\<exists>t. BigInt (BNString token) = Inr t \<and> (d \<longleftrightarrow> t = strk))))" for f
    by (rule keeps_lift) (auto simp: strk_value bindR_eq_Inr simp del: BigInt.simps split: if_splits)
  have scaled: "keeps_cover E need (nothing_approved E) (liftA (scaleAmount E token amount)) (\<lambda>n s. scaleAmount E token amount = Inr n \<and> nothing_approved E s)"
    by (simp add: keeps_lift)
  have rest: "keeps_cover E need (\<lambda>s. scaleAmount E token amount = Inr n \<and> nothing_approved E s)
     (bindA (fetchPaymasterFee E) (\<lambda>f. bindA (liftA (if f \<noteq> None then Inr False
            else bindR (BigInt (BNString token)) (\<lambda>t. bindR (BigInt (BNString STRK_TOKEN_ADDRESS)) (\<lambda>strk. Inr (t = strk))))) (\<lambda>d.
     bindA (approveA E token (n + (if d then feeAmount_of E else 0))) (\<lambda>_.
     bindA (ensureFeeApproval E f d) (\<lambda>_. transactA E f options (steps n)))))) (\<lambda>_ _. True)" for n options steps
  proof (cases "scaleAmount E token amount = Inr n")
    case True
    show ?thesis
      by (rule keeps_weaken [where P' = "nothing_approved E" and Q' = "\<lambda>_ _. True"], rule keeps_bind [OF fee_covered], rule keeps_bind [OF strk],
          rule keeps_bind [OF approved], rule keeps_bind [OF ensured [OF True]], rule transact_covered) simp_all
  next
    case False
    then show ?thesis by (simp add: keeps_def)
  qed
  show ?thesis unfolding depositA_def
    by (rule keeps_bind [OF ready_covered], rule keeps_bind [OF scaled], rule rest)
qed

lemma ask_covered: "quiet ev \<Longrightarrow> keeps_cover E need (nothing_approved E) (ask ev answer) (\<lambda>_. nothing_approved E)"
  by (rule cover.ask_keeps [OF _ stable_allowance [of "\<lambda>a. a = (\<lambda>_. 0)"]])

lemma wait_covered: "keeps_cover E need (nothing_approved E) (waitA E h) (\<lambda>_. nothing_approved E)"
  by (simp add: waitA_def ask_covered quiet_def)

lemma admin_covered: "keeps_cover E need (nothing_approved E) (adminA E c) (\<lambda>_. nothing_approved E)"
  by (auto simp: keeps_def adminA_def covered_snoc pool_call_def quiet_def quiet_allowance split: sum.splits)

lemmas op_defs = registerA_def mintA_def withdrawA_def transferA_def swapA_def avnuSwapA_def vesuSupplyA_def vesuWithdrawA_def

lemma other_covered:
  assumes "\<And>token amount. op \<noteq> DoDeposit token amount"
  shows "keeps_cover E (fee_need E) (nothing_approved E) (run_op E op) (\<lambda>_ _. True)"
proof (cases op)
  case DoRegister
  have "keeps_cover E (fee_need E) (nothing_approved E) (bindA (ensureFeeApproval E None False) (\<lambda>_. transactA E None no_partial [pb_register])) (\<lambda>_ _. True)"
    by (rule keeps_bind [OF ensure_fee_covered], rule transact_covered)
  then show ?thesis by (simp add: DoRegister registerA_def throw_covered)
next
  case (DoMint token amount)
  show ?thesis unfolding DoMint run_op.simps mintA_def
    by (auto intro!: throw_covered keeps_bind [OF lift_covered] keeps_bind [OF admin_covered] keeps_bind [OF wait_covered]
        keeps_bind [OF ask_covered] keeps_lift simp: quiet_def)
next
  case (DoSwap fromToken toToken amount least)
  show ?thesis unfolding DoSwap run_op.simps swapA_def
    by (auto intro!: keeps_bind [OF ready_covered] throw_covered keeps_bind [OF lift_covered] fee_then transact_covered split: option.split)
next
  case (DoAvnuSwap fromToken toToken amount slippage)
  have sponsored: "keeps_cover E (fee_need E) (nothing_approved E) (transactA E (Some f) options steps) (\<lambda>_ _. True)" for f options steps
    by (rule keeps_weaken [OF transact_covered]) simp_all
  show ?thesis unfolding DoAvnuSwap run_op.simps avnuSwapA_def
    by (rule keeps_bind [OF ready_covered], rule keeps_bind [OF lift_covered], rule keeps_bind [OF fee_covered])
       (auto intro!: throw_covered keeps_bind [OF ask_covered] sponsored simp: quiet_def split: list.split)
next
  case (DoVesuSupply token vToken amount)
  show ?thesis unfolding DoVesuSupply run_op.simps vesuSupplyA_def
    by (auto intro!: keeps_bind [OF ready_covered] throw_covered prepared_covered transact_covered split: option.split)
next
  case (DoVesuWithdraw token vToken amount)
  show ?thesis unfolding DoVesuWithdraw run_op.simps vesuWithdrawA_def
    by (auto intro!: keeps_bind [OF ready_covered] throw_covered keeps_bind [OF lift_covered] keeps_bind [OF ask_covered] fee_then transact_covered
        simp: quiet_def split: option.split)
qed (use assms in \<open>auto simp: withdrawA_def transferA_def intro!: prepared_covered transact_covered\<close>)

lemma run_covered: "keeps_cover E (demand E op) (nothing_approved E) (run_op E op) (\<lambda>_ _. True)"
proof (cases "\<exists>token amount. op = DoDeposit token amount")
  case True
  then show ?thesis using deposit_covered by auto
next
  case False
  then have "demand E op = fee_need E" by (cases op) (auto simp: fee_need_def fun_eq_iff)
  with False other_covered [of op E] show ?thesis by auto
qed


section \<open>The proving block\<close>

lemma waitBlocks_returns:
  assumes "\<And>k. k \<le> n \<Longrightarrow> \<exists>b. dv_blockNumber E (s @ replicate k PolledBlock) = Inr b"
    and "dv_blockNumber E (s @ replicate n PolledBlock) = Inr b" "lastBlock < b - PROVING_BLOCK_DEPTH"
  shows "\<exists>k x. waitBlocks E lastBlock latest s = Some (Inr x, s @ replicate k PolledBlock) \<and> k \<le> Suc n \<and> lastBlock < x - PROVING_BLOCK_DEPTH \<and>
    (k = 0 \<and> x = latest \<or> 0 < k \<and> dv_blockNumber E (s @ replicate (k - 1) PolledBlock) = Inr x)"
  using assms
proof (induction n arbitrary: latest s)
  case 0
  show ?case
  proof (cases "lastBlock \<ge> latest - PROVING_BLOCK_DEPTH")
    case True
    then have "waitBlocks E lastBlock latest s = Some (Inr b, s @ replicate 1 PolledBlock)"
      using 0 by (simp add: waitBlocks.simps [of E lastBlock latest] waitBlocks.simps [of E lastBlock b])
    with 0 show ?thesis by (intro exI [of _ 1] exI [of _ b]) simp
  next
    case False
    then show ?thesis by (intro exI [of _ 0] exI [of _ latest]) (simp add: waitBlocks.simps [of E lastBlock latest])
  qed
next
  case (Suc n)
  show ?case
  proof (cases "lastBlock \<ge> latest - PROVING_BLOCK_DEPTH")
    case True
    obtain b0 where b0: "dv_blockNumber E s = Inr b0" using Suc.prems(1) [of 0] by auto
    let ?s = "s @ [PolledBlock]"
    have ext: "?s @ replicate k PolledBlock = s @ replicate (Suc k) PolledBlock" for k by simp
    have "\<exists>k x. waitBlocks E lastBlock b0 ?s = Some (Inr x, ?s @ replicate k PolledBlock) \<and> k \<le> Suc n \<and> lastBlock < x - PROVING_BLOCK_DEPTH \<and>
        (k = 0 \<and> x = b0 \<or> 0 < k \<and> dv_blockNumber E (?s @ replicate (k - 1) PolledBlock) = Inr x)"
      by (rule Suc.IH) (use Suc.prems ext in \<open>auto simp only: Suc_le_mono\<close>)
    then obtain k x where k: "waitBlocks E lastBlock b0 ?s = Some (Inr x, s @ replicate (Suc k) PolledBlock)" "k \<le> Suc n"
      "lastBlock < x - PROVING_BLOCK_DEPTH" "k = 0 \<and> x = b0 \<or> 0 < k \<and> dv_blockNumber E (?s @ replicate (k - 1) PolledBlock) = Inr x"
      unfolding ext by blast
    have "dv_blockNumber E (s @ replicate k PolledBlock) = Inr x" using k(4) b0 by (cases k) auto
    with k True b0 show ?thesis
      by (intro exI [of _ "Suc k"] exI [of _ x]) (simp add: waitBlocks.simps [of E lastBlock latest])
  next
    case False
    then show ?thesis by (intro exI [of _ 0] exI [of _ latest]) (simp add: waitBlocks.simps [of E lastBlock latest])
  qed
qed

text \<open>
  C24: If the node keeps answering and the chain gets far enough, waiting for the proving block ends, no later
  than with the poll that shows it; and the block that is proved against lies after the account's last
  transaction, nine blocks behind the last block that was read.
\<close>

theorem proving_block_reached:
  assumes "\<And>k. k \<le> n \<Longrightarrow> \<exists>b. dv_blockNumber E (s @ replicate k PolledBlock) = Inr b"
    and "dv_blockNumber E (s @ replicate n PolledBlock) = Inr b" "lastBlock < b - PROVING_BLOCK_DEPTH"
  shows "\<exists>k x. waitForProvingBlock E (Some lastBlock) s = Some (Inr (x - 9), s @ replicate (Suc k) PolledBlock) \<and>
    k \<le> n \<and> lastBlock < x - 9 \<and> dv_blockNumber E (s @ replicate k PolledBlock) = Inr x"
proof -
  obtain b0 where b0: "dv_blockNumber E s = Inr b0" using assms(1) [of 0] by auto
  have first: "waitForProvingBlock E (Some lastBlock) s =
      bindA (waitBlocks E lastBlock b0) (\<lambda>block. liftA (Inr (block - PROVING_BLOCK_DEPTH))) (s @ [PolledBlock])"
    by (simp add: waitForProvingBlock_def bindA_def ask_def b0)
  have ext: "(s @ [PolledBlock]) @ replicate k PolledBlock = s @ replicate (Suc k) PolledBlock" for k by simp
  show ?thesis
  proof (cases n)
    case 0
    with assms b0 have "waitBlocks E lastBlock b0 (s @ [PolledBlock]) = Some (Inr b0, s @ [PolledBlock])" "lastBlock < b0 - 9"
      by (simp_all add: waitBlocks.simps PROVING_BLOCK_DEPTH_def)
    then show ?thesis using b0 by (intro exI [of _ 0] exI [of _ b0]) (simp add: first bindA_def liftA_def PROVING_BLOCK_DEPTH_def)
  next
    case (Suc m)
    have "\<exists>k x. waitBlocks E lastBlock b0 (s @ [PolledBlock]) = Some (Inr x, (s @ [PolledBlock]) @ replicate k PolledBlock) \<and> k \<le> Suc m \<and>
        lastBlock < x - PROVING_BLOCK_DEPTH \<and> (k = 0 \<and> x = b0 \<or> 0 < k \<and> dv_blockNumber E ((s @ [PolledBlock]) @ replicate (k - 1) PolledBlock) = Inr x)"
      by (rule waitBlocks_returns) (use assms Suc ext in \<open>auto simp only: Suc_le_mono\<close>)
    then obtain k x where k: "waitBlocks E lastBlock b0 (s @ [PolledBlock]) = Some (Inr x, s @ replicate (Suc k) PolledBlock)" "k \<le> Suc m"
      "lastBlock < x - PROVING_BLOCK_DEPTH" "k = 0 \<and> x = b0 \<or> 0 < k \<and> dv_blockNumber E ((s @ [PolledBlock]) @ replicate (k - 1) PolledBlock) = Inr x"
      unfolding ext by blast
    have "dv_blockNumber E (s @ replicate k PolledBlock) = Inr x" using k(4) b0 by (cases k) auto
    with k Suc show ?thesis
      by (intro exI [of _ k] exI [of _ x]) (simp add: first bindA_def liftA_def PROVING_BLOCK_DEPTH_def)
  qed
qed

section \<open>What is submitted\<close>

text \<open>A builder on which the given calls have been made, whatever else was set on it.\<close>

definition holds_calls :: "bignum \<Rightarrow> (bignum \<times> call) list \<Rightarrow> TransfersBuilder \<Rightarrow> bool" where
  "holds_calls user cs b \<longleftrightarrow> pb_tokenBuilders b = grouped user cs \<and> pb_userAddress b = user"

lemma holds_start: "holds_calls (BNBigint (pt_user (dv_pt E))) [] (buildWith E options)"
  by (simp add: holds_calls_def buildWith_def new_TransfersBuilder_def grouped_def first_uses_def)

lemma holds_call: "onToken tc b = (b', None) \<Longrightarrow> holds_calls user cs b \<Longrightarrow> holds_calls user (cs @ [tc]) b'"
  using pb_with_ok [of "fst tc" user "snd tc" b b' cs] by (auto simp: onToken_def holds_calls_def)

lemma holds_other:
  "pb_surplusTo r w b = (b', None) \<Longrightarrow> holds_calls user cs b \<Longrightarrow> holds_calls user cs b'"
  "pb_setInvoke f b = (b', None) \<Longrightarrow> holds_calls user cs b \<Longrightarrow> holds_calls user cs b'"
  "pb_register b = (b', None) \<Longrightarrow> holds_calls user cs b \<Longrightarrow> holds_calls user cs b'"
  by (auto simp: holds_calls_def pb_surplusTo_def with_bigint_ok pb_setInvoke_def assertNoInvokePhaseAction_def pb_register_def split: option.splits if_splits)

lemma chained_Cons: "chained (c # cs) b = Inr b' \<longleftrightarrow> (\<exists>b1. c b = (b1, None) \<and> chained cs b1 = Inr b')"
  by (auto split: prod.splits option.splits)

lemma holds_collected:
  assumes "holds_calls user cs b"
  shows "a_deposits (collectActions b) = Some (by_token cs paid_in) \<and> a_createNotes (collectActions b) = Some (by_token cs created) \<and>
    a_withdraws (collectActions b) = Some (by_token cs (paid_out user)) \<and> a_useNotes (collectActions b) = Some (by_token cs used)"
  using assms by (simp add: holds_calls_def by_token_def collectActions_def grouped_def comp_def) (simp add: built_def)

text \<open>The calls the fee asks for, and those of an operation. An AVNU swap is routed to an executor the service names.\<close>

definition fee_calls :: "PaymasterFeeAction option \<Rightarrow> (bignum \<times> call) list" where
  "fee_calls feeAction = (case feeAction of None \<Rightarrow> [] | Some f \<Rightarrow> [(BNString (fa_token f), withdrawCall (fa_recipient f) (amount_of (fa_amount f)))])"

lemma addFee_holds: "addFeeWithdraw b feeAction = Inr b' \<Longrightarrow> holds_calls user cs b \<Longrightarrow> holds_calls user (cs @ fee_calls feeAction) b'"
proof (cases feeAction)
  case (Some f)
  assume a: "addFeeWithdraw b feeAction = Inr b'" "holds_calls user cs b"
  obtain n where n: "BigInt (BNString (fa_amount f)) = Inr n" "chained [onToken (BNString (fa_token f), withdrawCall (fa_recipient f) n)] b = Inr b'"
    using a(1) by (auto simp only: Some addFeeWithdraw_def option.case bindR_eq_Inr)
  then have "onToken (BNString (fa_token f), withdrawCall (fa_recipient f) n) b = (b', None)" by (simp only: chained_Cons) simp
  moreover have "amount_of (fa_amount f) = n" using n(1) by (simp add: amount_of_def bn_val_def toBigInt_def del: BigInt.simps)
  ultimately show ?thesis using a(2) holds_call by (simp add: fee_calls_def Some)
qed (simp add: addFeeWithdraw_def fee_calls_def)

definition exchange_calls :: "string \<Rightarrow> string \<Rightarrow> string \<Rightarrow> string \<Rightarrow> int \<Rightarrow> (bignum \<times> call) list" where
  "exchange_calls active fromToken toToken executor amount =
     [(BNString fromToken, withdrawCall executor amount), (BNString fromToken, Surplus (BNString active) (Some False)),
      (BNString toToken, Transfers [\<lparr>tt_recipient = BNString active, tt_amount = Open\<rparr>])]"

definition scaled :: "demo_env \<Rightarrow> string \<Rightarrow> string \<Rightarrow> int" where
  "scaled E token amount = (case scaleAmount E token amount of Inr n \<Rightarrow> n | Inl _ \<Rightarrow> 0)"

definition active_of :: "demo_env \<Rightarrow> string" where
  "active_of E = or_else (dv_activeAddress E) ''''"

fun asks_for :: "demo_env \<Rightarrow> demo_op \<Rightarrow> (bignum \<times> call) list \<Rightarrow> bool" where
  "asks_for E DoRegister cs \<longleftrightarrow> cs = []"
| "asks_for E (DoMint token amount) cs \<longleftrightarrow> False"
| "asks_for E (DoDeposit token amount) cs \<longleftrightarrow>
     cs = [(BNString token, Deposits [\<lparr>td_recipient = Some (BNString (active_of E)), td_amount = scaled E token amount\<rparr>])]"
| "asks_for E (DoWithdraw token amount) cs \<longleftrightarrow> cs = [(BNString token, withdrawCall (active_of E) (scaled E token amount))]"
| "asks_for E (DoTransfer token recipient amount) cs \<longleftrightarrow>
     cs = [(BNString token, Transfers [\<lparr>tt_recipient = BNString recipient, tt_amount = Amt (scaled E token amount)\<rparr>])]"
| "asks_for E (DoSwap fromToken toToken amount least) cs \<longleftrightarrow> (\<exists>ekubo. cf_ekubo (dv_config E) = Some ekubo \<and>
     cs = exchange_calls (active_of E) fromToken toToken (ek_executorAddress ekubo) (scaled E fromToken amount))"
| "asks_for E (DoAvnuSwap fromToken toToken amount slippage) cs \<longleftrightarrow>
     (\<exists>executor. cs = exchange_calls (active_of E) fromToken toToken executor (scaled E fromToken amount))"
| "asks_for E (DoVesuSupply token vToken amount) cs \<longleftrightarrow> (\<exists>vesu. cf_vesu (dv_config E) = Some vesu \<and>
     cs = exchange_calls (active_of E) token vToken (ve_anonymizerAddress vesu) (scaled E token amount))"
| "asks_for E (DoVesuWithdraw token vToken amount) cs \<longleftrightarrow> (\<exists>vesu. cf_vesu (dv_config E) = Some vesu \<and>
     cs = exchange_calls (active_of E) vToken token (ve_anonymizerAddress vesu) (scaled E vToken amount))"

definition fills :: "demo_env \<Rightarrow> (TransfersBuilder \<Rightarrow> TransfersBuilder \<times> error option) list \<Rightarrow> (bignum \<times> call) list \<Rightarrow> bool" where
  "fills E steps cs \<longleftrightarrow> (\<forall>options b. chained steps (buildWith E options) = Inr b \<longrightarrow> holds_calls (BNBigint (pt_user (dv_pt E))) cs b)"

lemma fills_register: "fills E [pb_register] []"
  by (auto simp: fills_def chained_Cons pb_register_def holds_calls_def buildWith_def new_TransfersBuilder_def grouped_def first_uses_def)

lemma fills_one: "fills E [pb_surplusTo r w, onToken tc] [tc]"
proof -
  have "holds_calls (BNBigint (pt_user (dv_pt E))) ([] @ [tc]) b"
    if "chained [pb_surplusTo r w, onToken tc] (buildWith E options) = Inr b" for options b
    using that by (auto simp: chained_Cons simp del: chained.simps(2) append.simps intro!: holds_call elim: holds_other(1) intro: holds_start)
  then show ?thesis by (simp add: fills_def)
qed

lemma fills_exchange: "fills E (exchange_steps active fromToken toToken executor amount f) (exchange_calls active fromToken toToken executor amount)"
proof -
  have "holds_calls (BNBigint (pt_user (dv_pt E))) ((([] @ [c1]) @ [c2]) @ [c3]) b"
    if steps: "chained [pb_surplusTo r w, onToken c1, onToken c2, onToken c3, pb_setInvoke f] (buildWith E options) = Inr b" for r w c1 c2 c3 options b
  proof -
    obtain b1 b2 b3 b4 where "pb_surplusTo r w (buildWith E options) = (b1, None)" "onToken c1 b1 = (b2, None)" "onToken c2 b2 = (b3, None)"
      "onToken c3 b3 = (b4, None)" "pb_setInvoke f b4 = (b, None)"
      using steps unfolding chained_Cons by auto
    then show ?thesis by (blast intro: holds_start holds_other holds_call)
  qed
  then show ?thesis by (simp add: fills_def exchange_steps_def exchange_calls_def)
qed

lemma ready_Inr: "readyA E s = Some (Inr a, s') \<longleftrightarrow> s' = s \<and> dv_hasUser E \<and> dv_hasTransfers E \<and> dv_hasProvider E \<and> set_text (dv_activeAddress E) \<and> a = active_of E"
  by (auto simp: readyA_def liftA_def active_of_def or_else_def set_text_def split: option.splits if_splits)

lemma list_case_Inr:
  "(case xs of [] \<Rightarrow> liftA (Inl e) | q # qs \<Rightarrow> f q) s = Some (Inr x, s') \<longleftrightarrow> (\<exists>q qs. xs = q # qs \<and> f q s = Some (Inr x, s'))"
  by (cases xs) (auto simp: liftA_def)

text \<open>A fee that the paymaster has quoted.\<close>

definition quoted_fee :: "demo_env \<Rightarrow> PaymasterFeeAction option \<Rightarrow> bool" where
  "quoted_fee E feeAction \<longleftrightarrow> feeAction = None \<or> (\<exists>s s'. fetchPaymasterFee E s = Some (Inr feeAction, s'))"

lemma quotedI: "fetchPaymasterFee E s = Some (Inr feeAction, s') \<Longrightarrow> quoted_fee E feeAction" "quoted_fee E None"
  by (auto simp: quoted_fee_def)

text \<open>A successful operation ends in the shared part, with the calls it was asked for.\<close>

lemma op_transacts:
  assumes "run_op E op s = Some (Inr x, s')" "\<And>token amount. op \<noteq> DoMint token amount"
  shows "\<exists>feeAction options steps cs s1. transactA E feeAction options steps s1 = Some (Inr x, s') \<and> quoted_fee E feeAction \<and> asks_for E op cs \<and> fills E steps cs"
proof (cases op)
  case DoRegister
  with assms(1) obtain s1 where "transactA E None no_partial [pb_register] s1 = Some (Inr x, s')"
    by (auto simp: registerA_def act_success split: if_splits)
  with fills_register [of E] DoRegister show ?thesis by (metis asks_for.simps(1) quotedI(2))
next
  case (DoDeposit token amount)
  with assms(1) show ?thesis
    by (auto simp: depositA_def act_success ready_Inr scaled_def simp del: BigInt.simps) (metis fills_one quotedI)
next
  case (DoWithdraw token amount)
  with assms(1) show ?thesis by (auto simp: withdrawA_def preparedA_def act_success ready_Inr scaled_def) (metis fills_one quotedI)
next
  case (DoTransfer token recipient amount)
  with assms(1) show ?thesis by (auto simp: transferA_def preparedA_def act_success ready_Inr scaled_def) (metis fills_one quotedI)
next
  case (DoSwap fromToken toToken amount least)
  with assms(1) show ?thesis
    by (auto simp: swapA_def act_success ready_Inr scaled_def split: option.splits) (metis fills_exchange quotedI)
next
  case (DoAvnuSwap fromToken toToken amount slippage)
  have "\<exists>feeAction executor f s1. transactA E feeAction exchange_options
      (exchange_steps (active_of E) fromToken toToken executor (scaled E fromToken amount) f) s1 = Some (Inr x, s') \<and> quoted_fee E feeAction"
    using assms(1) unfolding DoAvnuSwap run_op.simps avnuSwapA_def
    by (auto simp: act_success ready_Inr scaled_def list_case_Inr split: if_splits) (metis quotedI(1))
  then obtain feeAction executor f s1 where "transactA E feeAction exchange_options
      (exchange_steps (active_of E) fromToken toToken executor (scaled E fromToken amount) f) s1 = Some (Inr x, s')" "quoted_fee E feeAction" by blast
  moreover have "asks_for E op (exchange_calls (active_of E) fromToken toToken executor (scaled E fromToken amount))"
    unfolding DoAvnuSwap by auto
  ultimately show ?thesis using fills_exchange by blast
next
  case (DoVesuSupply token vToken amount)
  with assms(1) show ?thesis
    by (auto simp: vesuSupplyA_def preparedA_def act_success ready_Inr scaled_def split: option.splits) (metis fills_exchange quotedI)
next
  case (DoVesuWithdraw token vToken amount)
  with assms(1) show ?thesis
    by (auto simp: vesuWithdrawA_def act_success ready_Inr scaled_def split: option.splits) (metis fills_exchange quotedI)
qed (use assms(2) in auto)

text \<open>An event that sends the call of an execution result, by the account itself or through the paymaster.\<close>

definition carries :: "demo_env \<Rightarrow> PaymasterFeeAction option \<Rightarrow> ExecuteResult \<Rightarrow> string \<Rightarrow> demo_event \<Rightarrow> bool" where
  "carries E feeAction r h ev = (case feeAction of
      None \<Rightarrow> (\<exists>details. ev = Executed (er_call r) details h)
    | Some _ \<Rightarrow> ev = Posted ''paymaster_executeTransaction''
        (proved_call_json (toPaymasterCall (dv_selector E) (er_call r)) (p_data (er_proof r)) (proofFacts (er_proof r))))"

lemma sent_Inr:
  "(if feeAction \<noteq> None then sponsoredA E r else directA E r) s = Some (Inr h, s') \<Longrightarrow> \<exists>ev. s' = s @ [ev] \<and> carries E feeAction r h ev"
  by (auto simp: carries_def sponsoredA_def directA_def execA_def Let_def act_success split: if_splits sum.splits)

lemma settled_Inr: "settledA E r h s = Some (Inr x, s') \<Longrightarrow> s' = s @ [Awaited h] \<and> sub_txHash x = h \<and> (\<exists>n. dv_receipt E s h = Inr (True, n) \<and> sub_blockNumber x = Some n)"
  by (auto simp: settledA_def waitA_def act_success split: if_splits)

lemma submit_Inr:
  assumes "buildProveSubmit E b0 feeAction lastBlock s = Some (Inr x, s')"
  shows "\<exists>s1 b block pir r ev. addFeeWithdraw b0 feeAction = Inr b \<and> s' = s1 @ [Proved (pir_invocation pir) block, ev, Awaited (sub_txHash x)] \<and>
    builtInvocation (dv_transfers E s1) (dv_pt E) b block = Inr pir \<and>
    executeWithInvocation (dv_transfers E s1) (dv_pt E) pir (Some (BlockNumber block)) = Inr r \<and> carries E feeAction r (sub_txHash x) ev"
proof -
  obtain b block s1 r s2 h s3 where p: "addFeeWithdraw b0 feeAction = Inr b" "proveA E b block s1 = Some (Inr r, s2)"
    "(if feeAction \<noteq> None then sponsoredA E r else directA E r) s2 = Some (Inr h, s3)" "settledA E r h s3 = Some (Inr x, s')"
    using assms unfolding buildProveSubmit_def act_success by blast
  obtain pir where q: "builtInvocation (dv_transfers E s1) (dv_pt E) b block = Inr pir" "s2 = s1 @ [Proved (pir_invocation pir) block]"
    "executeWithInvocation (dv_transfers E s1) (dv_pt E) pir (Some (BlockNumber block)) = Inr r"
    using p(2) unfolding proveA_def act_success by blast
  from sent_Inr [OF p(3)] settled_Inr [OF p(4)] p(1) q show ?thesis by (intro exI [of _ s1] exI [of _ b] exI [of _ block] exI [of _ pir] exI [of _ r]) auto
qed


section \<open>Batches\<close>

lemma approveAll_keeps:
  assumes "\<And>t n. (t, n) \<in> set ds \<Longrightarrow> keeps I P (approveA E t n) (\<lambda>_. P)"
  shows "keeps I P (approveAll E ds) (\<lambda>_. P)"
  using assms
proof (induction ds)
  case (Cons d ds)
  have "keeps I P (bindA (approveA E (fst d) (snd d)) (\<lambda>_. approveAll E ds)) (\<lambda>_. P)"
    by (rule keeps_bind [where Q = "\<lambda>_. P"]) (use Cons in \<open>auto simp: prod_eq_iff\<close>)
  then show ?case by (cases d) simp
qed (simp add: lift_covered)

text \<open>
  Deposits are totalled by the spelling of the token. Two spellings of one token are approved one after
  the other, and the second approval replaces the first: the pool may pull only the second amount.
\<close>

theorem approvals_overwritten:
  assumes "approveAll E [(t1, a), (t2, b)] s = Some (Inr (), s')" "BigInt (BNString t1) = Inr t" "BigInt (BNString t2) = Inr t"
  shows "allowance (dv_pool E) s' t = b"
proof -
  have trivial: "event_invariant (\<lambda>_. True)" by unfold_locales (simp add: stable_def)
  have "keeps (\<lambda>_. True) (\<lambda>_. True) (approveA E t2 b) (\<lambda>_ s. allowance (dv_pool E) s t = b)"
    by (rule event_invariant.approve_keeps [OF trivial]) (simp_all add: approve_sets [OF assms(3)] stable_allowance [of "\<lambda>x. x t = b"])
  then have second: "keeps (\<lambda>_. True) (\<lambda>_. True) (bindA (approveA E t2 b) (\<lambda>_. liftA (Inr ()))) (\<lambda>_ s. allowance (dv_pool E) s t = b)"
    by (rule keeps_bind) (rule lift_covered)
  have "keeps (\<lambda>_. True) (\<lambda>_. True) (approveA E t1 a) (\<lambda>_ _. True)"
    by (rule event_invariant.approve_keeps [OF trivial]) (simp_all add: stable_def)
  from keeps_bind [OF this second] have "keeps (\<lambda>_. True) (\<lambda>_. True) (approveAll E [(t1, a), (t2, b)]) (\<lambda>_ s. allowance (dv_pool E) s t = b)"
    by simp
  then show ?thesis using assms(1) by (auto simp: keeps_def)
qed

text \<open>The events of a batch leave the STRK allowance alone.\<close>

abbreviation no_strk :: "demo_env \<Rightarrow> demo_event list \<Rightarrow> bool" where
  "no_strk E s \<equiv> allowance (dv_pool E) s strk = 0"

interpretation unapproved: event_invariant "\<lambda>s. allowance pool s t = n" for pool t n
  by unfold_locales (rule stable_allowance [of "\<lambda>a. a t = n"])

lemma yes_stable: "stable (\<lambda>_. True)"
  by (simp add: stable_def)

lemma approve_other:
  assumes "BigInt (BNString token) \<noteq> Inr strk"
  shows "keeps (no_strk E) (\<lambda>_. True) (approveA E token n) (\<lambda>_ _. True)"
proof (rule unapproved.approve_keeps [where Q = "\<lambda>_. True"])
  fix s h
  assume s: "allowance (dv_pool E) s strk = 0"
  show "allowance (dv_pool E) (s @ [Executed (approveFor E token n) None h]) strk = 0"
  proof (cases "BigInt (BNString token)")
    case (Inl e)
    then have "approval (dv_pool E) (Executed (approveFor E token n) None h) = None" by (simp add: approval_def approveFor_def del: BigInt.simps)
    with s show ?thesis by (simp add: allowance_snoc set_allowance_def)
  next
    case (Inr t)
    with assms s show ?thesis by (simp add: approve_sets [OF Inr])
  qed
qed (simp_all add: yes_stable)

lemma direct_other: "call_entrypoint (er_call r) = ''apply_actions'' \<Longrightarrow> keeps (no_strk E) (\<lambda>_. True) (directA E r) (\<lambda>_ _. True)"
  unfolding directA_def
  by (rule unapproved.exec_keeps [where Q = "\<lambda>_. True"]) (simp_all add: allowance_snoc set_allowance_def approval_def)

lemma batch_submit_other:
  assumes "\<not> set_text (cf_paymasterUrl (dv_config E))"
  shows "keeps (no_strk E) (\<lambda>_. call_entrypoint (er_call r) = ''apply_actions'') (batchSubmit E active signed r) (\<lambda>_ _. True)"
proof (cases "call_entrypoint (er_call r) = ''apply_actions''")
  case True
  with direct_other [of r E] assms show ?thesis by (simp add: batchSubmit_def)
qed (simp add: keeps_def)

text \<open>
  A batch without a paymaster never approves the pool's fee: unless it deposits STRK itself, whatever
  happens the STRK allowance of the pool stays zero, so a pool that charges a fee finds none. The single
  operations above approve it.
\<close>

theorem batch_fee_unapproved:
  assumes "executeBatch E ops [] = Some (r, s)" "\<not> set_text (cf_paymasterUrl (dv_config E))"
    and "\<And>ds d. depositsByToken E ops = Inr ds \<Longrightarrow> d \<in> set ds \<Longrightarrow> BigInt (BNString (fst d)) \<noteq> Inr strk"
  shows "allowance (dv_pool E) s strk = 0"
proof -
  have fee: "keeps (no_strk E) (\<lambda>_. True) (batchFee E active ds) (\<lambda>_ _. True)" if "depositsByToken E ops = Inr ds" for active ds
  proof -
    have "keeps (no_strk E) (\<lambda>_. True) (approveAll E ds) (\<lambda>_ _. True)"
      by (rule approveAll_keeps) (use assms(3) [OF that] in \<open>fastforce intro: approve_other simp del: BigInt.simps\<close>)
    then have "keeps (no_strk E) (\<lambda>_. True) (bindA (approveAll E ds) (\<lambda>_. liftA (Inr (None, None)))) (\<lambda>_ _. True)"
      by (rule keeps_bind) (rule lift_covered)
    then show ?thesis using assms(2) by (simp add: batchFee_def)
  qed
  have block: "keeps (no_strk E) (\<lambda>_. True) (\<lambda>s. waitForProvingBlock E (dv_lastTxBlock E s) s) (\<lambda>_ _. True)"
    by (rule keeps_at) (rule keeps_weaken [OF unapproved.proving_block_keeps [OF yes_stable]], simp_all)
  have submit: "keeps (no_strk E) (\<lambda>_. True \<and> call_entrypoint (er_call q) = ''apply_actions'')
      (bindA (batchSubmit E active signed q) (settledA E q)) (\<lambda>_ _. True)" for active signed q
    by (rule keeps_bind [where Q = "\<lambda>_ _. True"], rule keeps_weaken [OF batch_submit_other [OF assms(2)]], simp, simp)
       (rule unapproved.settled_keeps [OF yes_stable])
  have prove: "keeps (no_strk E) (\<lambda>_. True) (bindA (proveA E b blk) (\<lambda>q. bindA (batchSubmit E active signed q) (settledA E q))) (\<lambda>_ _. True)"
    for b blk active signed
    by (rule keeps_bind [OF unapproved.prove_keeps [OF yes_stable] submit])
  have "keeps (no_strk E) (\<lambda>_. True) (executeBatch E ops) (\<lambda>_ _. True)"
    unfolding executeBatch_def Let_def case_prod_unfold
    by (rule keeps_bind [OF ready_covered], rule keeps_bind [where Q = "\<lambda>ds _. depositsByToken E ops = Inr ds"], simp add: keeps_lift,
        rule keeps_bind [where Q = "\<lambda>_ _. True"], (use fee in \<open>auto simp: keeps_def\<close>)[1],
        rule keeps_bind [OF lift_covered], rule keeps_bind [OF lift_covered], rule keeps_bind [OF block], rule prove)
  moreover have "allowance (dv_pool E) [] strk = 0" by (simp add: allowance_def)
  ultimately show ?thesis using assms(1) unfolding keeps_def by blast
qed

section \<open>The status\<close>

text \<open>
  When an operation has ended, the status is no longer pending and holds either the hash of a confirmed
  transaction or an error, never both; later labels of the timeline no longer change it; and the last
  transaction block never moves back and covers the block of the transaction.
\<close>

lemma execute_end_settled:
  assumes "execute_end message action r lastBlock = (st, lastBlock')"
  shows "\<not> ts_pending st \<and> (ts_lastTxHash st = None \<longleftrightarrow> ts_lastError st \<noteq> None) \<and> stepChange label st = st \<and>
    (\<forall>b. lastBlock = Some b \<longrightarrow> (\<exists>b'. lastBlock' = Some b' \<and> b \<le> b')) \<and>
    (\<forall>x n. r = Inr x \<and> sub_blockNumber x = Some n \<longrightarrow> (\<exists>b'. lastBlock' = Some b' \<and> n \<le> b'))"
  using assms by (auto simp: execute_end_def stepChange_def updateLastTxBlockNumber_def dest!: sym [of "Some _"] split: sum.splits option.splits if_splits)

section \<open>A concrete run\<close>

text \<open>A demo whose pool charges a fee of three, run on the sample prover.\<close>

definition demo_fee_config :: AppConfig where
  "demo_fee_config = \<lparr>cf_rpcUrl = [], cf_indexerUrl = [], cf_poolAddress = ''0x9'', cf_poolClassHash = [], cf_compliancePublicKey = [],
     cf_proofValidityBlocks = ''450'', cf_tokens = [sample_token], cf_chainId = [], cf_provingServiceUrl = None, cf_backendIndexerUrl = None,
     cf_backendProverUrl = None, cf_ohttpKeyConfig = None, cf_gatewayUrl = None, cf_feederGatewayUrl = None, cf_explorerUrl = None,
     cf_ekubo = None, cf_vesu = None, cf_ohttpEnabled = None, cf_paymasterUrl = None, cf_paymasterFeeToken = None, cf_avnuApiKey = None,
     cf_paymasterForwarderAddress = None, cf_feeAmount = Some 3, cf_feeCollectorAddress = None\<rparr>"

definition sample_demo :: demo_env where
  "sample_demo =
     \<lparr>dv_config = demo_fee_config, dv_pool = ''0x9'', dv_text = \<lparr>JSON_stringify = (\<lambda>_. None), js_String = (\<lambda>_. '''')\<rparr>,
      dv_selector = (\<lambda>s. s), dv_asCalls = (\<lambda>_. \<lparr>avc_calls = [], avc_executorAddress = None\<rparr>), dv_serializeCalls = (\<lambda>_. []),
      dv_hasUser = True, dv_hasAdmin = False, dv_hasTransfers = True, dv_hasProvider = True, dv_activeAddress = Some ''0x1'',
      dv_pt = sample_transfers, dv_transfers = (\<lambda>_. sample_env), dv_lastTxBlock = (\<lambda>_. Some 20),
      dv_execute = (\<lambda>s _ _. Inr (to_base 10 (length s))), dv_adminExecute = (\<lambda>_ _. Inl NoResult),
      dv_receipt = (\<lambda>_ _. Inr (True, 40)), dv_blockNumber = (\<lambda>s. Inr (20 + 4 * int (length s))),
      dv_post = (\<lambda>_ _ _ _. Inl NoResult), dv_view = (\<lambda>_ _ _ _ _. Inl NoResult), dv_fetchQuotes = (\<lambda>_ _ _. NetworkError ''''),
      dv_fetchCalls = (\<lambda>_ _ _. NetworkError ''''), dv_sign = (\<lambda>_ _. Inl NoResult), dv_balancesChanged = (\<lambda>_. Inr ())\<rparr>"

lemma sample_register:
  "case run_op sample_demo DoRegister [] of
     Some (Inr x, s) \<Rightarrow> length s = 7 \<and> pool_call (s ! 5) \<and> sub_blockNumber x = Some 40
   | _ \<Rightarrow> False"
  by code_simp

lemma register_run:
  obtains x s where "run_op sample_demo DoRegister [] = Some (Inr x, s)" "length s = 7" "pool_call (s ! 5)" "sub_blockNumber x = Some 40"
proof (cases "run_op sample_demo DoRegister []")
  case None
  with sample_register show ?thesis by simp
next
  case (Some y)
  obtain q s where y: "y = (q, s)" by (cases y)
  obtain x where "q = Inr x" using sample_register by (cases q) (simp_all add: Some y del: run_op.simps)
  with sample_register that show ?thesis by (simp add: Some y del: run_op.simps)
qed


theorem proving_block_reached_witness:
  "\<exists>k x. waitForProvingBlock sample_demo (Some 30) [] = Some (Inr (x - 9), replicate (Suc k) PolledBlock) \<and> k \<le> 5 \<and> 30 < x - 9"
proof -
  have answers: "dv_blockNumber sample_demo ([] @ replicate k PolledBlock) = Inr (20 + 4 * int k)" for k
    by (simp add: sample_demo_def)
  have ans: "\<exists>b. dv_blockNumber sample_demo ([] @ replicate k PolledBlock) = Inr b" for k using answers by blast
  have "\<exists>k x. waitForProvingBlock sample_demo (Some 30) [] = Some (Inr (x - 9), [] @ replicate (Suc k) PolledBlock) \<and>
      k \<le> 5 \<and> 30 < x - 9 \<and> dv_blockNumber sample_demo ([] @ replicate k PolledBlock) = Inr x"
    by (rule proving_block_reached [where b = 40]) (rule ans, simp only: answers, simp_all add: PROVING_BLOCK_DEPTH_def)
  then show ?thesis by auto
qed


text \<open>The status after a batch, which clears the label.\<close>

definition batch_end :: "(error \<Rightarrow> string) \<Rightarrow> submission result \<Rightarrow> int option \<Rightarrow> TransactionStatus \<times> int option" where
  "batch_end message r lastBlock = (let (st, lastBlock') = execute_end message ''Builder'' r lastBlock in (st\<lparr>ts_action := None\<rparr>, lastBlock'))"

end
